(* ===== verification/Prelude.thy ===== *)
theory Prelude
  imports Main "HOL-Library.Word" "HOL-Library.List_Lexorder" "HOL-Library.Char_ord"
begin

text \<open>
  Shared vocabulary of the development: the error values of the code's \<open>Result<_, String>\<close>
  (and of \<open>rusqlite::Error\<close>, which \<open>Db::with\<close> turns into the same \<open>String\<close>), Rust's checked
  and saturating integer operations on \<open>64 word\<close> and \<open>32 word\<close> values and on the \<open>i64\<close>
  timestamps, the JSON values of request payloads, and generic lemmas on lists.
  Strings are byte lists ordered lexicographically (theories List_Lexorder and Char_ord),
  which is SQLite's BINARY collation and Rust's order on \<open>str\<close>.
\<close>

section \<open>Results\<close>

text \<open>
  \<open>NoRows\<close>, \<open>InvalidQuery\<close> and \<open>Constraint\<close> (a UNIQUE, PRIMARY KEY or FOREIGN KEY failure or
  an aborting trigger, with the table's name) are \<open>rusqlite::Error\<close> values; \<open>Failure\<close> carries
  a message the code itself writes.
\<close>

datatype error = NoRows | InvalidQuery | Constraint string | Failure string

type_synonym 'a result = "error + 'a"

text \<open>The text an error is stored or compared as.\<close>

definition error_text :: "error \<Rightarrow> string" where
  "error_text e = (case e of Failure m \<Rightarrow> m | Constraint t \<Rightarrow> ''constraint failed: '' @ t
     | NoRows \<Rightarrow> ''Query returned no rows'' | InvalidQuery \<Rightarrow> ''Query is not read-only'')"

definition ok_or :: "'a option \<Rightarrow> error \<Rightarrow> 'a result" where
  "ok_or x e = (case x of None \<Rightarrow> Inl e | Some v \<Rightarrow> Inr v)"

definition is_ok :: "'a result \<Rightarrow> bool" where
  "is_ok r = (case r of Inl _ \<Rightarrow> False | Inr _ \<Rightarrow> True)"

lemma ok_or_simps [simp]: "ok_or None e = Inl e" "ok_or (Some v) e = Inr v"
  by (simp_all add: ok_or_def)

lemma ok_or_Inr [simp]: "ok_or x e = Inr v \<longleftrightarrow> x = Some v"
  by (cases x) simp_all

lemma is_ok_simps [simp]: "is_ok (Inl e) = False" "is_ok (Inr v) = True"
  by (simp_all add: is_ok_def)

lemma is_okE: "is_ok r \<Longrightarrow> (\<And>v. r = Inr v \<Longrightarrow> P) \<Longrightarrow> P"
  by (cases r) auto

definition guard :: "bool \<Rightarrow> string \<Rightarrow> unit result" where
  "guard b msg = (if b then Inr () else Inl (Failure msg))"

definition and_then :: "'a result \<Rightarrow> ('a \<Rightarrow> 'b result) \<Rightarrow> 'b result" where
  "and_then r f = (case r of Inl e \<Rightarrow> Inl e | Inr x \<Rightarrow> f x)"

lemma guard_Inr [simp]: "guard b msg = Inr u \<longleftrightarrow> b"
  by (simp add: guard_def)

lemma and_then_Inr: "and_then r f = Inr y \<longleftrightarrow> (\<exists>x. r = Inr x \<and> f x = Inr y)"
  by (auto simp: and_then_def split: sum.split)

section \<open>Machine integers\<close>

type_synonym u64 = "64 word"
type_synonym u32 = "32 word"

definition checked_add :: "u64 \<Rightarrow> u64 \<Rightarrow> u64 option" where
  "checked_add a b = (if unat a + unat b < 2 ^ 64 then Some (a + b) else None)"

definition checked_sub :: "u64 \<Rightarrow> u64 \<Rightarrow> u64 option" where
  "checked_sub a b = (if b \<le> a then Some (a - b) else None)"

definition checked_mul :: "u64 \<Rightarrow> u64 \<Rightarrow> u64 option" where
  "checked_mul a b = (if unat a * unat b < 2 ^ 64 then Some (a * b) else None)"

definition saturating_sub :: "u64 \<Rightarrow> u64 \<Rightarrow> u64" where
  "saturating_sub a b = (if b \<le> a then a - b else 0)"

definition div_ceil :: "u64 \<Rightarrow> u64 \<Rightarrow> u64" where
  "div_ceil a b = (if a mod b > 0 then a div b + 1 else a div b)"

text \<open>The \<open>i64\<close> bounds of SQLite integers and of Unix timestamps.\<close>

definition i64_max :: int where "i64_max = 9223372036854775807"
definition i64_min :: int where "i64_min = - 9223372036854775808"

definition sat_i64 :: "int \<Rightarrow> int" where
  "sat_i64 n = max i64_min (min i64_max n)"

definition i64_of_u64 :: "u64 \<Rightarrow> int option" where
  "i64_of_u64 n = (if uint n \<le> i64_max then Some (uint n) else None)"

text \<open>Binding a \<open>u64\<close> parameter of a statement: rusqlite refuses values above \<open>i64::MAX\<close>.\<close>

definition sql_u64 :: "u64 \<Rightarrow> bool" where
  "sql_u64 n \<longleftrightarrow> i64_of_u64 n \<noteq> None"

lemma unat_checked_add: "checked_add a b = Some c \<Longrightarrow> unat c = unat a + unat b"
  by (auto simp: checked_add_def unat_word_ariths split: if_splits)

lemma unat_checked_sub: "checked_sub a b = Some c \<Longrightarrow> unat a = unat b + unat c"
  by (auto simp: checked_sub_def unat_sub word_le_nat_alt split: if_splits)

lemma unat_checked_mul: "checked_mul a b = Some c \<Longrightarrow> unat c = unat a * unat b"
  by (auto simp: checked_mul_def unat_word_ariths split: if_splits)

lemma unat_saturating_sub: "unat (saturating_sub a b) = unat a - unat b"
  by (auto simp: saturating_sub_def unat_sub word_le_nat_alt)

lemma checked_sub_Some: "checked_sub a b = Some c \<longleftrightarrow> b \<le> a \<and> c = a - b"
  by (auto simp: checked_sub_def)

section \<open>JSON values\<close>

text \<open>
  \<open>serde_json::Value\<close>. Non-integral numbers keep their decimal text: no code modelled here
  computes with them. Objects are association lists, first entry winning.
\<close>

datatype json =
    JNull
  | JBool bool
  | JInt int
  | JFloat string
  | JStr string
  | JArr "json list"
  | JObj "(string \<times> json) list"

text \<open>\<open>value["field"]\<close>: \<open>Null\<close> when absent or when the value is no object.\<close>

fun jfield :: "json \<Rightarrow> string \<Rightarrow> json" where
  "jfield (JObj kvs) k = (case map_of kvs k of None \<Rightarrow> JNull | Some v \<Rightarrow> v)"
| "jfield _ _ = JNull"

fun as_str :: "json \<Rightarrow> string option" where
  "as_str (JStr s) = Some s"
| "as_str _ = None"

fun as_u64 :: "json \<Rightarrow> u64 option" where
  "as_u64 (JInt n) = (if 0 \<le> n \<and> n < 2 ^ 64 then Some (word_of_int n) else None)"
| "as_u64 _ = None"

fun as_i64 :: "json \<Rightarrow> int option" where
  "as_i64 (JInt n) = (if i64_min \<le> n \<and> n \<le> i64_max then Some n else None)"
| "as_i64 _ = None"

text \<open>\<open>value.get("field")\<close> tells an absent field from \<open>Null\<close>.\<close>

fun jget :: "json \<Rightarrow> string \<Rightarrow> json option" where
  "jget (JObj kvs) k = map_of kvs k"
| "jget _ _ = None"

definition juint :: "u64 \<Rightarrow> json" where
  "juint n = JInt (uint n)"

definition jopt :: "('a \<Rightarrow> json) \<Rightarrow> 'a option \<Rightarrow> json" where
  "jopt f x = (case x of None \<Rightarrow> JNull | Some v \<Rightarrow> f v)"

text \<open>SQLite's \<open>json_set(value, '$.key', x)\<close>: replaces the field of an object, or adds it.\<close>

fun jset_list :: "string \<Rightarrow> json \<Rightarrow> (string \<times> json) list \<Rightarrow> (string \<times> json) list" where
  "jset_list k v [] = [(k, v)]"
| "jset_list k v ((k', v') # kvs) = (if k' = k then (k, v) # kvs else (k', v') # jset_list k v kvs)"

fun json_set :: "string \<Rightarrow> json \<Rightarrow> json \<Rightarrow> json" where
  "json_set k v (JObj kvs) = JObj (jset_list k v kvs)"
| "json_set _ _ j = j"

lemma map_of_jset_list: "map_of (jset_list k v kvs) = (map_of kvs)(k \<mapsto> v)"
  by (induction kvs) (auto simp: fun_eq_iff)

lemma jfield_json_set: "jfield (json_set k v (JObj kvs)) k' = (if k' = k then v else jfield (JObj kvs) k')"
  by (simp add: map_of_jset_list)

lemma as_u64_juint [simp]: "as_u64 (juint n) = Some n"
  using uint_lt2p [of n] by (simp add: juint_def)

section \<open>Lists\<close>

definition is_prefix_str :: "string \<Rightarrow> string \<Rightarrow> bool" where
  "is_prefix_str p s \<longleftrightarrow> take (length p) s = p"

text \<open>\<open>str::contains\<close>.\<close>

definition contains :: "string \<Rightarrow> string \<Rightarrow> bool" where
  "contains s needle \<longleftrightarrow> list_ex (\<lambda>i. take (length needle) (drop i s) = needle) [0..<Suc (length s)]"

definition first_row :: "('a \<Rightarrow> bool) \<Rightarrow> 'a list \<Rightarrow> 'a option" where
  "first_row p xs = (case filter p xs of [] \<Rightarrow> None | x # _ \<Rightarrow> Some x)"

lemma first_row_Nil [simp]: "first_row p [] = None"
  by (simp add: first_row_def)

lemma first_row_Cons [simp]: "first_row p (x # xs) = (if p x then Some x else first_row p xs)"
  by (simp add: first_row_def)

lemma first_row_None: "first_row p xs = None \<longleftrightarrow> (\<forall>x\<in>set xs. \<not> p x)"
  by (induction xs) auto

lemma first_row_SomeD: "first_row p xs = Some x \<Longrightarrow> x \<in> set xs \<and> p x"
  by (induction xs) (auto split: if_splits)

lemma first_row_conj: "first_row p xs = Some x \<Longrightarrow> q x \<Longrightarrow> first_row (\<lambda>x. p x \<and> q x) xs = Some x"
  by (induction xs) (auto split: if_splits)

lemma first_row_append: "first_row p (xs @ ys) = (case first_row p xs of None \<Rightarrow> first_row p ys | Some x \<Rightarrow> Some x)"
  by (induction xs) auto

lemma first_row_map: "first_row p (map f xs) = map_option f (first_row (p \<circ> f) xs)"
  by (induction xs) auto

lemma first_row_cong: "(\<And>x. x \<in> set xs \<Longrightarrow> p x = q x) \<Longrightarrow> first_row p xs = first_row q xs"
  by (induction xs) auto

lemma filter_length_one: "length (filter p xs) = Suc 0 \<Longrightarrow> \<exists>x\<in>set xs. p x"
  by (metis filter_False length_0_conv nat.distinct(1) list.size(3))

end
