(* ===== verification/Sql.thy ===== *)
theory Sql
  imports Prelude
begin

text \<open>
  The SQL layer every component is written in. An action runs against a state and returns a
  result with the state it leaves; \<open>transaction\<close> is rusqlite's \<open>unchecked_transaction\<close>, which
  rolls back when the closure returns an error before \<open>commit\<close>. A table is a lens from the
  database to a list of rows in rowid order; the statements (\<open>SELECT\<close>, \<open>INSERT\<close>,
  \<open>INSERT OR IGNORE\<close>, \<open>INSERT .. ON CONFLICT DO UPDATE\<close>, \<open>UPDATE\<close>, \<open>DELETE\<close>) are generic in
  the table. The locale \<open>table\<close> states the lens laws and proves what each statement does;
  the locale \<open>step_relation\<close> proves that a reflexive and transitive relation between the
  states before and after holds for an action when it holds for its statements; the locale
  \<open>evolving_table\<close> extends \<open>table\<close> with a relation that every update of a row respects.
\<close>

section \<open>Actions\<close>

type_synonym ('s, 'a) action = "'s \<Rightarrow> 'a result \<times> 's"

definition ret :: "'a \<Rightarrow> ('s, 'a) action" where
  "ret x = (\<lambda>s. (Inr x, s))"

definition throw :: "error \<Rightarrow> ('s, 'a) action" where
  "throw e = (\<lambda>s. (Inl e, s))"

definition bind_action :: "('s, 'a) action \<Rightarrow> ('a \<Rightarrow> ('s, 'b) action) \<Rightarrow> ('s, 'b) action" where
  "bind_action m k = (\<lambda>s. case m s of (Inl e, s') \<Rightarrow> (Inl e, s') | (Inr x, s') \<Rightarrow> k x s')"

definition then_action :: "('s, 'a) action \<Rightarrow> ('s, 'b) action \<Rightarrow> ('s, 'b) action" where
  "then_action m k = bind_action m (\<lambda>_. k)"

text \<open>\<open>match m { Ok(x) => .., Err(e) => .. }\<close>: the error is handled and the state kept.\<close>

definition handle :: "('s, 'a) action \<Rightarrow> ('a \<Rightarrow> ('s, 'b) action) \<Rightarrow> (error \<Rightarrow> ('s, 'b) action) \<Rightarrow> ('s, 'b) action" where
  "handle m k h = (\<lambda>s. case m s of (Inl e, s') \<Rightarrow> h e s' | (Inr x, s') \<Rightarrow> k x s')"

definition require :: "bool \<Rightarrow> error \<Rightarrow> ('s, unit) action" where
  "require b e = (if b then ret () else throw e)"

definition lift_result :: "'a result \<Rightarrow> ('s, 'a) action" where
  "lift_result r = (\<lambda>s. (r, s))"

definition transaction :: "('s, 'a) action \<Rightarrow> ('s, 'a) action" where
  "transaction m = (\<lambda>s. case m s of (Inl e, _) \<Rightarrow> (Inl e, s) | (Inr x, s') \<Rightarrow> (Inr x, s'))"

fun for_each :: "'a list \<Rightarrow> ('a \<Rightarrow> ('s, unit) action) \<Rightarrow> ('s, unit) action" where
  "for_each [] f = ret ()"
| "for_each (x # xs) f = then_action (f x) (for_each xs f)"

text \<open>The value and the state an action leaves.\<close>

definition result_of :: "('s, 'a) action \<Rightarrow> 's \<Rightarrow> 'a result" where
  "result_of m s = fst (m s)"

definition state_after :: "('s, 'a) action \<Rightarrow> 's \<Rightarrow> 's" where
  "state_after m s = snd (m s)"

lemmas action_defs = ret_def throw_def bind_action_def then_action_def require_def
  lift_result_def result_of_def state_after_def handle_def

lemma transaction_error_rolls_back: "transaction m s = (Inl e, s') \<Longrightarrow> s' = s"
  by (auto simp: transaction_def split: prod.splits sum.splits)

section \<open>Tables and statements\<close>

record ('s, 'r) tbl =
  rows :: "'s \<Rightarrow> 'r list"
  modify :: "('r list \<Rightarrow> 'r list) \<Rightarrow> 's \<Rightarrow> 's"

definition select_where :: "('s, 'r) tbl \<Rightarrow> ('r \<Rightarrow> bool) \<Rightarrow> ('s, 'r list) action" where
  "select_where t p = (\<lambda>s. (Inr (filter p (rows t s)), s))"

text \<open>\<open>query_row(..).optional()\<close> and \<open>query_row(..)\<close>.\<close>

definition query_optional :: "('s, 'r) tbl \<Rightarrow> ('r \<Rightarrow> bool) \<Rightarrow> ('s, 'r option) action" where
  "query_optional t p = (\<lambda>s. (Inr (first_row p (rows t s)), s))"

definition query_row :: "('s, 'r) tbl \<Rightarrow> ('r \<Rightarrow> bool) \<Rightarrow> ('s, 'r) action" where
  "query_row t p = (\<lambda>s. (ok_or (first_row p (rows t s)) NoRows, s))"

definition query_exists :: "('s, 'r) tbl \<Rightarrow> ('r \<Rightarrow> bool) \<Rightarrow> ('s, bool) action" where
  "query_exists t p = (\<lambda>s. (Inr (list_ex p (rows t s)), s))"

definition query_count :: "('s, 'r) tbl \<Rightarrow> ('r \<Rightarrow> bool) \<Rightarrow> ('s, nat) action" where
  "query_count t p = (\<lambda>s. (Inr (length (filter p (rows t s))), s))"

text \<open>
  \<open>INSERT\<close>: \<open>clash new old\<close> says that two rows share the value of a PRIMARY KEY or UNIQUE
  column group; \<open>fk\<close> is the rest of the statement's constraints (foreign keys, CHECKs,
  triggers that abort) against the current state.
\<close>

definition insert_into :: "string \<Rightarrow> ('s, 'r) tbl \<Rightarrow> ('r \<Rightarrow> 'r \<Rightarrow> bool) \<Rightarrow> ('s \<Rightarrow> bool) \<Rightarrow> 'r \<Rightarrow> ('s, unit) action" where
  "insert_into name t clash fk r = (\<lambda>s.
     if list_ex (clash r) (rows t s) \<or> \<not> fk s then (Inl (Constraint name), s)
     else (Inr (), modify t (\<lambda>rs. rs @ [r]) s))"

definition insert_or_ignore :: "('s, 'r) tbl \<Rightarrow> ('r \<Rightarrow> 'r \<Rightarrow> bool) \<Rightarrow> 'r \<Rightarrow> ('s, unit) action" where
  "insert_or_ignore t clash r = (\<lambda>s.
     if list_ex (clash r) (rows t s) then (Inr (), s) else (Inr (), modify t (\<lambda>rs. rs @ [r]) s))"

definition update_rows :: "('r \<Rightarrow> bool) \<Rightarrow> ('r \<Rightarrow> 'r) \<Rightarrow> 'r list \<Rightarrow> 'r list" where
  "update_rows p f = map (\<lambda>r. if p r then f r else r)"

text \<open>\<open>UPDATE .. WHERE\<close> of columns without a UNIQUE constraint; the value is the row count.\<close>

definition update_where :: "('s, 'r) tbl \<Rightarrow> ('r \<Rightarrow> bool) \<Rightarrow> ('r \<Rightarrow> 'r) \<Rightarrow> ('s, nat) action" where
  "update_where t p f = (\<lambda>s. (Inr (length (filter p (rows t s))), modify t (update_rows p f) s))"

text \<open>\<open>UPDATE\<close> of a UNIQUE column: fails, changing nothing, when the rows would then clash.\<close>

definition no_clash :: "('r \<Rightarrow> 'r \<Rightarrow> bool) \<Rightarrow> 'r list \<Rightarrow> bool" where
  "no_clash clash = sorted_wrt (\<lambda>a b. \<not> clash a b)"

definition update_unique :: "string \<Rightarrow> ('s, 'r) tbl \<Rightarrow> ('r \<Rightarrow> 'r \<Rightarrow> bool) \<Rightarrow> ('r \<Rightarrow> bool) \<Rightarrow> ('r \<Rightarrow> 'r) \<Rightarrow> ('s, nat) action" where
  "update_unique name t clash p f = (\<lambda>s.
     if no_clash clash (update_rows p f (rows t s)) then update_where t p f s
     else (Inl (Constraint name), s))"

text \<open>
  \<open>INSERT .. ON CONFLICT(key) DO UPDATE SET .. WHERE cond\<close>: \<open>same r\<close> is equality of the key;
  the count is 0 when a conflicting row fails the condition.
\<close>

definition upsert :: "('s, 'r) tbl \<Rightarrow> ('r \<Rightarrow> bool) \<Rightarrow> ('r \<Rightarrow> bool) \<Rightarrow> ('r \<Rightarrow> 'r) \<Rightarrow> 'r \<Rightarrow> ('s, nat) action" where
  "upsert t same cond f r = (\<lambda>s.
     if list_ex same (rows t s) then update_where t (\<lambda>r'. same r' \<and> cond r') f s
     else (Inr 1, modify t (\<lambda>rs. rs @ [r]) s))"

definition delete_where :: "('s, 'r) tbl \<Rightarrow> ('r \<Rightarrow> bool) \<Rightarrow> ('s, nat) action" where
  "delete_where t p = (\<lambda>s. (Inr (length (filter p (rows t s))), modify t (filter (\<lambda>r. \<not> p r)) s))"

definition void :: "('s, 'a) action \<Rightarrow> ('s, unit) action" where
  "void m = bind_action m (\<lambda>_. ret ())"

lemmas statement_defs = select_where_def query_optional_def query_row_def query_exists_def
  query_count_def insert_into_def insert_or_ignore_def update_where_def update_unique_def
  upsert_def delete_where_def void_def

section \<open>Evaluation of composed actions\<close>

lemma bind_ret [simp]: "bind_action (ret x) k = k x"
  by (simp add: action_defs)

lemma bind_throw [simp]: "bind_action (throw e) k = throw e"
  by (simp add: action_defs)

lemma then_simps [simp]: "then_action (ret x) k = k" "then_action (throw e) k = throw e"
  by (simp_all add: action_defs)

lemma require_simps [simp]: "require True e = ret ()" "require False e = throw e"
  by (simp_all add: require_def)

lemma lift_result_simps [simp]: "lift_result (Inr x) = ret x" "lift_result (Inl e) = throw e"
  by (simp_all add: action_defs)

lemma bind_InrE:
  assumes "bind_action m k s = (Inr y, s')"
  obtains x t where "m s = (Inr x, t)" "k x t = (Inr y, s')"
  using assms by (auto simp: bind_action_def split: prod.splits sum.splits)

lemma then_InrE:
  assumes "then_action m k s = (Inr y, s')"
  obtains x t where "m s = (Inr x, t)" "k t = (Inr y, s')"
  using assms by (auto simp: then_action_def bind_action_def split: prod.splits sum.splits)

lemma void_Inr: "void m s = (Inr u, s') \<longleftrightarrow> (\<exists>x. m s = (Inr x, s'))"
  by (auto simp: void_def action_defs split: prod.splits sum.splits)

lemma transaction_Inr: "transaction m s = (Inr x, s') \<longleftrightarrow> m s = (Inr x, s')"
  by (auto simp: transaction_def split: prod.splits sum.splits)

lemma require_Inr: "require b e s = (Inr u, s') \<longleftrightarrow> b \<and> s' = s"
  by (auto simp: action_defs)

lemma ret_Inr: "ret x s = (Inr y, s') \<longleftrightarrow> y = x \<and> s' = s"
  by (auto simp: action_defs)

lemma throw_Inr: "throw e s \<noteq> (Inr y, s')"
  by (auto simp: action_defs)

lemma lift_result_Inr: "lift_result r s = (Inr x, s') \<longleftrightarrow> r = Inr x \<and> s' = s"
  by (auto simp: action_defs)

lemmas action_Inr = transaction_Inr require_Inr ret_Inr throw_Inr lift_result_Inr void_Inr

lemma update_rows_Nil [simp]: "update_rows p f [] = []"
  by (simp add: update_rows_def)

lemma update_rows_Cons [simp]: "update_rows p f (r # rs) = (if p r then f r else r) # update_rows p f rs"
  by (simp add: update_rows_def)

lemma update_rows_append: "update_rows p f (xs @ ys) = update_rows p f xs @ update_rows p f ys"
  by (simp add: update_rows_def)

lemma set_update_rows: "set (update_rows p f rs) = (\<lambda>r. if p r then f r else r) ` set rs"
  by (simp add: update_rows_def)

lemma length_update_rows [simp]: "length (update_rows p f rs) = length rs"
  by (simp add: update_rows_def)

lemma updated_row: "x \<in> set rs \<Longrightarrow> p x \<Longrightarrow> f x \<in> set (update_rows p f rs)"
  by (induction rs) auto

lemma updated_ex: "x \<in> set rs \<Longrightarrow> p x \<Longrightarrow> Q (f x) \<Longrightarrow> \<exists>y\<in>set (update_rows p f rs). Q y"
  by (blast intro: updated_row)

lemma updated_all: "(\<And>r. Q (if p r then f r else r)) \<Longrightarrow> \<forall>r\<in>set (update_rows p f rs). Q r"
  unfolding set_update_rows by blast

lemma update_rows_none: "\<forall>r\<in>set rs. \<not> p r \<Longrightarrow> update_rows p f rs = rs"
  by (induction rs) auto

lemma first_row_update_rows:
  assumes "\<And>r. q (if p r then f r else r) = q r"
  shows "first_row q (update_rows p f rs) = map_option (\<lambda>r. if p r then f r else r) (first_row q rs)"
  using assms by (simp add: update_rows_def first_row_map comp_def)

lemma first_row_update_other:
  assumes "\<And>r. p r \<Longrightarrow> \<not> q r \<and> \<not> q (f r)"
  shows "first_row q (update_rows p f rs) = first_row q rs"
  using assms by (induction rs) auto

lemma no_clash_Nil [simp]: "no_clash c []"
  by (simp add: no_clash_def)

lemma no_clash_Cons: "no_clash c (r # rs) \<longleftrightarrow> (\<forall>r'\<in>set rs. \<not> c r r') \<and> no_clash c rs"
  by (simp add: no_clash_def)

lemma no_clash_snoc:
  assumes "\<And>a b. c a b = c b a"
  shows "no_clash c (rs @ [r]) \<longleftrightarrow> no_clash c rs \<and> (\<forall>r'\<in>set rs. \<not> c r r')"
  using assms by (auto simp: no_clash_def sorted_wrt_append)

lemma no_clash_filter: "no_clash c rs \<Longrightarrow> no_clash c (filter p rs)"
  by (simp add: no_clash_def sorted_wrt_filter)

lemma no_clash_update_rows:
  assumes "\<And>a b. c (if p a then f a else a) (if p b then f b else b) \<Longrightarrow> c a b" "no_clash c rs"
  shows "no_clash c (update_rows p f rs)"
  using assms(2) unfolding no_clash_def update_rows_def sorted_wrt_map
  by (rule sorted_wrt_mono_rel [rotated]) (use assms(1) in blast)

text \<open>Rows that pairwise do not clash hold a key at most once.\<close>

lemma no_clash_unique:
  assumes "no_clash c rs" "a \<in> set rs" "b \<in> set rs" "c a b" "c b a"
  shows "a = b"
  using assms by (induction rs) (auto simp: no_clash_Cons)

lemma no_clash_count_le_1:
  assumes "no_clash c rs" "\<And>a b. p a \<Longrightarrow> p b \<Longrightarrow> c a b"
  shows "length (filter p rs) \<le> 1"
  using assms(1)
proof (induction rs)
  case (Cons r rs)
  then show ?case
    using assms(2) by (auto simp: no_clash_Cons filter_empty_conv)
qed simp

section \<open>The table interface\<close>

locale table =
  fixes t :: "('s, 'r) tbl"
  assumes rows_modify: "rows t (modify t f s) = f (rows t s)"
    and modify_modify: "modify t f (modify t g s) = modify t (f \<circ> g) s"
    and modify_id: "f (rows t s) = rows t s \<Longrightarrow> modify t f s = s"
begin

lemma update_count: "update_where t p f s = (Inr n, s') \<Longrightarrow> n = length (filter p (rows t s))"
  by (simp add: update_where_def)

lemma rows_update: "rows t (state_after (update_where t p f) s) = update_rows p f (rows t s)"
  by (simp add: update_where_def state_after_def rows_modify)

lemma update_zero: "update_where t p f s = (Inr 0, s') \<Longrightarrow> s' = s"
  by (auto simp: update_where_def filter_empty_conv intro!: modify_id update_rows_none)

lemma rows_insert: "insert_into name t c fk r s = (Inr (), s') \<Longrightarrow> rows t s' = rows t s @ [r]"
  by (auto simp: insert_into_def rows_modify split: if_splits)

lemma insert_succeeds_iff:
  "is_ok (result_of (insert_into name t c fk r) s) \<longleftrightarrow> (\<forall>r'\<in>set (rows t s). \<not> c r r') \<and> fk s"
  by (auto simp: insert_into_def result_of_def list_ex_iff)

lemma insert_keeps_unique:
  assumes "\<And>a b. c a b = c b a" "no_clash c (rows t s)"
  shows "no_clash c (rows t (state_after (insert_into name t c fk r) s))"
  using assms by (auto simp: insert_into_def state_after_def rows_modify no_clash_snoc list_ex_iff)

lemma update_keeps_unique:
  assumes "\<And>a b. c (if p a then f a else a) (if p b then f b else b) \<Longrightarrow> c a b" "no_clash c (rows t s)"
  shows "no_clash c (rows t (state_after (update_where t p f) s))"
  unfolding rows_update using assms by (rule no_clash_update_rows)

lemma update_unique_keeps_unique:
  assumes "no_clash c (rows t s)"
  shows "no_clash c (rows t (state_after (update_unique name t c p f) s))"
  using assms by (auto simp: update_unique_def update_where_def state_after_def rows_modify)

text \<open>An unconditional upsert leaves the key's row: updated when it was there, else the new one.\<close>

lemma first_row_upsert:
  assumes "same r" "\<And>r'. same (f r') = same r'"
  shows "first_row same (rows t (state_after (upsert t same (\<lambda>_. True) f r) s)) =
    Some (case first_row same (rows t s) of None \<Rightarrow> r | Some r' \<Rightarrow> f r')"
proof (cases "first_row same (rows t s)")
  case None
  then have "\<not> list_ex same (rows t s)"
    by (simp add: first_row_None list_ex_iff)
  then show ?thesis
    using assms(1) by (simp add: upsert_def state_after_def rows_modify first_row_append None)
next
  case (Some r0)
  have "first_row same (update_rows same f xs) = map_option (\<lambda>r. if same r then f r else r) (first_row same xs)" for xs
    by (rule first_row_update_rows) (simp add: assms(2))
  moreover have "list_ex same (rows t s)" "same r0"
    using first_row_SomeD [OF Some] by (auto simp: list_ex_iff)
  ultimately show ?thesis
    by (simp add: upsert_def update_where_def state_after_def rows_modify Some)
qed

lemma first_row_upsert_other:
  assumes "\<And>r'. same r' \<Longrightarrow> \<not> q r' \<and> \<not> q (f r')" "\<not> q r"
  shows "first_row q (rows t (state_after (upsert t same cond f r) s)) = first_row q (rows t s)"
  using assms first_row_update_other [of "\<lambda>r'. same r' \<and> cond r'" q f]
  by (auto simp: upsert_def update_where_def state_after_def rows_modify first_row_append split: option.split)

lemma delete_keeps_unique:
  "no_clash c (rows t s) \<Longrightarrow> no_clash c (rows t (state_after (delete_where t p) s))"
  by (simp add: delete_where_def state_after_def rows_modify no_clash_filter)

lemma rows_delete: "rows t (state_after (delete_where t p) s) = filter (\<lambda>r. \<not> p r) (rows t s)"
  by (simp add: delete_where_def state_after_def rows_modify)

end

section \<open>Relations that every statement of an action respects\<close>

definition obeys :: "('s \<Rightarrow> 's \<Rightarrow> bool) \<Rightarrow> ('s, 'a) action \<Rightarrow> bool" where
  "obeys R m \<longleftrightarrow> (\<forall>s. R s (snd (m s)))"

lemma obeysD: "obeys R m \<Longrightarrow> R s (snd (m s))"
  by (simp add: obeys_def)

lemma obeys_mono: "(\<And>s s'. R s s' \<Longrightarrow> R' s s') \<Longrightarrow> obeys R m \<Longrightarrow> obeys R' m"
  by (auto simp: obeys_def)

text \<open>An action that looks at the state it runs in.\<close>

lemma obeys_read: "(\<And>x. obeys R (m x)) \<Longrightarrow> obeys R (\<lambda>s. m s s)"
  by (simp add: obeys_def)

locale step_relation =
  fixes R :: "'s \<Rightarrow> 's \<Rightarrow> bool"
  assumes R_refl: "R s s"
    and R_trans: "R s t \<Longrightarrow> R t u \<Longrightarrow> R s u"
begin

lemma obeys_ret: "obeys R (ret x)"
  by (simp add: obeys_def ret_def R_refl)

lemma obeys_throw: "obeys R (throw e)"
  by (simp add: obeys_def throw_def R_refl)

lemma obeys_require: "obeys R (require b e)"
  by (simp add: require_def obeys_ret obeys_throw)

lemma obeys_lift: "obeys R (lift_result r)"
  by (simp add: obeys_def lift_result_def R_refl)

lemma obeys_bind:
  assumes "obeys R m" "\<And>x. obeys R (k x)"
  shows "obeys R (bind_action m k)"
  unfolding obeys_def
proof
  fix s
  obtain r s' where m: "m s = (r, s')" by (cases "m s")
  have "R s s'" using assms(1) m by (metis obeys_def snd_conv)
  moreover have "R s' (snd (k x s'))" for x using assms(2) by (simp add: obeys_def)
  ultimately show "R s (snd (bind_action m k s))"
    using m by (cases r) (auto simp: bind_action_def intro: R_trans)
qed

text \<open>A continuation that only has to respect the relation for what the first action returns.\<close>

lemma obeys_bind_result:
  assumes "obeys R m" "\<And>s x s'. m s = (Inr x, s') \<Longrightarrow> obeys R (k x)"
  shows "obeys R (bind_action m k)"
  unfolding obeys_def
proof
  fix s
  obtain r s' where m: "m s = (r, s')" by (cases "m s")
  then have "R s s'" using assms(1) by (metis obeys_def snd_conv)
  then show "R s (snd (bind_action m k s))"
    using m assms(2) by (cases r) (auto simp: bind_action_def obeys_def intro: R_trans)
qed

lemma obeys_then: "obeys R m \<Longrightarrow> obeys R k \<Longrightarrow> obeys R (then_action m k)"
  by (simp add: then_action_def obeys_bind)

lemma obeys_handle:
  assumes "obeys R m" "\<And>x. obeys R (k x)" "\<And>e. obeys R (h e)"
  shows "obeys R (handle m k h)"
  unfolding obeys_def
proof
  fix s
  obtain r s' where m: "m s = (r, s')" by (cases "m s")
  have "R s s'" using assms(1) m by (metis obeys_def snd_conv)
  moreover have "R s' (snd (k x s'))" "R s' (snd (h e s'))" for x e
    using assms(2,3) by (simp_all add: obeys_def)
  ultimately show "R s (snd (handle m k h s))"
    using m by (cases r) (auto simp: handle_def intro: R_trans)
qed

lemma obeys_void: "obeys R m \<Longrightarrow> obeys R (void m)"
  by (simp add: void_def obeys_bind obeys_ret)

lemma obeys_transaction: "obeys R m \<Longrightarrow> obeys R (transaction m)"
  by (auto simp: obeys_def transaction_def R_refl split: prod.splits sum.splits) (metis snd_conv)

lemma obeys_for_each: "(\<And>x. x \<in> set xs \<Longrightarrow> obeys R (f x)) \<Longrightarrow> obeys R (for_each xs f)"
  by (induction xs) (simp_all add: obeys_ret obeys_then)

lemma obeys_queries:
  "obeys R (select_where t p)" "obeys R (query_optional t p)" "obeys R (query_row t p)"
  "obeys R (query_exists t p)" "obeys R (query_count t p)"
  by (simp_all add: obeys_def statement_defs R_refl)

lemma obeys_if: "obeys R m \<Longrightarrow> obeys R k \<Longrightarrow> obeys R (if b then m else k)"
  by simp

lemma obeys_case_option:
  "obeys R m \<Longrightarrow> (\<And>x. obeys R (k x)) \<Longrightarrow> obeys R (case y of None \<Rightarrow> m | Some x \<Rightarrow> k x)"
  by (simp split: option.split)

lemma obeys_case_sum:
  "(\<And>e. obeys R (m e)) \<Longrightarrow> (\<And>x. obeys R (k x)) \<Longrightarrow> obeys R (case y of Inl e \<Rightarrow> m e | Inr x \<Rightarrow> k x)"
  by (simp split: sum.split)

lemmas obeys_intros = obeys_ret obeys_throw obeys_require obeys_lift obeys_bind
  obeys_then obeys_handle obeys_void obeys_transaction obeys_for_each
  obeys_queries obeys_if obeys_case_option obeys_case_sum

end

section \<open>Tables whose rows only advance\<close>

text \<open>
  The old rows stay in place, each advanced by \<open>adv\<close>, and new rows have fresh keys.
\<close>

definition rows_evolve :: "('r \<Rightarrow> 'r \<Rightarrow> bool) \<Rightarrow> ('r \<Rightarrow> 'k) \<Rightarrow> ('s, 'r) tbl \<Rightarrow> 's \<Rightarrow> 's \<Rightarrow> bool" where
  "rows_evolve adv key t s s' \<longleftrightarrow> (\<exists>olds news. rows t s' = olds @ news \<and>
     list_all2 adv (rows t s) olds \<and> key ` set news \<inter> key ` set (rows t s) = {})"

lemma rows_evolve_mono:
  assumes "\<And>a b. adv a b \<Longrightarrow> adv' a b" "rows_evolve adv key t s s'"
  shows "rows_evolve adv' key t s s'"
  using assms unfolding rows_evolve_def by (blast intro: list_all2_mono)

locale evolving_table = table t for t :: "('s, 'r) tbl" +
  fixes adv :: "'r \<Rightarrow> 'r \<Rightarrow> bool" and key :: "'r \<Rightarrow> 'k"
  assumes adv_refl: "adv a a"
    and adv_trans: "adv a b \<Longrightarrow> adv b c \<Longrightarrow> adv a c"
    and adv_key: "adv a b \<Longrightarrow> key b = key a"
begin

lemma all_trans: "list_all2 adv xs ys \<Longrightarrow> list_all2 adv ys zs \<Longrightarrow> list_all2 adv xs zs"
  by (rule list_all2_trans) (rule adv_trans)

lemma all_keys: "list_all2 adv xs ys \<Longrightarrow> map key ys = map key xs"
  by (induction rule: list_all2_induct) (auto dest: adv_key)

lemma evolve_rows:
  "list_all2 adv (rows t s) olds \<Longrightarrow> rows t s' = olds @ news \<Longrightarrow>
   key ` set news \<inter> key ` set (rows t s) = {} \<Longrightarrow> rows_evolve adv key t s s'"
  by (auto simp: rows_evolve_def)

lemma evolve_same: "rows t s' = rows t s \<Longrightarrow> rows_evolve adv key t s s'"
  by (rule evolve_rows [where olds = "rows t s" and news = "[]"]) (simp_all add: list_all2_refl adv_refl)

lemma evolve_trans:
  assumes "rows_evolve adv key t d e" "rows_evolve adv key t e f"
  shows "rows_evolve adv key t d f"
proof -
  obtain o1 n1 o2 n2 where
    1: "rows t e = o1 @ n1" "list_all2 adv (rows t d) o1" "key ` set n1 \<inter> key ` set (rows t d) = {}" and
    2: "rows t f = o2 @ n2" "list_all2 adv (rows t e) o2" "key ` set n2 \<inter> key ` set (rows t e) = {}"
    using assms by (auto simp: rows_evolve_def)
  from 1(1) 2(2) obtain p q where o2: "o2 = p @ q" "list_all2 adv o1 p" "list_all2 adv n1 q"
    by (auto simp: list_all2_append1)
  have keys: "key ` set q = key ` set n1" "key ` set o1 = key ` set (rows t d)"
    using all_keys [OF o2(3), THEN arg_cong [where f = set]] all_keys [OF 1(2), THEN arg_cong [where f = set]]
    by simp_all
  have "key ` set (rows t e) = key ` set (rows t d) \<union> key ` set n1"
    by (simp add: 1(1) image_Un keys(2))
  with 2(3) have "key ` set n2 \<inter> key ` set (rows t d) = {}"
    by (simp add: Int_Un_distrib)
  with 1(3) have fresh: "key ` set (q @ n2) \<inter> key ` set (rows t d) = {}"
    by (simp add: keys(1) image_Un Int_Un_distrib2)
  show ?thesis
    by (rule evolve_rows [OF all_trans [OF 1(2) o2(2)], where news = "q @ n2"])
      (use 2(1) o2(1) fresh in simp_all)
qed

text \<open>The statements: those on other tables, inserts, and updates row by row.\<close>

lemma obeys_other:
  assumes "\<And>f s. rows t (modify t' f s) = rows t s"
  shows "obeys (rows_evolve adv key t) (insert_into name t' c fk r)"
    "obeys (rows_evolve adv key t) (insert_or_ignore t' c r)"
    "obeys (rows_evolve adv key t) (update_where t' p g)"
    "obeys (rows_evolve adv key t) (update_unique name t' c p g)"
    "obeys (rows_evolve adv key t) (upsert t' same cond g r)"
    "obeys (rows_evolve adv key t) (delete_where t' p)"
  using assms by (auto simp: obeys_def statement_defs intro!: evolve_same)

lemma evolve_update_rows:
  assumes "\<And>r. p r \<Longrightarrow> adv r (f r)"
  shows "rows_evolve adv key t s (modify t (update_rows p f) s)"
proof -
  have "list_all2 adv rs (update_rows p f rs)" for rs
    using assms by (induction rs) (auto simp: adv_refl)
  then show ?thesis
    by (rule evolve_rows [where news = "[]"]) (simp_all add: rows_modify)
qed

lemma obeys_update: "(\<And>r. p r \<Longrightarrow> adv r (f r)) \<Longrightarrow> obeys (rows_evolve adv key t) (update_where t p f)"
  by (simp add: obeys_def update_where_def evolve_update_rows)

lemma obeys_update_unique:
  "(\<And>r. p r \<Longrightarrow> adv r (f r)) \<Longrightarrow> obeys (rows_evolve adv key t) (update_unique name t c p f)"
  by (auto simp: obeys_def update_unique_def update_where_def evolve_update_rows intro: evolve_same)

lemma evolve_append:
  assumes "\<And>r'. r' \<in> set (rows t s) \<Longrightarrow> key r' \<noteq> key r"
  shows "rows_evolve adv key t s (modify t (\<lambda>rs. rs @ [r]) s)"
proof -
  have "key r \<notin> key ` set (rows t s)" using assms by (metis imageE)
  then show ?thesis
    by (intro evolve_rows [where olds = "rows t s" and news = "[r]"])
      (simp_all add: rows_modify list_all2_refl adv_refl)
qed

lemma obeys_insert:
  assumes "\<And>r'. key r' = key r \<Longrightarrow> c r r'"
  shows "obeys (rows_evolve adv key t) (insert_into name t c fk r)"
  using assms by (auto simp: obeys_def insert_into_def list_ex_iff intro!: evolve_same evolve_append)

lemma obeys_insert_or_ignore:
  assumes "\<And>r'. key r' = key r \<Longrightarrow> c r r'"
  shows "obeys (rows_evolve adv key t) (insert_or_ignore t c r)"
  using assms by (auto simp: obeys_def insert_or_ignore_def list_ex_iff intro!: evolve_same evolve_append)

lemma obeys_upsert:
  assumes "\<And>r'. key r' = key r \<Longrightarrow> same r'" "\<And>r'. same r' \<Longrightarrow> cond r' \<Longrightarrow> adv r' (f r')"
  shows "obeys (rows_evolve adv key t) (upsert t same cond f r)"
  using assms by (auto simp: obeys_def upsert_def update_where_def list_ex_iff
      intro!: evolve_update_rows evolve_append)

text \<open>What evolution says of a row: it is found again, advanced.\<close>

lemma all_members:
  "list_all2 adv xs ys \<Longrightarrow> x \<in> set xs \<Longrightarrow> \<exists>y\<in>set ys. adv x y"
  "list_all2 adv xs ys \<Longrightarrow> y \<in> set ys \<Longrightarrow> \<exists>x\<in>set xs. adv x y"
  by (induction rule: list_all2_induct) auto

lemma evolve_row:
  assumes "rows_evolve adv key t s s'" "r \<in> set (rows t s)"
  obtains r' where "r' \<in> set (rows t s')" "adv r r'"
proof -
  obtain olds news where e: "rows t s' = olds @ news" "list_all2 adv (rows t s) olds"
    using assms(1) by (auto simp: rows_evolve_def)
  show thesis using all_members(1) [OF e(2) assms(2)] e(1) that by auto
qed

lemma evolve_row_back:
  assumes "rows_evolve adv key t s s'" "r' \<in> set (rows t s')" "key r' \<in> key ` set (rows t s)"
  obtains r where "r \<in> set (rows t s)" "adv r r'"
proof -
  obtain olds news where e: "rows t s' = olds @ news" "list_all2 adv (rows t s) olds"
      "key ` set news \<inter> key ` set (rows t s) = {}"
    using assms(1) by (auto simp: rows_evolve_def)
  have "r' \<in> set olds" using assms(2,3) e(1,3) by auto
  then show thesis using all_members(2) [OF e(2)] that by blast
qed

lemma evolve_first_row:
  assumes "rows_evolve adv key t s s'" "first_row (\<lambda>r. key r = k) (rows t s) = Some r"
  obtains r' where "first_row (\<lambda>r. key r = k) (rows t s') = Some r'" "adv r r'"
proof -
  obtain olds news where e: "rows t s' = olds @ news" "list_all2 adv (rows t s) olds"
    using assms(1) by (auto simp: rows_evolve_def)
  have "first_row (\<lambda>r. key r = k) xs = Some r \<Longrightarrow> list_all2 adv xs ys \<Longrightarrow>
      \<exists>r'. first_row (\<lambda>r. key r = k) ys = Some r' \<and> adv r r'" for xs ys
    by (induction xs arbitrary: ys) (auto simp: list_all2_Cons1 split: if_splits dest: adv_key)
  then obtain r' where "first_row (\<lambda>r. key r = k) olds = Some r'" "adv r r'"
    using assms(2) e(2) by blast
  then show thesis using that e(1) by (simp add: first_row_append)
qed

end

sublocale evolving_table \<subseteq> evolve: step_relation "rows_evolve adv key t"
  by unfold_locales (rule evolve_same, rule refl, rule evolve_trans)

end
