(* ===== verification/Schema.thy ===== *)
theory Schema
  imports Sql
begin

text \<open>
  The SQLite schema: the enums of src/src/lightning_store.rs, one record per table of
  src/src/db.rs, lightning_store.rs, internal_payments.rs, quotes, deposits and
  withdrawals, the UNIQUE and PRIMARY KEY groups of each table as a clash predicate, and the
  database as a record of row lists. JSON columns hold the value they encode. The invariant
  \<open>db_unique\<close> says that no table holds two clashing rows.
\<close>

section \<open>Enums stored as text\<close>

datatype send_kind = Bolt11 | Bolt12

datatype send_status = Prepared | Submitting | Pending | Settling | Refunding | Succeeded | Failed

datatype receive_status =
    InvoiceCreated | HtlcReceived | HtlcFailed | TransferCreated | TransferCompleted
  | TransferCreationFailed | PreimageRecovered | PreimageRecoveryFailed | LightningReceived

fun send_kind_str :: "send_kind \<Rightarrow> string" where
  "send_kind_str Bolt11 = ''BOLT11''"
| "send_kind_str Bolt12 = ''BOLT12''"

fun send_status_str :: "send_status \<Rightarrow> string" where
  "send_status_str Prepared = ''PREPARED''"
| "send_status_str Submitting = ''SUBMITTING''"
| "send_status_str Pending = ''PENDING''"
| "send_status_str Settling = ''SETTLING''"
| "send_status_str Refunding = ''REFUNDING''"
| "send_status_str Succeeded = ''SUCCEEDED''"
| "send_status_str Failed = ''FAILED''"

fun receive_status_str :: "receive_status \<Rightarrow> string" where
  "receive_status_str InvoiceCreated = ''INVOICE_CREATED''"
| "receive_status_str HtlcReceived = ''HTLC_RECEIVED''"
| "receive_status_str HtlcFailed = ''HTLC_FAILED''"
| "receive_status_str TransferCreated = ''TRANSFER_CREATED''"
| "receive_status_str TransferCompleted = ''TRANSFER_COMPLETED''"
| "receive_status_str TransferCreationFailed = ''TRANSFER_CREATION_FAILED''"
| "receive_status_str PreimageRecovered = ''PAYMENT_PREIMAGE_RECOVERED''"
| "receive_status_str PreimageRecoveryFailed = ''PAYMENT_PREIMAGE_RECOVERING_FAILED''"
| "receive_status_str LightningReceived = ''LIGHTNING_PAYMENT_RECEIVED''"

text \<open>\<open>FromStr\<close>: the variants are tried in declaration order.\<close>

definition parse_enum :: "('a \<Rightarrow> string) \<Rightarrow> 'a list \<Rightarrow> string \<Rightarrow> string \<Rightarrow> 'a result" where
  "parse_enum str variants name s =
     (case first_row (\<lambda>v. str v = s) variants of
        Some v \<Rightarrow> Inr v
      | None \<Rightarrow> Inl (Failure (''invalid '' @ name @ '': '' @ s)))"

definition send_kind_parse :: "string \<Rightarrow> send_kind result" where
  "send_kind_parse = parse_enum send_kind_str [Bolt11, Bolt12] ''SendKind''"

definition send_status_parse :: "string \<Rightarrow> send_status result" where
  "send_status_parse = parse_enum send_status_str
     [Prepared, Submitting, Pending, Settling, Refunding, Succeeded, Failed] ''SendStatus''"

definition receive_status_parse :: "string \<Rightarrow> receive_status result" where
  "receive_status_parse = parse_enum receive_status_str
     [InvoiceCreated, HtlcReceived, HtlcFailed, TransferCreated, TransferCompleted,
      TransferCreationFailed, PreimageRecovered, PreimageRecoveryFailed, LightningReceived] ''ReceiveStatus''"

lemma parse_enum_sound: "parse_enum str vs n s = Inr v \<Longrightarrow> str v = s"
  by (auto simp: parse_enum_def dest: first_row_SomeD split: option.splits)

lemma send_kind_parse_str: "send_kind_parse (send_kind_str k) = Inr k"
  by (cases k) (simp_all add: send_kind_parse_def parse_enum_def)

lemma send_status_parse_str [simp]: "send_status_parse (send_status_str st) = Inr st"
  by (cases st) (simp_all add: send_status_parse_def parse_enum_def)

lemma receive_status_parse_str [simp]: "receive_status_parse (receive_status_str st) = Inr st"
  by (cases st) (simp_all add: receive_status_parse_def parse_enum_def)

section \<open>Rows\<close>

record challenge_row =
  ch_identity :: string
  ch_protected :: string
  ch_issued_at :: string

record session_row =
  se_token :: string
  se_identity :: string
  se_valid_until :: string

record request_row =
  rq_id :: string
  rq_kind :: string
  rq_owner :: string
  rq_created_at :: string
  rq_payload :: json
  rq_idempotency_key :: "string option"

record transfer_row =
  tr_spark_id :: string
  tr_request_id :: string
  tr_kind :: string
  tr_status :: string
  tr_owner :: string

record payment_row =
  pm_id :: string
  pm_status :: send_status

record receive_payment_row =
  rp_hash :: string
  rp_status :: receive_status
  rp_transfer_id :: "string option"
  rp_preimage :: "string option"
  rp_claimable_amount_msat :: "int option"
  rp_claim_submitted :: bool
  rp_payment_id :: "string option"

record quote_use_row =
  qu_quote_id :: string
  qu_payment_hash :: string

record receive_quote_row =
  rqt_id :: string
  rqt_owner :: string
  rqt_manifest :: "8 word list"
  rqt_expires_at :: int

record static_quote_row =
  sq_txid :: string
  sq_vout :: u32
  sq_credit :: int
  sq_signature :: string
  sq_created_at :: string
  sq_claimed :: bool

text \<open>\<open>LightningSend\<close> and the table \<open>lightning_sends\<close>, which adds \<open>last_error\<close>.\<close>

record lightning_send =
  ls_request_id :: string
  ls_owner :: string
  ls_outbound_transfer_id :: string
  ls_invoice :: string
  ls_amount_sats :: u64
  ls_amount_override :: "u64 option"
  ls_kind :: send_kind
  ls_expected_id :: string
  ls_max_route_cltv :: "u32 option"
  ls_payment_id :: "string option"
  ls_status :: send_status

record send_row = lightning_send +
  ls_last_error :: "string option"

record receive_row =
  lr_hash :: string
  lr_request_id :: string
  lr_owner :: string
  lr_receiver :: string
  lr_amount_sats :: u64
  lr_invoice :: string
  lr_expires_at :: int
  lr_kind :: send_kind
  lr_settled_payment_hash :: "string option"

record internal_row =
  ip_hash :: string
  ip_send_id :: string

text \<open>
  \<open>SparkSplitOperation\<close>, whose status column's CHECK lists the five values, and its table, which
  adds the creation time (\<open>updated_at\<close> is written and never read).
\<close>

datatype split_status = SDraft | SPrepared | SSubmitting | SSubmitted | SCompleted

record split_operation =
  sp_operation_id :: string
  sp_parent_node_id :: string
  sp_parent_value_sats :: u64
  sp_child_values_sats :: "u64 list"
  sp_plan :: "8 word list"
  sp_status :: split_status
  sp_child_node_ids :: "string list"
  sp_last_error :: "string option"

record split_row = split_operation +
  sp_created_at :: string

text \<open>\<open>SparkLeafKeyOverride\<close> and the table that stores it with its operation.\<close>

record leaf_key_override =
  lko_node_id :: string
  lko_key_material :: "8 word list"

record leaf_key_row =
  lk_node_id :: string
  lk_operation_id :: string
  lk_key_material :: "8 word list"

record pending_keys_row =
  pk_operation_id :: string
  pk_parent_node_id :: string
  pk_encrypted_keys :: "8 word list list"

text \<open>Deposits: \<open>DepositQuote\<close>, \<open>StaticPlan\<close>, \<open>DepositClaim\<close>, \<open>InstantQuote\<close>, \<open>InstantClaim\<close>.\<close>

record deposit_quote =
  dq_txid :: string
  dq_vout :: u32
  dq_owner :: string
  dq_network :: string
  dq_credit :: u64
  dq_fee :: u64
  dq_signature :: string
  dq_expires :: int
  dq_address :: string
  dq_signing_key :: string
  dq_verifying_key :: string
  dq_prev_output :: string

record static_plan =
  pl_request :: "8 word list"
  pl_nonce_ciphertext :: "8 word list"
  pl_encrypted_key :: "8 word list"
  pl_prev_output :: string

record deposit_claim =
  dc_id :: string
  dc_quote :: deposit_quote
  dc_transfer_id :: string
  dc_plan :: static_plan
  dc_signed_spend :: "string option"
  dc_status :: string
  dc_phase :: string

record instant_quote =
  iq_id :: string
  iq_deposit :: deposit_quote
  iq_height :: u64

record instant_claim =
  ic_id :: string
  ic_quote :: instant_quote
  ic_transfer_id :: string
  ic_plan :: static_plan
  ic_phase :: string
  ic_signed_spend :: "string option"
  ic_scan_height :: u64

record deposit_quote_row =
  dqr_txid :: string
  dqr_vout :: u32
  dqr_owner :: string
  dqr_expires :: int
  dqr_data :: deposit_quote

record deposit_claim_row =
  dcr_id :: string
  dcr_txid :: string
  dcr_vout :: u32
  dcr_owner :: string
  dcr_status :: string
  dcr_data :: deposit_claim
  dcr_last_error :: "string option"

record instant_quote_row =
  iqr_id :: string
  iqr_txid :: string
  iqr_vout :: u32
  iqr_owner :: string
  iqr_expires :: int
  iqr_data :: instant_quote

record instant_claim_row =
  icr_id :: string
  icr_quote_id :: string
  icr_txid :: string
  icr_vout :: u32
  icr_owner :: string
  icr_address :: string
  icr_value :: u64
  icr_credit :: u64
  icr_phase :: string
  icr_data :: instant_claim
  icr_last_error :: "string option"

text \<open>Cooperative withdrawals: \<open>ExitLeaf\<close>, \<open>ExitQuote\<close>, \<open>ExitRecord\<close> and their tables.\<close>

record exit_leaf =
  el_id :: string
  el_value :: u64

record exit_quote =
  eq_id :: string
  eq_owner :: string
  eq_address :: string
  eq_leaves :: "exit_leaf list"
  eq_created_at :: int
  eq_expires_at :: int
  eq_user_fee :: u64
  eq_rates :: "u64 list"
  eq_fees :: "u64 list"

record exit_record =
  er_id :: string
  er_owner :: string
  er_transfer_id :: string
  er_idempotency_key :: string
  er_fingerprint :: string
  er_quote :: exit_quote
  er_leaves :: "exit_leaf list"
  er_speed :: string
  er_payout_sats :: u64
  er_fee_sats :: u64
  er_created_at :: int
  er_expires_at :: int
  er_raw_exit :: string
  er_raw_connector :: string
  er_signed_exit :: "string option"
  er_status :: string

record coop_quote_row =
  cqr_id :: string
  cqr_owner :: string
  cqr_expires_at :: int
  cqr_data :: exit_quote

record coop_exit_row =
  cxr_id :: string
  cxr_owner :: string
  cxr_transfer_id :: string
  cxr_idem :: string
  cxr_status :: string
  cxr_data :: exit_record

record coop_input_row =
  cir_outpoint :: string
  cir_request_id :: string

record coop_bump_row =
  cbr_request_id :: string
  cbr_raw :: string
  cbr_fee_rate :: u64

text \<open>Webhooks.\<close>

record webhook_row =
  wh_id :: string
  wh_owner :: string
  wh_url :: string
  wh_secret :: string
  wh_events :: "string list"

record webhook_event_row =
  we_id :: string
  we_request_id :: string
  we_owner :: string
  we_event_type :: string
  we_payload :: json

record delivery_row =
  wd_event_id :: string
  wd_webhook_id :: string
  wd_attempts :: u32
  wd_next_attempt :: int
  wd_delivered :: bool
  wd_last_error :: "string option"

section \<open>The database\<close>

record db =
  challenges :: "challenge_row list"
  sessions :: "session_row list"
  requests :: "request_row list"
  transfers :: "transfer_row list"
  payments :: "payment_row list"
  receive_payments :: "receive_payment_row list"
  receive_quote_uses :: "quote_use_row list"
  receive_quotes :: "receive_quote_row list"
  static_quotes :: "static_quote_row list"
  lightning_sends :: "send_row list"
  lightning_receives :: "receive_row list"
  internal_payments :: "internal_row list"
  split_operations :: "split_row list"
  leaf_keys :: "leaf_key_row list"
  pending_keys :: "pending_keys_row list"
  deposit_quotes :: "deposit_quote_row list"
  deposit_claims :: "deposit_claim_row list"
  instant_quotes :: "instant_quote_row list"
  instant_claims :: "instant_claim_row list"
  coop_exit_quotes :: "coop_quote_row list"
  coop_exits :: "coop_exit_row list"
  coop_exit_inputs :: "coop_input_row list"
  coop_exit_bumps :: "coop_bump_row list"
  wallet_webhooks :: "webhook_row list"
  webhook_events :: "webhook_event_row list"
  webhook_deliveries :: "delivery_row list"

definition empty_db :: db where
  "empty_db = \<lparr>challenges = [], sessions = [], requests = [], transfers = [], payments = [],
     receive_payments = [], receive_quote_uses = [], receive_quotes = [], static_quotes = [],
     lightning_sends = [], lightning_receives = [], internal_payments = [],
     split_operations = [], leaf_keys = [], pending_keys = [],
     deposit_quotes = [],
     deposit_claims = [],
     instant_quotes = [],
     instant_claims = [],
     coop_exit_quotes = [],
     coop_exits = [],
     coop_exit_inputs = [],
     coop_exit_bumps = [],
     wallet_webhooks = [],
     webhook_events = [],
     webhook_deliveries = []\<rparr>"

text \<open>The tables as lenses, and the interface they all meet.\<close>

definition challenges_t :: "(db, challenge_row) tbl" where
  "challenges_t = \<lparr>rows = challenges, modify = (\<lambda>f d. d\<lparr>challenges := f (challenges d)\<rparr>)\<rparr>"
definition sessions_t :: "(db, session_row) tbl" where
  "sessions_t = \<lparr>rows = sessions, modify = (\<lambda>f d. d\<lparr>sessions := f (sessions d)\<rparr>)\<rparr>"
definition requests_t :: "(db, request_row) tbl" where
  "requests_t = \<lparr>rows = requests, modify = (\<lambda>f d. d\<lparr>requests := f (requests d)\<rparr>)\<rparr>"
definition transfers_t :: "(db, transfer_row) tbl" where
  "transfers_t = \<lparr>rows = transfers, modify = (\<lambda>f d. d\<lparr>transfers := f (transfers d)\<rparr>)\<rparr>"
definition payments_t :: "(db, payment_row) tbl" where
  "payments_t = \<lparr>rows = payments, modify = (\<lambda>f d. d\<lparr>payments := f (payments d)\<rparr>)\<rparr>"
definition receive_payments_t :: "(db, receive_payment_row) tbl" where
  "receive_payments_t = \<lparr>rows = receive_payments, modify = (\<lambda>f d. d\<lparr>receive_payments := f (receive_payments d)\<rparr>)\<rparr>"
definition receive_quote_uses_t :: "(db, quote_use_row) tbl" where
  "receive_quote_uses_t = \<lparr>rows = receive_quote_uses, modify = (\<lambda>f d. d\<lparr>receive_quote_uses := f (receive_quote_uses d)\<rparr>)\<rparr>"
definition receive_quotes_t :: "(db, receive_quote_row) tbl" where
  "receive_quotes_t = \<lparr>rows = receive_quotes, modify = (\<lambda>f d. d\<lparr>receive_quotes := f (receive_quotes d)\<rparr>)\<rparr>"
definition static_quotes_t :: "(db, static_quote_row) tbl" where
  "static_quotes_t = \<lparr>rows = static_quotes, modify = (\<lambda>f d. d\<lparr>static_quotes := f (static_quotes d)\<rparr>)\<rparr>"
definition lightning_sends_t :: "(db, send_row) tbl" where
  "lightning_sends_t = \<lparr>rows = lightning_sends, modify = (\<lambda>f d. d\<lparr>lightning_sends := f (lightning_sends d)\<rparr>)\<rparr>"
definition lightning_receives_t :: "(db, receive_row) tbl" where
  "lightning_receives_t = \<lparr>rows = lightning_receives, modify = (\<lambda>f d. d\<lparr>lightning_receives := f (lightning_receives d)\<rparr>)\<rparr>"
definition internal_payments_t :: "(db, internal_row) tbl" where
  "internal_payments_t = \<lparr>rows = internal_payments, modify = (\<lambda>f d. d\<lparr>internal_payments := f (internal_payments d)\<rparr>)\<rparr>"
definition split_operations_t :: "(db, split_row) tbl" where
  "split_operations_t = \<lparr>rows = split_operations, modify = (\<lambda>f d. d\<lparr>split_operations := f (split_operations d)\<rparr>)\<rparr>"
definition leaf_keys_t :: "(db, leaf_key_row) tbl" where
  "leaf_keys_t = \<lparr>rows = leaf_keys, modify = (\<lambda>f d. d\<lparr>leaf_keys := f (leaf_keys d)\<rparr>)\<rparr>"
definition pending_keys_t :: "(db, pending_keys_row) tbl" where
  "pending_keys_t = \<lparr>rows = pending_keys, modify = (\<lambda>f d. d\<lparr>pending_keys := f (pending_keys d)\<rparr>)\<rparr>"
definition deposit_quotes_t :: "(db, deposit_quote_row) tbl" where
  "deposit_quotes_t = \<lparr>rows = deposit_quotes, modify = (\<lambda>f d. d\<lparr>deposit_quotes := f (deposit_quotes d)\<rparr>)\<rparr>"
definition deposit_claims_t :: "(db, deposit_claim_row) tbl" where
  "deposit_claims_t = \<lparr>rows = deposit_claims, modify = (\<lambda>f d. d\<lparr>deposit_claims := f (deposit_claims d)\<rparr>)\<rparr>"
definition instant_quotes_t :: "(db, instant_quote_row) tbl" where
  "instant_quotes_t = \<lparr>rows = instant_quotes, modify = (\<lambda>f d. d\<lparr>instant_quotes := f (instant_quotes d)\<rparr>)\<rparr>"
definition instant_claims_t :: "(db, instant_claim_row) tbl" where
  "instant_claims_t = \<lparr>rows = instant_claims, modify = (\<lambda>f d. d\<lparr>instant_claims := f (instant_claims d)\<rparr>)\<rparr>"
definition coop_exit_quotes_t :: "(db, coop_quote_row) tbl" where
  "coop_exit_quotes_t = \<lparr>rows = coop_exit_quotes, modify = (\<lambda>f d. d\<lparr>coop_exit_quotes := f (coop_exit_quotes d)\<rparr>)\<rparr>"
definition coop_exits_t :: "(db, coop_exit_row) tbl" where
  "coop_exits_t = \<lparr>rows = coop_exits, modify = (\<lambda>f d. d\<lparr>coop_exits := f (coop_exits d)\<rparr>)\<rparr>"
definition coop_exit_inputs_t :: "(db, coop_input_row) tbl" where
  "coop_exit_inputs_t = \<lparr>rows = coop_exit_inputs, modify = (\<lambda>f d. d\<lparr>coop_exit_inputs := f (coop_exit_inputs d)\<rparr>)\<rparr>"
definition coop_exit_bumps_t :: "(db, coop_bump_row) tbl" where
  "coop_exit_bumps_t = \<lparr>rows = coop_exit_bumps, modify = (\<lambda>f d. d\<lparr>coop_exit_bumps := f (coop_exit_bumps d)\<rparr>)\<rparr>"
definition wallet_webhooks_t :: "(db, webhook_row) tbl" where
  "wallet_webhooks_t = \<lparr>rows = wallet_webhooks, modify = (\<lambda>f d. d\<lparr>wallet_webhooks := f (wallet_webhooks d)\<rparr>)\<rparr>"
definition webhook_events_t :: "(db, webhook_event_row) tbl" where
  "webhook_events_t = \<lparr>rows = webhook_events, modify = (\<lambda>f d. d\<lparr>webhook_events := f (webhook_events d)\<rparr>)\<rparr>"
definition webhook_deliveries_t :: "(db, delivery_row) tbl" where
  "webhook_deliveries_t = \<lparr>rows = webhook_deliveries, modify = (\<lambda>f d. d\<lparr>webhook_deliveries := f (webhook_deliveries d)\<rparr>)\<rparr>"

lemmas table_defs = challenges_t_def sessions_t_def requests_t_def transfers_t_def payments_t_def
  receive_payments_t_def receive_quote_uses_t_def receive_quotes_t_def static_quotes_t_def
  lightning_sends_t_def lightning_receives_t_def internal_payments_t_def split_operations_t_def
  leaf_keys_t_def pending_keys_t_def
  deposit_quotes_t_def deposit_claims_t_def instant_quotes_t_def instant_claims_t_def coop_exit_quotes_t_def coop_exits_t_def coop_exit_inputs_t_def coop_exit_bumps_t_def wallet_webhooks_t_def webhook_events_t_def webhook_deliveries_t_def

lemma rows_simps [simp]:
  "rows challenges_t = challenges" "rows sessions_t = sessions" "rows requests_t = requests"
  "rows transfers_t = transfers" "rows payments_t = payments"
  "rows receive_payments_t = receive_payments" "rows receive_quote_uses_t = receive_quote_uses"
  "rows receive_quotes_t = receive_quotes" "rows static_quotes_t = static_quotes"
  "rows lightning_sends_t = lightning_sends" "rows lightning_receives_t = lightning_receives"
  "rows internal_payments_t = internal_payments" "rows split_operations_t = split_operations"
  "rows leaf_keys_t = leaf_keys" "rows pending_keys_t = pending_keys"
  "rows deposit_quotes_t = deposit_quotes"
  "rows deposit_claims_t = deposit_claims"
  "rows instant_quotes_t = instant_quotes"
  "rows instant_claims_t = instant_claims"
  "rows coop_exit_quotes_t = coop_exit_quotes"
  "rows coop_exits_t = coop_exits"
  "rows coop_exit_inputs_t = coop_exit_inputs"
  "rows coop_exit_bumps_t = coop_exit_bumps"
  "rows wallet_webhooks_t = wallet_webhooks"
  "rows webhook_events_t = webhook_events"
  "rows webhook_deliveries_t = webhook_deliveries"
  by (simp_all add: table_defs)

lemma modify_simps [simp]:
  "modify challenges_t f1 d = d\<lparr>challenges := f1 (challenges d)\<rparr>"
  "modify sessions_t f2 d = d\<lparr>sessions := f2 (sessions d)\<rparr>"
  "modify requests_t f3 d = d\<lparr>requests := f3 (requests d)\<rparr>"
  "modify transfers_t f4 d = d\<lparr>transfers := f4 (transfers d)\<rparr>"
  "modify payments_t f5 d = d\<lparr>payments := f5 (payments d)\<rparr>"
  "modify receive_payments_t f6 d = d\<lparr>receive_payments := f6 (receive_payments d)\<rparr>"
  "modify receive_quote_uses_t f7 d = d\<lparr>receive_quote_uses := f7 (receive_quote_uses d)\<rparr>"
  "modify receive_quotes_t f8 d = d\<lparr>receive_quotes := f8 (receive_quotes d)\<rparr>"
  "modify static_quotes_t f9 d = d\<lparr>static_quotes := f9 (static_quotes d)\<rparr>"
  "modify lightning_sends_t f10 d = d\<lparr>lightning_sends := f10 (lightning_sends d)\<rparr>"
  "modify lightning_receives_t f11 d = d\<lparr>lightning_receives := f11 (lightning_receives d)\<rparr>"
  "modify internal_payments_t f12 d = d\<lparr>internal_payments := f12 (internal_payments d)\<rparr>"
  "modify split_operations_t f13 d = d\<lparr>split_operations := f13 (split_operations d)\<rparr>"
  "modify leaf_keys_t f14 d = d\<lparr>leaf_keys := f14 (leaf_keys d)\<rparr>"
  "modify pending_keys_t f15 d = d\<lparr>pending_keys := f15 (pending_keys d)\<rparr>"
  "modify deposit_quotes_t g0 d = d\<lparr>deposit_quotes := g0 (deposit_quotes d)\<rparr>"
  "modify deposit_claims_t g1 d = d\<lparr>deposit_claims := g1 (deposit_claims d)\<rparr>"
  "modify instant_quotes_t g2 d = d\<lparr>instant_quotes := g2 (instant_quotes d)\<rparr>"
  "modify instant_claims_t g3 d = d\<lparr>instant_claims := g3 (instant_claims d)\<rparr>"
  "modify coop_exit_quotes_t g4 d = d\<lparr>coop_exit_quotes := g4 (coop_exit_quotes d)\<rparr>"
  "modify coop_exits_t g5 d = d\<lparr>coop_exits := g5 (coop_exits d)\<rparr>"
  "modify coop_exit_inputs_t g6 d = d\<lparr>coop_exit_inputs := g6 (coop_exit_inputs d)\<rparr>"
  "modify coop_exit_bumps_t g7 d = d\<lparr>coop_exit_bumps := g7 (coop_exit_bumps d)\<rparr>"
  "modify wallet_webhooks_t g8 d = d\<lparr>wallet_webhooks := g8 (wallet_webhooks d)\<rparr>"
  "modify webhook_events_t g9 d = d\<lparr>webhook_events := g9 (webhook_events d)\<rparr>"
  "modify webhook_deliveries_t g10 d = d\<lparr>webhook_deliveries := g10 (webhook_deliveries d)\<rparr>"
  by (simp_all add: table_defs)

interpretation challenges: table challenges_t by unfold_locales (simp_all add: comp_def)
interpretation sessions: table sessions_t by unfold_locales (simp_all add: comp_def)
interpretation requests: table requests_t by unfold_locales (simp_all add: comp_def)
interpretation transfers: table transfers_t by unfold_locales (simp_all add: comp_def)
interpretation payments: table payments_t by unfold_locales (simp_all add: comp_def)
interpretation receive_payments: table receive_payments_t by unfold_locales (simp_all add: comp_def)
interpretation quote_uses: table receive_quote_uses_t by unfold_locales (simp_all add: comp_def)
interpretation receive_quotes: table receive_quotes_t by unfold_locales (simp_all add: comp_def)
interpretation static_quotes: table static_quotes_t by unfold_locales (simp_all add: comp_def)
interpretation sends: table lightning_sends_t by unfold_locales (simp_all add: comp_def)
interpretation receives: table lightning_receives_t by unfold_locales (simp_all add: comp_def)
interpretation internals: table internal_payments_t by unfold_locales (simp_all add: comp_def)
interpretation splits: table split_operations_t by unfold_locales (simp_all add: comp_def)
interpretation leaf_keys: table leaf_keys_t by unfold_locales (simp_all add: comp_def)
interpretation pending_keys: table pending_keys_t by unfold_locales (simp_all add: comp_def)
interpretation deposit_quotes: table deposit_quotes_t by unfold_locales (simp_all add: comp_def)
interpretation deposit_claims: table deposit_claims_t by unfold_locales (simp_all add: comp_def)
interpretation instant_quotes: table instant_quotes_t by unfold_locales (simp_all add: comp_def)
interpretation instant_claims: table instant_claims_t by unfold_locales (simp_all add: comp_def)
interpretation coop_quotes: table coop_exit_quotes_t by unfold_locales (simp_all add: comp_def)
interpretation coop_exits: table coop_exits_t by unfold_locales (simp_all add: comp_def)
interpretation coop_inputs: table coop_exit_inputs_t by unfold_locales (simp_all add: comp_def)
interpretation coop_bumps: table coop_exit_bumps_t by unfold_locales (simp_all add: comp_def)
interpretation webhooks: table wallet_webhooks_t by unfold_locales (simp_all add: comp_def)
interpretation webhook_events: table webhook_events_t by unfold_locales (simp_all add: comp_def)
interpretation deliveries: table webhook_deliveries_t by unfold_locales (simp_all add: comp_def)

section \<open>Keys\<close>

definition challenge_clash :: "challenge_row \<Rightarrow> challenge_row \<Rightarrow> bool" where
  "challenge_clash a b \<longleftrightarrow> ch_identity a = ch_identity b \<and> ch_protected a = ch_protected b"
definition session_clash :: "session_row \<Rightarrow> session_row \<Rightarrow> bool" where
  "session_clash a b \<longleftrightarrow> se_token a = se_token b"

text \<open>\<open>idx_requests_owner_idem\<close> is partial: it skips NULL and empty keys.\<close>

definition request_clash :: "request_row \<Rightarrow> request_row \<Rightarrow> bool" where
  "request_clash a b \<longleftrightarrow> rq_id a = rq_id b \<or>
     (rq_owner a = rq_owner b \<and> rq_idempotency_key a = rq_idempotency_key b \<and>
      rq_idempotency_key a \<noteq> None \<and> rq_idempotency_key a \<noteq> Some '''')"
definition transfer_clash :: "transfer_row \<Rightarrow> transfer_row \<Rightarrow> bool" where
  "transfer_clash a b \<longleftrightarrow> tr_spark_id a = tr_spark_id b"
definition payment_clash :: "payment_row \<Rightarrow> payment_row \<Rightarrow> bool" where
  "payment_clash a b \<longleftrightarrow> pm_id a = pm_id b"
definition receive_payment_clash :: "receive_payment_row \<Rightarrow> receive_payment_row \<Rightarrow> bool" where
  "receive_payment_clash a b \<longleftrightarrow> rp_hash a = rp_hash b"
definition quote_use_clash :: "quote_use_row \<Rightarrow> quote_use_row \<Rightarrow> bool" where
  "quote_use_clash a b \<longleftrightarrow> qu_quote_id a = qu_quote_id b \<or> qu_payment_hash a = qu_payment_hash b"
definition receive_quote_clash :: "receive_quote_row \<Rightarrow> receive_quote_row \<Rightarrow> bool" where
  "receive_quote_clash a b \<longleftrightarrow> rqt_id a = rqt_id b"
definition static_quote_clash :: "static_quote_row \<Rightarrow> static_quote_row \<Rightarrow> bool" where
  "static_quote_clash a b \<longleftrightarrow> sq_txid a = sq_txid b \<and> sq_vout a = sq_vout b"

text \<open>
  \<open>lightning_sends\<close>: PRIMARY KEY \<open>request_id\<close>, UNIQUE \<open>outbound_transfer_id\<close> and
  \<open>payment_id\<close> (NULLs never clash), and the partial index \<open>lightning_send_hash\<close>.
\<close>

definition send_clash :: "('a lightning_send_scheme) \<Rightarrow> ('a lightning_send_scheme) \<Rightarrow> bool" where
  "send_clash a b \<longleftrightarrow> ls_request_id a = ls_request_id b \<or>
     ls_outbound_transfer_id a = ls_outbound_transfer_id b \<or>
     (ls_payment_id a \<noteq> None \<and> ls_payment_id a = ls_payment_id b) \<or>
     (ls_kind a = Bolt11 \<and> ls_kind b = Bolt11 \<and> ls_expected_id a = ls_expected_id b \<and> ls_expected_id a \<noteq> '''')"
definition receive_clash :: "receive_row \<Rightarrow> receive_row \<Rightarrow> bool" where
  "receive_clash a b \<longleftrightarrow> lr_hash a = lr_hash b \<or> lr_request_id a = lr_request_id b"
definition internal_clash :: "internal_row \<Rightarrow> internal_row \<Rightarrow> bool" where
  "internal_clash a b \<longleftrightarrow> ip_hash a = ip_hash b \<or> ip_send_id a = ip_send_id b"
definition split_clash :: "split_row \<Rightarrow> split_row \<Rightarrow> bool" where
  "split_clash a b \<longleftrightarrow> sp_operation_id a = sp_operation_id b \<or> sp_parent_node_id a = sp_parent_node_id b"
definition leaf_key_clash :: "leaf_key_row \<Rightarrow> leaf_key_row \<Rightarrow> bool" where
  "leaf_key_clash a b \<longleftrightarrow> lk_node_id a = lk_node_id b"
definition pending_keys_clash :: "pending_keys_row \<Rightarrow> pending_keys_row \<Rightarrow> bool" where
  "pending_keys_clash a b \<longleftrightarrow> pk_operation_id a = pk_operation_id b"

text \<open>
  \<open>instant_pending_address_value\<close> and \<open>instant_pending_owner\<close> are partial indexes over the
  claims whose recovery is not yet confirmed.
\<close>

definition instant_pending :: "instant_claim_row \<Rightarrow> bool" where
  "instant_pending r \<longleftrightarrow> icr_phase r \<noteq> ''SPEND_TX_CONFIRMED''"

definition deposit_quote_clash :: "deposit_quote_row \<Rightarrow> deposit_quote_row \<Rightarrow> bool" where
  "deposit_quote_clash a b \<longleftrightarrow> dqr_txid a = dqr_txid b \<and> dqr_vout a = dqr_vout b"
definition deposit_claim_clash :: "deposit_claim_row \<Rightarrow> deposit_claim_row \<Rightarrow> bool" where
  "deposit_claim_clash a b \<longleftrightarrow> dcr_id a = dcr_id b \<or> (dcr_txid a = dcr_txid b \<and> dcr_vout a = dcr_vout b)"
definition instant_quote_clash :: "instant_quote_row \<Rightarrow> instant_quote_row \<Rightarrow> bool" where
  "instant_quote_clash a b \<longleftrightarrow> iqr_id a = iqr_id b"
definition instant_claim_clash :: "instant_claim_row \<Rightarrow> instant_claim_row \<Rightarrow> bool" where
  "instant_claim_clash a b \<longleftrightarrow> icr_id a = icr_id b \<or> icr_quote_id a = icr_quote_id b \<or>
     (icr_txid a = icr_txid b \<and> icr_vout a = icr_vout b) \<or>
     (instant_pending a \<and> instant_pending b \<and>
       (icr_owner a = icr_owner b \<or> (icr_address a = icr_address b \<and> icr_value a = icr_value b)))"
definition coop_quote_clash :: "coop_quote_row \<Rightarrow> coop_quote_row \<Rightarrow> bool" where
  "coop_quote_clash a b \<longleftrightarrow> cqr_id a = cqr_id b"
definition coop_exit_clash :: "coop_exit_row \<Rightarrow> coop_exit_row \<Rightarrow> bool" where
  "coop_exit_clash a b \<longleftrightarrow> cxr_id a = cxr_id b \<or> cxr_transfer_id a = cxr_transfer_id b \<or>
     (cxr_owner a = cxr_owner b \<and> cxr_idem a = cxr_idem b)"
definition coop_input_clash :: "coop_input_row \<Rightarrow> coop_input_row \<Rightarrow> bool" where
  "coop_input_clash a b \<longleftrightarrow> cir_outpoint a = cir_outpoint b"
definition coop_bump_clash :: "coop_bump_row \<Rightarrow> coop_bump_row \<Rightarrow> bool" where
  "coop_bump_clash a b \<longleftrightarrow> cbr_request_id a = cbr_request_id b"
definition webhook_clash :: "webhook_row \<Rightarrow> webhook_row \<Rightarrow> bool" where
  "webhook_clash a b \<longleftrightarrow> wh_id a = wh_id b"
definition webhook_event_clash :: "webhook_event_row \<Rightarrow> webhook_event_row \<Rightarrow> bool" where
  "webhook_event_clash a b \<longleftrightarrow> we_id a = we_id b \<or> we_request_id a = we_request_id b"
definition delivery_clash :: "delivery_row \<Rightarrow> delivery_row \<Rightarrow> bool" where
  "delivery_clash a b \<longleftrightarrow> wd_event_id a = wd_event_id b \<and> wd_webhook_id a = wd_webhook_id b"

lemmas clash_defs = challenge_clash_def session_clash_def request_clash_def transfer_clash_def
  payment_clash_def receive_payment_clash_def quote_use_clash_def receive_quote_clash_def
  static_quote_clash_def send_clash_def receive_clash_def internal_clash_def split_clash_def
  leaf_key_clash_def pending_keys_clash_def
  deposit_quote_clash_def deposit_claim_clash_def instant_quote_clash_def instant_claim_clash_def coop_quote_clash_def coop_exit_clash_def coop_input_clash_def coop_bump_clash_def webhook_clash_def webhook_event_clash_def delivery_clash_def

definition db_unique :: "db \<Rightarrow> bool" where
  "db_unique d \<longleftrightarrow> no_clash challenge_clash (challenges d) \<and> no_clash session_clash (sessions d) \<and>
     no_clash request_clash (requests d) \<and> no_clash transfer_clash (transfers d) \<and>
     no_clash payment_clash (payments d) \<and> no_clash receive_payment_clash (receive_payments d) \<and>
     no_clash quote_use_clash (receive_quote_uses d) \<and> no_clash receive_quote_clash (receive_quotes d) \<and>
     no_clash static_quote_clash (static_quotes d) \<and> no_clash send_clash (lightning_sends d) \<and>
     no_clash receive_clash (lightning_receives d) \<and> no_clash internal_clash (internal_payments d) \<and>
     no_clash split_clash (split_operations d) \<and> no_clash leaf_key_clash (leaf_keys d) \<and>
     no_clash pending_keys_clash (pending_keys d) \<and>
     no_clash deposit_quote_clash (deposit_quotes d) \<and>
     no_clash deposit_claim_clash (deposit_claims d) \<and>
     no_clash instant_quote_clash (instant_quotes d) \<and>
     no_clash instant_claim_clash (instant_claims d) \<and>
     no_clash coop_quote_clash (coop_exit_quotes d) \<and>
     no_clash coop_exit_clash (coop_exits d) \<and>
     no_clash coop_input_clash (coop_exit_inputs d) \<and>
     no_clash coop_bump_clash (coop_exit_bumps d) \<and>
     no_clash webhook_clash (wallet_webhooks d) \<and>
     no_clash webhook_event_clash (webhook_events d) \<and>
     no_clash delivery_clash (webhook_deliveries d)"

lemma db_unique_empty: "db_unique empty_db"
  by (simp add: db_unique_def empty_db_def)

lemma clash_sym:
  "challenge_clash a b = challenge_clash b a" "session_clash c d = session_clash d c"
  "request_clash e f = request_clash f e" "transfer_clash g h = transfer_clash h g"
  "payment_clash i j = payment_clash j i" "receive_payment_clash k l = receive_payment_clash l k"
  "quote_use_clash m n = quote_use_clash n m" "receive_quote_clash p q = receive_quote_clash q p"
  "static_quote_clash r s = static_quote_clash s r" "send_clash t u = send_clash u t"
  "receive_clash v w = receive_clash w v" "internal_clash x y = internal_clash y x"
  "split_clash z aa = split_clash aa z" "leaf_key_clash ab ac = leaf_key_clash ac ab"
  "pending_keys_clash ad ae = pending_keys_clash ae ad"
  "deposit_quote_clash p0 q0 = deposit_quote_clash q0 p0"
  "deposit_claim_clash p1 q1 = deposit_claim_clash q1 p1"
  "instant_quote_clash p2 q2 = instant_quote_clash q2 p2"
  "instant_claim_clash p3 q3 = instant_claim_clash q3 p3"
  "coop_quote_clash p4 q4 = coop_quote_clash q4 p4"
  "coop_exit_clash p5 q5 = coop_exit_clash q5 p5"
  "coop_input_clash p6 q6 = coop_input_clash q6 p6"
  "coop_bump_clash p7 q7 = coop_bump_clash q7 p7"
  "webhook_clash p8 q8 = webhook_clash q8 p8"
  "webhook_event_clash p9 q9 = webhook_event_clash q9 p9"
  "delivery_clash p10 q10 = delivery_clash q10 p10"
  unfolding clash_defs by metis+

section \<open>Statements keep the keys unique\<close>

abbreviation keeps_unique :: "db \<Rightarrow> db \<Rightarrow> bool" where
  "keeps_unique d d' \<equiv> db_unique d \<longrightarrow> db_unique d'"

interpretation uniq: step_relation keeps_unique
  by unfold_locales simp_all

locale keyed_table = table t for t :: "(db, 'r) tbl" +
  fixes clash :: "'r \<Rightarrow> 'r \<Rightarrow> bool"
  assumes clash_commute: "clash a b \<longleftrightarrow> clash b a"
    and unique_rows: "db_unique d \<Longrightarrow> no_clash clash (rows t d)"
    and unique_modify: "db_unique d \<Longrightarrow> no_clash clash (f (rows t d)) \<Longrightarrow> db_unique (modify t f d)"
begin

lemma unique_append: "db_unique d \<Longrightarrow> (\<forall>r'\<in>set (rows t d). \<not> clash r r') \<Longrightarrow> db_unique (modify t (\<lambda>rs. rs @ [r]) d)"
  by (rule unique_modify) (simp_all add: no_clash_snoc [OF clash_commute] unique_rows)

lemma unique_insert: "obeys keeps_unique (insert_into name t clash fk r)"
  by (auto simp: obeys_def insert_into_def list_ex_iff intro!: unique_append)

lemma unique_insert_or_ignore: "obeys keeps_unique (insert_or_ignore t clash r)"
  by (auto simp: obeys_def insert_or_ignore_def list_ex_iff intro!: unique_append)

lemma unique_update:
  assumes "\<And>a b. clash (if p a then f a else a) (if p b then f b else b) \<Longrightarrow> clash a b"
  shows "obeys keeps_unique (update_where t p f)"
  by (auto simp: obeys_def update_where_def intro!: unique_modify no_clash_update_rows unique_rows dest!: assms)

lemma unique_update_unique: "obeys keeps_unique (update_unique name t clash p f)"
  by (auto simp: obeys_def update_unique_def update_where_def intro!: unique_modify)

lemma unique_upsert:
  assumes "\<And>a b. clash (if same a \<and> cond a then f a else a) (if same b \<and> cond b then f b else b) \<Longrightarrow> clash a b"
    and "\<And>r'. clash r r' \<Longrightarrow> same r'"
  shows "obeys keeps_unique (upsert t same cond f r)"
  using unique_update [OF assms(1)] assms(2)
  by (auto simp: obeys_def upsert_def list_ex_iff intro!: unique_append)

lemma unique_delete: "obeys keeps_unique (delete_where t p)"
  by (auto simp: obeys_def delete_where_def intro!: unique_modify no_clash_filter unique_rows)

end

interpretation challenges_key: keyed_table challenges_t challenge_clash
  by unfold_locales (auto simp: db_unique_def clash_sym)
interpretation sessions_key: keyed_table sessions_t session_clash
  by unfold_locales (auto simp: db_unique_def clash_sym)
interpretation requests_key: keyed_table requests_t request_clash
  by unfold_locales (auto simp: db_unique_def clash_sym)
interpretation transfers_key: keyed_table transfers_t transfer_clash
  by unfold_locales (auto simp: db_unique_def clash_sym)
interpretation payments_key: keyed_table payments_t payment_clash
  by unfold_locales (auto simp: db_unique_def clash_sym)
interpretation receive_payments_key: keyed_table receive_payments_t receive_payment_clash
  by unfold_locales (auto simp: db_unique_def clash_sym)
interpretation quote_uses_key: keyed_table receive_quote_uses_t quote_use_clash
  by unfold_locales (auto simp: db_unique_def clash_sym)
interpretation receive_quotes_key: keyed_table receive_quotes_t receive_quote_clash
  by unfold_locales (auto simp: db_unique_def clash_sym)
interpretation static_quotes_key: keyed_table static_quotes_t static_quote_clash
  by unfold_locales (auto simp: db_unique_def clash_sym)
interpretation sends_key: keyed_table lightning_sends_t send_clash
  by unfold_locales (auto simp: db_unique_def clash_sym)
interpretation receives_key: keyed_table lightning_receives_t receive_clash
  by unfold_locales (auto simp: db_unique_def clash_sym)
interpretation internals_key: keyed_table internal_payments_t internal_clash
  by unfold_locales (auto simp: db_unique_def clash_sym)
interpretation splits_key: keyed_table split_operations_t split_clash
  by unfold_locales (auto simp: db_unique_def clash_sym)
interpretation leaf_keys_key: keyed_table leaf_keys_t leaf_key_clash
  by unfold_locales (auto simp: db_unique_def clash_sym)
interpretation pending_keys_key: keyed_table pending_keys_t pending_keys_clash
  by unfold_locales (auto simp: db_unique_def clash_sym)
interpretation deposit_quotes_key: keyed_table deposit_quotes_t deposit_quote_clash
  by unfold_locales (auto simp: db_unique_def clash_sym)
interpretation deposit_claims_key: keyed_table deposit_claims_t deposit_claim_clash
  by unfold_locales (auto simp: db_unique_def clash_sym)
interpretation instant_quotes_key: keyed_table instant_quotes_t instant_quote_clash
  by unfold_locales (auto simp: db_unique_def clash_sym)
interpretation instant_claims_key: keyed_table instant_claims_t instant_claim_clash
  by unfold_locales (auto simp: db_unique_def clash_sym)
interpretation coop_quotes_key: keyed_table coop_exit_quotes_t coop_quote_clash
  by unfold_locales (auto simp: db_unique_def clash_sym)
interpretation coop_exits_key: keyed_table coop_exits_t coop_exit_clash
  by unfold_locales (auto simp: db_unique_def clash_sym)
interpretation coop_inputs_key: keyed_table coop_exit_inputs_t coop_input_clash
  by unfold_locales (auto simp: db_unique_def clash_sym)
interpretation coop_bumps_key: keyed_table coop_exit_bumps_t coop_bump_clash
  by unfold_locales (auto simp: db_unique_def clash_sym)
interpretation webhooks_key: keyed_table wallet_webhooks_t webhook_clash
  by unfold_locales (auto simp: db_unique_def clash_sym)
interpretation webhook_events_key: keyed_table webhook_events_t webhook_event_clash
  by unfold_locales (auto simp: db_unique_def clash_sym)
interpretation deliveries_key: keyed_table webhook_deliveries_t delivery_clash
  by unfold_locales (auto simp: db_unique_def clash_sym)

end
