(* ===== verification/Auth.thy ===== *)
theory Auth
  imports Schema
begin

text \<open>
  Wallet authentication: src/src/auth.rs and the challenge and session operations of
  src/src/db.rs. Hex, base64, protobuf, SHA-256, HMAC, ECDSA and RFC 3339 are the third-party
  functions of the record \<open>auth_lib\<close>; the clock, the nonce and the session token are arguments.
\<close>

type_synonym bytes = "8 word list"

section \<open>Challenges and sessions in the database\<close>

text \<open>\<open>ORDER BY issued_at DESC, rowid DESC LIMIT 100\<close> over one identity's challenges.\<close>

definition newest_challenges :: "string \<Rightarrow> challenge_row list \<Rightarrow> string list" where
  "newest_challenges identity rs =
     map ch_protected (take 100 (rev (sort_key ch_issued_at (filter (\<lambda>r. ch_identity r = identity) rs))))"

definition save_challenge :: "string \<Rightarrow> string \<Rightarrow> string \<Rightarrow> (db, unit) action" where
  "save_challenge identity protected now = transaction
     (then_action
       (insert_or_ignore challenges_t challenge_clash
          \<lparr>ch_identity = identity, ch_protected = protected, ch_issued_at = now\<rparr>)
       (\<lambda>s. void (delete_where challenges_t
          (\<lambda>r. ch_identity r = identity \<and>
               ch_protected r \<notin> set (newest_challenges identity (challenges s)))) s))"

definition consume_challenge :: "(string \<Rightarrow> int option) \<Rightarrow> string \<Rightarrow> string \<Rightarrow> int \<Rightarrow> int \<Rightarrow> (db, bool) action" where
  "consume_challenge parse_rfc3339 identity protected now_epoch_secs max_age_secs =
     bind_action (query_optional challenges_t (\<lambda>r. ch_identity r = identity \<and> ch_protected r = protected))
       (\<lambda>row. then_action (delete_where challenges_t (\<lambda>r. ch_identity r = identity \<and> ch_protected r = protected))
         (case row of
            None \<Rightarrow> ret False
          | Some r \<Rightarrow>
             (let issued = (case parse_rfc3339 (ch_issued_at r) of None \<Rightarrow> 0 | Some t \<Rightarrow> t);
                  age = sat_i64 (now_epoch_secs - issued)
              in ret (issued \<le> now_epoch_secs \<and> age \<le> max_age_secs))))"

definition prune_challenges :: "string \<Rightarrow> (db, unit) action" where
  "prune_challenges older_than = void (delete_where challenges_t (\<lambda>r. ch_issued_at r < older_than))"

definition save_session :: "string \<Rightarrow> string \<Rightarrow> string \<Rightarrow> (db, unit) action" where
  "save_session token identity valid_until =
     insert_into ''sessions'' sessions_t session_clash (\<lambda>_. True)
       \<lparr>se_token = token, se_identity = identity, se_valid_until = valid_until\<rparr>"

definition session_owner :: "string \<Rightarrow> string \<Rightarrow> (db, string option) action" where
  "session_owner token now_rfc3339 =
     bind_action (query_optional sessions_t (\<lambda>r. se_token r = token \<and> se_valid_until r > now_rfc3339))
       (\<lambda>row. ret (map_option se_identity row))"

definition prune_expired_sessions :: "string \<Rightarrow> (db, unit) action" where
  "prune_expired_sessions now_rfc3339 = void (delete_where sessions_t (\<lambda>r. se_valid_until r \<le> now_rfc3339))"

section \<open>The challenge protocol\<close>

record challenge_msg =
  cm_version :: int
  cm_timestamp :: int
  cm_nonce :: bytes
  cm_public_key :: bytes

record protected_msg =
  pmsg_version :: int
  pmsg_challenge :: "challenge_msg option"
  pmsg_server_hmac :: bytes

record auth_lib =
  al_hex_decode :: "string \<Rightarrow> bytes result"
  al_public_key :: "bytes \<Rightarrow> bytes result"
  al_decode_protected :: "bytes \<Rightarrow> protected_msg option"
  al_encode_protected :: "protected_msg \<Rightarrow> bytes"
  al_encode_challenge :: "challenge_msg \<Rightarrow> bytes"
  al_url_encode :: "bytes \<Rightarrow> string"
  al_url_decode :: "string \<Rightarrow> bytes option"
  al_b64_decode :: "string \<Rightarrow> bytes option"
  al_sig_der :: "bytes \<Rightarrow> bytes option"
  al_sig_compact :: "bytes \<Rightarrow> bytes option"
  al_verify :: "bytes \<Rightarrow> bytes \<Rightarrow> bytes \<Rightarrow> unit result"
  al_sha256 :: "bytes \<Rightarrow> bytes"
  al_mac :: "bytes \<Rightarrow> bytes"
  al_rfc3339 :: "int \<Rightarrow> string"
  al_parse_rfc3339 :: "string \<Rightarrow> int option"

text \<open>\<open>str::trim\<close> on header text, which holds visible ASCII, spaces and tabs only.\<close>

definition is_space :: "char \<Rightarrow> bool" where
  "is_space c \<longleftrightarrow> c = CHR '' '' \<or> c = CHR 0x09 \<or> c = CHR 0x0A \<or> c = CHR 0x0B \<or> c = CHR 0x0C \<or> c = CHR 0x0D"

definition trim :: "string \<Rightarrow> string" where
  "trim s = rev (dropWhile is_space (rev (dropWhile is_space s)))"

definition validate_challenge :: "auth_lib \<Rightarrow> bytes \<Rightarrow> bytes \<Rightarrow> unit result" where
  "validate_challenge lib bs owner =
     (case al_decode_protected lib bs of
        None \<Rightarrow> Inl (Failure ''malformed challenge'')
      | Some protected \<Rightarrow>
         (case pmsg_challenge protected of
            None \<Rightarrow> Inl (Failure ''missing challenge'')
          | Some challenge \<Rightarrow>
             if pmsg_version protected \<noteq> 1 \<or> cm_version challenge \<noteq> 1
                \<or> length (cm_nonce challenge) \<noteq> 32 \<or> length (pmsg_server_hmac protected) \<noteq> 32
                \<or> al_public_key lib (cm_public_key challenge) \<noteq> Inr owner
             then Inl (Failure ''foreign or malformed challenge'')
             else Inr ()))"

definition get_challenge :: "auth_lib \<Rightarrow> bytes \<Rightarrow> int \<Rightarrow> int \<Rightarrow> string \<Rightarrow> (db, string) action" where
  "get_challenge lib nonce timestamp saved_at identity_pubkey =
     (case al_hex_decode lib identity_pubkey of
        Inl _ \<Rightarrow> throw (Failure ''malformed public_key'')
      | Inr public_key \<Rightarrow>
         (case al_public_key lib public_key of
            Inl _ \<Rightarrow> throw (Failure ''malformed public_key'')
          | Inr _ \<Rightarrow>
             (let challenge = \<lparr>cm_version = 1, cm_timestamp = timestamp, cm_nonce = nonce, cm_public_key = public_key\<rparr>;
                  server_hmac = al_mac lib (al_encode_challenge lib challenge);
                  protected = al_url_encode lib (al_encode_protected lib
                    \<lparr>pmsg_version = 1, pmsg_challenge = Some challenge, pmsg_server_hmac = server_hmac\<rparr>)
              in then_action (save_challenge identity_pubkey protected (al_rfc3339 lib saved_at))
                   (ret protected))))"

definition parse_signature :: "auth_lib \<Rightarrow> bytes \<Rightarrow> bytes option" where
  "parse_signature lib bs = (case al_sig_der lib bs of Some s \<Rightarrow> Some s | None \<Rightarrow> al_sig_compact lib bs)"

definition decode_signature :: "auth_lib \<Rightarrow> string \<Rightarrow> bytes result" where
  "decode_signature lib text =
     (let encoded = trim text in
      case Option.bind (al_url_decode lib encoded) (parse_signature lib) of
        Some s \<Rightarrow> Inr s
      | None \<Rightarrow>
         (case Option.bind (al_b64_decode lib encoded) (parse_signature lib) of
            Some s \<Rightarrow> Inr s
          | None \<Rightarrow>
             (case al_hex_decode lib encoded of
                Inl _ \<Rightarrow> Inl (Failure ''malformed signature'')
              | Inr bs \<Rightarrow> ok_or (parse_signature lib bs) (Failure ''malformed signature''))))"

text \<open>\<open>now1\<close> and \<open>now2\<close> are the two readings of the clock; a session lasts 24 hours.\<close>

definition verify_challenge ::
  "auth_lib \<Rightarrow> int \<Rightarrow> int \<Rightarrow> string \<Rightarrow> string \<Rightarrow> string \<Rightarrow> string \<Rightarrow> (db, string \<times> int) action" where
  "verify_challenge lib now1 now2 token identity_pubkey protected_challenge signature_hex =
     bind_action (lift_result (al_hex_decode lib identity_pubkey)) (\<lambda>pubkey_bytes.
     bind_action (lift_result (al_public_key lib pubkey_bytes)) (\<lambda>pubkey.
     bind_action (consume_challenge (al_parse_rfc3339 lib) identity_pubkey protected_challenge now1 300) (\<lambda>fresh.
     if \<not> fresh then throw (Failure ''unknown, reused, or expired challenge'') else
     bind_action (lift_result (decode_signature lib signature_hex)) (\<lambda>sig.
     bind_action (lift_result (ok_or
         (case al_url_decode lib (trim protected_challenge) of
            Some bs \<Rightarrow> Some bs | None \<Rightarrow> al_b64_decode lib (trim protected_challenge))
         (Failure ''malformed challenge''))) (\<lambda>challenge_bytes.
     then_action (lift_result (validate_challenge lib challenge_bytes pubkey))
     (then_action (lift_result (al_verify lib (al_sha256 lib challenge_bytes) sig pubkey))
     (let valid_until = now2 + 86400 in
      then_action (save_session token identity_pubkey (al_rfc3339 lib valid_until))
        (ret (token, valid_until)))))))))"

text \<open>The \<open>authorization\<close> header is absent or not text when it is None.\<close>

definition bearer_token :: "string option \<Rightarrow> string" where
  "bearer_token header =
     (let auth = (case header of None \<Rightarrow> '''' | Some h \<Rightarrow> h) in
      trim (if is_prefix_str ''Bearer '' auth then drop 7 auth else ''''))"

definition require_session :: "string option \<Rightarrow> string \<Rightarrow> (db, string) action" where
  "require_session header now_rfc3339 =
     (let token = bearer_token header in
      if token = '''' then throw (Failure ''UNAUTHORIZED: missing bearer session token'')
      else bind_action (session_owner token now_rfc3339) (\<lambda>owner.
        case owner of
          Some o' \<Rightarrow> ret o'
        | None \<Rightarrow> throw (Failure ''UNAUTHORIZED: bad or expired session'')))"

section \<open>Challenges: bounded storage and single use\<close>

lemma newest_challenges_length: "length (newest_challenges identity rs) \<le> 100"
  by (simp add: newest_challenges_def)

lemma filter_key_in_list_bound:
  assumes "no_clash challenge_clash rs" "length ks \<le> n"
  shows "length (filter (\<lambda>r. ch_identity r = i \<and> ch_protected r \<in> set ks) rs) \<le> n"
proof -
  let ?fs = "filter (\<lambda>r. ch_identity r = i \<and> ch_protected r \<in> set ks) rs"
  have "distinct (map ch_protected ?fs)"
    using assms(1) by (induction rs) (auto simp: no_clash_Cons challenge_clash_def)
  then have "length ?fs = card (ch_protected ` set ?fs)"
    using distinct_card [of "map ch_protected ?fs"] by simp
  also have "\<dots> \<le> card (set ks)"
    by (rule card_mono) auto
  also have "\<dots> \<le> n"
    using assms(2) card_length le_trans by blast
  finally show ?thesis .
qed

definition insert_if_absent :: "('r \<Rightarrow> 'r \<Rightarrow> bool) \<Rightarrow> 'r \<Rightarrow> 'r list \<Rightarrow> 'r list" where
  "insert_if_absent clash r rs = (if list_ex (clash r) rs then rs else rs @ [r])"

lemma save_challenge_rows:
  "save_challenge i p now d = (Inr (), d\<lparr>challenges :=
     (let rs = insert_if_absent challenge_clash \<lparr>ch_identity = i, ch_protected = p, ch_issued_at = now\<rparr> (challenges d)
      in filter (\<lambda>r. ch_identity r = i \<longrightarrow> ch_protected r \<in> set (newest_challenges i rs)) rs)\<rparr>)"
  by (cases "list_ex (challenge_clash \<lparr>ch_identity = i, ch_protected = p, ch_issued_at = now\<rparr>) (challenges d)")
     (simp_all add: save_challenge_def transaction_def action_defs statement_defs insert_if_absent_def
       Let_def comp_def)

lemma no_clash_insert_if_absent:
  assumes "\<And>a b. clash a b = clash b a" "no_clash clash rs"
  shows "no_clash clash (insert_if_absent clash r rs)"
  using assms(2) unfolding insert_if_absent_def
  by (simp add: list_ex_iff no_clash_snoc [where c = clash, OF assms(1)])

lemma session_insert_fetch:
  assumes "save_session tok owner until d = (Inr (), d')" "now < until"
  shows "session_owner tok now d' = (Inr (Some owner), d')"
proof -
  from assms(1) have d': "d' = d\<lparr>sessions := sessions d @ [\<lparr>se_token = tok, se_identity = owner, se_valid_until = until\<rparr>]\<rparr>"
    and new: "\<forall>r\<in>set (sessions d). se_token r \<noteq> tok"
    by (auto simp: save_session_def insert_into_def session_clash_def list_ex_iff split: if_splits)
  from new have "first_row (\<lambda>r. se_token r = tok \<and> now < se_valid_until r) (sessions d) = None"
    by (auto simp: first_row_None)
  with assms(2) show ?thesis
    by (simp add: d' session_owner_def statement_defs action_defs first_row_append)
qed

text \<open>What \<open>consume_challenge\<close> returns and leaves, as one equation.\<close>

definition challenge_fresh :: "(string \<Rightarrow> int option) \<Rightarrow> string \<Rightarrow> int \<Rightarrow> int \<Rightarrow> bool" where
  "challenge_fresh parse issued_at now max_age =
     (let issued = (case parse issued_at of None \<Rightarrow> 0 | Some t \<Rightarrow> t)
      in issued \<le> now \<and> sat_i64 (now - issued) \<le> max_age)"

lemma consume_challenge_eq:
  "consume_challenge parse i p now age d =
     (Inr (case first_row (\<lambda>r. ch_identity r = i \<and> ch_protected r = p) (challenges d) of
             None \<Rightarrow> False | Some r \<Rightarrow> challenge_fresh parse (ch_issued_at r) now age),
      d\<lparr>challenges := filter (\<lambda>r. \<not> (ch_identity r = i \<and> ch_protected r = p)) (challenges d)\<rparr>)"
  by (simp add: consume_challenge_def action_defs statement_defs challenge_fresh_def Let_def split: option.split)

lemma first_row_after_delete: "first_row p (filter (\<lambda>r. \<not> p r) rs) = None"
  by (simp add: first_row_None)

lemma first_row_filter_other:
  "(\<And>r. q r \<Longrightarrow> \<not> p r) \<Longrightarrow> first_row q (filter (\<lambda>r. \<not> p r) rs) = first_row q rs"
  by (induction rs) auto

text \<open>After a challenge has been presented once, whatever the outcome, presenting it again
  at any time is refused, and every challenge of another identity or with another text keeps
  the answer it had.\<close>

theorem challenge_single_use:
  "let d' = state_after (consume_challenge parse i p now age) d in
     result_of (consume_challenge parse i p now' age') d' = Inr False \<and>
     (\<forall>j q. (j, q) \<noteq> (i, p) \<longrightarrow>
        result_of (consume_challenge parse j q now' age') d' = result_of (consume_challenge parse j q now' age') d)"
proof -
  have other: "first_row (\<lambda>r. ch_identity r = j \<and> ch_protected r = q)
      (filter (\<lambda>r. \<not> (ch_identity r = i \<and> ch_protected r = p)) (challenges d)) =
      first_row (\<lambda>r. ch_identity r = j \<and> ch_protected r = q) (challenges d)"
    if "(j, q) \<noteq> (i, p)" for j q
    using that by (intro first_row_filter_other) auto
  show ?thesis
    unfolding Let_def result_of_def state_after_def consume_challenge_eq
    by (simp add: first_row_after_delete other del: de_Morgan_conj)
qed

text \<open>Issuing a challenge leaves at most 100 outstanding challenges for the identity,
  touches no other identity, and keeps every UNIQUE constraint.\<close>

theorem save_challenge_bounded:
  assumes "db_unique d"
  shows "let d' = state_after (save_challenge i p now) d in
     length (filter (\<lambda>r. ch_identity r = i) (challenges d')) \<le> 100 \<and>
     filter (\<lambda>r. ch_identity r \<noteq> i) (challenges d') = filter (\<lambda>r. ch_identity r \<noteq> i) (challenges d) \<and>
     db_unique d'"
proof -
  let ?new = "\<lparr>ch_identity = i, ch_protected = p, ch_issued_at = now\<rparr>"
  let ?rs = "insert_if_absent challenge_clash ?new (challenges d)"
  let ?keep = "\<lambda>r. ch_identity r = i \<longrightarrow> ch_protected r \<in> set (newest_challenges i ?rs)"
  have u: "no_clash challenge_clash ?rs"
    using assms by (intro no_clash_insert_if_absent clash_sym(1)) (simp add: db_unique_def)
  have "filter (\<lambda>r. ch_identity r = i) (filter ?keep ?rs) =
      filter (\<lambda>r. ch_identity r = i \<and> ch_protected r \<in> set (newest_challenges i ?rs)) ?rs"
    by (auto intro: filter_cong)
  then have "length (filter (\<lambda>r. ch_identity r = i) (filter ?keep ?rs)) \<le> 100"
    using filter_key_in_list_bound [OF u newest_challenges_length] by simp
  moreover have "filter (\<lambda>r. ch_identity r \<noteq> i) (filter ?keep ?rs) = filter (\<lambda>r. ch_identity r \<noteq> i) (challenges d)"
    by (auto simp: insert_if_absent_def intro: filter_cong)
  moreover have "db_unique (d\<lparr>challenges := filter ?keep ?rs\<rparr>)"
    using assms no_clash_filter [OF u] by (simp add: db_unique_def)
  ultimately show ?thesis
    by (simp add: state_after_def save_challenge_rows Let_def)
qed

theorem save_challenge_bounded_witness:
  "db_unique empty_db \<and>
   length (filter (\<lambda>r. ch_identity r = ''02ab'')
     (challenges (state_after (save_challenge ''02ab'' ''nonce'' ''2026-01-01'') empty_db))) \<le> 100"
  using save_challenge_bounded [OF db_unique_empty, of "''02ab''" "''nonce''" "''2026-01-01''"] db_unique_empty
  by (simp add: Let_def)

section \<open>Sessions\<close>

text \<open>A successful verification, taken apart step by step.\<close>

lemma verify_challenge_InrD:
  assumes "verify_challenge lib now1 now2 token i p sig d = (Inr (tok, until), d')"
  obtains pk key bs s r where
    "al_hex_decode lib i = Inr pk" "al_public_key lib pk = Inr key"
    "first_row (\<lambda>r. ch_identity r = i \<and> ch_protected r = p) (challenges d) = Some r"
    "challenge_fresh (al_parse_rfc3339 lib) (ch_issued_at r) now1 300"
    "decode_signature lib sig = Inr s"
    "validate_challenge lib bs key = Inr ()" "al_verify lib (al_sha256 lib bs) s key = Inr ()"
    "tok = token" "until = now2 + 86400"
    "save_session token i (al_rfc3339 lib until)
       (d\<lparr>challenges := filter (\<lambda>r. \<not> (ch_identity r = i \<and> ch_protected r = p)) (challenges d)\<rparr>) = (Inr (), d')"
proof -
  let ?d = "d\<lparr>challenges := filter (\<lambda>r. \<not> (ch_identity r = i \<and> ch_protected r = p)) (challenges d)\<rparr>"
  let ?fresh = "case first_row (\<lambda>r. ch_identity r = i \<and> ch_protected r = p) (challenges d) of
             None \<Rightarrow> False | Some r \<Rightarrow> challenge_fresh (al_parse_rfc3339 lib) (ch_issued_at r) now1 300"
  from assms obtain pk key where 1: "al_hex_decode lib i = Inr pk" "al_public_key lib pk = Inr key" and
    2: "(if \<not> ?fresh then throw (Failure ''unknown, reused, or expired challenge'') else
     bind_action (lift_result (decode_signature lib sig)) (\<lambda>s.
     bind_action (lift_result (ok_or
         (case al_url_decode lib (trim p) of Some bs \<Rightarrow> Some bs | None \<Rightarrow> al_b64_decode lib (trim p))
         (Failure ''malformed challenge''))) (\<lambda>bs.
     then_action (lift_result (validate_challenge lib bs key))
     (then_action (lift_result (al_verify lib (al_sha256 lib bs) s key))
     (let valid_until = now2 + 86400 in
      then_action (save_session token i (al_rfc3339 lib valid_until)) (ret (token, valid_until)))))))
      ?d = (Inr (tok, until), d')"
    unfolding verify_challenge_def
    by (elim bind_InrE) (auto simp only: lift_result_Inr consume_challenge_eq prod.inject sum.inject)
  have fresh: ?fresh
    by (rule ccontr) (use 2 in \<open>simp only: if_True not_False_eq_True throw_Inr\<close>)
  then obtain r where "first_row (\<lambda>r. ch_identity r = i \<and> ch_protected r = p) (challenges d) = Some r"
    "challenge_fresh (al_parse_rfc3339 lib) (ch_issued_at r) now1 300"
    by (auto split: option.splits)
  moreover from 2 fresh obtain s bs where
    "decode_signature lib sig = Inr s" "validate_challenge lib bs key = Inr ()"
    "al_verify lib (al_sha256 lib bs) s key = Inr ()" "tok = token" "until = now2 + 86400"
    "save_session token i (al_rfc3339 lib until) ?d = (Inr (), d')"
    by (simp only: if_True if_False not_True_eq_False Let_def)
       (elim bind_InrE then_InrE, simp add: lift_result_Inr ret_Inr)
  ultimately show ?thesis using 1 by (intro that) auto
qed

lemma require_session_after_save:
  assumes "save_session tok owner until d = (Inr (), d')" "now < until" "bearer_token h = tok" "tok \<noteq> ''''"
  shows "require_session h now d' = (Inr owner, d')"
  using session_insert_fetch [OF assms(1,2)] assms(3,4)
  by (simp add: require_session_def Let_def bind_action_def ret_def)

text \<open>A verification that succeeds saw a stored challenge of this identity, at most 300
  seconds old, a protobuf that names the identity's key, and a signature by that key over its
  SHA-256; it removes exactly that challenge and stores exactly one session, valid for 24 hours
  from the second clock reading. The new session then authenticates its owner until it expires.\<close>

theorem verify_challenge_sound:
  assumes "verify_challenge lib now1 now2 token i p sig d = (Inr (tok, until), d')"
  shows "(\<exists>key bs s r. r \<in> set (challenges d) \<and> ch_identity r = i \<and> ch_protected r = p \<and>
       challenge_fresh (al_parse_rfc3339 lib) (ch_issued_at r) now1 300 \<and>
       decode_signature lib sig = Inr s \<and> validate_challenge lib bs key = Inr () \<and>
       al_verify lib (al_sha256 lib bs) s key = Inr ()) \<and>
     tok = token \<and> until = now2 + 86400 \<and>
     d' = d\<lparr>challenges := filter (\<lambda>r. \<not> (ch_identity r = i \<and> ch_protected r = p)) (challenges d),
            sessions := sessions d @ [\<lparr>se_token = token, se_identity = i, se_valid_until = al_rfc3339 lib until\<rparr>]\<rparr> \<and>
     (\<forall>h now. now < al_rfc3339 lib until \<longrightarrow> bearer_token h = token \<longrightarrow> token \<noteq> '''' \<longrightarrow>
        require_session h now d' = (Inr i, d'))"
  (is "?checks \<and> ?tok \<and> ?until \<and> ?db \<and> ?session")
proof (intro conjI)
  show ?checks
    using assms by (rule verify_challenge_InrD) (blast dest: first_row_SomeD)
  show ?tok
    using assms by (rule verify_challenge_InrD)
  show ?until
    using assms by (rule verify_challenge_InrD)
  show ?db
    using assms by (rule verify_challenge_InrD) (auto simp: save_session_def insert_into_def split: if_splits)
  show ?session
    using assms by (rule verify_challenge_InrD) (auto intro: require_session_after_save)
qed

text \<open>A library that accepts everything, for concrete runs.\<close>

definition open_lib :: auth_lib where
  "open_lib = \<lparr>al_hex_decode = (\<lambda>_. Inr [2]), al_public_key = (\<lambda>b. Inr b),
     al_decode_protected = (\<lambda>_. Some \<lparr>pmsg_version = 1,
        pmsg_challenge = Some \<lparr>cm_version = 1, cm_timestamp = 100, cm_nonce = replicate 32 0, cm_public_key = [2]\<rparr>,
        pmsg_server_hmac = replicate 32 0\<rparr>),
     al_encode_protected = (\<lambda>_. [1]), al_encode_challenge = (\<lambda>_. [3]),
     al_url_encode = (\<lambda>_. ''AQ''), al_url_decode = (\<lambda>_. Some [1]), al_b64_decode = (\<lambda>_. None),
     al_sig_der = (\<lambda>b. Some b), al_sig_compact = (\<lambda>_. None), al_verify = (\<lambda>_ _ _. Inr ()),
     al_sha256 = (\<lambda>b. b), al_mac = (\<lambda>_. replicate 32 0), al_rfc3339 = (\<lambda>_. ''2026-01-01''),
     al_parse_rfc3339 = (\<lambda>_. Some 100)\<rparr>"

definition demo_auth_db :: db where
  "demo_auth_db = state_after (get_challenge open_lib (replicate 32 0) 100 100 ''02ab'') empty_db"

lemma challenge_single_use_witness:
  "result_of (consume_challenge (\<lambda>_. Some 100) ''02ab'' ''AQ'' 120 300)
     (state_after (consume_challenge (\<lambda>_. Some 100) ''02ab'' ''AQ'' 110 300) demo_auth_db) = Inr False \<and>
   result_of (consume_challenge (\<lambda>_. Some 100) ''03cd'' ''AQ'' 120 300)
     (state_after (consume_challenge (\<lambda>_. Some 100) ''02ab'' ''AQ'' 110 300) demo_auth_db) =
   result_of (consume_challenge (\<lambda>_. Some 100) ''03cd'' ''AQ'' 120 300) demo_auth_db"
  using challenge_single_use [of "\<lambda>_. Some 100" "''02ab''" "''AQ''" 110 300 demo_auth_db 120 300]
  by (simp add: Let_def)

lemma save_challenge_empty:
  "save_challenge i p now empty_db =
     (Inr (), empty_db\<lparr>challenges := [\<lparr>ch_identity = i, ch_protected = p, ch_issued_at = now\<rparr>]\<rparr>)"
  by (simp add: save_challenge_rows insert_if_absent_def empty_db_def newest_challenges_def)

lemma demo_auth_db_eq:
  "demo_auth_db = empty_db\<lparr>challenges := [\<lparr>ch_identity = ''02ab'', ch_protected = ''AQ'', ch_issued_at = ''2026-01-01''\<rparr>]\<rparr>"
  by (simp add: demo_auth_db_def get_challenge_def open_lib_def state_after_def then_action_def bind_action_def
      ret_def Let_def save_challenge_empty)

lemma demo_verify:
  "verify_challenge open_lib 110 111 ''tok'' ''02ab'' ''AQ'' ''sig'' demo_auth_db =
     (Inr (''tok'', 86511), empty_db\<lparr>sessions := [\<lparr>se_token = ''tok'', se_identity = ''02ab'', se_valid_until = ''2026-01-01''\<rparr>]\<rparr>)"
  by (simp add: demo_auth_db_eq verify_challenge_def consume_challenge_eq bind_action_def then_action_def
      open_lib_def ret_def lift_result_def challenge_fresh_def sat_i64_def i64_max_def i64_min_def
      decode_signature_def parse_signature_def Let_def validate_challenge_def save_session_def insert_into_def
      empty_db_def)

theorem verify_challenge_sound_witness:
  "verify_challenge open_lib 110 111 ''tok'' ''02ab'' ''AQ'' ''sig'' demo_auth_db =
     (Inr (''tok'', 86511), empty_db\<lparr>sessions := [\<lparr>se_token = ''tok'', se_identity = ''02ab'', se_valid_until = ''2026-01-01''\<rparr>]\<rparr>) \<and>
   require_session (Some ''Bearer tok'') ''2025-12-31''
     (empty_db\<lparr>sessions := [\<lparr>se_token = ''tok'', se_identity = ''02ab'', se_valid_until = ''2026-01-01''\<rparr>]\<rparr>) =
     (Inr ''02ab'', empty_db\<lparr>sessions := [\<lparr>se_token = ''tok'', se_identity = ''02ab'', se_valid_until = ''2026-01-01''\<rparr>]\<rparr>)"
proof -
  have "''2025-12-31'' < al_rfc3339 open_lib 86511"
    by (simp add: open_lib_def less_char_def)
  moreover have "bearer_token (Some ''Bearer tok'') = ''tok''"
    by (simp add: bearer_token_def is_prefix_str_def trim_def is_space_def)
  ultimately have "require_session (Some ''Bearer tok'') ''2025-12-31''
     (empty_db\<lparr>sessions := [\<lparr>se_token = ''tok'', se_identity = ''02ab'', se_valid_until = ''2026-01-01''\<rparr>]\<rparr>) =
     (Inr ''02ab'', empty_db\<lparr>sessions := [\<lparr>se_token = ''tok'', se_identity = ''02ab'', se_valid_until = ''2026-01-01''\<rparr>]\<rparr>)"
    by (intro verify_challenge_sound [OF demo_verify, THEN conjunct2, THEN conjunct2, THEN conjunct2,
          THEN conjunct2, rule_format]) simp_all
  with demo_verify show ?thesis by blast
qed

lemma newest_challenges_all:
  assumes "length (filter (\<lambda>r. ch_identity r = i) rs) \<le> 100"
  shows "set (newest_challenges i rs) = ch_protected ` set (filter (\<lambda>r. ch_identity r = i) rs)"
  using assms by (simp add: newest_challenges_def)

lemma save_challenge_below_limit:
  assumes "length (filter (\<lambda>r. ch_identity r = i) (challenges d)) < 100"
    and "\<forall>r\<in>set (challenges d). \<not> (ch_identity r = i \<and> ch_protected r = p)"
  shows "save_challenge i p now d =
    (Inr (), d\<lparr>challenges := challenges d @ [\<lparr>ch_identity = i, ch_protected = p, ch_issued_at = now\<rparr>]\<rparr>)"
proof -
  let ?rs = "challenges d @ [\<lparr>ch_identity = i, ch_protected = p, ch_issued_at = now\<rparr>]"
  have ins: "insert_if_absent challenge_clash \<lparr>ch_identity = i, ch_protected = p, ch_issued_at = now\<rparr> (challenges d) = ?rs"
    using assms(2) by (auto simp: insert_if_absent_def list_ex_iff challenge_clash_def)
  have "set (newest_challenges i ?rs) = ch_protected ` set (filter (\<lambda>r. ch_identity r = i) ?rs)"
    by (rule newest_challenges_all) (use assms(1) in simp)
  then have "filter (\<lambda>r. ch_identity r = i \<longrightarrow> ch_protected r \<in> set (newest_challenges i ?rs)) ?rs = ?rs"
    by (intro filter_True) auto
  then show ?thesis
    by (simp add: save_challenge_rows ins Let_def)
qed

section \<open>Logging in end to end\<close>

text \<open>The message \<open>get_challenge\<close> issues, and the text it hands out.\<close>

definition issued_message :: "auth_lib \<Rightarrow> bytes \<Rightarrow> int \<Rightarrow> bytes \<Rightarrow> protected_msg" where
  "issued_message lib nonce ts pk =
     (let c = \<lparr>cm_version = 1, cm_timestamp = ts, cm_nonce = nonce, cm_public_key = pk\<rparr>
      in \<lparr>pmsg_version = 1, pmsg_challenge = Some c, pmsg_server_hmac = al_mac lib (al_encode_challenge lib c)\<rparr>)"

definition issued_text :: "auth_lib \<Rightarrow> bytes \<Rightarrow> int \<Rightarrow> bytes \<Rightarrow> string" where
  "issued_text lib nonce ts pk = al_url_encode lib (al_encode_protected lib (issued_message lib nonce ts pk))"

lemma get_challenge_eq:
  assumes "al_hex_decode lib i = Inr pk" "al_public_key lib pk = Inr key"
  shows "get_challenge lib nonce ts saved i =
    then_action (save_challenge i (issued_text lib nonce ts pk) (al_rfc3339 lib saved)) (ret (issued_text lib nonce ts pk))"
  using assms by (simp add: get_challenge_def issued_text_def issued_message_def Let_def)

lemma validate_issued:
  assumes "al_public_key lib pk = Inr key" "length nonce = 32"
    and "\<And>c. length (al_mac lib c) = 32"
    and "al_decode_protected lib (al_encode_protected lib (issued_message lib nonce ts pk)) = Some (issued_message lib nonce ts pk)"
  shows "validate_challenge lib (al_encode_protected lib (issued_message lib nonce ts pk)) key = Inr ()"
  using assms by (simp add: validate_challenge_def issued_message_def Let_def)

text \<open>C38. A wallet that asks for a challenge and presents it within 300 seconds with a signature
  the library accepts is given a session, provided the codecs invert each other on the
  message, it has fewer than 100 challenges outstanding, and nonce and token are fresh.\<close>

theorem login_roundtrip:
  assumes key: "al_hex_decode lib i = Inr pk" "al_public_key lib pk = Inr key"
    and nonce: "length nonce = 32" and mac: "\<And>c. length (al_mac lib c) = 32"
    and codec: "al_decode_protected lib (al_encode_protected lib (issued_message lib nonce ts pk)) = Some (issued_message lib nonce ts pk)"
    and b64: "al_url_decode lib (trim (issued_text lib nonce ts pk)) = Some (al_encode_protected lib (issued_message lib nonce ts pk))"
    and clock: "al_parse_rfc3339 lib (al_rfc3339 lib saved) = Some saved" "saved \<le> now1" "now1 - saved \<le> 300"
    and sig: "decode_signature lib sig = Inr s"
      "al_verify lib (al_sha256 lib (al_encode_protected lib (issued_message lib nonce ts pk))) s key = Inr ()"
    and room: "length (filter (\<lambda>r. ch_identity r = i) (challenges d)) < 100"
    and fresh: "\<forall>r\<in>set (challenges d). ch_protected r \<noteq> issued_text lib nonce ts pk"
      "\<forall>r\<in>set (sessions d). se_token r \<noteq> token"
  shows "let p = issued_text lib nonce ts pk;
       d1 = d\<lparr>challenges := challenges d @ [\<lparr>ch_identity = i, ch_protected = p, ch_issued_at = al_rfc3339 lib saved\<rparr>]\<rparr>
     in get_challenge lib nonce ts saved i d = (Inr p, d1) \<and>
       verify_challenge lib now1 now2 token i p sig d1 =
         (Inr (token, now2 + 86400),
          d\<lparr>sessions := sessions d @ [\<lparr>se_token = token, se_identity = i, se_valid_until = al_rfc3339 lib (now2 + 86400)\<rparr>]\<rparr>)"
proof -
  let ?p = "issued_text lib nonce ts pk"
  let ?d1 = "d\<lparr>challenges := challenges d @ [\<lparr>ch_identity = i, ch_protected = ?p, ch_issued_at = al_rfc3339 lib saved\<rparr>]\<rparr>"
  have get: "get_challenge lib nonce ts saved i d = (Inr ?p, ?d1)"
    using save_challenge_below_limit [OF room, of ?p "al_rfc3339 lib saved"] fresh(1)
    by (simp add: get_challenge_eq [OF key] then_action_def bind_action_def ret_def)
  have none: "first_row (\<lambda>r. ch_identity r = i \<and> ch_protected r = ?p) (challenges d) = None"
    using fresh(1) by (auto simp: first_row_None)
  have kept: "filter (\<lambda>r. ch_identity r = i \<longrightarrow> ch_protected r \<noteq> ?p) (challenges d) = challenges d"
    using fresh(1) by (intro filter_True) auto
  have age: "sat_i64 (now1 - saved) = now1 - saved"
    using clock by (auto simp: sat_i64_def i64_max_def i64_min_def)
  have new: "\<not> (\<exists>r\<in>set (sessions d). token = se_token r)"
    using fresh(2) by auto
  have "verify_challenge lib now1 now2 token i ?p sig ?d1 =
       (Inr (token, now2 + 86400),
        d\<lparr>sessions := sessions d @ [\<lparr>se_token = token, se_identity = i, se_valid_until = al_rfc3339 lib (now2 + 86400)\<rparr>]\<rparr>)"
    using key clock sig new validate_issued [OF key(2) nonce mac codec]
    by (simp add: verify_challenge_def consume_challenge_eq bind_action_def then_action_def lift_result_def ret_def
        first_row_append none kept challenge_fresh_def age b64 save_session_def insert_into_def list_ex_iff
        session_clash_def Let_def)
  with get show ?thesis by (simp add: Let_def)
qed

theorem login_roundtrip_witness:
  "get_challenge open_lib (replicate 32 0) 100 100 ''02ab'' empty_db = (Inr ''AQ'', demo_auth_db) \<and>
   verify_challenge open_lib 110 111 ''tok'' ''02ab'' ''AQ'' ''c2ln'' demo_auth_db =
     (Inr (''tok'', 86511), empty_db\<lparr>sessions := [\<lparr>se_token = ''tok'', se_identity = ''02ab'', se_valid_until = ''2026-01-01''\<rparr>]\<rparr>)"
proof -
  have decoded: "issued_text open_lib (replicate 32 0) 100 [2] = ''AQ''"
    by (simp add: issued_text_def open_lib_def)
  have "let p = issued_text open_lib (replicate 32 0) 100 [2];
       d1 = empty_db\<lparr>challenges := challenges empty_db @ [\<lparr>ch_identity = ''02ab'', ch_protected = p, ch_issued_at = al_rfc3339 open_lib 100\<rparr>]\<rparr>
     in get_challenge open_lib (replicate 32 0) 100 100 ''02ab'' empty_db = (Inr p, d1) \<and>
       verify_challenge open_lib 110 111 ''tok'' ''02ab'' p ''c2ln'' d1 =
         (Inr (''tok'', 111 + 86400),
          empty_db\<lparr>sessions := sessions empty_db @ [\<lparr>se_token = ''tok'', se_identity = ''02ab'', se_valid_until = al_rfc3339 open_lib (111 + 86400)\<rparr>]\<rparr>)"
    by (rule login_roundtrip [where key = "[2]" and s = "[1]"])
       (simp_all add: open_lib_def issued_message_def empty_db_def decode_signature_def parse_signature_def Let_def)
  moreover have "al_rfc3339 open_lib n = ''2026-01-01''" for n
    by (simp add: open_lib_def)
  ultimately show ?thesis
    by (simp add: Let_def decoded demo_auth_db_eq empty_db_def)
qed

end
