(* ===== verification/Requests.thy ===== *)
theory Requests
  imports Schema
begin

text \<open>
  Owner-scoped user requests and transfers: the request and transfer operations of
  src/src/db.rs and \<open>index_request\<close> of src/src/lightning_store.rs, which turns the JSON of a
  Lightning request into its typed row inside the inserting transaction. BOLT11 parsing and
  RFC 3339 are arguments.
\<close>

datatype network = Bitcoin | Testnet | Signet | Regtest

text \<open>What the code reads of a parsed \<open>Bolt11Invoice\<close>.\<close>

record bolt11 =
  bi_payment_hash :: string
  bi_amount_msat :: "u64 option"
  bi_network :: network
  bi_would_expire :: "int \<Rightarrow> bool"

definition json_text :: "json \<Rightarrow> string \<Rightarrow> string" where
  "json_text p name = (case as_str (jfield p name) of None \<Rightarrow> '''' | Some s \<Rightarrow> s)"

definition positive :: "u64 option \<Rightarrow> u64 option" where
  "positive x = (case x of Some n \<Rightarrow> if n > 0 then Some n else None | None \<Rightarrow> None)"

definition request_exists :: "string \<Rightarrow> db \<Rightarrow> bool" where
  "request_exists rid d \<longleftrightarrow> list_ex (\<lambda>r. rq_id r = rid) (requests d)"

text \<open>
  \<open>INSERT INTO lightning_receives\<close> and \<open>INSERT INTO lightning_sends\<close>: the CHECK on \<open>kind\<close>,
  the reference to \<open>requests\<close> and rusqlite's bound on \<open>u64\<close> parameters.
\<close>

definition insert_receive_row :: "string \<Rightarrow> receive_row \<Rightarrow> (db, unit) action" where
  "insert_receive_row payment_kind row =
     (if \<not> sql_u64 (lr_amount_sats row) then throw (Failure ''ToSqlConversionFailure'')
      else case send_kind_parse payment_kind of
        Inl _ \<Rightarrow> throw (Constraint ''lightning_receives'')
      | Inr k \<Rightarrow> insert_into ''lightning_receives'' lightning_receives_t receive_clash
                  (request_exists (lr_request_id row)) (row\<lparr>lr_kind := k\<rparr>))"

definition insert_send_row :: "string \<Rightarrow> send_row \<Rightarrow> (db, unit) action" where
  "insert_send_row payment_kind row =
     (if \<not> sql_u64 (ls_amount_sats row) \<or>
         \<not> (case ls_amount_override row of None \<Rightarrow> True | Some n \<Rightarrow> sql_u64 n)
      then throw (Failure ''ToSqlConversionFailure'')
      else case send_kind_parse payment_kind of
        Inl _ \<Rightarrow> throw (Constraint ''lightning_sends'')
      | Inr k \<Rightarrow> insert_into ''lightning_sends'' lightning_sends_t send_clash
                  (request_exists (ls_request_id row)) (row\<lparr>ls_kind := k\<rparr>))"

definition index_receive :: "(string \<Rightarrow> int option) \<Rightarrow> string \<Rightarrow> string \<Rightarrow> string \<Rightarrow> string \<Rightarrow> json \<Rightarrow> (db, unit) action" where
  "index_receive parse_rfc3339 rid owner created payment_kind p =
     then_action
       (case as_str (jfield p ''quote_transfer_id'') of
          Some quote_id \<Rightarrow> insert_into ''receive_quote_uses'' receive_quote_uses_t quote_use_clash (\<lambda>_. True)
            \<lparr>qu_quote_id = quote_id, qu_payment_hash = json_text p ''payment_hash''\<rparr>
        | None \<Rightarrow> ret ())
       (let expiry_secs = (case as_u64 (jfield p ''expiry_secs'') of None \<Rightarrow> 86400 | Some n \<Rightarrow> uint n);
            expiry = sat_i64 ((case parse_rfc3339 created of None \<Rightarrow> 0 | Some t \<Rightarrow> t) + min expiry_secs i64_max)
        in case positive (as_u64 (jfield p ''amount_sats'')) of
             None \<Rightarrow> throw (Failure ''receive amount_sats is missing or not positive'')
           | Some amount \<Rightarrow> insert_receive_row payment_kind
               \<lparr>lr_hash = json_text p ''payment_hash'', lr_request_id = rid, lr_owner = owner,
                lr_receiver = (case as_str (jfield p ''receiver_identity_pubkey'') of None \<Rightarrow> owner | Some r \<Rightarrow> r),
                lr_amount_sats = amount, lr_invoice = json_text p ''invoice'', lr_expires_at = expiry,
                lr_kind = Bolt11, lr_settled_payment_hash = as_str (jfield p ''settled_payment_hash'')\<rparr>)"

definition index_send :: "(string \<Rightarrow> bolt11 option) \<Rightarrow> string \<Rightarrow> string \<Rightarrow> string \<Rightarrow> json \<Rightarrow> (db, unit) action" where
  "index_send decode_invoice rid owner payment_kind p = (\<lambda>d.
     let old_payment = json_text p ''payment_id'';
         decoded = decode_invoice (json_text p ''encoded_invoice'');
         expected = (case decoded of None \<Rightarrow> '''' | Some i \<Rightarrow> bi_payment_hash i);
         stored = (case first_row (\<lambda>r. pm_id r = old_payment) (payments d) of None \<Rightarrow> Pending | Some r \<Rightarrow> pm_status r);
         init_failed = is_prefix_str ''init-failed:'' old_payment;
         status = (if init_failed then Submitting else stored);
         requested = as_u64 (jfield p ''amount_sats'');
         amount = (case requested of
             Some n \<Rightarrow> Some n
           | None \<Rightarrow> Option.bind decoded (\<lambda>i. map_option (\<lambda>a. div_ceil a 1000) (bi_amount_msat i)))
     in (case positive amount of
           None \<Rightarrow> throw (Failure ''send amount is missing; a zero-amount invoice needs amount_sats'')
         | Some n \<Rightarrow> insert_send_row payment_kind
             \<lparr>ls_request_id = rid, ls_owner = owner,
              ls_outbound_transfer_id = json_text p ''user_outbound_transfer_external_id'',
              ls_invoice = json_text p ''encoded_invoice'', ls_amount_sats = n, ls_amount_override = requested,
              ls_kind = Bolt11, ls_expected_id = expected, ls_max_route_cltv = None,
              ls_payment_id = (if init_failed then None else Some old_payment), ls_status = status,
              ls_last_error = None\<rparr>) d)"

definition index_request ::
  "(string \<Rightarrow> int option) \<Rightarrow> (string \<Rightarrow> bolt11 option) \<Rightarrow> string \<Rightarrow> string \<Rightarrow> string \<Rightarrow> string \<Rightarrow> json \<Rightarrow> (db, unit) action" where
  "index_request parse_rfc3339 decode_invoice rid kind owner created p =
     (let payment_kind = (case as_str (jfield p ''payment_kind'') of None \<Rightarrow> ''BOLT11'' | Some k \<Rightarrow> k) in
      if kind \<noteq> ''LIGHTNING_SEND'' \<and> kind \<noteq> ''LIGHTNING_RECEIVE'' then ret ()
      else if kind = ''LIGHTNING_RECEIVE'' then index_receive parse_rfc3339 rid owner created payment_kind p
      else if payment_kind \<noteq> ''INTERNAL_BOLT11'' then index_send decode_invoice rid owner payment_kind p
      else ret ())"

definition insert_request_row :: "request_row \<Rightarrow> (db, unit) action" where
  "insert_request_row = insert_into ''requests'' requests_t request_clash (\<lambda>_. True)"

definition insert_request ::
  "(string \<Rightarrow> int option) \<Rightarrow> (string \<Rightarrow> bolt11 option) \<Rightarrow> string \<Rightarrow> string \<Rightarrow> string \<Rightarrow> string \<Rightarrow> json \<Rightarrow> string option
   \<Rightarrow> (db, unit) action" where
  "insert_request parse_rfc3339 decode_invoice rid kind owner created_at payload idempotency_key = transaction
     (then_action
        (insert_request_row \<lparr>rq_id = rid, rq_kind = kind, rq_owner = owner, rq_created_at = created_at,
            rq_payload = payload, rq_idempotency_key = idempotency_key\<rparr>)
        (index_request parse_rfc3339 decode_invoice rid kind owner created_at payload))"

definition compat_request_kinds :: "string list" where
  "compat_request_kinds = [''COOP_EXIT'', ''CLAIM_STATIC_DEPOSIT'', ''CLAIM_INSTANT_STATIC_DEPOSIT'']"

definition compat_request_count :: "string \<Rightarrow> string \<Rightarrow> (db, nat) action" where
  "compat_request_count owner since = query_count requests_t
     (\<lambda>r. rq_owner r = owner \<and> rq_created_at r \<ge> since \<and> rq_kind r \<in> set compat_request_kinds)"

text \<open>
  Two statements without a transaction. The rows of kinds with a settlement record are kept:
  no Lightning request has a compatibility kind, and deposit claims are excluded by id.
\<close>

definition prune_compat_requests :: "string \<Rightarrow> (db, nat) action" where
  "prune_compat_requests older_than =
     then_action (\<lambda>d. delete_where transfers_t (\<lambda>t. tr_kind t = ''COOP_EXIT'' \<and> \<not> request_exists (tr_request_id t) d) d)
       (\<lambda>d. delete_where requests_t (\<lambda>r. rq_created_at r < older_than \<and> rq_kind r \<in> set compat_request_kinds \<and>
               \<not> list_ex (\<lambda>c. dcr_id c = rq_id r) (deposit_claims d)) d)"

text \<open>The JSON object a stored request is returned as.\<close>

definition request_json :: "request_row \<Rightarrow> json" where
  "request_json r = JObj [(''id'', JStr (rq_id r)), (''type'', JStr (rq_kind r)),
     (''owner_identity_pubkey'', JStr (rq_owner r)), (''created_at'', JStr (rq_created_at r)),
     (''payload'', rq_payload r)]"

definition get_request :: "string \<Rightarrow> string \<Rightarrow> (db, json option) action" where
  "get_request rid owner = bind_action (query_optional requests_t (\<lambda>r. rq_id r = rid \<and> rq_owner r = owner))
     (\<lambda>row. ret (map_option request_json row))"

text \<open>\<open>ORDER BY created_at DESC LIMIT 1\<close>: the first row with the greatest timestamp.\<close>

fun latest_by :: "('r \<Rightarrow> string) \<Rightarrow> 'r list \<Rightarrow> 'r option" where
  "latest_by key [] = None"
| "latest_by key (r # rs) = (case latest_by key rs of
     None \<Rightarrow> Some r | Some b \<Rightarrow> if key b > key r then Some b else Some r)"

definition find_by_idempotency :: "string \<Rightarrow> string \<Rightarrow> (db, json option) action" where
  "find_by_idempotency owner key =
     (if key = '''' then ret None
      else bind_action (select_where requests_t (\<lambda>r. rq_owner r = owner \<and> rq_idempotency_key r = Some key))
        (\<lambda>rs. ret (map_option request_json (latest_by rq_created_at rs))))"

definition request_id_for_ext_id :: "string \<Rightarrow> string \<Rightarrow> string \<Rightarrow> (db, string option) action" where
  "request_id_for_ext_id kind ext_id owner =
     bind_action (select_where requests_t (\<lambda>r. rq_kind r = kind \<and> rq_owner r = owner \<and>
         as_str (jfield (rq_payload r) ''user_outbound_transfer_external_id'') = Some ext_id))
       (\<lambda>rs. ret (map_option rq_id (latest_by rq_created_at rs)))"

definition set_request_status :: "string \<Rightarrow> string \<Rightarrow> string \<Rightarrow> (db, unit) action" where
  "set_request_status rid owner status =
     bind_action (update_where requests_t (\<lambda>r. rq_id r = rid \<and> rq_owner r = owner)
         (\<lambda>r. r\<lparr>rq_payload := json_set ''status'' (JStr status) (rq_payload r)\<rparr>))
       (\<lambda>changed. if changed = 1 then ret () else throw (Failure ''request was not found''))"

section \<open>Transfers\<close>

definition transfer_for_request :: "string \<Rightarrow> string \<Rightarrow> (db, string option) action" where
  "transfer_for_request request_id owner =
     bind_action (query_optional transfers_t (\<lambda>t. tr_request_id t = request_id \<and> tr_owner t = owner))
       (\<lambda>row. ret (map_option tr_spark_id row))"

definition insert_transfer :: "string \<Rightarrow> string \<Rightarrow> string \<Rightarrow> string \<Rightarrow> string \<Rightarrow> (db, unit) action" where
  "insert_transfer spark_id request_id kind status owner =
     bind_action (upsert transfers_t (\<lambda>t. tr_spark_id t = spark_id) (\<lambda>t. tr_owner t = owner)
         (\<lambda>t. t\<lparr>tr_status := status\<rparr>)
         \<lparr>tr_spark_id = spark_id, tr_request_id = request_id, tr_kind = kind, tr_status = status, tr_owner = owner\<rparr>)
       (\<lambda>changed. if changed = 1 then ret () else throw (Failure ''transfer id belongs to another owner''))"

definition max_transfer_ids :: nat where "max_transfer_ids = 500"

definition transfer_total :: "json \<Rightarrow> u64" where
  "transfer_total payload =
     (let has = (\<lambda>k. case payload of JObj kvs \<Rightarrow> map_of kvs k | _ \<Rightarrow> None);
          v = (case has ''total_amount_sats'' of Some v \<Rightarrow> Some v | None \<Rightarrow>
                (case has ''amount_sats'' of Some v \<Rightarrow> Some v | None \<Rightarrow> has ''credit_amount_sats''))
      in case Option.bind v as_u64 of None \<Rightarrow> 0 | Some n \<Rightarrow> n)"

definition transfer_json :: "db \<Rightarrow> transfer_row \<Rightarrow> json" where
  "transfer_json d t =
     (let payload = (case first_row (\<lambda>r. rq_id r = tr_request_id t \<and> rq_owner r = tr_owner t) (requests d) of
                       None \<Rightarrow> JNull | Some r \<Rightarrow> rq_payload r)
      in JObj [(''spark_id'', JStr (tr_spark_id t)), (''user_request_id'', JStr (tr_request_id t)),
               (''type'', JStr (tr_kind t)), (''status'', JStr (tr_status t)),
               (''total_amount_sats'', juint (transfer_total payload))])"

definition transfers_for :: "string list \<Rightarrow> string \<Rightarrow> (db, json list) action" where
  "transfers_for ids owner =
     (if ids = [] then ret []
      else if length ids > max_transfer_ids then throw (Failure ''at most 500 transfer ids are allowed'')
      else (\<lambda>d. (Inr (map (transfer_json d) (filter (\<lambda>t. tr_owner t = owner \<and> tr_spark_id t \<in> set ids) (transfers d))), d)))"

section \<open>Static deposit quotes\<close>

definition record_static_quote :: "string \<Rightarrow> u32 \<Rightarrow> u64 \<Rightarrow> string \<Rightarrow> string \<Rightarrow> (db, string option) action" where
  "record_static_quote txid vout credit signature created_at =
     (let credit64 = sint credit in
      bind_action (query_optional static_quotes_t (\<lambda>q. sq_txid q = txid \<and> sq_vout q = vout)) (\<lambda>existing.
      case existing of
        Some q \<Rightarrow> ret (if sq_credit q = credit64 \<and> \<not> sq_claimed q then Some (sq_signature q) else None)
      | None \<Rightarrow>
          then_action (insert_into ''static_quotes'' static_quotes_t static_quote_clash (\<lambda>_. True)
              \<lparr>sq_txid = txid, sq_vout = vout, sq_credit = credit64, sq_signature = signature,
               sq_created_at = created_at, sq_claimed = False\<rparr>)
            (ret (Some signature))))"

definition consume_static_quote :: "string \<Rightarrow> u32 \<Rightarrow> string \<Rightarrow> (db, bool) action" where
  "consume_static_quote txid vout signature =
     bind_action (update_where static_quotes_t
         (\<lambda>q. sq_txid q = txid \<and> sq_vout q = vout \<and> sq_signature q = signature \<and> \<not> sq_claimed q)
         (\<lambda>q. q\<lparr>sq_claimed := True\<rparr>))
       (\<lambda>changed. ret (changed = 1))"

end
