(* ===== verification/Lightning_Sends.thy ===== *)
theory Lightning_Sends
  imports Requests
begin

text \<open>
  Durable Lightning sends: the send operations of src/src/lightning_store.rs and
  \<open>set_payment\<close> and \<open>payment_status\<close> of src/src/db.rs. The relation \<open>sends_evolve\<close> is the
  contract of the store: rows stay, their identity, funding and amount never change, a bound
  LDK payment id never changes, a terminal status never changes and PREPARED is never
  re-entered. It holds for any sequence of operations, which makes the submission checkpoint
  at-most-once.
\<close>

section \<open>Operations\<close>

text \<open>\<open>WHERE request_id=?1 OR payment_id=?1\<close>.\<close>

definition same_send :: "string \<Rightarrow> send_row \<Rightarrow> bool" where
  "same_send rid r \<longleftrightarrow> ls_request_id r = rid \<or> ls_payment_id r = Some rid"

definition terminal :: "send_status \<Rightarrow> bool" where
  "terminal st \<longleftrightarrow> st = Succeeded \<or> st = Failed"

definition payer_note :: "lightning_send \<Rightarrow> string" where
  "payer_note send = ''open-ssp:'' @ ls_request_id send"

definition send_payload :: "lightning_send \<Rightarrow> string \<Rightarrow> string \<Rightarrow> json" where
  "send_payload send key net = JObj [
     (''encoded_invoice'', JStr (ls_invoice send)),
     (''amount_sats'', jopt juint (ls_amount_override send)),
     (''total_amount_sats'', juint (ls_amount_sats send)),
     (''idempotency_key'', JStr key),
     (''payment_kind'', JStr (send_kind_str (ls_kind send))),
     (''offer_id'', if ls_kind send = Bolt12 then JStr (ls_expected_id send) else JNull),
     (''payment_id'', JStr (ls_request_id send)),
     (''network'', JStr net),
     (''user_outbound_transfer_external_id'', JStr (ls_outbound_transfer_id send))]"

definition funding_kind :: "send_kind \<Rightarrow> string" where
  "funding_kind k = (case k of Bolt11 \<Rightarrow> ''PREIMAGE_SWAP'' | Bolt12 \<Rightarrow> ''BOLT12_FUNDING'')"

definition prepared_row :: "lightning_send \<Rightarrow> send_row" where
  "prepared_row send = lightning_send.extend
     (send\<lparr>ls_payment_id := None, ls_status := Prepared\<rparr>) (send_row.fields None)"

definition prepare_lightning_send :: "string \<Rightarrow> lightning_send \<Rightarrow> string \<Rightarrow> string \<Rightarrow> (db, json) action" where
  "prepare_lightning_send created send key net =
     then_action (transaction
       (then_action
          (insert_request_row \<lparr>rq_id = ls_request_id send, rq_kind = ''LIGHTNING_SEND'', rq_owner = ls_owner send,
             rq_created_at = created, rq_payload = send_payload send key net, rq_idempotency_key = Some key\<rparr>)
       (then_action
          (insert_send_row (send_kind_str (ls_kind send)) (prepared_row send))
          (insert_into ''transfers'' transfers_t transfer_clash (\<lambda>_. True)
             \<lparr>tr_spark_id = ls_outbound_transfer_id send, tr_request_id = ls_request_id send,
              tr_kind = funding_kind (ls_kind send), tr_status = ''PENDING'', tr_owner = ls_owner send\<rparr>))))
     (ret (JObj [(''id'', JStr (ls_request_id send)), (''type'', JStr ''LIGHTNING_SEND''),
        (''owner_identity_pubkey'', JStr (ls_owner send)), (''created_at'', JStr created),
        (''payload'', send_payload send key net)]))"

definition lightning_send_for_payment :: "string \<Rightarrow> (db, lightning_send option) action" where
  "lightning_send_for_payment rid =
     bind_action (query_optional lightning_sends_t (same_send rid)) (\<lambda>row. ret (map_option lightning_send.truncate row))"

definition set_lightning_send_route_cltv :: "string \<Rightarrow> u32 option \<Rightarrow> (db, unit) action" where
  "set_lightning_send_route_cltv rid cltv =
     void (update_where lightning_sends_t (\<lambda>r. ls_request_id r = rid) (\<lambda>r. r\<lparr>ls_max_route_cltv := cltv\<rparr>))"

definition unresolved_lightning_sends :: "(db, lightning_send list) action" where
  "unresolved_lightning_sends =
     bind_action (select_where lightning_sends_t (\<lambda>r. \<not> terminal (ls_status r)))
       (\<lambda>rs. ret (map lightning_send.truncate (take 1000 (sort_key ls_request_id rs))))"

definition begin_lightning_submission :: "string \<Rightarrow> (db, bool) action" where
  "begin_lightning_submission rid =
     bind_action (update_where lightning_sends_t (\<lambda>r. ls_request_id r = rid \<and> ls_status r = Prepared)
         (\<lambda>r. r\<lparr>ls_status := Submitting\<rparr>))
       (\<lambda>n. ret (n = 1))"

definition bind_row :: "string \<Rightarrow> send_row \<Rightarrow> send_row" where
  "bind_row payment_id r =
     (if ls_status r = Submitting \<or> ls_status r = Prepared
      then r\<lparr>ls_payment_id := Some payment_id, ls_status := Pending, ls_last_error := None\<rparr>
      else r\<lparr>ls_payment_id := Some payment_id\<rparr>)"

definition bind_lightning_payment :: "string \<Rightarrow> string \<Rightarrow> (db, unit) action" where
  "bind_lightning_payment rid payment_id =
     bind_action (update_unique ''lightning_sends'' lightning_sends_t send_clash
         (\<lambda>r. ls_request_id r = rid \<and> (ls_payment_id r = None \<or> ls_payment_id r = Some payment_id))
         (bind_row payment_id))
       (\<lambda>changed. if changed = 1 then ret () else throw InvalidQuery)"

definition coalesce :: "'a option \<Rightarrow> 'a option \<Rightarrow> 'a option" where
  "coalesce a b = (case a of None \<Rightarrow> b | Some x \<Rightarrow> Some x)"

definition lightning_submission_error :: "string \<Rightarrow> string \<Rightarrow> (db, unit) action" where
  "lightning_submission_error rid err =
     void (update_where lightning_sends_t
       (\<lambda>r. ls_request_id r = rid \<and> ls_status r \<in> {Prepared, Submitting, Pending})
       (\<lambda>r. r\<lparr>ls_last_error := coalesce (ls_last_error r) (Some err)\<rparr>))"

definition lightning_failure_reason :: "string \<Rightarrow> (db, string option) action" where
  "lightning_failure_reason rid =
     bind_action (query_optional lightning_sends_t (same_send rid)) (\<lambda>row. ret (Option.bind row ls_last_error))"

definition record_lightning_proof :: "string \<Rightarrow> string \<Rightarrow> string \<Rightarrow> (db, unit) action" where
  "record_lightning_proof request_id hash preimage =
     void (update_where requests_t (\<lambda>r. rq_id r = request_id)
       (\<lambda>r. r\<lparr>rq_payload := json_set ''payment_preimage'' (JStr preimage)
                 (json_set ''settled_payment_hash'' (JStr hash) (rq_payload r))\<rparr>))"

definition record_lightning_failure :: "string \<Rightarrow> string option \<Rightarrow> (db, unit) action" where
  "record_lightning_failure rid reason =
     void (update_where lightning_sends_t (same_send rid)
       (\<lambda>r. r\<lparr>ls_last_error := coalesce reason (coalesce (ls_last_error r)
                 (Some ''Backend reported FAILED without a reason''))\<rparr>))"

definition set_payment :: "string \<Rightarrow> string \<Rightarrow> (db, unit) action" where
  "set_payment rid status =
     bind_action (lift_result (send_status_parse status)) (\<lambda>st.
     then_action (update_where lightning_sends_t (\<lambda>r. same_send rid r \<and> \<not> terminal (ls_status r))
         (\<lambda>r. r\<lparr>ls_status := st\<rparr>))
       (void (upsert payments_t (\<lambda>p. pm_id p = rid) (\<lambda>_. True) (\<lambda>p. p\<lparr>pm_status := st\<rparr>)
          \<lparr>pm_id = rid, pm_status = st\<rparr>)))"

definition payment_status :: "string \<Rightarrow> (db, string) action" where
  "payment_status rid =
     bind_action (query_optional lightning_sends_t (same_send rid)) (\<lambda>send.
     bind_action (query_optional payments_t (\<lambda>p. pm_id p = rid)) (\<lambda>payment.
       ret (case send of
              Some r \<Rightarrow> send_status_str (ls_status r)
            | None \<Rightarrow> (case payment of Some p \<Rightarrow> send_status_str (pm_status p) | None \<Rightarrow> ''UNKNOWN''))))"

section \<open>The contract of the store\<close>

definition same_intent :: "send_row \<Rightarrow> send_row \<Rightarrow> bool" where
  "same_intent a b \<longleftrightarrow> ls_request_id b = ls_request_id a \<and> ls_owner b = ls_owner a \<and>
     ls_outbound_transfer_id b = ls_outbound_transfer_id a \<and> ls_invoice b = ls_invoice a \<and>
     ls_amount_sats b = ls_amount_sats a \<and> ls_amount_override b = ls_amount_override a \<and>
     ls_kind b = ls_kind a \<and> ls_expected_id b = ls_expected_id a"

definition send_advances :: "send_row \<Rightarrow> send_row \<Rightarrow> bool" where
  "send_advances a b \<longleftrightarrow> same_intent a b \<and>
     (ls_payment_id a \<noteq> None \<longrightarrow> ls_payment_id b = ls_payment_id a) \<and>
     (terminal (ls_status a) \<longrightarrow> ls_status b = ls_status a) \<and>
     (ls_status a \<noteq> Prepared \<longrightarrow> ls_status b \<noteq> Prepared)"

abbreviation sends_evolve :: "db \<Rightarrow> db \<Rightarrow> bool" where
  "sends_evolve \<equiv> rows_evolve send_advances ls_request_id lightning_sends_t"

interpretation send_table: evolving_table lightning_sends_t send_advances ls_request_id
  by unfold_locales (auto simp: send_advances_def same_intent_def)

lemma send_clash_same_request: "ls_request_id r' = ls_request_id r \<Longrightarrow> send_clash r r'"
  by (simp add: send_clash_def)

section \<open>Behaviour of the operations\<close>

definition stored_send :: "string \<Rightarrow> db \<Rightarrow> send_row option" where
  "stored_send rid d = first_row (\<lambda>r. ls_request_id r = rid) (lightning_sends d)"

definition example_send :: lightning_send where
  "example_send = \<lparr>ls_request_id = ''req'', ls_owner = ''alice'', ls_outbound_transfer_id = ''out'',
     ls_invoice = ''lnbc1'', ls_amount_sats = 21, ls_amount_override = None, ls_kind = Bolt11,
     ls_expected_id = ''hash'', ls_max_route_cltv = Some 144, ls_payment_id = None, ls_status = Prepared\<rparr>"

lemma prepared_row_kind: "(prepared_row send)\<lparr>ls_kind := ls_kind send\<rparr> = prepared_row send"
  by (cases send) (simp add: prepared_row_def lightning_send.defs send_row.defs)

lemma stored_send_unique:
  assumes "db_unique d" "stored_send rid d = Some r" "r' \<in> set (lightning_sends d)" "ls_request_id r' = rid"
  shows "r' = r"
proof -
  have r: "r \<in> set (lightning_sends d)" "ls_request_id r = rid"
    using assms(2) by (auto simp: stored_send_def dest!: first_row_SomeD)
  have "no_clash send_clash (lightning_sends d)"
    using sends_key.unique_rows [OF assms(1)] by simp
  from no_clash_unique [OF this assms(3) r(1)] show ?thesis
    using r(2) assms(4) by (simp add: send_clash_def)
qed

text \<open>Preparing a send is atomic: an error (a reused request id, funding transfer, invoice
  hash or idempotency key, or an amount SQLite cannot store) leaves the database as it was, and
  success adds exactly the request, the PREPARED intent and the PENDING funding transfer.\<close>

theorem prepare_send_atomic:
  "case prepare_lightning_send created send key net d of
     (Inl e, d') \<Rightarrow> d' = d
   | (Inr j, d') \<Rightarrow> d' = d\<lparr>
        requests := requests d @ [\<lparr>rq_id = ls_request_id send, rq_kind = ''LIGHTNING_SEND'', rq_owner = ls_owner send,
             rq_created_at = created, rq_payload = send_payload send key net, rq_idempotency_key = Some key\<rparr>],
        lightning_sends := lightning_sends d @ [prepared_row send],
        transfers := transfers d @ [\<lparr>tr_spark_id = ls_outbound_transfer_id send, tr_request_id = ls_request_id send,
              tr_kind = funding_kind (ls_kind send), tr_status = ''PENDING'', tr_owner = ls_owner send\<rparr>]\<rparr>"
  by (auto simp: prepare_lightning_send_def transaction_def action_defs insert_request_row_def insert_send_row_def
      insert_into_def send_kind_parse_str prepared_row_kind split: sum.split prod.split)

text \<open>An LDK payment id is written once: a send bound to one payment refuses another, and
  the refusal changes nothing.\<close>

theorem bind_refuses_second_payment:
  assumes "db_unique d" "stored_send rid d = Some r" "ls_payment_id r = Some p" "p \<noteq> q"
  shows "bind_lightning_payment rid q d = (Inl InvalidQuery, d)"
proof -
  have "\<forall>r'\<in>set (lightning_sends d). \<not> (ls_request_id r' = rid \<and> (ls_payment_id r' = None \<or> ls_payment_id r' = Some q))"
    using stored_send_unique [OF assms(1,2)] assms(3,4) by auto
  then show ?thesis
    using assms(1)
    by (auto simp: bind_lightning_payment_def update_unique_def update_where_def action_defs update_rows_none
        db_unique_def filter_empty_conv)
qed

lemma bind_refuses_second_payment_witness:
  "bind_lightning_payment ''req'' ''other''
     (empty_db\<lparr>lightning_sends := [(prepared_row example_send)\<lparr>ls_payment_id := Some ''pay''\<rparr>]\<rparr>) =
   (Inl InvalidQuery, empty_db\<lparr>lightning_sends := [(prepared_row example_send)\<lparr>ls_payment_id := Some ''pay''\<rparr>]\<rparr>)"
  by (rule bind_refuses_second_payment
        [where r = "(prepared_row example_send)\<lparr>ls_payment_id := Some ''pay''\<rparr>" and p = "''pay''"])
    (simp_all add: db_unique_def empty_db_def no_clash_Cons stored_send_def prepared_row_def example_send_def
      lightning_send.defs send_row.defs)

lemma payment_status_value:
  "result_of (payment_status rid) d =
   Inr (case first_row (same_send rid) (lightning_sends d) of
          Some r \<Rightarrow> send_status_str (ls_status r)
        | None \<Rightarrow> (case first_row (\<lambda>p. pm_id p = rid) (payments d) of
            Some p \<Rightarrow> send_status_str (pm_status p) | None \<Rightarrow> ''UNKNOWN''))"
  by (simp add: payment_status_def action_defs query_optional_def)

text \<open>What a client polls after a status is recorded: the recorded status, unless the send
  already is terminal, whose status stays.\<close>

theorem payment_status_after_set:
  "result_of (payment_status rid) (state_after (set_payment rid (send_status_str st)) d) =
    Inr (send_status_str (case first_row (same_send rid) (lightning_sends d) of
           None \<Rightarrow> st
         | Some r \<Rightarrow> if terminal (ls_status r) then ls_status r else st))"
proof -
  have row: "first_row (same_send rid) (update_rows (\<lambda>r. same_send rid r \<and> \<not> terminal (ls_status r))
        (\<lambda>r. r\<lparr>ls_status := st\<rparr>) rs) =
      map_option (\<lambda>r. if same_send rid r \<and> \<not> terminal (ls_status r) then r\<lparr>ls_status := st\<rparr> else r)
        (first_row (same_send rid) rs)" for rs
    by (rule first_row_update_rows) (simp add: same_send_def)
  let ?d = "d\<lparr>lightning_sends := update_rows (\<lambda>r. same_send rid r \<and> \<not> terminal (ls_status r))
        (\<lambda>r. r\<lparr>ls_status := st\<rparr>) (lightning_sends d)\<rparr>"
  let ?upsert = "upsert payments_t (\<lambda>p. pm_id p = rid) (\<lambda>_. True) (\<lambda>p. p\<lparr>pm_status := st\<rparr>)
      \<lparr>pm_id = rid, pm_status = st\<rparr>"
  have after: "state_after (set_payment rid (send_status_str st)) d = state_after ?upsert ?d"
    by (simp add: set_payment_def state_after_def then_action_def bind_action_def update_where_def void_def
        ret_def split: prod.split sum.split)
  have sends: "lightning_sends (state_after ?upsert ?d) = lightning_sends ?d"
    by (simp add: upsert_def update_where_def state_after_def)
  have pay: "\<exists>p. first_row (\<lambda>p. pm_id p = rid) (payments (state_after ?upsert ?d)) = Some p \<and> pm_status p = st"
    using payments.first_row_upsert [of "\<lambda>p. pm_id p = rid" "\<lparr>pm_id = rid, pm_status = st\<rparr>"
        "\<lambda>p. p\<lparr>pm_status := st\<rparr>" ?d]
    by (auto split: option.splits)
  show ?thesis
    using pay first_row_SomeD [of "same_send rid" "lightning_sends d"]
    by (auto simp: payment_status_value after sends row split: option.split)
qed

end
