(* ===== verification/Receives.thy ===== *)
theory Receives
  imports Requests
begin

text \<open>
  Lightning receives and internal payments: the receive operations of src/src/db.rs,
  \<open>bind_bolt12_receive\<close> of src/src/lightning_store.rs and the reservations of
  src/src/internal_payments.rs. A receive's row in \<open>lightning_receives\<close> is its terms; its row
  in \<open>receive_payments\<close> is its progress. \<open>receive_progresses\<close> is the contract of the
  progress row as the payment moves on.
\<close>

section \<open>Receive progress\<close>

text \<open>\<open>LightningReceive\<close>: the join of the two rows, the progress columns defaulted.\<close>

record lightning_receive =
  rc_request_id :: string
  rc_owner :: string
  rc_receiver :: string
  rc_amount_sats :: u64
  rc_invoice :: string
  rc_status :: receive_status
  rc_transfer_id :: "string option"
  rc_preimage :: "string option"
  rc_claim_submitted :: bool
  rc_payment_id :: "string option"

definition progress_of :: "db \<Rightarrow> string \<Rightarrow> receive_payment_row option" where
  "progress_of d hash = first_row (\<lambda>p. rp_hash p = hash) (receive_payments d)"

definition new_progress :: "string \<Rightarrow> receive_status \<Rightarrow> receive_payment_row" where
  "new_progress hash st = \<lparr>rp_hash = hash, rp_status = st, rp_transfer_id = None, rp_preimage = None,
     rp_claimable_amount_msat = None, rp_claim_submitted = False, rp_payment_id = None\<rparr>"

text \<open>A \<open>LEFT JOIN\<close> whose missing columns are COALESCEd: the row of a receive nothing happened to.\<close>

definition joined_progress :: "db \<Rightarrow> string \<Rightarrow> receive_payment_row" where
  "joined_progress d hash = (case progress_of d hash of None \<Rightarrow> new_progress hash InvoiceCreated | Some p \<Rightarrow> p)"

definition receive_view :: "db \<Rightarrow> receive_row \<Rightarrow> lightning_receive" where
  "receive_view d r = (let p = joined_progress d (lr_hash r) in
     \<lparr>rc_request_id = lr_request_id r, rc_owner = lr_owner r, rc_receiver = lr_receiver r,
      rc_amount_sats = lr_amount_sats r, rc_invoice = lr_invoice r, rc_status = rp_status p,
      rc_transfer_id = rp_transfer_id p, rc_preimage = rp_preimage p,
      rc_claim_submitted = rp_claim_submitted p, rc_payment_id = rp_payment_id p\<rparr>)"

definition lightning_receive_for_hash :: "string \<Rightarrow> (db, lightning_receive option) action" where
  "lightning_receive_for_hash payment_hash = (\<lambda>d.
     (Inr (map_option (receive_view d) (first_row (\<lambda>r. lr_hash r = payment_hash) (lightning_receives d))), d))"

definition lightning_receive_hash_for_invoice :: "string \<Rightarrow> (db, string option) action" where
  "lightning_receive_hash_for_invoice invoice =
     bind_action (query_optional lightning_receives_t (\<lambda>r. lr_invoice r = invoice \<and> lr_kind r = Bolt11))
       (\<lambda>row. ret (map_option lr_hash row))"

definition progress_upsert ::
  "string \<Rightarrow> (receive_payment_row \<Rightarrow> bool) \<Rightarrow> (receive_payment_row \<Rightarrow> receive_payment_row) \<Rightarrow> receive_payment_row
   \<Rightarrow> (db, nat) action" where
  "progress_upsert hash cond f new = upsert receive_payments_t (\<lambda>p. rp_hash p = hash) cond f new"

definition mark_claimable_row :: "string \<Rightarrow> int \<Rightarrow> receive_payment_row \<Rightarrow> receive_payment_row" where
  "mark_claimable_row payment_id amount p =
     p\<lparr>rp_status := (if rp_status p \<in> {TransferCompleted, HtlcFailed} \<or> rp_transfer_id p \<noteq> None
                      then rp_status p else HtlcReceived),
       rp_claimable_amount_msat := Some amount, rp_payment_id := Some payment_id\<rparr>"

definition mark_receive_claimable :: "string \<Rightarrow> string \<Rightarrow> u64 \<Rightarrow> (db, unit) action" where
  "mark_receive_claimable hash payment_id amount_msat =
     (case i64_of_u64 amount_msat of
        None \<Rightarrow> throw (Failure ''claimable amount is too large for storage'')
      | Some amount \<Rightarrow>
          bind_action (progress_upsert hash (\<lambda>p. rp_payment_id p = None \<or> rp_payment_id p = Some payment_id)
              (mark_claimable_row payment_id amount)
              ((new_progress hash HtlcReceived)\<lparr>rp_claimable_amount_msat := Some amount, rp_payment_id := Some payment_id\<rparr>))
            (\<lambda>changed. if changed = 1 then ret () else throw InvalidQuery))"

definition receive_transfer :: "string \<Rightarrow> string \<Rightarrow> string \<Rightarrow> string \<Rightarrow> transfer_row" where
  "receive_transfer transfer_id request_id status owner =
     \<lparr>tr_spark_id = transfer_id, tr_request_id = request_id, tr_kind = ''LIGHTNING_RECEIVE'',
      tr_status = status, tr_owner = owner\<rparr>"

definition commit_lightning_receive_swap ::
  "string \<Rightarrow> string \<Rightarrow> string \<Rightarrow> string \<Rightarrow> string \<Rightarrow> (db, unit) action" where
  "commit_lightning_receive_swap hash transfer_id preimage request_id owner = transaction
     (bind_action (upsert transfers_t (\<lambda>t. tr_spark_id t = transfer_id)
          (\<lambda>t. tr_owner t = owner \<and> tr_request_id t = request_id) (\<lambda>t. t\<lparr>tr_status := ''TRANSFER_CREATED''\<rparr>)
          (receive_transfer transfer_id request_id ''TRANSFER_CREATED'' owner)) (\<lambda>changed.
      if changed \<noteq> 1 then throw InvalidQuery
      else void (progress_upsert hash (\<lambda>_. True)
             (\<lambda>p. p\<lparr>rp_status := PreimageRecovered, rp_transfer_id := Some transfer_id, rp_preimage := Some preimage\<rparr>)
             ((new_progress hash PreimageRecovered)\<lparr>rp_transfer_id := Some transfer_id, rp_preimage := Some preimage\<rparr>))))"

definition commit_bolt12_receive ::
  "string \<Rightarrow> string \<Rightarrow> string \<Rightarrow> string \<Rightarrow> string \<Rightarrow> (db, unit) action" where
  "commit_bolt12_receive offer_id payment_hash transfer_id request_id owner = transaction
     (then_action (upsert transfers_t (\<lambda>t. tr_spark_id t = transfer_id) (\<lambda>_. True)
          (\<lambda>t. t\<lparr>tr_status := ''TRANSFER_COMPLETED''\<rparr>)
          (receive_transfer transfer_id request_id ''TRANSFER_COMPLETED'' owner))
     (then_action (progress_upsert offer_id (\<lambda>_. True)
          (\<lambda>p. p\<lparr>rp_status := TransferCompleted, rp_transfer_id := Some transfer_id, rp_claim_submitted := True\<rparr>)
          ((new_progress offer_id TransferCompleted)\<lparr>rp_transfer_id := Some transfer_id, rp_claim_submitted := True\<rparr>))
        (void (update_where lightning_receives_t
          (\<lambda>r. lr_request_id r = request_id \<and> lr_owner r = owner \<and> lr_hash r = offer_id)
          (\<lambda>r. r\<lparr>lr_settled_payment_hash := Some payment_hash\<rparr>)))))"

text \<open>One invoice is bound to a single-credit offer.\<close>

definition bind_bolt12_receive :: "string \<Rightarrow> string \<Rightarrow> (db, unit) action" where
  "bind_bolt12_receive offer_id hash =
     bind_action (update_where lightning_receives_t
         (\<lambda>r. lr_hash r = offer_id \<and> (lr_settled_payment_hash r = None \<or> lr_settled_payment_hash r = Some hash))
         (\<lambda>r. r\<lparr>lr_settled_payment_hash := Some hash\<rparr>))
       (\<lambda>changed. if changed = 1 then ret () else throw InvalidQuery)"

definition mark_receive_claim_submitted :: "string \<Rightarrow> (db, unit) action" where
  "mark_receive_claim_submitted hash =
     bind_action (update_where receive_payments_t
         (\<lambda>p. rp_hash p = hash \<and> rp_transfer_id p \<noteq> None \<and> rp_preimage p \<noteq> None)
         (\<lambda>p. p\<lparr>rp_claim_submitted := True, rp_status := PreimageRecovered\<rparr>))
       (\<lambda>changed. if changed = 1 then ret () else throw NoRows)"

definition expired_receive :: "db \<Rightarrow> int \<Rightarrow> receive_row \<Rightarrow> bool" where
  "expired_receive d now r \<longleftrightarrow> lr_kind r = Bolt11 \<and> lr_expires_at r \<le> now \<and>
     rp_status (joined_progress d (lr_hash r)) \<notin> {TransferCompleted, HtlcFailed} \<and>
     rp_transfer_id (joined_progress d (lr_hash r)) = None \<and>
     \<not> list_ex (\<lambda>t. tr_request_id t = lr_request_id r \<and> tr_kind t = ''LIGHTNING_RECEIVE'') (transfers d)"

definition expired_receive_hashes :: "int \<Rightarrow> (db, string list) action" where
  "expired_receive_hashes now = (\<lambda>d.
     (Inr (take 1000 (sort (map lr_hash (filter (expired_receive d now) (lightning_receives d))))), d))"

definition set_receive_status :: "string \<Rightarrow> string \<Rightarrow> (db, unit) action" where
  "set_receive_status hash status =
     bind_action (lift_result (receive_status_parse status)) (\<lambda>st.
       void (progress_upsert hash (\<lambda>_. True) (\<lambda>p. p\<lparr>rp_status := st\<rparr>) (new_progress hash st)))"

definition fail_external_receive :: "string \<Rightarrow> string \<Rightarrow> (db, unit) action" where
  "fail_external_receive hash payment_id = (\<lambda>d.
     void (update_where receive_payments_t
       (\<lambda>p. rp_hash p = hash \<and> (rp_payment_id p = None \<or> rp_payment_id p = Some payment_id) \<and>
            rp_status p \<noteq> TransferCompleted \<and> \<not> list_ex (\<lambda>i. ip_hash i = hash) (internal_payments d))
       (\<lambda>p. p\<lparr>rp_status := HtlcFailed\<rparr>)) d)"

definition receive_status :: "string \<Rightarrow> (db, string) action" where
  "receive_status hash =
     bind_action (query_optional receive_payments_t (\<lambda>p. rp_hash p = hash))
       (\<lambda>row. ret (receive_status_str (case row of None \<Rightarrow> InvoiceCreated | Some p \<Rightarrow> rp_status p)))"

section \<open>Internal payments\<close>

definition internal_send :: "string \<Rightarrow> (db, string option) action" where
  "internal_send hash =
     bind_action (query_optional internal_payments_t (\<lambda>i. ip_hash i = hash)) (\<lambda>row. ret (map_option ip_send_id row))"

text \<open>The receive a local send may pay: the terms match, and no HTLC or swap has started.\<close>

definition payable_locally :: "db \<Rightarrow> lightning_send \<Rightarrow> int \<Rightarrow> receive_row \<Rightarrow> bool" where
  "payable_locally d send now r \<longleftrightarrow> lr_hash r = ls_expected_id send \<and> lr_invoice r = ls_invoice send \<and>
     lr_amount_sats r = ls_amount_sats send \<and> lr_expires_at r > now \<and>
     (let p = joined_progress d (lr_hash r) in
      rp_status p = InvoiceCreated \<and> rp_claimable_amount_msat p = None \<and> rp_transfer_id p = None)"

definition insert_reservation :: "lightning_send \<Rightarrow> int \<Rightarrow> (db, nat) action" where
  "insert_reservation send now = (\<lambda>d.
     if \<not> sql_u64 (ls_amount_sats send) then (Inl (Failure ''ToSqlConversionFailure''), d)
     else case first_row (payable_locally d send now) (lightning_receives d) of
       None \<Rightarrow> (Inr 0, d)
     | Some r \<Rightarrow> then_action (insert_into ''internal_payments'' internal_payments_t internal_clash
           (\<lambda>d. list_ex (\<lambda>s. ls_request_id s = ls_request_id send) (lightning_sends d))
           \<lparr>ip_hash = lr_hash r, ip_send_id = ls_request_id send\<rparr>) (ret 1) d)"

definition reserve_internal_send :: "int \<Rightarrow> lightning_send \<Rightarrow> (db, unit) action" where
  "reserve_internal_send now send = transaction
     (bind_action (query_optional internal_payments_t (\<lambda>i. ip_hash i = ls_expected_id send)) (\<lambda>existing.
      case existing of
        Some i \<Rightarrow> if ip_send_id i = ls_request_id send then ret ()
                  else throw (Failure ''local invoice already has a payer'')
      | None \<Rightarrow>
          bind_action (insert_reservation send now) (\<lambda>changed.
          if changed \<noteq> 1 then throw (Failure ''local invoice is expired or already in progress'')
          else bind_action (update_where lightning_sends_t (\<lambda>s. ls_request_id s = ls_request_id send)
                 (\<lambda>s. s\<lparr>ls_status := Settling\<rparr>)) (\<lambda>intent.
               if intent \<noteq> 1 then throw (Failure ''send intent is missing'') else ret ()))))"

definition receive_request_of :: "db \<Rightarrow> string \<Rightarrow> string option" where
  "receive_request_of d hash = map_option lr_request_id (first_row (\<lambda>r. lr_hash r = hash) (lightning_receives d))"

definition finish_internal_send :: "lightning_send \<Rightarrow> (db, unit) action" where
  "finish_internal_send send = transaction
     (bind_action (update_where lightning_sends_t (\<lambda>s. ls_request_id s = ls_request_id send)
          (\<lambda>s. s\<lparr>ls_status := Succeeded, ls_last_error := None\<rparr>)) (\<lambda>intent.
      bind_action (update_where receive_payments_t (\<lambda>p. rp_hash p = ls_expected_id send)
          (\<lambda>p. p\<lparr>rp_status := TransferCompleted\<rparr>)) (\<lambda>payment.
      bind_action (\<lambda>d. update_where transfers_t
          (\<lambda>t. receive_request_of d (ls_expected_id send) = Some (tr_request_id t))
          (\<lambda>t. t\<lparr>tr_status := ''TRANSFER_COMPLETED''\<rparr>) d) (\<lambda>transfer.
      if intent \<noteq> 1 \<or> payment \<noteq> 1 \<or> transfer \<noteq> 1
      then throw (Failure ''internal settlement rows are incomplete'') else ret ()))))"

section \<open>Behaviour of the operations\<close>

text \<open>
  The contract of a progress row: its payment is bound once, and a swap, a preimage and a
  submitted claim are never forgotten.
\<close>

definition progress_advances :: "receive_payment_row \<Rightarrow> receive_payment_row \<Rightarrow> bool" where
  "progress_advances a b \<longleftrightarrow> rp_hash b = rp_hash a \<and>
     (rp_payment_id a \<noteq> None \<longrightarrow> rp_payment_id b = rp_payment_id a) \<and>
     (rp_transfer_id a \<noteq> None \<longrightarrow> rp_transfer_id b \<noteq> None) \<and>
     (rp_preimage a \<noteq> None \<longrightarrow> rp_preimage b \<noteq> None) \<and>
     (rp_claimable_amount_msat a \<noteq> None \<longrightarrow> rp_claimable_amount_msat b \<noteq> None) \<and>
     (rp_claim_submitted a \<longrightarrow> rp_claim_submitted b)"

interpretation progress_table: evolving_table receive_payments_t progress_advances rp_hash
  by unfold_locales (auto simp: progress_advances_def)

abbreviation progress_evolves :: "db \<Rightarrow> db \<Rightarrow> bool" where
  "progress_evolves \<equiv> rows_evolve progress_advances rp_hash receive_payments_t"

lemmas progress_other = progress_table.obeys_other [where t' = transfers_t, simplified]
  progress_table.obeys_other [where t' = lightning_receives_t, simplified]

lemma progress_upsert_evolves:
  assumes "\<And>p. rp_hash p = hash \<Longrightarrow> cond p \<Longrightarrow> progress_advances p (f p)" "rp_hash new = hash"
  shows "obeys progress_evolves (progress_upsert hash cond f new)"
  unfolding progress_upsert_def by (rule progress_table.obeys_upsert) (use assms in auto)

lemma receive_writes_evolve:
  "obeys progress_evolves (mark_receive_claimable hash payment_id amount)"
  "obeys progress_evolves (commit_lightning_receive_swap hash transfer_id preimage rid owner)"
  "obeys progress_evolves (commit_bolt12_receive offer h transfer_id rid owner)"
  "obeys progress_evolves (mark_receive_claim_submitted hash)"
  "obeys progress_evolves (set_receive_status hash status)"
  unfolding mark_receive_claimable_def commit_lightning_receive_swap_def commit_bolt12_receive_def
    mark_receive_claim_submitted_def set_receive_status_def
  by (intro progress_table.evolve.obeys_intros progress_upsert_evolves progress_table.obeys_update progress_other;
      auto simp: progress_advances_def mark_claimable_row_def new_progress_def)+

lemma progress_hash: "progress_of d hash = Some p \<Longrightarrow> rp_hash p = hash"
  by (auto simp: progress_of_def dest: first_row_SomeD)

text \<open>\<open>INSERT .. ON CONFLICT(hash) DO UPDATE\<close> on the progress row, read back by its key.\<close>

lemma progress_after_upsert:
  assumes "rp_hash new = hash" "\<And>p. rp_hash (f p) = rp_hash p"
  shows "progress_of (state_after (progress_upsert hash (\<lambda>_. True) f new) d) hash =
    Some (case progress_of d hash of None \<Rightarrow> new | Some p \<Rightarrow> f p)"
  using receive_payments.first_row_upsert [of "\<lambda>p. rp_hash p = hash" new f d] assms
  by (simp add: progress_of_def progress_upsert_def)

lemma unique_progress:
  assumes "db_unique d" "progress_of d hash = Some p" "p' \<in> set (receive_payments d)" "rp_hash p' = hash"
  shows "p' = p"
proof -
  have p: "p \<in> set (receive_payments d)" "rp_hash p = hash"
    using assms(2) by (auto simp: progress_of_def dest!: first_row_SomeD)
  have "no_clash receive_payment_clash (receive_payments d)"
    using receive_payments_key.unique_rows [OF assms(1)] by simp
  from no_clash_unique [OF this assms(3) p(1)] show ?thesis
    using p(2) assms(4) by (simp add: receive_payment_clash_def)
qed

text \<open>One HTLC per receive: once a payment is bound to a receive, marking another payment
  claimable is refused and changes nothing.\<close>

theorem claimable_refuses_second_payment:
  assumes "db_unique d" "progress_of d hash = Some p" "rp_payment_id p = Some q" "q \<noteq> payment_id"
  shows "\<exists>e. mark_receive_claimable hash payment_id amount d = (Inl e, d)"
proof -
  have "\<forall>p'\<in>set (receive_payments d). \<not> (rp_hash p' = hash \<and> (rp_payment_id p' = None \<or> rp_payment_id p' = Some payment_id))"
    using unique_progress [OF assms(1,2)] assms(3,4) by auto
  moreover have "list_ex (\<lambda>p. rp_hash p = hash) (receive_payments d)"
    using assms(2) by (auto simp: progress_of_def list_ex_iff dest: first_row_SomeD)
  ultimately show ?thesis
    by (auto simp: mark_receive_claimable_def progress_upsert_def upsert_def update_where_def action_defs
        update_rows_none filter_empty_conv split: option.split)
qed

definition example_progress :: receive_payment_row where
  "example_progress = (new_progress ''hash'' HtlcReceived)\<lparr>rp_payment_id := Some ''pay''\<rparr>"

definition example_receive_db :: db where
  "example_receive_db = empty_db\<lparr>receive_payments := [example_progress]\<rparr>"

lemma example_receive_db:
  "db_unique example_receive_db" "progress_of example_receive_db ''hash'' = Some example_progress"
  by (simp_all add: db_unique_def empty_db_def no_clash_Cons example_receive_db_def progress_of_def
      example_progress_def new_progress_def)

lemma claimable_refuses_second_payment_witness:
  "\<exists>e. mark_receive_claimable ''hash'' ''other'' 1000 example_receive_db = (Inl e, example_receive_db)"
  by (rule claimable_refuses_second_payment [OF example_receive_db, where q = "''pay''"])
    (simp_all add: example_progress_def)

text \<open>A claimable event never takes a receive back: a completed or failed receive, and one
  whose swap is committed, keep their status, transfer and preimage whatever the event says.\<close>

theorem claimable_never_regresses:
  assumes "progress_of d hash = Some p" "rp_status p \<in> {TransferCompleted, HtlcFailed} \<or> rp_transfer_id p \<noteq> None"
  shows "\<exists>p'. progress_of (state_after (mark_receive_claimable hash payment_id amount) d) hash = Some p' \<and>
    rp_status p' = rp_status p \<and> rp_transfer_id p' = rp_transfer_id p \<and> rp_preimage p' = rp_preimage p"
proof (cases "i64_of_u64 amount")
  case None
  then show ?thesis
    using assms(1) by (simp add: mark_receive_claimable_def action_defs)
next
  case (Some a)
  let ?c = "\<lambda>p. rp_hash p = hash \<and> (rp_payment_id p = None \<or> rp_payment_id p = Some payment_id)"
  have "list_ex (\<lambda>p. rp_hash p = hash) (receive_payments d)"
    using assms(1) by (auto simp: progress_of_def list_ex_iff dest: first_row_SomeD)
  then have "receive_payments (state_after (mark_receive_claimable hash payment_id amount) d) =
      update_rows ?c (mark_claimable_row payment_id a) (receive_payments d)"
    by (simp add: mark_receive_claimable_def Some progress_upsert_def upsert_def update_where_def action_defs)
  moreover have "first_row (\<lambda>p. rp_hash p = hash) (update_rows ?c (mark_claimable_row payment_id a) rs) =
      map_option (\<lambda>r. if ?c r then mark_claimable_row payment_id a r else r) (first_row (\<lambda>p. rp_hash p = hash) rs)" for rs
    by (rule first_row_update_rows) (simp add: mark_claimable_row_def)
  ultimately show ?thesis
    using assms by (auto simp: progress_of_def mark_claimable_row_def)
qed

lemma claimable_never_regresses_witness:
  "\<exists>p'. progress_of (state_after (mark_receive_claimable ''hash'' ''pay'' 1000)
       (empty_db\<lparr>receive_payments := [example_progress\<lparr>rp_status := PreimageRecovered, rp_transfer_id := Some ''t''\<rparr>]\<rparr>)) ''hash'' = Some p' \<and>
    rp_status p' = rp_status (example_progress\<lparr>rp_status := PreimageRecovered, rp_transfer_id := Some ''t''\<rparr>) \<and>
    rp_transfer_id p' = rp_transfer_id (example_progress\<lparr>rp_status := PreimageRecovered, rp_transfer_id := Some ''t''\<rparr>) \<and>
    rp_preimage p' = rp_preimage (example_progress\<lparr>rp_status := PreimageRecovered, rp_transfer_id := Some ''t''\<rparr>)"
  by (rule claimable_never_regresses) (simp_all add: progress_of_def example_progress_def new_progress_def)

text \<open>The commit's effect, shared with the settlement proofs.\<close>

lemma commit_swap_effect:
  "case commit_lightning_receive_swap hash transfer_id preimage request_id owner d of
     (Inl e, d') \<Rightarrow> d' = d
   | (Inr _, d') \<Rightarrow>
       (\<exists>p. progress_of d' hash = Some p \<and> rp_status p = PreimageRecovered \<and>
            rp_transfer_id p = Some transfer_id \<and> rp_preimage p = Some preimage) \<and>
       (\<exists>t\<in>set (transfers d'). tr_spark_id t = transfer_id \<and> tr_owner t = owner \<and>
            tr_request_id t = request_id \<and> tr_status t = ''TRANSFER_CREATED'')"
proof -
  let ?row = "receive_transfer transfer_id request_id ''TRANSFER_CREATED'' owner"
  let ?mine = "\<lambda>t. tr_owner t = owner \<and> tr_request_id t = request_id"
  let ?up = "upsert transfers_t (\<lambda>t. tr_spark_id t = transfer_id) ?mine (\<lambda>t. t\<lparr>tr_status := ''TRANSFER_CREATED''\<rparr>) ?row"
  let ?f = "\<lambda>p. p\<lparr>rp_status := PreimageRecovered, rp_transfer_id := Some transfer_id, rp_preimage := Some preimage\<rparr>"
  let ?new = "(new_progress hash PreimageRecovered)\<lparr>rp_transfer_id := Some transfer_id, rp_preimage := Some preimage\<rparr>"
  let ?prog = "progress_upsert hash (\<lambda>_. True) ?f ?new"
  obtain n d1 where up: "?up d = (Inr n, d1)"
    by (cases "?up d") (auto simp: upsert_def update_where_def split: if_splits)
  have prog: "void ?prog d1 = (Inr (), state_after ?prog d1)"
    by (auto simp: progress_upsert_def upsert_def update_where_def action_defs void_def)
  have run: "commit_lightning_receive_swap hash transfer_id preimage request_id owner d =
      (if n = 1 then (Inr (), state_after ?prog d1) else (Inl InvalidQuery, d))"
    by (simp add: commit_lightning_receive_swap_def transaction_def bind_action_def up throw_def prog)
  have progress: "\<exists>p. progress_of (state_after ?prog d1) hash = Some p \<and> rp_status p = PreimageRecovered \<and>
      rp_transfer_id p = Some transfer_id \<and> rp_preimage p = Some preimage"
    using progress_after_upsert [of ?new hash ?f d1] by (simp add: new_progress_def split: option.splits)
  have kept: "transfers (state_after ?prog d1) = transfers d1"
    by (simp add: progress_upsert_def upsert_def update_where_def state_after_def)
  have "\<exists>t\<in>set (transfers d1). tr_spark_id t = transfer_id \<and> tr_owner t = owner \<and>
      tr_request_id t = request_id \<and> tr_status t = ''TRANSFER_CREATED''" if "n = 1"
  proof (cases "list_ex (\<lambda>t. tr_spark_id t = transfer_id) (transfers d)")
    case True
    let ?c = "\<lambda>t. tr_spark_id t = transfer_id \<and> ?mine t"
    from True up that have n: "length (filter ?c (transfers d)) = Suc 0"
      and d1: "transfers d1 = update_rows ?c (\<lambda>t. t\<lparr>tr_status := ''TRANSFER_CREATED''\<rparr>) (transfers d)"
      by (auto simp: upsert_def update_where_def)
    obtain t where t: "t \<in> set (transfers d)" "?c t"
      using filter_length_one [OF n] by blast
    show ?thesis
      unfolding d1 by (rule updated_ex [where p = ?c, OF t]) (use t(2) in simp)
  next
    case False
    then show ?thesis using up by (auto simp: upsert_def receive_transfer_def)
  qed
  then show ?thesis using run progress kept by simp
qed

text \<open>Committing a receive swap is atomic: an error (the transfer id belongs to another
  receive) changes nothing, and success records the operator's transfer under its owner and
  request together with the recovered preimage.\<close>

theorem commit_swap_atomic:
  "case commit_lightning_receive_swap hash transfer_id preimage request_id owner d of
     (Inl e, d') \<Rightarrow> d' = d
   | (Inr _, d') \<Rightarrow>
       (\<exists>p. progress_of d' hash = Some p \<and> rp_status p = PreimageRecovered \<and>
            rp_transfer_id p = Some transfer_id \<and> rp_preimage p = Some preimage) \<and>
       (\<exists>t\<in>set (transfers d'). tr_spark_id t = transfer_id \<and> tr_owner t = owner \<and>
            tr_request_id t = request_id \<and> tr_status t = ''TRANSFER_CREATED'')"
  by (rule commit_swap_effect)

lemma reserve_cases:
  assumes "reserve_internal_send now send d = (Inr u, d')"
  shows "(\<exists>i. first_row (\<lambda>i. ip_hash i = ls_expected_id send) (internal_payments d') = Some i \<and>
       ip_send_id i = ls_request_id send) \<and>
     (internal_payments d' \<noteq> internal_payments d \<longrightarrow> list_ex (payable_locally d send now) (lightning_receives d))"
proof (cases "first_row (\<lambda>i. ip_hash i = ls_expected_id send) (internal_payments d)")
  case (Some i)
  then show ?thesis
    using assms by (auto simp: reserve_internal_send_def transaction_def action_defs query_optional_def split: if_splits)
next
  case None
  show ?thesis
  proof (cases "first_row (payable_locally d send now) (lightning_receives d)")
    case (Some r)
    then have r: "lr_hash r = ls_expected_id send" "list_ex (payable_locally d send now) (lightning_receives d)"
      by (auto dest!: first_row_SomeD simp: payable_locally_def list_ex_iff)
    have "internal_payments d' = internal_payments d @ [\<lparr>ip_hash = lr_hash r, ip_send_id = ls_request_id send\<rparr>]"
      using assms None Some
      by (auto simp: reserve_internal_send_def transaction_def action_defs query_optional_def insert_reservation_def
          insert_into_def update_where_def split: if_splits)
    then show ?thesis using r None by (simp add: first_row_append)
  qed (use assms None in \<open>auto simp: reserve_internal_send_def transaction_def action_defs query_optional_def
      insert_reservation_def split: if_splits\<close>)
qed

text \<open>Internal and external settlement exclude each other: a new reservation is only made for
  an unexpired local receive of exactly the send's invoice and amount with no HTLC and no swap;
  once made, no external failure touches the receive and no other send can reserve it.\<close>

theorem internal_reservation_exclusive:
  assumes "reserve_internal_send now send d = (Inr u, d')"
  shows "(internal_payments d' \<noteq> internal_payments d \<longrightarrow>
      (\<exists>r\<in>set (lightning_receives d). lr_hash r = ls_expected_id send \<and> lr_invoice r = ls_invoice send \<and>
         lr_amount_sats r = ls_amount_sats send \<and> lr_expires_at r > now \<and>
         rp_claimable_amount_msat (joined_progress d (lr_hash r)) = None \<and>
         rp_transfer_id (joined_progress d (lr_hash r)) = None)) \<and>
    fail_external_receive (ls_expected_id send) payment_id d' = (Inr (), d') \<and>
    (ls_expected_id other = ls_expected_id send \<longrightarrow> ls_request_id other \<noteq> ls_request_id send \<longrightarrow>
      reserve_internal_send now' other d' = (Inl (Failure ''local invoice already has a payer''), d'))"
proof -
  obtain i where i: "first_row (\<lambda>i. ip_hash i = ls_expected_id send) (internal_payments d') = Some i"
      "ip_send_id i = ls_request_id send"
    using reserve_cases [OF assms] by blast
  then have "list_ex (\<lambda>i. ip_hash i = ls_expected_id send) (internal_payments d')"
    by (auto simp: list_ex_iff dest: first_row_SomeD)
  then have "fail_external_receive (ls_expected_id send) payment_id d' = (Inr (), d')"
    by (simp add: fail_external_receive_def statement_defs action_defs update_rows_none)
  moreover have "reserve_internal_send now' other d' = (Inl (Failure ''local invoice already has a payer''), d')"
    if "ls_expected_id other = ls_expected_id send" "ls_request_id other \<noteq> ls_request_id send"
    using i that by (simp add: reserve_internal_send_def transaction_def action_defs query_optional_def)
  ultimately show ?thesis
    using reserve_cases [OF assms] by (auto simp: list_ex_iff payable_locally_def Let_def)
qed

definition example_local_send :: lightning_send where
  "example_local_send = \<lparr>ls_request_id = ''req'', ls_owner = ''alice'', ls_outbound_transfer_id = ''out'',
     ls_invoice = ''lnbc1'', ls_amount_sats = 21, ls_amount_override = None, ls_kind = Bolt11,
     ls_expected_id = ''hash'', ls_max_route_cltv = None, ls_payment_id = None, ls_status = Prepared\<rparr>"

definition example_local_db :: db where
  "example_local_db = empty_db\<lparr>
     lightning_sends := [lightning_send.extend example_local_send (send_row.fields None)],
     lightning_receives := [\<lparr>lr_hash = ''hash'', lr_request_id = ''r'', lr_owner = ''bob'', lr_receiver = ''bob'',
        lr_amount_sats = 21, lr_invoice = ''lnbc1'', lr_expires_at = 100, lr_kind = Bolt11,
        lr_settled_payment_hash = None\<rparr>]\<rparr>"

lemma example_reserved:
  "reserve_internal_send 50 example_local_send example_local_db =
   (Inr (), state_after (reserve_internal_send 50 example_local_send) example_local_db)"
  by code_simp

lemma internal_reservation_exclusive_witness:
  "fail_external_receive ''hash'' ''pay'' (state_after (reserve_internal_send 50 example_local_send) example_local_db) =
   (Inr (), state_after (reserve_internal_send 50 example_local_send) example_local_db)"
  using internal_reservation_exclusive [OF example_reserved, of "''pay''"]
  by (simp add: example_local_send_def)

text \<open>C37. An internal settlement is all or nothing: an error leaves the database as it was, and
  success leaves the send SUCCEEDED, the receive and its Spark transfer TRANSFER_COMPLETED.\<close>

theorem internal_settlement_atomic:
  "case finish_internal_send send d of
     (Inl e, d') \<Rightarrow> d' = d
   | (Inr _, d') \<Rightarrow>
       (\<exists>s\<in>set (lightning_sends d'). ls_request_id s = ls_request_id send \<and> ls_status s = Succeeded) \<and>
       (\<exists>p\<in>set (receive_payments d'). rp_hash p = ls_expected_id send \<and> rp_status p = TransferCompleted) \<and>
       (\<exists>t\<in>set (transfers d'). receive_request_of d (ls_expected_id send) = Some (tr_request_id t) \<and>
          tr_status t = ''TRANSFER_COMPLETED'')"
proof -
  let ?s = "\<lambda>s. ls_request_id s = ls_request_id send"
  let ?p = "\<lambda>p. rp_hash p = ls_expected_id send"
  let ?t = "\<lambda>t. receive_request_of d (ls_expected_id send) = Some (tr_request_id t)"
  let ?fs = "\<lambda>s. s\<lparr>ls_status := Succeeded, ls_last_error := None\<rparr>"
  let ?fp = "\<lambda>p. p\<lparr>rp_status := TransferCompleted\<rparr>"
  let ?ft = "\<lambda>t. t\<lparr>tr_status := ''TRANSFER_COMPLETED''\<rparr>"
  let ?ok = "length (filter ?s (lightning_sends d)) = 1 \<and> length (filter ?p (receive_payments d)) = 1 \<and>
      length (filter ?t (transfers d)) = 1"
  have run: "finish_internal_send send d = (if ?ok
      then (Inr (), d\<lparr>lightning_sends := update_rows ?s ?fs (lightning_sends d),
                      receive_payments := update_rows ?p ?fp (receive_payments d),
                      transfers := update_rows ?t ?ft (transfers d)\<rparr>)
      else (Inl (Failure ''internal settlement rows are incomplete''), d))"
    by (simp add: finish_internal_send_def transaction_def action_defs update_where_def receive_request_of_def)
  show ?thesis
  proof (cases ?ok)
    case True
    then obtain s p t where rows: "s \<in> set (lightning_sends d)" "?s s" "p \<in> set (receive_payments d)" "?p p"
        "t \<in> set (transfers d)" "?t t"
      using filter_length_one [of ?s] filter_length_one [of ?p] filter_length_one [of ?t] by fastforce
    have "\<exists>s\<in>set (update_rows ?s ?fs (lightning_sends d)). ?s s \<and> ls_status s = Succeeded"
      by (rule updated_ex [where p = ?s, OF rows(1,2)]) (simp add: rows(2))
    moreover have "\<exists>p\<in>set (update_rows ?p ?fp (receive_payments d)). ?p p \<and> rp_status p = TransferCompleted"
      by (rule updated_ex [where p = ?p, OF rows(3,4)]) (simp add: rows(4))
    moreover have "\<exists>t\<in>set (update_rows ?t ?ft (transfers d)). ?t t \<and> tr_status t = ''TRANSFER_COMPLETED''"
      by (rule updated_ex [where p = ?t, OF rows(5,6)]) (simp add: rows(6))
    ultimately show ?thesis
      unfolding run using True by simp
  next
    case False
    show ?thesis unfolding run if_not_P [OF False] by simp
  qed
qed

end
