(* ===== verification/Payment_Store.thy ===== *)
theory Payment_Store
  imports Lightning_Sends Receives
begin

text \<open>
  Every operation on the payment tables as one datatype, and any sequence of them: the store
  seen by concurrent handlers, the reconciler and restarts after a crash, which only ever
  interleave whole operations (the connection is behind a mutex and each operation is one
  closure under it). The theorems are about all sequences.
\<close>

datatype store_op =
    InsertRequest string string string string json "string option"
  | InsertTransfer string string string string string
  | SetRequestStatus string string string
  | PruneCompat string
  | PrepareSend string lightning_send string string
  | SetRouteCltv string "u32 option"
  | BeginSubmission string
  | BindPayment string string
  | SubmissionError string string
  | RecordProof string string string
  | RecordFailure string "string option"
  | SetPayment string string
  | MarkClaimable string string u64
  | CommitReceiveSwap string string string string string
  | CommitBolt12Receive string string string string string
  | BindBolt12Receive string string
  | MarkClaimSubmitted string
  | SetReceiveStatus string string
  | FailExternalReceive string string
  | ReserveInternalSend int lightning_send
  | FinishInternalSend lightning_send

text \<open>The value tells whether the operation won a submission checkpoint.\<close>

fun perform ::
  "(string \<Rightarrow> int option) \<Rightarrow> (string \<Rightarrow> bolt11 option) \<Rightarrow> store_op \<Rightarrow> (db, bool) action" where
  "perform parse decode (InsertRequest rid kind owner created payload key) =
     then_action (insert_request parse decode rid kind owner created payload key) (ret False)"
| "perform parse decode (InsertTransfer spark_id rid kind status owner) =
     then_action (insert_transfer spark_id rid kind status owner) (ret False)"
| "perform parse decode (SetRequestStatus rid owner status) =
     then_action (set_request_status rid owner status) (ret False)"
| "perform parse decode (PruneCompat older) = then_action (prune_compat_requests older) (ret False)"
| "perform parse decode (PrepareSend created send key net) =
     then_action (prepare_lightning_send created send key net) (ret False)"
| "perform parse decode (SetRouteCltv rid cltv) = then_action (set_lightning_send_route_cltv rid cltv) (ret False)"
| "perform parse decode (BeginSubmission rid) = begin_lightning_submission rid"
| "perform parse decode (BindPayment rid payment_id) = then_action (bind_lightning_payment rid payment_id) (ret False)"
| "perform parse decode (SubmissionError rid err) = then_action (lightning_submission_error rid err) (ret False)"
| "perform parse decode (RecordProof rid hash preimage) = then_action (record_lightning_proof rid hash preimage) (ret False)"
| "perform parse decode (RecordFailure rid reason) = then_action (record_lightning_failure rid reason) (ret False)"
| "perform parse decode (SetPayment rid status) = then_action (set_payment rid status) (ret False)"
| "perform parse decode (MarkClaimable hash payment_id amount) =
     then_action (mark_receive_claimable hash payment_id amount) (ret False)"
| "perform parse decode (CommitReceiveSwap hash transfer_id preimage rid owner) =
     then_action (commit_lightning_receive_swap hash transfer_id preimage rid owner) (ret False)"
| "perform parse decode (CommitBolt12Receive offer hash transfer_id rid owner) =
     then_action (commit_bolt12_receive offer hash transfer_id rid owner) (ret False)"
| "perform parse decode (BindBolt12Receive offer hash) = then_action (bind_bolt12_receive offer hash) (ret False)"
| "perform parse decode (MarkClaimSubmitted hash) = then_action (mark_receive_claim_submitted hash) (ret False)"
| "perform parse decode (SetReceiveStatus hash status) = then_action (set_receive_status hash status) (ret False)"
| "perform parse decode (FailExternalReceive hash payment_id) =
     then_action (fail_external_receive hash payment_id) (ret False)"
| "perform parse decode (ReserveInternalSend now send) = then_action (reserve_internal_send now send) (ret False)"
| "perform parse decode (FinishInternalSend send) = then_action (finish_internal_send send) (ret False)"

fun run_ops ::
  "(string \<Rightarrow> int option) \<Rightarrow> (string \<Rightarrow> bolt11 option) \<Rightarrow> store_op list \<Rightarrow> db \<Rightarrow> (store_op \<times> bool result) list \<times> db" where
  "run_ops parse decode [] d = ([], d)"
| "run_ops parse decode (op # ops) d =
     (let (r, d') = perform parse decode op d; (trace, d'') = run_ops parse decode ops d'
      in ((op, r) # trace, d''))"

definition began :: "string \<Rightarrow> store_op \<times> bool result \<Rightarrow> bool" where
  "began rid entry \<longleftrightarrow> entry = (BeginSubmission rid, Inr True)"

text \<open>
  The statuses \<open>set_payment\<close> is called with (SUCCEEDED, REFUNDING, FAILED, SETTLING and
  PENDING in src/src/ldk.rs) never include PREPARED. An external operation is any but the two
  of the internal settlement, which \<open>process_internal_send\<close> guards under its lock.
\<close>

fun op_allowed :: "store_op \<Rightarrow> bool" where
  "op_allowed (SetPayment rid status) \<longleftrightarrow> status \<noteq> ''PREPARED''"
| "op_allowed _ \<longleftrightarrow> True"

fun op_external :: "store_op \<Rightarrow> bool" where
  "op_external (ReserveInternalSend _ _) \<longleftrightarrow> False"
| "op_external (FinishInternalSend _) \<longleftrightarrow> False"
| "op_external _ \<longleftrightarrow> True"

section \<open>Rows of sends evolve\<close>

text \<open>What even the internal settlement keeps: all of \<open>send_advances\<close> but the terminal status.\<close>

definition send_keeps :: "send_row \<Rightarrow> send_row \<Rightarrow> bool" where
  "send_keeps a b \<longleftrightarrow> same_intent a b \<and>
     (ls_payment_id a \<noteq> None \<longrightarrow> ls_payment_id b = ls_payment_id a) \<and>
     (ls_status a \<noteq> Prepared \<longrightarrow> ls_status b \<noteq> Prepared)"

abbreviation sends_kept :: "db \<Rightarrow> db \<Rightarrow> bool" where
  "sends_kept \<equiv> rows_evolve send_keeps ls_request_id lightning_sends_t"

interpretation kept_table: evolving_table lightning_sends_t send_keeps ls_request_id
  by unfold_locales (auto simp: send_keeps_def same_intent_def)

lemma evolve_kept: "obeys sends_evolve m \<Longrightarrow> obeys sends_kept m"
  by (rule obeys_mono, rule rows_evolve_mono) (auto simp: send_keeps_def send_advances_def)

text \<open>The statements on the other tables leave the sends alone.\<close>

lemmas sends_other = send_table.obeys_other [where t' = requests_t, simplified]
  send_table.obeys_other [where t' = transfers_t, simplified]
  send_table.obeys_other [where t' = payments_t, simplified]
  send_table.obeys_other [where t' = receive_payments_t, simplified]
  send_table.obeys_other [where t' = receive_quote_uses_t, simplified]
  send_table.obeys_other [where t' = lightning_receives_t, simplified]
  send_table.obeys_other [where t' = internal_payments_t, simplified]

lemma send_row_inserted: "obeys sends_evolve (insert_send_row kind row)"
  unfolding insert_send_row_def
  by (intro send_table.evolve.obeys_intros send_table.obeys_insert) (simp add: send_clash_def)

lemma index_send_evolves: "obeys sends_evolve (index_send decode rid owner kind p)"
  unfolding obeys_def index_send_def Let_def
  using send_row_inserted by (auto simp: obeys_def throw_def send_table.evolve_same split: option.split)

lemma index_evolves: "obeys sends_evolve (index_request parse decode rid kind owner created p)"
  unfolding index_request_def index_receive_def insert_receive_row_def Let_def
  by (intro send_table.evolve.obeys_intros sends_other index_send_evolves)

lemmas evolve_intros = send_table.evolve.obeys_intros sends_other index_evolves send_row_inserted
  send_table.obeys_update send_table.obeys_update_unique

text \<open>The operations that write \<open>lightning_sends\<close>.\<close>

lemma send_writes_evolve:
  "obeys sends_evolve (prepare_lightning_send created send key net)"
  "obeys sends_evolve (set_lightning_send_route_cltv rid cltv)"
  "obeys sends_evolve (begin_lightning_submission rid)"
  "obeys sends_evolve (bind_lightning_payment rid payment_id)"
  "obeys sends_evolve (lightning_submission_error rid err)"
  "obeys sends_evolve (record_lightning_failure rid reason)"
  unfolding prepare_lightning_send_def insert_request_row_def set_lightning_send_route_cltv_def
    begin_lightning_submission_def bind_lightning_payment_def lightning_submission_error_def
    record_lightning_failure_def
  by (intro evolve_intros; auto simp: send_advances_def same_intent_def bind_row_def terminal_def)+

lemma set_payment_evolves:
  assumes "status \<noteq> ''PREPARED''"
  shows "obeys sends_evolve (set_payment rid status)"
proof (cases "send_status_parse status")
  case (Inr st)
  then have "st \<noteq> Prepared"
    using assms parse_enum_sound [of send_status_str] by (force simp: send_status_parse_def)
  then show ?thesis
    unfolding set_payment_def Inr lift_result_simps bind_ret
    by (intro evolve_intros) (auto simp: send_advances_def same_intent_def)
qed (simp add: set_payment_def send_table.evolve.obeys_throw)

text \<open>The operations on other tables.\<close>

lemma other_writes_evolve:
  "obeys sends_evolve (insert_request parse decode rid kind owner created payload idem)"
  "obeys sends_evolve (insert_transfer spark_id rid kind status owner)"
  "obeys sends_evolve (set_request_status rid owner status)"
  "obeys sends_evolve (record_lightning_proof rid hash preimage)"
  "obeys sends_evolve (mark_receive_claimable hash payment_id amount)"
  "obeys sends_evolve (commit_lightning_receive_swap hash transfer_id preimage rid owner)"
  "obeys sends_evolve (commit_bolt12_receive offer hash transfer_id rid owner)"
  "obeys sends_evolve (bind_bolt12_receive offer hash)"
  "obeys sends_evolve (mark_receive_claim_submitted hash)"
  "obeys sends_evolve (set_receive_status hash status)"
  unfolding insert_request_def insert_request_row_def insert_transfer_def set_request_status_def
    record_lightning_proof_def mark_receive_claimable_def commit_lightning_receive_swap_def
    commit_bolt12_receive_def bind_bolt12_receive_def mark_receive_claim_submitted_def
    set_receive_status_def progress_upsert_def
  by (intro evolve_intros)+

lemma state_dependent_evolve:
  "obeys sends_evolve (prune_compat_requests older)"
  "obeys sends_evolve (fail_external_receive hash payment_id)"
  by (auto simp: obeys_def prune_compat_requests_def fail_external_receive_def statement_defs action_defs
      intro!: send_table.evolve_same)

text \<open>The internal settlement keeps the weaker relation.\<close>

lemma internal_writes_keep:
  "obeys sends_kept (reserve_internal_send now send)"
  "obeys sends_kept (finish_internal_send send)"
proof -
  have reservation: "obeys sends_kept (insert_reservation send now)"
    by (auto simp: obeys_def insert_reservation_def statement_defs action_defs
        intro!: kept_table.evolve_same split: option.split)
  have transfer: "obeys sends_kept (\<lambda>d. update_where transfers_t (p d) f d)" for p f
    by (simp add: obeys_def update_where_def kept_table.evolve_same)
  have progress: "obeys sends_kept (update_where receive_payments_t p f)" for p f
    by (simp add: obeys_def update_where_def kept_table.evolve_same)
  have sends: "obeys sends_kept (update_where lightning_sends_t p (\<lambda>s. s\<lparr>ls_status := Settling\<rparr>))"
    "obeys sends_kept (update_where lightning_sends_t p (\<lambda>s. s\<lparr>ls_status := Succeeded, ls_last_error := None\<rparr>))" for p
    by (rule kept_table.obeys_update; simp add: send_keeps_def same_intent_def)+
  show "obeys sends_kept (reserve_internal_send now send)"
    unfolding reserve_internal_send_def
    by (intro kept_table.evolve.obeys_intros reservation sends)
  show "obeys sends_kept (finish_internal_send send)"
    unfolding finish_internal_send_def
    by (intro kept_table.evolve.obeys_intros sends progress transfer)
qed

lemma perform_evolves:
  assumes "op_allowed op" "op_external op"
  shows "obeys sends_evolve (perform parse decode op)"
  using assms
  by (cases op) (auto intro!: send_table.evolve.obeys_then send_table.evolve.obeys_ret
      intro: send_writes_evolve set_payment_evolves other_writes_evolve state_dependent_evolve)

lemma perform_keeps:
  assumes "op_allowed op"
  shows "obeys sends_kept (perform parse decode op)"
proof (cases "op_external op")
  case True
  then show ?thesis by (rule evolve_kept [OF perform_evolves [OF assms]])
next
  case False
  then show ?thesis
    by (cases op) (auto intro!: kept_table.evolve.obeys_then kept_table.evolve.obeys_ret internal_writes_keep)
qed

lemma run_keeps: "\<forall>op\<in>set ops. op_allowed op \<Longrightarrow> sends_kept d (snd (run_ops parse decode ops d))"
proof (induction ops arbitrary: d)
  case (Cons op ops)
  let ?d = "snd (perform parse decode op d)"
  have "sends_kept d ?d"
    using perform_keeps [of op parse decode] Cons.prems by (simp add: obeys_def)
  moreover have "sends_kept ?d (snd (run_ops parse decode ops ?d))"
    using Cons by simp
  ultimately show ?case
    by (auto simp: Let_def split: prod.splits intro: kept_table.evolve_trans)
qed (simp add: kept_table.evolve_same)

lemma run_evolves:
  "\<forall>op\<in>set ops. op_allowed op \<and> op_external op \<Longrightarrow> sends_evolve d (snd (run_ops parse decode ops d))"
proof (induction ops arbitrary: d)
  case (Cons op ops)
  let ?d = "snd (perform parse decode op d)"
  have "sends_evolve d ?d"
    using perform_evolves [of op parse decode] Cons.prems by (simp add: obeys_def)
  moreover have "sends_evolve ?d (snd (run_ops parse decode ops ?d))"
    using Cons by simp
  ultimately show ?case
    by (auto simp: Let_def split: prod.splits intro: send_table.evolve_trans)
qed (simp add: send_table.evolve_same)

section \<open>The submission checkpoint\<close>

definition launched :: "string \<Rightarrow> db \<Rightarrow> bool" where
  "launched rid d \<longleftrightarrow> (\<exists>r\<in>set (lightning_sends d). ls_request_id r = rid) \<and>
     (\<forall>r\<in>set (lightning_sends d). ls_request_id r = rid \<longrightarrow> ls_status r \<noteq> Prepared)"

lemma launched_kept:
  assumes "sends_kept d d'" "launched rid d"
  shows "launched rid d'"
proof -
  obtain r where r: "r \<in> set (lightning_sends d)" "ls_request_id r = rid"
    using assms(2) by (auto simp: launched_def)
  obtain r' where "r' \<in> set (lightning_sends d')" "send_keeps r r'"
    using kept_table.evolve_row [OF assms(1)] r(1) by auto
  moreover have "ls_status b \<noteq> Prepared" if b: "b \<in> set (lightning_sends d')" "ls_request_id b = rid" for b
  proof -
    have "ls_request_id b \<in> ls_request_id ` set (lightning_sends d)"
      using r b(2) by (metis imageI)
    then obtain a where "a \<in> set (lightning_sends d)" "send_keeps a b"
      using kept_table.evolve_row_back [OF assms(1), of b] b(1) by auto
    then show ?thesis
      using assms(2) b(2) by (auto simp: launched_def send_keeps_def same_intent_def)
  qed
  ultimately show ?thesis
    using r(2) by (auto simp: launched_def send_keeps_def same_intent_def)
qed

lemma begin_launches:
  assumes "begin_lightning_submission rid d = (Inr True, d')"
  shows "launched rid d'"
proof -
  let ?p = "\<lambda>r. ls_request_id r = rid \<and> ls_status r = Prepared"
  let ?f = "\<lambda>r. r\<lparr>ls_status := Submitting\<rparr>"
  have n: "length (filter ?p (lightning_sends d)) = Suc 0"
    and d': "d' = d\<lparr>lightning_sends := update_rows ?p ?f (lightning_sends d)\<rparr>"
    using assms by (auto simp: begin_lightning_submission_def statement_defs action_defs)
  obtain x where x: "x \<in> set (lightning_sends d)" "?p x"
    using filter_length_one [OF n] by blast
  have "?f x \<in> set (lightning_sends d')"
    unfolding d' using updated_row [of x "lightning_sends d" ?p ?f, OF x] by simp
  moreover have "ls_request_id (?f x) = rid"
    using x(2) by simp
  moreover have "\<forall>r\<in>set (lightning_sends d'). ls_request_id r = rid \<longrightarrow> ls_status r \<noteq> Prepared"
    by (simp add: d') (rule updated_all, simp)
  ultimately show ?thesis
    unfolding launched_def by blast
qed

lemma launched_refuses: "launched rid d \<Longrightarrow> begin_lightning_submission rid d = (Inr False, d)"
  by (auto simp: begin_lightning_submission_def statement_defs action_defs launched_def
      filter_empty_conv update_rows_none)

lemma launched_never_begins:
  assumes "\<forall>op\<in>set ops. op_allowed op" "launched rid d"
  shows "filter (began rid) (fst (run_ops parse decode ops d)) = []"
  using assms
proof (induction ops arbitrary: d)
  case (Cons op ops)
  obtain r d' where p: "perform parse decode op d = (r, d')" by (cases "perform parse decode op d")
  have "sends_kept d d'"
    using perform_keeps [of op parse decode] Cons.prems(1) p by (simp add: obeys_def) (metis snd_conv)
  then have "launched rid d'" using Cons.prems(2) by (rule launched_kept)
  moreover have "\<not> began rid (op, r)"
    using launched_refuses [OF Cons.prems(2)] p by (auto simp: began_def)
  ultimately show ?case
    using Cons p by (auto simp: Let_def split: prod.splits) (metis fst_conv)
qed simp

section \<open>Keys stay unique\<close>

lemmas unique_intros = uniq.obeys_intros requests_key.unique_insert transfers_key.unique_insert
  quote_uses_key.unique_insert receives_key.unique_insert sends_key.unique_insert internals_key.unique_insert
  sends_key.unique_update_unique

lemma index_unique: "obeys keeps_unique (index_request parse decode rid kind owner created p)"
proof -
  have send: "obeys keeps_unique (insert_send_row k row)" for k row
    unfolding insert_send_row_def by (intro unique_intros)
  have "obeys keeps_unique (index_send decode rid owner k p)" for k
    unfolding obeys_def index_send_def Let_def
    using send by (auto simp: obeys_def throw_def split: option.split)
  then show ?thesis
    unfolding index_request_def index_receive_def insert_receive_row_def Let_def
    by (intro unique_intros)
qed

lemma sends_unique:
  "obeys keeps_unique (prepare_lightning_send created send key net)"
  "obeys keeps_unique (bind_lightning_payment rid payment_id)"
  unfolding prepare_lightning_send_def insert_request_row_def insert_send_row_def bind_lightning_payment_def
  by (intro unique_intros)+

lemma request_payload_clash:
  "request_clash (if p a then a\<lparr>rq_payload := x a\<rparr> else a) (if p b then b\<lparr>rq_payload := x b\<rparr> else b) \<longleftrightarrow>
   request_clash a b"
  by (cases "p a"; cases "p b") (simp_all add: request_clash_def)

lemma payload_update_unique: "obeys keeps_unique (update_where requests_t p (\<lambda>r. r\<lparr>rq_payload := x r\<rparr>))"
  by (rule requests_key.unique_update) (simp only: request_payload_clash)

lemma requests_unique:
  "obeys keeps_unique (record_lightning_proof rid hash preimage)"
  "obeys keeps_unique (set_request_status rid owner status)"
  unfolding record_lightning_proof_def set_request_status_def
  by (intro unique_intros payload_update_unique)+

lemma send_updates_unique:
  "obeys keeps_unique (set_lightning_send_route_cltv rid cltv)"
  "obeys keeps_unique (begin_lightning_submission rid)"
  "obeys keeps_unique (lightning_submission_error rid err)"
  "obeys keeps_unique (record_lightning_failure rid reason)"
  "obeys keeps_unique (set_payment rid status)"
  unfolding set_lightning_send_route_cltv_def begin_lightning_submission_def lightning_submission_error_def
    record_lightning_failure_def set_payment_def
  by (intro unique_intros sends_key.unique_update payments_key.unique_upsert;
      auto simp: clash_defs split: if_splits)+

lemma receives_unique:
  "obeys keeps_unique (insert_transfer spark_id rid kind status owner)"
  "obeys keeps_unique (mark_receive_claimable hash payment_id amount)"
  "obeys keeps_unique (commit_lightning_receive_swap hash transfer_id preimage rid owner)"
  "obeys keeps_unique (commit_bolt12_receive offer hash transfer_id rid owner)"
  "obeys keeps_unique (bind_bolt12_receive offer hash)"
  "obeys keeps_unique (mark_receive_claim_submitted hash)"
  "obeys keeps_unique (set_receive_status hash status)"
  unfolding insert_transfer_def mark_receive_claimable_def commit_lightning_receive_swap_def
    commit_bolt12_receive_def bind_bolt12_receive_def mark_receive_claim_submitted_def
    set_receive_status_def progress_upsert_def receive_transfer_def new_progress_def
  by (intro unique_intros transfers_key.unique_upsert receive_payments_key.unique_upsert
      receives_key.unique_update receive_payments_key.unique_update;
      auto simp: clash_defs mark_claimable_row_def split: if_splits)+

lemma insert_request_unique: "obeys keeps_unique (insert_request parse decode rid kind owner created payload idem)"
  unfolding insert_request_def insert_request_row_def by (intro unique_intros index_unique)

lemma prune_unique: "obeys keeps_unique (prune_compat_requests older)"
  unfolding prune_compat_requests_def
  using requests_key.unique_delete transfers_key.unique_delete
  by (intro uniq.obeys_then) (auto simp: obeys_def)

lemma fail_external_unique: "obeys keeps_unique (fail_external_receive hash payment_id)"
proof -
  have "obeys keeps_unique (update_where receive_payments_t p (\<lambda>p. p\<lparr>rp_status := st\<rparr>))" for p st
    by (rule receive_payments_key.unique_update) (auto simp: clash_defs split: if_splits)
  then have "obeys keeps_unique (void (update_where receive_payments_t p (\<lambda>p. p\<lparr>rp_status := st\<rparr>)))" for p st
    by (rule uniq.obeys_void)
  then show ?thesis
    unfolding fail_external_receive_def by (simp add: obeys_def)
qed

lemma internal_unique:
  "obeys keeps_unique (reserve_internal_send now send)"
  "obeys keeps_unique (finish_internal_send send)"
proof -
  have "obeys keeps_unique (then_action (insert_into name internal_payments_t internal_clash fk r) (ret n))"
    for name fk r and n :: nat
    by (intro uniq.obeys_then uniq.obeys_ret internals_key.unique_insert)
  then have "db_unique d \<Longrightarrow>
      db_unique (snd (then_action (insert_into name internal_payments_t internal_clash fk r) (ret n) d))"
    for name fk r d and n :: nat
    by (simp add: obeys_def)
  then have reservation: "obeys keeps_unique (insert_reservation send now)"
    unfolding obeys_def insert_reservation_def by (simp split: option.split)
  have sends: "obeys keeps_unique (update_where lightning_sends_t p (\<lambda>s. s\<lparr>ls_status := st\<rparr>))"
    "obeys keeps_unique (update_where lightning_sends_t p (\<lambda>s. s\<lparr>ls_status := st, ls_last_error := None\<rparr>))" for p st
    by (rule sends_key.unique_update; auto simp: clash_defs split: if_splits)+
  have progress: "obeys keeps_unique (update_where receive_payments_t p (\<lambda>p. p\<lparr>rp_status := st\<rparr>))" for p st
    by (rule receive_payments_key.unique_update) (auto simp: clash_defs split: if_splits)
  have "obeys keeps_unique (update_where transfers_t p (\<lambda>t. t\<lparr>tr_status := st\<rparr>))" for p st
    by (rule transfers_key.unique_update) (auto simp: clash_defs split: if_splits)
  then have transfer: "obeys keeps_unique (\<lambda>d. update_where transfers_t (p d) (\<lambda>t. t\<lparr>tr_status := st\<rparr>) d)" for p st
    by (simp add: obeys_def)
  show "obeys keeps_unique (reserve_internal_send now send)"
    unfolding reserve_internal_send_def by (intro unique_intros reservation sends)
  show "obeys keeps_unique (finish_internal_send send)"
    unfolding finish_internal_send_def by (intro unique_intros sends progress transfer)
qed

lemma perform_unique: "obeys keeps_unique (perform parse decode op)"
  by (cases op) (auto intro!: uniq.obeys_then uniq.obeys_ret
      intro: sends_unique send_updates_unique requests_unique receives_unique insert_request_unique
        prune_unique fail_external_unique internal_unique)

section \<open>Properties\<close>

text \<open>A run of a BOLT11 send: checkpointed, submitted, settled, with a late second checkpoint.\<close>

definition example_ops :: "store_op list" where
  "example_ops = [PrepareSend ''t0'' example_send ''key'' ''REGTEST'', BeginSubmission ''req'',
     BindPayment ''req'' ''pay'', BeginSubmission ''req'', SetPayment ''pay'' ''SUCCEEDED'',
     SetPayment ''pay'' ''PENDING'', BeginSubmission ''req'']"

lemma example_ops_allowed: "\<forall>op\<in>set example_ops. op_allowed op \<and> op_external op"
  by (simp add: example_ops_def)

lemma kept_stored:
  "sends_kept d d' \<Longrightarrow> stored_send rid d = Some r \<Longrightarrow> \<exists>r'. stored_send rid d' = Some r' \<and> send_keeps r r'"
  unfolding stored_send_def rows_simps(10) [symmetric]
  by (erule kept_table.evolve_first_row) auto

lemma advanced_stored:
  "sends_evolve d d' \<Longrightarrow> stored_send rid d = Some r \<Longrightarrow> \<exists>r'. stored_send rid d' = Some r' \<and> send_advances r r'"
  unfolding stored_send_def rows_simps(10) [symmetric]
  by (erule send_table.evolve_first_row) auto

text \<open>At most one submission: over any sequence of store operations, from any state, the
  checkpoint \<open>begin_lightning_submission\<close> answers true at most once for a request, so a
  payment is handed to the Lightning backend at most once however often handlers, the
  reconciler and restarts retry it.\<close>

theorem submission_at_most_once:
  assumes "\<forall>op\<in>set ops. op_allowed op"
  shows "length (filter (began rid) (fst (run_ops parse decode ops d))) \<le> 1"
  using assms
proof (induction ops arbitrary: d)
  case (Cons op ops)
  obtain r d' where p: "perform parse decode op d = (r, d')" by (cases "perform parse decode op d")
  have trace: "fst (run_ops parse decode (op # ops) d) = (op, r) # fst (run_ops parse decode ops d')"
    by (simp add: p split: prod.split)
  show ?case
  proof (cases "began rid (op, r)")
    case True
    then have "launched rid d'" using p begin_launches by (auto simp: began_def)
    then show ?thesis using launched_never_begins Cons.prems trace True by simp
  next
    case False
    then show ?thesis using Cons trace by simp
  qed
qed simp

lemma submission_at_most_once_witness:
  "length (filter (began ''req'') (fst (run_ops (\<lambda>_. None) (\<lambda>_. None) example_ops empty_db))) \<le> 1"
  using example_ops_allowed by (intro submission_at_most_once) blast

lemma example_run_begins_once:
  "map (\<lambda>(op, r). r = Inr True) (fst (run_ops (\<lambda>_. None) (\<lambda>_. None) example_ops empty_db)) =
   [False, True, False, False, False, False, False]"
  by code_simp

text \<open>The identity of a stored send is immutable: no sequence of store operations changes
  its owner, funding transfer, invoice, amounts, kind or expected hash, removes it, replaces
  an LDK payment id once bound, or takes it back to PREPARED.\<close>

theorem send_identity_immutable:
  assumes "\<forall>op\<in>set ops. op_allowed op" "stored_send rid d = Some r"
  shows "\<exists>r'. stored_send rid (snd (run_ops parse decode ops d)) = Some r' \<and> same_intent r r' \<and>
    (ls_payment_id r \<noteq> None \<longrightarrow> ls_payment_id r' = ls_payment_id r) \<and>
    (ls_status r \<noteq> Prepared \<longrightarrow> ls_status r' \<noteq> Prepared)"
  using kept_stored [OF run_keeps [OF assms(1), where parse = parse and decode = decode] assms(2)]
  by (auto simp: send_keeps_def)

lemma send_identity_immutable_witness:
  "\<exists>r'. stored_send ''req'' (snd (run_ops (\<lambda>_. None) (\<lambda>_. None) example_ops
       (empty_db\<lparr>lightning_sends := [prepared_row example_send]\<rparr>))) = Some r' \<and>
     same_intent (prepared_row example_send) r' \<and>
     (ls_payment_id (prepared_row example_send) \<noteq> None \<longrightarrow> ls_payment_id r' = ls_payment_id (prepared_row example_send)) \<and>
     (ls_status (prepared_row example_send) \<noteq> Prepared \<longrightarrow> ls_status r' \<noteq> Prepared)"
  by (rule send_identity_immutable)
    (use example_ops_allowed in \<open>simp_all add: stored_send_def prepared_row_def example_send_def lightning_send.defs send_row.defs\<close>)

text \<open>A terminal send status is final: once SUCCEEDED or FAILED, no sequence of external
  operations (late backend events, polls, retries, receive handling) moves it.\<close>

theorem terminal_send_is_final:
  assumes "\<forall>op\<in>set ops. op_allowed op \<and> op_external op" "stored_send rid d = Some r" "terminal (ls_status r)"
  shows "\<exists>r'. stored_send rid (snd (run_ops parse decode ops d)) = Some r' \<and> ls_status r' = ls_status r"
  using advanced_stored [OF run_evolves [OF assms(1), where parse = parse and decode = decode] assms(2)] assms(3)
  by (auto simp: send_advances_def)

lemma terminal_send_is_final_witness:
  "\<exists>r'. stored_send ''req'' (snd (run_ops (\<lambda>_. None) (\<lambda>_. None) example_ops
       (empty_db\<lparr>lightning_sends := [(prepared_row example_send)\<lparr>ls_status := Failed\<rparr>]\<rparr>))) = Some r' \<and>
     ls_status r' = ls_status ((prepared_row example_send)\<lparr>ls_status := Failed\<rparr>)"
  by (rule terminal_send_is_final [OF example_ops_allowed])
    (simp_all add: stored_send_def prepared_row_def example_send_def lightning_send.defs send_row.defs terminal_def)

text \<open>Every UNIQUE and PRIMARY KEY constraint is an invariant of the store: no sequence of
  operations leaves two rows that share a key, so a funding transfer, a payment hash, an LDK
  payment, an idempotency key and a reservation each belong to one request.\<close>

theorem store_keys_unique:
  assumes "db_unique d"
  shows "db_unique (snd (run_ops parse decode ops d))"
  using assms
proof (induction ops arbitrary: d)
  case (Cons op ops)
  have "db_unique (snd (perform parse decode op d))"
    using perform_unique Cons.prems by (simp add: obeys_def)
  then show ?case
    using Cons.IH by (auto split: prod.split) (metis snd_conv)
qed simp

lemma store_keys_unique_witness:
  "db_unique (snd (run_ops (\<lambda>_. None) (\<lambda>_. None) example_ops empty_db))"
  by (rule store_keys_unique [OF db_unique_empty])

end
