(* ===== verification/Spark_Splits.thy ===== *)
theory Spark_Splits
  imports Schema
begin

text \<open>
  The split store of src/src/db.rs: durable plans for splitting a Spark leaf, the key material
  of the children and its \<open>LeafKeyOverrideStore\<close> interface. A plan moves
  DRAFT, PREPARED, SUBMITTING, SUBMITTED, COMPLETED; \<open>split_advances\<close> is that contract,
  kept by every operation, and the key store is write-once until the keys are bound.
\<close>

section \<open>The order of the statuses\<close>

fun split_rank :: "split_status \<Rightarrow> nat" where
  "split_rank SDraft = 0"
| "split_rank SPrepared = 1"
| "split_rank SSubmitting = 2"
| "split_rank SSubmitted = 3"
| "split_rank SCompleted = 4"

instantiation split_status :: linorder
begin

definition less_eq_split_status :: "split_status \<Rightarrow> split_status \<Rightarrow> bool" where
  "a \<le> b \<longleftrightarrow> split_rank a \<le> split_rank b"

definition less_split_status :: "split_status \<Rightarrow> split_status \<Rightarrow> bool" where
  "a < b \<longleftrightarrow> split_rank a < split_rank b"

instance
proof
  fix a b c :: split_status
  show "a < b \<longleftrightarrow> a \<le> b \<and> \<not> b \<le> a"
    by (auto simp: less_eq_split_status_def less_split_status_def)
  show "a \<le> a" "a \<le> b \<or> b \<le> a" and "a \<le> b \<Longrightarrow> b \<le> c \<Longrightarrow> a \<le> c"
    by (auto simp: less_eq_split_status_def)
  show "a \<le> b \<Longrightarrow> b \<le> a \<Longrightarrow> a = b"
    by (cases a; cases b) (simp_all add: less_eq_split_status_def)
qed

end

lemmas split_order = less_eq_split_status_def less_split_status_def

section \<open>Plans\<close>

definition optional_spark_split :: "string \<Rightarrow> (db, split_operation option) action" where
  "optional_spark_split parent_node_id =
     bind_action (query_optional split_operations_t (\<lambda>s. sp_parent_node_id s = parent_node_id))
       (\<lambda>row. ret (map_option split_operation.truncate row))"

definition read_spark_split :: "string \<Rightarrow> (db, split_operation) action" where
  "read_spark_split parent_node_id =
     bind_action (optional_spark_split parent_node_id) (\<lambda>row. lift_result (ok_or row NoRows))"

definition get_or_insert_spark_split :: "string \<Rightarrow> split_operation \<Rightarrow> (db, split_operation) action" where
  "get_or_insert_spark_split now candidate =
     (if \<not> sql_u64 (sp_parent_value_sats candidate) then throw (Failure ''ToSqlConversionFailure'')
      else then_action (insert_or_ignore split_operations_t split_clash
          (split_operation.extend candidate (split_row.fields now)))
        (read_spark_split (sp_parent_node_id candidate)))"

definition spark_split_for_parent :: "string \<Rightarrow> (db, split_operation option) action" where
  "spark_split_for_parent = optional_spark_split"

definition incomplete_spark_splits :: "(db, split_operation list) action" where
  "incomplete_spark_splits =
     bind_action (select_where split_operations_t (\<lambda>s. sp_status s \<noteq> SCompleted))
       (\<lambda>rs. ret (map split_operation.truncate
          (take 1000 (sort_key sp_created_at (sort_key sp_operation_id rs)))))"

definition mark_spark_split_submitting :: "string \<Rightarrow> (db, unit) action" where
  "mark_spark_split_submitting operation_id =
     bind_action (update_where split_operations_t
         (\<lambda>s. sp_operation_id s = operation_id \<and> sp_status s = SPrepared)
         (\<lambda>s. s\<lparr>sp_status := SSubmitting, sp_last_error := None\<rparr>)) (\<lambda>changed.
     if changed = 0
     then bind_action (query_row split_operations_t (\<lambda>s. sp_operation_id s = operation_id)) (\<lambda>s.
            if sp_status s \<noteq> SSubmitting \<and> sp_status s \<noteq> SSubmitted \<and> sp_status s \<noteq> SCompleted
            then throw InvalidQuery else ret ())
     else ret ())"

text \<open>\<open>changed == 1\<close> or \<open>InvalidQuery\<close>.\<close>

definition update_split :: "(split_row \<Rightarrow> bool) \<Rightarrow> (split_row \<Rightarrow> split_row) \<Rightarrow> (db, unit) action" where
  "update_split p f = bind_action (update_where split_operations_t p f)
     (\<lambda>changed. if changed = 1 then ret () else throw InvalidQuery)"

definition save_prepared_spark_split :: "string \<Rightarrow> 8 word list \<Rightarrow> (db, unit) action" where
  "save_prepared_spark_split operation_id plan = update_split
     (\<lambda>s. sp_operation_id s = operation_id \<and> sp_status s \<in> {SDraft, SPrepared})
     (\<lambda>s. s\<lparr>sp_plan := plan, sp_status := SPrepared, sp_last_error := None\<rparr>)"

definition save_submitted_spark_split :: "string \<Rightarrow> 8 word list \<Rightarrow> (db, unit) action" where
  "save_submitted_spark_split operation_id submitted = update_split
     (\<lambda>s. sp_operation_id s = operation_id \<and> sp_status s \<in> {SSubmitting, SSubmitted})
     (\<lambda>s. s\<lparr>sp_plan := submitted, sp_status := SSubmitted, sp_last_error := None\<rparr>)"

definition update_spark_split_plan :: "string \<Rightarrow> 8 word list \<Rightarrow> (db, unit) action" where
  "update_spark_split_plan operation_id plan = update_split
     (\<lambda>s. sp_operation_id s = operation_id \<and> sp_status s \<noteq> SCompleted) (\<lambda>s. s\<lparr>sp_plan := plan\<rparr>)"

definition record_spark_split_error :: "string \<Rightarrow> string \<Rightarrow> (db, unit) action" where
  "record_spark_split_error operation_id err = void (update_where split_operations_t
     (\<lambda>s. sp_operation_id s = operation_id \<and> sp_status s \<noteq> SCompleted) (\<lambda>s. s\<lparr>sp_last_error := Some err\<rparr>))"

definition mark_spark_split_completed :: "string \<Rightarrow> (db, unit) action" where
  "mark_spark_split_completed operation_id = update_split
     (\<lambda>s. sp_operation_id s = operation_id \<and> sp_status s \<in> {SSubmitted, SCompleted} \<and> sp_child_node_ids s \<noteq> [])
     (\<lambda>s. s\<lparr>sp_status := SCompleted, sp_last_error := None\<rparr>)"

section \<open>Child keys\<close>

definition put_leaf_key :: "string \<Rightarrow> string \<times> 8 word list \<Rightarrow> (db, unit) action" where
  "put_leaf_key operation_id entry = (case entry of (node_id, key_material) \<Rightarrow>
     void (upsert leaf_keys_t (\<lambda>k. lk_node_id k = node_id) (\<lambda>_. True)
       (\<lambda>k. k\<lparr>lk_operation_id := operation_id, lk_key_material := key_material\<rparr>)
       \<lparr>lk_node_id = node_id, lk_operation_id = operation_id, lk_key_material = key_material\<rparr>))"

definition complete_spark_split :: "string \<Rightarrow> leaf_key_override list \<Rightarrow> (db, unit) action" where
  "complete_spark_split operation_id overrides = transaction
     (bind_action (query_row split_operations_t (\<lambda>s. sp_operation_id s = operation_id)) (\<lambda>s.
      if length overrides \<noteq> length (sp_child_values_sats s) \<or>
         list_ex (\<lambda>x. lko_node_id x = [] \<or> lko_key_material x = []) overrides
      then throw InvalidQuery
      else then_action (for_each (map (\<lambda>x. (lko_node_id x, lko_key_material x)) overrides) (put_leaf_key operation_id))
        (then_action (update_where split_operations_t (\<lambda>s. sp_operation_id s = operation_id)
            (\<lambda>s. s\<lparr>sp_status := SCompleted, sp_child_node_ids := map lko_node_id overrides, sp_last_error := None\<rparr>))
          (void (delete_where pending_keys_t (\<lambda>k. pk_operation_id k = operation_id))))))"

definition spark_leaf_key_overrides :: "(db, leaf_key_override list) action" where
  "spark_leaf_key_overrides = bind_action (select_where leaf_keys_t (\<lambda>_. True)) (\<lambda>ks.
     ret (map (\<lambda>k. \<lparr>lko_node_id = lk_node_id k, lko_key_material = lk_key_material k\<rparr>) (sort_key lk_node_id ks)))"

definition spark_leaf_key_override :: "string \<Rightarrow> (db, 8 word list option) action" where
  "spark_leaf_key_override node_id =
     bind_action (query_optional leaf_keys_t (\<lambda>k. lk_node_id k = node_id)) (\<lambda>row. ret (map_option lk_key_material row))"

definition retire_spark_leaf_keys :: "string list \<Rightarrow> (db, unit) action" where
  "retire_spark_leaf_keys node_ids = transaction
     (for_each node_ids (\<lambda>node_id. void (delete_where leaf_keys_t (\<lambda>k. lk_node_id k = node_id))))"

definition pending_spark_split_keys :: "string \<Rightarrow> string \<Rightarrow> (db, 8 word list list option) action" where
  "pending_spark_split_keys operation_id parent_node_id =
     bind_action (query_optional pending_keys_t
         (\<lambda>k. pk_operation_id k = operation_id \<and> pk_parent_node_id k = parent_node_id))
       (\<lambda>row. ret (map_option pk_encrypted_keys row))"

definition put_pending_spark_split_keys :: "string \<Rightarrow> string \<Rightarrow> 8 word list list \<Rightarrow> (db, unit) action" where
  "put_pending_spark_split_keys operation_id parent_node_id encrypted_keys =
     (if encrypted_keys = [] \<or> list_ex (\<lambda>k. k = []) encrypted_keys
      then throw (Failure ''pending Spark split keys must be non-empty'')
      else then_action (insert_or_ignore pending_keys_t pending_keys_clash
          \<lparr>pk_operation_id = operation_id, pk_parent_node_id = parent_node_id, pk_encrypted_keys = encrypted_keys\<rparr>)
        (bind_action (query_row pending_keys_t (\<lambda>k. pk_operation_id k = operation_id)) (\<lambda>stored.
          if pk_parent_node_id stored = parent_node_id \<and> pk_encrypted_keys stored = encrypted_keys
          then ret () else throw InvalidQuery)))"

definition bind_pending_spark_split_keys :: "string \<Rightarrow> string list \<Rightarrow> (db, unit) action" where
  "bind_pending_spark_split_keys operation_id node_ids =
     (if node_ids = [] \<or> list_ex (\<lambda>n. n = []) node_ids
      then throw (Failure ''split child node IDs must be non-empty'')
      else transaction
        (bind_action (query_row split_operations_t (\<lambda>s. sp_operation_id s = operation_id)) (\<lambda>operation.
         if length (sp_child_values_sats operation) \<noteq> length node_ids then throw InvalidQuery
         else bind_action (query_optional pending_keys_t (\<lambda>k. pk_operation_id k = operation_id)) (\<lambda>pending.
           case pending of
             None \<Rightarrow> if sp_child_node_ids operation = node_ids then ret () else throw InvalidQuery
           | Some k \<Rightarrow>
               if length (pk_encrypted_keys k) \<noteq> length node_ids then throw InvalidQuery
               else then_action (for_each (zip node_ids (pk_encrypted_keys k)) (put_leaf_key operation_id))
                 (then_action (update_where split_operations_t (\<lambda>s. sp_operation_id s = operation_id)
                     (\<lambda>s. s\<lparr>sp_child_node_ids := node_ids, sp_last_error := None\<rparr>))
                   (void (delete_where pending_keys_t (\<lambda>k. pk_operation_id k = operation_id))))))))"

section \<open>The contract\<close>

definition split_advances :: "split_row \<Rightarrow> split_row \<Rightarrow> bool" where
  "split_advances a b \<longleftrightarrow> sp_operation_id b = sp_operation_id a \<and> sp_parent_node_id b = sp_parent_node_id a \<and>
     sp_parent_value_sats b = sp_parent_value_sats a \<and> sp_child_values_sats b = sp_child_values_sats a \<and>
     sp_created_at b = sp_created_at a \<and> sp_status a \<le> sp_status b \<and>
     (sp_status a = SCompleted \<longrightarrow> sp_plan b = sp_plan a)"

lemma split_rank_le [simp]: "split_rank st \<le> 4"
  by (cases st) simp_all

lemma completed_top [simp]: "SCompleted \<le> st \<longleftrightarrow> st = SCompleted"
  by (cases st) (simp_all add: split_order)

interpretation split_table: evolving_table split_operations_t split_advances sp_parent_node_id
  by unfold_locales (auto simp: split_advances_def)

abbreviation splits_evolve :: "db \<Rightarrow> db \<Rightarrow> bool" where
  "splits_evolve \<equiv> rows_evolve split_advances sp_parent_node_id split_operations_t"

lemmas split_other = split_table.obeys_other [where t' = leaf_keys_t, simplified]
  split_table.obeys_other [where t' = pending_keys_t, simplified]

lemma put_leaf_key_evolves: "obeys splits_evolve (put_leaf_key operation_id entry)"
  unfolding put_leaf_key_def by (cases entry) (auto intro!: split_table.evolve.obeys_intros split_other)

lemma update_split_evolves:
  "(\<And>s. p s \<Longrightarrow> split_advances s (f s)) \<Longrightarrow> obeys splits_evolve (update_split p f)"
  unfolding update_split_def by (intro split_table.evolve.obeys_intros split_table.obeys_update)

lemma split_ops_evolve:
  "obeys splits_evolve (get_or_insert_spark_split now candidate)"
  "obeys splits_evolve (mark_spark_split_submitting operation_id)"
  "obeys splits_evolve (save_prepared_spark_split operation_id plan)"
  "obeys splits_evolve (save_submitted_spark_split operation_id plan)"
  "obeys splits_evolve (update_spark_split_plan operation_id plan)"
  "obeys splits_evolve (record_spark_split_error operation_id err)"
  "obeys splits_evolve (mark_spark_split_completed operation_id)"
  "obeys splits_evolve (complete_spark_split operation_id overrides)"
  "obeys splits_evolve (retire_spark_leaf_keys node_ids)"
  "obeys splits_evolve (put_pending_spark_split_keys operation_id parent keys)"
  "obeys splits_evolve (bind_pending_spark_split_keys operation_id node_ids)"
  unfolding get_or_insert_spark_split_def read_spark_split_def optional_spark_split_def
    mark_spark_split_submitting_def save_prepared_spark_split_def save_submitted_spark_split_def
    update_spark_split_plan_def record_spark_split_error_def mark_spark_split_completed_def
    complete_spark_split_def retire_spark_leaf_keys_def put_pending_spark_split_keys_def
    bind_pending_spark_split_keys_def
  by (intro split_table.evolve.obeys_intros split_table.obeys_insert_or_ignore split_table.obeys_update
      update_split_evolves split_other put_leaf_key_evolves;
      auto simp: split_advances_def split_order split_clash_def split_operation.defs split_row.defs)+

section \<open>Sequences of operations\<close>

datatype split_op =
    GetOrInsertSplit string split_operation
  | MarkSubmitting string
  | SavePrepared string "8 word list"
  | SaveSubmitted string "8 word list"
  | UpdatePlan string "8 word list"
  | RecordSplitError string string
  | MarkCompleted string
  | CompleteSplit string "leaf_key_override list"
  | RetireKeys "string list"
  | PutPendingKeys string string "8 word list list"
  | BindPendingKeys string "string list"

fun perform_split :: "split_op \<Rightarrow> (db, unit) action" where
  "perform_split (GetOrInsertSplit now c) = void (get_or_insert_spark_split now c)"
| "perform_split (MarkSubmitting i) = mark_spark_split_submitting i"
| "perform_split (SavePrepared i plan) = save_prepared_spark_split i plan"
| "perform_split (SaveSubmitted i plan) = save_submitted_spark_split i plan"
| "perform_split (UpdatePlan i plan) = update_spark_split_plan i plan"
| "perform_split (RecordSplitError i err) = record_spark_split_error i err"
| "perform_split (MarkCompleted i) = mark_spark_split_completed i"
| "perform_split (CompleteSplit i overrides) = complete_spark_split i overrides"
| "perform_split (RetireKeys nodes) = retire_spark_leaf_keys nodes"
| "perform_split (PutPendingKeys i parent keys) = put_pending_spark_split_keys i parent keys"
| "perform_split (BindPendingKeys i nodes) = bind_pending_spark_split_keys i nodes"

fun run_splits :: "split_op list \<Rightarrow> db \<Rightarrow> db" where
  "run_splits [] d = d"
| "run_splits (op # ops) d = run_splits ops (snd (perform_split op d))"

lemma perform_split_evolves: "obeys splits_evolve (perform_split op)"
  by (cases op) (simp_all add: split_ops_evolve split_table.evolve.obeys_void)

lemma run_splits_evolve: "splits_evolve d (run_splits ops d)"
proof (induction ops arbitrary: d)
  case (Cons op ops)
  then show ?case
    using perform_split_evolves split_table.evolve_trans by (fastforce simp: obeys_def)
qed (simp add: split_table.evolve_same)

text \<open>The stored plan of a parent leaf.\<close>

definition stored_split :: "string \<Rightarrow> db \<Rightarrow> split_row option" where
  "stored_split parent d = first_row (\<lambda>s. sp_parent_node_id s = parent) (split_operations d)"

lemma split_evolved:
  "splits_evolve d d' \<Longrightarrow> stored_split parent d = Some s \<Longrightarrow> \<exists>s'. stored_split parent d' = Some s' \<and> split_advances s s'"
  unfolding stored_split_def rows_simps [symmetric]
  by (erule split_table.evolve_first_row) auto

text \<open>A parent leaf has one split for good: whatever operations run, crash or are retried,
  its plan keeps its operation id, value and denominations, its status never moves back along
  DRAFT, PREPARED, SUBMITTING, SUBMITTED, COMPLETED, and a completed plan is frozen.\<close>

theorem split_plan_advances:
  assumes "stored_split parent d = Some s"
  shows "\<exists>s'. stored_split parent (run_splits ops d) = Some s' \<and> sp_operation_id s' = sp_operation_id s \<and>
    sp_parent_value_sats s' = sp_parent_value_sats s \<and> sp_child_values_sats s' = sp_child_values_sats s \<and>
    sp_status s \<le> sp_status s' \<and> (sp_status s = SCompleted \<longrightarrow> sp_plan s' = sp_plan s)"
  using split_evolved [OF run_splits_evolve assms, of ops] by (auto simp: split_advances_def)

definition example_split :: split_operation where
  "example_split = \<lparr>sp_operation_id = ''op'', sp_parent_node_id = ''parent'', sp_parent_value_sats = 10,
     sp_child_values_sats = [8, 2], sp_plan = [1], sp_status = SDraft, sp_child_node_ids = [], sp_last_error = None\<rparr>"

definition example_split_db :: db where
  "example_split_db = empty_db\<lparr>split_operations := [split_operation.extend example_split (split_row.fields ''t0'')]\<rparr>"

lemma example_stored_split:
  "stored_split ''parent'' example_split_db = Some (split_operation.extend example_split (split_row.fields ''t0''))"
  by (simp add: stored_split_def example_split_db_def example_split_def split_operation.defs split_row.defs)

lemma split_plan_advances_witness:
  "\<exists>s'. stored_split ''parent'' (run_splits [SavePrepared ''op'' [2], MarkSubmitting ''op'', SavePrepared ''op'' [3]]
         example_split_db) = Some s' \<and>
     sp_operation_id s' = ''op'' \<and> sp_parent_value_sats s' = 10 \<and> sp_child_values_sats s' = [8, 2] \<and>
     SDraft \<le> sp_status s' \<and> (SDraft = SCompleted \<longrightarrow> sp_plan s' = [1])"
  using split_plan_advances [OF example_stored_split,
      of "[SavePrepared ''op'' [2], MarkSubmitting ''op'', SavePrepared ''op'' [3]]"]
  by (simp add: example_split_def split_operation.defs split_row.defs)

section \<open>The retry guarantees\<close>

text \<open>A retried split reuses the stored plan: when a parent already has a plan, asking for
  a new one with any other operation id, denominations or secrets returns the stored plan and
  writes nothing, so child keys are never generated twice for one leaf.\<close>

theorem split_retry_reuses_plan:
  assumes "stored_split (sp_parent_node_id candidate) d = Some s" "sql_u64 (sp_parent_value_sats candidate)"
  shows "get_or_insert_spark_split now candidate d = (Inr (split_operation.truncate s), d)"
proof -
  let ?row = "split_operation.extend candidate (split_row.fields now)"
  have "sp_parent_node_id ?row = sp_parent_node_id candidate"
    by (simp add: split_operation.defs split_row.defs)
  moreover have "s \<in> set (split_operations d)" "sp_parent_node_id s = sp_parent_node_id candidate"
    using assms(1) by (auto simp: stored_split_def dest!: first_row_SomeD)
  ultimately have "list_ex (split_clash ?row) (split_operations d)"
    unfolding list_ex_iff by (intro bexI [of _ s]) (simp_all add: split_clash_def)
  then show ?thesis
    using assms by (simp add: get_or_insert_spark_split_def read_spark_split_def optional_spark_split_def
        insert_or_ignore_def query_optional_def stored_split_def action_defs)
qed

lemma split_retry_reuses_plan_witness:
  "get_or_insert_spark_split ''t1'' (example_split\<lparr>sp_operation_id := ''op2'', sp_plan := [9]\<rparr>) example_split_db =
   (Inr example_split, example_split_db)"
  using split_retry_reuses_plan [of "example_split\<lparr>sp_operation_id := ''op2'', sp_plan := [9]\<rparr>" example_split_db
      "split_operation.extend example_split (split_row.fields ''t0'')" "''t1''"] example_stored_split
  by (simp add: example_split_def sql_u64_def i64_of_u64_def i64_max_def split_operation.defs split_row.defs)

text \<open>Pending child keys are written once: after a successful put they are read back, and
  until they are bound every put of other keys or for another parent is refused, changing
  nothing.\<close>

theorem pending_keys_write_once:
  assumes "put_pending_spark_split_keys operation_id parent keys d = (Inr u, d')"
  shows "result_of (pending_spark_split_keys operation_id parent) d' = Inr (Some keys) \<and>
    ((parent', keys') \<noteq> (parent, keys) \<longrightarrow>
      (\<exists>e. put_pending_spark_split_keys operation_id parent' keys' d' = (Inl e, d')))"
proof -
  obtain r where r: "first_row (\<lambda>k. pk_operation_id k = operation_id) (pending_keys d') = Some r"
      "pk_parent_node_id r = parent" "pk_encrypted_keys r = keys"
    using assms by (auto simp: put_pending_spark_split_keys_def action_defs insert_or_ignore_def query_row_def
        ok_or_def split: if_splits option.splits)
  have "list_ex (pending_keys_clash \<lparr>pk_operation_id = operation_id, pk_parent_node_id = parent', pk_encrypted_keys = keys'\<rparr>)
      (pending_keys d')"
    using first_row_SomeD [OF r(1)] by (auto simp: list_ex_iff pending_keys_clash_def)
  then have "\<exists>e. put_pending_spark_split_keys operation_id parent' keys' d' = (Inl e, d')"
    if "(parent', keys') \<noteq> (parent, keys)"
    using r that by (auto simp: put_pending_spark_split_keys_def action_defs insert_or_ignore_def query_row_def)
  moreover have "first_row (\<lambda>k. pk_operation_id k = operation_id \<and> pk_parent_node_id k = parent) (pending_keys d') = Some r"
    using first_row_conj [OF r(1), of "\<lambda>k. pk_parent_node_id k = parent"] r(2) by simp
  ultimately show ?thesis
    using r by (simp add: pending_spark_split_keys_def action_defs query_optional_def)
qed

definition example_put_db :: db where
  "example_put_db = state_after (put_pending_spark_split_keys ''op'' ''parent'' [[1], [2]]) example_split_db"

lemma example_put:
  "put_pending_spark_split_keys ''op'' ''parent'' [[1], [2]] example_split_db = (Inr (), example_put_db)"
  by code_simp

lemma pending_keys_write_once_witness:
  "result_of (pending_spark_split_keys ''op'' ''parent'') example_put_db = Inr (Some [[1], [2]]) \<and>
   (\<exists>e. put_pending_spark_split_keys ''op'' ''parent'' [[3], [4]] example_put_db = (Inl e, example_put_db))"
  using pending_keys_write_once [OF example_put, of "''parent''" "[[3], [4]]"] by simp

section \<open>Binding\<close>

lemma put_leaf_key_succeeds: "put_leaf_key operation_id entry d = (Inr (), state_after (put_leaf_key operation_id entry) d)"
  by (cases entry) (simp add: put_leaf_key_def void_def upsert_def update_where_def action_defs)

lemma leaf_key_after_put:
  "result_of (spark_leaf_key_override node) (state_after (put_leaf_key operation_id (n, k)) d) =
   (if node = n then Inr (Some k) else result_of (spark_leaf_key_override node) d)"
proof -
  let ?f = "\<lambda>r. r\<lparr>lk_operation_id := operation_id, lk_key_material := k\<rparr>"
  let ?new = "\<lparr>lk_node_id = n, lk_operation_id = operation_id, lk_key_material = k\<rparr>"
  have after: "state_after (put_leaf_key operation_id (n, k)) d =
      state_after (upsert leaf_keys_t (\<lambda>r. lk_node_id r = n) (\<lambda>_. True) ?f ?new) d"
    by (simp add: put_leaf_key_def void_def upsert_def update_where_def action_defs)
  show ?thesis
    unfolding after
    using leaf_keys.first_row_upsert [of "\<lambda>r. lk_node_id r = n" ?new ?f d]
      leaf_keys.first_row_upsert_other [of "\<lambda>r. lk_node_id r = n" "\<lambda>r. lk_node_id r = node" ?f ?new]
    by (auto simp: spark_leaf_key_override_def query_optional_def result_of_def bind_action_def ret_def
        split: option.splits)
qed

lemma for_each_puts:
  "\<exists>d'. for_each entries (put_leaf_key operation_id) d = (Inr (), d') \<and>
    split_operations d' = split_operations d \<and> pending_keys d' = pending_keys d \<and>
    (distinct (map fst entries) \<longrightarrow> (\<forall>node. result_of (spark_leaf_key_override node) d' =
      (case map_of entries node of Some k \<Rightarrow> Inr (Some k) | None \<Rightarrow> result_of (spark_leaf_key_override node) d)))"
proof (induction entries arbitrary: d)
  case (Cons entry entries)
  obtain n k where e: "entry = (n, k)" by (cases entry)
  let ?d = "state_after (put_leaf_key operation_id entry) d"
  have kept: "split_operations ?d = split_operations d" "pending_keys ?d = pending_keys d"
    by (simp_all add: e put_leaf_key_def void_def upsert_def update_where_def action_defs)
  obtain d' where d': "for_each entries (put_leaf_key operation_id) ?d = (Inr (), d')"
      "split_operations d' = split_operations ?d" "pending_keys d' = pending_keys ?d"
      "distinct (map fst entries) \<longrightarrow> (\<forall>node. result_of (spark_leaf_key_override node) d' =
        (case map_of entries node of Some k \<Rightarrow> Inr (Some k) | None \<Rightarrow> result_of (spark_leaf_key_override node) ?d))"
    using Cons.IH by blast
  have "for_each (entry # entries) (put_leaf_key operation_id) d = (Inr (), d')"
    using put_leaf_key_succeeds [of operation_id entry d] d'(1) by (simp add: then_action_def bind_action_def)
  moreover have "result_of (spark_leaf_key_override node) d' =
      (case map_of (entry # entries) node of Some k \<Rightarrow> Inr (Some k) | None \<Rightarrow> result_of (spark_leaf_key_override node) d)"
    if "distinct (map fst (entry # entries))" for node
  proof -
    have "map_of entries n = None" "distinct (map fst entries)"
      using that by (simp_all add: e map_of_eq_None_iff)
    then show ?thesis
      using d'(4) leaf_key_after_put [of node operation_id n k d, folded e]
      by (cases "node = n") (simp_all add: e split: option.split)
  qed
  ultimately show ?case using d'(2,3) kept by auto
qed (simp add: ret_def)

text \<open>Binding the children is complete and atomic: an error changes nothing; success with
  pending keys gives every new leaf, in order, exactly its pending key, records the child ids,
  and forgets the pending keys, so a restarted signer resolves every child.\<close>

theorem bind_keys_complete:
  assumes "first_row (\<lambda>k. pk_operation_id k = operation_id) (pending_keys d) = Some pending" "distinct node_ids"
  shows "case bind_pending_spark_split_keys operation_id node_ids d of
      (Inl e, d') \<Rightarrow> d' = d
    | (Inr _, d') \<Rightarrow> length (pk_encrypted_keys pending) = length node_ids \<and>
        map (\<lambda>node. result_of (spark_leaf_key_override node) d') node_ids =
          map (Inr \<circ> Some) (pk_encrypted_keys pending) \<and>
        (\<forall>s\<in>set (split_operations d'). sp_operation_id s = operation_id \<longrightarrow> sp_child_node_ids s = node_ids) \<and>
        (\<forall>k\<in>set (pending_keys d'). pk_operation_id k \<noteq> operation_id)"
proof (cases "bind_pending_spark_split_keys operation_id node_ids d")
  case (Pair r d')
  show ?thesis
  proof (cases r)
    case (Inl e)
    then show ?thesis
      using Pair by (auto simp: bind_pending_spark_split_keys_def throw_def dest: transaction_error_rolls_back split: if_splits)
  next
    case (Inr u)
    let ?keys = "pk_encrypted_keys pending"
    obtain d1 where d1: "for_each (zip node_ids ?keys) (put_leaf_key operation_id) d = (Inr (), d1)"
        "pending_keys d1 = pending_keys d"
        "distinct (map fst (zip node_ids ?keys)) \<longrightarrow> (\<forall>node. result_of (spark_leaf_key_override node) d1 =
          (case map_of (zip node_ids ?keys) node of Some k \<Rightarrow> Inr (Some k)
             | None \<Rightarrow> result_of (spark_leaf_key_override node) d))"
      using for_each_puts by blast
    let ?p = "\<lambda>s. sp_operation_id s = operation_id"
    have len: "length ?keys = length node_ids" and d': "d' = d1\<lparr>
        split_operations := update_rows ?p (\<lambda>s. s\<lparr>sp_child_node_ids := node_ids, sp_last_error := None\<rparr>) (split_operations d1),
        pending_keys := filter (\<lambda>k. pk_operation_id k \<noteq> operation_id) (pending_keys d1)\<rparr>"
      using Pair Inr assms(1) d1(1)
      by (auto simp: bind_pending_spark_split_keys_def transaction_Inr query_row_def query_optional_def action_defs
          update_where_def delete_where_def void_def ok_or_def split: if_splits option.splits)
    have same: "result_of (spark_leaf_key_override node) d' = result_of (spark_leaf_key_override node) d1" for node
      by (simp add: d' spark_leaf_key_override_def action_defs query_optional_def)
    have keyed: "result_of (spark_leaf_key_override node) d1 =
        (case map_of (zip node_ids ?keys) node of Some k \<Rightarrow> Inr (Some k)
           | None \<Rightarrow> result_of (spark_leaf_key_override node) d)" for node
      using d1(3) assms(2) len by simp
    have "result_of (spark_leaf_key_override (node_ids ! i)) d' = Inr (Some (?keys ! i))"
      if "i < length node_ids" for i
    proof -
      have m: "map_of (zip node_ids ?keys) (node_ids ! i) = Some (?keys ! i)"
        using len assms(2) that by (simp add: map_of_zip_nth)
      show ?thesis by (simp only: same keyed m option.case)
    qed
    then have "map (\<lambda>node. result_of (spark_leaf_key_override node) d') node_ids = map (Inr \<circ> Some) ?keys"
      using len by (intro nth_equalityI) simp_all
    moreover have "\<forall>s\<in>set (split_operations d'). sp_operation_id s = operation_id \<longrightarrow> sp_child_node_ids s = node_ids"
      by (simp add: d') (rule updated_all, simp)
    moreover have "\<forall>k\<in>set (pending_keys d'). pk_operation_id k \<noteq> operation_id"
      by (simp add: d')
    ultimately show ?thesis
      using len by (simp only: Pair Inr prod.case sum.case simp_thms)
  qed
qed

lemma bind_keys_complete_witness:
  "case bind_pending_spark_split_keys ''op'' [''a'', ''b''] example_put_db of
      (Inl e, d') \<Rightarrow> d' = example_put_db
    | (Inr _, d') \<Rightarrow> length [[1], [2 :: 8 word]] = length [''a'', ''b''] \<and>
        map (\<lambda>node. result_of (spark_leaf_key_override node) d') [''a'', ''b''] = map (Inr \<circ> Some) [[1], [2]] \<and>
        (\<forall>s\<in>set (split_operations d'). sp_operation_id s = ''op'' \<longrightarrow> sp_child_node_ids s = [''a'', ''b'']) \<and>
        (\<forall>k\<in>set (pending_keys d'). pk_operation_id k \<noteq> ''op'')"
proof -
  have "first_row (\<lambda>k. pk_operation_id k = ''op'') (pending_keys example_put_db) =
      Some \<lparr>pk_operation_id = ''op'', pk_parent_node_id = ''parent'', pk_encrypted_keys = [[1], [2]]\<rparr>"
    by code_simp
  moreover have "distinct [''a'', ''b'']" by simp
  ultimately show ?thesis
    by (rule bind_keys_complete [where pending = "\<lparr>pk_operation_id = ''op'', pk_parent_node_id = ''parent'',
          pk_encrypted_keys = [[1], [2]]\<rparr>", unfolded pending_keys_row.select_convs])
qed

end
