(* ===== verification/Liquidity.thy ===== *)
theory Liquidity
  imports Prelude "HOL-Library.Multiset" "HOL-Library.Product_Lexorder"
begin

text \<open>
  Leaf liquidity planning of src/src/spark.rs: the just-in-time split that makes an exact
  amount payable, and the denomination split behind swaps. Leaves are any type with a value
  (\<open>LeafLike\<close>). The theorems say that a plan conserves value without wrapping, uses each
  leaf at most once, honours the minimum child, and is the best by the code's score.
\<close>

section \<open>Just-in-time splits\<close>

record 'l just_in_time_split =
  jit_selected :: "'l list"
  jit_parent :: 'l
  jit_needed_sats :: u64
  jit_change_sats :: u64

definition sort_descending :: "('l \<Rightarrow> u64) \<Rightarrow> 'l list \<Rightarrow> 'l list" where
  "sort_descending v = sort_key (\<lambda>l. - int (unat (v l)))"

text \<open>The greedy loop over the candidates: overflow and overshoot skip a leaf.\<close>

fun pick_existing :: "('l \<Rightarrow> u64) \<Rightarrow> u64 \<Rightarrow> 'l list \<Rightarrow> 'l list \<times> u64 \<Rightarrow> 'l list \<times> u64" where
  "pick_existing v maximum [] acc = acc"
| "pick_existing v maximum (c # cs) (selected, sats) =
     (case checked_add sats (v c) of
        None \<Rightarrow> pick_existing v maximum cs (selected, sats)
      | Some n \<Rightarrow> if n \<le> maximum then pick_existing v maximum cs (selected @ [c], n)
                  else pick_existing v maximum cs (selected, sats))"

text \<open>The body of the loop over parents, for the parent at an index.\<close>

definition split_at_parent :: "('l \<Rightarrow> u64) \<Rightarrow> u64 \<Rightarrow> u64 \<Rightarrow> 'l list \<Rightarrow> nat \<Rightarrow> 'l just_in_time_split option" where
  "split_at_parent v target minimum leaves i =
     (let parent = leaves ! i;
          candidates = sort_descending v (take i leaves @ drop (Suc i) leaves);
          (selected, selected_sats) = pick_existing v (saturating_sub target minimum) candidates ([], 0);
          needed = target - selected_sats
      in case checked_sub (v parent) needed of
           None \<Rightarrow> None
         | Some change \<Rightarrow>
             if needed < minimum \<or> change < minimum then None
             else Some \<lparr>jit_selected = selected, jit_parent = parent,
                        jit_needed_sats = needed, jit_change_sats = change\<rparr>)"

text \<open>The score is a tuple, compared lexicographically (theory Product_Lexorder).\<close>

definition score :: "('l \<Rightarrow> u64) \<Rightarrow> 'l just_in_time_split \<Rightarrow> u64 \<times> nat \<times> u64" where
  "score v p = (jit_change_sats p, length (jit_selected p), v (jit_parent p))"

definition score_less :: "('l \<Rightarrow> u64) \<Rightarrow> 'l just_in_time_split \<Rightarrow> 'l just_in_time_split \<Rightarrow> bool" where
  "score_less v a b \<longleftrightarrow> score v a < score v b"

definition better_split :: "('l \<Rightarrow> u64) \<Rightarrow> 'l just_in_time_split option \<Rightarrow> 'l just_in_time_split option \<Rightarrow> 'l just_in_time_split option" where
  "better_split v best plan = (case plan of None \<Rightarrow> best
     | Some p \<Rightarrow> (case best of None \<Rightarrow> Some p | Some b \<Rightarrow> if score_less v p b then Some p else Some b))"

definition plan_just_in_time_split :: "('l \<Rightarrow> u64) \<Rightarrow> 'l list \<Rightarrow> u64 \<Rightarrow> u64 \<Rightarrow> 'l just_in_time_split option" where
  "plan_just_in_time_split v leaves target minimum =
     (if target = 0 \<or> minimum = 0 then None
      else fold (\<lambda>i best. better_split v best (split_at_parent v target minimum leaves i)) [0..<length leaves] None)"

section \<open>Denomination splits\<close>

text \<open>\<open>position\<close> and \<open>remove\<close>.\<close>

fun take_denomination :: "('l \<Rightarrow> u64) \<Rightarrow> u64 \<Rightarrow> 'l list \<Rightarrow> 'l list option" where
  "take_denomination v n [] = None"
| "take_denomination v n (l # ls) = (if v l = n then Some ls else map_option ((#) l) (take_denomination v n ls))"

fun first_missing :: "('l \<Rightarrow> u64) \<Rightarrow> u64 list \<Rightarrow> 'l list \<Rightarrow> (u64 \<times> 'l list) option" where
  "first_missing v [] remaining = None"
| "first_missing v (n # ns) remaining = (case take_denomination v n remaining of
     Some rest \<Rightarrow> first_missing v ns rest | None \<Rightarrow> Some (n, remaining))"

text \<open>\<open>min_by_key\<close> on the pair: the first least element.\<close>

fun least_split :: "('l \<Rightarrow> u64) \<Rightarrow> ('l \<times> u64 \<times> u64) list \<Rightarrow> ('l \<times> u64 \<times> u64) option" where
  "least_split v [] = None"
| "least_split v (x # xs) = (case least_split v xs of
     None \<Rightarrow> Some x
   | Some y \<Rightarrow> (case (x, y) of ((p, _, c), (q, _, e)) \<Rightarrow>
       if e < c \<or> (e = c \<and> v q < v p) then Some y else Some x))"

definition split_candidates :: "('l \<Rightarrow> u64) \<Rightarrow> u64 \<Rightarrow> u64 \<Rightarrow> 'l list \<Rightarrow> ('l \<times> u64 \<times> u64) list" where
  "split_candidates v missing minimum leaves = List.map_filter (\<lambda>parent.
     case checked_sub (v parent) missing of
       None \<Rightarrow> None
     | Some change \<Rightarrow> if change \<ge> minimum then Some (parent, missing, change) else None) leaves"

definition plan_denomination_split :: "('l \<Rightarrow> u64) \<Rightarrow> 'l list \<Rightarrow> u64 list \<Rightarrow> u64 \<Rightarrow> ('l \<times> u64 \<times> u64) option" where
  "plan_denomination_split v leaves denominations minimum =
     (if denominations = [] \<or> 0 \<in> set denominations \<or> minimum = 0 then None
      else case first_missing v denominations leaves of
        None \<Rightarrow> None
      | Some (missing, remaining) \<Rightarrow>
          if missing < minimum then None else least_split v (split_candidates v missing minimum remaining))"

section \<open>Correctness\<close>

definition total :: "('l \<Rightarrow> u64) \<Rightarrow> 'l list \<Rightarrow> nat" where
  "total v ls = (\<Sum>l\<leftarrow>ls. unat (v l))"

lemma total_simps [simp]: "total v [] = 0" "total v (l # ls) = unat (v l) + total v ls"
    "total v (xs @ ys) = total v xs + total v ys"
  by (simp_all add: total_def)

text \<open>The greedy loop keeps the exact sum of what it selected, below the maximum.\<close>

lemma pick_existing_sound:
  assumes "pick_existing v maximum cs (selected, sats) = (selected', sats')"
    "unat sats = total v selected" "sats \<le> maximum"
  shows "unat sats' = total v selected' \<and> sats' \<le> maximum \<and> mset selected' \<subseteq># mset selected + mset cs"
  using assms
proof (induction cs arbitrary: selected sats)
  case (Cons c cs)
  show ?case
  proof (cases "\<exists>n. checked_add sats (v c) = Some n \<and> n \<le> maximum")
    case True
    then obtain n where n: "checked_add sats (v c) = Some n" "n \<le> maximum" by blast
    then show ?thesis
      using Cons.prems Cons.IH [of "selected @ [c]" n] unat_checked_add [OF n(1)]
      by (simp add: union_assoc)
  next
    case False
    then have "pick_existing v maximum (c # cs) (selected, sats) = pick_existing v maximum cs (selected, sats)"
      by (auto split: option.splits)
    then show ?thesis
      using Cons.prems Cons.IH [of selected sats] by (auto intro: subset_mset.order_trans)
  qed
qed auto

text \<open>What a plan promises: exact value on both sides, distinct leaves, both children standalone.\<close>

definition valid_split :: "('l \<Rightarrow> u64) \<Rightarrow> 'l list \<Rightarrow> u64 \<Rightarrow> u64 \<Rightarrow> 'l just_in_time_split \<Rightarrow> bool" where
  "valid_split v leaves target minimum p \<longleftrightarrow>
     total v (jit_selected p) + unat (jit_needed_sats p) = unat target \<and>
     unat (jit_needed_sats p) + unat (jit_change_sats p) = unat (v (jit_parent p)) \<and>
     minimum \<le> jit_needed_sats p \<and> minimum \<le> jit_change_sats p \<and>
     mset (jit_parent p # jit_selected p) \<subseteq># mset leaves"

lemma split_at_parent_valid:
  assumes "split_at_parent v target minimum leaves i = Some p" "i < length leaves"
  shows "valid_split v leaves target minimum p"
proof -
  let ?rest = "take i leaves @ drop (Suc i) leaves"
  obtain selected sats where pick:
    "pick_existing v (saturating_sub target minimum) (sort_descending v ?rest) ([], 0) = (selected, sats)"
    by fastforce
  have sel: "unat sats = total v selected" "sats \<le> saturating_sub target minimum" "mset selected \<subseteq># mset ?rest"
    using pick_existing_sound [OF pick] by (auto simp: sort_descending_def)
  have le: "sats \<le> target"
    using sel(2) by (auto simp: word_le_nat_alt unat_saturating_sub)
  have p: "p = \<lparr>jit_selected = selected, jit_parent = leaves ! i, jit_needed_sats = target - sats,
      jit_change_sats = v (leaves ! i) - (target - sats)\<rparr>"
    and bounds: "target - sats \<le> v (leaves ! i)" "minimum \<le> target - sats" "minimum \<le> v (leaves ! i) - (target - sats)"
    using assms(1) by (auto simp: split_at_parent_def pick Let_def checked_sub_Some split: option.splits if_splits)
  have "leaves = take i leaves @ leaves ! i # drop (Suc i) leaves"
    using assms(2) by (rule id_take_nth_drop)
  then have "mset leaves = add_mset (leaves ! i) (mset ?rest)"
    by (metis mset_append mset.simps(2) union_mset_add_mset_right)
  then show ?thesis
    using sel le bounds by (simp add: valid_split_def p unat_sub word_le_nat_alt)
qed

lemma score_less_trans: "score_less v a b \<Longrightarrow> score_less v b c \<Longrightarrow> score_less v a c"
  unfolding score_less_def by (rule less_trans)

lemma score_less_split: "score_less v a c \<Longrightarrow> score_less v a b \<or> score_less v b c"
  unfolding score_less_def by (meson le_less_trans not_le)

lemma score_less_irrefl [simp]: "\<not> score_less v a a"
  by (simp add: score_less_def)

text \<open>The running best is one of the plans, and no plan scores below it.\<close>

lemma better_split_Some:
  assumes "better_split v best plan = Some b"
  shows "best = Some b \<or> plan = Some b"
    and "plan = Some q \<Longrightarrow> \<not> score_less v q b"
    and "best = Some q \<Longrightarrow> \<not> score_less v q b"
  using assms score_less_trans [of v q b q]
  by (auto simp: better_split_def split: option.splits if_splits)

lemma better_split_None: "better_split v best plan = None \<longleftrightarrow> best = None \<and> plan = None"
  by (auto simp: better_split_def split: option.splits)

lemma fold_better_None:
  "fold (\<lambda>i best. better_split v best (f i)) idxs best = None \<longleftrightarrow> best = None \<and> (\<forall>i\<in>set idxs. f i = None)"
  by (induction idxs arbitrary: best) (auto simp: better_split_None)

lemma fold_better:
  assumes "fold (\<lambda>i best. better_split v best (f i)) idxs best = Some p"
  shows "(best = Some p \<or> (\<exists>i\<in>set idxs. f i = Some p)) \<and>
    (\<forall>i\<in>set idxs. \<forall>q. f i = Some q \<longrightarrow> \<not> score_less v q p) \<and> (\<forall>q. best = Some q \<longrightarrow> \<not> score_less v q p)"
  using assms
proof (induction idxs arbitrary: best)
  case (Cons i idxs)
  let ?best = "better_split v best (f i)"
  have IH: "(?best = Some p \<or> (\<exists>i\<in>set idxs. f i = Some p))"
      "\<forall>i\<in>set idxs. \<forall>q. f i = Some q \<longrightarrow> \<not> score_less v q p" "\<forall>q. ?best = Some q \<longrightarrow> \<not> score_less v q p"
    using Cons.IH [of ?best] Cons.prems by simp_all
  have below: "\<not> score_less v q p" if "best = Some q \<or> f i = Some q" for q
  proof (cases ?best)
    case None
    then show ?thesis using that by (auto simp: better_split_None)
  next
    case (Some b)
    then have "\<not> score_less v q b" using that better_split_Some [OF Some] by blast
    moreover have "\<not> score_less v b p" using IH(3) Some by blast
    ultimately show ?thesis using score_less_split by blast
  qed
  then show ?case
    using IH better_split_Some(1) [of v best "f i" p] by auto
qed auto

text \<open>C39. A just-in-time split is sound and best: the leaves it spends plus the needed child pay
  exactly the target, the two children add up to the parent without overflow, both reach the
  minimum, no leaf is used twice, and no other parent gives a better score (less change, fewer
  leaves, smaller parent).\<close>

theorem just_in_time_split_sound:
  assumes "plan_just_in_time_split v leaves target minimum = Some p"
  shows "valid_split v leaves target minimum p \<and>
    (\<forall>i<length leaves. \<forall>q. split_at_parent v target minimum leaves i = Some q \<longrightarrow> \<not> score_less v q p)"
proof -
  have "fold (\<lambda>i best. better_split v best (split_at_parent v target minimum leaves i)) [0..<length leaves] None = Some p"
    using assms by (auto simp: plan_just_in_time_split_def split: if_splits)
  from fold_better [OF this] show ?thesis
    using split_at_parent_valid by fastforce
qed

lemma just_in_time_split_sound_witness:
  "valid_split (\<lambda>n. n) [4, 16, 64 :: u64] 10 2 \<lparr>jit_selected = [4], jit_parent = 16, jit_needed_sats = 6, jit_change_sats = 10\<rparr>"
  by (rule just_in_time_split_sound [THEN conjunct1]) (simp add: plan_just_in_time_split_def split_at_parent_def
      sort_descending_def better_split_def checked_add_def checked_sub_def saturating_sub_def score_less_def score_def upt_rec)

text \<open>C40. The planner finds a split whenever one leaf alone could fund it: with a positive
  minimum, a target of at least the minimum and a leaf worth the target plus the minimum, it
  never answers that no split exists.\<close>

theorem just_in_time_split_found:
  assumes "0 < minimum" "minimum \<le> target" "l \<in> set leaves" "unat target + unat minimum \<le> unat (v l)"
  shows "plan_just_in_time_split v leaves target minimum \<noteq> None"
proof -
  obtain i where i: "i < length leaves" "leaves ! i = l"
    using assms(3) by (auto simp: in_set_conv_nth)
  obtain selected sats where pick: "pick_existing v (saturating_sub target minimum)
      (sort_descending v (take i leaves @ drop (Suc i) leaves)) ([], 0) = (selected, sats)"
    by fastforce
  have le: "unat sats \<le> unat target - unat minimum"
    using pick_existing_sound [OF pick] by (simp add: word_le_nat_alt unat_saturating_sub)
  have "unat minimum \<le> unat target" using assms(2) by (simp add: word_le_nat_alt)
  with le have needed: "unat (target - sats) = unat target - unat sats"
    by (intro unat_sub) (simp add: word_le_nat_alt)
  with le assms(4) have change: "unat (v l - (target - sats)) = unat (v l) - (unat target - unat sats)"
    by (subst unat_sub) (simp_all add: word_le_nat_alt)
  have "split_at_parent v target minimum leaves i \<noteq> None"
    using le needed change assms(4) \<open>unat minimum \<le> unat target\<close>
    by (auto simp: split_at_parent_def pick i checked_sub_def word_le_nat_alt word_less_nat_alt Let_def)
  moreover have "target \<noteq> 0" "minimum \<noteq> 0" using assms(1,2) by auto
  ultimately show ?thesis
    using i(1) by (auto simp: plan_just_in_time_split_def fold_better_None)
qed

lemma just_in_time_split_found_witness:
  "plan_just_in_time_split (\<lambda>n. n) [4, 16, 64 :: u64] 10 2 \<noteq> None"
  by (rule just_in_time_split_found [where l = 64]) simp_all

lemma take_denomination_mset:
  "take_denomination v n ls = Some rest \<Longrightarrow> \<exists>l. v l = n \<and> mset ls = add_mset l (mset rest)"
  by (induction ls arbitrary: rest) (auto split: if_splits)

lemma take_denomination_None: "take_denomination v n ls = None \<longleftrightarrow> n \<notin> v ` set ls"
  by (induction ls) auto

lemma first_missing_sound:
  "first_missing v ns ls = Some (n, remaining) \<Longrightarrow> n \<in> set ns \<and> mset remaining \<subseteq># mset ls \<and> n \<notin> v ` set remaining"
proof (induction ns arbitrary: ls)
  case (Cons a ns)
  show ?case
  proof (cases "take_denomination v a ls")
    case None
    then show ?thesis using Cons.prems take_denomination_None by force
  next
    case (Some rest)
    then have "mset rest \<subseteq># mset ls"
      using take_denomination_mset by fastforce
    then show ?thesis
      using Cons Some by (auto intro: subset_mset.order_trans)
  qed
qed simp

lemma least_split_sound:
  "least_split v xs = Some (p, m, c) \<Longrightarrow> (p, m, c) \<in> set xs \<and> (\<forall>(q, k, e)\<in>set xs. c \<le> e)"
proof (induction xs arbitrary: p m c)
  case (Cons x xs)
  obtain q k e where x: "x = (q, k, e)" by (cases x)
  show ?case
  proof (cases "least_split v xs")
    case None
    then have "xs = []" by (cases xs) (auto split: option.splits prod.splits if_splits)
    then show ?thesis using Cons.prems by simp
  next
    case (Some y)
    then show ?thesis
      using Cons.prems Cons.IH x by (cases y) (fastforce split: if_splits)
  qed
qed simp

text \<open>A denomination split makes a missing denomination: the parent is an unreserved leaf,
  the child is a requested denomination no unreserved leaf has, the two children add up to the
  parent exactly and reach the minimum, and no other parent leaves less change.\<close>

theorem denomination_split_sound:
  assumes "plan_denomination_split v leaves denominations minimum = Some (parent, needed, change)"
  shows "parent \<in> set leaves \<and> needed \<in> set denominations \<and>
    unat needed + unat change = unat (v parent) \<and> minimum \<le> needed \<and> minimum \<le> change \<and>
    (\<exists>remaining. mset remaining \<subseteq># mset leaves \<and> parent \<in> set remaining \<and> needed \<notin> v ` set remaining \<and>
      (\<forall>q\<in>set remaining. unat needed + unat minimum \<le> unat (v q) \<longrightarrow> change \<le> v q - needed))"
proof -
  obtain n remaining where m: "first_missing v denominations leaves = Some (n, remaining)"
    and min: "minimum \<le> n"
    and least': "least_split v (split_candidates v n minimum remaining) = Some (parent, needed, change)"
    using assms by (auto simp: plan_denomination_split_def split: if_splits option.splits)
  have "(parent, needed, change) \<in> set (split_candidates v n minimum remaining)"
    using least_split_sound [OF least'] by blast
  then have n: "n = needed"
    by (auto simp: split_candidates_def map_filter_def split: option.splits if_splits)
  note m = m [unfolded n] and least = least' [unfolded n] and min = min [unfolded n]
  note missing = first_missing_sound [OF m]
  have cand: "(parent, needed, change) \<in> set (split_candidates v needed minimum remaining)"
    using least_split_sound [OF least] by blast
  then have parent: "parent \<in> set remaining" "checked_sub (v parent) needed = Some change" "minimum \<le> change"
    by (auto simp: split_candidates_def map_filter_def split: option.splits if_splits)
  have "change \<le> v q - needed" if "q \<in> set remaining" "unat needed + unat minimum \<le> unat (v q)" for q
  proof -
    have "checked_sub (v q) needed = Some (v q - needed)" "minimum \<le> v q - needed"
      using that(2) by (auto simp: checked_sub_def word_le_nat_alt unat_sub)
    then have "(q, needed, v q - needed) \<in> set (split_candidates v needed minimum remaining)"
      using that(1) by (force simp: split_candidates_def map_filter_def)
    then show ?thesis using least_split_sound [OF least] by blast
  qed
  moreover have "parent \<in> set leaves"
    using parent(1) missing mset_subset_eqD by (metis in_multiset_in_set)
  ultimately show ?thesis
    using missing parent min unat_checked_sub [OF parent(2)] by auto
qed

lemma denomination_split_sound_witness:
  "(16 :: u64) \<in> set [4, 16, 64] \<and> (8 :: u64) \<in> set [4, 8] \<and> unat (8 :: u64) + unat (8 :: u64) = unat (16 :: u64) \<and>
    (2 :: u64) \<le> 8 \<and> (2 :: u64) \<le> 8 \<and>
    (\<exists>remaining. mset remaining \<subseteq># mset [4, 16, 64 :: u64] \<and> 16 \<in> set remaining \<and> 8 \<notin> (\<lambda>n. n) ` set remaining \<and>
      (\<forall>q\<in>set remaining. unat (8 :: u64) + unat (2 :: u64) \<le> unat q \<longrightarrow> 8 \<le> q - 8))"
  by (rule denomination_split_sound [where v = "\<lambda>n. n"]) code_simp

end
