(* ===== verification/Transfers.thy ===== *)
theory Transfers
  imports Schema
begin

text \<open>
  Spark transfers as the code checks them before it pays: the validators of src/src/spark.rs
  for send funding, receive swaps, swap primaries, plain transfers and cooperative
  withdrawals, the CLTV bound, and the deterministic transfer ids. The Spark SDK's parsers,
  key and script constructions and hashes are arguments; a key or txid is its text.
\<close>

section \<open>Data\<close>

text \<open>The statuses the code names; \<open>OtherStatus\<close> stands for the SDK's remaining ones.\<close>

datatype transfer_status =
    SenderInitiated | SenderInitiatedCoordinator | SenderKeyTweakPending | SenderKeyTweaked
  | ReceiverKeyTweaked | ReceiverKeyTweakLocked | ReceiverKeyTweakApplied | ReceiverRefundSigned
  | Completed | Expired | Returned | OtherStatus

datatype transfer_type = PreimageSwap | CooperativeExit | PlainTransfer | OtherType

record outpoint =
  op_txid :: string
  op_vout :: u32

record tx_in =
  ti_previous_output :: outpoint
  ti_sequence :: u32

record tx_out =
  to_value :: u64
  to_script :: string

record tx =
  tx_inputs :: "tx_in list"
  tx_outputs :: "tx_out list"

record transfer_leaf =
  tl_id :: string
  tl_value :: u64
  tl_refund_tx :: "tx option"
  tl_intermediate_refund :: tx
  tl_direct_refund :: "tx option"
  tl_direct_from_cpfp_refund :: "tx option"

record spark_transfer =
  st_id :: string
  st_sender :: string
  st_receiver :: string
  st_total_value :: u64
  st_status :: transfer_status
  st_type :: transfer_type
  st_leaves :: "transfer_leaf list"
  st_expiry :: "u64 option"

text \<open>\<open>for x in xs { check(x)?; }\<close>.\<close>

fun check_all :: "('a \<Rightarrow> unit result) \<Rightarrow> 'a list \<Rightarrow> unit result" where
  "check_all f [] = Inr ()"
| "check_all f (x # xs) = (case f x of Inl e \<Rightarrow> Inl e | Inr _ \<Rightarrow> check_all f xs)"

lemma check_all_Inr: "check_all f xs = Inr u \<longleftrightarrow> (\<forall>x\<in>set xs. f x = Inr ())"
  by (induction xs) (auto split: sum.split)

definition refunds_of :: "transfer_leaf \<Rightarrow> tx list" where
  "refunds_of leaf = tl_intermediate_refund leaf #
     (case tl_direct_refund leaf of None \<Rightarrow> [] | Some t \<Rightarrow> [t]) @
     (case tl_direct_from_cpfp_refund leaf of None \<Rightarrow> [] | Some t \<Rightarrow> [t])"

text \<open>\<open>try_fold(0u64, checked_add)\<close>.\<close>

fun checked_sum :: "u64 \<Rightarrow> u64 list \<Rightarrow> u64 option" where
  "checked_sum acc [] = Some acc"
| "checked_sum acc (n # ns) = (case checked_add acc n of None \<Rightarrow> None | Some s \<Rightarrow> checked_sum s ns)"

lemma checked_sum_exact: "checked_sum acc ns = Some s \<Longrightarrow> unat s = unat acc + (\<Sum>n\<leftarrow>ns. unat n)"
  by (induction ns arbitrary: acc) (auto dest: unat_checked_add split: option.splits)

lemma checked_sum_overflow: "checked_sum acc ns = None \<longleftrightarrow> unat acc + (\<Sum>n\<leftarrow>ns. unat n) \<ge> 2 ^ 64"
proof (induction ns arbitrary: acc)
  case Nil
  have "unat acc < 2 ^ LENGTH(64)" by (rule unsigned_less)
  then show ?case by simp
next
  case (Cons n ns)
  show ?case
  proof (cases "checked_add acc n")
    case None
    then show ?thesis by (auto simp: checked_add_def split: if_splits)
  next
    case (Some s)
    then show ?thesis using Cons unat_checked_add [OF Some] by (simp add: add.assoc)
  qed
qed

section \<open>Plain transfers and swap primaries\<close>

text \<open>A leaf of a wallet transfer is its id with its raw intermediate refund transaction.\<close>

record wallet_transfer =
  wt_id :: string
  wt_sender :: string
  wt_receiver :: string
  wt_total :: u64
  wt_status :: transfer_status
  wt_type :: transfer_type
  wt_leaves :: "(string \<times> string) list"
  wt_expiry :: "u64 option"

definition validate_transfer :: "wallet_transfer \<Rightarrow> string \<Rightarrow> string \<Rightarrow> u64 \<Rightarrow> unit result" where
  "validate_transfer transfer sender receiver total_sats =
     (if wt_sender transfer \<noteq> sender then Inl (Failure ''transfer sender does not match'')
      else if wt_receiver transfer \<noteq> receiver then Inl (Failure ''transfer receiver does not match'')
      else if wt_total transfer \<noteq> total_sats then Inl (Failure ''transfer total mismatch'')
      else Inr ())"

definition validate_swap_primary_claimable :: "transfer_status \<Rightarrow> unit result" where
  "validate_swap_primary_claimable status =
     (case status of
        Expired \<Rightarrow> Inl (Failure ''outbound swap transfer can no longer fund a swap'')
      | Returned \<Rightarrow> Inl (Failure ''outbound swap transfer can no longer fund a swap'')
      | _ \<Rightarrow> Inr ())"

definition funding_transfer_committed :: "transfer_status \<Rightarrow> bool" where
  "funding_transfer_committed status \<longleftrightarrow> status \<in>
     {SenderKeyTweaked, ReceiverKeyTweaked, ReceiverKeyTweakLocked, ReceiverKeyTweakApplied,
      ReceiverRefundSigned, Completed}"

section \<open>Lightning receive swaps\<close>

record receive_swap =
  rs_transfer_id :: string
  rs_preimage :: string

definition validate_lightning_receive_swap ::
  "(string \<Rightarrow> string) \<Rightarrow> spark_transfer \<Rightarrow> string \<Rightarrow> string \<Rightarrow> string \<Rightarrow> string \<Rightarrow> string \<Rightarrow> u64 \<Rightarrow> receive_swap result" where
  "validate_lightning_receive_swap hash_of transfer preimage payment_hash transfer_id sender receiver amount =
     (if hash_of preimage \<noteq> payment_hash
      then Inl (Failure ''operator preimage does not match the Lightning payment hash'')
      else if st_id transfer \<noteq> transfer_id \<or> st_sender transfer \<noteq> sender \<or>
        st_receiver transfer \<noteq> receiver \<or> st_type transfer \<noteq> PreimageSwap
      then Inl (Failure ''operator receive swap returned a mismatched transfer'')
      else if st_total_value transfer \<noteq> amount
      then Inl (Failure ''operator receive swap transferred a different amount'')
      else Inr \<lparr>rs_transfer_id = st_id transfer, rs_preimage = preimage\<rparr>)"

section \<open>Lightning send funding\<close>

definition lightning_htlc_timelock_blocks :: nat where "lightning_htlc_timelock_blocks = 2160"
definition min_claimable_refund_timelock :: u32 where "min_claimable_refund_timelock = 200"
definition max_route_cltv_blocks :: u32 where "max_route_cltv_blocks = 1008"

text \<open>Seconds; \<open>SystemTime\<close> is nanoseconds since the epoch.\<close>

definition slow_block_interval :: int where "slow_block_interval = 30 * 60"
definition preimage_reveal_margin :: int where "preimage_reveal_margin = 24 * 60 * 60"
definition nanos :: int where "nanos = 1000000000"

definition refund_timelock_survives_claim :: "tx option \<Rightarrow> bool" where
  "refund_timelock_survives_claim refund = (case refund of
     None \<Rightarrow> False
   | Some t \<Rightarrow> (case tx_inputs t of
       [] \<Rightarrow> False
     | i # _ \<Rightarrow> min_claimable_refund_timelock \<le> and (ti_sequence i) 0xFFFF))"

text \<open>\<open>UNIX_EPOCH.checked_add\<close> fails above the platform's \<open>i64\<close> seconds.\<close>

definition route_cltv_within_expiry :: "u32 \<Rightarrow> u64 option \<Rightarrow> int \<Rightarrow> u32 result" where
  "route_cltv_within_expiry cap expiry_time now =
     (case expiry_time of
        None \<Rightarrow> Inr cap
      | Some secs \<Rightarrow>
          if secs = 0 \<or> uint secs > i64_max then Inr cap
          else
            let lifetime = uint secs * nanos - now;
                usable = lifetime - preimage_reveal_margin * nanos;
                blocks = (if lifetime < 0 \<or> usable < 0 then 0 else usable div nanos div slow_block_interval);
                bounded = min (uint cap) (if blocks < 2 ^ 32 then blocks else 2 ^ 32 - 1)
            in if bounded = 0 then Inl (Failure ''preimage swap transfer expires before a Lightning payment could resolve'')
               else Inr (word_of_int bounded))"

definition validate_funding_leaf :: "string \<Rightarrow> transfer_leaf \<Rightarrow> unit result" where
  "validate_funding_leaf expected leaf =
     and_then (guard (refund_timelock_survives_claim (tl_refund_tx leaf)) ''leaf refund timelock must be renewed'') (\<lambda>_.
     check_all (\<lambda>refund. case tx_outputs refund of
         [] \<Rightarrow> Inl (Failure ''leaf refund has no output'')
       | out # _ \<Rightarrow> guard (to_script out = expected) ''leaf refund does not pay the expected Lightning HTLC'')
       (refunds_of leaf))"

definition validate_lightning_send_transfer ::
  "(string \<Rightarrow> string \<Rightarrow> nat \<Rightarrow> string \<Rightarrow> string result) \<Rightarrow> spark_transfer \<Rightarrow> string \<Rightarrow> string \<Rightarrow> u64 \<Rightarrow> string \<Rightarrow> int
   \<Rightarrow> u32 result" where
  "validate_lightning_send_transfer htlc_script transfer sender receiver amount payment_hash now =
     and_then (guard (st_type transfer = PreimageSwap) ''send funding is not a preimage swap'') (\<lambda>_.
     and_then (guard (st_sender transfer = sender) ''preimage swap sender does not match session owner'') (\<lambda>_.
     and_then (guard (st_receiver transfer = receiver) ''preimage swap receiver does not match the SSP'') (\<lambda>_.
     and_then (guard (st_total_value transfer = amount) ''preimage swap amount mismatch'') (\<lambda>_.
     and_then (guard (st_status transfer \<in> {SenderKeyTweakPending, SenderInitiatedCoordinator})
        ''preimage swap transfer is not waiting on the SSP'') (\<lambda>_.
     and_then (guard (st_leaves transfer \<noteq> []) ''preimage swap transfer has no leaves'') (\<lambda>_.
     and_then (htlc_script payment_hash receiver lightning_htlc_timelock_blocks sender) (\<lambda>expected.
     and_then (check_all (validate_funding_leaf expected) (st_leaves transfer)) (\<lambda>_.
       route_cltv_within_expiry max_route_cltv_blocks (st_expiry transfer) now))))))))"

section \<open>Cooperative withdrawals\<close>

text \<open>One expected leaf: its connector output must be new and bound by every refund.\<close>

definition validate_exit_leaf ::
  "spark_transfer \<Rightarrow> string \<Rightarrow> nat \<Rightarrow> exit_leaf \<Rightarrow> outpoint list \<Rightarrow> outpoint result" where
  "validate_exit_leaf transfer connector_id n expected used_outputs =
     (case filter (\<lambda>l. tl_id l = el_id expected) (st_leaves transfer) of
        [] \<Rightarrow> Inl (Failure ''withdrawal transfer has different leaves'')
      | leaf # rest \<Rightarrow>
          if rest \<noteq> [] \<or> tl_value leaf \<noteq> el_value expected
          then Inl (Failure ''withdrawal transfer has duplicate or changed leaves'')
          else (case tx_inputs (tl_intermediate_refund leaf) of
            _ # i # _ \<Rightarrow>
              (let output = ti_previous_output i in
               if op_txid output \<noteq> connector_id \<or> unat (op_vout output) \<ge> n \<or> output \<in> set used_outputs
               then Inl (Failure ''withdrawal connector outputs must be distinct and cover the leaves'')
               else and_then (check_all (\<lambda>refund. guard
                      (length (tx_inputs refund) = 2 \<and> ti_previous_output (tx_inputs refund ! 1) = output)
                      ''withdrawal refund does not bind the expected connector output'') (refunds_of leaf)) (\<lambda>_.
                    if tl_direct_from_cpfp_refund leaf = None
                    then Inl (Failure ''withdrawal transfer is missing its direct refund'')
                    else Inr output))
          | _ \<Rightarrow> Inl (Failure ''withdrawal refund has no connector input'')))"

fun validate_exit_leaves ::
  "spark_transfer \<Rightarrow> string \<Rightarrow> nat \<Rightarrow> exit_leaf list \<Rightarrow> outpoint list \<Rightarrow> unit result" where
  "validate_exit_leaves transfer connector_id n [] used = Inr ()"
| "validate_exit_leaves transfer connector_id n (e # es) used =
     (case validate_exit_leaf transfer connector_id n e used of
        Inl err \<Rightarrow> Inl err
      | Inr output \<Rightarrow> validate_exit_leaves transfer connector_id n es (used @ [output]))"

definition validate_coop_exit_transfer ::
  "(string \<Rightarrow> string option) \<Rightarrow> (string \<Rightarrow> tx option) \<Rightarrow> (tx \<Rightarrow> string) \<Rightarrow> spark_transfer \<Rightarrow> exit_record \<Rightarrow> string
   \<Rightarrow> unit result" where
  "validate_coop_exit_transfer parse_key decode_tx compute_txid transfer record identity =
     (case parse_key (er_owner record) of
        None \<Rightarrow> Inl (Failure ''invalid owner key'')
      | Some sender \<Rightarrow>
          if st_id transfer \<noteq> er_transfer_id record \<or> st_sender transfer \<noteq> sender \<or>
             st_receiver transfer \<noteq> identity \<or> st_type transfer \<noteq> CooperativeExit
          then Inl (Failure ''withdrawal transfer identity or type mismatch'')
          else if st_status transfer \<noteq> SenderKeyTweakPending
          then Inl (Failure ''withdrawal transfer is not locked'')
          else (case checked_sum 0 (map el_value (er_leaves record)) of
            None \<Rightarrow> Inl (Failure ''withdrawal value overflow'')
          | Some v \<Rightarrow>
              if st_total_value transfer \<noteq> v \<or> length (st_leaves transfer) \<noteq> length (er_leaves record)
              then Inl (Failure ''withdrawal transfer value or leaf count mismatch'')
              else (case decode_tx (er_raw_connector record) of
                None \<Rightarrow> Inl (Failure ''invalid connector transaction'')
              | Some connector \<Rightarrow> validate_exit_leaves transfer (compute_txid connector)
                    (length (er_leaves record)) (er_leaves record) [])))"

section \<open>Deterministic transfer ids\<close>

text \<open>Bytes 6 and 8 get the version 4 and variant bits of a UUID.\<close>

definition deterministic_transfer_id :: "8 word list \<Rightarrow> 8 word list result" where
  "deterministic_transfer_id source =
     (if length source \<noteq> 16 then Inl (Failure ''transfer id source must be 16 bytes'')
      else Inr ((source[6 := or (and (source ! 6) 0x0f) 0x40])[8 := or (and (source ! 8) 0x3f) 0x80]))"

definition payment_transfer_id :: "(string \<Rightarrow> 8 word list option) \<Rightarrow> string \<Rightarrow> 8 word list result" where
  "payment_transfer_id hex_decode payment_hash =
     (case hex_decode payment_hash of
        None \<Rightarrow> Inl (Failure ''invalid hex'')
      | Some bytes \<Rightarrow>
          if length bytes \<noteq> 32 then Inl (Failure ''payment hash must be 32 bytes'')
          else deterministic_transfer_id (take 16 bytes))"

definition counter_transfer_id :: "(string \<Rightarrow> 8 word list) \<Rightarrow> string \<Rightarrow> 8 word list result" where
  "counter_transfer_id sha256 primary_id = deterministic_transfer_id (take 16 (sha256 (''swap-counter:'' @ primary_id)))"

definition split_operation_id :: "(string \<Rightarrow> 8 word list) \<Rightarrow> string \<Rightarrow> 8 word list result" where
  "split_operation_id sha256 parent_id = deterministic_transfer_id (take 16 (sha256 (''leaf-split:'' @ parent_id)))"

section \<open>What a validated transfer guarantees\<close>

text \<open>The CLTV bound keeps a payment inside its funding: with an expiry, an accepted cap is
  positive, at most the given one, and even at the slow block interval plus the reveal margin
  the route resolves before the transfer expires.\<close>

theorem route_cltv_resolves_before_expiry:
  assumes "route_cltv_within_expiry cap (Some secs) now = Inr cltv" "secs \<noteq> 0" "uint secs \<le> i64_max"
  shows "0 < cltv \<and> cltv \<le> cap \<and>
    now + (uint cltv * slow_block_interval + preimage_reveal_margin) * nanos \<le> uint secs * nanos"
proof -
  let ?usable = "uint secs * nanos - now - preimage_reveal_margin * nanos"
  let ?blocks = "if uint secs * nanos - now < 0 \<or> ?usable < 0 then 0 else ?usable div nanos div slow_block_interval"
  let ?bounded = "min (uint cap) (if ?blocks < 2 ^ 32 then ?blocks else 2 ^ 32 - 1)"
  have cltv: "?bounded \<noteq> 0" "cltv = word_of_int ?bounded"
    using assms by (auto simp: route_cltv_within_expiry_def Let_def split: if_splits)
  have nonneg: "0 \<le> ?blocks"
    by (simp add: nanos_def slow_block_interval_def pos_imp_zdiv_nonneg_iff)
  have cap: "0 \<le> uint cap" "uint cap < 2 ^ 32"
    using uint_lt2p [of cap] by simp_all
  have range: "0 \<le> ?bounded" "?bounded < 2 ^ 32" "?bounded \<le> uint cap" "?bounded \<le> ?blocks"
    using nonneg cap by auto
  have u: "uint cltv = ?bounded"
    using range cltv(2) by (simp add: uint_word_of_int_eq take_bit_int_eq_self)
  have pos: "0 < ?bounded" using range(1) cltv(1) by linarith
  then have "0 < ?blocks" using range(4) by linarith
  then have "\<not> (uint secs * nanos - now < 0 \<or> ?usable < 0)" by (auto split: if_splits)
  then have "?bounded \<le> ?usable div nanos div slow_block_interval" "0 \<le> ?usable" using range(4) by auto
  then have "?bounded * slow_block_interval * nanos \<le> ?usable"
    by (simp add: nanos_def slow_block_interval_def)
  moreover have "0 < cltv" using pos u by (simp add: word_less_def)
  moreover have "cltv \<le> cap" using range(3) u by (simp add: word_le_def)
  ultimately show ?thesis
    by (simp add: u algebra_simps)
qed

lemma route_cltv_resolves_before_expiry_witness:
  "0 < (2 :: u32) \<and> (2 :: u32) \<le> 1008 \<and>
   0 + (uint (2 :: u32) * slow_block_interval + preimage_reveal_margin) * nanos \<le> uint (90000 :: u64) * nanos"
  by (rule route_cltv_resolves_before_expiry)
    (simp_all add: route_cltv_within_expiry_def nanos_def slow_block_interval_def preimage_reveal_margin_def i64_max_def)

lemma validate_funding_leaf_Inr:
  "validate_funding_leaf script leaf = Inr u \<longleftrightarrow> refund_timelock_survives_claim (tl_refund_tx leaf) \<and>
    (\<forall>refund\<in>set (refunds_of leaf). tx_outputs refund \<noteq> [] \<and> to_script (hd (tx_outputs refund)) = script)"
proof -
  have "(case tx_outputs refund of [] \<Rightarrow> Inl (Failure ''leaf refund has no output'')
      | out # _ \<Rightarrow> guard (to_script out = script) msg) = Inr () \<longleftrightarrow>
      tx_outputs refund \<noteq> [] \<and> to_script (hd (tx_outputs refund)) = script" for refund msg
    by (cases "tx_outputs refund") simp_all
  note refund = this
  show ?thesis
    by (auto simp: validate_funding_leaf_def and_then_Inr check_all_Inr refund)
qed

text \<open>C35. Funding accepted for a BOLT11 send is collectable: the swap is from the payer to the SSP
  for exactly the amount, still waits on the SSP, has a leaf, and every refund of every leaf
  pays the HTLC script of this payment hash with a timelock the operators still accept.\<close>

theorem send_funding_sound:
  assumes "validate_lightning_send_transfer htlc_script transfer sender receiver amount payment_hash now = Inr cltv"
  shows "st_sender transfer = sender \<and> st_receiver transfer = receiver \<and> st_total_value transfer = amount \<and>
    st_type transfer = PreimageSwap \<and> \<not> funding_transfer_committed (st_status transfer) \<and> st_leaves transfer \<noteq> [] \<and>
    (\<exists>script. htlc_script payment_hash receiver lightning_htlc_timelock_blocks sender = Inr script \<and>
      (\<forall>leaf\<in>set (st_leaves transfer). refund_timelock_survives_claim (tl_refund_tx leaf) \<and>
        (\<forall>refund\<in>set (refunds_of leaf). tx_outputs refund \<noteq> [] \<and> to_script (hd (tx_outputs refund)) = script)))"
proof -
  obtain script where script: "htlc_script payment_hash receiver lightning_htlc_timelock_blocks sender = Inr script"
    and leaves: "check_all (validate_funding_leaf script) (st_leaves transfer) = Inr ()"
    and rest: "st_sender transfer = sender" "st_receiver transfer = receiver" "st_total_value transfer = amount"
      "st_type transfer = PreimageSwap" "st_status transfer \<in> {SenderKeyTweakPending, SenderInitiatedCoordinator}"
      "st_leaves transfer \<noteq> []"
    using assms by (auto simp: validate_lightning_send_transfer_def and_then_Inr)
  show ?thesis
    using script rest leaves by (auto simp: funding_transfer_committed_def check_all_Inr validate_funding_leaf_Inr)
qed

definition example_refund :: tx where
  "example_refund = \<lparr>tx_inputs = [\<lparr>ti_previous_output = \<lparr>op_txid = ''node'', op_vout = 0\<rparr>, ti_sequence = 2000\<rparr>],
     tx_outputs = [\<lparr>to_value = 21, to_script = ''htlc''\<rparr>]\<rparr>"

definition example_funding :: spark_transfer where
  "example_funding = \<lparr>st_id = ''t'', st_sender = ''alice'', st_receiver = ''ssp'', st_total_value = 21,
     st_status = SenderKeyTweakPending, st_type = PreimageSwap,
     st_leaves = [\<lparr>tl_id = ''l'', tl_value = 21, tl_refund_tx = Some example_refund,
       tl_intermediate_refund = example_refund, tl_direct_refund = None, tl_direct_from_cpfp_refund = None\<rparr>],
     st_expiry = None\<rparr>"

lemma example_funding_valid:
  "validate_lightning_send_transfer (\<lambda>_ _ _ _. Inr ''htlc'') example_funding ''alice'' ''ssp'' 21 ''h'' 0 = Inr 1008"
  by (simp add: validate_lightning_send_transfer_def example_funding_def example_refund_def and_then_def guard_def
      validate_funding_leaf_def refunds_of_def refund_timelock_survives_claim_def min_claimable_refund_timelock_def
      route_cltv_within_expiry_def max_route_cltv_blocks_def)

lemma send_funding_sound_witness:
  "st_total_value example_funding = 21 \<and> st_leaves example_funding \<noteq> [] \<and>
   list_all (\<lambda>leaf. list_all (\<lambda>refund. to_script (hd (tx_outputs refund)) = ''htlc'') (refunds_of leaf)) (st_leaves example_funding)"
  using send_funding_sound [OF example_funding_valid] by (simp add: list_all_iff)

text \<open>A receive swap pays exactly what Lightning collected: an accepted operator response has
  the preimage of the invoice's hash and moves exactly the invoice amount from the SSP to the
  wallet under the expected transfer id.\<close>

theorem receive_swap_conserves_value:
  assumes "validate_lightning_receive_swap hash_of transfer preimage payment_hash transfer_id sender receiver amount = Inr swap"
  shows "hash_of (rs_preimage swap) = payment_hash \<and> rs_transfer_id swap = transfer_id \<and>
    st_total_value transfer = amount \<and> st_sender transfer = sender \<and> st_receiver transfer = receiver \<and>
    st_type transfer = PreimageSwap"
  using assms by (auto simp: validate_lightning_receive_swap_def split: if_splits)

lemma receive_swap_conserves_value_witness:
  "(\<lambda>s. ''hash of '' @ s) (rs_preimage \<lparr>rs_transfer_id = ''t'', rs_preimage = ''p''\<rparr>) = ''hash of p'' \<and>
   rs_transfer_id \<lparr>rs_transfer_id = ''t'', rs_preimage = ''p''\<rparr> = ''t'' \<and> st_total_value example_funding = 21 \<and>
   st_sender example_funding = ''alice'' \<and> st_receiver example_funding = ''ssp'' \<and> st_type example_funding = PreimageSwap"
  by (rule receive_swap_conserves_value)
    (simp add: validate_lightning_receive_swap_def example_funding_def)

section \<open>Withdrawal connectors\<close>

lemma validate_exit_leaf_Inr:
  assumes "validate_exit_leaf transfer connector_id n e used = Inr output"
  shows "op_txid output = connector_id \<and> unat (op_vout output) < n \<and> output \<notin> set used \<and>
    (\<exists>leaf. filter (\<lambda>l. tl_id l = el_id e) (st_leaves transfer) = [leaf] \<and> tl_value leaf = el_value e \<and>
      tl_direct_from_cpfp_refund leaf \<noteq> None \<and>
      (\<forall>refund\<in>set (refunds_of leaf). length (tx_inputs refund) = 2 \<and> ti_previous_output (tx_inputs refund ! 1) = output))"
  using assms
  by (auto simp: validate_exit_leaf_def Let_def and_then_Inr check_all_Inr not_le split: list.splits if_splits)

lemma validate_exit_leaves_outputs:
  assumes "validate_exit_leaves transfer connector_id n es used = Inr ()"
  shows "\<exists>outs. length outs = length es \<and> distinct outs \<and> set outs \<inter> set used = {} \<and>
    (\<forall>i<length es. validate_exit_leaf transfer connector_id n (es ! i) (used @ take i outs) = Inr (outs ! i))"
  using assms
proof (induction es arbitrary: used)
  case (Cons e es)
  obtain out where out: "validate_exit_leaf transfer connector_id n e used = Inr out"
      "validate_exit_leaves transfer connector_id n es (used @ [out]) = Inr ()"
    using Cons.prems by (auto split: sum.splits)
  obtain outs where outs: "length outs = length es" "distinct outs" "set outs \<inter> set (used @ [out]) = {}"
      "\<forall>i<length es. validate_exit_leaf transfer connector_id n (es ! i) ((used @ [out]) @ take i outs) = Inr (outs ! i)"
    using Cons.IH [OF out(2)] by blast
  have "\<forall>i<length (e # es). validate_exit_leaf transfer connector_id n ((e # es) ! i) (used @ take i (out # outs)) =
      Inr ((out # outs) ! i)"
    using out(1) outs(4) by (auto simp: less_Suc_eq_0_disj)
  moreover have "out \<notin> set used" using validate_exit_leaf_Inr [OF out(1)] by blast
  ultimately show ?case
    using outs by (intro exI [of _ "out # outs"]) auto
qed simp

text \<open>Outputs of one transaction, as many as they may have indices, use every index.\<close>

lemma outputs_cover:
  fixes outs :: "outpoint list"
  assumes "distinct outs" "\<forall>out\<in>set outs. op_txid out = t \<and> unat (op_vout out) < length outs"
  shows "(unat \<circ> op_vout) ` set outs = {..<length outs}"
proof -
  have "inj_on (unat \<circ> op_vout) (set outs)"
    using assms(2) by (auto intro!: inj_onI outpoint.equality simp: word_unat_eq_iff)
  then have "card ((unat \<circ> op_vout) ` set outs) = length outs"
    using assms(1) card_image distinct_card by metis
  then show ?thesis
    using assms(2) by (intro card_subset_eq) auto
qed

text \<open>An accepted withdrawal transfer is atomic with its payout: it is the owner's locked
  transfer to the SSP of exactly the quoted leaves' total value, each quoted leaf appears with
  its value, and the leaves' refunds spend distinct connector outputs that use up every index
  below the number of leaves, so no leaf can be taken without the exit transaction.\<close>

theorem exit_transfer_sound:
  assumes "validate_coop_exit_transfer parse_key decode_tx compute_txid transfer record identity = Inr ()"
  shows "parse_key (er_owner record) = Some (st_sender transfer) \<and> st_receiver transfer = identity \<and>
    st_status transfer = SenderKeyTweakPending \<and> st_id transfer = er_transfer_id record \<and>
    unat (st_total_value transfer) = (\<Sum>leaf\<leftarrow>er_leaves record. unat (el_value leaf)) \<and>
    (\<exists>connector outs. decode_tx (er_raw_connector record) = Some connector \<and>
      length outs = length (er_leaves record) \<and> distinct outs \<and>
      (unat \<circ> op_vout) ` set outs = {..<length (er_leaves record)} \<and>
      (\<forall>i<length (er_leaves record). op_txid (outs ! i) = compute_txid connector \<and>
        (\<exists>leaf\<in>set (st_leaves transfer). tl_id leaf = el_id (er_leaves record ! i) \<and>
          tl_value leaf = el_value (er_leaves record ! i) \<and>
          (\<forall>refund\<in>set (refunds_of leaf). ti_previous_output (tx_inputs refund ! 1) = outs ! i))))"
proof -
  let ?n = "length (er_leaves record)"
  obtain connector where c: "decode_tx (er_raw_connector record) = Some connector"
      "validate_exit_leaves transfer (compute_txid connector) ?n (er_leaves record) [] = Inr ()"
      "checked_sum 0 (map el_value (er_leaves record)) = Some (st_total_value transfer)"
      "parse_key (er_owner record) = Some (st_sender transfer)" "st_receiver transfer = identity"
      "st_status transfer = SenderKeyTweakPending" "st_id transfer = er_transfer_id record"
    using assms by (auto simp: validate_coop_exit_transfer_def split: option.splits if_splits)
  obtain outs where outs: "length outs = ?n" "distinct outs"
      "\<forall>i<?n. validate_exit_leaf transfer (compute_txid connector) ?n (er_leaves record ! i) ([] @ take i outs) = Inr (outs ! i)"
    using validate_exit_leaves_outputs [OF c(2)] by blast
  have leaf: "op_txid (outs ! i) = compute_txid connector \<and> unat (op_vout (outs ! i)) < ?n \<and>
      (\<exists>leaf\<in>set (st_leaves transfer). tl_id leaf = el_id (er_leaves record ! i) \<and>
          tl_value leaf = el_value (er_leaves record ! i) \<and>
          (\<forall>refund\<in>set (refunds_of leaf). ti_previous_output (tx_inputs refund ! 1) = outs ! i))"
    if "i < ?n" for i
  proof -
    have "validate_exit_leaf transfer (compute_txid connector) ?n (er_leaves record ! i) ([] @ take i outs) = Inr (outs ! i)"
      using outs(3) that by blast
    note v = validate_exit_leaf_Inr [OF this]
    then obtain l where l: "filter (\<lambda>l. tl_id l = el_id (er_leaves record ! i)) (st_leaves transfer) = [l]"
        "tl_value l = el_value (er_leaves record ! i)"
        "\<forall>refund\<in>set (refunds_of l). ti_previous_output (tx_inputs refund ! 1) = outs ! i"
      by blast
    have "l \<in> set (filter (\<lambda>l. tl_id l = el_id (er_leaves record ! i)) (st_leaves transfer))"
      unfolding l(1) by simp
    then have "l \<in> set (st_leaves transfer)" "tl_id l = el_id (er_leaves record ! i)" by simp_all
    then show ?thesis using v l(2,3) by blast
  qed
  then have "\<forall>out\<in>set outs. op_txid out = compute_txid connector \<and> unat (op_vout out) < length outs"
    using outs(1) by (auto simp: in_set_conv_nth)
  from outputs_cover [OF outs(2) this] show ?thesis
    using c outs(1,2) leaf checked_sum_exact [OF c(3)] by (auto simp: comp_def)
qed

definition example_exit_tx :: "u32 \<Rightarrow> tx" where
  "example_exit_tx vout = \<lparr>tx_inputs = [\<lparr>ti_previous_output = \<lparr>op_txid = ''node'', op_vout = 0\<rparr>, ti_sequence = 2000\<rparr>,
     \<lparr>ti_previous_output = \<lparr>op_txid = ''connector'', op_vout = vout\<rparr>, ti_sequence = 0\<rparr>], tx_outputs = []\<rparr>"

definition example_exit_transfer :: spark_transfer where
  "example_exit_transfer = \<lparr>st_id = ''t'', st_sender = ''alice'', st_receiver = ''ssp'', st_total_value = 24,
     st_status = SenderKeyTweakPending, st_type = CooperativeExit,
     st_leaves = [\<lparr>tl_id = ''a'', tl_value = 16, tl_refund_tx = None, tl_intermediate_refund = example_exit_tx 0,
         tl_direct_refund = None, tl_direct_from_cpfp_refund = Some (example_exit_tx 0)\<rparr>,
       \<lparr>tl_id = ''b'', tl_value = 8, tl_refund_tx = None, tl_intermediate_refund = example_exit_tx 1,
         tl_direct_refund = None, tl_direct_from_cpfp_refund = Some (example_exit_tx 1)\<rparr>],
     st_expiry = None\<rparr>"

definition example_exit_record :: exit_record where
  "example_exit_record = \<lparr>er_id = ''x'', er_owner = ''alice'', er_transfer_id = ''t'', er_idempotency_key = ''k'',
     er_fingerprint = ''f'', er_quote = \<lparr>eq_id = ''q'', eq_owner = ''alice'', eq_address = ''bc1'',
       eq_leaves = [\<lparr>el_id = ''a'', el_value = 16\<rparr>, \<lparr>el_id = ''b'', el_value = 8\<rparr>], eq_created_at = 0,
       eq_expires_at = 1, eq_user_fee = 1, eq_rates = [1, 1, 1], eq_fees = [1, 1, 1]\<rparr>,
     er_leaves = [\<lparr>el_id = ''a'', el_value = 16\<rparr>, \<lparr>el_id = ''b'', el_value = 8\<rparr>], er_speed = ''FAST'',
     er_payout_sats = 20, er_fee_sats = 4, er_created_at = 0, er_expires_at = 1, er_raw_exit = '''',
     er_raw_connector = ''connector'', er_signed_exit = None, er_status = ''INITIATED''\<rparr>"

lemma example_exit_valid:
  "validate_coop_exit_transfer Some (\<lambda>_. Some (example_exit_tx 0)) (\<lambda>_. ''connector'')
     example_exit_transfer example_exit_record ''ssp'' = Inr ()"
  by (simp add: validate_coop_exit_transfer_def example_exit_transfer_def example_exit_record_def example_exit_tx_def
      checked_add_def validate_exit_leaf_def refunds_of_def guard_def and_then_def)

lemma exit_transfer_sound_witness:
  "unat (st_total_value example_exit_transfer) = 24 \<and> st_receiver example_exit_transfer = ''ssp'' \<and>
   (\<exists>outs :: outpoint list. length outs = 2 \<and> distinct outs \<and> (unat \<circ> op_vout) ` set outs = {..<2})"
proof -
  have n: "length (er_leaves example_exit_record) = 2" and
    v: "(\<Sum>leaf\<leftarrow>er_leaves example_exit_record. unat (el_value leaf)) = 24"
    by (simp_all add: example_exit_record_def)
  show ?thesis
    using exit_transfer_sound [OF example_exit_valid] unfolding n v by blast
qed

text \<open>Deterministic ids are well formed: whatever 16 bytes they come from, the result has the
  version 4 and variant bits of a UUID and otherwise the source's bits, and any other length is
  refused.\<close>

theorem transfer_id_well_formed:
  "case deterministic_transfer_id source of
     Inl _ \<Rightarrow> length source \<noteq> 16
   | Inr b \<Rightarrow> length source = 16 \<and> length b = 16 \<and> and (b ! 6) 0xf0 = 0x40 \<and> and (b ! 8) 0xc0 = 0x80 \<and>
       and (b ! 6) 0x0f = and (source ! 6) 0x0f \<and> and (b ! 8) 0x3f = and (source ! 8) 0x3f \<and>
       (\<forall>i<16. i \<noteq> 6 \<longrightarrow> i \<noteq> 8 \<longrightarrow> b ! i = source ! i)"
proof -
  have bits: "and (or (and w 0x0f) 0x40) 0xf0 = (0x40 :: 8 word)" "and (or (and w 0x0f) 0x40) 0x0f = and w (0x0f :: 8 word)"
      "and (or (and w 0x3f) 0x80) 0xc0 = (0x80 :: 8 word)" "and (or (and w 0x3f) 0x80) 0x3f = and w (0x3f :: 8 word)" for w :: "8 word"
    by (simp_all add: bit.conj_disj_distrib2 and.assoc)
  show ?thesis
    by (simp add: deterministic_transfer_id_def nth_list_update bits)
qed

lemma transfer_id_well_formed_witness:
  "\<exists>b. deterministic_transfer_id (replicate 16 0xff) = Inr b \<and> length b = 16 \<and> and (b ! 6) 0xf0 = 0x40 \<and>
     and (b ! 8) 0xc0 = 0x80 \<and> b ! 7 = 0xff"
  using transfer_id_well_formed [of "replicate 16 0xff"] by (simp split: sum.splits)

end
