(* ===== verification/Triples.thy ===== *)
theory Triples
  imports Sql
begin

text \<open>
  Hoare triples for actions that may fail: a postcondition for the result and one for an error.
  A handler is verified by following its statements, with a step relation (theory Sql) for the
  stretches that cannot touch what a precondition speaks of.
\<close>

definition triple :: "('s \<Rightarrow> bool) \<Rightarrow> ('s, 'a) action \<Rightarrow> ('a \<Rightarrow> 's \<Rightarrow> bool) \<Rightarrow> ('s \<Rightarrow> bool) \<Rightarrow> bool" where
  "triple P m Q E \<longleftrightarrow> (\<forall>s. P s \<longrightarrow> (case m s of (Inl e, s') \<Rightarrow> E s' | (Inr x, s') \<Rightarrow> Q x s'))"

lemma tripleI:
  assumes "\<And>s x s'. P s \<Longrightarrow> m s = (Inr x, s') \<Longrightarrow> Q x s'" "\<And>s e s'. P s \<Longrightarrow> m s = (Inl e, s') \<Longrightarrow> E s'"
  shows "triple P m Q E"
  using assms by (auto simp: triple_def split: prod.split sum.split)

lemma tripleD: "triple P m Q E \<Longrightarrow> P s \<Longrightarrow> m s = (Inr x, s') \<Longrightarrow> Q x s'"
  by (auto simp: triple_def dest!: spec [where x = s])

lemma tripleE: "triple P m Q E \<Longrightarrow> P s \<Longrightarrow> m s = (Inl e, s') \<Longrightarrow> E s'"
  by (auto simp: triple_def dest!: spec [where x = s])

lemma triple_weaken:
  assumes "triple P' m Q' E'" "\<And>s. P s \<Longrightarrow> P' s" "\<And>x s. Q' x s \<Longrightarrow> Q x s" "\<And>s. E' s \<Longrightarrow> E s"
  shows "triple P m Q E"
  using assms by (fastforce simp: triple_def split: prod.splits sum.splits)

lemma triple_pre: "triple P' m Q E \<Longrightarrow> (\<And>s. P s \<Longrightarrow> P' s) \<Longrightarrow> triple P m Q E"
  by (rule triple_weaken)

text \<open>A fact about the data, not the state, moves out of the precondition.\<close>

lemma triple_fact: "(A \<Longrightarrow> triple P m Q E) \<Longrightarrow> triple (\<lambda>s. A \<and> P s) m Q E"
  by (auto simp: triple_def)

lemma triple_ret: "(\<And>s. P s \<Longrightarrow> Q x s) \<Longrightarrow> triple P (ret x) Q E"
  by (simp add: triple_def ret_def)

lemma triple_throw: "(\<And>s. P s \<Longrightarrow> E s) \<Longrightarrow> triple P (throw e) Q E"
  by (simp add: triple_def throw_def)

lemma triple_lift:
  "(\<And>x s. r = Inr x \<Longrightarrow> P s \<Longrightarrow> Q x s) \<Longrightarrow> (\<And>s. P s \<Longrightarrow> E s) \<Longrightarrow> triple P (lift_result r) Q E"
  by (cases r) (simp_all add: triple_ret triple_throw)

lemma triple_bind:
  assumes "triple P m R E" "\<And>x. triple (R x) (k x) Q E"
  shows "triple P (bind_action m k) Q E"
  unfolding triple_def
proof (intro allI impI)
  fix s
  assume P: "P s"
  obtain r t where m: "m s = (r, t)" by (cases "m s")
  show "case bind_action m k s of (Inl e, s') \<Rightarrow> E s' | (Inr x, s') \<Rightarrow> Q x s'"
  proof (cases r)
    case (Inl e)
    then show ?thesis using tripleE [OF assms(1) P] m by (simp add: bind_action_def)
  next
    case (Inr x)
    then have "R x t" using tripleD [OF assms(1) P] m by simp
    then show ?thesis using assms(2) [of x] m Inr by (simp add: bind_action_def triple_def)
  qed
qed

lemma triple_then: "triple P m (\<lambda>_. R) E \<Longrightarrow> triple R k Q E \<Longrightarrow> triple P (then_action m k) Q E"
  unfolding then_action_def by (rule triple_bind)

lemma triple_void: "triple P m (\<lambda>_. Q) E \<Longrightarrow> triple P (void m) (\<lambda>_. Q) E"
  unfolding void_def by (rule triple_bind, assumption, rule triple_ret)

lemma triple_handle:
  assumes "triple P m R H" "\<And>x. triple (R x) (k x) Q E" "\<And>e. triple H (h e) Q E"
  shows "triple P (handle m k h) Q E"
  unfolding triple_def
proof (intro allI impI)
  fix s
  assume P: "P s"
  show "case handle m k h s of (Inl e, s') \<Rightarrow> E s' | (Inr x, s') \<Rightarrow> Q x s'"
  proof (cases "m s")
    case (Pair r t)
    show ?thesis
    proof (cases r)
      case (Inl e)
      then have "H t" using tripleE [OF assms(1) P] Pair by simp
      then show ?thesis using assms(3) [of e] Pair Inl by (simp add: handle_def triple_def)
    next
      case (Inr x)
      then have "R x t" using tripleD [OF assms(1) P] Pair by simp
      then show ?thesis using assms(2) [of x] Pair Inr by (simp add: handle_def triple_def)
    qed
  qed
qed

lemma triple_transaction:
  assumes "\<And>s. P s \<Longrightarrow> E s" "triple P m Q (\<lambda>_. True)"
  shows "triple P (transaction m) Q E"
  using assms by (fastforce simp: triple_def transaction_def split: prod.splits sum.splits)

lemma triple_if:
  "(b \<Longrightarrow> triple P m Q E) \<Longrightarrow> (\<not> b \<Longrightarrow> triple P k Q E) \<Longrightarrow> triple P (if b then m else k) Q E"
  by simp

lemma triple_case_option:
  "(y = None \<Longrightarrow> triple P m Q E) \<Longrightarrow> (\<And>x. y = Some x \<Longrightarrow> triple P (k x) Q E) \<Longrightarrow>
   triple P (case y of None \<Rightarrow> m | Some x \<Rightarrow> k x) Q E"
  by (simp split: option.split)

text \<open>A stretch that respects a relation keeps every property the relation keeps.\<close>

lemma triple_obeys:
  assumes "obeys R m" "\<And>s s'. P s \<Longrightarrow> R s s' \<Longrightarrow> P s'"
  shows "triple P m (\<lambda>_. P) P"
  using assms by (fastforce simp: triple_def obeys_def split: prod.split sum.split)

abbreviation keeps :: "('s \<Rightarrow> bool) \<Rightarrow> ('s, 'a) action \<Rightarrow> bool" where
  "keeps P m \<equiv> triple P m (\<lambda>_. P) P"

lemma keeps_for_each: "(\<And>x. x \<in> set xs \<Longrightarrow> keeps P (f x)) \<Longrightarrow> keeps P (for_each xs f)"
proof (induction xs)
  case (Cons x xs)
  then show ?case by (auto intro: triple_then)
qed (simp add: triple_ret)

text \<open>A loop whose element preconditions survive the turns of the other elements.\<close>

lemma triple_for_each:
  assumes "\<And>x ys zs. xs = ys @ x # zs \<Longrightarrow>
     triple (\<lambda>s. I s \<and> (\<forall>z\<in>set (x # zs). A z s)) (f x) (\<lambda>_ s. I s \<and> (\<forall>z\<in>set zs. A z s))
       (\<lambda>s. I s)"
  shows "triple (\<lambda>s. I s \<and> (\<forall>z\<in>set xs. A z s)) (for_each xs f) (\<lambda>_. I) I"
  using assms
proof (induction xs)
  case (Cons x xs)
  have "triple (\<lambda>s. I s \<and> (\<forall>z\<in>set xs. A z s)) (for_each xs f) (\<lambda>_. I) I"
  proof (rule Cons.IH)
    fix y ys zs
    assume "xs = ys @ y # zs"
    then show "triple (\<lambda>s. I s \<and> (\<forall>z\<in>set (y # zs). A z s)) (f y) (\<lambda>_ s. I s \<and> (\<forall>z\<in>set zs. A z s)) I"
      using Cons.prems [of "x # ys" y zs] by simp
  qed
  moreover have "triple (\<lambda>s. I s \<and> (\<forall>z\<in>set (x # xs). A z s)) (f x) (\<lambda>_ s. I s \<and> (\<forall>z\<in>set xs. A z s)) I"
    using Cons.prems [of "[]" x xs] by simp
  ultimately show ?case unfolding for_each.simps by (rule triple_then [rotated])
qed (auto intro: triple_ret)

lemmas triple_intros = triple_throw triple_bind triple_then triple_void triple_if triple_case_option

end
