(* ===== verification/World.thy ===== *)
theory World
  imports Schema Triples
begin

text \<open>
  The world a service acts in: the database and the log of the calls it made to other systems.
  What an external system answers is an argument, any function of the calls made so far, so a
  theorem about all answers covers lost replies, delays, duplicates and adversarial answers.
  The interface \<open>backed_calls\<close> states what it takes for a kind of call to be backed by a
  durable record.
\<close>

section \<open>Calls\<close>

record 'c log_world =
  w_db :: db
  w_calls :: "'c list"

definition empty_world :: "'c log_world" where
  "empty_world = \<lparr>w_db = empty_db, w_calls = []\<rparr>"

definition on_db :: "(db, 'a) action \<Rightarrow> ('c log_world, 'a) action" where
  "on_db m = (\<lambda>w. case m (w_db w) of (r, d) \<Rightarrow> (r, w\<lparr>w_db := d\<rparr>))"

text \<open>An external call is logged, then answered from the history.\<close>

definition ask :: "'c \<Rightarrow> ('c list \<Rightarrow> 'a result) \<Rightarrow> ('c log_world, 'a) action" where
  "ask c answer = (\<lambda>w. (answer (w_calls w), w\<lparr>w_calls := w_calls w @ [c]\<rparr>))"

text \<open>A clock reading or a fresh id: a function of the history that leaves no trace.\<close>

definition reading :: "('c list \<Rightarrow> 'a) \<Rightarrow> ('c log_world, 'a) action" where
  "reading f = (\<lambda>w. ret (f (w_calls w)) w)"

lemma on_db_Inr: "on_db m w = (Inr x, w') \<longleftrightarrow> (\<exists>d. m (w_db w) = (Inr x, d) \<and> w' = w\<lparr>w_db := d\<rparr>)"
  by (auto simp: on_db_def split: prod.splits)

lemma ask_Inr: "ask c f w = (Inr x, w') \<longleftrightarrow> f (w_calls w) = Inr x \<and> w' = w\<lparr>w_calls := w_calls w @ [c]\<rparr>"
  by (auto simp: ask_def)

text \<open>\<open>let _ = m\<close>: the outcome is dropped.\<close>

definition ignore :: "('s, 'a) action \<Rightarrow> ('s, unit) action" where
  "ignore m = handle m (\<lambda>_. ret ()) (\<lambda>_. ret ())"

text \<open>\<open>retry_bounded\<close> with n delays makes at most n + 1 attempts and keeps the last error.\<close>

fun retry_bounded :: "nat \<Rightarrow> ('s, 'a) action \<Rightarrow> ('s, 'a) action" where
  "retry_bounded 0 m = m"
| "retry_bounded (Suc n) m = handle m ret (\<lambda>_. retry_bounded n m)"

section \<open>What calls a run makes\<close>

definition calls_only :: "('c \<Rightarrow> bool) \<Rightarrow> 'c log_world \<Rightarrow> 'c log_world \<Rightarrow> bool" where
  "calls_only P w w' \<longleftrightarrow> (\<exists>cs. w_calls w' = w_calls w @ cs \<and> (\<forall>c\<in>set cs. P c))"

definition new_calls :: "('c log_world, 'a) action \<Rightarrow> 'c log_world \<Rightarrow> 'c list" where
  "new_calls m w = drop (length (w_calls w)) (w_calls (state_after m w))"

interpretation calls_only: step_relation "calls_only P" for P
  by unfold_locales (auto simp: calls_only_def)

lemma calls_on_db: "obeys (calls_only P) (on_db m)"
  by (auto simp: obeys_def calls_only_def on_db_def split: prod.split)

lemma calls_ask: "P c \<Longrightarrow> obeys (calls_only P) (ask c answer)"
  by (auto simp: obeys_def calls_only_def ask_def)

context step_relation begin

lemma obeys_retry: "obeys R m \<Longrightarrow> obeys R (retry_bounded n m)"
  by (induction n) (simp_all add: obeys_handle obeys_ret)

lemma obeys_ignore: "obeys R m \<Longrightarrow> obeys R (ignore m)"
  by (simp add: ignore_def obeys_handle obeys_ret)

lemma obeys_case_prod: "(\<And>a b. obeys R (f a b)) \<Longrightarrow> obeys R (case x of (a, b) \<Rightarrow> f a b)"
  by (simp split: prod.split)

end

lemma new_calls_satisfy:
  assumes "obeys (calls_only P) m" "c \<in> set (new_calls m w)"
  shows "P c"
  using assms by (auto simp: obeys_def calls_only_def new_calls_def state_after_def dest!: spec [where x = w])

lemma on_db_calls [simp]: "w_calls (snd (on_db m w)) = w_calls w"
  by (simp add: on_db_def split: prod.split)

text \<open>A call made first is in the log whatever follows.\<close>

lemma asked_first:
  assumes "\<And>x. obeys (calls_only (\<lambda>_. True)) (k x)" "\<And>e. obeys (calls_only (\<lambda>_. True)) (h e)"
    "\<And>y. obeys (calls_only (\<lambda>_. True)) (k2 y)"
  shows "\<exists>cs. w_calls (snd (bind_action (handle (ask c f) k h) k2 w)) = w_calls w @ c # cs"
proof -
  let ?m = "case f (w_calls w) of Inl e \<Rightarrow> h e | Inr x \<Rightarrow> k x"
  let ?w = "w\<lparr>w_calls := w_calls w @ [c]\<rparr>"
  have "bind_action (handle (ask c f) k h) k2 w = bind_action ?m k2 ?w"
    by (simp add: bind_action_def handle_def ask_def split: sum.split)
  moreover have "obeys (calls_only (\<lambda>_. True)) (bind_action ?m k2)"
    using assms by (intro calls_only.obeys_bind) (auto split: sum.split)
  ultimately have "calls_only (\<lambda>_. True) ?w (snd (bind_action (handle (ask c f) k h) k2 w))"
    by (simp add: obeys_def)
  then show ?thesis by (auto simp: calls_only_def)
qed

section \<open>Calls backed by a record\<close>

text \<open>
  The calls of a kind are backed when the run that makes one ends in a database that holds the
  record, whatever happens in between: the database only evolves along \<open>adv\<close>, which keeps the
  record once it is there.
\<close>

locale backed_calls =
  fixes adv :: "db \<Rightarrow> db \<Rightarrow> bool"
    and is_kind :: "'c \<Rightarrow> bool"
    and holds :: "db \<Rightarrow> bool"
  assumes adv_refl: "adv d d"
    and adv_trans: "adv d e \<Longrightarrow> adv e f \<Longrightarrow> adv d f"
    and holds_kept: "adv d e \<Longrightarrow> holds d \<Longrightarrow> holds e"
begin

definition backed :: "'c log_world \<Rightarrow> 'c log_world \<Rightarrow> bool" where
  "backed w w' \<longleftrightarrow> adv (w_db w) (w_db w') \<and>
     (\<exists>cs. w_calls w' = w_calls w @ cs \<and> (list_ex is_kind cs \<longrightarrow> holds (w_db w')))"

lemma backed_refl: "backed w w"
  by (simp add: backed_def adv_refl)

lemma backed_trans:
  assumes "backed u v" "backed v w"
  shows "backed u w"
proof -
  obtain c1 c2 where
    1: "adv (w_db u) (w_db v)" "w_calls v = w_calls u @ c1" "list_ex is_kind c1 \<longrightarrow> holds (w_db v)" and
    2: "adv (w_db v) (w_db w)" "w_calls w = w_calls v @ c2" "list_ex is_kind c2 \<longrightarrow> holds (w_db w)"
    using assms unfolding backed_def by blast
  have "adv (w_db u) (w_db w)" using 1(1) 2(1) by (rule adv_trans)
  moreover have "w_calls w = w_calls u @ (c1 @ c2)" using 1(2) 2(2) by simp
  moreover have "list_ex is_kind (c1 @ c2) \<longrightarrow> holds (w_db w)"
    using 1(3) 2(3) holds_kept [OF 2(1)] by auto
  ultimately show ?thesis unfolding backed_def by blast
qed

text \<open>Sequencing at one state, where the second action may rely on the first one's success.\<close>

lemma backed_bind:
  assumes "backed w (snd (m w))" "\<And>x w1. m w = (Inr x, w1) \<Longrightarrow> backed w1 (snd (k x w1))"
  shows "backed w (snd (bind_action m k w))"
proof (cases "m w")
  case (Pair r w1)
  then show ?thesis
    using assms by (cases r) (auto simp: bind_action_def intro: backed_trans)
qed

lemma backed_on_db: "obeys adv m \<Longrightarrow> obeys backed (on_db m)"
  by (auto simp: obeys_def backed_def on_db_def split: prod.split) (metis snd_conv)

lemma backed_ask: "\<not> is_kind c \<Longrightarrow> obeys backed (ask c answer)"
  by (auto simp: obeys_def backed_def ask_def adv_refl)

text \<open>Once the record is there, every call is backed.\<close>

lemma backed_when_held:
  assumes "holds (w_db w)" "adv (w_db w) (w_db w')" "calls_only (\<lambda>_. True) w w'"
  shows "backed w w'"
  using assms holds_kept [OF assms(2,1)] unfolding backed_def calls_only_def by blast

lemma backed_call:
  assumes "backed w (snd (m w))" "c \<in> set (new_calls m w)" "is_kind c"
  shows "holds (w_db (state_after m w))"
  using assms unfolding backed_def new_calls_def state_after_def list_ex_iff by auto

end

sublocale backed_calls \<subseteq> kept: step_relation backed
  by unfold_locales (rule backed_refl, rule backed_trans)


section \<open>Triples over a world\<close>

lemma triple_on_db:
  assumes "\<And>calls. triple (\<lambda>d. P \<lparr>w_db = d, w_calls = calls\<rparr>) m (\<lambda>x d. Q x \<lparr>w_db = d, w_calls = calls\<rparr>)
     (\<lambda>d. E \<lparr>w_db = d, w_calls = calls\<rparr>)"
  shows "triple P (on_db m) Q E"
  unfolding triple_def
proof (intro allI impI)
  fix w :: "'a log_world"
  assume "P w"
  then show "case on_db m w of (Inl e, s') \<Rightarrow> E s' | (Inr x, s') \<Rightarrow> Q x s'"
    using assms [of "w_calls w"] by (cases w) (auto simp: triple_def on_db_def split: prod.splits sum.splits)
qed

lemma triple_ask:
  assumes "\<And>w x. P w \<Longrightarrow> answer (w_calls w) = Inr x \<Longrightarrow> Q x (w\<lparr>w_calls := w_calls w @ [c]\<rparr>)"
    "\<And>w. P w \<Longrightarrow> E (w\<lparr>w_calls := w_calls w @ [c]\<rparr>)"
  shows "triple P (ask c answer) Q E"
  using assms by (auto simp: triple_def ask_def split: sum.split)

end
