(* ===== verification/Lightning_Backend.thy ===== *)
theory Lightning_Backend
  imports Lightning_Sends
begin

text \<open>
  The pure part of src/src/ldk.rs: what the code reads of an LDK payment, the events it turns
  into settlement events, the check that a backend payment is the one a send intended, the
  preimage check, amounts, networks and the retry and reconnect schedules. Parsers and hashes
  are arguments.
\<close>

section \<open>Payments and events\<close>

text \<open>\<open>PBolt11 hash preimage skimmed\<close> and \<open>PBolt12 offer hash preimage note\<close>; kinds settlement ignores are \<open>POther\<close>.\<close>

datatype payment_kind =
    PBolt11 string "string option" "u64 option"
  | PBolt12 string "string option" "string option" "string option"
  | POther

datatype ldk_status = PaymentPending | PaymentSucceeded | PaymentFailed

record payment =
  p_id :: string
  p_outbound :: bool
  p_amount_msat :: "u64 option"
  p_status :: ldk_status
  p_kind :: "payment_kind option"

record claimable_receive =
  cl_payment_id :: string
  cl_payment_hash :: string
  cl_amount_msat :: "u64 option"

datatype raw_event =
    RawSuccessful "payment option"
  | RawFailed string "string option"
  | RawClaimable string u64 "payment option"
  | RawReceived string "payment option"
  | RawOther

datatype ln_event =
    OutboundSucceeded payment
  | OutboundFailed string "string option"
  | InboundClaimable claimable_receive
  | InboundReceived string string
  | InboundBolt12Received string string "string option" "u64 option"

definition bolt11_hash :: "payment option \<Rightarrow> string option" where
  "bolt11_hash p = (case Option.bind p p_kind of Some (PBolt11 hash _ _) \<Rightarrow> Some hash | _ \<Rightarrow> None)"

definition bolt12_offer_ids :: "payment option \<Rightarrow> (string \<times> string) option" where
  "bolt12_offer_ids p = (case Option.bind p p_kind of
     Some (PBolt12 offer (Some hash) _ _) \<Rightarrow> Some (offer, hash) | _ \<Rightarrow> None)"

definition bolt12_preimage :: "payment option \<Rightarrow> string option" where
  "bolt12_preimage p = (case Option.bind p p_kind of Some (PBolt12 _ _ preimage _) \<Rightarrow> preimage | _ \<Rightarrow> None)"

definition bolt11_claimable_amount :: "payment \<Rightarrow> u64 option" where
  "bolt11_claimable_amount p = (case p_kind p of
     Some (PBolt11 _ _ skimmed) \<Rightarrow> Option.bind (p_amount_msat p)
        (\<lambda>a. checked_sub a (case skimmed of None \<Rightarrow> 0 | Some s \<Rightarrow> s))
   | _ \<Rightarrow> None)"

definition map_envelope :: "raw_event option \<Rightarrow> ln_event list" where
  "map_envelope env = (case env of
     None \<Rightarrow> []
   | Some (RawSuccessful p) \<Rightarrow> (case p of None \<Rightarrow> [] | Some p \<Rightarrow> [OutboundSucceeded p])
   | Some (RawFailed payment_id reason) \<Rightarrow> [OutboundFailed payment_id reason]
   | Some (RawClaimable payment_id amount p) \<Rightarrow> (case bolt11_hash p of
        None \<Rightarrow> []
      | Some hash \<Rightarrow> [InboundClaimable \<lparr>cl_payment_id = payment_id, cl_payment_hash = hash, cl_amount_msat = Some amount\<rparr>])
   | Some (RawReceived payment_id p) \<Rightarrow> (case bolt11_hash p of
        Some hash \<Rightarrow> [InboundReceived payment_id hash]
      | None \<Rightarrow> (case bolt12_offer_ids p of
          Some (offer, hash) \<Rightarrow> [InboundBolt12Received offer hash (bolt12_preimage p) (Option.bind p p_amount_msat)]
        | None \<Rightarrow> []))
   | Some RawOther \<Rightarrow> [])"

section \<open>Amounts, networks, schedules\<close>

definition sats_to_msats :: "u64 \<Rightarrow> u64 result" where
  "sats_to_msats sats = ok_or (checked_mul sats 1000) (Failure ''amount_sats is too large'')"

definition send_network_matches :: "network \<Rightarrow> network \<Rightarrow> bool" where
  "send_network_matches invoice configured \<longleftrightarrow>
     invoice = configured \<or> (invoice, configured) \<in> {(Testnet, Signet), (Signet, Testnet)}"

definition ascii_upper :: "string \<Rightarrow> string" where
  "ascii_upper = map (\<lambda>c. if CHR ''a'' \<le> c \<and> c \<le> CHR ''z'' then char_of (of_char c - 32 :: nat) else c)"

definition ascii_lower :: "string \<Rightarrow> string" where
  "ascii_lower = map (\<lambda>c. if CHR ''A'' \<le> c \<and> c \<le> CHR ''Z'' then char_of (of_char c + 32 :: nat) else c)"

definition invoice_network :: "string \<Rightarrow> network result" where
  "invoice_network name = (let n = ascii_upper name in
     if n = ''MAINNET'' then Inr Bitcoin
     else if n = ''TESTNET'' then Inr Testnet
     else if n = ''SIGNET'' then Inr Signet
     else if n = ''REGTEST'' \<or> n = ''LOCAL'' then Inr Regtest
     else Inl (Failure ''unsupported Lightning invoice network''))"

definition validate_created_invoice ::
  "(string \<Rightarrow> bolt11 option) \<Rightarrow> (string \<Rightarrow> string) \<Rightarrow> string \<Rightarrow> string \<Rightarrow> u64 \<Rightarrow> network \<Rightarrow> unit result" where
  "validate_created_invoice decode lower invoice payment_hash amount_sats net =
     (case decode invoice of
        None \<Rightarrow> Inl (Failure ''decode created BOLT11 invoice'')
      | Some i \<Rightarrow>
          if bi_payment_hash i \<noteq> lower payment_hash
          then Inl (Failure ''created invoice payment hash does not match the wallet hash'')
          else (case sats_to_msats amount_sats of
            Inl e \<Rightarrow> Inl e
          | Inr msats \<Rightarrow>
              if bi_amount_msat i \<noteq> Some msats
              then Inl (Failure ''created invoice amount does not match the requested amount'')
              else if bi_network i \<noteq> net
              then Inl (Failure ''created invoice network does not match the SSP network'')
              else Inr ()))"

text \<open>Milliseconds; the jitter is what the random generator drew of \<open>0..=base * 250\<close>.\<close>

definition reconnect_base_secs :: "u32 \<Rightarrow> nat" where
  "reconnect_base_secs failures = min (2 ^ min (unat failures - 1) 5) 30"

definition reconnect_delay :: "(nat \<Rightarrow> nat) \<Rightarrow> u32 \<Rightarrow> nat" where
  "reconnect_delay draw failures = (let base = reconnect_base_secs failures in base * 1000 + draw (base * 250))"

text \<open>The error text decides whether no transfer can have been committed.\<close>

definition is_definitive_swap_failure :: "error \<Rightarrow> bool" where
  "is_definitive_swap_failure e \<longleftrightarrow> list_ex (contains (error_text e))
     [''Insufficient'', ''insufficient'', ''Unselectable'', ''unselectable'', ''NEEDS_TOPUP'']"

section \<open>Payments against intents\<close>

text \<open>
  \<open>sha256_hex preimage\<close> is the hex digest of the decoded preimage, or nothing when it is not the
  hex of 32 bytes; \<open>lower\<close> is \<open>to_lowercase\<close>.
\<close>

definition validate_preimage :: "(string \<Rightarrow> string option) \<Rightarrow> (string \<Rightarrow> string) \<Rightarrow> string \<Rightarrow> string \<Rightarrow> unit result" where
  "validate_preimage sha256_hex lower payment_hash preimage =
     (case sha256_hex preimage of
        None \<Rightarrow> Inl (Failure ''preimage must be 32 bytes'')
      | Some digest \<Rightarrow> if digest \<noteq> lower payment_hash
          then Inl (Failure ''preimage does not match the Lightning payment hash'') else Inr ())"

definition expected_msat :: "(string \<Rightarrow> bolt11 option) \<Rightarrow> lightning_send \<Rightarrow> u64 result" where
  "expected_msat decode send =
     (case Option.bind (decode (ls_invoice send)) bi_amount_msat of
        Some msat \<Rightarrow> Inr msat
      | None \<Rightarrow> ok_or (checked_mul (ls_amount_sats send) 1000) (Failure ''send amount is too large''))"

definition payment_identity_matches :: "lightning_send \<Rightarrow> payment \<Rightarrow> bool" where
  "payment_identity_matches send p =
     (let known_id = (ls_payment_id send = Some (p_id p)) in
      case (ls_kind send, p_kind p) of
        (Bolt11, Some (PBolt11 hash _ _)) \<Rightarrow>
           hash = ls_expected_id send \<or> (known_id \<and> ls_expected_id send = '''')
      | (Bolt12, Some (PBolt12 offer _ _ note)) \<Rightarrow>
           (offer = ls_expected_id send \<or> (known_id \<and> ls_expected_id send = '''')) \<and>
           (known_id \<or> note = Some (payer_note send))
      | _ \<Rightarrow> False)"

definition validate_send_payment :: "(string \<Rightarrow> bolt11 option) \<Rightarrow> lightning_send \<Rightarrow> payment \<Rightarrow> unit result" where
  "validate_send_payment decode send p =
     (case expected_msat decode send of
        Inl e \<Rightarrow> Inl e
      | Inr msat \<Rightarrow>
          if \<not> p_outbound p \<or> p_amount_msat p \<noteq> Some msat
          then Inl (Failure ''LDK payment direction or amount does not match the send intent'')
          else if \<not> payment_identity_matches send p
          then Inl (Failure ''LDK payment identity does not match the send intent'')
          else Inr ())"

text \<open>\<open>lookup\<close> by pages: exactly one matching payment, within 100 pages.\<close>

fun lookup_page :: "(string \<Rightarrow> bolt11 option) \<Rightarrow> lightning_send \<Rightarrow> payment list \<Rightarrow> payment option \<Rightarrow> payment option result" where
  "lookup_page decode send [] found = Inr found"
| "lookup_page decode send (p # ps) found =
     (if is_ok (validate_send_payment decode send p)
      then (if found \<noteq> None then Inl (Failure ''multiple LDK payments match one intent'')
            else lookup_page decode send ps (Some p))
      else lookup_page decode send ps found)"

text \<open>\<open>list token\<close> is the backend's page for a token: payments and the next token.\<close>

fun lookup_pages ::
  "(string \<Rightarrow> bolt11 option) \<Rightarrow> (string option \<Rightarrow> (payment list \<times> string option) result) \<Rightarrow> lightning_send \<Rightarrow> nat
   \<Rightarrow> string option \<Rightarrow> payment option \<Rightarrow> payment option result" where
  "lookup_pages decode list send 0 token found = Inl (Failure ''LDK lookup exceeded 100 pages'')"
| "lookup_pages decode list send (Suc n) token found =
     (case list token of
        Inl e \<Rightarrow> Inl e
      | Inr (ps, next_token) \<Rightarrow>
          (case lookup_page decode send ps found of
             Inl e \<Rightarrow> Inl e
           | Inr found' \<Rightarrow> if next_token = None then Inr found' else lookup_pages decode list send n next_token found'))"

definition lookup_send ::
  "(string \<Rightarrow> bolt11 option) \<Rightarrow> (string \<Rightarrow> payment option result) \<Rightarrow>
   (string option \<Rightarrow> (payment list \<times> string option) result) \<Rightarrow> lightning_send \<Rightarrow> payment option result" where
  "lookup_send decode details list send =
     (case (case ls_payment_id send of Some i \<Rightarrow> Some i
              | None \<Rightarrow> if ls_kind send = Bolt11 then Some (ls_expected_id send) else None) of
        Some i \<Rightarrow> (case details i of
            Inl e \<Rightarrow> Inl e
          | Inr None \<Rightarrow> Inr None
          | Inr (Some p) \<Rightarrow> (case validate_send_payment decode send p of Inl e \<Rightarrow> Inl e | Inr _ \<Rightarrow> Inr (Some p)))
      | None \<Rightarrow> lookup_pages decode list send 100 None None)"

section \<open>Preparing a send\<close>

definition is_offer :: "string \<Rightarrow> bool" where
  "is_offer invoice \<longleftrightarrow> is_prefix_str ''lno1'' (ascii_lower invoice)"

text \<open>
  The funding check: the amount the transfer must hold, given to the Spark checks
  \<open>verify_offer amount\<close> and \<open>verify_htlc hash amount\<close>.
\<close>

definition verify_lightning_send_funding ::
  "(string \<Rightarrow> bolt11 option) \<Rightarrow> (u64 \<Rightarrow> unit result) \<Rightarrow> (string \<Rightarrow> u64 \<Rightarrow> u32 result) \<Rightarrow> string \<Rightarrow> u64 option
   \<Rightarrow> u32 option result" where
  "verify_lightning_send_funding decode verify_offer verify_htlc invoice amount_sats =
     (if is_offer invoice then
        (case amount_sats of
           None \<Rightarrow> Inl (Failure ''BOLT12 sends require amount_sats'')
         | Some n \<Rightarrow> if n = 0 then Inl (Failure ''Lightning send amount must be positive'')
             else (case verify_offer n of Inl e \<Rightarrow> Inl e | Inr _ \<Rightarrow> Inr None))
      else case decode invoice of
        None \<Rightarrow> Inl (Failure ''decode invoice'')
      | Some i \<Rightarrow>
          (case (case bi_amount_msat i of
                   Some v \<Rightarrow> if amount_sats \<noteq> None
                     then Inl (Failure ''amount_sats is only valid for zero-amount invoices'') else Inr v
                 | None \<Rightarrow> (case amount_sats of
                     None \<Rightarrow> Inl (Failure ''zero-amount invoice needs amount_sats'')
                   | Some n \<Rightarrow> sats_to_msats n)) of
             Inl e \<Rightarrow> Inl e
           | Inr msat \<Rightarrow>
               (case checked_add msat 999 of
                  None \<Rightarrow> Inl (Failure ''invoice amount is too large'')
                | Some s \<Rightarrow>
                    let total_sats = s div 1000 in
                    if total_sats = 0 then Inl (Failure ''Lightning send amount must be positive'')
                    else (case verify_htlc (bi_payment_hash i) total_sats of
                      Inl e \<Rightarrow> Inl e | Inr cltv \<Rightarrow> Inr (Some cltv)))))"

definition prepare_send ::
  "(string \<Rightarrow> bolt11 option) \<Rightarrow> (string \<Rightarrow> string result) \<Rightarrow> (string \<Rightarrow> bool) \<Rightarrow> (u64 \<Rightarrow> unit result) \<Rightarrow>
   (string \<Rightarrow> u64 \<Rightarrow> u32 result) \<Rightarrow> network \<Rightarrow> int \<Rightarrow> string \<Rightarrow> string \<Rightarrow> string \<Rightarrow> string \<Rightarrow> u64 option
   \<Rightarrow> lightning_send result" where
  "prepare_send decode offer_id is_uuid verify_offer verify_htlc net now request_id owner transfer invoice amount =
     (if \<not> is_uuid transfer then Inl (Failure ''invalid Spark funding transfer ID'')
      else case (if is_offer invoice then
          (case offer_id invoice of
             Inl e \<Rightarrow> Inl e
           | Inr oid \<Rightarrow> (case amount of
               None \<Rightarrow> Inl (Failure ''BOLT12 sends require amount_sats'') | Some n \<Rightarrow> Inr (Bolt12, oid, n)))
        else (case decode invoice of
          None \<Rightarrow> Inl (Failure ''invalid invoice'')
        | Some i \<Rightarrow>
            if \<not> send_network_matches (bi_network i) net then Inl (Failure ''Lightning invoice network mismatch'')
            else if bi_would_expire i now then Inl (Failure ''Lightning invoice expired'')
            else (case (case bi_amount_msat i of Some a \<Rightarrow> Some (div_ceil a 1000) | None \<Rightarrow> amount) of
              None \<Rightarrow> Inl (Failure ''zero-amount invoice needs amount_sats'')
            | Some sats \<Rightarrow> Inr (Bolt11, bi_payment_hash i, sats)))) of
          Inl e \<Rightarrow> Inl e
        | Inr (kind, expected_id, sats) \<Rightarrow>
            (case sats_to_msats sats of
               Inl e \<Rightarrow> Inl e
             | Inr _ \<Rightarrow>
                 (case verify_lightning_send_funding decode verify_offer verify_htlc invoice amount of
                    Inl e \<Rightarrow> Inl e
                  | Inr cltv \<Rightarrow> Inr \<lparr>ls_request_id = request_id, ls_owner = owner, ls_outbound_transfer_id = transfer,
                      ls_invoice = invoice, ls_amount_sats = sats, ls_amount_override = amount, ls_kind = kind,
                      ls_expected_id = expected_id, ls_max_route_cltv = cltv, ls_payment_id = None,
                      ls_status = Prepared\<rparr>)))"

section \<open>Properties\<close>

text \<open>A backend payment accepted for a send is that send's: it is outbound, moves exactly the
  invoice's amount or else a thousand times the stored satoshis without overflow, has the
  send's kind, and carries its expected hash or offer; an offer payment not yet bound must
  carry the request id in its payer note.\<close>

theorem send_payment_sound:
  assumes "validate_send_payment decode send p = Inr u"
  shows "p_outbound p \<and>
    (case Option.bind (decode (ls_invoice send)) bi_amount_msat of
       Some msat \<Rightarrow> p_amount_msat p = Some msat
     | None \<Rightarrow> \<exists>a. p_amount_msat p = Some a \<and> unat a = unat (ls_amount_sats send) * 1000) \<and>
    (case ls_kind send of
       Bolt11 \<Rightarrow> \<exists>hash pre fee. p_kind p = Some (PBolt11 hash pre fee) \<and>
         (hash = ls_expected_id send \<or> ls_payment_id send = Some (p_id p))
     | Bolt12 \<Rightarrow> \<exists>offer hash pre note. p_kind p = Some (PBolt12 offer hash pre note) \<and>
         (offer = ls_expected_id send \<or> ls_payment_id send = Some (p_id p)) \<and>
         (ls_payment_id send = Some (p_id p) \<or> note = Some (payer_note send)))"
proof -
  obtain msat where m: "expected_msat decode send = Inr msat" "p_outbound p" "p_amount_msat p = Some msat"
      "payment_identity_matches send p"
    using assms by (auto simp: validate_send_payment_def split: sum.splits if_splits)
  have amount: "case Option.bind (decode (ls_invoice send)) bi_amount_msat of
       Some msat \<Rightarrow> p_amount_msat p = Some msat
     | None \<Rightarrow> \<exists>a. p_amount_msat p = Some a \<and> unat a = unat (ls_amount_sats send) * 1000"
    using m(1,3) by (auto simp: expected_msat_def dest: unat_checked_mul split: option.splits)
  moreover have "case ls_kind send of
       Bolt11 \<Rightarrow> \<exists>hash pre fee. p_kind p = Some (PBolt11 hash pre fee) \<and>
         (hash = ls_expected_id send \<or> ls_payment_id send = Some (p_id p))
     | Bolt12 \<Rightarrow> \<exists>offer hash pre note. p_kind p = Some (PBolt12 offer hash pre note) \<and>
         (offer = ls_expected_id send \<or> ls_payment_id send = Some (p_id p)) \<and>
         (ls_payment_id send = Some (p_id p) \<or> note = Some (payer_note send))"
    using m(4) by (auto simp: payment_identity_matches_def Let_def split: send_kind.splits option.splits payment_kind.splits)
  ultimately show ?thesis using m(2) by blast
qed

definition example_payment :: payment where
  "example_payment = \<lparr>p_id = ''pay'', p_outbound = True, p_amount_msat = Some 21000, p_status = PaymentSucceeded,
     p_kind = Some (PBolt11 ''hash'' (Some ''pre'') None)\<rparr>"

lemma example_send_fields: "ls_payment_id example_send = None" "ls_kind example_send = Bolt11"
  by (simp_all add: example_send_def)

lemma example_payment_valid: "validate_send_payment (\<lambda>_. None) example_send example_payment = Inr ()"
  by (simp add: validate_send_payment_def expected_msat_def checked_mul_def example_send_def example_payment_def
      payment_identity_matches_def)

lemma send_payment_sound_witness:
  "p_outbound example_payment \<and> (\<exists>a. p_amount_msat example_payment = Some a \<and> unat a = 21 * 1000)"
  using send_payment_sound [OF example_payment_valid] by (simp add: example_send_def)

lemma lookup_page_sound:
  assumes "lookup_page decode send ps found = Inr r"
  shows "(r = found \<and> (\<forall>p\<in>set ps. \<not> is_ok (validate_send_payment decode send p))) \<or>
    (found = None \<and> (\<exists>p\<in>set ps. r = Some p \<and> is_ok (validate_send_payment decode send p)))"
  using assms by (induction ps arbitrary: found) (auto split: if_splits)

lemma lookup_pages_sound:
  assumes "lookup_pages decode list send n token found = Inr (Some p)"
  shows "found = Some p \<or> is_ok (validate_send_payment decode send p)"
  using assms
proof (induction n arbitrary: token found)
  case (Suc n)
  then show ?case
    by (auto split: sum.splits if_splits dest!: lookup_page_sound) blast+
qed simp

text \<open>Recovery only ever adopts a payment of this intent: whatever the backend answers, a
  payment found by the lookup of a send, by its id or by the paged search of at most 100
  pages, has passed the payment check.\<close>

theorem lookup_finds_own_payment:
  assumes "lookup_send decode details list send = Inr (Some p)"
  shows "is_ok (validate_send_payment decode send p)"
proof -
  have paged: "is_ok (validate_send_payment decode send p)"
    if "lookup_pages decode list send 100 None None = Inr (Some p)"
    using lookup_pages_sound [OF that] by simp
  show ?thesis
    using assms by (auto simp: lookup_send_def split: option.splits sum.splits if_splits intro: paged)
qed

lemma lookup_finds_own_payment_witness:
  "is_ok (validate_send_payment (\<lambda>_. None) example_send example_payment)"
  by (rule lookup_finds_own_payment [where details = "\<lambda>_. Inr (Some example_payment)" and list = "\<lambda>_. Inl NoRows"])
    (simp add: lookup_send_def example_payment_valid example_send_fields)

text \<open>The two roundings of an invoice amount to satoshis agree.\<close>

lemma round_up_thousand:
  "r < 1000 \<Longrightarrow> (1000 * q + r + 999) div 1000 = (if r > 0 then q + 1 else q)" for q r :: nat
  by (auto intro!: div_nat_eqI)

lemma div_ceil_thousand:
  assumes "checked_add msat 999 = Some s"
  shows "div_ceil msat 1000 = s div 1000"
proof -
  have s: "unat s = unat msat + 999"
    using unat_checked_add [OF assms] by simp
  have m: "unat (msat div 1000) = unat msat div 1000" "unat (msat mod 1000) = unat msat mod 1000"
    by (simp_all add: unat_div unat_mod)
  have bound: "unat msat div 1000 + 1 < 2 ^ 64"
  proof -
    have "unat msat < 2 ^ LENGTH(64)" by (rule unsigned_less)
    then show ?thesis by simp
  qed
  have "unat (div_ceil msat 1000) = (if unat msat mod 1000 > 0 then unat msat div 1000 + 1 else unat msat div 1000)"
    using bound m by (auto simp: div_ceil_def word_less_nat_alt unat_word_ariths)
  also have "\<dots> = (unat msat + 999) div 1000"
    using round_up_thousand [of "unat msat mod 1000" "unat msat div 1000"] by simp
  also have "\<dots> = unat (s div 1000)" by (simp add: unat_div s)
  finally show ?thesis by (simp add: word_unat_eq_iff)
qed

lemma thousandfold_back:
  assumes "checked_mul n 1000 = Some msat" "checked_add msat 999 = Some s"
  shows "s div 1000 = n"
proof -
  have "unat s = unat n * 1000 + 999"
    using unat_checked_add [OF assms(2)] unat_checked_mul [OF assms(1)] by simp
  then show ?thesis by (simp add: word_unat_eq_iff unat_div)
qed

text \<open>What is promised is what was checked: the amount a prepared send stores is positive, fits
  in millisatoshis, and is exactly the amount its Spark funding was verified for, under the
  hash or offer the send expects.\<close>

theorem prepared_amount_is_funded:
  assumes "prepare_send decode offer_id is_uuid verify_offer verify_htlc net now rid owner transfer invoice amount = Inr send"
  shows "0 < ls_amount_sats send \<and> unat (ls_amount_sats send) * 1000 < 2 ^ 64 \<and>
    (case ls_kind send of
       Bolt11 \<Rightarrow> \<exists>cltv. verify_htlc (ls_expected_id send) (ls_amount_sats send) = Inr cltv \<and> ls_max_route_cltv send = Some cltv
     | Bolt12 \<Rightarrow> offer_id invoice = Inr (ls_expected_id send) \<and> verify_offer (ls_amount_sats send) = Inr ()) \<and>
    ls_status send = Prepared \<and> ls_payment_id send = None"
proof -
  have fits: "125 * unat sats < 2305843009213693952" if "checked_mul sats 1000 = Some m" for sats m
    using that by (auto simp: checked_mul_def split: if_splits)
  show ?thesis
    using assms
    by (auto simp: prepare_send_def verify_lightning_send_funding_def Let_def fits sats_to_msats_def
        div_ceil_thousand thousandfold_back word_gt_0
        split: if_splits sum.splits option.splits prod.splits)
qed


definition example_invoice :: bolt11 where
  "example_invoice = \<lparr>bi_payment_hash = ''hash'', bi_amount_msat = Some 20500, bi_network = Regtest,
     bi_would_expire = (\<lambda>_. False)\<rparr>"

definition example_prepared :: lightning_send where
  "example_prepared = \<lparr>ls_request_id = ''r'', ls_owner = ''alice'', ls_outbound_transfer_id = ''t'', ls_invoice = ''lnbc'',
     ls_amount_sats = 21, ls_amount_override = None, ls_kind = Bolt11, ls_expected_id = ''hash'',
     ls_max_route_cltv = Some 144, ls_payment_id = None, ls_status = Prepared\<rparr>"

lemma example_prepare:
  "prepare_send (\<lambda>_. Some example_invoice) (\<lambda>_. Inl NoRows) (\<lambda>_. True) (\<lambda>_. Inl NoRows)
     (\<lambda>h n. if n = 21 then Inr 144 else Inl NoRows) Regtest 0 ''r'' ''alice'' ''t'' ''lnbc'' None = Inr example_prepared"
  by (simp add: prepare_send_def is_offer_def is_prefix_str_def ascii_lower_def example_invoice_def example_prepared_def
      send_network_matches_def div_ceil_def sats_to_msats_def checked_mul_def checked_add_def
      verify_lightning_send_funding_def)

lemma prepared_amount_is_funded_witness:
  "0 < ls_amount_sats example_prepared \<and> unat (ls_amount_sats example_prepared) * 1000 < 2 ^ 64 \<and>
   (\<exists>cltv. (if ls_amount_sats example_prepared = 21 then Inr 144 else Inl NoRows) = (Inr cltv :: u32 result) \<and>
      ls_max_route_cltv example_prepared = Some cltv)"
  using prepared_amount_is_funded [OF example_prepare] by (simp add: example_prepared_def)

text \<open>Reconnects back off and stay prompt: the delay is at least a second, at most 37.5
  seconds, and never shrinks below the base of a smaller failure count.\<close>

theorem reconnect_delay_bounds:
  assumes "\<And>n. draw n \<le> n"
  shows "1000 \<le> reconnect_delay draw failures \<and> reconnect_delay draw failures \<le> 37500 \<and>
    (\<forall>fewer \<le> failures. reconnect_base_secs fewer * 1000 \<le> reconnect_delay draw failures)"
proof -
  have one: "1 \<le> reconnect_base_secs failures" "reconnect_base_secs failures \<le> 30"
    by (auto simp: reconnect_base_secs_def)
  have "draw (reconnect_base_secs failures * 250) \<le> reconnect_base_secs failures * 250"
    by (rule assms)
  moreover have "reconnect_base_secs fewer \<le> reconnect_base_secs failures" if "fewer \<le> failures" for fewer
  proof -
    have "min (unat fewer - 1) 5 \<le> min (unat failures - 1) 5"
      using that by (auto simp: word_le_nat_alt)
    then have "(2 :: nat) ^ min (unat fewer - 1) 5 \<le> 2 ^ min (unat failures - 1) 5"
      by (rule power_increasing) simp
    then show ?thesis unfolding reconnect_base_secs_def by (rule min.mono) simp
  qed
  ultimately show ?thesis using one by (fastforce simp: reconnect_delay_def Let_def)
qed

lemma reconnect_delay_bounds_witness:
  "1000 \<le> reconnect_delay (\<lambda>n. n div 2) 3 \<and> reconnect_delay (\<lambda>n. n div 2) 3 \<le> 37500 \<and>
   reconnect_base_secs 2 * 1000 \<le> reconnect_delay (\<lambda>n. n div 2) 3"
  using reconnect_delay_bounds [of "\<lambda>n. n div 2" 3] by simp

end
