(* ===== verification/Settlement.thy ===== *)
theory Settlement
  imports World Payment_Store Lightning_Backend Transfers
begin

text \<open>
  Settlement of Lightning payments: the handlers of src/src/ldk.rs as actions over a world
  that holds the database and the log of calls made to the Lightning node and to Spark. What
  an external service answers is an argument, any function of the calls made so far, so every
  theorem holds for lost replies, duplicated events and adversarial answers. A handler that
  holds the receive lock runs as a whole; a crash is a prefix of a run.
\<close>

section \<open>The world\<close>

datatype call =
    CallSubmit lightning_send
  | CallLookup lightning_send
  | CallDetails string
  | CallList "string option"
  | CallSwap string string string u64
  | CallClaim string u64 string
  | CallFail string
  | CallVerifySender lightning_send
  | CallFunding lightning_send
  | CallSettleSend string string string
  | CallRefund string string u64
  | CallSettleReceive string string u64

type_synonym world = "call log_world"

record environment =
  e_submit :: "call list \<Rightarrow> lightning_send \<Rightarrow> string result"
  e_lookup :: "call list \<Rightarrow> lightning_send \<Rightarrow> payment option result"
  e_details :: "call list \<Rightarrow> string \<Rightarrow> payment option result"
  e_list :: "call list \<Rightarrow> string option \<Rightarrow> (payment list \<times> string option) result"
  e_swap :: "call list \<Rightarrow> string \<Rightarrow> string \<Rightarrow> string \<Rightarrow> u64 \<Rightarrow> receive_swap result"
  e_claim :: "call list \<Rightarrow> string \<Rightarrow> u64 \<Rightarrow> string \<Rightarrow> unit result"
  e_fail :: "call list \<Rightarrow> string \<Rightarrow> unit result"
  e_verify_sender :: "call list \<Rightarrow> lightning_send \<Rightarrow> unit result"
  e_funding :: "call list \<Rightarrow> lightning_send \<Rightarrow> u32 option result"
  e_settle_send :: "call list \<Rightarrow> string \<Rightarrow> string \<Rightarrow> string \<Rightarrow> unit result"
  e_refund :: "call list \<Rightarrow> string \<Rightarrow> string \<Rightarrow> u64 \<Rightarrow> string result"
  e_settle_receive :: "call list \<Rightarrow> string \<Rightarrow> string \<Rightarrow> u64 \<Rightarrow> string result"
  e_now :: "call list \<Rightarrow> int"
  e_decode :: "string \<Rightarrow> bolt11 option"
  e_sha256 :: "string \<Rightarrow> string option"
  e_lower :: "string \<Rightarrow> string"

definition ask_submit :: "environment \<Rightarrow> lightning_send \<Rightarrow> (world, string) action" where
  "ask_submit env send = ask (CallSubmit send) (\<lambda>h. e_submit env h send)"

definition ask_lookup :: "environment \<Rightarrow> lightning_send \<Rightarrow> (world, payment option) action" where
  "ask_lookup env send = ask (CallLookup send) (\<lambda>h. e_lookup env h send)"

definition ask_fail :: "environment \<Rightarrow> string \<Rightarrow> (world, unit) action" where
  "ask_fail env payment_id = ask (CallFail payment_id) (\<lambda>h. e_fail env h payment_id)"

definition receive_retry_delays :: nat where "receive_retry_delays = 4"

definition validate_preimage_in :: "environment \<Rightarrow> string \<Rightarrow> string \<Rightarrow> unit result" where
  "validate_preimage_in env = validate_preimage (e_sha256 env) (e_lower env)"

section \<open>Submitting a send\<close>

definition recover_submission :: "environment \<Rightarrow> lightning_send \<Rightarrow> (world, payment option) action" where
  "recover_submission env send =
     bind_action (ask_lookup env send) (\<lambda>found.
     case found of
       None \<Rightarrow> ret None
     | Some p \<Rightarrow>
         then_action (lift_result (validate_send_payment (e_decode env) send p))
         (then_action (on_db (bind_lightning_payment (ls_request_id send) (p_id p))) (ret (Some p))))"

definition retry_missing_bolt11 :: "environment \<Rightarrow> lightning_send \<Rightarrow> (world, unit) action" where
  "retry_missing_bolt11 env send =
     (if ls_kind send \<noteq> Bolt11 \<or> ls_status send \<noteq> Submitting \<or> ls_payment_id send \<noteq> None
      then throw (Failure ''payment needs backend reconciliation; automatic resubmission is unavailable'')
      else handle (ask_submit env send)
        (\<lambda>i. on_db (bind_lightning_payment (ls_request_id send) i))
        (\<lambda>err. bind_action (recover_submission env send) (\<lambda>found.
           if found = None then on_db (lightning_submission_error (ls_request_id send) (error_text err)) else ret ())))"

definition submit_durable_send :: "environment \<Rightarrow> lightning_send \<Rightarrow> (world, unit) action" where
  "submit_durable_send env send =
     bind_action (on_db (begin_lightning_submission (ls_request_id send))) (\<lambda>begun.
     if \<not> begun then ret ()
     else handle (ask_submit env send)
       (\<lambda>i. on_db (bind_lightning_payment (ls_request_id send) i))
       (\<lambda>err. on_db (lightning_submission_error (ls_request_id send) (error_text err))))"

section \<open>Lightning receives\<close>

definition fail_unfunded_receive :: "environment \<Rightarrow> claimable_receive \<Rightarrow> (world, unit) action" where
  "fail_unfunded_receive env payment =
     handle (retry_bounded receive_retry_delays (ask_fail env (cl_payment_id payment)))
       (\<lambda>_. ignore (on_db (set_receive_status (cl_payment_hash payment) ''HTLC_FAILED'')))
       (\<lambda>_. ret ())"

text \<open>The swap step: checked, then committed with its transfer row before any claim.\<close>

definition fund_receive ::
  "environment \<Rightarrow> claimable_receive \<Rightarrow> lightning_receive \<Rightarrow> (world, string) action" where
  "fund_receive env payment receive =
     (let hash = cl_payment_hash payment in
      handle (retry_bounded receive_retry_delays
          (ask (CallSwap (rc_receiver receive) hash (rc_invoice receive) (rc_amount_sats receive))
            (\<lambda>h. e_swap env h (rc_receiver receive) hash (rc_invoice receive) (rc_amount_sats receive))))
        (\<lambda>swap. case validate_preimage_in env hash (rs_preimage swap) of
            Inl err \<Rightarrow> then_action (on_db (set_receive_status hash ''PAYMENT_PREIMAGE_RECOVERING_FAILED'')) (throw err)
          | Inr _ \<Rightarrow> then_action (on_db (commit_lightning_receive_swap hash (rs_transfer_id swap) (rs_preimage swap)
                       (rc_request_id receive) (rc_owner receive)))
                     (ret (rs_preimage swap)))
        (\<lambda>err. then_action (on_db (set_receive_status hash ''TRANSFER_CREATION_FAILED''))
           (then_action (if is_definitive_swap_failure err then fail_unfunded_receive env payment else ret ())
             (throw err))))"

definition claim_receive ::
  "environment \<Rightarrow> claimable_receive \<Rightarrow> lightning_receive \<Rightarrow> u64 \<Rightarrow> string \<Rightarrow> (world, bool) action" where
  "claim_receive env payment receive actual_msat preimage =
     (if rc_claim_submitted receive then ret True
      else then_action (lift_result (validate_preimage_in env (cl_payment_hash payment) preimage))
       (then_action (retry_bounded receive_retry_delays
           (ask (CallClaim (cl_payment_id payment) actual_msat preimage)
             (\<lambda>h. e_claim env h (cl_payment_id payment) actual_msat preimage)))
         (then_action (on_db (mark_receive_claim_submitted (cl_payment_hash payment))) (ret True))))"

text \<open>An attempt that is not the receive's own, or comes too late, is failed by its own id.\<close>

definition foreign_attempt :: "lightning_receive \<Rightarrow> string \<Rightarrow> bool" where
  "foreign_attempt receive payment_id \<longleftrightarrow>
     (rc_payment_id receive \<noteq> None \<and> rc_payment_id receive \<noteq> Some payment_id) \<or>
     rc_status receive = HtlcFailed \<or>
     (rc_status receive = TransferCompleted \<and> rc_payment_id receive \<noteq> Some payment_id)"

definition pay_receive :: "environment \<Rightarrow> claimable_receive \<Rightarrow> lightning_receive \<Rightarrow> u64 \<Rightarrow> (world, bool) action" where
  "pay_receive env payment receive actual_msat =
     (case (rc_transfer_id receive, rc_preimage receive) of
        (Some _, Some preimage) \<Rightarrow> claim_receive env payment receive actual_msat preimage
      | _ \<Rightarrow> bind_action (fund_receive env payment receive) (claim_receive env payment receive actual_msat))"

definition process_known_receive ::
  "environment \<Rightarrow> claimable_receive \<Rightarrow> lightning_receive \<Rightarrow> (world, bool) action" where
  "process_known_receive env payment receive =
     (if foreign_attempt receive (cl_payment_id payment)
      then then_action (retry_bounded receive_retry_delays (ask_fail env (cl_payment_id payment))) (ret True)
      else if rc_status receive = TransferCompleted then ret True
      else case checked_mul (rc_amount_sats receive) 1000 of
        None \<Rightarrow> throw (Failure ''Lightning receive amount is too large'')
      | Some expected \<Rightarrow>
          (case cl_amount_msat payment of
             None \<Rightarrow> throw (Failure ''claimable Lightning payment has no amount'')
           | Some actual \<Rightarrow>
               then_action (on_db (mark_receive_claimable (cl_payment_hash payment) (cl_payment_id payment) actual))
                 (if actual \<noteq> expected
                  then then_action (fail_unfunded_receive env payment) (throw (Failure ''claimable amount mismatch''))
                  else pay_receive env payment receive actual)))"

definition process_standard_receive :: "environment \<Rightarrow> claimable_receive \<Rightarrow> (world, bool) action" where
  "process_standard_receive env payment =
     bind_action (on_db (internal_send (cl_payment_hash payment))) (\<lambda>reserved.
     if reserved \<noteq> None
     then then_action (retry_bounded receive_retry_delays (ask_fail env (cl_payment_id payment))) (ret True)
     else bind_action (on_db (lightning_receive_for_hash (cl_payment_hash payment))) (\<lambda>found.
       case found of
         None \<Rightarrow> then_action (retry_bounded receive_retry_delays (ask_fail env (cl_payment_id payment))) (ret False)
       | Some receive \<Rightarrow> process_known_receive env payment receive))"

section \<open>Internal sends\<close>

definition internal_preimage :: "environment \<Rightarrow> lightning_send \<Rightarrow> lightning_receive \<Rightarrow> (world, string) action" where
  "internal_preimage env send receive = (case rc_preimage receive of
     Some preimage \<Rightarrow> ret preimage
   | None \<Rightarrow>
       then_action (ask (CallVerifySender send) (\<lambda>h. e_verify_sender env h send))
       (bind_action (ask (CallSwap (rc_receiver receive) (ls_expected_id send) (rc_invoice receive) (rc_amount_sats receive))
           (\<lambda>h. e_swap env h (rc_receiver receive) (ls_expected_id send) (rc_invoice receive) (rc_amount_sats receive)))
         (\<lambda>swap. then_action (lift_result (validate_preimage_in env (ls_expected_id send) (rs_preimage swap)))
           (then_action (on_db (commit_lightning_receive_swap (ls_expected_id send) (rs_transfer_id swap) (rs_preimage swap)
               (rc_request_id receive) (rc_owner receive)))
             (ret (rs_preimage swap))))))"

definition settle_internal :: "environment \<Rightarrow> lightning_send \<Rightarrow> (world, unit) action" where
  "settle_internal env send =
     bind_action (on_db (lightning_receive_for_hash (ls_expected_id send))) (\<lambda>found.
     case found of
       None \<Rightarrow> throw (Failure ''local receive missing'')
     | Some receive \<Rightarrow>
         bind_action (internal_preimage env send receive) (\<lambda>preimage.
         then_action (lift_result (validate_preimage_in env (ls_expected_id send) preimage))
         (then_action (ask (CallSettleSend (ls_outbound_transfer_id send) (ls_expected_id send) preimage)
             (\<lambda>h. e_settle_send env h (ls_outbound_transfer_id send) (ls_expected_id send) preimage))
           (on_db (finish_internal_send send)))))"

definition process_internal_send :: "environment \<Rightarrow> lightning_send \<Rightarrow> (world, unit) action" where
  "process_internal_send env send =
     bind_action (on_db (payment_status (ls_request_id send))) (\<lambda>status.
     if status = ''SUCCEEDED'' \<or> status = ''FAILED'' then ret ()
     else handle (\<lambda>w. on_db (reserve_internal_send (e_now env (w_calls w)) send) w)
       (\<lambda>_. settle_internal env send)
       (\<lambda>err. then_action (on_db (set_payment (ls_request_id send) ''FAILED'')) (throw err)))"

section \<open>Outcomes of backend payments\<close>

definition set_payment_status :: "string \<Rightarrow> string \<Rightarrow> (world, unit) action" where
  "set_payment_status i status = on_db (set_payment i status)"

text \<open>The proof a successful payment must bring, by its kind.\<close>

definition settle_by_kind :: "environment \<Rightarrow> lightning_send \<Rightarrow> payment_kind option \<Rightarrow> (world, unit) action" where
  "settle_by_kind env send kind = (case kind of
     None \<Rightarrow> throw (Failure ''payment has no payment kind'')
   | Some (PBolt11 hash preimage _) \<Rightarrow> (case preimage of
        None \<Rightarrow> throw (Failure ''payment succeeded without a preimage'')
      | Some pre \<Rightarrow> ask (CallSettleSend (ls_outbound_transfer_id send) hash pre)
          (\<lambda>h. e_settle_send env h (ls_outbound_transfer_id send) hash pre))
   | Some (PBolt12 _ hash preimage _) \<Rightarrow>
        if ls_kind send \<noteq> Bolt12 then throw (Failure ''payment has an unexpected payment kind'')
        else (case hash of
          None \<Rightarrow> throw (Failure ''payment succeeded without a hash'')
        | Some hash \<Rightarrow> (case preimage of
            None \<Rightarrow> throw (Failure ''payment succeeded without a preimage'')
          | Some pre \<Rightarrow> then_action (lift_result (validate_preimage_in env hash pre))
              (on_db (record_lightning_proof (ls_request_id send) hash pre))))
   | Some POther \<Rightarrow> throw (Failure ''payment has an unexpected payment kind''))"

definition settle_succeeded_payment :: "environment \<Rightarrow> payment \<Rightarrow> (world, unit) action" where
  "settle_succeeded_payment env p =
     bind_action (on_db (lightning_send_for_payment (p_id p))) (\<lambda>found.
     case found of
       None \<Rightarrow> throw (Failure ''no Lightning send request for payment'')
     | Some send \<Rightarrow>
         then_action (lift_result (validate_send_payment (e_decode env) send p))
         (then_action (settle_by_kind env send (p_kind p)) (set_payment_status (p_id p) ''SUCCEEDED'')))"

definition fail_managed_payment :: "environment \<Rightarrow> string \<Rightarrow> string option \<Rightarrow> (world, unit) action" where
  "fail_managed_payment env payment_id reason =
     bind_action (on_db (lightning_send_for_payment payment_id)) (\<lambda>found.
     case found of
       None \<Rightarrow> ret ()
     | Some send \<Rightarrow>
         if ls_status send = Succeeded then ret ()
         else then_action (on_db (record_lightning_failure payment_id reason))
           (if ls_status send = Failed then ret ()
            else then_action
              (if ls_kind send = Bolt12
               then then_action (set_payment_status payment_id ''REFUNDING'')
                 (void (ask (CallRefund (ls_owner send) (ls_outbound_transfer_id send) (ls_amount_sats send))
                   (\<lambda>h. e_refund env h (ls_owner send) (ls_outbound_transfer_id send) (ls_amount_sats send))))
               else ret ())
              (set_payment_status payment_id ''FAILED'')))"

definition is_managed_outbound :: "string \<Rightarrow> (world, bool) action" where
  "is_managed_outbound payment_id =
     bind_action (on_db (lightning_send_for_payment payment_id)) (\<lambda>found. ret (found \<noteq> None))"

definition finish_bolt12_receive ::
  "environment \<Rightarrow> string \<Rightarrow> string \<Rightarrow> string option \<Rightarrow> u64 option \<Rightarrow> (world, unit) action" where
  "finish_bolt12_receive env offer_id payment_hash preimage amount_msat =
     bind_action (on_db (lightning_receive_for_hash offer_id)) (\<lambda>found.
     case found of
       None \<Rightarrow> ret ()
     | Some receive \<Rightarrow>
         if rc_status receive = TransferCompleted then ret ()
         else (case checked_mul (rc_amount_sats receive) 1000 of
           None \<Rightarrow> throw (Failure ''BOLT12 receive amount is too large'')
         | Some expected \<Rightarrow>
             if \<not> (case amount_msat of None \<Rightarrow> False | Some a \<Rightarrow> a \<ge> expected)
             then throw (Failure ''BOLT12 receive amount is too small'')
             else (case preimage of
               None \<Rightarrow> throw (Failure ''BOLT12 receive succeeded without a preimage'')
             | Some pre \<Rightarrow>
                 then_action (lift_result (validate_preimage_in env payment_hash pre))
                 (then_action (on_db (bind_bolt12_receive offer_id payment_hash))
                 (then_action (on_db (record_lightning_proof (rc_request_id receive) payment_hash pre))
                 (bind_action (ask (CallSettleReceive (rc_receiver receive) payment_hash (rc_amount_sats receive))
                     (\<lambda>h. e_settle_receive env h (rc_receiver receive) payment_hash (rc_amount_sats receive)))
                   (\<lambda>transfer_id. on_db (commit_bolt12_receive offer_id payment_hash transfer_id
                      (rc_request_id receive) (rc_owner receive)))))))))"

definition finish_received_payment :: "string \<Rightarrow> string \<Rightarrow> (world, bool) action" where
  "finish_received_payment payment_id payment_hash =
     bind_action (on_db (internal_send payment_hash)) (\<lambda>reserved.
     if reserved \<noteq> None then ret True
     else bind_action (on_db (lightning_receive_for_hash payment_hash)) (\<lambda>found.
       case found of
         None \<Rightarrow> ret False
       | Some receive \<Rightarrow>
           if rc_payment_id receive \<noteq> None \<and> rc_payment_id receive \<noteq> Some payment_id
           then throw (Failure ''received payment does not match the bound backend ID'')
           else bind_action (case rc_transfer_id receive of
                 Some i \<Rightarrow> ret i
               | None \<Rightarrow> bind_action (on_db (transfer_for_request (rc_request_id receive) (rc_owner receive))) (\<lambda>t.
                   lift_result (ok_or t (Failure ''Lightning settled before its Spark transfer''))))
             (\<lambda>transfer_id.
               then_action (on_db (insert_transfer transfer_id (rc_request_id receive) ''LIGHTNING_RECEIVE''
                   ''TRANSFER_COMPLETED'' (rc_owner receive)))
               (then_action (on_db (set_receive_status payment_hash ''TRANSFER_COMPLETED'')) (ret True)))))"

text \<open>The status an observation returns; a failed settlement leaves SETTLING for the reconciler.\<close>

definition settle_or_keep :: "environment \<Rightarrow> payment \<Rightarrow> string \<Rightarrow> (world, string) action" where
  "settle_or_keep env p payment_id =
     handle (settle_succeeded_payment env p) (\<lambda>_. ret ''SUCCEEDED'')
       (\<lambda>_. then_action (ignore (set_payment_status payment_id ''SETTLING'')) (ret ''SETTLING''))"

definition observe_payment :: "environment \<Rightarrow> string \<Rightarrow> (world, string) action" where
  "observe_payment env payment_id =
     bind_action (handle (on_db (payment_status payment_id)) ret (\<lambda>_. ret '''')) (\<lambda>cached.
     handle (ask (CallDetails payment_id) (\<lambda>h. e_details env h payment_id))
       (\<lambda>found. case found of
          None \<Rightarrow> ret cached
        | Some p \<Rightarrow> (case p_status p of
            PaymentSucceeded \<Rightarrow> if cached = ''SUCCEEDED'' then ret cached else settle_or_keep env p payment_id
          | PaymentFailed \<Rightarrow> handle (fail_managed_payment env (p_id p) None)
              (\<lambda>_. ret ''FAILED'') (\<lambda>_. ret ''REFUNDING'')
          | PaymentPending \<Rightarrow> ret (if cached = '''' \<or> cached = ''UNKNOWN'' then ''PENDING'' else cached)))
       (\<lambda>_. ret cached))"

section \<open>Driving a send\<close>

definition refresh_route_cltv :: "environment \<Rightarrow> lightning_send \<Rightarrow> (world, lightning_send) action" where
  "refresh_route_cltv env send =
     bind_action (ask (CallFunding send) (\<lambda>h. e_funding env h send)) (\<lambda>cltv.
     then_action (if cltv \<noteq> ls_max_route_cltv send
         then on_db (set_lightning_send_route_cltv (ls_request_id send) cltv) else ret ())
       (ret (send\<lparr>ls_max_route_cltv := cltv\<rparr>)))"

definition submit_send :: "environment \<Rightarrow> lightning_send \<Rightarrow> (world, unit) action" where
  "submit_send env send =
     bind_action (on_db (lightning_receive_hash_for_invoice (ls_invoice send))) (\<lambda>own.
     if own \<noteq> None then process_internal_send env send
     else if ls_status send \<noteq> Prepared then ret ()
     else bind_action (refresh_route_cltv env send) (submit_durable_send env))"

definition recover_send :: "environment \<Rightarrow> lightning_send \<Rightarrow> (world, unit) action" where
  "recover_send env send =
     (if terminal (ls_status send) then ret ()
      else bind_action (on_db (lightning_receive_hash_for_invoice (ls_invoice send))) (\<lambda>own.
        if own \<noteq> None then process_internal_send env send
        else if ls_status send = Prepared then submit_send env send
        else bind_action (recover_submission env send) (\<lambda>found.
          case found of
            Some p \<Rightarrow> void (observe_payment env (p_id p))
          | None \<Rightarrow>
              if ls_kind send = Bolt11 \<and> ls_status send = Submitting \<and> ls_payment_id send = None
              then bind_action (refresh_route_cltv env send) (retry_missing_bolt11 env)
              else on_db (lightning_submission_error (ls_request_id send)
                ''LDK has no matching payment; inspect the backend and its event log. This intent will not be resubmitted without an idempotent backend contract.''))))"

definition reconcile_request :: "environment \<Rightarrow> string \<Rightarrow> (world, string) action" where
  "reconcile_request env i =
     bind_action (on_db (lightning_send_for_payment i)) (\<lambda>found.
     case found of
       None \<Rightarrow> throw (Failure ''Lightning send request not found'')
     | Some send \<Rightarrow> then_action (recover_send env send) (on_db (payment_status (ls_request_id send))))"

definition backend_payment_status :: "environment \<Rightarrow> string \<Rightarrow> (world, string) action" where
  "backend_payment_status env payment_id =
     bind_action (handle (on_db (payment_status payment_id)) ret (\<lambda>_. ret '''')) (\<lambda>cached.
     handle (on_db (lightning_send_for_payment payment_id))
       (\<lambda>found. case found of
          None \<Rightarrow> ret cached
        | Some send \<Rightarrow> then_action (ignore (recover_send env send))
            (handle (on_db (payment_status (ls_request_id send))) ret (\<lambda>_. ret cached)))
       (\<lambda>_. ret cached))"

section \<open>Events and reconciliation\<close>

definition apply_ln_event :: "environment \<Rightarrow> ln_event \<Rightarrow> (world, unit) action" where
  "apply_ln_event env event = (case event of
     OutboundSucceeded p \<Rightarrow> handle (is_managed_outbound (p_id p))
       (\<lambda>managed. if managed then void (settle_or_keep env p (p_id p)) else ret ()) (\<lambda>_. ret ())
   | OutboundFailed payment_id reason \<Rightarrow> handle (is_managed_outbound payment_id)
       (\<lambda>managed. if managed then ignore (fail_managed_payment env payment_id reason) else ret ()) (\<lambda>_. ret ())
   | InboundClaimable p \<Rightarrow> ignore (process_standard_receive env p)
   | InboundReceived payment_id hash \<Rightarrow> ignore (finish_received_payment payment_id hash)
   | InboundBolt12Received offer hash preimage amount \<Rightarrow> ignore (finish_bolt12_receive env offer hash preimage amount))"

definition reconcile_outbound :: "environment \<Rightarrow> payment \<Rightarrow> (world, unit) action" where
  "reconcile_outbound env p =
     bind_action (is_managed_outbound (p_id p)) (\<lambda>managed.
     if \<not> managed then ret ()
     else (case p_status p of
       PaymentSucceeded \<Rightarrow> handle (settle_succeeded_payment env p) ret (\<lambda>_. set_payment_status (p_id p) ''SETTLING'')
     | PaymentFailed \<Rightarrow> fail_managed_payment env (p_id p) None
     | PaymentPending \<Rightarrow> set_payment_status (p_id p) ''PENDING''))"

definition reconcile_inbound :: "environment \<Rightarrow> payment \<Rightarrow> (world, unit) action" where
  "reconcile_inbound env p = (case bolt12_offer_ids (Some p) of
     Some (offer, hash) \<Rightarrow>
       if p_status p = PaymentSucceeded
       then ignore (finish_bolt12_receive env offer hash (bolt12_preimage (Some p)) (p_amount_msat p)) else ret ()
   | None \<Rightarrow> (case bolt11_hash (Some p) of
       None \<Rightarrow> ret ()
     | Some hash \<Rightarrow> bind_action (on_db (lightning_receive_for_hash hash)) (\<lambda>found.
         if found = None then ret ()
         else (case p_status p of
           PaymentSucceeded \<Rightarrow> ignore (finish_received_payment (p_id p) hash)
         | PaymentFailed \<Rightarrow> on_db (fail_external_receive hash (p_id p))
         | PaymentPending \<Rightarrow> ignore (process_standard_receive env
             \<lparr>cl_payment_id = p_id p, cl_payment_hash = hash, cl_amount_msat = bolt11_claimable_amount p\<rparr>)))))"

definition reconcile_payment :: "environment \<Rightarrow> payment \<Rightarrow> (world, unit) action" where
  "reconcile_payment env p = (if p_outbound p then reconcile_outbound env p else reconcile_inbound env p)"

fun reconcile_pages :: "environment \<Rightarrow> nat \<Rightarrow> string option \<Rightarrow> (world, unit) action" where
  "reconcile_pages env 0 token =
     (if token = None then ret () else throw (Failure ''ldk payment reconciliation exceeded 100 pages''))"
| "reconcile_pages env (Suc n) token =
     bind_action (ask (CallList token) (\<lambda>h. e_list env h token)) (\<lambda>(ps, next_token).
     then_action (for_each ps (reconcile_payment env))
       (if next_token = None then ret () else reconcile_pages env n next_token))"

text \<open>An invoice past its expiry with nothing in progress is closed locally.\<close>

definition expire_receive :: "environment \<Rightarrow> string \<Rightarrow> (world, unit) action" where
  "expire_receive env hash =
     bind_action (on_db (lightning_receive_for_hash hash)) (\<lambda>found.
     case found of
       None \<Rightarrow> ret ()
     | Some receive \<Rightarrow>
         bind_action (on_db (internal_send hash)) (\<lambda>reserved.
         if reserved \<noteq> None \<or> rc_transfer_id receive \<noteq> None \<or> rc_status receive \<in> {TransferCompleted, HtlcFailed}
         then ret ()
         else bind_action (on_db (transfer_for_request (rc_request_id receive) (rc_owner receive))) (\<lambda>t.
           if t \<noteq> None then ret ()
           else bind_action (case rc_payment_id receive of
                 Some i \<Rightarrow> handle (retry_bounded receive_retry_delays (ask_fail env i)) (\<lambda>_. ret True) (\<lambda>_. ret False)
               | None \<Rightarrow> ret True)
             (\<lambda>failed. if failed then on_db (set_receive_status hash ''HTLC_FAILED'') else ret ()))))"

definition reconcile_send :: "environment \<Rightarrow> lightning_send \<Rightarrow> (world, unit) action" where
  "reconcile_send env send = handle (recover_send env send) ret
     (\<lambda>err. on_db (lightning_submission_error (ls_request_id send) (error_text err)))"

definition reconcile_payments :: "environment \<Rightarrow> (world, unit) action" where
  "reconcile_payments env =
     bind_action (on_db unresolved_lightning_sends) (\<lambda>sends.
     then_action (for_each sends (reconcile_send env))
     (then_action (reconcile_pages env 100 None)
     (bind_action (\<lambda>w. on_db (expired_receive_hashes (e_now env (w_calls w))) w) (\<lambda>hashes.
       for_each hashes (expire_receive env)))))"

section \<open>What calls a handler makes\<close>

lemma calls_ask_fail: "P (CallFail i) \<Longrightarrow> obeys (calls_only P) (ask_fail env i)"
  by (simp add: ask_fail_def calls_ask)

lemmas calls_intros = calls_only.obeys_intros calls_only.obeys_retry calls_only.obeys_ignore
  calls_only.obeys_case_prod calls_on_db calls_ask_fail calls_ask

section \<open>Receives: what may be paid\<close>

text \<open>The calls a claimable event may cause, for the receive it was matched with.\<close>

definition receive_call_allowed ::
  "environment \<Rightarrow> claimable_receive \<Rightarrow> lightning_receive \<Rightarrow> call \<Rightarrow> bool" where
  "receive_call_allowed env payment receive c \<longleftrightarrow>
     c = CallFail (cl_payment_id payment) \<or>
     (\<exists>a. cl_amount_msat payment = Some a \<and> unat a = unat (rc_amount_sats receive) * 1000 \<and>
        \<not> foreign_attempt receive (cl_payment_id payment) \<and>
        ((c = CallSwap (rc_receiver receive) (cl_payment_hash payment) (rc_invoice receive) (rc_amount_sats receive) \<and>
            (rc_transfer_id receive = None \<or> rc_preimage receive = None)) \<or>
         (\<exists>pre. c = CallClaim (cl_payment_id payment) a pre \<and> \<not> rc_claim_submitted receive \<and>
            validate_preimage_in env (cl_payment_hash payment) pre = Inr ())))"

lemma claim_receive_calls:
  assumes "cl_amount_msat payment = Some a" "unat a = unat (rc_amount_sats receive) * 1000"
    "\<not> foreign_attempt receive (cl_payment_id payment)"
  shows "obeys (calls_only (receive_call_allowed env payment receive)) (claim_receive env payment receive a pre)"
proof (cases "validate_preimage_in env (cl_payment_hash payment) pre")
  case (Inl e)
  then show ?thesis by (simp add: claim_receive_def calls_only.obeys_ret calls_only.obeys_throw)
next
  case (Inr u)
  then show ?thesis
    unfolding claim_receive_def
    by (auto intro!: calls_intros simp: receive_call_allowed_def assms)
qed

lemma fail_unfunded_calls:
  "P (CallFail (cl_payment_id payment)) \<Longrightarrow> obeys (calls_only P) (fail_unfunded_receive env payment)"
  unfolding fail_unfunded_receive_def by (intro calls_intros)

lemma fund_receive_calls:
  assumes "cl_amount_msat payment = Some a" "unat a = unat (rc_amount_sats receive) * 1000"
    "\<not> foreign_attempt receive (cl_payment_id payment)" "rc_transfer_id receive = None \<or> rc_preimage receive = None"
  shows "obeys (calls_only (receive_call_allowed env payment receive)) (fund_receive env payment receive)"
  unfolding fund_receive_def Let_def
  by (intro calls_intros fail_unfunded_calls) (use assms in \<open>auto simp: receive_call_allowed_def\<close>)

lemma process_known_calls:
  "obeys (calls_only (receive_call_allowed env payment receive)) (process_known_receive env payment receive)"
proof -
  have fail: "receive_call_allowed env payment receive (CallFail (cl_payment_id payment))"
    by (simp add: receive_call_allowed_def)
  have pay: "obeys (calls_only (receive_call_allowed env payment receive)) (pay_receive env payment receive a)"
    if "cl_amount_msat payment = Some a" "checked_mul (rc_amount_sats receive) 1000 = Some a"
      "\<not> foreign_attempt receive (cl_payment_id payment)" for a
  proof -
    have a: "unat a = unat (rc_amount_sats receive) * 1000"
      using unat_checked_mul [OF that(2)] by simp
    note claim = claim_receive_calls [OF that(1) a that(3)] and fund = fund_receive_calls [OF that(1) a that(3)]
    show ?thesis
      by (cases "rc_transfer_id receive"; cases "rc_preimage receive")
        (simp_all add: pay_receive_def claim fund calls_only.obeys_bind)
  qed
  show ?thesis
    unfolding process_known_receive_def
    by (cases "checked_mul (rc_amount_sats receive) 1000"; cases "cl_amount_msat payment")
      (auto intro!: calls_intros fail_unfunded_calls fail pay)
qed

lemma standard_receive_run:
  "process_standard_receive env payment w =
      (if list_ex (\<lambda>i. ip_hash i = cl_payment_hash payment) (internal_payments (w_db w))
       then then_action (retry_bounded receive_retry_delays (ask_fail env (cl_payment_id payment))) (ret True) w
       else case first_row (\<lambda>r. lr_hash r = cl_payment_hash payment) (lightning_receives (w_db w)) of
         None \<Rightarrow> then_action (retry_bounded receive_retry_delays (ask_fail env (cl_payment_id payment))) (ret False) w
       | Some r \<Rightarrow> process_known_receive env payment (receive_view (w_db w) r) w)"
  by (auto simp: process_standard_receive_def on_db_def internal_send_def lightning_receive_for_hash_def
      query_optional_def bind_action_def ret_def list_ex_iff first_row_None split: option.split
      dest: first_row_SomeD)

text \<open>C1. A claimable Lightning payment only moves money under the invoice's terms: over all
  answers and retries, the handler calls Spark only for the matched receive's exact terms,
  only when the held amount is a thousand times the invoice's satoshis, only for the payment
  the receive is bound to, and not when a swap is already committed; it claims only with a
  preimage of the payment hash, only that amount, and not twice; it otherwise only fails that
  same payment.\<close>

theorem standard_receive_calls_allowed:
  assumes "c \<in> set (new_calls (process_standard_receive env payment) w)" "c \<noteq> CallFail (cl_payment_id payment)"
  shows "\<exists>r\<in>set (lightning_receives (w_db w)). lr_hash r = cl_payment_hash payment \<and>
    receive_call_allowed env payment (receive_view (w_db w) r) c \<and>
    (\<forall>i\<in>set (internal_payments (w_db w)). ip_hash i \<noteq> cl_payment_hash payment)"
proof -
  let ?hash = "cl_payment_hash payment"
  let ?fail = "retry_bounded receive_retry_delays (ask_fail env (cl_payment_id payment))"
  have only_fail: "c = CallFail (cl_payment_id payment)" if "c \<in> set (new_calls (then_action ?fail (ret b)) w)" for b :: bool
    using new_calls_satisfy [of "\<lambda>c. c = CallFail (cl_payment_id payment)" "then_action ?fail (ret b)", OF _ that]
    by (blast intro: calls_intros)
  note run = standard_receive_run [of env payment w]
  show ?thesis
  proof (cases "list_ex (\<lambda>i. ip_hash i = ?hash) (internal_payments (w_db w))")
    case True
    then have "new_calls (process_standard_receive env payment) w = new_calls (then_action ?fail (ret True)) w"
      by (simp add: new_calls_def state_after_def run)
    then show ?thesis using assms only_fail by simp
  next
    case False
    show ?thesis
    proof (cases "first_row (\<lambda>r. lr_hash r = ?hash) (lightning_receives (w_db w))")
      case None
      then have "new_calls (process_standard_receive env payment) w = new_calls (then_action ?fail (ret False)) w"
        using False by (simp add: new_calls_def state_after_def run)
      then show ?thesis using assms only_fail by simp
    next
      case (Some r)
      then have "new_calls (process_standard_receive env payment) w =
          new_calls (process_known_receive env payment (receive_view (w_db w) r)) w"
        using False by (simp add: new_calls_def state_after_def run)
      then have "receive_call_allowed env payment (receive_view (w_db w) r) c"
        using assms(1) new_calls_satisfy [OF process_known_calls] by metis
      then show ?thesis using first_row_SomeD [OF Some] False by (auto simp: list_ex_iff)
    qed
  qed
qed

section \<open>Offers are submitted once\<close>

definition is_offer_submit :: "string \<Rightarrow> call \<Rightarrow> bool" where
  "is_offer_submit rid c = (case c of CallSubmit s \<Rightarrow> ls_request_id s = rid \<and> ls_kind s = Bolt12 | _ \<Rightarrow> False)"

text \<open>
  A step keeps the sends, submits the offer of a request at most once, never after its
  checkpoint was passed, and leaves the checkpoint passed when it submits.
\<close>

definition submits_once :: "string \<Rightarrow> world \<Rightarrow> world \<Rightarrow> bool" where
  "submits_once rid w w' \<longleftrightarrow> sends_kept (w_db w) (w_db w') \<and>
     (\<exists>cs. w_calls w' = w_calls w @ cs \<and>
       (launched rid (w_db w) \<longrightarrow> filter (is_offer_submit rid) cs = []) \<and>
       length (filter (is_offer_submit rid) cs) \<le> 1 \<and>
       (filter (is_offer_submit rid) cs \<noteq> [] \<longrightarrow> launched rid (w_db w')))"

lemma submits_once_trans:
  assumes "submits_once rid u v" "submits_once rid v w"
  shows "submits_once rid u w"
proof -
  let ?f = "filter (is_offer_submit rid)"
  obtain c1 c2 where
    1: "sends_kept (w_db u) (w_db v)" "w_calls v = w_calls u @ c1" "launched rid (w_db u) \<longrightarrow> ?f c1 = []"
      "length (?f c1) \<le> 1" "?f c1 \<noteq> [] \<longrightarrow> launched rid (w_db v)" and
    2: "sends_kept (w_db v) (w_db w)" "w_calls w = w_calls v @ c2" "launched rid (w_db v) \<longrightarrow> ?f c2 = []"
      "length (?f c2) \<le> 1" "?f c2 \<noteq> [] \<longrightarrow> launched rid (w_db w)"
    using assms unfolding submits_once_def by blast
  have "sends_kept (w_db u) (w_db w)" using 1(1) 2(1) by (rule kept_table.evolve_trans)
  moreover have "w_calls w = w_calls u @ (c1 @ c2)" using 1(2) 2(2) by simp
  moreover have "launched rid (w_db u) \<longrightarrow> ?f (c1 @ c2) = []"
    using launched_kept [OF 1(1)] 1(3) 2(3) by auto
  moreover have "length (?f (c1 @ c2)) \<le> 1"
    using 1(4,5) 2(3,4) by (cases "?f c1 = []") auto
  moreover have "?f (c1 @ c2) \<noteq> [] \<longrightarrow> launched rid (w_db w)"
    using 1(5) 2(5) launched_kept [OF 2(1)] by (cases "?f c1 = []") auto
  ultimately show ?thesis unfolding submits_once_def by blast
qed

interpretation once: step_relation "submits_once rid" for rid
  by unfold_locales (simp add: submits_once_def kept_table.evolve_same, rule submits_once_trans)

lemma once_on_db: "obeys sends_kept m \<Longrightarrow> obeys (submits_once rid) (on_db m)"
  by (auto simp: obeys_def submits_once_def on_db_def split: prod.split) (metis snd_conv)

lemma once_ask: "\<not> is_offer_submit rid c \<Longrightarrow> obeys (submits_once rid) (ask c answer)"
  by (auto simp: obeys_def submits_once_def ask_def kept_table.evolve_same)

text \<open>The store operations the handlers use, queries included.\<close>

lemma kept_status:
  "obeys sends_kept (set_payment i ''SUCCEEDED'')" "obeys sends_kept (set_payment i ''FAILED'')"
  "obeys sends_kept (set_payment i ''REFUNDING'')" "obeys sends_kept (set_payment i ''SETTLING'')"
  "obeys sends_kept (set_payment i ''PENDING'')"
  by (rule evolve_kept, rule set_payment_evolves, simp)+

lemma kept_queries:
  "obeys sends_kept (lightning_send_for_payment i)" "obeys sends_kept (internal_send h)"
  "obeys sends_kept (lightning_receive_for_hash h)" "obeys sends_kept (lightning_receive_hash_for_invoice invoice)"
  "obeys sends_kept (payment_status i)" "obeys sends_kept (transfer_for_request i owner)"
  "obeys sends_kept unresolved_lightning_sends" "obeys sends_kept (expired_receive_hashes n)"
  by (simp_all add: obeys_def lightning_send_for_payment_def internal_send_def lightning_receive_for_hash_def
      lightning_receive_hash_for_invoice_def payment_status_def transfer_for_request_def
      unresolved_lightning_sends_def expired_receive_hashes_def statement_defs action_defs kept_table.evolve_same)

lemmas kept_ops = kept_status kept_queries internal_writes_keep
  send_writes_evolve [THEN evolve_kept] other_writes_evolve [THEN evolve_kept] state_dependent_evolve [THEN evolve_kept]

lemmas once_intros = once.obeys_intros once.obeys_retry once.obeys_ignore once.obeys_case_prod
  once_on_db once_ask kept_ops

lemma once_ask_fail: "obeys (submits_once rid) (ask_fail env i)"
  unfolding ask_fail_def by (rule once_ask) (simp add: is_offer_submit_def)

lemma once_submit_bolt11: "ls_kind send = Bolt11 \<Longrightarrow> obeys (submits_once rid) (ask_submit env send)"
  unfolding ask_submit_def by (rule once_ask) (simp add: is_offer_submit_def)

lemma once_recover: "obeys (submits_once rid) (recover_submission env send)"
  unfolding recover_submission_def ask_lookup_def
  by (intro once_intros) (simp add: is_offer_submit_def)

lemma once_retry: "obeys (submits_once rid) (retry_missing_bolt11 env send)"
proof (cases "ls_kind send = Bolt11")
  case True
  then show ?thesis
    unfolding retry_missing_bolt11_def
    by (intro once_intros once_submit_bolt11 once_recover)
qed (simp add: retry_missing_bolt11_def once.obeys_throw)

lemma begin_false_or_launched:
  "begin_lightning_submission rid d = (r, d') \<Longrightarrow> r = Inr False \<or> (r = Inr True \<and> launched rid d' \<and> \<not> launched rid d)"
  using begin_launches [of rid d d'] launched_refuses [of rid d]
  by (auto simp: begin_lightning_submission_def update_where_def action_defs)

lemma once_submit_durable: "obeys (submits_once rid) (submit_durable_send env send)"
proof (cases "is_offer_submit rid (CallSubmit send)")
  case False
  then show ?thesis
    unfolding submit_durable_send_def ask_submit_def by (intro once_intros)
next
  case True
  then have rid: "ls_request_id send = rid" by (simp add: is_offer_submit_def)
  show ?thesis
    unfolding obeys_def
  proof
    fix w :: world
    obtain r d where b: "begin_lightning_submission rid (w_db w) = (r, d)"
      by (cases "begin_lightning_submission rid (w_db w)")
    have kept: "sends_kept (w_db w) d"
      using send_writes_evolve(3) [THEN evolve_kept, of rid] b by (simp add: obeys_def) (metis snd_conv)
    let ?after = "w\<lparr>w_db := d, w_calls := w_calls w @ [CallSubmit send]\<rparr>"
    from begin_false_or_launched [OF b] show "submits_once rid w (snd (submit_durable_send env send w))"
    proof
      assume "r = Inr False"
      then show ?thesis
        using b kept by (simp add: submit_durable_send_def bind_action_def on_db_def rid ret_def submits_once_def)
    next
      assume begun: "r = Inr True \<and> launched rid d \<and> \<not> launched rid (w_db w)"
      let ?rest = "case e_submit env (w_calls w) send of
          Inl err \<Rightarrow> on_db (lightning_submission_error rid (error_text err))
        | Inr i \<Rightarrow> on_db (bind_lightning_payment rid i)"
      have "snd (submit_durable_send env send w) = snd (?rest ?after)"
        using b begun by (simp add: submit_durable_send_def bind_action_def on_db_def rid handle_def ask_submit_def
            ask_def split: sum.split prod.split)
      moreover have "obeys (submits_once rid) ?rest"
        by (cases "e_submit env (w_calls w) send") (simp_all add: once_on_db kept_ops)
      ultimately have "submits_once rid ?after (snd (submit_durable_send env send w))"
        by (simp add: obeys_def)
      then show ?thesis
        using begun kept True
        by (auto simp: submits_once_def intro: kept_table.evolve_trans launched_kept)
    qed
  qed
qed

text \<open>Every handler, over every answer.\<close>

lemma not_offer_submit [simp]:
  "\<not> is_offer_submit rid (CallLookup s)" "\<not> is_offer_submit rid (CallDetails i)" "\<not> is_offer_submit rid (CallList t)"
  "\<not> is_offer_submit rid (CallSwap a b c n)" "\<not> is_offer_submit rid (CallClaim a n b)" "\<not> is_offer_submit rid (CallFail i)"
  "\<not> is_offer_submit rid (CallVerifySender s)" "\<not> is_offer_submit rid (CallFunding s)"
  "\<not> is_offer_submit rid (CallSettleSend a b c)" "\<not> is_offer_submit rid (CallRefund a b n)"
  "\<not> is_offer_submit rid (CallSettleReceive a b n)"
  by (simp_all add: is_offer_submit_def)

lemma once_case_result:
  "(\<And>e. obeys (submits_once rid) (f e)) \<Longrightarrow> (\<And>x. obeys (submits_once rid) (g x)) \<Longrightarrow>
   obeys (submits_once rid) (case r of Inl e \<Rightarrow> f e | Inr x \<Rightarrow> g x)"
  by (simp split: sum.split)

lemma once_internal: "obeys (submits_once rid) (process_internal_send env send)"
proof -
  have "obeys (submits_once rid) (\<lambda>w. on_db (reserve_internal_send (e_now env (w_calls w)) send) w)"
    using once_on_db [OF internal_writes_keep(1)] by (simp add: obeys_def)
  then show ?thesis
    unfolding process_internal_send_def settle_internal_def internal_preimage_def
    by (intro once_intros) simp_all
qed

lemma once_standard_receive: "obeys (submits_once rid) (process_standard_receive env payment)"
proof -
  have claim: "obeys (submits_once rid) (claim_receive env payment receive a pre)" for receive a pre
    unfolding claim_receive_def by (intro once_intros) simp
  have fail: "obeys (submits_once rid) (fail_unfunded_receive env payment)"
    unfolding fail_unfunded_receive_def by (intro once_intros once_ask_fail)
  have fund: "obeys (submits_once rid) (fund_receive env payment receive)" for receive
    unfolding fund_receive_def Let_def by (intro once_intros fail) simp
  have "obeys (submits_once rid) (pay_receive env payment receive a)" for receive a
    by (cases "rc_transfer_id receive"; cases "rc_preimage receive")
      (simp_all add: pay_receive_def claim fund once.obeys_bind)
  then show ?thesis
    unfolding process_standard_receive_def process_known_receive_def
    by (intro once_intros once_ask_fail fail)
qed

lemma once_settle: "obeys (submits_once rid) (settle_succeeded_payment env p)"
proof -
  have "obeys (submits_once rid) (settle_by_kind env send kind)" for send kind
    unfolding settle_by_kind_def by (auto intro!: once_intros split: option.split payment_kind.split)
  then show ?thesis
    unfolding settle_succeeded_payment_def set_payment_status_def by (intro once_intros)
qed

lemma once_fail_managed: "obeys (submits_once rid) (fail_managed_payment env i reason)"
  unfolding fail_managed_payment_def set_payment_status_def by (intro once_intros) simp

lemma once_settle_or_keep: "obeys (submits_once rid) (settle_or_keep env p i)"
  unfolding settle_or_keep_def set_payment_status_def by (intro once_intros once_settle)

lemma once_observe: "obeys (submits_once rid) (observe_payment env i)"
proof -
  have "obeys (submits_once rid) (case p_status p of
            PaymentSucceeded \<Rightarrow> if cached = ''SUCCEEDED'' then ret cached else settle_or_keep env p i
          | PaymentFailed \<Rightarrow> handle (fail_managed_payment env (p_id p) None)
              (\<lambda>_. ret ''FAILED'') (\<lambda>_. ret ''REFUNDING'')
          | PaymentPending \<Rightarrow> ret (if cached = '''' \<or> cached = ''UNKNOWN'' then ''PENDING'' else cached))" for p cached
    by (cases "p_status p") (simp_all add: once_settle_or_keep once_fail_managed once.obeys_handle once.obeys_ret)
  then show ?thesis
    unfolding observe_payment_def by (intro once_intros) simp
qed

lemma once_refresh: "obeys (submits_once rid) (refresh_route_cltv env send)"
  unfolding refresh_route_cltv_def by (intro once_intros) simp

lemma once_submit_send: "obeys (submits_once rid) (submit_send env send)"
  unfolding submit_send_def by (intro once_intros once_internal once_refresh once_submit_durable)

lemma once_recover_send: "obeys (submits_once rid) (recover_send env send)"
  unfolding recover_send_def
  by (intro once_intros once_internal once_submit_send once_recover once_observe once_refresh once_retry)

lemma once_finish_bolt12: "obeys (submits_once rid) (finish_bolt12_receive env offer hash pre amount)"
  unfolding finish_bolt12_receive_def by (intro once_intros) simp

lemma once_finish_received: "obeys (submits_once rid) (finish_received_payment i hash)"
  unfolding finish_received_payment_def by (intro once_intros)

lemma once_event: "obeys (submits_once rid) (apply_ln_event env event)"
proof (cases event)
  case (OutboundSucceeded p)
  then show ?thesis
    by (auto simp: apply_ln_event_def is_managed_outbound_def intro!: once_intros once_settle_or_keep)
next
  case (OutboundFailed i r)
  then show ?thesis
    by (auto simp: apply_ln_event_def is_managed_outbound_def intro!: once_intros once_fail_managed)
qed (auto simp: apply_ln_event_def intro!: once.obeys_ignore once_standard_receive once_finish_received once_finish_bolt12)

lemma once_reconcile_payment: "obeys (submits_once rid) (reconcile_payment env p)"
proof -
  have "obeys (submits_once rid) (reconcile_outbound env p)"
    unfolding reconcile_outbound_def is_managed_outbound_def set_payment_status_def
    by (cases "p_status p") (auto intro!: once_intros once_settle once_fail_managed)
  moreover have "obeys (submits_once rid) (reconcile_inbound env p)"
    unfolding reconcile_inbound_def
    by (cases "p_status p")
      (auto intro!: once_intros once_finish_bolt12 once_finish_received once_standard_receive split: option.split)
  ultimately show ?thesis by (simp add: reconcile_payment_def)
qed

lemma once_pages: "obeys (submits_once rid) (reconcile_pages env n token)"
proof (induction n arbitrary: token)
  case 0
  show ?case by (simp add: once.obeys_ret once.obeys_throw)
next
  case (Suc n)
  show ?case
    unfolding reconcile_pages.simps by (intro once_intros once_reconcile_payment Suc) simp
qed

lemma once_reconcile: "obeys (submits_once rid) (reconcile_payments env)"
proof -
  have now: "obeys (submits_once rid) (\<lambda>w. on_db (expired_receive_hashes (e_now env (w_calls w))) w)"
    using once_on_db [OF kept_queries(8)] by (simp add: obeys_def)
  have "obeys (submits_once rid) (expire_receive env hash)" for hash
    unfolding expire_receive_def by (intro once_intros once_ask_fail)
  then show ?thesis
    unfolding reconcile_payments_def reconcile_send_def
    by (intro once_intros once_pages once_recover_send now)
qed

lemma once_reconcile_request: "obeys (submits_once rid) (reconcile_request env i)"
  unfolding reconcile_request_def by (intro once_intros once_recover_send)

lemma once_backend_status: "obeys (submits_once rid) (backend_payment_status env i)"
  unfolding backend_payment_status_def by (intro once_intros once_recover_send)

datatype handler =
    HandleSubmit lightning_send
  | HandleRecover lightning_send
  | HandleReconcile
  | HandleReconcileRequest string
  | HandleStatus string
  | HandleEvent ln_event
  | HandleStore store_op

fun run_handler :: "environment \<Rightarrow> (string \<Rightarrow> int option) \<Rightarrow> handler \<Rightarrow> (world, unit) action" where
  "run_handler env parse (HandleSubmit send) = submit_send env send"
| "run_handler env parse (HandleRecover send) = recover_send env send"
| "run_handler env parse HandleReconcile = reconcile_payments env"
| "run_handler env parse (HandleReconcileRequest i) = void (reconcile_request env i)"
| "run_handler env parse (HandleStatus i) = void (backend_payment_status env i)"
| "run_handler env parse (HandleEvent event) = apply_ln_event env event"
| "run_handler env parse (HandleStore op) = void (on_db (perform parse (e_decode env) op))"

fun run_handlers :: "environment \<Rightarrow> (string \<Rightarrow> int option) \<Rightarrow> handler list \<Rightarrow> world \<Rightarrow> world" where
  "run_handlers env parse [] w = w"
| "run_handlers env parse (h # hs) w = run_handlers env parse hs (snd (run_handler env parse h w))"

fun handler_allowed :: "handler \<Rightarrow> bool" where
  "handler_allowed (HandleStore op) \<longleftrightarrow> op_allowed op"
| "handler_allowed _ \<longleftrightarrow> True"

lemma once_handler: "handler_allowed h \<Longrightarrow> obeys (submits_once rid) (run_handler env parse h)"
  by (cases h) (auto intro: once_submit_send once_recover_send once_reconcile once_reconcile_request
      once_backend_status once_event once_on_db perform_keeps once.obeys_void)

lemma run_handlers_once:
  "\<forall>h\<in>set hs. handler_allowed h \<Longrightarrow> submits_once rid w (run_handlers env parse hs w)"
proof (induction hs arbitrary: w)
  case Nil
  show ?case using once.R_refl by simp
next
  case (Cons h hs)
  let ?w = "snd (run_handler env parse h w)"
  have "submits_once rid w ?w"
    using once_handler [of h rid env parse] Cons.prems by (simp add: obeys_def)
  moreover have "submits_once rid ?w (run_handlers env parse hs ?w)"
    using Cons by simp
  ultimately show ?case using submits_once_trans by auto
qed

section \<open>A concrete node\<close>

text \<open>An environment for examples: every call succeeds, except that submissions lose their reply.\<close>

definition example_env :: environment where
  "example_env = \<lparr>e_submit = (\<lambda>_ _. Inl (Failure ''timeout'')), e_lookup = (\<lambda>_ _. Inr None),
     e_details = (\<lambda>_ _. Inr None), e_list = (\<lambda>_ _. Inr ([], None)),
     e_swap = (\<lambda>_ _ _ _ _. Inr \<lparr>rs_transfer_id = ''transfer'', rs_preimage = ''pre''\<rparr>),
     e_claim = (\<lambda>_ _ _ _. Inr ()), e_fail = (\<lambda>_ _. Inr ()), e_verify_sender = (\<lambda>_ _. Inr ()),
     e_funding = (\<lambda>_ _. Inr None), e_settle_send = (\<lambda>_ _ _ _. Inr ()), e_refund = (\<lambda>_ _ _ _. Inr ''refund''),
     e_settle_receive = (\<lambda>_ _ _ _. Inr ''payout''), e_now = (\<lambda>_. 50), e_decode = (\<lambda>_. None),
     e_sha256 = (\<lambda>_. Some ''hash''), e_lower = (\<lambda>s. s)\<rparr>"

definition example_offer_send :: lightning_send where
  "example_offer_send = example_send\<lparr>ls_kind := Bolt12, ls_invoice := ''lno1'', ls_expected_id := ''offer''\<rparr>"

definition example_world :: world where
  "example_world = \<lparr>w_db = example_local_db\<lparr>lightning_sends := []\<rparr>, w_calls = []\<rparr>"

definition example_handlers :: "handler list" where
  "example_handlers = [HandleStore (PrepareSend ''t0'' example_offer_send ''key'' ''REGTEST''),
     HandleSubmit example_offer_send, HandleSubmit example_offer_send, HandleReconcile]"

text \<open>C3. A BOLT12 offer is paid at most once: offers have no payment id the node could reject a
  second time, and over any sequence of submissions, polls, reconciliations, node events and
  store operations, with any answers, lost replies included, the node is asked to pay the
  offer of a request at most once.\<close>

theorem offer_submitted_at_most_once:
  assumes "\<forall>h\<in>set hs. handler_allowed h"
  shows "length (filter (is_offer_submit rid) (drop (length (w_calls w)) (w_calls (run_handlers env parse hs w)))) \<le> 1"
  using run_handlers_once [OF assms, of rid w env parse] by (auto simp: submits_once_def)

lemma offer_submitted_at_most_once_witness:
  "length (filter (is_offer_submit ''req'')
     (drop (length (w_calls example_world)) (w_calls (run_handlers example_env (\<lambda>_. None) example_handlers example_world)))) \<le> 1"
  by (rule offer_submitted_at_most_once) (simp add: example_handlers_def)

definition example_claimable :: claimable_receive where
  "example_claimable = \<lparr>cl_payment_id = ''pay'', cl_payment_hash = ''hash'', cl_amount_msat = Some 21000\<rparr>"

lemma example_view:
  "receive_view (w_db example_world) (hd (lightning_receives (w_db example_world))) =
   \<lparr>rc_request_id = ''r'', rc_owner = ''bob'', rc_receiver = ''bob'', rc_amount_sats = 21, rc_invoice = ''lnbc1'',
    rc_status = InvoiceCreated, rc_transfer_id = None, rc_preimage = None, rc_claim_submitted = False,
    rc_payment_id = None\<rparr>"
  by (simp add: receive_view_def joined_progress_def progress_of_def new_progress_def example_world_def
      example_local_db_def empty_db_def)

lemma example_receive_calls:
  "CallSwap ''bob'' ''hash'' ''lnbc1'' 21 \<in> set (new_calls (process_standard_receive example_env example_claimable) example_world)"
proof -
  have found: "lightning_receive_for_hash ''hash'' (w_db example_world) =
      (Inr (Some (receive_view (w_db example_world) (hd (lightning_receives (w_db example_world))))), w_db example_world)"
    by (simp add: lightning_receive_for_hash_def example_world_def example_local_db_def)
  have none: "internal_send ''hash'' (w_db example_world) = (Inr None, w_db example_world)"
    by (simp add: internal_send_def query_optional_def action_defs example_world_def example_local_db_def empty_db_def)
  have claimable: "mark_receive_claimable ''hash'' ''pay'' 21000 (w_db example_world) =
      (Inr (), state_after (mark_receive_claimable ''hash'' ''pay'' 21000) (w_db example_world))"
    by (simp add: mark_receive_claimable_def i64_of_u64_def i64_max_def progress_upsert_def upsert_def action_defs
        example_world_def example_local_db_def empty_db_def)
  have msat: "checked_mul 21 1000 = Some 21000"
    by (simp add: checked_mul_def)
  have swap: "retry_bounded receive_retry_delays (ask c (\<lambda>_. Inr x)) = ask c (\<lambda>_. Inr x)" for c and x :: receive_swap
    by (simp add: receive_retry_delays_def eval_nat_numeral handle_def ask_def ret_def fun_eq_iff)
  let ?w = "example_world\<lparr>w_db := state_after (mark_receive_claimable ''hash'' ''pay'' 21000) (w_db example_world)\<rparr>"
  let ?view = "receive_view (w_db example_world) (hd (lightning_receives (w_db example_world)))"
  have "process_standard_receive example_env example_claimable example_world =
      bind_action (fund_receive example_env example_claimable ?view)
        (claim_receive example_env example_claimable ?view 21000) ?w"
    by (simp add: process_standard_receive_def example_claimable_def bind_action_def on_db_def found none
        process_known_receive_def foreign_attempt_def example_view msat then_action_def claimable pay_receive_def)
  moreover have "\<exists>cs. w_calls (snd (bind_action (fund_receive example_env example_claimable ?view)
      (claim_receive example_env example_claimable ?view 21000) ?w)) = w_calls ?w @ CallSwap ''bob'' ''hash'' ''lnbc1'' 21 # cs"
  proof -
    let ?answer = "\<lambda>_. Inr \<lparr>rs_transfer_id = ''transfer'', rs_preimage = ''pre''\<rparr>"
    have retried: "retry_bounded receive_retry_delays (ask (CallSwap (rc_receiver ?view) ''hash'' (rc_invoice ?view)
          (rc_amount_sats ?view)) (\<lambda>h. e_swap example_env h (rc_receiver ?view) ''hash'' (rc_invoice ?view) (rc_amount_sats ?view))) =
        ask (CallSwap ''bob'' ''hash'' ''lnbc1'' 21) ?answer"
      by (simp add: example_env_def swap example_view)
    show ?thesis
      unfolding fund_receive_def Let_def example_claimable_def claimable_receive.select_convs retried
        claim_receive_def fail_unfunded_receive_def
      by (rule asked_first; intro calls_intros; simp)
  qed
  ultimately show ?thesis
    by (auto simp: new_calls_def state_after_def example_world_def)
qed

lemma standard_receive_calls_allowed_witness:
  "\<exists>r\<in>set (lightning_receives (w_db example_world)). lr_hash r = cl_payment_hash example_claimable \<and>
    receive_call_allowed example_env example_claimable (receive_view (w_db example_world) r)
      (CallSwap ''bob'' ''hash'' ''lnbc1'' 21) \<and>
    (\<forall>i\<in>set (internal_payments (w_db example_world)). ip_hash i \<noteq> cl_payment_hash example_claimable)"
  by (rule standard_receive_calls_allowed) (simp_all add: example_receive_calls)

section \<open>Claims are backed by a committed swap\<close>

definition committed :: "string \<Rightarrow> db \<Rightarrow> bool" where
  "committed hash d \<longleftrightarrow> (\<exists>p. progress_of d hash = Some p \<and> rp_transfer_id p \<noteq> None \<and> rp_preimage p \<noteq> None)"

definition is_claim :: "call \<Rightarrow> bool" where
  "is_claim c = (case c of CallClaim _ _ _ \<Rightarrow> True | _ \<Rightarrow> False)"

lemma committed_kept:
  assumes "progress_evolves d d'" "committed hash d"
  shows "committed hash d'"
proof -
  obtain p where p: "first_row (\<lambda>p. rp_hash p = hash) (rows receive_payments_t d) = Some p"
      "rp_transfer_id p \<noteq> None" "rp_preimage p \<noteq> None"
    using assms(2) by (auto simp: committed_def progress_of_def)
  obtain p' where "first_row (\<lambda>p. rp_hash p = hash) (rows receive_payments_t d') = Some p'" "progress_advances p p'"
    by (rule progress_table.evolve_first_row [OF assms(1) p(1)])
  then show ?thesis
    using p(2,3) by (auto simp: committed_def progress_of_def progress_advances_def)
qed

interpretation claims: backed_calls progress_evolves is_claim "committed hash" for hash
  by unfold_locales (rule progress_table.evolve_same, simp, rule progress_table.evolve_trans, assumption+,
    rule committed_kept)

abbreviation claims_backed :: "string \<Rightarrow> world \<Rightarrow> world \<Rightarrow> bool" where
  "claims_backed hash \<equiv> claims.backed hash"

lemma backed_fail: "obeys (claims_backed hash) (ask_fail env i)"
  unfolding ask_fail_def by (rule claims.backed_ask) (simp add: is_claim_def)

lemmas backed_intros = claims.kept.obeys_intros claims.kept.obeys_retry claims.kept.obeys_ignore claims.backed_on_db
  receive_writes_evolve claims.backed_ask backed_fail

lemma backed_fail_unfunded: "obeys (claims_backed hash) (fail_unfunded_receive env payment)"
  unfolding fail_unfunded_receive_def by (intro backed_intros)

lemma backed_fund: "obeys (claims_backed hash) (fund_receive env payment receive)"
  unfolding fund_receive_def Let_def
  by (intro backed_intros backed_fail_unfunded) (simp add: is_claim_def)

lemma fund_commits:
  assumes "fund_receive env payment receive w = (Inr pre, w1)"
  shows "committed (cl_payment_hash payment) (w_db w1)"
proof -
  have "\<exists>(swap :: receive_swap) d0. commit_lightning_receive_swap (cl_payment_hash payment)
      (rs_transfer_id swap) (rs_preimage swap) (rc_request_id receive) (rc_owner receive) d0 = (Inr (), w_db w1)"
    using assms
    by (auto simp: fund_receive_def Let_def handle_def then_action_def throw_def bind_action_def ret_def on_db_def
        split: prod.splits sum.splits) blast+
  then obtain swap :: receive_swap and d0 where "commit_lightning_receive_swap (cl_payment_hash payment)
      (rs_transfer_id swap) (rs_preimage swap) (rc_request_id receive) (rc_owner receive) d0 = (Inr (), w_db w1)"
    by blast
  then show ?thesis
    using commit_swap_effect [where hash = "cl_payment_hash payment" and transfer_id = "rs_transfer_id swap"
        and preimage = "rs_preimage swap" and request_id = "rc_request_id receive"
        and owner = "rc_owner receive" and d = d0]
    by (auto simp: committed_def)
qed

interpretation progress_world: step_relation "\<lambda>w w'. progress_evolves (w_db w) (w_db w')"
  by unfold_locales (simp add: progress_table.evolve_same, rule progress_table.evolve_trans)

lemma progress_on_db: "obeys progress_evolves m \<Longrightarrow> obeys (\<lambda>w w'. progress_evolves (w_db w) (w_db w')) (on_db m)"
  by (auto simp: obeys_def on_db_def split: prod.split) (metis snd_conv)

text \<open>From a committed receive, the claim may be made.\<close>

lemma backed_claim:
  assumes "committed (cl_payment_hash payment) (w_db w)"
  shows "claims_backed (cl_payment_hash payment) w (snd (claim_receive env payment receive a pre w))"
proof -
  have "obeys (\<lambda>w w'. progress_evolves (w_db w) (w_db w')) (claim_receive env payment receive a pre)"
    unfolding claim_receive_def ask_def
    by (intro progress_world.obeys_intros progress_world.obeys_retry progress_on_db receive_writes_evolve)
      (simp add: obeys_def progress_table.evolve_same)
  moreover have "obeys (calls_only (\<lambda>_. True)) (claim_receive env payment receive a pre)"
    unfolding claim_receive_def by (intro calls_intros) simp
  ultimately show ?thesis
    using assms by (intro claims.backed_when_held) (auto simp: obeys_def)
qed

lemma backed_pay:
  assumes "rc_transfer_id receive \<noteq> None \<Longrightarrow> rc_preimage receive \<noteq> None \<Longrightarrow> committed (cl_payment_hash payment) (w_db w)"
  shows "claims_backed (cl_payment_hash payment) w (snd (pay_receive env payment receive a w))"
proof -
  have fund: "claims_backed (cl_payment_hash payment) w
      (snd (bind_action (fund_receive env payment receive) (claim_receive env payment receive a) w))"
    by (rule claims.backed_bind [OF obeysD [OF backed_fund]], rule backed_claim, rule fund_commits)
  show ?thesis
    using fund assms by (cases "rc_transfer_id receive"; cases "rc_preimage receive")
      (simp_all add: pay_receive_def backed_claim)
qed

lemma committed_on_db:
  assumes "on_db m w = (r, w1)" "obeys progress_evolves m" "committed hash (w_db w)"
  shows "committed hash (w_db w1)"
  using committed_kept [OF obeysD [OF assms(2)] assms(3)] assms(1)
  by (auto simp: on_db_def split: prod.splits)

lemma backed_known:
  assumes "rc_transfer_id receive \<noteq> None \<Longrightarrow> rc_preimage receive \<noteq> None \<Longrightarrow> committed (cl_payment_hash payment) (w_db w)"
  shows "claims_backed (cl_payment_hash payment) w (snd (process_known_receive env payment receive w))"
proof -
  let ?hash = "cl_payment_hash payment"
  have fail: "obeys (claims_backed ?hash) (then_action (retry_bounded receive_retry_delays (ask_fail env i)) (ret b))"
    for i and b :: bool
    by (intro backed_intros)
  have mismatch: "obeys (claims_backed ?hash) (then_action (fail_unfunded_receive env payment) (throw e))" for e
    by (intro backed_intros backed_fail_unfunded)
  have mark: "obeys progress_evolves (mark_receive_claimable ?hash (cl_payment_id payment) a)" for a
    by (rule receive_writes_evolve)
  have main: "claims_backed ?hash w (snd (then_action (on_db (mark_receive_claimable ?hash (cl_payment_id payment) a))
      (if a \<noteq> b then then_action (fail_unfunded_receive env payment) (throw e)
       else pay_receive env payment receive a) w))" for a b :: u64 and e
    unfolding then_action_def [of "on_db _"]
  proof (rule claims.backed_bind [OF obeysD [OF claims.backed_on_db [OF mark]]])
    fix x w1
    assume w1: "on_db (mark_receive_claimable ?hash (cl_payment_id payment) a) w = (Inr x, w1)"
    show "claims_backed ?hash w1 (snd ((if a \<noteq> b then then_action (fail_unfunded_receive env payment) (throw e)
       else pay_receive env payment receive a) w1))"
    proof (cases "a = b")
      case True
      have "claims_backed ?hash w1 (snd (pay_receive env payment receive a w1))"
        by (rule backed_pay, rule committed_on_db [OF w1 mark], rule assms)
      then show ?thesis using True by simp
    next
      case False
      then show ?thesis using obeysD [OF mismatch] by simp
    qed
  qed
  show ?thesis
    using main fail [THEN obeysD]
    by (auto simp: process_known_receive_def ret_def throw_def claims.backed_refl split: option.splits)
qed

text \<open>C2. Spark's swap always comes before the claim: in every run of the receive handler, over
  all answers, retries and failures, an inbound payment's HTLC is claimed only if the database
  then records the Spark transfer and the preimage of that hash, committed by this run or by an
  earlier one, so a crash after the claim cannot lose the payer's transfer.\<close>

theorem claim_needs_committed_swap:
  assumes "CallClaim i a pre \<in> set (new_calls (process_standard_receive env payment) w)"
  shows "committed (cl_payment_hash payment) (w_db (state_after (process_standard_receive env payment) w))"
proof -
  let ?hash = "cl_payment_hash payment"
  have fail: "obeys (claims_backed ?hash) (then_action (retry_bounded receive_retry_delays (ask_fail env i)) (ret b))"
    for i and b :: bool
    by (intro backed_intros)
  have view: "committed ?hash (w_db w)"
    if "first_row (\<lambda>r. lr_hash r = ?hash) (lightning_receives (w_db w)) = Some r"
      "rc_transfer_id (receive_view (w_db w) r) \<noteq> None" "rc_preimage (receive_view (w_db w) r) \<noteq> None" for r
    using first_row_SomeD [OF that(1)] that(2,3)
    by (auto simp: committed_def receive_view_def joined_progress_def new_progress_def Let_def split: option.splits)
  have "claims_backed ?hash w (snd (process_standard_receive env payment w))"
    unfolding standard_receive_run
    using fail [THEN obeysD] backed_known [OF view] by (auto split: option.split)
  from claims.backed_call [OF this assms] show ?thesis by (simp add: is_claim_def)
qed

definition example_committed_world :: world where
  "example_committed_world = example_world\<lparr>w_db := (w_db example_world)\<lparr>receive_payments :=
     [(new_progress ''hash'' PreimageRecovered)\<lparr>rp_transfer_id := Some ''transfer'', rp_preimage := Some ''pre''\<rparr>]\<rparr>\<rparr>"

lemma example_claim_call:
  "CallClaim ''pay'' 21000 ''pre'' \<in>
     set (new_calls (process_standard_receive example_env example_claimable) example_committed_world)"
proof -
  let ?d = "w_db example_committed_world"
  have db: "lightning_receives ?d = lightning_receives example_local_db" "internal_payments ?d = []"
      "receive_payments ?d = [(new_progress ''hash'' PreimageRecovered)\<lparr>rp_transfer_id := Some ''transfer'', rp_preimage := Some ''pre''\<rparr>]"
      "w_calls example_committed_world = []"
    by (simp_all add: example_committed_world_def example_world_def example_local_db_def empty_db_def)
  let ?view = "\<lparr>rc_request_id = ''r'', rc_owner = ''bob'', rc_receiver = ''bob'', rc_amount_sats = 21, rc_invoice = ''lnbc1'',
    rc_status = PreimageRecovered, rc_transfer_id = Some ''transfer'', rc_preimage = Some ''pre'',
    rc_claim_submitted = False, rc_payment_id = None\<rparr>"
  have view: "first_row (\<lambda>r. lr_hash r = ''hash'') (lightning_receives ?d) = Some (hd (lightning_receives ?d))"
      "receive_view ?d (hd (lightning_receives ?d)) = ?view"
    by (simp_all add: db example_local_db_def receive_view_def joined_progress_def progress_of_def new_progress_def)
  have claimable: "mark_receive_claimable ''hash'' ''pay'' 21000 ?d =
      (Inr (), state_after (mark_receive_claimable ''hash'' ''pay'' 21000) ?d)"
    by (simp add: mark_receive_claimable_def i64_of_u64_def i64_max_def progress_upsert_def upsert_def action_defs
        update_where_def db new_progress_def)
  have msat: "checked_mul 21 1000 = Some 21000"
    by (simp add: checked_mul_def)
  have claim: "retry_bounded receive_retry_delays (\<lambda>w. (Inr (), f w)) = (\<lambda>w. (Inr (), f w))" for f :: "world \<Rightarrow> world"
    by (simp add: receive_retry_delays_def eval_nat_numeral handle_def ret_def fun_eq_iff)
  let ?w = "example_committed_world\<lparr>w_db := state_after (mark_receive_claimable ''hash'' ''pay'' 21000) ?d\<rparr>"
  have "process_standard_receive example_env example_claimable example_committed_world =
      claim_receive example_env example_claimable ?view 21000 ''pre'' ?w"
    by (simp add: standard_receive_run db(2) example_claimable_def view process_known_receive_def foreign_attempt_def
        msat then_action_def bind_action_def on_db_def claimable pay_receive_def)
  then show ?thesis
    by (simp add: new_calls_def state_after_def db(4) claim_receive_def example_env_def claim validate_preimage_in_def
        validate_preimage_def example_claimable_def then_action_def bind_action_def lift_result_def ask_def on_db_def
        ret_def split: prod.split sum.split)
qed

lemma claim_needs_committed_swap_witness:
  "committed ''hash'' (w_db (state_after (process_standard_receive example_env example_claimable) example_committed_world))"
  using claim_needs_committed_swap [OF example_claim_call] by (simp add: example_claimable_def)

end
