(* ===== verification/Coop_Exit.thy ===== *)
theory Coop_Exit
  imports World Requests Transfers "HOL-Library.Product_Lexorder"
begin

text \<open>
  Cooperative withdrawals, src/src/coop_exit.rs, with the Spark side of src/src/spark.rs: a
  wallet locks leaves for the SSP under a conditional transfer and the SSP pays a Bitcoin
  output. The handlers run under one lock, so a run of them is a sequence. The Bitcoin node
  and the Spark operators answer as they like; parsers, serialization, hashes and the clock
  are arguments, and a script, key or txid is its text.
\<close>

section \<open>Data and arguments\<close>

definition max_leaves :: nat where "max_leaves = 100"
definition quote_seconds :: int where "quote_seconds = 300"
definition connector_sats :: u64 where "connector_sats = 330"
definition max_sats :: u64 where "max_sats = 2100000000000000"

text \<open>\<open>ExitInput\<close>, after serde decoded it.\<close>

record exit_input =
  xi_leaf_ids :: "string list"
  xi_address :: string
  xi_speed :: string
  xi_withdraw_all :: bool
  xi_fee_leaf_ids :: "string list option"
  xi_fee_quote_id :: "string option"
  xi_idempotency_key :: "string option"
  xi_transfer_id :: "string option"

record address =
  ad_text :: string
  ad_script :: string

text \<open>What \<open>coop_exit_leaves\<close> reads of an operator's node.\<close>

record tree_node =
  tn_owner :: string
  tn_network :: int
  tn_status :: string
  tn_value :: u64

datatype exit_call =
    AskNodes "string list"
  | AskTransfer string
  | AskWalletTransfer string
  | ProcessTransfer wallet_transfer
  | AskEstimate nat
  | AskAddress
  | AskUnspent
  | SignTx string
  | AskTx string
  | AskTxOut string nat
  | SendTx "string option"

record exit_env =
  x_nodes :: "exit_call list \<Rightarrow> string list \<Rightarrow> (string \<Rightarrow> tree_node option) result"
  x_transfer :: "exit_call list \<Rightarrow> string \<Rightarrow> spark_transfer option result"
  x_wallet_transfer :: "exit_call list \<Rightarrow> string \<Rightarrow> wallet_transfer option result"
  x_process :: "exit_call list \<Rightarrow> wallet_transfer \<Rightarrow> unit result"
  x_estimate :: "exit_call list \<Rightarrow> nat \<Rightarrow> json result"
  x_address :: "exit_call list \<Rightarrow> json result"
  x_unspent :: "exit_call list \<Rightarrow> json result"
  x_sign :: "exit_call list \<Rightarrow> string \<Rightarrow> json result"
  x_tx :: "exit_call list \<Rightarrow> string \<Rightarrow> json result"
  x_txout :: "exit_call list \<Rightarrow> string \<Rightarrow> nat \<Rightarrow> json result"
  x_send :: "exit_call list \<Rightarrow> string option \<Rightarrow> unit result"
  x_now :: "exit_call list \<Rightarrow> nat \<Rightarrow> int"
  x_uuid :: "exit_call list \<Rightarrow> string"
  x_identity :: string
  x_network :: network
  x_network_id :: int
  x_network_name :: string
  x_user_fee :: u64
  x_parse_key :: "string \<Rightarrow> string option"
  x_parse_transfer :: "string \<Rightarrow> string option"
  x_parse_uuid :: "string \<Rightarrow> string option"
  x_parse_address :: "string \<Rightarrow> address result"
  x_script_len :: "string \<Rightarrow> u64"
  x_dust :: "string \<Rightarrow> u64"
  x_segwit :: "string \<Rightarrow> bool"
  x_script_hex :: "string \<Rightarrow> string option"
  x_parse_txid :: "string \<Rightarrow> string option"
  x_btc_amount :: "json \<Rightarrow> u64 result"
  x_encode :: "tx \<Rightarrow> string"
  x_decode :: "string \<Rightarrow> (tx \<times> bool list) option"
  x_txid :: "tx \<Rightarrow> string"
  x_vsize :: "tx \<Rightarrow> u64"
  x_outpoint :: "outpoint \<Rightarrow> string"
  x_outpoint_rank :: "outpoint \<Rightarrow> nat"
  x_fingerprint :: "exit_input \<Rightarrow> string"
  x_time :: "int \<Rightarrow> string"
  x_updated :: "string \<Rightarrow> string"

type_synonym exit_world = "exit_call log_world"

text \<open>\<open>collect::<Result<Vec<_>, _>>()\<close>, over a pure and over a calling function.\<close>

fun collect_results :: "('a \<Rightarrow> 'b result) \<Rightarrow> 'a list \<Rightarrow> 'b list result" where
  "collect_results f [] = Inr []"
| "collect_results f (x # xs) = and_then (f x) (\<lambda>y. and_then (collect_results f xs) (\<lambda>ys. Inr (y # ys)))"

fun map_action :: "('a \<Rightarrow> ('s, 'b) action) \<Rightarrow> 'a list \<Rightarrow> ('s, 'b list) action" where
  "map_action f [] = ret []"
| "map_action f (x # xs) = bind_action (f x) (\<lambda>y. bind_action (map_action f xs) (\<lambda>ys. ret (y # ys)))"

definition exit_final :: "string \<Rightarrow> bool" where
  "exit_final status \<longleftrightarrow> status = ''SUCCEEDED'' \<or> status = ''EXPIRED''"

text \<open>\<open>total\<close>: at most 21 million bitcoin at every prefix.\<close>

fun total_from :: "u64 \<Rightarrow> exit_leaf list \<Rightarrow> u64 result" where
  "total_from acc [] = Inr acc"
| "total_from acc (l # ls) = (case checked_add acc (el_value l) of
     Some s \<Rightarrow> if s \<le> max_sats then total_from s ls else Inl (Failure ''withdrawal amount is out of range'')
   | None \<Rightarrow> Inl (Failure ''withdrawal amount is out of range''))"

definition total_leaves :: "exit_leaf list \<Rightarrow> u64 result" where
  "total_leaves = total_from 0"

fun distinct_ids :: "exit_env \<Rightarrow> string list \<Rightarrow> string list \<Rightarrow> unit result" where
  "distinct_ids env seen [] = Inr ()"
| "distinct_ids env seen (i # ids) = (case x_parse_uuid env i of
     None \<Rightarrow> Inl (Failure ''invalid leaf UUID'')
   | Some parsed \<Rightarrow> if parsed \<noteq> i \<or> i \<in> set seen
       then Inl (Failure ''leaf IDs must be distinct canonical UUIDs'')
       else distinct_ids env (i # seen) ids)"

definition validate_ids :: "exit_env \<Rightarrow> string list \<Rightarrow> unit result" where
  "validate_ids env ids =
     (if ids = [] \<or> length ids > max_leaves then Inl (Failure ''withdrawal requires 1 to 100 leaves'')
      else distinct_ids env [] ids)"

definition speed_index :: "string \<Rightarrow> nat result" where
  "speed_index speed =
     (if speed = ''FAST'' then Inr 0 else if speed = ''MEDIUM'' then Inr 1
      else if speed = ''SLOW'' then Inr 2 else Inl (Failure ''invalid exit_speed''))"


section \<open>The store\<close>

text \<open>The clock is read before the statements; among equal expiries SQLite keeps the older rows here.\<close>

definition kept_quotes :: "string \<Rightarrow> coop_quote_row list \<Rightarrow> string list" where
  "kept_quotes owner rs = map cqr_id (take 19 (sort_key (\<lambda>q. - cqr_expires_at q) (filter (\<lambda>q. cqr_owner q = owner) rs)))"

definition save_coop_quote :: "int \<Rightarrow> exit_quote \<Rightarrow> (db, unit) action" where
  "save_coop_quote now quote =
     then_action (delete_where coop_exit_quotes_t (\<lambda>q. cqr_expires_at q \<le> now))
     (then_action (\<lambda>d. delete_where coop_exit_quotes_t (\<lambda>q. cqr_owner q = eq_owner quote \<and>
          cqr_id q \<notin> set (kept_quotes (eq_owner quote) (coop_exit_quotes d))) d)
       (insert_into ''coop_exit_quotes'' coop_exit_quotes_t coop_quote_clash (\<lambda>_. True)
         \<lparr>cqr_id = eq_id quote, cqr_owner = eq_owner quote, cqr_expires_at = eq_expires_at quote, cqr_data = quote\<rparr>))"

definition coop_quote :: "string \<Rightarrow> string \<Rightarrow> (db, exit_quote option) action" where
  "coop_quote i owner =
     bind_action (query_optional coop_exit_quotes_t (\<lambda>q. cqr_id q = i \<and> cqr_owner q = owner))
       (\<lambda>row. ret (map_option cqr_data row))"

definition coop_exit :: "string \<Rightarrow> string \<Rightarrow> (db, exit_record option) action" where
  "coop_exit i owner =
     bind_action (query_optional coop_exits_t (\<lambda>r. cxr_id r = i \<and> cxr_owner r = owner))
       (\<lambda>row. ret (map_option cxr_data row))"

definition coop_exit_by_key :: "string \<Rightarrow> string \<Rightarrow> string \<Rightarrow> (db, exit_record option) action" where
  "coop_exit_by_key owner key transfer =
     bind_action (query_optional coop_exits_t (\<lambda>r. cxr_owner r = owner \<and> (cxr_idem r = key \<or> cxr_transfer_id r = transfer)))
       (\<lambda>row. ret (map_option cxr_data row))"

definition coop_exit_pending_for_owner :: "string \<Rightarrow> (db, bool) action" where
  "coop_exit_pending_for_owner owner = query_exists coop_exits_t (\<lambda>r. cxr_owner r = owner \<and> \<not> exit_final (cxr_status r))"

definition coop_reserved_inputs :: "(db, string list) action" where
  "coop_reserved_inputs = bind_action (select_where coop_exit_inputs_t (\<lambda>_. True)) (\<lambda>rs. ret (map cir_outpoint rs))"

definition exit_exists :: "string \<Rightarrow> db \<Rightarrow> bool" where
  "exit_exists i d \<longleftrightarrow> list_ex (\<lambda>r. cxr_id r = i) (coop_exits d)"

definition reserve_input :: "string \<Rightarrow> string \<Rightarrow> (db, unit) action" where
  "reserve_input i outpoint = insert_into ''coop_exit_inputs'' coop_exit_inputs_t coop_input_clash (exit_exists i)
     \<lparr>cir_outpoint = outpoint, cir_request_id = i\<rparr>"

definition exit_row :: "exit_record \<Rightarrow> coop_exit_row" where
  "exit_row r = \<lparr>cxr_id = er_id r, cxr_owner = er_owner r, cxr_transfer_id = er_transfer_id r,
     cxr_idem = er_idempotency_key r, cxr_status = er_status r, cxr_data = r\<rparr>"

text \<open>The coin, the connector funding and the change stay reserved until the withdrawal ends.\<close>

definition insert_coop_exit :: "exit_env \<Rightarrow> exit_record \<Rightarrow> string \<Rightarrow> (db, unit) action" where
  "insert_coop_exit env r outpoint =
     (case x_decode env (er_raw_exit r) of
        None \<Rightarrow> throw (Failure ''invalid transaction'')
      | Some (exit, _) \<Rightarrow> transaction
          (then_action (insert_into ''coop_exits'' coop_exits_t coop_exit_clash (\<lambda>_. True) (exit_row r))
          (then_action (reserve_input (er_id r) outpoint)
          (then_action (reserve_input (er_id r) (x_outpoint env \<lparr>op_txid = x_txid env exit, op_vout = 1\<rparr>))
          (then_action (reserve_input (er_id r) (x_outpoint env \<lparr>op_txid = x_txid env exit, op_vout = 2\<rparr>))
            (insert_request_row \<lparr>rq_id = er_id r, rq_kind = ''COOP_EXIT_V2'', rq_owner = er_owner r,
               rq_created_at = x_time env (er_created_at r),
               rq_payload = JObj [(''total_amount_sats'', juint (sum_list (map el_value (er_leaves r))))],
               rq_idempotency_key = None\<rparr>))))))"

definition update_coop_exit :: "exit_record \<Rightarrow> (db, unit) action" where
  "update_coop_exit r = transaction
     (then_action (update_where coop_exits_t (\<lambda>x. cxr_id x = er_id r) (\<lambda>x. x\<lparr>cxr_status := er_status r, cxr_data := r\<rparr>))
     (then_action (if exit_final (er_status r)
         then void (delete_where coop_exit_inputs_t (\<lambda>i. cir_request_id i = er_id r)) else ret ())
       (if er_status r = ''SUCCEEDED''
        then void (update_where transfers_t (\<lambda>t. tr_request_id t = er_id r \<and> tr_owner t = er_owner r)
          (\<lambda>t. t\<lparr>tr_status := ''COMPLETED''\<rparr>)) else ret ())))"

definition pending_coop_exits :: "(db, exit_record list) action" where
  "pending_coop_exits = bind_action (select_where coop_exits_t (\<lambda>r. \<not> exit_final (cxr_status r)))
     (\<lambda>rs. ret (map cxr_data rs))"

text \<open>\<open>request_updated_at\<close>: a trigger keeps one row per request, whose text is an argument.\<close>

definition request_updated_at :: "(string \<Rightarrow> string) \<Rightarrow> string \<Rightarrow> (db, string) action" where
  "request_updated_at updated i = bind_action (query_row requests_t (\<lambda>r. rq_id r = i)) (\<lambda>_. ret (updated i))"

section \<open>The Spark side\<close>

definition checked_leaf :: "exit_env \<Rightarrow> string \<Rightarrow> (string \<Rightarrow> tree_node option) \<Rightarrow> string \<Rightarrow> exit_leaf result" where
  "checked_leaf env owner nodes i = (case nodes i of
     None \<Rightarrow> Inl (Failure ''withdrawal leaf unavailable'')
   | Some n \<Rightarrow>
       if tn_owner n \<noteq> owner \<or> tn_network n \<noteq> x_network_id env
       then Inl (Failure ''withdrawal leaf owner or network mismatch'')
       else if tn_status n \<noteq> ''AVAILABLE'' \<or> tn_value n = 0 then Inl (Failure ''withdrawal leaf is not available'')
       else Inr \<lparr>el_id = i, el_value = tn_value n\<rparr>)"

definition coop_exit_leaves :: "exit_env \<Rightarrow> string \<Rightarrow> string list \<Rightarrow> (exit_world, exit_leaf list) action" where
  "coop_exit_leaves env owner ids =
     bind_action (ask (AskNodes ids) (\<lambda>h. x_nodes env h ids)) (\<lambda>nodes.
     bind_action (lift_result (ok_or (x_parse_key env owner) (Failure ''invalid owner key''))) (\<lambda>key.
       lift_result (collect_results (checked_leaf env key nodes) ids)))"

definition query_transfer :: "exit_env \<Rightarrow> string \<Rightarrow> (exit_world, spark_transfer option) action" where
  "query_transfer env i =
     bind_action (lift_result (ok_or (x_parse_transfer env i) (Failure ''invalid transfer id'')))
       (\<lambda>t. ask (AskTransfer t) (\<lambda>h. x_transfer env h t))"

definition coop_exit_transfer_exists :: "exit_env \<Rightarrow> string \<Rightarrow> (exit_world, bool) action" where
  "coop_exit_transfer_exists env i = bind_action (query_transfer env i) (\<lambda>t. ret (t \<noteq> None))"

definition exit_transfer_valid :: "exit_env \<Rightarrow> spark_transfer \<Rightarrow> exit_record \<Rightarrow> unit result" where
  "exit_transfer_valid env t r =
     validate_coop_exit_transfer (x_parse_key env) (\<lambda>raw. map_option fst (x_decode env raw)) (x_txid env) t r (x_identity env)"

definition verify_coop_exit :: "exit_env \<Rightarrow> exit_record \<Rightarrow> (exit_world, unit) action" where
  "verify_coop_exit env r =
     bind_action (query_transfer env (er_transfer_id r)) (\<lambda>found.
     bind_action (lift_result (ok_or found (Failure ''conditional withdrawal transfer is not available yet''))) (\<lambda>t.
       lift_result (exit_transfer_valid env t r)))"

definition get_transfer :: "exit_env \<Rightarrow> string \<Rightarrow> string \<Rightarrow> (exit_world, wallet_transfer) action" where
  "get_transfer env i missing =
     bind_action (ask (AskWalletTransfer i) (\<lambda>h. x_wallet_transfer env h i))
       (\<lambda>t. lift_result (ok_or t (Failure missing)))"

definition claim_coop_exit :: "exit_env \<Rightarrow> exit_record \<Rightarrow> (exit_world, unit) action" where
  "claim_coop_exit env r =
     bind_action (lift_result (ok_or (x_parse_transfer env (er_transfer_id r)) (Failure ''invalid transfer id''))) (\<lambda>i.
     bind_action (get_transfer env i ''withdrawal Spark transfer not found'') (\<lambda>t.
     if wt_type t \<noteq> CooperativeExit \<or> wt_receiver t \<noteq> x_identity env
     then throw (Failure ''withdrawal transfer is not addressed to this SSP'')
     else then_action (if wt_status t \<noteq> Completed then ask (ProcessTransfer t) (\<lambda>h. x_process env h t) else ret ())
       (bind_action (get_transfer env i ''withdrawal Spark transfer disappeared'') (\<lambda>t.
        if wt_status t \<noteq> Completed then throw (Failure ''withdrawal Spark claim is pending'') else ret ()))))"


section \<open>Quotes\<close>

definition fee_rate :: "exit_env \<Rightarrow> nat \<Rightarrow> (exit_world, u64) action" where
  "fee_rate env blocks =
     bind_action (ask (AskEstimate blocks) (\<lambda>h. x_estimate env h blocks)) (\<lambda>estimate.
     case jget estimate ''feerate'' of
       Some v \<Rightarrow> bind_action (lift_result (x_btc_amount env v)) (\<lambda>sats. ret (max (div_ceil sats 1000) 1))
     | None \<Rightarrow> if x_network env = Regtest then ret 1 else throw (Failure ''Bitcoin fee estimate unavailable''))"

definition exit_vbytes :: "exit_env \<Rightarrow> address \<Rightarrow> u64" where
  "exit_vbytes env a = 11 + 69 + 2 * 43 + 8 + 1 + x_script_len env (ad_script a)"

definition fee_of :: "u64 \<Rightarrow> u64 \<Rightarrow> u64 result" where
  "fee_of vbytes rate = ok_or (checked_mul vbytes rate) (Failure ''withdrawal fee overflow'')"

text \<open>
  \<open>quote\<close>: the ids and the address as the JSON input gives them (None: not an array of
  strings, or no string).
\<close>

definition quote_exit :: "exit_env \<Rightarrow> string \<Rightarrow> string list option \<Rightarrow> string option \<Rightarrow> (exit_world, exit_quote) action" where
  "quote_exit env owner ids address_text =
     bind_action (lift_result (ok_or ids (Failure ''leaf_external_ids must be an array of UUIDs''))) (\<lambda>leaf_ids.
     then_action (lift_result (validate_ids env leaf_ids))
     (bind_action (lift_result (ok_or address_text (Failure ''withdrawal_address is required''))) (\<lambda>text.
      bind_action (lift_result (x_parse_address env text)) (\<lambda>address.
      bind_action (coop_exit_leaves env owner leaf_ids) (\<lambda>leaves.
      bind_action (map_action (fee_rate env) [2, 6, 12]) (\<lambda>rates.
      bind_action (lift_result (collect_results (fee_of (exit_vbytes env address)) rates)) (\<lambda>fees.
      bind_action (\<lambda>w. ret \<lparr>eq_id = x_uuid env (w_calls w), eq_owner = owner, eq_address = ad_text address,
          eq_leaves = leaves, eq_created_at = x_now env (w_calls w) 0,
          eq_expires_at = x_now env (w_calls w) 1 + quote_seconds, eq_user_fee = x_user_fee env,
          eq_rates = rates, eq_fees = fees\<rparr> w) (\<lambda>quote.
      then_action (\<lambda>w. on_db (save_coop_quote (x_now env (w_calls w) 2) quote) w) (ret quote)))))))))"

definition sats_json :: "u64 \<Rightarrow> json" where
  "sats_json n = JObj [(''original_value'', juint n), (''original_unit'', JStr ''SATOSHI''),
     (''preferred_currency_unit'', JStr ''SATOSHI''), (''preferred_currency_value_rounded'', juint n)]"

definition quote_response :: "exit_env \<Rightarrow> exit_quote \<Rightarrow> json" where
  "quote_response env q = JObj [(''__typename'', JStr ''CoopExitFeeQuote''), (''id'', JStr (eq_id q)),
     (''created_at'', JStr (x_time env (eq_created_at q))), (''updated_at'', JStr (x_time env (eq_created_at q))),
     (''expires_at'', JStr (x_time env (eq_expires_at q))), (''network'', JStr (x_network_name env)),
     (''total_amount'', sats_json (case total_leaves (eq_leaves q) of Inl _ \<Rightarrow> 0 | Inr n \<Rightarrow> n)),
     (''user_fee_fast'', sats_json (eq_user_fee q)), (''user_fee_medium'', sats_json (eq_user_fee q)),
     (''user_fee_slow'', sats_json (eq_user_fee q)),
     (''l1_broadcast_fee_fast'', sats_json (eq_fees q ! 0)), (''l1_broadcast_fee_medium'', sats_json (eq_fees q ! 1)),
     (''l1_broadcast_fee_slow'', sats_json (eq_fees q ! 2))]"

section \<open>Requests\<close>

definition bitcoin_transaction :: "outpoint list \<Rightarrow> tx_out list \<Rightarrow> tx" where
  "bitcoin_transaction inputs outputs =
     \<lparr>tx_inputs = map (\<lambda>p. \<lparr>ti_previous_output = p, ti_sequence = 0xFFFFFFFF\<rparr>) inputs, tx_outputs = outputs\<rparr>"

definition exit_response :: "exit_env \<Rightarrow> exit_record \<Rightarrow> (exit_world, json) action" where
  "exit_response env r =
     bind_action (on_db (request_updated_at (x_updated env) (er_id r))) (\<lambda>updated.
     bind_action (lift_result (ok_or (x_decode env (er_raw_exit r)) (Failure ''invalid transaction''))) (\<lambda>(t, _).
     ret (JObj [(''__typename'', JStr ''CoopExitRequest''), (''id'', JStr (er_id r)),
       (''network'', JStr (x_network_name env)), (''created_at'', JStr (x_time env (er_created_at r))),
       (''updated_at'', JStr updated), (''expires_at'', JStr (x_time env (er_expires_at r))),
       (''withdrawal_address'', JStr (eq_address (er_quote r))), (''fee'', sats_json (eq_user_fee (er_quote r))),
       (''l1_broadcast_fee'', sats_json (er_fee_sats r)), (''fee_quote'', quote_response env (er_quote r)),
       (''exit_speed'', JStr (er_speed r)), (''status'', JStr (er_status r)),
       (''raw_connector_transaction'', JStr (er_raw_connector r)),
       (''raw_coop_exit_transaction'', JStr (er_raw_exit r)), (''coop_exit_txid'', JStr (x_txid env t)),
       (''transfer_spark_id'', JStr (er_transfer_id r)), (''transfer'', JNull)])))"

text \<open>The payout, and the leaves it takes: with separate fee leaves those are appended.\<close>

definition withdrawal_amount ::
  "exit_env \<Rightarrow> exit_input \<Rightarrow> exit_quote \<Rightarrow> nat \<Rightarrow> exit_leaf list \<Rightarrow> string \<Rightarrow> (exit_world, u64 \<times> exit_leaf list) action" where
  "withdrawal_amount env request quote speed leaves owner =
     bind_action (lift_result (ok_or (checked_add (eq_user_fee quote) (eq_fees quote ! speed))
         (Failure ''withdrawal fee overflow''))) (\<lambda>fees.
     bind_action (lift_result (total_leaves leaves)) (\<lambda>amount.
     let fee_ids = (case xi_fee_leaf_ids request of None \<Rightarrow> [] | Some ids \<Rightarrow> ids) in
     if xi_withdraw_all request
     then if fee_ids \<noteq> [] then throw (Failure ''withdraw_all cannot include fee leaves'')
       else bind_action (lift_result (ok_or (checked_sub amount fees) (Failure ''withdrawal amount does not cover fees'')))
         (\<lambda>payout. ret (payout, leaves))
     else then_action (lift_result (validate_ids env fee_ids))
       (bind_action (coop_exit_leaves env owner fee_ids) (\<lambda>fee_leaves.
        bind_action (lift_result (total_leaves fee_leaves)) (\<lambda>fee_total.
        if fee_total \<noteq> fees then throw (Failure ''fee leaves must exactly cover the quoted fees'')
        else then_action (lift_result (validate_ids env (map el_id (leaves @ fee_leaves))))
          (ret (amount, leaves @ fee_leaves)))))))"

text \<open>One entry of \<open>listunspent\<close>: skipped (None) unless it is a usable unreserved coin.\<close>

definition coin_candidate :: "exit_env \<Rightarrow> string list \<Rightarrow> u64 \<Rightarrow> json \<Rightarrow> (u64 \<times> outpoint) option result" where
  "coin_candidate env reserved needed coin =
     (if jfield coin ''spendable'' \<noteq> JBool True \<or> jfield coin ''safe'' \<noteq> JBool True then Inr None
      else and_then (x_btc_amount env (jfield coin ''amount'')) (\<lambda>value.
       and_then (ok_or (as_str (jfield coin ''scriptPubKey'')) (Failure ''missing coin script'')) (\<lambda>hex.
       and_then (ok_or (x_script_hex env hex) (Failure ''invalid coin script'')) (\<lambda>script.
       if \<not> x_segwit env script \<or> value < needed then Inr None
       else and_then (ok_or (as_str (jfield coin ''txid'')) (Failure ''missing coin txid'')) (\<lambda>txid_text.
        and_then (ok_or (x_parse_txid env txid_text) (Failure ''invalid coin txid'')) (\<lambda>txid.
        and_then (ok_or (as_u64 (jfield coin ''vout'')) (Failure ''missing coin vout'')) (\<lambda>vout.
        if vout \<ge> 2 ^ 32 then Inl (Failure ''invalid coin vout'')
        else let outpoint = \<lparr>op_txid = txid, op_vout = ucast vout\<rparr> in
          if x_outpoint env outpoint \<in> set reserved then Inr None else Inr (Some (value, outpoint)))))))))"

definition select_coin :: "exit_env \<Rightarrow> string list \<Rightarrow> u64 \<Rightarrow> json \<Rightarrow> (u64 \<times> outpoint) result" where
  "select_coin env reserved needed unspent = (case unspent of
     JArr coins \<Rightarrow> and_then (collect_results (coin_candidate env reserved needed) coins) (\<lambda>found.
       case sort_key (\<lambda>(value, p). (value, x_outpoint_rank env p)) (List.map_filter id found) of
         [] \<Rightarrow> Inl (Failure ''withdrawal needs one unreserved confirmed SegWit UTXO'')
       | c # _ \<Rightarrow> Inr c)
   | _ \<Rightarrow> Inl (Failure ''Bitcoin returned invalid unspent outputs''))"

definition wallet_address :: "exit_env \<Rightarrow> (exit_world, address) action" where
  "wallet_address env =
     bind_action (ask AskAddress (x_address env)) (\<lambda>v.
     bind_action (lift_result (ok_or (as_str v) (Failure ''Bitcoin returned no address''))) (\<lambda>text.
       lift_result (x_parse_address env text)))"

definition intermediate_sats :: "exit_leaf list \<Rightarrow> u64" where
  "intermediate_sats leaves = connector_sats * (of_nat (length leaves) + 1)"

definition exit_tx :: "outpoint \<Rightarrow> u64 \<Rightarrow> u64 \<Rightarrow> u64 \<Rightarrow> u64 \<Rightarrow> string \<Rightarrow> string \<Rightarrow> string \<Rightarrow> tx" where
  "exit_tx outpoint coin payout intermediate fee payout_script intermediate_script change_script =
     bitcoin_transaction [outpoint]
       [\<lparr>to_value = payout, to_script = payout_script\<rparr>,
        \<lparr>to_value = intermediate, to_script = intermediate_script\<rparr>,
        \<lparr>to_value = coin - payout - intermediate - fee, to_script = change_script\<rparr>]"

definition connector_tx :: "exit_env \<Rightarrow> tx \<Rightarrow> string list \<Rightarrow> tx" where
  "connector_tx env exit scripts = bitcoin_transaction [\<lparr>op_txid = x_txid env exit, op_vout = 1\<rparr>]
     (map (\<lambda>s. \<lparr>to_value = connector_sats, to_script = s\<rparr>) scripts)"


definition needed_sats :: "exit_leaf list \<Rightarrow> u64 \<Rightarrow> u64 \<Rightarrow> u64 option" where
  "needed_sats leaves payout fee = (case checked_add payout fee of
     None \<Rightarrow> None | Some v \<Rightarrow> checked_add v (intermediate_sats leaves + connector_sats))"

text \<open>\<open>request\<close> from the quote on: choose a coin, build the transactions, store the record.\<close>

definition choose_coin :: "exit_env \<Rightarrow> u64 \<Rightarrow> u64 \<Rightarrow> exit_leaf list \<Rightarrow> (exit_world, u64 \<times> outpoint) action" where
  "choose_coin env payout fee leaves =
     bind_action (on_db coop_reserved_inputs) (\<lambda>reserved.
     bind_action (lift_result (ok_or (needed_sats leaves payout fee) (Failure ''withdrawal amount overflow''))) (\<lambda>needed.
     bind_action (ask AskUnspent (x_unspent env)) (\<lambda>unspent.
       lift_result (select_coin env reserved needed unspent))))"

definition exit_record_of ::
  "exit_env \<Rightarrow> exit_call list \<Rightarrow> string \<Rightarrow> exit_input \<Rightarrow> u64 \<Rightarrow> string \<Rightarrow> string \<Rightarrow> exit_quote \<Rightarrow> u64 \<Rightarrow> exit_leaf list
   \<Rightarrow> tx \<Rightarrow> string list \<Rightarrow> exit_record" where
  "exit_record_of env h owner request fee transfer_id key quote payout leaves exit scripts =
     \<lparr>er_id = x_uuid env h, er_owner = owner, er_transfer_id = transfer_id, er_idempotency_key = key,
      er_fingerprint = x_fingerprint env request, er_quote = quote, er_leaves = leaves,
      er_speed = xi_speed request, er_payout_sats = payout, er_fee_sats = fee,
      er_created_at = x_now env h 0, er_expires_at = x_now env h 1 + quote_seconds,
      er_raw_exit = x_encode env exit, er_raw_connector = x_encode env (connector_tx env exit scripts),
      er_signed_exit = None, er_status = ''INITIATED''\<rparr>"

definition build_exit ::
  "exit_env \<Rightarrow> string \<Rightarrow> exit_input \<Rightarrow> u64 \<Rightarrow> string \<Rightarrow> string \<Rightarrow> exit_quote \<Rightarrow> address \<Rightarrow> u64 \<Rightarrow> exit_leaf list
   \<Rightarrow> u64 \<Rightarrow> outpoint \<Rightarrow> (exit_world, exit_record) action" where
  "build_exit env owner request fee transfer_id key quote address payout leaves coin outpoint =
     bind_action (wallet_address env) (\<lambda>intermediate_address.
     bind_action (wallet_address env) (\<lambda>change_address.
     let exit = exit_tx outpoint coin payout (intermediate_sats leaves) fee (ad_script address)
           (ad_script intermediate_address) (ad_script change_address) in
     bind_action (map_action (\<lambda>_. wallet_address env) [0..<length leaves + 1]) (\<lambda>addresses.
       (\<lambda>w. ret (exit_record_of env (w_calls w) owner request fee transfer_id key quote payout leaves exit
          (map ad_script addresses)) w))))"

definition reserve_exit ::
  "exit_env \<Rightarrow> string \<Rightarrow> exit_input \<Rightarrow> nat \<Rightarrow> string \<Rightarrow> string \<Rightarrow> exit_quote \<Rightarrow> address \<Rightarrow> u64 \<Rightarrow> exit_leaf list
   \<Rightarrow> (exit_world, exit_record) action" where
  "reserve_exit env owner request speed transfer_id key quote address payout leaves =
     (let fee = eq_fees quote ! speed in
      bind_action (choose_coin env payout fee leaves) (\<lambda>(coin, outpoint).
      bind_action (build_exit env owner request fee transfer_id key quote address payout leaves coin outpoint) (\<lambda>record.
      then_action (on_db (insert_coop_exit env record (x_outpoint env outpoint))) (ret record))))"

text \<open>A new withdrawal: the quote is found or made, and the leaves are checked again.\<close>

definition new_exit ::
  "exit_env \<Rightarrow> string \<Rightarrow> exit_input \<Rightarrow> nat \<Rightarrow> string \<Rightarrow> string \<Rightarrow> (exit_world, exit_record) action" where
  "new_exit env owner request speed transfer_id key =
     bind_action (case xi_fee_quote_id request of
         Some i \<Rightarrow> bind_action (on_db (coop_quote i owner))
           (\<lambda>q. lift_result (ok_or q (Failure ''withdrawal quote not found'')))
       | None \<Rightarrow> quote_exit env owner (Some (xi_leaf_ids request)) (Some (xi_address request))) (\<lambda>quote.
     bind_action (lift_result (x_parse_address env (xi_address request))) (\<lambda>address.
     bind_action (\<lambda>w. ret (x_now env (w_calls w) 0) w) (\<lambda>now.
     if eq_expires_at quote \<le> now \<or> eq_address quote \<noteq> ad_text address
     then throw (Failure ''withdrawal quote expired or does not match the address'')
     else bind_action (coop_exit_leaves env owner (xi_leaf_ids request)) (\<lambda>leaves.
       bind_action (withdrawal_amount env request quote speed leaves owner) (\<lambda>(payout, leaves).
       if payout < x_dust env (ad_script address)
       then throw (Failure ''withdrawal payout is below the address dust limit'')
       else reserve_exit env owner request speed transfer_id key quote address payout leaves)))))"

definition request_key :: "exit_input \<Rightarrow> string \<Rightarrow> string" where
  "request_key request transfer_id = (case xi_idempotency_key request of
     Some k \<Rightarrow> if k \<noteq> '''' then k else transfer_id | None \<Rightarrow> transfer_id)"

definition request_exit :: "exit_env \<Rightarrow> string \<Rightarrow> exit_input result \<Rightarrow> (exit_world, json) action" where
  "request_exit env owner input =
     bind_action (lift_result input) (\<lambda>request.
     then_action (lift_result (validate_ids env (xi_leaf_ids request)))
     (bind_action (lift_result (speed_index (xi_speed request))) (\<lambda>speed.
     bind_action (lift_result (ok_or (xi_transfer_id request) (Failure ''user_outbound_transfer_external_id is required''))) (\<lambda>transfer_id.
     bind_action (lift_result (ok_or (x_parse_uuid env transfer_id) (Failure ''invalid transfer UUID''))) (\<lambda>canonical.
     if canonical \<noteq> transfer_id then throw (Failure ''transfer ID must be a canonical UUID'')
     else let key = request_key request transfer_id in
       if length key > 200 then throw (Failure ''idempotency_key is too long'')
       else bind_action (on_db (coop_exit_by_key owner key transfer_id)) (\<lambda>found.
         case found of
           Some record \<Rightarrow>
             if er_fingerprint record \<noteq> x_fingerprint env request
             then throw (Failure ''withdrawal key or transfer ID was already used for another request'')
             else exit_response env record
         | None \<Rightarrow> bind_action (on_db (coop_exit_pending_for_owner owner)) (\<lambda>pending.
             if pending then throw (Failure ''complete the pending withdrawal before requesting another'')
             else bind_action (new_exit env owner request speed transfer_id key) (exit_response env))))))))"

section \<open>Settlement\<close>

text \<open>Signing may add witnesses only: the same txid, and a witness on every input.\<close>

definition validate_signed_exit :: "exit_env \<Rightarrow> tx \<Rightarrow> string \<Rightarrow> unit result" where
  "validate_signed_exit env payout_tx raw = (case x_decode env raw of
     None \<Rightarrow> Inl (Failure ''invalid transaction'')
   | Some (signed_tx, empty_witness) \<Rightarrow>
       if x_txid env signed_tx \<noteq> x_txid env payout_tx \<or> True \<in> set empty_witness
       then Inl (Failure ''Bitcoin signing changed the payout transaction or omitted a witness'')
       else Inr ())"

definition sign_raw :: "exit_env \<Rightarrow> string \<Rightarrow> string \<Rightarrow> string \<Rightarrow> (exit_world, string) action" where
  "sign_raw env raw incomplete missing =
     bind_action (ask (SignTx raw) (\<lambda>h. x_sign env h raw)) (\<lambda>answer.
     if jfield answer ''complete'' \<noteq> JBool True then throw (Failure incomplete)
     else lift_result (ok_or (as_str (jfield answer ''hex'')) (Failure missing)))"

text \<open>The payout is signed only after the operator's transfer was verified, and stored before use.\<close>

definition sign_exit :: "exit_env \<Rightarrow> tx \<Rightarrow> exit_record \<Rightarrow> (exit_world, exit_record) action" where
  "sign_exit env exit r =
     then_action (verify_coop_exit env r)
     (then_action (on_db (insert_transfer (er_transfer_id r) (er_id r) ''COOPERATIVE_EXIT'' ''PENDING'' (er_owner r)))
     (bind_action (sign_raw env (er_raw_exit r) ''Bitcoin wallet could not sign the withdrawal''
         ''Bitcoin returned no signed transaction'') (\<lambda>raw.
      then_action (lift_result (validate_signed_exit env exit raw))
      (let r' = r\<lparr>er_signed_exit := Some raw, er_status := ''INBOUND_TRANSFER_CHECKED''\<rparr> in
       then_action (on_db (update_coop_exit r')) (ret r')))))"

definition bump_raw :: "string \<Rightarrow> (db, string option) action" where
  "bump_raw i = bind_action (query_optional coop_exit_bumps_t (\<lambda>b. cbr_request_id b = i)) (\<lambda>row. ret (map_option cbr_raw row))"

definition broadcast_exit :: "exit_env \<Rightarrow> exit_record \<Rightarrow> (exit_world, exit_record) action" where
  "broadcast_exit env r =
     then_action (ask (SendTx (er_signed_exit r)) (\<lambda>h. x_send env h (er_signed_exit r)))
     (let r' = r\<lparr>er_status := ''TX_BROADCASTED''\<rparr> in
      then_action (on_db (update_coop_exit r'))
      (bind_action (on_db (bump_raw (er_id r))) (\<lambda>bump.
       then_action (case bump of Some raw \<Rightarrow> ask (SendTx (Some raw)) (\<lambda>h. x_send env h (Some raw)) | None \<Rightarrow> ret ())
         (ret r'))))"

definition settle_exit :: "exit_env \<Rightarrow> exit_record \<Rightarrow> (exit_world, exit_record) action" where
  "settle_exit env r =
     (let confirmed = r\<lparr>er_status := ''ON_CHAIN_TX_CONFIRMED''\<rparr> in
      then_action (on_db (update_coop_exit confirmed))
      (then_action (claim_coop_exit env confirmed)
      (let done = confirmed\<lparr>er_status := ''SUCCEEDED''\<rparr> in
       then_action (on_db (update_coop_exit done)) (ret done))))"

definition confirmations :: "json option \<Rightarrow> int" where
  "confirmations observed = (case Option.bind observed (\<lambda>t. as_i64 (jfield t ''confirmations'')) of None \<Rightarrow> 0 | Some n \<Rightarrow> n)"

definition follow_exit :: "exit_env \<Rightarrow> exit_record \<Rightarrow> json option \<Rightarrow> (exit_world, exit_record) action" where
  "follow_exit env r observed =
     (if confirmations observed < 0
      then throw (Failure ''withdrawal transaction is conflicted; input reservation retained'')
      else if confirmations observed = 0 then broadcast_exit env r
      else settle_exit env r)"

definition observe_exit :: "exit_env \<Rightarrow> string \<Rightarrow> (exit_world, json option) action" where
  "observe_exit env txid = handle (ask (AskTx txid) (\<lambda>h. x_tx env h txid)) (\<lambda>t. ret (Some t)) (\<lambda>_. ret None)"

definition advance_exit :: "exit_env \<Rightarrow> exit_record \<Rightarrow> (exit_world, exit_record) action" where
  "advance_exit env r =
     (if exit_final (er_status r) then ret r
      else bind_action (lift_result (ok_or (x_decode env (er_raw_exit r)) (Failure ''invalid transaction''))) (\<lambda>(exit, _).
        bind_action (if er_signed_exit r = None then sign_exit env exit r else ret r) (\<lambda>r.
        bind_action (observe_exit env (x_txid env exit)) (follow_exit env r))))"

definition complete_exit ::
  "exit_env \<Rightarrow> string \<Rightarrow> string option \<Rightarrow> string option \<Rightarrow> (exit_world, json) action" where
  "complete_exit env owner transfer request_id =
     bind_action (lift_result (ok_or transfer (Failure ''transfer ID is required''))) (\<lambda>transfer_id.
     bind_action (on_db (coop_exit_by_key owner '''' transfer_id)) (\<lambda>found.
     bind_action (lift_result (ok_or found (Failure ''withdrawal request not found''))) (\<lambda>record.
     if request_id \<noteq> None \<and> request_id \<noteq> Some (er_id record)
     then throw (Failure ''withdrawal request ID does not match the transfer'')
     else if er_status record = ''EXPIRED'' then throw (Failure ''withdrawal request expired'')
     else bind_action (advance_exit env record) (exit_response env))))"

definition get_exit :: "exit_env \<Rightarrow> string \<Rightarrow> string \<Rightarrow> (exit_world, json option) action" where
  "get_exit env i owner = bind_action (on_db (coop_exit i owner)) (\<lambda>found.
     case found of None \<Rightarrow> ret None | Some r \<Rightarrow> bind_action (exit_response env r) (\<lambda>j. ret (Some j)))"

text \<open>One record of a pass of \<open>run\<close>: errors are logged.\<close>

definition drive_exit :: "exit_env \<Rightarrow> exit_record \<Rightarrow> (exit_world, unit) action" where
  "drive_exit env r = (\<lambda>w.
     (if er_signed_exit r = None \<and> er_expires_at r \<le> x_now env (w_calls w) 0
      then handle (coop_exit_transfer_exists env (er_transfer_id r))
        (\<lambda>there. if there then ignore (advance_exit env r)
           else ignore (on_db (update_coop_exit (r\<lparr>er_status := ''EXPIRED''\<rparr>))))
        (\<lambda>_. ret ())
      else ignore (advance_exit env r)) w)"

definition run_exits :: "exit_env \<Rightarrow> (exit_world, unit) action" where
  "run_exits env = handle (on_db pending_coop_exits) (\<lambda>rs. for_each rs (drive_exit env)) (\<lambda>_. ret ())"


section \<open>Fee bumps\<close>

text \<open>
  A child of the change output. \<open>vsize\<close> of the unsigned child plus 28 bounds the signed one; the
  fee pays the rate over the whole package, and at least over the child.
\<close>

definition bump_fee_sats :: "u64 \<Rightarrow> u64 \<Rightarrow> u64 \<Rightarrow> u64 \<Rightarrow> u64 option" where
  "bump_fee_sats rate parent_vsize child_vsize parent_fee =
     (case (checked_mul rate (parent_vsize + child_vsize), checked_mul rate child_vsize) of
        (Some package, Some child) \<Rightarrow> Some (max (saturating_sub package parent_fee) child)
      | _ \<Rightarrow> None)"

definition cpfp_transaction :: "exit_env \<Rightarrow> tx \<Rightarrow> u64 \<Rightarrow> u64 \<Rightarrow> u64 \<Rightarrow> string \<Rightarrow> (tx \<times> u64) result" where
  "cpfp_transaction env parent parent_fee rate max_fee destination =
     (if length (tx_outputs parent) \<le> 2 then Inl (Failure ''withdrawal has no SSP change'')
      else let change = tx_outputs parent ! 2;
               child = (\<lambda>value. bitcoin_transaction [\<lparr>op_txid = x_txid env parent, op_vout = 2\<rparr>]
                 [\<lparr>to_value = value, to_script = destination\<rparr>]);
               vbytes = x_vsize env (child (to_value change)) + 28 in
        if \<not> x_segwit env (to_script change) then Inl (Failure ''fee bump needs SegWit SSP change'')
        else and_then (ok_or (bump_fee_sats rate (x_vsize env parent) vbytes parent_fee) (Failure ''fee overflow'')) (\<lambda>fee.
          if fee > max_fee then Inl (Failure ''fee bump exceeds max_fee_sats'')
          else and_then (ok_or (checked_sub (to_value change) fee) (Failure ''SSP change cannot fund the fee bump'')) (\<lambda>value.
            if value < x_dust env destination then Inl (Failure ''fee bump leaves a dust output'')
            else Inr (child value, fee))))"

definition bump_response :: "string \<Rightarrow> u64 \<Rightarrow> string \<Rightarrow> json" where
  "bump_response txid fee parent_txid =
     JObj [(''txid'', JStr txid), (''fee_sats'', juint fee), (''parent_txid'', JStr parent_txid)]"

text \<open>A stored bump is sent again, never replaced.\<close>

definition resend_bump :: "exit_env \<Rightarrow> tx \<Rightarrow> string \<Rightarrow> u64 \<Rightarrow> (exit_world, json) action" where
  "resend_bump env parent raw max_fee =
     bind_action (lift_result (ok_or (x_decode env raw) (Failure ''invalid transaction''))) (\<lambda>(child, _).
     if length (tx_outputs parent) \<le> 2 then throw (Failure ''withdrawal has no SSP change'')
     else if tx_outputs child = [] then throw (Failure ''fee bump has no payout output'')
     else bind_action (lift_result (ok_or (checked_sub (to_value (tx_outputs parent ! 2)) (to_value (tx_outputs child ! 0)))
         (Failure ''fee bump output exceeds the parent change''))) (\<lambda>fee.
       if fee > max_fee then throw (Failure ''stored fee bump exceeds max_fee_sats'')
       else then_action (ask (SendTx (Some raw)) (\<lambda>h. x_send env h (Some raw)))
         (ret (bump_response (x_txid env child) fee (x_txid env parent)))))"

definition insert_bump :: "string \<Rightarrow> string \<Rightarrow> u64 \<Rightarrow> (db, unit) action" where
  "insert_bump i raw rate = insert_into ''coop_exit_bumps'' coop_exit_bumps_t coop_bump_clash (exit_exists i)
     \<lparr>cbr_request_id = i, cbr_raw = raw, cbr_fee_rate = rate\<rparr>"

definition make_bump :: "exit_env \<Rightarrow> string \<Rightarrow> exit_record \<Rightarrow> tx \<Rightarrow> u64 \<Rightarrow> u64 \<Rightarrow> (exit_world, json) action" where
  "make_bump env i r parent rate max_fee =
     bind_action (ask (AskTxOut (x_txid env parent) 2) (\<lambda>h. x_txout env h (x_txid env parent) 2)) (\<lambda>coin.
     if coin = JNull then throw (Failure ''withdrawal change is not available for a fee bump'')
     else bind_action (wallet_address env) (\<lambda>destination.
       bind_action (lift_result (cpfp_transaction env parent (er_fee_sats r) rate max_fee (ad_script destination))) (\<lambda>(child, fee).
       bind_action (sign_raw env (x_encode env child) ''Bitcoin wallet could not sign fee bump''
           ''Bitcoin returned no fee bump transaction'') (\<lambda>raw.
       then_action (lift_result (validate_signed_exit env child raw))
       (then_action (on_db (insert_bump i raw rate))
       (then_action (ask (SendTx (Some raw)) (\<lambda>h. x_send env h (Some raw)))
         (ret (bump_response (x_txid env child) fee (x_txid env parent)))))))))"

definition bump_fee :: "exit_env \<Rightarrow> string \<Rightarrow> u64 \<Rightarrow> u64 \<Rightarrow> (exit_world, json) action" where
  "bump_fee env i rate max_fee =
     (if \<not> (1 \<le> rate \<and> rate \<le> 10000) \<or> max_fee = 0
      then throw (Failure ''fee_rate must be 1 to 10000 sat/vB and max_fee_sats must be positive'')
      else bind_action (on_db (query_row coop_exits_t (\<lambda>r. cxr_id r = i))) (\<lambda>row.
        let r = cxr_data row in
        if er_status r \<noteq> ''TX_BROADCASTED'' then throw (Failure ''only an unconfirmed broadcast withdrawal can be bumped'')
        else bind_action (lift_result (ok_or (er_signed_exit r) (Failure ''withdrawal is unsigned''))) (\<lambda>signed_raw.
          bind_action (lift_result (ok_or (x_decode env signed_raw) (Failure ''invalid transaction''))) (\<lambda>(parent, _).
          bind_action (ask (AskTx (x_txid env parent)) (\<lambda>h. x_tx env h (x_txid env parent))) (\<lambda>observed.
          if as_i64 (jfield observed ''confirmations'') \<noteq> Some 0 then throw (Failure ''withdrawal is confirmed or conflicted'')
          else bind_action (on_db (query_optional coop_exit_bumps_t (\<lambda>b. cbr_request_id b = i))) (\<lambda>existing.
            case existing of
              Some b \<Rightarrow> if cbr_fee_rate b \<noteq> rate
                then throw (Failure ''a fee bump already exists; retry with its original fee_rate'')
                else resend_bump env parent (cbr_raw b) max_fee
            | None \<Rightarrow> make_bump env i r parent rate max_fee))))))"

section \<open>Amounts\<close>

lemma total_from_exact: "total_from acc ls = Inr n \<Longrightarrow> unat n = unat acc + (\<Sum>l\<leftarrow>ls. unat (el_value l))"
  by (induction ls arbitrary: acc) (auto dest: unat_checked_add split: option.splits if_splits)

lemma total_from_bound: "total_from acc ls = Inr n \<Longrightarrow> acc \<le> max_sats \<Longrightarrow> n \<le> max_sats"
  by (induction ls arbitrary: acc) (auto split: option.splits if_splits)

lemma total_leaves_exact:
  "total_leaves ls = Inr n \<Longrightarrow> unat n = (\<Sum>l\<leftarrow>ls. unat (el_value l)) \<and> n \<le> max_sats"
  using total_from_exact [of 0 ls n] total_from_bound [of 0 ls n] by (simp add: total_leaves_def max_sats_def)

lemma distinct_ids_ok:
  "distinct_ids env seen ids = Inr u \<Longrightarrow> distinct ids \<and> set ids \<inter> set seen = {} \<and> (\<forall>i\<in>set ids. x_parse_uuid env i = Some i)"
  by (induction ids arbitrary: seen) (fastforce split: option.splits if_splits)+

lemma validate_ids_ok:
  "validate_ids env ids = Inr u \<Longrightarrow> ids \<noteq> [] \<and> length ids \<le> max_leaves \<and> distinct ids \<and> (\<forall>i\<in>set ids. x_parse_uuid env i = Some i)"
  by (auto simp: validate_ids_def dest: distinct_ids_ok split: if_splits)

text \<open>C22. A fee bump pays what was asked and nothing else: an accepted child spends only the SSP's
  change output of the withdrawal, pays value plus fee equal to that output, stays within the
  operator's limit, leaves no dust, and brings the whole package to at least the rate.\<close>

theorem fee_bump_bounds:
  assumes "cpfp_transaction env parent parent_fee rate max_fee destination = Inr (child, fee)"
  shows "map ti_previous_output (tx_inputs child) = [\<lparr>op_txid = x_txid env parent, op_vout = 2\<rparr>] \<and>
    (\<exists>value. tx_outputs child = [\<lparr>to_value = value, to_script = destination\<rparr>] \<and> x_dust env destination \<le> value \<and>
       unat value + unat fee = unat (to_value (tx_outputs parent ! 2))) \<and>
    fee \<le> max_fee \<and>
    (let vbytes = x_vsize env (bitcoin_transaction [\<lparr>op_txid = x_txid env parent, op_vout = 2\<rparr>]
         [\<lparr>to_value = to_value (tx_outputs parent ! 2), to_script = destination\<rparr>]) + 28
     in unat rate * unat (x_vsize env parent + vbytes) \<le> unat parent_fee + unat fee \<and>
       unat rate * unat vbytes \<le> unat fee)"
proof -
  let ?change = "tx_outputs parent ! 2"
  let ?child = "\<lambda>value. bitcoin_transaction [\<lparr>op_txid = x_txid env parent, op_vout = 2\<rparr>] [\<lparr>to_value = value, to_script = destination\<rparr>]"
  let ?vbytes = "x_vsize env (?child (to_value ?change)) + 28"
  obtain v where fee: "bump_fee_sats rate (x_vsize env parent) ?vbytes parent_fee = Some fee" "fee \<le> max_fee"
      and val: "checked_sub (to_value ?change) fee = Some v" "x_dust env destination \<le> v" "child = ?child v"
    using assms by (auto simp: cpfp_transaction_def Let_def and_then_Inr ok_or_def split: if_splits option.splits)
  obtain package own where m: "checked_mul rate (x_vsize env parent + ?vbytes) = Some package"
      "checked_mul rate ?vbytes = Some own" "fee = max (saturating_sub package parent_fee) own"
    using fee(1) by (auto simp: bump_fee_sats_def split: option.splits)
  have "unat (max a b) = max (unat a) (unat b)" for a b :: u64
    by (simp add: max_def word_le_nat_alt)
  then have "unat fee = max (unat package - unat parent_fee) (unat own)"
    by (simp add: m(3) unat_saturating_sub)
  then have "unat rate * unat (x_vsize env parent + ?vbytes) \<le> unat parent_fee + unat fee"
      "unat rate * unat ?vbytes \<le> unat fee"
    by (simp_all only: unat_checked_mul [OF m(1), symmetric] unat_checked_mul [OF m(2), symmetric])
  moreover have "unat v + unat fee = unat (to_value ?change)"
    using unat_checked_sub [OF val(1)] by simp
  ultimately show ?thesis
    using val fee(2) by (simp add: bitcoin_transaction_def Let_def)
qed


lemma collect_results_ok:
  "collect_results f xs = Inr ys \<Longrightarrow> length ys = length xs \<and> (\<forall>y\<in>set ys. \<exists>x\<in>set xs. f x = Inr y)"
  by (induction xs arbitrary: ys) (fastforce simp: and_then_Inr)+

lemma map_action_length: "map_action f xs w = (Inr ys, w') \<Longrightarrow> length ys = length xs"
  by (induction xs arbitrary: ys w) (auto simp: ret_Inr elim!: bind_InrE)

lemma coin_candidate_ok:
  "coin_candidate env reserved needed coin = Inr (Some (v, p)) \<Longrightarrow> needed \<le> v \<and> x_outpoint env p \<notin> set reserved"
  by (auto simp: coin_candidate_def and_then_Inr Let_def split: if_splits)

lemma select_coin_ok:
  assumes "select_coin env reserved needed unspent = Inr (v, p)"
  shows "needed \<le> v" "x_outpoint env p \<notin> set reserved"
proof -
  let ?key = "\<lambda>(value, p). (value, x_outpoint_rank env p)"
  obtain coins found where c: "collect_results (coin_candidate env reserved needed) coins = Inr found"
      "(case sort_key ?key (List.map_filter id found) of
         [] \<Rightarrow> Inl (Failure ''withdrawal needs one unreserved confirmed SegWit UTXO'') | c # _ \<Rightarrow> Inr c) = Inr (v, p)"
    using assms by (cases unspent) (auto simp: select_coin_def and_then_Inr)
  then have "(v, p) \<in> set (sort_key ?key (List.map_filter id found))"
    by (cases "sort_key ?key (List.map_filter id found)") simp_all
  then have "Some (v, p) \<in> set found"
    by (auto simp: map_filter_def)
  then obtain coin where "coin_candidate env reserved needed coin = Inr (Some (v, p))"
    using collect_results_ok [OF c(1)] by blast
  then show "needed \<le> v" "x_outpoint env p \<notin> set reserved"
    using coin_candidate_ok by blast+
qed

lemma intermediate_exact:
  assumes "length leaves \<le> max_leaves"
  shows "unat (intermediate_sats leaves) = 330 * (length leaves + 1)"
    "unat (intermediate_sats leaves + connector_sats) = 330 * (length leaves + 2)"
proof -
  have n: "intermediate_sats leaves = of_nat (330 * (length leaves + 1))"
      "intermediate_sats leaves + connector_sats = of_nat (330 * (length leaves + 2))"
    by (simp_all add: intermediate_sats_def connector_sats_def algebra_simps)
  show "unat (intermediate_sats leaves) = 330 * (length leaves + 1)"
    using assms unfolding n(1) unat_of_nat by (simp add: max_leaves_def)
  show "unat (intermediate_sats leaves + connector_sats) = 330 * (length leaves + 2)"
    using assms unfolding n(2) unat_of_nat by (simp add: max_leaves_def)
qed

text \<open>The chosen coin covers payout, fee and connectors, and leaves change above a connector.\<close>

lemma exit_tx_balance:
  assumes "needed_sats leaves payout fee = Some needed" "needed \<le> coin" "length leaves \<le> max_leaves"
  shows "unat payout + unat (intermediate_sats leaves) + unat (coin - payout - intermediate_sats leaves - fee) + unat fee = unat coin"
    "330 \<le> unat (coin - payout - intermediate_sats leaves - fee)"
proof -
  obtain v where v: "checked_add payout fee = Some v" "checked_add v (intermediate_sats leaves + connector_sats) = Some needed"
    using assms(1) by (auto simp: needed_sats_def split: option.splits)
  have sum: "unat payout + unat fee + (unat (intermediate_sats leaves) + 330) \<le> unat coin"
    using unat_checked_add [OF v(1)] unat_checked_add [OF v(2)] assms(2) intermediate_exact [OF assms(3)]
    by (simp add: word_le_nat_alt)
  have a: "unat (coin - payout) = unat coin - unat payout"
    using sum by (intro unat_sub) (simp add: word_le_nat_alt)
  have b: "unat (coin - payout - intermediate_sats leaves) = unat coin - unat payout - unat (intermediate_sats leaves)"
    using sum by (subst unat_sub) (simp_all add: word_le_nat_alt a)
  have c: "unat (coin - payout - intermediate_sats leaves - fee) =
      unat coin - unat payout - unat (intermediate_sats leaves) - unat fee"
    using sum by (subst unat_sub) (simp_all add: word_le_nat_alt b)
  show "unat payout + unat (intermediate_sats leaves) + unat (coin - payout - intermediate_sats leaves - fee) + unat fee = unat coin"
      "330 \<le> unat (coin - payout - intermediate_sats leaves - fee)"
    using sum by (simp_all add: c)
qed

lemma coop_exit_leaves_ok:
  assumes "coop_exit_leaves env owner ids w = (Inr leaves, w')"
  shows "map el_id leaves = ids" "w_db w' = w_db w"
proof -
  have ids: "collect_results (checked_leaf env key nodes) is = Inr ls \<Longrightarrow> map el_id ls = is" for key nodes "is" ls
    by (induction "is" arbitrary: ls) (auto simp: and_then_Inr checked_leaf_def split: option.splits if_splits)
  show "map el_id leaves = ids" "w_db w' = w_db w"
    using assms by (auto simp: coop_exit_leaves_def lift_result_Inr ask_def dest: ids elim!: bind_InrE)
qed

lemma withdrawal_amount_ok:
  assumes "withdrawal_amount env request quote speed leaves owner w = (Inr (payout, taken), w')"
    and "length leaves \<le> max_leaves"
  shows "(\<Sum>l\<leftarrow>taken. unat (el_value l)) = unat payout + unat (eq_user_fee quote) + unat (eq_fees quote ! speed)"
    "length taken \<le> max_leaves" "w_db w' = w_db w"
proof -
  obtain fees amount where f: "checked_add (eq_user_fee quote) (eq_fees quote ! speed) = Some fees"
      "total_leaves leaves = Inr amount"
    and run: "(let fee_ids = (case xi_fee_leaf_ids request of None \<Rightarrow> [] | Some ids \<Rightarrow> ids) in
     if xi_withdraw_all request
     then if fee_ids \<noteq> [] then throw (Failure ''withdraw_all cannot include fee leaves'')
       else bind_action (lift_result (ok_or (checked_sub amount fees) (Failure ''withdrawal amount does not cover fees'')))
         (\<lambda>payout. ret (payout, leaves))
     else then_action (lift_result (validate_ids env fee_ids))
       (bind_action (coop_exit_leaves env owner fee_ids) (\<lambda>fee_leaves.
        bind_action (lift_result (total_leaves fee_leaves)) (\<lambda>fee_total.
        if fee_total \<noteq> fees then throw (Failure ''fee leaves must exactly cover the quoted fees'')
        else then_action (lift_result (validate_ids env (map el_id (leaves @ fee_leaves))))
          (ret (amount, leaves @ fee_leaves)))))) w = (Inr (payout, taken), w')"
    using assms(1) by (auto simp: withdrawal_amount_def lift_result_Inr throw_Inr ok_or_def elim!: bind_InrE split: option.splits)
  note fee = unat_checked_add [OF f(1)] and amount = total_leaves_exact [OF f(2)]
  have "(\<Sum>l\<leftarrow>taken. unat (el_value l)) = unat payout + unat fees \<and> length taken \<le> max_leaves \<and> w_db w' = w_db w"
  proof (cases "xi_withdraw_all request")
    case True
    then obtain "checked_sub amount fees = Some payout" "taken = leaves" "w' = w"
      using run by (auto simp: Let_def lift_result_Inr ret_Inr throw_Inr ok_or_def elim!: bind_InrE split: if_splits option.splits)
    then show ?thesis using unat_checked_sub amount assms(2) by fastforce
  next
    case False
    then obtain fee_leaves u where "total_leaves fee_leaves = Inr fees" "payout = amount" "taken = leaves @ fee_leaves"
        "validate_ids env (map el_id (leaves @ fee_leaves)) = Inr u"
        "\<exists>ids. coop_exit_leaves env owner ids w = (Inr fee_leaves, w')"
      using run by (auto simp: Let_def lift_result_Inr ret_Inr throw_Inr elim!: bind_InrE then_InrE split: if_splits) blast
    moreover have "w_db w' = w_db w" using calculation(5) coop_exit_leaves_ok(2) by blast
    ultimately show ?thesis using total_leaves_exact [of fee_leaves fees] amount validate_ids_ok [of env "map el_id (leaves @ fee_leaves)" u]
      by auto
  qed
  then show "(\<Sum>l\<leftarrow>taken. unat (el_value l)) = unat payout + unat (eq_user_fee quote) + unat (eq_fees quote ! speed)"
      "length taken \<le> max_leaves" "w_db w' = w_db w"
    using fee by simp_all
qed


lemma ret_now_Inr: "(\<lambda>w. ret (f w) w) w = (Inr x, w') \<longleftrightarrow> x = f w \<and> w' = w"
  by (auto simp: ret_def)

text \<open>The exit and the connector of a record, for the coin it spends.\<close>

definition exit_built :: "exit_env \<Rightarrow> exit_record \<Rightarrow> u64 \<Rightarrow> outpoint \<Rightarrow> bool" where
  "exit_built env r coin outpoint \<longleftrightarrow>
     (\<exists>exit change connector.
        er_raw_exit r = x_encode env exit \<and> er_raw_connector r = x_encode env connector \<and>
        map ti_previous_output (tx_inputs exit) = [outpoint] \<and>
        map to_value (tx_outputs exit) = [er_payout_sats r, intermediate_sats (er_leaves r), change] \<and>
        unat (er_payout_sats r) + 330 * (length (er_leaves r) + 1) + unat change + unat (er_fee_sats r) = unat coin \<and>
        330 \<le> unat change \<and>
        map ti_previous_output (tx_inputs connector) = [\<lparr>op_txid = x_txid env exit, op_vout = 1\<rparr>] \<and>
        map to_value (tx_outputs connector) = replicate (length (er_leaves r) + 1) connector_sats)"

lemma choose_coin_ok:
  assumes "choose_coin env payout fee leaves w = (Inr (coin, outpoint), w')"
  shows "\<exists>needed. needed_sats leaves payout fee = Some needed \<and> needed \<le> coin" "w_db w' = w_db w"
    "x_outpoint env outpoint \<notin> cir_outpoint ` set (coop_exit_inputs (w_db w))"
    "\<exists>h unspent reserved needed. x_unspent env h = Inr unspent \<and> select_coin env reserved needed unspent = Inr (coin, outpoint)"
proof -
  let ?reserved = "map cir_outpoint (coop_exit_inputs (w_db w))"
  obtain needed unspent where n: "needed_sats leaves payout fee = Some needed" "x_unspent env (w_calls w) = Inr unspent"
      "select_coin env ?reserved needed unspent = Inr (coin, outpoint)" "w_db w' = w_db w"
    using assms by (auto simp: choose_coin_def coop_reserved_inputs_def select_where_def lift_result_Inr ask_Inr on_db_Inr
        ret_Inr throw_Inr ok_or_def split: option.splits elim!: bind_InrE)
  then show "\<exists>needed. needed_sats leaves payout fee = Some needed \<and> needed \<le> coin" "w_db w' = w_db w"
      "x_outpoint env outpoint \<notin> cir_outpoint ` set (coop_exit_inputs (w_db w))"
      "\<exists>h unspent reserved needed. x_unspent env h = Inr unspent \<and> select_coin env reserved needed unspent = Inr (coin, outpoint)"
    using select_coin_ok [OF n(3)] by auto
qed

lemma wallet_address_db: "wallet_address env w = (r, w') \<Longrightarrow> w_db w' = w_db w"
  by (auto simp: wallet_address_def ask_def bind_action_def lift_result_def split: sum.splits option.splits prod.splits)

lemma map_wallet_address_db: "map_action (\<lambda>_. wallet_address env) xs w = (r, w') \<Longrightarrow> w_db w' = w_db w"
proof (induction xs arbitrary: w r w')
  case (Cons x xs)
  then show ?case
    by (auto simp: bind_action_def ret_def split: sum.splits prod.splits dest!: wallet_address_db Cons.IH)
qed (simp add: ret_def)

lemma build_exit_ok:
  assumes "build_exit env owner request fee transfer_id key quote address payout leaves coin outpoint w = (Inr r, w')"
    and "needed_sats leaves payout fee = Some needed" "needed \<le> coin" "length leaves \<le> max_leaves"
  shows "exit_built env r coin outpoint" "w_db w' = w_db w" "er_leaves r = leaves" "er_payout_sats r = payout"
    "er_fee_sats r = fee" "er_quote r = quote" "er_owner r = owner" "er_transfer_id r = transfer_id"
    "er_signed_exit r = None" "er_status r = ''INITIATED''"
proof -
  obtain a1 w1 a2 w2 addresses where run: "wallet_address env w = (Inr a1, w1)" "wallet_address env w1 = (Inr a2, w2)"
      "map_action (\<lambda>_. wallet_address env) [0..<length leaves + 1] w2 = (Inr addresses, w')"
    and r: "r = exit_record_of env (w_calls w') owner request fee transfer_id key quote payout leaves
      (exit_tx outpoint coin payout (intermediate_sats leaves) fee (ad_script address) (ad_script a1) (ad_script a2))
      (map ad_script addresses)"
    using assms(1) unfolding build_exit_def Let_def by (elim bind_InrE) (simp add: ret_def)
  have n: "length addresses = length leaves + 1" using map_action_length [OF run(3)] by simp
  show "w_db w' = w_db w"
    using wallet_address_db [OF run(1)] wallet_address_db [OF run(2)] map_wallet_address_db [OF run(3)] by simp
  show "exit_built env r coin outpoint"
    unfolding exit_built_def
    by (rule exI [where x = "exit_tx outpoint coin payout (intermediate_sats leaves) fee (ad_script address) (ad_script a1) (ad_script a2)"],
        rule exI [where x = "coin - payout - intermediate_sats leaves - fee"],
        rule exI [where x = "connector_tx env (exit_tx outpoint coin payout (intermediate_sats leaves) fee (ad_script address)
          (ad_script a1) (ad_script a2)) (map ad_script addresses)"])
      (use exit_tx_balance [OF assms(2-4)] intermediate_exact [OF assms(4)] n in
        \<open>simp add: r exit_record_of_def exit_tx_def connector_tx_def bitcoin_transaction_def map_replicate_const comp_def\<close>)
  show "er_leaves r = leaves" "er_payout_sats r = payout" "er_fee_sats r = fee" "er_quote r = quote" "er_owner r = owner"
      "er_transfer_id r = transfer_id" "er_signed_exit r = None" "er_status r = ''INITIATED''"
    by (simp_all add: r exit_record_of_def)
qed


lemma insert_coop_exit_ok:
  assumes "insert_coop_exit env r outpoint d = (Inr u, d')"
  shows "coop_exits d' = coop_exits d @ [exit_row r]"
    "\<forall>x\<in>set (coop_exits d). \<not> coop_exit_clash (exit_row r) x"
    "\<exists>exit w. x_decode env (er_raw_exit r) = Some (exit, w) \<and> coop_exit_inputs d' = coop_exit_inputs d @
       map (\<lambda>o'. \<lparr>cir_outpoint = o', cir_request_id = er_id r\<rparr>)
         [outpoint, x_outpoint env \<lparr>op_txid = x_txid env exit, op_vout = 1\<rparr>, x_outpoint env \<lparr>op_txid = x_txid env exit, op_vout = 2\<rparr>]"
    "coop_exit_bumps d' = coop_exit_bumps d"
  using assms by (auto simp: insert_coop_exit_def transaction_Inr throw_Inr reserve_input_def insert_request_row_def
      insert_into_def list_ex_iff split: option.splits if_splits elim!: then_InrE)

lemma save_coop_quote_frame:
  "obeys (\<lambda>d d'. coop_exits d' = coop_exits d \<and> coop_exit_inputs d' = coop_exit_inputs d \<and> coop_exit_bumps d' = coop_exit_bumps d)
     (save_coop_quote now quote)"
  by (simp add: obeys_def save_coop_quote_def then_action_def bind_action_def delete_where_def insert_into_def)

text \<open>C11. A withdrawal conserves value to the satoshi: for every stored withdrawal, the leaves the
  SSP receives are worth exactly the payout, its own fee and the miner fee; the exit spends one
  coin of the wallet that no other withdrawal reserves and splits it into payout, connector
  funding of 330 sats per leaf plus one, and change of at least 330 sats; the connector spends
  exactly that funding into outputs of 330 sats.\<close>

theorem withdrawal_conserves_value:
  assumes "new_exit env owner request speed transfer_id key w = (Inr r, w')" "length (xi_leaf_ids request) \<le> max_leaves"
  shows "(\<Sum>l\<leftarrow>er_leaves r. unat (el_value l)) =
      unat (er_payout_sats r) + unat (eq_user_fee (er_quote r)) + unat (er_fee_sats r) \<and>
    (\<exists>coin outpoint. exit_built env r coin outpoint \<and>
       (\<exists>h unspent reserved needed. x_unspent env h = Inr unspent \<and>
          select_coin env reserved needed unspent = Inr (coin, outpoint)) \<and>
       (\<exists>d. x_outpoint env outpoint \<notin> cir_outpoint ` set (coop_exit_inputs d) \<and>
          insert_coop_exit env r (x_outpoint env outpoint) d = (Inr (), w_db w')))"
proof -
  obtain quote address leaves w2 payout taken w3 where q:
      "coop_exit_leaves env owner (xi_leaf_ids request) w2 = (Inr leaves, w3)"
    and run: "\<exists>w4. withdrawal_amount env request quote speed leaves owner w3 = (Inr (payout, taken), w4) \<and>
        reserve_exit env owner request speed transfer_id key quote address payout taken w4 = (Inr r, w')"
    using assms(1) unfolding new_exit_def
    by (elim bind_InrE) (auto simp: ret_def throw_Inr split: if_splits elim!: bind_InrE; blast)
  then obtain w4 where a: "withdrawal_amount env request quote speed leaves owner w3 = (Inr (payout, taken), w4)"
      "reserve_exit env owner request speed transfer_id key quote address payout taken w4 = (Inr r, w')"
    by blast
  have n: "length leaves \<le> max_leaves"
    using coop_exit_leaves_ok(1) [OF q] assms(2) by (metis length_map)
  let ?fee = "eq_fees quote ! speed"
  obtain coin outpoint w5 w6 where c: "choose_coin env payout ?fee taken w4 = (Inr (coin, outpoint), w5)"
      "build_exit env owner request ?fee transfer_id key quote address payout taken coin outpoint w5 = (Inr r, w6)"
      "insert_coop_exit env r (x_outpoint env outpoint) (w_db w6) = (Inr (), w_db w')"
    using a(2) unfolding reserve_exit_def Let_def
    by (elim bind_InrE) (auto simp: on_db_Inr ret_Inr elim!: bind_InrE then_InrE; blast)
  obtain needed where need: "needed_sats taken payout ?fee = Some needed" "needed \<le> coin"
    using choose_coin_ok(1) [OF c(1)] by blast
  note built = build_exit_ok [OF c(2) need withdrawal_amount_ok(2) [OF a(1) n]]
  show ?thesis
    using withdrawal_amount_ok(1) [OF a(1) n] built choose_coin_ok(2-4) [OF c(1)] c(3)
    by (intro conjI exI [of _ coin] exI [of _ outpoint] exI [of _ "w_db w6"]) simp_all
qed

section \<open>A concrete withdrawal\<close>

text \<open>One leaf of 20000 sats withdrawn through one coin of 30000 sats, for the witnesses.\<close>

definition example_exit_tx :: tx where
  "example_exit_tx = exit_tx \<lparr>op_txid = ''c'', op_vout = 0\<rparr> 30000 19691 660 209 ''s'' ''s'' ''s''"

definition example_env :: exit_env where
  "example_env =
     \<lparr>x_nodes = \<lambda>_ _. Inr (\<lambda>_. Some \<lparr>tn_owner = ''u'', tn_network = 1, tn_status = ''AVAILABLE'', tn_value = 20000\<rparr>),
      x_transfer = \<lambda>_ _. Inr (Some \<lparr>st_id = ''t'', st_sender = ''u'', st_receiver = ''ssp'', st_total_value = 20000,
        st_status = SenderKeyTweakPending, st_type = CooperativeExit, st_leaves = [\<lparr>tl_id = ''l'', tl_value = 20000,
          tl_refund_tx = None,
          tl_intermediate_refund = bitcoin_transaction [\<lparr>op_txid = ''x'', op_vout = 0\<rparr>, \<lparr>op_txid = ''n'', op_vout = 0\<rparr>] [],
          tl_direct_refund = None,
          tl_direct_from_cpfp_refund = Some (bitcoin_transaction [\<lparr>op_txid = ''x'', op_vout = 0\<rparr>, \<lparr>op_txid = ''n'', op_vout = 0\<rparr>] [])\<rparr>],
        st_expiry = None\<rparr>),
      x_wallet_transfer = \<lambda>h _. Inr (Some \<lparr>wt_id = ''t'', wt_sender = ''u'', wt_receiver = ''ssp'', wt_total = 20000,
        wt_status = (if list_ex (\<lambda>c. case c of ProcessTransfer _ \<Rightarrow> True | _ \<Rightarrow> False) h then Completed else SenderKeyTweakPending),
        wt_type = CooperativeExit, wt_leaves = [(''l'', [])], wt_expiry = None\<rparr>),
      x_process = \<lambda>_ _. Inr (),
      x_estimate = \<lambda>_ _. Inr (JObj [(''feerate'', JInt 1000)]),
      x_address = \<lambda>_. Inr (JStr ''a''),
      x_unspent = \<lambda>_. Inr (JArr [JObj [(''spendable'', JBool True), (''safe'', JBool True), (''amount'', JInt 30000),
        (''scriptPubKey'', JStr ''s''), (''txid'', JStr ''c''), (''vout'', JInt 0)]]),
      x_sign = \<lambda>_ _. Inr (JObj [(''complete'', JBool True), (''hex'', JStr ''signed'')]),
      x_tx = \<lambda>h _. if SendTx (Some ''signed'') \<in> set h then Inr (JObj [(''confirmations'', JInt 1)]) else Inl (Failure ''unknown''),
      x_txout = \<lambda>_ _ _. Inr JNull,
      x_send = \<lambda>_ _. Inr (),
      x_now = \<lambda>_ _. 1000,
      x_uuid = \<lambda>_. ''r'',
      x_identity = ''ssp'',
      x_network = Regtest,
      x_network_id = 1,
      x_network_name = ''REGTEST'',
      x_user_fee = 100,
      x_parse_key = Some,
      x_parse_transfer = Some,
      x_parse_uuid = Some,
      x_parse_address = \<lambda>a. Inr \<lparr>ad_text = a, ad_script = ''s''\<rparr>,
      x_script_len = \<lambda>_. 34,
      x_dust = \<lambda>_. 294,
      x_segwit = \<lambda>_. True,
      x_script_hex = Some,
      x_parse_txid = Some,
      x_btc_amount = \<lambda>v. ok_or (as_u64 v) (Failure ''amount''),
      x_encode = \<lambda>t. if length (tx_outputs t) = 3 then ''exit'' else ''connector'',
      x_decode = \<lambda>raw. if raw = ''exit'' then Some (example_exit_tx, [True])
        else if raw = ''signed'' then Some (example_exit_tx, [False])
        else Some (bitcoin_transaction [\<lparr>op_txid = ''e'', op_vout = 1\<rparr>] [], [True]),
      x_txid = \<lambda>t. if length (tx_outputs t) = 3 then ''e'' else ''n'',
      x_vsize = \<lambda>_. 100,
      x_outpoint = \<lambda>p. op_txid p @ (if op_vout p = 0 then ''0'' else if op_vout p = 1 then ''1'' else ''2''),
      x_outpoint_rank = \<lambda>_. 0,
      x_fingerprint = \<lambda>_. ''f'',
      x_time = \<lambda>_. ''now'',
      x_updated = \<lambda>_. ''now''\<rparr>"

definition example_input :: exit_input where
  "example_input = \<lparr>xi_leaf_ids = [''l''], xi_address = ''a'', xi_speed = ''FAST'', xi_withdraw_all = True,
     xi_fee_leaf_ids = None, xi_fee_quote_id = None, xi_idempotency_key = None, xi_transfer_id = Some ''t''\<rparr>"


definition example_quote :: exit_quote where
  "example_quote = \<lparr>eq_id = ''r'', eq_owner = ''u'', eq_address = ''a'', eq_leaves = [\<lparr>el_id = ''l'', el_value = 20000\<rparr>],
  eq_created_at = 1000, eq_expires_at = 1300, eq_user_fee = 100, eq_rates = [1,1,1], eq_fees = [209,209,209]\<rparr>"

lemmas run_simps = action_defs ask_def on_db_def and_then_def statement_defs handle_def transaction_def

lemma example_quoted: "\<exists>w. quote_exit example_env ''u'' (Some [''l'']) (Some ''a'') empty_world = (Inr example_quote, w) \<and>
    w_db w = empty_db\<lparr>coop_exit_quotes := [\<lparr>cqr_id = ''r'', cqr_owner = ''u'', cqr_expires_at = 1300, cqr_data = example_quote\<rparr>]\<rparr> \<and>
    w_calls w = [AskNodes [''l''], AskEstimate 2, AskEstimate 6, AskEstimate 12]"
  by (simp add: quote_exit_def empty_world_def run_simps validate_ids_def coop_exit_leaves_def
    save_coop_quote_def empty_db_def max_leaves_def example_env_def quote_seconds_def fee_rate_def example_quote_def
    exit_vbytes_def fee_of_def checked_leaf_def div_ceil_def checked_mul_def kept_quotes_def)

definition example_record :: exit_record where
  "example_record = exit_record_of example_env [] ''u'' example_input 209 ''t'' ''t'' example_quote 19691
   [\<lparr>el_id = ''l'', el_value = 20000\<rparr>] example_exit_tx [''s'', ''s'']"

lemma example_input_fields [simp]: "xi_leaf_ids example_input = [''l'']" "xi_address example_input = ''a''" "xi_speed example_input = ''FAST''" "xi_withdraw_all example_input"
   "xi_fee_leaf_ids example_input = None" "xi_fee_quote_id example_input = None" "xi_idempotency_key example_input = None" "xi_transfer_id example_input = Some ''t''"
  by (simp_all add: example_input_def)


lemma example_leaves: "coop_exit_leaves example_env ''u'' [''l''] w = (Inr [\<lparr>el_id = ''l'', el_value = 20000\<rparr>], w\<lparr>w_calls := w_calls w @ [AskNodes [''l'']]\<rparr>)"
  by (simp add: coop_exit_leaves_def run_simps example_env_def checked_leaf_def)

lemma example_coin: "coop_exit_inputs (w_db w) = [] \<Longrightarrow> choose_coin example_env 19691 209 [\<lparr>el_id = ''l'', el_value = 20000\<rparr>] w =
   (Inr (30000, \<lparr>op_txid = ''c'', op_vout = 0\<rparr>), w\<lparr>w_calls := w_calls w @ [AskUnspent]\<rparr>)"
  by (simp add: choose_coin_def run_simps coop_reserved_inputs_def needed_sats_def intermediate_sats_def connector_sats_def
    checked_add_def example_env_def select_coin_def coin_candidate_def map_filter_def)

lemma example_address: "wallet_address example_env w = (Inr \<lparr>ad_text = ''a'', ad_script = ''s''\<rparr>, w\<lparr>w_calls := w_calls w @ [AskAddress]\<rparr>)"
  by (simp add: wallet_address_def run_simps example_env_def)

lemma example_amount: "withdrawal_amount example_env example_input example_quote 0 [\<lparr>el_id = ''l'', el_value = 20000\<rparr>] ''u'' w =
   (Inr (19691, [\<lparr>el_id = ''l'', el_value = 20000\<rparr>]), w)"
  by (simp add: withdrawal_amount_def run_simps total_leaves_def checked_add_def checked_sub_def max_sats_def example_quote_def)


lemma example_build: "\<exists>w'. build_exit example_env ''u'' example_input 209 ''t'' ''t'' example_quote \<lparr>ad_text = ''a'', ad_script = ''s''\<rparr> 19691
    [\<lparr>el_id = ''l'', el_value = 20000\<rparr>] 30000 \<lparr>op_txid = ''c'', op_vout = 0\<rparr> w = (Inr example_record, w') \<and> w_db w' = w_db w \<and> w_calls w' = w_calls w @ [AskAddress, AskAddress, AskAddress, AskAddress]"
proof -
  have "[0..<2] = [0, Suc 0]" by (simp add: numeral_eq_Suc)
  then show ?thesis
  by (simp add: build_exit_def run_simps example_address example_record_def exit_record_of_def exit_tx_def example_exit_tx_def
     bitcoin_transaction_def connector_tx_def Let_def)
   (simp add: example_env_def)
qed

lemma example_insert: "coop_exits d = [] \<Longrightarrow> coop_exit_inputs d = [] \<Longrightarrow> requests d = [] \<Longrightarrow>
   \<exists>d'. insert_coop_exit example_env example_record ''c0'' d = (Inr (), d') \<and> transfers d' = transfers d"
  by (simp add: insert_coop_exit_def run_simps reserve_input_def insert_request_row_def example_env_def example_record_def exit_record_of_def
    exit_exists_def exit_row_def coop_input_clash_def example_exit_tx_def exit_tx_def bitcoin_transaction_def)

lemma example_new: "\<exists>w. new_exit example_env ''u'' example_input 0 ''t'' ''t'' empty_world = (Inr example_record, w) \<and>
  coop_exits (w_db w) = [exit_row example_record] \<and> coop_exit_bumps (w_db w) = [] \<and> transfers (w_db w) = [] \<and>
  w_calls w = [AskNodes [''l''], AskEstimate 2, AskEstimate 6, AskEstimate 12, AskNodes [''l''], AskUnspent] @ [AskAddress, AskAddress, AskAddress, AskAddress]"
proof -
  obtain w where w: "quote_exit example_env ''u'' (Some [''l'']) (Some ''a'') empty_world = (Inr example_quote, w)"
    "w_db w = empty_db\<lparr>coop_exit_quotes := [\<lparr>cqr_id = ''r'', cqr_owner = ''u'', cqr_expires_at = 1300, cqr_data = example_quote\<rparr>]\<rparr>"
    "w_calls w = [AskNodes [''l''], AskEstimate 2, AskEstimate 6, AskEstimate 12]"
    using example_quoted by blast
  have e: "x_parse_address example_env ''a'' = Inr \<lparr>ad_text = ''a'', ad_script = ''s''\<rparr>" "x_now example_env h 0 = 1000" "x_dust example_env s = 294"
     "x_outpoint example_env \<lparr>op_txid = ''c'', op_vout = 0\<rparr> = ''c0''" for h s
    by (simp_all add: example_env_def)
  have q: "eq_expires_at example_quote = 1300" "eq_address example_quote = ''a''" "eq_fees example_quote ! 0 = 209" by (simp_all add: example_quote_def)
  have db: "coop_exits (w_db w) = [] \<and> coop_exit_inputs (w_db w) = [] \<and> requests (w_db w) = []" "transfers (w_db w) = []" "coop_exit_bumps (w_db w) = []"
    by (simp_all add: w empty_db_def)
  obtain w' where b: "build_exit example_env ''u'' example_input 209 ''t'' ''t'' example_quote \<lparr>ad_text = ''a'', ad_script = ''s''\<rparr> 19691
      [\<lparr>el_id = ''l'', el_value = 20000\<rparr>] 30000 \<lparr>op_txid = ''c'', op_vout = 0\<rparr>
      (w\<lparr>w_calls := w_calls w @ [AskNodes [''l''], AskUnspent]\<rparr>) = (Inr example_record, w')" "w_db w' = w_db w"
      "w_calls w' = (w_calls w @ [AskNodes [''l''], AskUnspent]) @ [AskAddress, AskAddress, AskAddress, AskAddress]"
    using example_build [of "w\<lparr>w_calls := w_calls w @ [AskNodes [''l''], AskUnspent]\<rparr>"] by auto
  obtain d' where d': "insert_coop_exit example_env example_record ''c0'' (w_db w') = (Inr (), d')" "transfers d' = []"
    using example_insert db b(2) by metis
  have "coop_exits d' = [exit_row example_record]" "coop_exit_bumps d' = []"
    using insert_coop_exit_ok(1,4) [OF d'(1)] db b(2) by simp_all
  then show ?thesis
   using db d' b w(3) by (simp add: new_exit_def bind_action_def w(1) ret_def example_leaves e q example_amount reserve_exit_def example_coin then_action_def on_db_def)
qed

lemma withdrawal_conserves_value_witness:
  "\<exists>w'. new_exit example_env ''u'' example_input 0 ''t'' ''t'' empty_world = (Inr example_record, w') \<and>
     (\<Sum>l\<leftarrow>er_leaves example_record. unat (el_value l)) = 19691 + 100 + 209"
proof -
  obtain w' where n: "new_exit example_env ''u'' example_input 0 ''t'' ''t'' empty_world = (Inr example_record, w')"
    using example_new by blast
  have "unat (er_payout_sats example_record) = 19691" "unat (eq_user_fee (er_quote example_record)) = 100" "unat (er_fee_sats example_record) = 209"
    by (simp_all add: example_record_def exit_record_of_def example_quote_def)
  then show ?thesis
    using withdrawal_conserves_value [OF n] n by (simp add: max_leaves_def)
qed

lemma fee_bump_bounds_witness:
  "\<exists>child. cpfp_transaction example_env example_exit_tx 209 10 5000 ''s'' = Inr (child, 2071) \<and>
     map ti_previous_output (tx_inputs child) = [\<lparr>op_txid = ''e'', op_vout = 2\<rparr>] \<and> (2071 :: u64) \<le> 5000"
proof -
  have "cpfp_transaction example_env example_exit_tx 209 10 5000 ''s'' =
      Inr (bitcoin_transaction [\<lparr>op_txid = ''e'', op_vout = 2\<rparr>] [\<lparr>to_value = 7369, to_script = ''s''\<rparr>], 2071)"
    by (simp add: cpfp_transaction_def example_exit_tx_def exit_tx_def bitcoin_transaction_def bump_fee_sats_def
        checked_mul_def checked_sub_def saturating_sub_def and_then_def example_env_def)
  moreover have "x_txid example_env example_exit_tx = ''e''"
    by (simp add: example_env_def example_exit_tx_def exit_tx_def bitcoin_transaction_def)
  ultimately show ?thesis
    using fee_bump_bounds by metis
qed


end
