(* ===== verification/Held_Records.thy ===== *)
theory Held_Records
  imports World
begin

text \<open>
  Services that keep records in the database, act on them through external calls, and hold
  some of them in memory while they do (the record a handler works on, the rest of a loop).
  The interface asks for an invariant \<open>ok\<close> of the world, a predicate \<open>stored\<close> saying that a
  record is the current one, the calls that are harmless and the condition under which another
  call may be made; it gives the triples for the statements of a handler. A statement is quiet
  when it leaves the service's tables alone and makes harmless calls only.
\<close>

text \<open>Facts about the log that later calls cannot undo.\<close>

definition grows :: "('c list \<Rightarrow> bool) \<Rightarrow> bool" where
  "grows L \<longleftrightarrow> (\<forall>log cs. L log \<longrightarrow> L (log @ cs))"

definition asked_before :: "'c list \<Rightarrow> 'c \<Rightarrow> 'c list \<Rightarrow> bool" where
  "asked_before log c pre \<longleftrightarrow> (\<exists>post. log = pre @ c # post)"

lemma asked_snoc: "asked_before (log @ [c]) c log"
  by (simp add: asked_before_def)

lemma asked_append: "asked_before log c pre \<Longrightarrow> asked_before (log @ cs) c pre"
  by (auto simp: asked_before_def)

lemma asked_snocE:
  assumes "asked_before (log @ [c]) c' pre"
  obtains "c' = c" "pre = log" | "asked_before log c' pre"
  using assms by (auto simp: asked_before_def append_eq_append_conv2 append_eq_Cons_conv Cons_eq_append_conv)

lemma grows_const: "grows (\<lambda>_. A)"
  by (simp add: grows_def)

lemma grows_conj: "grows L \<Longrightarrow> grows M \<Longrightarrow> grows (\<lambda>log. L log \<and> M log)"
  unfolding grows_def by blast

lemma grows_asked: "grows (\<lambda>log. asked_before log c pre)" "grows (\<lambda>log. \<exists>pre. asked_before log c pre \<and> A pre)"
  unfolding grows_def by (blast intro: asked_append)+

locale held_records =
  fixes ok :: "'c log_world \<Rightarrow> bool"
    and stored :: "'c log_world \<Rightarrow> 'r \<Rightarrow> bool"
    and same :: "db \<Rightarrow> db \<Rightarrow> bool"
    and harmless :: "'c \<Rightarrow> bool"
    and justified :: "'c log_world \<Rightarrow> 'c \<Rightarrow> bool"
  assumes same_refl: "same d d"
    and same_trans: "same d e \<Longrightarrow> same e f \<Longrightarrow> same d f"
    and harmless_justified: "harmless c \<Longrightarrow> justified w c"
    and ok_same: "ok w \<Longrightarrow> same (w_db w) d \<Longrightarrow> ok (w\<lparr>w_db := d\<rparr>)"
    and ok_call: "ok w \<Longrightarrow> justified w c \<Longrightarrow> ok (w\<lparr>w_calls := w_calls w @ [c]\<rparr>)"
    and stored_same: "same (w_db w) (w_db w') \<Longrightarrow> stored w r \<Longrightarrow> stored w' r"
begin

definition quiet :: "'c log_world \<Rightarrow> 'c log_world \<Rightarrow> bool" where
  "quiet w w' \<longleftrightarrow> same (w_db w) (w_db w') \<and> calls_only harmless w w'"

definition held :: "'r list \<Rightarrow> 'c log_world \<Rightarrow> bool" where
  "held rs w \<longleftrightarrow> ok w \<and> (\<forall>r\<in>set rs. stored w r)"

text \<open>The invariant, the records in memory, and a fact about the log.\<close>

definition at :: "'r list \<Rightarrow> ('c list \<Rightarrow> bool) \<Rightarrow> 'c log_world \<Rightarrow> bool" where
  "at rs L w \<longleftrightarrow> held rs w \<and> L (w_calls w)"

lemma quiet_refl: "quiet w w"
  by (simp add: quiet_def same_refl calls_only.R_refl)

lemma quiet_trans: "quiet u v \<Longrightarrow> quiet v w \<Longrightarrow> quiet u w"
  unfolding quiet_def by (meson same_trans calls_only.R_trans)

lemma quiet_on_db: "obeys same m \<Longrightarrow> obeys quiet (on_db m)"
  by (auto simp: obeys_def quiet_def calls_only_def on_db_def split: prod.split) (metis snd_conv)

lemma quiet_ask: "harmless c \<Longrightarrow> obeys quiet (ask c answer)"
  by (auto simp: obeys_def quiet_def same_refl calls_only_def ask_def)

lemma ok_calls: "ok w \<Longrightarrow> \<forall>c\<in>set cs. harmless c \<Longrightarrow> ok (w\<lparr>w_calls := w_calls w @ cs\<rparr>)"
proof (induction cs arbitrary: w)
  case (Cons c cs)
  have "ok (w\<lparr>w_calls := w_calls w @ [c]\<rparr>)"
    using Cons.prems by (simp add: ok_call harmless_justified)
  from Cons.IH [OF this] show ?case using Cons.prems by simp
qed simp

lemma quiet_held:
  assumes "quiet w w'" "held rs w"
  shows "held rs w'"
proof -
  obtain cs where cs: "w_calls w' = w_calls w @ cs" "\<forall>c\<in>set cs. harmless c" "same (w_db w) (w_db w')"
    using assms(1) by (auto simp: quiet_def calls_only_def)
  have "ok (w\<lparr>w_db := w_db w'\<rparr>)" using assms(2) cs(3) by (simp add: held_def ok_same)
  from ok_calls [OF this cs(2)] have "ok w'" using cs(1) by (cases w; cases w') simp
  then show ?thesis using assms(2) cs(3) unfolding held_def by (blast intro: stored_same)
qed

lemma quiet_at: "quiet w w' \<Longrightarrow> grows L \<Longrightarrow> at rs L w \<Longrightarrow> at rs L w'"
  unfolding at_def grows_def using quiet_held by (auto simp: quiet_def calls_only_def)

lemma at_True: "at rs (\<lambda>_. True) = held rs"
  by (simp add: at_def fun_eq_iff)

lemma at_held: "at rs L w \<Longrightarrow> held rs w"
  by (simp add: at_def)

lemma held_fewer: "held (r # rs) w \<Longrightarrow> held rs w"
  by (simp add: held_def)

lemma at_fewer: "at (r # rs) L w \<Longrightarrow> held rs w"
  unfolding at_def by (blast intro: held_fewer)

text \<open>A quiet statement keeps what it found, and its success may teach a fact.\<close>

lemma triple_quiet:
  assumes "obeys quiet m" "\<And>w x w'. m w = (Inr x, w') \<Longrightarrow> F x w'"
  shows "triple (held rs) m (\<lambda>x w. held rs w \<and> F x w) (held rs)"
proof (rule tripleI)
  fix w x w'
  assume "held rs w" "m w = (Inr x, w')"
  then show "held rs w' \<and> F x w'" using obeysD [OF assms(1), of w] assms(2) quiet_held by auto
next
  fix w e w'
  assume "held rs w" "m w = (Inl e, w')"
  then show "held rs w'" using obeysD [OF assms(1), of w] quiet_held by auto
qed

lemma keeps_quiet: "obeys quiet m \<Longrightarrow> keeps (held rs) m"
  using triple_quiet [of m "\<lambda>_ _. True"] by simp

lemma triple_log_quiet:
  assumes "obeys quiet m" "grows L" "\<And>w x w'. m w = (Inr x, w') \<Longrightarrow> at rs L w \<Longrightarrow> F x (w_calls w')"
  shows "triple (at rs L) m (\<lambda>x. at rs (\<lambda>log. L log \<and> F x log)) (held rs)"
proof (rule tripleI)
  fix w x w'
  assume w: "at rs L w" "m w = (Inr x, w')"
  then have "quiet w w'" using obeysD [OF assms(1), of w] by simp
  then show "at rs (\<lambda>log. L log \<and> F x log) w'"
    using quiet_at [OF _ assms(2) w(1)] assms(3) [OF w(2,1)] by (simp add: at_def)
next
  fix w e w'
  assume w: "at rs L w" "m w = (Inl e, w')"
  then have "quiet w w'" using obeysD [OF assms(1), of w] by simp
  then show "held rs w'" using w(1) quiet_held at_held by blast
qed

lemma triple_at_quiet:
  assumes "obeys quiet m" "grows L" "\<And>w x w'. m w = (Inr x, w') \<Longrightarrow> at (r # zs) L w \<Longrightarrow> F x (w_calls w')"
  shows "triple (at (r # zs) L) m (\<lambda>x. at (r # zs) (\<lambda>log. L log \<and> F x log)) (held zs)"
  by (rule triple_weaken [OF triple_log_quiet [OF assms(1,2), where F = F and rs = "r # zs"]])
    (auto intro: assms(3) held_fewer)

lemma keeps_at_quiet: "obeys quiet m \<Longrightarrow> grows L \<Longrightarrow> triple (at (r # zs) L) m (\<lambda>_. at (r # zs) L) (held zs)"
  using triple_at_quiet [of m L r zs "\<lambda>_ _. True"] by simp

text \<open>A call that is not harmless needs its justification.\<close>

lemma held_call:
  assumes "held rs w" "justified w c"
  shows "held rs (w\<lparr>w_calls := w_calls w @ [c]\<rparr>)"
  using assms unfolding held_def by (auto intro: ok_call stored_same [of w] simp: same_refl)

lemma triple_call:
  assumes "grows L" "\<And>w. at (r # zs) L w \<Longrightarrow> justified w c"
  shows "triple (at (r # zs) L) (ask c f) (\<lambda>_. at (r # zs) L) (held zs)"
  by (rule triple_ask) (use assms in \<open>auto simp: at_def held_call grows_def intro: held_fewer [OF held_call]\<close>)

lemma keeps_ignore: "keeps P m \<Longrightarrow> keeps P (ignore m)"
  unfolding ignore_def by (intro triple_handle triple_ret)

end

sublocale held_records \<subseteq> quiet: step_relation quiet
  by unfold_locales (rule quiet_refl, rule quiet_trans)

end
