(* ===== verification/Exit_Safety.thy ===== *)
theory Exit_Safety
  imports Coop_Exit Held_Records
begin

text \<open>
  What no run of the withdrawal handlers can do. The invariant relates the stored withdrawals
  to the log of calls: a signed payout is backed by a verified transfer of the user's leaves,
  a finished one by a confirmed payout and a completed claim, a coin stays reserved until its
  withdrawal ends, and every call so far was justified when it was made. Each handler keeps it;
  most statements are quiet (no call that moves money, no change of the withdrawal tables).
\<close>

section \<open>What the log says\<close>

definition transfer_verified :: "exit_env \<Rightarrow> exit_call list \<Rightarrow> exit_record \<Rightarrow> bool" where
  "transfer_verified env log r \<longleftrightarrow> (\<exists>pre t transfer. asked_before log (AskTransfer t) pre \<and>
     x_parse_transfer env (er_transfer_id r) = Some t \<and> x_transfer env pre t = Inr (Some transfer) \<and>
     exit_transfer_valid env transfer r = Inr ())"

definition transfer_absent :: "exit_env \<Rightarrow> exit_call list \<Rightarrow> exit_record \<Rightarrow> bool" where
  "transfer_absent env log r \<longleftrightarrow> (\<exists>pre t. asked_before log (AskTransfer t) pre \<and>
     x_parse_transfer env (er_transfer_id r) = Some t \<and> x_transfer env pre t = Inr None)"

definition payout_confirmed :: "exit_env \<Rightarrow> exit_call list \<Rightarrow> exit_record \<Rightarrow> bool" where
  "payout_confirmed env log r \<longleftrightarrow> (\<exists>pre exit ws answer. x_decode env (er_raw_exit r) = Some (exit, ws) \<and>
     asked_before log (AskTx (x_txid env exit)) pre \<and> x_tx env pre (x_txid env exit) = Inr answer \<and>
     0 < confirmations (Some answer))"

definition leaves_claimed :: "exit_env \<Rightarrow> exit_call list \<Rightarrow> exit_record \<Rightarrow> bool" where
  "leaves_claimed env log r \<longleftrightarrow> (\<exists>pre i t. x_parse_transfer env (er_transfer_id r) = Some i \<and>
     asked_before log (AskWalletTransfer i) pre \<and> x_wallet_transfer env pre i = Inr (Some t) \<and> wt_status t = Completed)"

text \<open>A signature of the stored payout transaction, of a transfer that was verified.\<close>

definition payout_of :: "exit_env \<Rightarrow> exit_record \<Rightarrow> string \<Rightarrow> bool" where
  "payout_of env r raw \<longleftrightarrow> (\<exists>exit ws. x_decode env (er_raw_exit r) = Some (exit, ws) \<and> validate_signed_exit env exit raw = Inr ())"

definition paid_for :: "exit_env \<Rightarrow> exit_call list \<Rightarrow> exit_record \<Rightarrow> string \<Rightarrow> bool" where
  "paid_for env log r raw \<longleftrightarrow> er_signed_exit r = Some raw \<and> transfer_verified env log r \<and> payout_of env r raw"

text \<open>A child transaction of a signed payout that pays a fee within the operator's limit.\<close>

definition bump_tx :: "exit_env \<Rightarrow> exit_record \<Rightarrow> tx \<Rightarrow> bool" where
  "bump_tx env r child \<longleftrightarrow> (\<exists>raw parent ws rate max_fee destination fee. er_signed_exit r = Some raw \<and>
     x_decode env raw = Some (parent, ws) \<and> cpfp_transaction env parent (er_fee_sats r) rate max_fee destination = Inr (child, fee))"

definition bump_of :: "exit_env \<Rightarrow> exit_record \<Rightarrow> string \<Rightarrow> bool" where
  "bump_of env r raw \<longleftrightarrow> (\<exists>child. bump_tx env r child \<and> validate_signed_exit env child raw = Inr ())"

text \<open>When a call that moves money may be made after a history: one stored withdrawal gives all
  the reasons.\<close>

fun justified_by :: "exit_env \<Rightarrow> exit_call list \<Rightarrow> exit_record \<Rightarrow> exit_call \<Rightarrow> bool" where
  "justified_by env log r (SendTx raw) \<longleftrightarrow> (\<exists>payout. paid_for env log r payout \<and>
     (raw = Some payout \<or> (\<exists>bump. raw = Some bump \<and> bump_of env r bump)))"
| "justified_by env log r (SignTx raw) \<longleftrightarrow> transfer_verified env log r \<and>
     (raw = er_raw_exit r \<or> (\<exists>payout child. paid_for env log r payout \<and> bump_tx env r child \<and> raw = x_encode env child))"
| "justified_by env log r (ProcessTransfer t) \<longleftrightarrow> (\<exists>payout pre i. paid_for env log r payout \<and> payout_confirmed env log r \<and>
     x_parse_transfer env (er_transfer_id r) = Some i \<and> asked_before log (AskWalletTransfer i) pre \<and>
     x_wallet_transfer env pre i = Inr (Some t) \<and> wt_type t = CooperativeExit \<and> wt_receiver t = x_identity env)"
| "justified_by env log r _ \<longleftrightarrow> True"

fun harmless :: "exit_call \<Rightarrow> bool" where
  "harmless (SendTx _) \<longleftrightarrow> False"
| "harmless (SignTx _) \<longleftrightarrow> False"
| "harmless (ProcessTransfer _) \<longleftrightarrow> False"
| "harmless _ \<longleftrightarrow> True"

definition justified :: "exit_env \<Rightarrow> coop_exit_row list \<Rightarrow> exit_call list \<Rightarrow> exit_call \<Rightarrow> bool" where
  "justified env xs log c \<longleftrightarrow> harmless c \<or> (\<exists>row\<in>set xs. justified_by env log (cxr_data row) c)"

definition all_justified :: "exit_env \<Rightarrow> coop_exit_row list \<Rightarrow> exit_call list \<Rightarrow> bool" where
  "all_justified env xs log \<longleftrightarrow> (\<forall>c pre. asked_before log c pre \<longrightarrow> justified env xs pre c)"

lemma all_justified_snoc: "all_justified env xs log \<Longrightarrow> justified env xs log c \<Longrightarrow> all_justified env xs (log @ [c])"
  unfolding all_justified_def by (metis asked_snocE)

lemma log_grows:
  "transfer_verified env log r \<Longrightarrow> transfer_verified env (log @ cs) r"
  "transfer_absent env log r \<Longrightarrow> transfer_absent env (log @ cs) r"
  "payout_confirmed env log r \<Longrightarrow> payout_confirmed env (log @ cs) r"
  "leaves_claimed env log r \<Longrightarrow> leaves_claimed env (log @ cs) r"
  "paid_for env log r raw \<Longrightarrow> paid_for env (log @ cs) r raw"
  by (auto simp: transfer_verified_def transfer_absent_def payout_confirmed_def leaves_claimed_def paid_for_def;
      meson asked_append)+

section \<open>The invariant\<close>

definition record_ok :: "exit_env \<Rightarrow> exit_call list \<Rightarrow> exit_record \<Rightarrow> bool" where
  "record_ok env log r \<longleftrightarrow>
     (case er_signed_exit r of
        None \<Rightarrow> er_status r = ''INITIATED'' \<or> er_status r = ''EXPIRED'' \<and> transfer_absent env log r
      | Some raw \<Rightarrow> paid_for env log r raw \<and> er_status r \<noteq> ''EXPIRED'' \<and>
          (er_status r = ''SUCCEEDED'' \<longrightarrow> payout_confirmed env log r \<and> leaves_claimed env log r))"

definition coin_reserved :: "exit_env \<Rightarrow> db \<Rightarrow> exit_record \<Rightarrow> bool" where
  "coin_reserved env d r \<longleftrightarrow> (\<exists>coin outputs. er_raw_exit r = x_encode env (bitcoin_transaction [coin] outputs) \<and>
     \<lparr>cir_outpoint = x_outpoint env coin, cir_request_id = er_id r\<rparr> \<in> set (coop_exit_inputs d))"

definition exits_ok :: "exit_env \<Rightarrow> exit_world \<Rightarrow> bool" where
  "exits_ok env w \<longleftrightarrow> (let d = w_db w in
     no_clash coop_exit_clash (coop_exits d) \<and> no_clash coop_input_clash (coop_exit_inputs d) \<and>
     (\<forall>row\<in>set (coop_exits d). row = exit_row (cxr_data row) \<and> record_ok env (w_calls w) (cxr_data row) \<and>
        (exit_final (er_status (cxr_data row)) \<or> coin_reserved env d (cxr_data row))) \<and>
     (\<forall>b\<in>set (coop_exit_bumps d). \<exists>r. exit_row r \<in> set (coop_exits d) \<and> er_id r = cbr_request_id b \<and> bump_of env r (cbr_raw b)) \<and>
     all_justified env (coop_exits d) (w_calls w))"

definition stored :: "exit_world \<Rightarrow> exit_record \<Rightarrow> bool" where
  "stored w r \<longleftrightarrow> exit_row r \<in> set (coop_exits (w_db w))"

lemma exit_row_simps [simp]:
  "cxr_id (exit_row r) = er_id r" "cxr_status (exit_row r) = er_status r" "cxr_data (exit_row r) = r"
  "cxr_owner (exit_row r) = er_owner r" "cxr_transfer_id (exit_row r) = er_transfer_id r"
  by (simp_all add: exit_row_def)

lemma exit_row_inj: "exit_row r = exit_row s \<Longrightarrow> r = s"
  by (metis exit_row_simps(3))

lemma stored_by_id:
  assumes "no_clash coop_exit_clash (coop_exits d)" "exit_row r \<in> set (coop_exits d)" "x \<in> set (coop_exits d)" "cxr_id x = er_id r"
  shows "x = exit_row r"
  by (rule no_clash_unique [OF assms(1) assms(3,2)]) (simp_all add: coop_exit_clash_def assms(4))

lemma exits_ok_row:
  assumes "exits_ok env w" "row \<in> set (coop_exits (w_db w))"
  shows "row = exit_row (cxr_data row)" "record_ok env (w_calls w) (cxr_data row)"
    "exit_final (er_status (cxr_data row)) \<or> coin_reserved env (w_db w) (cxr_data row)"
  using assms unfolding exits_ok_def Let_def by blast+

lemma exits_ok_bump:
  assumes "exits_ok env w" "b \<in> set (coop_exit_bumps (w_db w))"
  obtains r where "exit_row r \<in> set (coop_exits (w_db w))" "er_id r = cbr_request_id b" "bump_of env r (cbr_raw b)"
  using assms unfolding exits_ok_def Let_def by blast

lemma record_ok_grows: "record_ok env log r \<Longrightarrow> record_ok env (log @ cs) r"
  by (auto simp: record_ok_def log_grows split: option.splits)

section \<open>Quiet statements\<close>

lemma harmless_justified: "harmless c \<Longrightarrow> justified env xs log c"
  by (simp add: justified_def)

definition same_exits :: "db \<Rightarrow> db \<Rightarrow> bool" where
  "same_exits d d' \<longleftrightarrow> coop_exits d' = coop_exits d \<and> coop_exit_inputs d' = coop_exit_inputs d \<and> coop_exit_bumps d' = coop_exit_bumps d"

interpretation same_exits: step_relation same_exits
  by unfold_locales (auto simp: same_exits_def)

interpretation exits: held_records "exits_ok env" stored same_exits harmless "\<lambda>w. justified env (coop_exits (w_db w)) (w_calls w)" for env
proof (unfold_locales, goal_cases)
  case (4 w d)
  then show ?case by (simp add: exits_ok_def Let_def same_exits_def coin_reserved_def)
next
  case (5 w c)
  then show ?case
    using record_ok_grows [of env "w_calls w" _ "[c]"] unfolding exits_ok_def Let_def
    by (simp add: coin_reserved_def all_justified_snoc)
qed (auto simp: same_exits_def stored_def harmless_justified)

abbreviation quiet :: "exit_world \<Rightarrow> exit_world \<Rightarrow> bool" where
  "quiet \<equiv> held_records.quiet same_exits harmless"

abbreviation held :: "exit_env \<Rightarrow> exit_record list \<Rightarrow> exit_world \<Rightarrow> bool" where
  "held env \<equiv> held_records.held (exits_ok env) stored"

abbreviation at :: "exit_env \<Rightarrow> exit_record list \<Rightarrow> (exit_call list \<Rightarrow> bool) \<Rightarrow> exit_world \<Rightarrow> bool" where
  "at env \<equiv> held_records.at (exits_ok env) stored"

lemmas held_def = exits.held_def and at_def = exits.at_def

lemma held_record_ok: "held env (r # rs) w \<Longrightarrow> record_ok env (w_calls w) r"
  using exits_ok_row(2) [of env w "exit_row r"] by (simp add: held_def stored_def)


text \<open>An update keeps what justified a call: of a withdrawal only the signature, once, and the
  status change.\<close>

definition same_withdrawal :: "exit_record \<Rightarrow> exit_record \<Rightarrow> bool" where
  "same_withdrawal r r' \<longleftrightarrow> r' = r\<lparr>er_signed_exit := er_signed_exit r', er_status := er_status r'\<rparr> \<and>
     (er_signed_exit r \<noteq> None \<longrightarrow> er_signed_exit r' = er_signed_exit r)"

lemma same_withdrawal_fields:
  assumes "same_withdrawal r r'"
  shows "er_id r' = er_id r" "er_raw_exit r' = er_raw_exit r" "er_transfer_id r' = er_transfer_id r"
    "exit_row r' = (exit_row r)\<lparr>cxr_status := er_status r', cxr_data := r'\<rparr>"
  using assms unfolding same_withdrawal_def exit_row_def
  by (metis exit_record.simps exit_record.select_convs exit_record.update_convs exit_record.surjective coop_exit_row.update_convs)+

lemma same_withdrawal_bump_tx: "same_withdrawal r r' \<Longrightarrow> bump_tx env r child \<Longrightarrow> bump_tx env r' child"
  by (cases r; cases r') (auto simp: same_withdrawal_def bump_tx_def; blast)

lemma same_withdrawal_bump: "same_withdrawal r r' \<Longrightarrow> bump_of env r raw \<Longrightarrow> bump_of env r' raw"
  using same_withdrawal_bump_tx unfolding bump_of_def by blast

lemma same_withdrawal_log:
  assumes "same_withdrawal r r'"
  shows "transfer_verified env log r' = transfer_verified env log r" "payout_confirmed env log r' = payout_confirmed env log r"
    "leaves_claimed env log r' = leaves_claimed env log r" "payout_of env r' raw = payout_of env r raw"
    "transfer_absent env log r' = transfer_absent env log r"
proof -
  obtain x s where r': "r' = r\<lparr>er_signed_exit := x, er_status := s\<rparr>"
    using assms unfolding same_withdrawal_def by metis
  have v: "exit_transfer_valid env t (r\<lparr>er_signed_exit := x, er_status := s\<rparr>) = exit_transfer_valid env t r" for t
    unfolding exit_transfer_valid_def validate_coop_exit_transfer_def by (simp cong: option.case_cong if_cong)
  show "transfer_verified env log r' = transfer_verified env log r" "payout_confirmed env log r' = payout_confirmed env log r"
    "leaves_claimed env log r' = leaves_claimed env log r" "payout_of env r' raw = payout_of env r raw"
    "transfer_absent env log r' = transfer_absent env log r"
    unfolding r' by (simp_all add: transfer_verified_def payout_confirmed_def leaves_claimed_def payout_of_def
        transfer_absent_def v)
qed

lemma same_withdrawal_refl: "same_withdrawal r r"
  by (simp add: same_withdrawal_def)

lemma justified_by_same:
  assumes "same_withdrawal r r'" "justified_by env log r c"
  shows "justified_by env log r' c"
proof -
  have paid: "paid_for env log r raw \<Longrightarrow> paid_for env log r' raw" for raw
    using assms(1) same_withdrawal_log [OF assms(1)] by (auto simp: paid_for_def same_withdrawal_def)
  note fields = same_withdrawal_fields [OF assms(1)] and log = same_withdrawal_log [OF assms(1)]
  show ?thesis
  proof (cases c)
    case (SendTx raw)
    then show ?thesis
      using assms(2) paid same_withdrawal_bump [OF assms(1)] by (simp only: justified_by.simps) blast
  next
    case (SignTx raw)
    then show ?thesis
      using assms(2) paid same_withdrawal_bump_tx [OF assms(1)] fields log by (simp only: justified_by.simps) blast
  next
    case (ProcessTransfer t)
    then show ?thesis
      using assms(2) paid fields log by (simp only: justified_by.simps) blast
  qed simp_all
qed

lemma justified_rows:
  assumes "\<And>row. row \<in> set xs \<Longrightarrow> \<exists>row'\<in>set ys. same_withdrawal (cxr_data row) (cxr_data row')"
    "all_justified env xs log"
  shows "all_justified env ys log"
  using assms unfolding all_justified_def justified_def by (meson justified_by_same)

lemma held_justified:
  assumes "at env (r # zs) L w" "justified_by env (w_calls w) r c"
  shows "justified env (coop_exits (w_db w)) (w_calls w) c"
proof -
  have "exit_row r \<in> set (coop_exits (w_db w))" using assms(1) by (simp add: at_def held_def stored_def)
  then show ?thesis using assms(2) unfolding justified_def by (metis exit_row_simps(3))
qed

section \<open>Which statements are quiet\<close>

lemma same_exits_statements:
  "obeys same_exits (insert_transfer spark_id request_id kind status owner)"
  "obeys same_exits (save_coop_quote now quote)"
  "obeys same_exits (coop_quote i owner)" "obeys same_exits (coop_exit i owner)"
  "obeys same_exits (coop_exit_by_key owner key transfer)" "obeys same_exits (coop_exit_pending_for_owner owner)"
  "obeys same_exits coop_reserved_inputs" "obeys same_exits (request_updated_at updated i)"
  "obeys same_exits pending_coop_exits" "obeys same_exits (bump_raw i)"
  by (auto simp: obeys_def same_exits_def insert_transfer_def save_coop_quote_def coop_quote_def coop_exit_def
      coop_exit_by_key_def coop_exit_pending_for_owner_def coop_reserved_inputs_def request_updated_at_def
      pending_coop_exits_def bump_raw_def action_defs statement_defs split: sum.splits)

lemma quiet_map_action: "(\<And>x. obeys quiet (f x)) \<Longrightarrow> obeys quiet (map_action f xs)"
  by (induction xs) (auto intro!: exits.quiet.obeys_bind exits.quiet.obeys_ret)

lemma quiet_reads:
  "obeys quiet (\<lambda>w. ret (f w) w)" "obeys quiet (\<lambda>w. on_db (save_coop_quote (g w) quote) w)"
  using exits.quiet_on_db [OF same_exits_statements(2)]
  by (auto simp: obeys_def ret_def exits.quiet_refl)

lemma quiet_spark:
  "obeys quiet (coop_exit_leaves env owner ids)" "obeys quiet (query_transfer env i)"
  "obeys quiet (coop_exit_transfer_exists env i)" "obeys quiet (verify_coop_exit env r)"
  "obeys quiet (get_transfer env i missing)"
  unfolding coop_exit_leaves_def query_transfer_def coop_exit_transfer_exists_def verify_coop_exit_def get_transfer_def
  by (intro exits.quiet.obeys_bind exits.quiet.obeys_lift exits.quiet.obeys_ret exits.quiet_ask; simp)+

lemmas quiet_intros = exits.quiet.obeys_bind exits.quiet.obeys_then exits.quiet.obeys_lift exits.quiet.obeys_ret exits.quiet.obeys_throw exits.quiet.obeys_if
  exits.quiet.obeys_case_option exits.quiet.obeys_case_prod exits.quiet_on_db same_exits_statements quiet_reads quiet_spark quiet_map_action

lemma quiet_bitcoin:
  "obeys quiet (fee_rate env blocks)" "obeys quiet (wallet_address env)" "obeys quiet (choose_coin env payout fee leaves)"
proof -
  show "obeys quiet (fee_rate env blocks)"
    unfolding fee_rate_def by (intro quiet_intros exits.quiet_ask) simp
  show "obeys quiet (wallet_address env)"
    unfolding wallet_address_def by (intro quiet_intros exits.quiet_ask) simp
  show "obeys quiet (choose_coin env payout fee leaves)"
    unfolding choose_coin_def by (intro quiet_intros exits.quiet_ask) simp
qed

lemma quiet_build: "obeys quiet (build_exit env owner request fee transfer_id key quote address payout leaves coin outpoint)"
  unfolding build_exit_def Let_def by (intro quiet_intros quiet_bitcoin)

lemma quiet_quote: "obeys quiet (quote_exit env owner ids address)"
  unfolding quote_exit_def by (intro quiet_intros quiet_bitcoin)

lemma quiet_response: "obeys quiet (exit_response env r)"
  unfolding exit_response_def by (intro quiet_intros)

lemma quiet_amount: "obeys quiet (withdrawal_amount env request quote speed leaves owner)"
  unfolding withdrawal_amount_def Let_def by (intro quiet_intros)

section \<open>Statements that change the withdrawals\<close>

lemma update_coop_exit_run:
  "update_coop_exit r d = (Inr (), d\<lparr>
     coop_exits := update_rows (\<lambda>x. cxr_id x = er_id r) (\<lambda>x. x\<lparr>cxr_status := er_status r, cxr_data := r\<rparr>) (coop_exits d),
     coop_exit_inputs := (if exit_final (er_status r) then filter (\<lambda>i. cir_request_id i \<noteq> er_id r) (coop_exit_inputs d) else coop_exit_inputs d),
     transfers := (if er_status r = ''SUCCEEDED'' then update_rows (\<lambda>t. tr_request_id t = er_id r \<and> tr_owner t = er_owner r)
        (\<lambda>t. t\<lparr>tr_status := ''COMPLETED''\<rparr>) (transfers d) else transfers d)\<rparr>)"
  by (simp add: update_coop_exit_def transaction_def action_defs statement_defs)

lemma update_exit_held:
  assumes held: "held env (r # zs) w" and same: "same_withdrawal r r'" and ok: "record_ok env (w_calls w) r'"
    and live: "\<not> exit_final (er_status r)" and others: "er_id r \<notin> er_id ` set zs"
  shows "held env (r' # zs) (w\<lparr>w_db := snd (update_coop_exit r' (w_db w))\<rparr>)"
proof -
  let ?d = "w_db w" and ?d' = "snd (update_coop_exit r' (w_db w))"
  note id = same_withdrawal_fields(1) [OF same]
  have inv: "no_clash coop_exit_clash (coop_exits ?d)" "no_clash coop_input_clash (coop_exit_inputs ?d)"
      "all_justified env (coop_exits ?d) (w_calls w)" and in_d: "exit_row r \<in> set (coop_exits ?d)"
    using held by (simp_all add: held_def stored_def exits_ok_def Let_def)
  have step: "x\<lparr>cxr_status := er_status r', cxr_data := r'\<rparr> = exit_row r'"
    if "x \<in> set (coop_exits ?d)" "cxr_id x = er_id r" for x
    using stored_by_id [OF inv(1) in_d that] same_withdrawal_fields(4) [OF same] by simp
  have rows: "set (coop_exits ?d') = {x \<in> set (coop_exits ?d). cxr_id x \<noteq> er_id r} \<union> {exit_row r'}"
    using in_d by (auto simp: update_coop_exit_run set_update_rows id step image_iff)
  have inputs: "i \<in> set (coop_exit_inputs ?d')" if "i \<in> set (coop_exit_inputs ?d)" "cir_request_id i \<noteq> er_id r \<or> \<not> exit_final (er_status r')" for i
    using that by (auto simp: update_coop_exit_run id)
  have reserved: "coin_reserved env ?d' s" if r: "coin_reserved env ?d s" and s: "er_id s \<noteq> er_id r \<or> \<not> exit_final (er_status r')" for s
  proof -
    obtain coin outputs where c: "er_raw_exit s = x_encode env (bitcoin_transaction [coin] outputs)"
        "\<lparr>cir_outpoint = x_outpoint env coin, cir_request_id = er_id s\<rparr> \<in> set (coop_exit_inputs ?d)"
      using r unfolding coin_reserved_def by blast
    have "\<lparr>cir_outpoint = x_outpoint env coin, cir_request_id = er_id s\<rparr> \<in> set (coop_exit_inputs ?d')"
      by (rule inputs [OF c(2)]) (use s in simp)
    then show ?thesis using c(1) unfolding coin_reserved_def by blast
  qed
  have same_keys: "coop_exit_clash x y"
    if "coop_exit_clash (if cxr_id x = er_id r' then x\<lparr>cxr_status := er_status r', cxr_data := r'\<rparr> else x)
        (if cxr_id y = er_id r' then y\<lparr>cxr_status := er_status r', cxr_data := r'\<rparr> else y)" for x y
    using that by (auto simp: coop_exit_clash_def split: if_splits)
  have "no_clash coop_exit_clash (coop_exits ?d')"
    unfolding update_coop_exit_run by (simp add: no_clash_update_rows [OF same_keys inv(1)])
  moreover have "no_clash coop_input_clash (coop_exit_inputs ?d')"
    using inv(2) by (simp add: update_coop_exit_run no_clash_filter)
  moreover have "row = exit_row (cxr_data row) \<and> record_ok env (w_calls w) (cxr_data row) \<and>
      (exit_final (er_status (cxr_data row)) \<or> coin_reserved env ?d' (cxr_data row))"
    if row: "row \<in> set (coop_exits ?d')" for row
  proof (cases "row = exit_row r'")
    case True
    have "coin_reserved env ?d r"
      using held in_d live exits_ok_row(3) [of env w "exit_row r"] by (simp add: held_def)
    then have "exit_final (er_status r') \<or> coin_reserved env ?d' r"
      using reserved by blast
    then have "exit_final (er_status r') \<or> coin_reserved env ?d' r'"
      using same_withdrawal_fields [OF same] by (simp add: coin_reserved_def)
    then show ?thesis using True ok by simp
  next
    case False
    then have old: "row \<in> set (coop_exits ?d)" "cxr_id row \<noteq> er_id r" using row rows by auto
    then have "row = exit_row (cxr_data row)" "record_ok env (w_calls w) (cxr_data row)"
        "exit_final (er_status (cxr_data row)) \<or> coin_reserved env ?d (cxr_data row)"
      using held exits_ok_row [of env w row] unfolding held_def by blast+
    moreover have "er_id (cxr_data row) \<noteq> er_id r"
      using old(2) calculation(1) by (metis exit_row_simps(1))
    ultimately show ?thesis
      using reserved by blast
  qed
  moreover have "\<exists>s. exit_row s \<in> set (coop_exits ?d') \<and> er_id s = cbr_request_id b \<and> bump_of env s (cbr_raw b)"
    if "b \<in> set (coop_exit_bumps ?d')" for b
  proof -
    have "b \<in> set (coop_exit_bumps ?d)" using that by (simp add: update_coop_exit_run)
    then obtain s where s: "exit_row s \<in> set (coop_exits ?d)" "er_id s = cbr_request_id b" "bump_of env s (cbr_raw b)"
      using held unfolding held_def by (blast elim: exits_ok_bump)
    show ?thesis
    proof (cases "er_id s = er_id r")
      case True
      then have "s = r" using stored_by_id [OF inv(1) in_d s(1)] exit_row_inj by simp
      then show ?thesis
        using s id rows by (intro exI [of _ r']) (simp add: same_withdrawal_bump [OF same])
    next
      case False
      then show ?thesis using s rows by (intro exI [of _ s]) simp
    qed
  qed
  moreover have "exit_row z \<in> set (coop_exits ?d')" if "z \<in> set (r' # zs)" for z
    using that held others rows by (auto simp: held_def stored_def image_iff)
  moreover have "all_justified env (coop_exits ?d') (w_calls w)"
  proof (rule justified_rows [OF _ inv(3)])
    fix row
    assume row: "row \<in> set (coop_exits ?d)"
    show "\<exists>row'\<in>set (coop_exits ?d'). same_withdrawal (cxr_data row) (cxr_data row')"
    proof (cases "cxr_id row = er_id r")
      case True
      then have "row = exit_row r" using stored_by_id [OF inv(1) in_d row] by simp
      then show ?thesis using same rows by (intro bexI [of _ "exit_row r'"]) simp_all
    next
      case False
      then show ?thesis using row rows same_withdrawal_refl by (intro bexI [of _ row]) simp_all
    qed
  qed
  ultimately show ?thesis
    by (simp add: held_def stored_def exits_ok_def Let_def)
qed

lemma triple_update:
  assumes "same_withdrawal r r'" "\<not> exit_final (er_status r)" "er_id r \<notin> er_id ` set zs"
    "\<And>log. L log \<Longrightarrow> record_ok env log r \<Longrightarrow> record_ok env log r'"
  shows "triple (\<lambda>w. held env (r # zs) w \<and> L (w_calls w)) (on_db (update_coop_exit r'))
     (\<lambda>_ w. held env (r' # zs) w \<and> L (w_calls w)) E"
proof (rule tripleI)
  fix w x w'
  assume w: "held env (r # zs) w \<and> L (w_calls w)" "on_db (update_coop_exit r') w = (Inr x, w')"
  then have "w' = w\<lparr>w_db := snd (update_coop_exit r' (w_db w))\<rparr>"
    by (auto simp: on_db_def split: prod.splits)
  moreover have "record_ok env (w_calls w) r'"
    using w(1) assms(4) held_record_ok by blast
  ultimately show "held env (r' # zs) w' \<and> L (w_calls w')"
    using w(1) update_exit_held [OF _ assms(1) _ assms(2,3)] by simp
next
  fix w e and w' :: exit_world
  assume "on_db (update_coop_exit r') w = (Inl e, w')"
  then show "E w'" by (simp add: on_db_def update_coop_exit_run)
qed

section \<open>Settlement\<close>

lemma grows_log:
  "grows (\<lambda>log. transfer_verified env log r)" "grows (\<lambda>log. transfer_absent env log r)"
  "grows (\<lambda>log. payout_confirmed env log r)" "grows (\<lambda>log. leaves_claimed env log r)" "grows (\<lambda>_. A)"
  by (simp_all add: grows_def log_grows)

lemma verify_ok: "verify_coop_exit env r w = (Inr u, w') \<Longrightarrow> transfer_verified env (w_calls w') r"
  unfolding verify_coop_exit_def query_transfer_def transfer_verified_def
  by (elim bind_InrE) (auto simp: lift_result_Inr ask_def intro!: exI [of _ "w_calls w"] intro: asked_snoc elim!: bind_InrE)

lemma absent_ok: "coop_exit_transfer_exists env (er_transfer_id r) w = (Inr False, w') \<Longrightarrow> transfer_absent env (w_calls w') r"
  unfolding coop_exit_transfer_exists_def query_transfer_def transfer_absent_def
  by (elim bind_InrE) (auto simp: lift_result_Inr ret_Inr ask_def intro!: exI [of _ "w_calls w"] intro: asked_snoc)

lemma get_transfer_ok:
  "get_transfer env i missing w = (Inr t, w') \<Longrightarrow> \<exists>pre. asked_before (w_calls w') (AskWalletTransfer i) pre \<and> x_wallet_transfer env pre i = Inr (Some t)"
  unfolding get_transfer_def
  by (elim bind_InrE) (auto simp: lift_result_Inr ask_def intro!: exI [of _ "w_calls w"] intro: asked_snoc)

lemma triple_sign_raw:
  assumes "grows L" "\<And>w. at env (r # zs) L w \<Longrightarrow> justified_by env (w_calls w) r (SignTx raw)"
  shows "triple (at env (r # zs) L) (sign_raw env raw a b) (\<lambda>_. at env (r # zs) L) (held env zs)"
  unfolding sign_raw_def
  by (intro triple_bind [OF exits.triple_call [OF assms(1) held_justified [OF _ assms(2)]]] triple_if triple_throw triple_lift) (auto intro: exits.at_fewer)

lemma sign_exit_ok:
  assumes r: "er_signed_exit r = None" "\<not> exit_final (er_status r)" "er_id r \<notin> er_id ` set zs"
    and exit: "x_decode env (er_raw_exit r) = Some (exit, ws)"
  shows "triple (held env (r # zs)) (sign_exit env exit r)
     (\<lambda>r' w. (same_withdrawal r r' \<and> er_signed_exit r' \<noteq> None \<and> \<not> exit_final (er_status r')) \<and> held env (r' # zs) w) (held env zs)"
proof -
  let ?V = "\<lambda>log. transfer_verified env log r" and ?E = "held env zs"
  have verify: "triple (held env (r # zs)) (verify_coop_exit env r) (\<lambda>_. at env (r # zs) ?V) ?E"
    by (rule triple_weaken [OF exits.triple_at_quiet [OF quiet_spark(4) grows_log(5) [of True], where F = "\<lambda>_. ?V"]])
      (simp_all add: at_def verify_ok)
  have transfer: "triple (at env (r # zs) ?V) (on_db (insert_transfer i j k s owner)) (\<lambda>_. at env (r # zs) ?V) ?E" for i j k s owner
    by (intro exits.keeps_at_quiet exits.quiet_on_db same_exits_statements grows_log)
  have sign: "triple (at env (r # zs) ?V) (sign_raw env (er_raw_exit r) a b) (\<lambda>_. at env (r # zs) ?V) ?E" for a b
    by (rule triple_sign_raw) (auto simp: grows_log at_def)
  have store: "triple (at env (r # zs) ?V)
      (then_action (lift_result (validate_signed_exit env exit raw))
        (let r' = r\<lparr>er_signed_exit := Some raw, er_status := ''INBOUND_TRANSFER_CHECKED''\<rparr> in
         then_action (on_db (update_coop_exit r')) (ret r')))
      (\<lambda>r' w. (same_withdrawal r r' \<and> er_signed_exit r' \<noteq> None \<and> \<not> exit_final (er_status r')) \<and> held env (r' # zs) w) ?E" for raw
  proof (rule triple_then [where R = "\<lambda>w. validate_signed_exit env exit raw = Inr () \<and> at env (r # zs) ?V w"])
    show "triple (at env (r # zs) ?V) (lift_result (validate_signed_exit env exit raw))
        (\<lambda>_ w. validate_signed_exit env exit raw = Inr () \<and> at env (r # zs) ?V w) ?E"
      by (rule triple_lift) (auto intro: exits.at_fewer)
  next
    let ?r' = "r\<lparr>er_signed_exit := Some raw, er_status := ''INBOUND_TRANSFER_CHECKED''\<rparr>"
    have same: "same_withdrawal r ?r'" by (simp add: same_withdrawal_def r(1))
    show "triple (\<lambda>w. validate_signed_exit env exit raw = Inr () \<and> at env (r # zs) ?V w)
        (let r' = ?r' in then_action (on_db (update_coop_exit r')) (ret r'))
        (\<lambda>r' w. (same_withdrawal r r' \<and> er_signed_exit r' \<noteq> None \<and> \<not> exit_final (er_status r')) \<and> held env (r' # zs) w) ?E"
      unfolding Let_def
    proof (rule triple_fact)
      assume "validate_signed_exit env exit raw = Inr ()"
      then have ok: "transfer_verified env log r \<Longrightarrow> record_ok env log ?r'" for log
        using same_withdrawal_log [OF same] exit by (auto simp: record_ok_def paid_for_def payout_of_def)
      show "triple (at env (r # zs) ?V) (then_action (on_db (update_coop_exit ?r')) (ret ?r'))
          (\<lambda>r' w. (same_withdrawal r r' \<and> er_signed_exit r' \<noteq> None \<and> \<not> exit_final (er_status r')) \<and> held env (r' # zs) w) ?E"
        unfolding at_def
        by (rule triple_then [OF triple_update [OF same r(2,3) ok, where L = ?V]], assumption)
          (auto intro!: triple_ret simp: same exit_final_def)
    qed
  qed
  show ?thesis
    unfolding sign_exit_def by (rule triple_then [OF verify triple_then [OF transfer triple_bind [OF sign store]]])
qed

lemma record_ok_signed:
  assumes "record_ok env log r" "er_signed_exit r \<noteq> None"
  obtains raw where "er_signed_exit r = Some raw" "paid_for env log r raw"
  using assms by (auto simp: record_ok_def)

lemma at_paid:
  assumes "at env (r # zs) L w" "er_signed_exit r \<noteq> None"
  obtains raw where "er_signed_exit r = Some raw" "paid_for env (w_calls w) r raw"
  using record_ok_signed [OF held_record_ok [OF exits.at_held [OF assms(1)]] assms(2)] by blast

text \<open>A change of status alone, of a record that stays signed and does not expire.\<close>

lemma record_ok_status:
  assumes "record_ok env log r" "er_signed_exit r \<noteq> None" "s \<noteq> ''EXPIRED''"
    "s = ''SUCCEEDED'' \<Longrightarrow> payout_confirmed env log r \<and> leaves_claimed env log r"
  shows "record_ok env log (r\<lparr>er_status := s\<rparr>)"
proof -
  have same: "same_withdrawal r (r\<lparr>er_status := s\<rparr>)" by (simp add: same_withdrawal_def)
  show ?thesis
    using assms same_withdrawal_log [OF same] by (auto simp: record_ok_def paid_for_def)
qed

lemma triple_status:
  assumes "er_signed_exit r \<noteq> None" "\<not> exit_final (er_status r)" "er_id r \<notin> er_id ` set zs" "s \<noteq> ''EXPIRED''"
    "\<And>log. L log \<Longrightarrow> s = ''SUCCEEDED'' \<Longrightarrow> payout_confirmed env log r \<and> leaves_claimed env log r"
  shows "triple (at env (r # zs) L) (on_db (update_coop_exit (r\<lparr>er_status := s\<rparr>))) (\<lambda>_. at env (r\<lparr>er_status := s\<rparr> # zs) L) E"
  unfolding at_def
  by (rule triple_update) (use assms in \<open>auto simp: same_withdrawal_def intro: record_ok_status\<close>)

lemma bump_raw_ok: "bump_raw i d = (Inr (Some raw), d') \<Longrightarrow> \<exists>b\<in>set (coop_exit_bumps d). cbr_request_id b = i \<and> cbr_raw b = raw"
  by (auto simp: bump_raw_def query_optional_def bind_action_def ret_def dest: first_row_SomeD)

lemma held_bump:
  assumes "held env (r # zs) w" "b \<in> set (coop_exit_bumps (w_db w))" "cbr_request_id b = er_id r"
  shows "bump_of env r (cbr_raw b)"
proof -
  obtain s where s: "exit_row s \<in> set (coop_exits (w_db w))" "er_id s = er_id r" "bump_of env s (cbr_raw b)"
    using assms unfolding held_def by (metis exits_ok_bump)
  have "no_clash coop_exit_clash (coop_exits (w_db w))" "exit_row r \<in> set (coop_exits (w_db w))"
    using assms(1) by (simp_all add: held_def stored_def exits_ok_def Let_def)
  then have "exit_row s = exit_row r"
    using stored_by_id [of "w_db w" r "exit_row s"] s(1,2) by simp
  then show ?thesis using s(3) exit_row_inj by blast
qed

lemma broadcast_ok:
  assumes "er_signed_exit r \<noteq> None" "\<not> exit_final (er_status r)" "er_id r \<notin> er_id ` set zs"
  shows "triple (held env (r # zs)) (broadcast_exit env r) (\<lambda>_. held env zs) (held env zs)"
proof -
  let ?r' = "r\<lparr>er_status := ''TX_BROADCASTED''\<rparr>" and ?T = "\<lambda>_ :: exit_call list. True"
  have hold: "held env (r # zs) = at env (r # zs) ?T" by (simp add: at_def fun_eq_iff)
  have send: "triple (at env (r # zs) ?T) (ask (SendTx (er_signed_exit r)) f) (\<lambda>_. at env (r # zs) ?T) (held env zs)" for f
  proof (rule exits.triple_call [OF grows_log(5) held_justified])
    fix w
    assume "at env (r # zs) ?T w"
    then show "justified_by env (w_calls w) r (SendTx (er_signed_exit r))"
      by (rule at_paid [OF _ assms(1)]) auto
  qed assumption
  have status: "triple (at env (r # zs) ?T) (on_db (update_coop_exit ?r')) (\<lambda>_. at env (?r' # zs) ?T) (held env zs)"
    by (rule triple_status) (use assms in \<open>auto\<close>)
  have bump: "triple (at env (?r' # zs) ?T) (on_db (bump_raw (er_id r)))
      (\<lambda>bump w. (bump \<noteq> None \<longrightarrow> bump_of env ?r' (the bump)) \<and> at env (?r' # zs) ?T w) (held env zs)"
  proof (rule tripleI)
    fix w x w'
    assume w: "at env (?r' # zs) ?T w" "on_db (bump_raw (er_id r)) w = (Inr x, w')"
    have "quiet w w'"
      using obeysD [OF exits.quiet_on_db [OF same_exits_statements(10)], of w "er_id r"] w(2) by simp
    then have "at env (?r' # zs) ?T w'"
      using exits.quiet_at [OF _ grows_log(5) w(1)] by blast
    moreover have "bump_of env ?r' raw" if raw: "x = Some raw" for raw
    proof -
      obtain d' where "bump_raw (er_id r) (w_db w) = (Inr (Some raw), d')"
        using w(2) raw by (auto simp: on_db_def split: prod.splits)
      then obtain b where b: "b \<in> set (coop_exit_bumps (w_db w))" "cbr_request_id b = er_id r" "cbr_raw b = raw"
        using bump_raw_ok by blast
      have "cbr_request_id b = er_id ?r'" using b(2) by simp
      then show ?thesis using held_bump [OF exits.at_held [OF w(1)] b(1)] b(3) by simp
    qed
    ultimately show "(x \<noteq> None \<longrightarrow> bump_of env ?r' (the x)) \<and> at env (?r' # zs) ?T w'" by auto
  next
    fix w e w'
    assume "at env (?r' # zs) ?T w" "on_db (bump_raw (er_id r)) w = (Inl e, w')"
    then show "held env zs w'"
      by (simp add: on_db_def bump_raw_def query_optional_def bind_action_def ret_def)
  qed
  have again: "triple (\<lambda>w. (bump \<noteq> None \<longrightarrow> bump_of env ?r' (the bump)) \<and> at env (?r' # zs) ?T w)
      (then_action (case bump of Some raw \<Rightarrow> ask (SendTx (Some raw)) (\<lambda>h. x_send env h (Some raw)) | None \<Rightarrow> ret ()) (ret ?r'))
      (\<lambda>_. held env zs) (held env zs)" for bump
  proof (rule triple_fact)
    assume b: "bump \<noteq> None \<longrightarrow> bump_of env ?r' (the bump)"
    have "triple (at env (?r' # zs) ?T) (ask (SendTx (Some raw)) f) (\<lambda>_. at env (?r' # zs) ?T) (held env zs)"
      if "bump = Some raw" for raw f
    proof (rule exits.triple_call [OF grows_log(5) held_justified])
      fix w
      assume "at env (?r' # zs) ?T w"
      then obtain payout where "paid_for env (w_calls w) ?r' payout"
        by (rule at_paid) (use assms(1) in auto)
      then show "justified_by env (w_calls w) ?r' (SendTx (Some raw))"
        using b that by (simp only: justified_by.simps) auto
    qed assumption
    then show "triple (at env (?r' # zs) ?T)
        (then_action (case bump of Some raw \<Rightarrow> ask (SendTx (Some raw)) (\<lambda>h. x_send env h (Some raw)) | None \<Rightarrow> ret ()) (ret ?r'))
        (\<lambda>_. held env zs) (held env zs)"
      by (intro triple_then [where R = "at env (?r' # zs) ?T"] triple_case_option triple_ret) (auto intro: exits.at_fewer)
  qed
  show ?thesis
    unfolding broadcast_exit_def Let_def hold
    by (rule triple_then [OF send triple_then [OF status triple_bind [OF bump again]]])
qed

lemma claim_ok:
  assumes "er_signed_exit r \<noteq> None"
  shows "triple (at env (r # zs) (\<lambda>log. payout_confirmed env log r)) (claim_coop_exit env r)
     (\<lambda>_. at env (r # zs) (\<lambda>log. payout_confirmed env log r \<and> leaves_claimed env log r)) (held env zs)"
proof -
  let ?C = "\<lambda>log. payout_confirmed env log r"
  let ?F = "\<lambda>i t log. \<exists>pre. asked_before log (AskWalletTransfer i) pre \<and> x_wallet_transfer env pre i = Inr (Some t)"
  have found: "triple (at env (r # zs) ?C) (get_transfer env i missing) (\<lambda>t. at env (r # zs) (\<lambda>log. ?C log \<and> ?F i t log)) (held env zs)"
    for i missing
    by (rule exits.triple_at_quiet [OF quiet_spark(5) grows_log(3)]) (rule get_transfer_ok)
  have process: "triple (at env (r # zs) (\<lambda>log. ?C log \<and> ?F i t log))
      (if wt_status t \<noteq> Completed then ask (ProcessTransfer t) f else ret ()) (\<lambda>_. at env (r # zs) ?C) (held env zs)"
    if t: "x_parse_transfer env (er_transfer_id r) = Some i" "wt_type t = CooperativeExit" "wt_receiver t = x_identity env" for i t f
  proof (rule triple_weaken [where P' = "at env (r # zs) (\<lambda>log. ?C log \<and> ?F i t log)"])
    show "triple (at env (r # zs) (\<lambda>log. ?C log \<and> ?F i t log))
      (if wt_status t \<noteq> Completed then ask (ProcessTransfer t) f else ret ())
      (\<lambda>_. at env (r # zs) (\<lambda>log. ?C log \<and> ?F i t log)) (held env zs)"
    proof (intro triple_if exits.triple_call grows_conj grows_log grows_asked triple_ret, assumption?)
      fix w
      assume w: "at env (r # zs) (\<lambda>log. ?C log \<and> ?F i t log) w"
      then obtain payout where "paid_for env (w_calls w) r payout"
        by (rule at_paid) (use assms in auto)
      then have "justified_by env (w_calls w) r (ProcessTransfer t)"
        using w t unfolding at_def by auto
      then show "justified env (coop_exits (w_db w)) (w_calls w) (ProcessTransfer t)"
        by (rule held_justified [OF w])
    qed
  qed (auto simp: at_def)
  have claimed: "triple (at env (r # zs) (\<lambda>log. ?C log \<and> ?F i t log))
      (if wt_status t \<noteq> Completed then throw e else ret ())
      (\<lambda>_. at env (r # zs) (\<lambda>log. ?C log \<and> leaves_claimed env log r)) (held env zs)"
    if "x_parse_transfer env (er_transfer_id r) = Some i" for i t e
    by (intro triple_if triple_throw triple_ret) (use that in \<open>auto simp: at_def leaves_claimed_def intro: exits.held_fewer\<close>)
  show ?thesis
    unfolding claim_coop_exit_def
  proof (rule triple_bind [where R = "\<lambda>i w. x_parse_transfer env (er_transfer_id r) = Some i \<and> at env (r # zs) ?C w"])
    fix i
    show "triple (\<lambda>w. x_parse_transfer env (er_transfer_id r) = Some i \<and> at env (r # zs) ?C w)
      (bind_action (get_transfer env i ''withdrawal Spark transfer not found'') (\<lambda>t.
     if wt_type t \<noteq> CooperativeExit \<or> wt_receiver t \<noteq> x_identity env
     then throw (Failure ''withdrawal transfer is not addressed to this SSP'')
     else then_action (if wt_status t \<noteq> Completed then ask (ProcessTransfer t) (\<lambda>h. x_process env h t) else ret ())
       (bind_action (get_transfer env i ''withdrawal Spark transfer disappeared'') (\<lambda>t.
        if wt_status t \<noteq> Completed then throw (Failure ''withdrawal Spark claim is pending'') else ret ()))))
      (\<lambda>_. at env (r # zs) (\<lambda>log. ?C log \<and> leaves_claimed env log r)) (held env zs)"
    proof (rule triple_fact)
      assume i: "x_parse_transfer env (er_transfer_id r) = Some i"
      show "triple (at env (r # zs) ?C)
        (bind_action (get_transfer env i ''withdrawal Spark transfer not found'') (\<lambda>t.
          if wt_type t \<noteq> CooperativeExit \<or> wt_receiver t \<noteq> x_identity env
          then throw (Failure ''withdrawal transfer is not addressed to this SSP'')
          else then_action (if wt_status t \<noteq> Completed then ask (ProcessTransfer t) (\<lambda>h. x_process env h t) else ret ())
            (bind_action (get_transfer env i ''withdrawal Spark transfer disappeared'') (\<lambda>t.
              if wt_status t \<noteq> Completed then throw (Failure ''withdrawal Spark claim is pending'') else ret ()))))
        (\<lambda>_. at env (r # zs) (\<lambda>log. ?C log \<and> leaves_claimed env log r)) (held env zs)"
        by (intro triple_bind [OF found] triple_if triple_throw triple_then [OF process [OF i]] found claimed [OF i]) (auto intro: exits.at_fewer)
    qed
  qed (auto intro!: triple_lift intro: exits.at_fewer)
qed

lemma settle_ok:
  assumes "er_signed_exit r \<noteq> None" "\<not> exit_final (er_status r)" "er_id r \<notin> er_id ` set zs"
  shows "triple (at env (r # zs) (\<lambda>log. payout_confirmed env log r)) (settle_exit env r) (\<lambda>_. held env zs) (held env zs)"
proof -
  let ?c = "r\<lparr>er_status := ''ON_CHAIN_TX_CONFIRMED''\<rparr>" and ?s = "r\<lparr>er_status := ''SUCCEEDED''\<rparr>"
  have same: "same_withdrawal r ?c" by (simp add: same_withdrawal_def)
  let ?C = "\<lambda>log. payout_confirmed env log r"
  have confirm: "triple (at env (r # zs) ?C) (on_db (update_coop_exit ?c)) (\<lambda>_. at env (?c # zs) ?C) (held env zs)"
    by (rule triple_status) (use assms in auto)
  have claim: "triple (at env (?c # zs) ?C) (claim_coop_exit env ?c) (\<lambda>_. at env (?c # zs) (\<lambda>log. ?C log \<and> leaves_claimed env log ?c)) (held env zs)"
    using claim_ok [of ?c env zs] assms(1) by (simp add: same_withdrawal_log [OF same])
  have succeed: "triple (at env (?c # zs) (\<lambda>log. ?C log \<and> leaves_claimed env log ?c)) (on_db (update_coop_exit ?s)) (\<lambda>_. held env zs) (held env zs)"
  proof -
    have "triple (at env (?c # zs) (\<lambda>log. ?C log \<and> leaves_claimed env log ?c)) (on_db (update_coop_exit (?c\<lparr>er_status := ''SUCCEEDED''\<rparr>)))
       (\<lambda>_. at env (?c\<lparr>er_status := ''SUCCEEDED''\<rparr> # zs) (\<lambda>log. ?C log \<and> leaves_claimed env log ?c)) (held env zs)"
      by (rule triple_status) (use assms in \<open>auto simp: exit_final_def same_withdrawal_log [OF same]\<close>)
    moreover have "?c\<lparr>er_status := ''SUCCEEDED''\<rparr> = ?s" by simp
    ultimately show ?thesis by (simp only:) (erule triple_weaken; auto intro: exits.at_fewer)
  qed
  show ?thesis
    unfolding settle_exit_def Let_def
    by (rule triple_then [OF confirm triple_then [OF claim]], simp, rule triple_then [OF succeed triple_ret])
qed

definition observed_log :: "exit_env \<Rightarrow> string \<Rightarrow> json option \<Rightarrow> exit_call list \<Rightarrow> bool" where
  "observed_log env txid observed log \<longleftrightarrow>
     (\<forall>t. observed = Some t \<longrightarrow> (\<exists>pre. asked_before log (AskTx txid) pre \<and> x_tx env pre txid = Inr t))"

lemma observe_ok:
  "triple (held env rs) (observe_exit env txid) (\<lambda>observed. at env rs (observed_log env txid observed)) E"
proof (rule tripleI)
  fix w observed w'
  assume w: "held env rs w" "observe_exit env txid w = (Inr observed, w')"
  then have w': "w' = w\<lparr>w_calls := w_calls w @ [AskTx txid]\<rparr>" "\<forall>t. observed = Some t \<longrightarrow> x_tx env (w_calls w) txid = Inr t"
    by (auto simp: observe_exit_def handle_def ask_def ret_def split: sum.splits)
  then show "at env rs (observed_log env txid observed) w'"
    using exits.held_call [OF w(1) harmless_justified, of "AskTx txid"] asked_snoc [of "w_calls w" "AskTx txid"]
    by (auto simp: at_def observed_log_def)
qed (auto simp: observe_exit_def handle_def ask_def ret_def split: sum.splits)

lemma follow_ok:
  assumes s: "er_signed_exit s \<noteq> None" "\<not> exit_final (er_status s)" "er_id s \<notin> er_id ` set zs"
    and exit: "x_decode env (er_raw_exit s) = Some (exit, ws)"
  shows "triple (at env (s # zs) (observed_log env (x_txid env exit) observed)) (follow_exit env s observed)
     (\<lambda>_. held env zs) (held env zs)"
  unfolding follow_exit_def
proof (intro triple_if triple_throw)
  show "triple (at env (s # zs) (observed_log env (x_txid env exit) observed)) (broadcast_exit env s) (\<lambda>_. held env zs) (held env zs)"
    by (rule triple_pre [OF broadcast_ok [OF s]]) (rule exits.at_held)
next
  assume "\<not> confirmations observed < 0" "confirmations observed \<noteq> 0"
  then obtain t where t: "observed = Some t" "0 < confirmations (Some t)"
    by (cases observed) (auto simp: confirmations_def)
  show "triple (at env (s # zs) (observed_log env (x_txid env exit) observed)) (settle_exit env s) (\<lambda>_. held env zs) (held env zs)"
    by (rule triple_pre [OF settle_ok [OF s]]) (use exit t in \<open>auto simp: at_def payout_confirmed_def observed_log_def\<close>)
qed (auto intro: exits.at_fewer)

text \<open>\<open>advance\<close> keeps the invariant and the other records a loop still holds.\<close>

lemma advance_ok:
  assumes "er_id r \<notin> er_id ` set zs"
  shows "triple (held env (r # zs)) (advance_exit env r) (\<lambda>_. held env zs) (held env zs)"
proof (cases "exit_final (er_status r)")
  case True
  then show ?thesis unfolding advance_exit_def by (auto intro!: triple_ret intro: exits.held_fewer)
next
  case False
  let ?R = "\<lambda>r' w. ((same_withdrawal r r' \<or> r' = r) \<and> er_signed_exit r' \<noteq> None \<and> \<not> exit_final (er_status r')) \<and> held env (r' # zs) w"
  have sign: "triple (held env (r # zs)) (if er_signed_exit r = None then sign_exit env exit r else ret r) ?R (held env zs)"
    if "x_decode env (er_raw_exit r) = Some (exit, ws)" for exit ws
    using triple_weaken [OF sign_exit_ok [OF _ False assms that]] False
    by (auto intro!: triple_ret)
  have rest: "triple (?R s) (bind_action (observe_exit env (x_txid env exit)) (follow_exit env s)) (\<lambda>_. held env zs) (held env zs)"
    if exit: "x_decode env (er_raw_exit r) = Some (exit, ws)" for s exit ws
  proof (rule triple_fact, elim conjE)
    assume s: "same_withdrawal r s \<or> s = r" "er_signed_exit s \<noteq> None" "\<not> exit_final (er_status s)"
    then have "er_id s \<notin> er_id ` set zs" "x_decode env (er_raw_exit s) = Some (exit, ws)"
      using assms exit same_withdrawal_fields by auto
    then show "triple (held env (s # zs)) (bind_action (observe_exit env (x_txid env exit)) (follow_exit env s)) (\<lambda>_. held env zs) (held env zs)"
      by (intro triple_bind [OF observe_ok] follow_ok s)
  qed
  have "triple (held env (r # zs)) (lift_result (ok_or (x_decode env (er_raw_exit r)) e))
      (\<lambda>x w. x_decode env (er_raw_exit r) = Some x \<and> held env (r # zs) w) (held env zs)" for e
    by (auto intro!: triple_lift intro: exits.held_fewer)
  then show ?thesis
    unfolding advance_exit_def if_not_P [OF False]
    by (rule triple_bind) (auto intro!: triple_fact triple_bind [OF sign rest])
qed

section \<open>Requests, completions and bumps\<close>

lemma held_append: "held env rs w \<Longrightarrow> exit_row r \<in> set (coop_exits (w_db w)) \<Longrightarrow> held env (r # rs) w"
  by (simp add: held_def stored_def)

lemma found_held:
  assumes "held env rs w" "row \<in> set (coop_exits (w_db w))"
  shows "held env (cxr_data row # rs) w"
proof -
  have "row = exit_row (cxr_data row)"
    using exits_ok_row(1) assms unfolding held_def by blast
  then show ?thesis using held_append [OF assms(1), of "cxr_data row"] assms(2) by metis
qed

lemma by_key_held:
  "triple (held env []) (on_db (coop_exit_by_key owner key transfer)) (\<lambda>found. held env (case found of None \<Rightarrow> [] | Some r \<Rightarrow> [r])) E"
  by (rule tripleI) (auto simp: coop_exit_by_key_def query_optional_def bind_action_def on_db_def ret_def
      dest!: first_row_SomeD intro: found_held split: option.splits prod.splits)

lemma complete_ok: "keeps (held env []) (complete_exit env owner transfer request_id)"
proof -
  have drive: "triple (held env [r])
      (if request_id \<noteq> None \<and> request_id \<noteq> Some (er_id r) then throw e1
       else if er_status r = ''EXPIRED'' then throw e2
       else bind_action (advance_exit env r) (exit_response env)) (\<lambda>_. held env []) (held env [])" for r e1 e2
    by (intro triple_if triple_throw triple_bind [OF advance_ok] exits.keeps_quiet [OF quiet_response])
      (auto intro: exits.held_fewer)
  have key: "triple (held env (case found of None \<Rightarrow> [] | Some r \<Rightarrow> [r])) (lift_result (ok_or found e))
      (\<lambda>r. held env [r]) (held env [])" for found e
    by (cases found) (auto intro!: triple_throw triple_ret)
  show ?thesis
    unfolding complete_exit_def
    by (intro triple_bind [OF triple_lift [where Q = "\<lambda>_. held env []"]] triple_bind [OF by_key_held] triple_bind [OF key] drive) auto
qed

lemma triple_if_state: "triple P m Q E \<Longrightarrow> triple P k Q E \<Longrightarrow> triple P (\<lambda>w. (if c w then m else k) w) Q E"
  by (simp add: triple_def)

lemma drive_ok:
  assumes "er_id r \<notin> er_id ` set zs" and live: "\<not> exit_final (er_status r)"
  shows "triple (held env (r # zs)) (drive_exit env r) (\<lambda>_. held env zs) (held env zs)"
proof -
  have advance: "triple (held env (r # zs)) (ignore (advance_exit env r)) (\<lambda>_. held env zs) (held env zs)"
    unfolding ignore_def by (intro triple_handle [OF advance_ok [OF assms(1)]] triple_ret)
  have expire: "triple (at env (r # zs) (\<lambda>log. transfer_absent env log r))
      (ignore (on_db (update_coop_exit (r\<lparr>er_status := ''EXPIRED''\<rparr>)))) (\<lambda>_. held env zs) (held env zs)"
    if r: "er_signed_exit r = None"
  proof -
    have same: "same_withdrawal r (r\<lparr>er_status := ''EXPIRED''\<rparr>)" by (simp add: same_withdrawal_def)
    have "triple (at env (r # zs) (\<lambda>log. transfer_absent env log r)) (on_db (update_coop_exit (r\<lparr>er_status := ''EXPIRED''\<rparr>)))
        (\<lambda>_. held env zs) (held env zs)"
      unfolding at_def
      by (rule triple_weaken [OF triple_update [OF same live assms(1), where L = "\<lambda>log. transfer_absent env log r"]])
        (auto simp: record_ok_def r same_withdrawal_log [OF same] intro: exits.held_fewer)
    then show ?thesis unfolding ignore_def by (intro triple_handle triple_ret)
  qed
  have check: "triple (held env (r # zs)) (coop_exit_transfer_exists env (er_transfer_id r))
      (\<lambda>there. at env (r # zs) (\<lambda>log. True \<and> (\<not> there \<longrightarrow> transfer_absent env log r))) (held env zs)"
  proof (rule triple_pre [OF exits.triple_at_quiet [OF quiet_spark(3) grows_log(5)]])
    fix w :: exit_world and x w'
    assume "coop_exit_transfer_exists env (er_transfer_id r) w = (Inr x, w')"
    then show "\<not> x \<longrightarrow> transfer_absent env (w_calls w') r" by (cases x) (simp_all add: absent_ok)
  qed (simp add: at_def)
  show ?thesis
  proof (cases "er_signed_exit r = None")
    case True
    have "triple (held env (r # zs)) (handle (coop_exit_transfer_exists env (er_transfer_id r))
        (\<lambda>there. if there then ignore (advance_exit env r)
           else ignore (on_db (update_coop_exit (r\<lparr>er_status := ''EXPIRED''\<rparr>)))) (\<lambda>_. ret ())) (\<lambda>_. held env zs) (held env zs)"
      by (intro triple_handle [OF check] triple_if triple_ret triple_pre [OF advance] triple_pre [OF expire [OF True]])
        (auto simp: at_def)
    then show ?thesis
      unfolding drive_exit_def by (rule triple_if_state) (rule advance)
  next
    case False
    then have "drive_exit env r = ignore (advance_exit env r)" by (auto simp: drive_exit_def fun_eq_iff)
    then show ?thesis using advance by simp
  qed
qed

lemma distinct_exit_ids: "no_clash coop_exit_clash rs \<Longrightarrow> distinct (map cxr_id rs)"
  by (induction rs) (auto simp: no_clash_Cons coop_exit_clash_def)

lemma pending_held:
  "triple (held env []) (on_db pending_coop_exits)
     (\<lambda>rs w. (distinct (map er_id rs) \<and> (\<forall>r\<in>set rs. \<not> exit_final (er_status r))) \<and> held env rs w) E"
proof (rule tripleI)
  fix w rs w'
  assume w: "held env [] w" "on_db pending_coop_exits w = (Inr rs, w')"
  let ?rows = "filter (\<lambda>r. \<not> exit_final (cxr_status r)) (coop_exits (w_db w))"
  have rs: "rs = map cxr_data ?rows" "w' = w"
    using w(2) by (auto simp: pending_coop_exits_def select_where_def bind_action_def on_db_def ret_def)
  have row: "row = exit_row (cxr_data row)" if "row \<in> set (coop_exits (w_db w))" for row
    using w(1) that exits_ok_row(1) unfolding held_def by blast
  have "no_clash coop_exit_clash ?rows"
    using w(1) by (simp add: held_def exits_ok_def Let_def no_clash_filter)
  then have "distinct (map cxr_id ?rows)"
    by (rule distinct_exit_ids)
  moreover have "map (er_id \<circ> cxr_data) ?rows = map cxr_id ?rows"
    by (rule map_cong [OF refl]) (metis comp_apply exit_row_simps(1) filter_is_subset row subsetD)
  ultimately have "distinct (map er_id rs)" unfolding rs(1) map_map by (simp only:)
  moreover have "\<not> exit_final (er_status r) \<and> stored w r" if r: "r \<in> set rs" for r
  proof -
    obtain row where "row \<in> set (coop_exits (w_db w))" "\<not> exit_final (cxr_status row)" "r = cxr_data row"
      using r rs(1) by auto
    then show ?thesis using row unfolding stored_def by (metis exit_row_simps(2))
  qed
  ultimately show "(distinct (map er_id rs) \<and> (\<forall>r\<in>set rs. \<not> exit_final (er_status r))) \<and> held env rs w'"
    using w(1) rs(2) by (simp add: held_def)
next
  fix w e and w' :: exit_world
  assume "on_db pending_coop_exits w = (Inl e, w')"
  then show "E w'" by (simp add: pending_coop_exits_def select_where_def bind_action_def on_db_def ret_def)
qed

lemma run_ok: "keeps (held env []) (run_exits env)"
proof -
  have loop: "triple (held env rs) (for_each rs (drive_exit env)) (\<lambda>_. held env []) (held env [])"
    if "distinct (map er_id rs)" "\<forall>r\<in>set rs. \<not> exit_final (er_status r)" for rs
    using that
  proof (induction rs)
    case (Cons r rs)
    have "triple (held env (r # rs)) (drive_exit env r) (\<lambda>_. held env rs) (held env [])"
      by (rule triple_weaken [OF drive_ok]) (use Cons.prems in \<open>auto simp: held_def\<close>)
    then show ?case using Cons by (auto intro: triple_then)
  qed (simp add: triple_ret)
  show ?thesis
    unfolding run_exits_def by (intro triple_handle [OF pending_held] triple_fact triple_ret loop) auto
qed

abbreviation inputs_unique :: "db \<Rightarrow> db \<Rightarrow> bool" where
  "inputs_unique d d' \<equiv> no_clash coop_input_clash (coop_exit_inputs d) \<longrightarrow> no_clash coop_input_clash (coop_exit_inputs d')"

interpretation inputs_unique: step_relation inputs_unique
  by unfold_locales simp_all

lemma insert_inputs_unique: "obeys inputs_unique (insert_coop_exit env r outpoint)"
proof -
  have reserve: "obeys inputs_unique (reserve_input i p)" for i p
    using coop_inputs.insert_keeps_unique [of coop_input_clash] clash_sym(22)
    by (auto simp: obeys_def reserve_input_def state_after_def)
  have other: "obeys inputs_unique (insert_into n coop_exits_t c fk x)" "obeys inputs_unique (insert_request_row q)" for n c fk x q
    by (simp_all add: obeys_def insert_into_def insert_request_row_def)
  show ?thesis
    unfolding insert_coop_exit_def
    by (intro inputs_unique.obeys_case_option inputs_unique.obeys_case_prod inputs_unique.obeys_throw inputs_unique.obeys_transaction
        inputs_unique.obeys_then reserve other)
qed

text \<open>A new withdrawal: unsigned, with the coin it spends reserved.\<close>

lemma insert_exit_held:
  assumes held: "held env [] w" and ins: "insert_coop_exit env r (x_outpoint env coin) (w_db w) = (Inr u, d')"
    and new: "er_signed_exit r = None" "er_status r = ''INITIATED''" "er_raw_exit r = x_encode env (bitcoin_transaction [coin] outputs)"
  shows "held env [] (w\<lparr>w_db := d'\<rparr>)"
proof -
  let ?d = "w_db w"
  have ok: "exits_ok env w" using held by (simp add: held_def)
  obtain more where d': "coop_exits d' = coop_exits ?d @ [exit_row r]" "\<forall>x\<in>set (coop_exits ?d). \<not> coop_exit_clash (exit_row r) x"
      "coop_exit_inputs d' = coop_exit_inputs ?d @ \<lparr>cir_outpoint = x_outpoint env coin, cir_request_id = er_id r\<rparr> # more"
      "coop_exit_bumps d' = coop_exit_bumps ?d"
    using insert_coop_exit_ok [OF ins] by auto
  have "no_clash coop_exit_clash (coop_exits d')"
    using ok d'(2) clash_sym(21) by (simp add: d'(1) exits_ok_def Let_def no_clash_snoc)
  moreover have "no_clash coop_input_clash (coop_exit_inputs d')"
    using obeysD [OF insert_inputs_unique, of ?d env r "x_outpoint env coin"] ok by (simp add: ins exits_ok_def Let_def)
  moreover have "row = exit_row (cxr_data row) \<and> record_ok env (w_calls w) (cxr_data row) \<and>
      (exit_final (er_status (cxr_data row)) \<or> coin_reserved env d' (cxr_data row))" if row: "row \<in> set (coop_exits d')" for row
  proof (cases "row = exit_row r")
    case True
    have "coin_reserved env d' r"
      unfolding coin_reserved_def using new(3) d'(3) by auto
    then show ?thesis using True new by (simp add: record_ok_def)
  next
    case False
    then have "row \<in> set (coop_exits ?d)" using row d'(1) by simp
    note old = exits_ok_row [OF ok this]
    moreover have "coin_reserved env ?d s \<Longrightarrow> coin_reserved env d' s" for s
      unfolding coin_reserved_def d'(3) by auto
    ultimately show ?thesis by blast
  qed
  moreover have "\<exists>s. exit_row s \<in> set (coop_exits d') \<and> er_id s = cbr_request_id b \<and> bump_of env s (cbr_raw b)"
    if "b \<in> set (coop_exit_bumps d')" for b
    using exits_ok_bump [OF ok, of b] that unfolding d'(1,4) by (metis Un_iff set_append)
  moreover have "all_justified env (coop_exits d') (w_calls w)"
  proof (rule justified_rows)
    show "all_justified env (coop_exits ?d) (w_calls w)" using ok by (simp add: exits_ok_def Let_def)
    show "\<exists>row'\<in>set (coop_exits d'). same_withdrawal (cxr_data row) (cxr_data row')" if "row \<in> set (coop_exits ?d)" for row
      using that same_withdrawal_refl by (intro bexI [of _ row]) (simp_all add: d'(1))
  qed
  ultimately show ?thesis
    by (simp add: held_def exits_ok_def Let_def)
qed

lemma reserve_held: "keeps (held env []) (reserve_exit env owner request speed transfer_id key quote address payout leaves)"
proof -
  let ?new = "\<lambda>outpoint r. er_signed_exit r = None \<and> er_status r = ''INITIATED'' \<and>
     (\<exists>outputs. er_raw_exit r = x_encode env (bitcoin_transaction [outpoint] outputs))"
  have build: "triple (held env []) (build_exit env owner request fee transfer_id key quote address payout leaves coin outpoint)
      (\<lambda>r w. held env [] w \<and> ?new outpoint r) (held env [])" for fee coin outpoint
    by (rule exits.triple_quiet [OF quiet_build])
      (auto simp: build_exit_def Let_def ret_def exit_record_of_def exit_tx_def elim!: bind_InrE)
  have insert: "triple (\<lambda>w. held env [] w \<and> ?new outpoint r)
      (then_action (on_db (insert_coop_exit env r (x_outpoint env outpoint))) (ret r)) (\<lambda>_. held env []) (held env [])" for outpoint r
  proof (rule triple_then [where R = "held env []", OF tripleI triple_ret])
    fix w u w'
    assume w: "held env [] w \<and> ?new outpoint r" "on_db (insert_coop_exit env r (x_outpoint env outpoint)) w = (Inr u, w')"
    then obtain d' where "insert_coop_exit env r (x_outpoint env outpoint) (w_db w) = (Inr u, d')" "w' = w\<lparr>w_db := d'\<rparr>"
      by (auto simp: on_db_def split: prod.splits)
    then show "held env [] w'" using w(1) insert_exit_held by blast
  next
    fix w e w'
    assume w: "held env [] w \<and> ?new outpoint r" "on_db (insert_coop_exit env r (x_outpoint env outpoint)) w = (Inl e, w')"
    have "insert_coop_exit env r p d = (Inl e, d') \<Longrightarrow> d' = d" for p d d'
      by (auto simp: insert_coop_exit_def throw_def dest: transaction_error_rolls_back split: option.splits)
    then have "w' = w" using w(2) by (auto simp: on_db_def split: prod.splits)
    then show "held env [] w'" using w(1) by simp
  qed
  show ?thesis
    unfolding reserve_exit_def Let_def
    by (intro triple_bind [OF exits.keeps_quiet [OF quiet_bitcoin(3)]])
      (auto intro!: triple_bind [OF build] insert split: prod.split)
qed

lemma request_ok: "keeps (held env []) (request_exit env owner input)"
proof -
  note quiet = exits.keeps_quiet [OF _]
  have price: "obeys quiet (case xi_fee_quote_id request of
         Some i \<Rightarrow> bind_action (on_db (coop_quote i owner)) (\<lambda>q. lift_result (ok_or q (Failure m)))
       | None \<Rightarrow> quote_exit env owner (Some (xi_leaf_ids request)) (Some (xi_address request)))" for request m
    by (intro quiet_intros quiet_quote)
  have new: "keeps (held env []) (new_exit env owner request speed transfer_id key)" for request speed transfer_id key
    unfolding new_exit_def
    by (intro triple_bind [OF quiet [OF price]] triple_bind [OF quiet [OF exits.quiet.obeys_lift]] triple_bind [OF quiet [OF quiet_reads(1)]]
        triple_if triple_throw triple_bind [OF quiet [OF quiet_spark(1)]] triple_bind [OF quiet [OF quiet_amount]])
      (auto intro!: triple_throw reserve_held split: prod.split)
  have known: "keeps (held env []) (if b then throw e else exit_response env r)" for b e r
    by (intro quiet quiet_intros quiet_response)
  show ?thesis
    unfolding request_exit_def Let_def
    by (intro triple_bind [OF quiet [OF exits.quiet.obeys_lift]] triple_then [OF quiet [OF exits.quiet.obeys_lift]] triple_if triple_throw
        triple_bind [OF quiet [OF exits.quiet_on_db [OF same_exits_statements(5)]]] triple_case_option known
        triple_bind [OF quiet [OF exits.quiet_on_db [OF same_exits_statements(6)]]] triple_bind [OF new] quiet [OF quiet_response]
        | assumption)+
qed

lemma insert_bump_held:
  assumes "held env [r] w" "bump_of env r raw" "insert_bump (er_id r) raw rate (w_db w) = (Inr u, d')"
  shows "held env [r] (w\<lparr>w_db := d'\<rparr>)"
proof -
  have d': "coop_exits d' = coop_exits (w_db w)" "coop_exit_inputs d' = coop_exit_inputs (w_db w)"
      "coop_exit_bumps d' = coop_exit_bumps (w_db w) @ [\<lparr>cbr_request_id = er_id r, cbr_raw = raw, cbr_fee_rate = rate\<rparr>]"
    using assms(3) by (auto simp: insert_bump_def insert_into_def split: if_splits)
  have ok: "exits_ok env w" and r: "exit_row r \<in> set (coop_exits (w_db w))"
    using assms(1) by (simp_all add: held_def stored_def)
  have "\<exists>s. exit_row s \<in> set (coop_exits (w_db w)) \<and> er_id s = cbr_request_id b \<and> bump_of env s (cbr_raw b)"
    if "b \<in> set (coop_exit_bumps d')" for b
  proof (cases "b \<in> set (coop_exit_bumps (w_db w))")
    case True
    then show ?thesis by (rule exits_ok_bump [OF ok]) blast
  next
    case False
    then have "b = \<lparr>cbr_request_id = er_id r, cbr_raw = raw, cbr_fee_rate = rate\<rparr>" using that d'(3) by simp
    then show ?thesis using r assms(2) by (intro exI [of _ r]) simp
  qed
  moreover have "coin_reserved env d' s = coin_reserved env (w_db w) s" for s
    by (simp add: coin_reserved_def d'(2))
  ultimately have "exits_ok env (w\<lparr>w_db := d'\<rparr>)"
    using ok unfolding exits_ok_def Let_def by (simp add: d'(1,2))
  then show ?thesis using r d'(1) by (simp add: held_def stored_def)
qed

lemma send_bump:
  assumes "bump_of env r raw"
  shows "triple (held env [r]) (ask (SendTx (Some raw)) f) (\<lambda>_. held env [r]) (held env [])"
proof -
  have "triple (at env [r] (\<lambda>_. True)) (ask (SendTx (Some raw)) f) (\<lambda>_. at env [r] (\<lambda>_. True)) (held env [])"
  proof (rule exits.triple_call [OF grows_log(5)])
    fix w
    assume w: "at env [r] (\<lambda>_. True) w"
    have "er_signed_exit r \<noteq> None" using assms by (auto simp: bump_of_def bump_tx_def)
    then obtain payout where "paid_for env (w_calls w) r payout" using at_paid [OF w] by blast
    then have "justified_by env (w_calls w) r (SendTx (Some raw))"
      using assms by (simp only: justified_by.simps) blast
    then show "justified env (coop_exits (w_db w)) (w_calls w) (SendTx (Some raw))"
      by (rule held_justified [OF w])
  qed
  then show ?thesis by (simp add: exits.at_True)
qed

lemma resend_ok:
  assumes "bump_of env r raw"
  shows "triple (held env [r]) (resend_bump env parent raw max_fee) (\<lambda>_. held env []) (held env [])"
proof -
  have lift: "triple (held env [r]) (lift_result x) (\<lambda>_. held env [r]) (held env [])" for x :: "'x result"
    by (rule triple_lift) (auto intro: exits.held_fewer)
  have final: "triple (held env [r]) (then_action (ask (SendTx (Some raw)) f) (ret j)) (\<lambda>_. held env []) (held env [])" for f and j :: json
    by (rule triple_then [OF send_bump [OF assms] triple_ret]) (rule exits.held_fewer)
  show ?thesis
    unfolding resend_bump_def
    by (rule triple_bind [OF lift])
      (auto intro!: triple_throw triple_bind [OF lift] final intro: exits.held_fewer split: prod.split)
qed

lemma make_bump_ok:
  assumes "er_id r = i" "er_signed_exit r = Some raw" "x_decode env raw = Some (parent, ws)"
  shows "triple (held env [r]) (make_bump env i r parent rate max_fee) (\<lambda>_. held env []) (held env [])"
proof -
  let ?T = "\<lambda>_ :: exit_call list. True"
  have hold: "held env [r] = at env [r] ?T" by (simp add: at_def fun_eq_iff)
  have quiet: "obeys quiet m \<Longrightarrow> triple (held env [r]) m (\<lambda>_. held env [r]) (held env [])" for m :: "(exit_world, 'x) action"
    using exits.keeps_at_quiet [OF _ grows_log(5)] unfolding hold by blast
  have throw: "triple (held env [r]) (throw e) Q (held env [])" for e and Q :: "json \<Rightarrow> exit_world \<Rightarrow> bool"
    by (rule triple_throw) (rule exits.held_fewer)
  have sign: "triple (held env [r]) (sign_raw env (x_encode env child) a b) (\<lambda>_. held env [r]) (held env [])"
    if child: "bump_tx env r child" for child a b
    unfolding hold
  proof (rule triple_sign_raw [OF grows_log(5)])
    fix w
    assume w: "at env [r] ?T w"
    obtain payout where "paid_for env (w_calls w) r payout"
      by (rule at_paid [OF w]) (use assms(2) in auto)
    then show "justified_by env (w_calls w) r (SignTx (x_encode env child))"
      using child by (simp only: justified_by.simps) (auto simp: paid_for_def)
  qed
  have store: "triple (held env [r]) (on_db (insert_bump i bump rate)) (\<lambda>_. held env [r]) (held env [])"
    if "bump_of env r bump" for bump
  proof (rule tripleI)
    fix w u w'
    assume w: "held env [r] w" "on_db (insert_bump i bump rate) w = (Inr u, w')"
    then obtain d' where "insert_bump (er_id r) bump rate (w_db w) = (Inr u, d')" "w' = w\<lparr>w_db := d'\<rparr>"
      by (auto simp: on_db_def assms(1) split: prod.splits)
    then show "held env [r] w'" using insert_bump_held [OF w(1) that] by simp
  next
    fix w e w'
    assume "held env [r] w" "on_db (insert_bump i bump rate) w = (Inl e, w')"
    then show "held env [] w'"
      by (auto simp: on_db_def insert_bump_def insert_into_def intro: exits.held_fewer split: if_splits prod.splits)
  qed
  have finish: "triple (held env [r]) (then_action (lift_result (validate_signed_exit env child bump))
      (then_action (on_db (insert_bump i bump rate)) (then_action (ask (SendTx (Some bump)) f) (ret j)))) (\<lambda>_. held env []) (held env [])"
    if child: "bump_tx env r child" for child bump f and j :: json
  proof (rule triple_then [where R = "\<lambda>w. bump_of env r bump \<and> held env [r] w"])
    show "triple (held env [r]) (lift_result (validate_signed_exit env child bump)) (\<lambda>_ w. bump_of env r bump \<and> held env [r] w) (held env [])"
      by (rule triple_lift) (use child in \<open>auto simp: bump_of_def intro: exits.held_fewer\<close>)
    show "triple (\<lambda>w. bump_of env r bump \<and> held env [r] w)
        (then_action (on_db (insert_bump i bump rate)) (then_action (ask (SendTx (Some bump)) f) (ret j))) (\<lambda>_. held env []) (held env [])"
      by (rule triple_fact) (intro triple_then [OF store] triple_then [OF send_bump] triple_ret; auto intro: exits.held_fewer)
  qed
  have cpfp: "triple (held env [r]) (lift_result (cpfp_transaction env parent (er_fee_sats r) rate max_fee destination))
      (\<lambda>x w. bump_tx env r (fst x) \<and> held env [r] w) (held env [])" for destination
    by (rule triple_lift) (use assms(2,3) in \<open>force simp: bump_tx_def\<close>, rule exits.held_fewer)
  have rest: "triple (\<lambda>w. bump_tx env r (fst x) \<and> held env [r] w)
      (case x of (child, fee) \<Rightarrow> bind_action (sign_raw env (x_encode env child) a b) (\<lambda>bump.
        then_action (lift_result (validate_signed_exit env child bump))
          (then_action (on_db (insert_bump i bump rate)) (then_action (ask (SendTx (Some bump)) (g bump)) (ret (j child fee))))))
      (\<lambda>_. held env []) (held env [])" for x a b g and j :: "tx \<Rightarrow> u64 \<Rightarrow> json"
    by (rule triple_fact) (auto intro!: triple_bind [OF sign finish] split: prod.split)
  show ?thesis
    unfolding make_bump_def
    by (intro triple_bind [OF quiet [OF exits.quiet_ask]] triple_if throw triple_bind [OF quiet [OF quiet_bitcoin(2)]]
        triple_bind [OF cpfp] rest) simp
qed

lemma bump_ok: "keeps (held env []) (bump_fee env i rate max_fee)"
proof -
  have row: "triple (held env []) (on_db (query_row coop_exits_t (\<lambda>r. cxr_id r = i)))
      (\<lambda>row w. er_id (cxr_data row) = i \<and> held env [cxr_data row] w) (held env [])"
  proof (rule tripleI)
    fix w row w'
    assume w: "held env [] w" "on_db (query_row coop_exits_t (\<lambda>r. cxr_id r = i)) w = (Inr row, w')"
    then have r: "row \<in> set (coop_exits (w_db w))" "cxr_id row = i" "w' = w"
      by (auto simp: on_db_def query_row_def dest: first_row_SomeD)
    have "row = exit_row (cxr_data row)"
      using exits_ok_row(1) w(1) r(1) unfolding held_def by blast
    then have "er_id (cxr_data row) = cxr_id row" by (metis exit_row_simps(1))
    then show "er_id (cxr_data row) = i \<and> held env [cxr_data row] w'"
      using found_held [OF w(1) r(1)] r(2,3) by simp
  qed (auto simp: on_db_def query_row_def)
  have existing: "triple (held env [r]) (on_db (query_optional coop_exit_bumps_t (\<lambda>b. cbr_request_id b = i)))
      (\<lambda>b w. (\<forall>x. b = Some x \<longrightarrow> bump_of env r (cbr_raw x)) \<and> held env [r] w) (held env [])" if "er_id r = i" for r
    by (rule tripleI) (auto simp: on_db_def query_optional_def that dest!: first_row_SomeD intro: held_bump)
  have lift: "triple (held env [r]) (lift_result (ok_or x e)) (\<lambda>y w. x = Some y \<and> held env [r] w) (held env [])" for x :: "'x option" and e r
    by (rule triple_lift) (auto intro: exits.held_fewer)
  have throw: "triple (held env [r]) (throw e) Q (held env [])" for r e and Q :: "json \<Rightarrow> exit_world \<Rightarrow> bool"
    by (rule triple_throw) (rule exits.held_fewer)
  have bump: "triple (held env [r])
      (case b of Some b \<Rightarrow> if cbr_fee_rate b \<noteq> rate then throw e else resend_bump env parent (cbr_raw b) max_fee
       | None \<Rightarrow> make_bump env i r parent rate max_fee) (\<lambda>_. held env []) (held env [])"
    if "er_id r = i" "er_signed_exit r = Some raw" "x_decode env raw = Some (parent, ws)" "\<forall>x. b = Some x \<longrightarrow> bump_of env r (cbr_raw x)"
    for b r raw parent ws e
    using that by (auto intro!: throw resend_ok make_bump_ok split: option.split)
  have observe: "triple (held env [r]) (ask (AskTx txid) f) (\<lambda>_. held env [r]) (held env [])" for r txid and f :: "exit_call list \<Rightarrow> json result"
    by (rule exits.keeps_at_quiet [OF exits.quiet_ask grows_log(5) [of True], unfolded exits.at_True]) simp
  have known: "triple (held env [r])
      (if er_status r \<noteq> ''TX_BROADCASTED'' then throw e1
       else bind_action (lift_result (ok_or (er_signed_exit r) e2)) (\<lambda>raw.
        bind_action (lift_result (ok_or (x_decode env raw) e3)) (\<lambda>(parent, _).
        bind_action (ask (AskTx (x_txid env parent)) (\<lambda>h. x_tx env h (x_txid env parent))) (\<lambda>observed.
        if as_i64 (jfield observed ''confirmations'') \<noteq> Some 0 then throw e4
        else bind_action (on_db (query_optional coop_exit_bumps_t (\<lambda>b. cbr_request_id b = i))) (\<lambda>b.
          case b of Some b \<Rightarrow> if cbr_fee_rate b \<noteq> rate then throw e5 else resend_bump env parent (cbr_raw b) max_fee
          | None \<Rightarrow> make_bump env i r parent rate max_fee)))))
      (\<lambda>_. held env []) (held env [])" if r: "er_id r = i" for r e1 e2 e3 e4 e5
    by (intro triple_if throw triple_bind [OF lift] triple_fact)
      (auto intro!: triple_fact throw triple_bind [OF observe] triple_bind [OF existing [OF r]] bump [OF r] split: prod.split)
  show ?thesis
    unfolding bump_fee_def Let_def
    by (intro triple_if triple_throw triple_bind [OF row] triple_fact known, assumption)
qed

end
