(* ===== verification/Exit_Runs.thy ===== *)
theory Exit_Runs
  imports Exit_Safety
begin

text \<open>
  Runs of the withdrawal service: every entry point of src/src/coop_exit.rs in any order, with
  any answers of the Bitcoin node and the Spark operators. The invariant of theory Exit_Safety
  gives what holds of every run; a concrete run shows that withdrawals do complete.
\<close>

section \<open>Runs\<close>

text \<open>Every entry point, in any order and with any answers.\<close>

datatype exit_op =
    OpQuote string "string list option" "string option"
  | OpRequest string "exit_input result"
  | OpComplete string "string option" "string option"
  | OpGet string string
  | OpRun
  | OpBump string u64 u64

fun exit_step :: "exit_env \<Rightarrow> exit_op \<Rightarrow> (exit_world, unit) action" where
  "exit_step env (OpQuote owner ids address) = ignore (quote_exit env owner ids address)"
| "exit_step env (OpRequest owner input) = ignore (request_exit env owner input)"
| "exit_step env (OpComplete owner transfer request_id) = ignore (complete_exit env owner transfer request_id)"
| "exit_step env (OpGet i owner) = ignore (get_exit env i owner)"
| "exit_step env OpRun = ignore (run_exits env)"
| "exit_step env (OpBump i rate max_fee) = ignore (bump_fee env i rate max_fee)"

definition exit_run :: "exit_env \<Rightarrow> exit_op list \<Rightarrow> exit_world \<Rightarrow> exit_world" where
  "exit_run env ops = state_after (for_each ops (exit_step env))"

lemma get_quiet: "obeys quiet (get_exit env i owner)"
  unfolding get_exit_def by (intro quiet_intros quiet_response)

lemma exit_step_ok: "keeps (held env []) (exit_step env op)"
  by (cases op) (simp_all add: exits.keeps_ignore request_ok complete_ok run_ok bump_ok exits.keeps_quiet [OF quiet_quote]
      exits.keeps_quiet [OF get_quiet])

theorem exit_run_ok: "exits_ok env w \<Longrightarrow> exits_ok env (exit_run env ops w)"
proof -
  assume "exits_ok env w"
  then have w: "held env [] w" by (simp add: held_def)
  have "keeps (held env []) (for_each ops (exit_step env))"
    by (rule keeps_for_each) (rule exit_step_ok)
  then have "held env [] (exit_run env ops w)"
    using w tripleD [of "held env []" _ _ _ w] tripleE [of "held env []" _ _ _ w] unfolding exit_run_def state_after_def
    by (cases "for_each ops (exit_step env) w"; cases "fst (for_each ops (exit_step env) w)") fastforce+
  then show ?thesis by (simp add: held_def)
qed

section \<open>What every run guarantees\<close>

lemma empty_world_ok: "exits_ok env empty_world"
  by (simp add: exits_ok_def empty_world_def empty_db_def all_justified_def asked_before_def)

lemma run_ok_from_empty: "exits_ok env (exit_run env ops empty_world)"
  by (rule exit_run_ok [OF empty_world_ok])

lemma run_justified:
  assumes "asked_before (w_calls (exit_run env ops empty_world)) c pre" "\<not> harmless c"
  obtains row where "row \<in> set (coop_exits (w_db (exit_run env ops empty_world)))" "justified_by env pre (cxr_data row) c"
  using run_ok_from_empty [of env ops] assms unfolding exits_ok_def Let_def all_justified_def justified_def by blast

text \<open>C7. The SSP never pays a withdrawal it was not paid for: over any run of the withdrawal
  handlers, from an empty database and whatever the Bitcoin node and the operators answer, every
  transaction it broadcasts belongs to one stored withdrawal: before the broadcast the operators
  had answered for this withdrawal's own Spark transfer, which passed every check of the leaves,
  the owner, the connector and the lock, and the transaction is the recorded signature of this
  withdrawal's own payout, or a fee bump that spends only the SSP's own change of it.\<close>

theorem payout_needs_verified_transfer:
  assumes "asked_before (w_calls (exit_run env ops empty_world)) (SendTx raw) pre"
  shows "\<exists>row\<in>set (coop_exits (w_db (exit_run env ops empty_world))). let r = cxr_data row in
    transfer_verified env pre r \<and>
    (\<exists>payout. er_signed_exit r = Some payout \<and> payout_of env r payout \<and>
      (raw = Some payout \<or> (\<exists>bump. raw = Some bump \<and> bump_of env r bump)))"
proof -
  obtain row where "row \<in> set (coop_exits (w_db (exit_run env ops empty_world)))" "justified_by env pre (cxr_data row) (SendTx raw)"
    by (rule run_justified [OF assms]) auto
  then show ?thesis unfolding justified_by.simps paid_for_def Let_def by blast
qed

text \<open>C8. The SSP never takes a user's leaves before it paid: over any run, a Spark transfer is
  claimed only for one stored withdrawal: the transfer is what the operators answered to the
  earlier query for this withdrawal's own transfer, which was verified and is addressed to the
  SSP, and before the claim this withdrawal's own payout was signed and the Bitcoin node had
  reported a confirmation of it.\<close>

theorem claim_needs_confirmed_payout:
  assumes "asked_before (w_calls (exit_run env ops empty_world)) (ProcessTransfer t) pre"
  shows "wt_type t = CooperativeExit \<and> wt_receiver t = x_identity env \<and>
    (\<exists>row\<in>set (coop_exits (w_db (exit_run env ops empty_world))). let r = cxr_data row in
      transfer_verified env pre r \<and> payout_confirmed env pre r \<and>
      (\<exists>payout. er_signed_exit r = Some payout \<and> payout_of env r payout) \<and>
      (\<exists>i earlier. x_parse_transfer env (er_transfer_id r) = Some i \<and>
        asked_before pre (AskWalletTransfer i) earlier \<and> x_wallet_transfer env earlier i = Inr (Some t)))"
proof -
  obtain row where "row \<in> set (coop_exits (w_db (exit_run env ops empty_world)))" "justified_by env pre (cxr_data row) (ProcessTransfer t)"
    by (rule run_justified [OF assms]) auto
  then show ?thesis unfolding justified_by.simps paid_for_def Let_def by blast
qed

text \<open>C9. A stored status means what it says: over any run, a signed withdrawal has a verified
  transfer and a signature of its own payout; a withdrawal is SUCCEEDED only if it was signed, its
  payout was seen confirmed and its Spark transfer seen completed; it is EXPIRED only if it was never
  signed and the operators said that its transfer does not exist.\<close>

theorem withdrawal_status_backed:
  assumes "row \<in> set (coop_exits (w_db (exit_run env ops empty_world)))"
  shows "let r = cxr_data row; log = w_calls (exit_run env ops empty_world) in
    cxr_id row = er_id r \<and> cxr_status row = er_status r \<and>
    (case er_signed_exit r of
       Some raw \<Rightarrow> transfer_verified env log r \<and> payout_of env r raw \<and> er_status r \<noteq> ''EXPIRED''
     | None \<Rightarrow> er_status r = ''INITIATED'' \<or> er_status r = ''EXPIRED'' \<and> transfer_absent env log r) \<and>
    (er_status r = ''SUCCEEDED'' \<longrightarrow> er_signed_exit r \<noteq> None \<and> payout_confirmed env log r \<and> leaves_claimed env log r)"
proof -
  note ok = exits_ok_row(1,2) [OF run_ok_from_empty assms]
  have "cxr_id row = er_id (cxr_data row)" "cxr_status row = er_status (cxr_data row)"
    using ok(1) by (metis exit_row_simps(1), metis exit_row_simps(2))
  then show ?thesis
    using ok(2) by (auto simp: Let_def record_ok_def paid_for_def split: option.splits)
qed

text \<open>C10. No coin is spent by two withdrawals: over any run, the payout of an unfinished
  withdrawal spends one coin, and the reservations hold that coin once, for this withdrawal.\<close>

theorem coin_reserved_exclusively:
  assumes "row \<in> set (coop_exits (w_db (exit_run env ops empty_world)))" "\<not> exit_final (cxr_status row)"
  shows "\<exists>coin outputs. er_raw_exit (cxr_data row) = x_encode env (bitcoin_transaction [coin] outputs) \<and>
    filter (\<lambda>i. cir_outpoint i = x_outpoint env coin) (coop_exit_inputs (w_db (exit_run env ops empty_world))) =
      [\<lparr>cir_outpoint = x_outpoint env coin, cir_request_id = cxr_id row\<rparr>]"
proof -
  let ?w = "exit_run env ops empty_world"
  note ok = exits_ok_row(1,3) [OF run_ok_from_empty assms(1)]
  have fields: "cxr_id row = er_id (cxr_data row)" "cxr_status row = er_status (cxr_data row)"
    using ok(1) by (metis exit_row_simps(1), metis exit_row_simps(2))
  then obtain coin outputs where c: "er_raw_exit (cxr_data row) = x_encode env (bitcoin_transaction [coin] outputs)"
      "\<lparr>cir_outpoint = x_outpoint env coin, cir_request_id = cxr_id row\<rparr> \<in> set (coop_exit_inputs (w_db ?w))"
    using ok(2) assms(2) by (auto simp: coin_reserved_def)
  have unique: "no_clash coop_input_clash (coop_exit_inputs (w_db ?w))"
    using run_ok_from_empty by (simp add: exits_ok_def Let_def)
  have single: "length xs \<le> 1 \<Longrightarrow> x \<in> set xs \<Longrightarrow> xs = [x]" for x :: coop_input_row and xs
    by (cases xs) auto
  show ?thesis
    by (intro exI conjI, rule c(1), rule single [OF no_clash_count_le_1 [OF unique]])
      (use c(2) in \<open>auto simp: coop_input_clash_def\<close>)
qed

section \<open>A concrete run\<close>

lemma example_fields [simp]:
  "er_id example_record = ''r''" "er_owner example_record = ''u''" "er_transfer_id example_record = ''t''"
  "er_status example_record = ''INITIATED''" "er_signed_exit example_record = None" "er_raw_exit example_record = ''exit''"
  "er_raw_connector example_record = ''connector''" "er_leaves example_record = [\<lparr>el_id = ''l'', el_value = 20000\<rparr>]"
  "er_expires_at example_record = 1300" "er_idempotency_key example_record = ''t''"
  by (simp_all add: example_record_def exit_record_of_def quote_seconds_def)
   (simp_all add: example_env_def example_exit_tx_def exit_tx_def bitcoin_transaction_def connector_tx_def)

lemma example_env_simps [simp]:
  "x_decode example_env ''exit'' = Some (example_exit_tx, [True])" "x_decode example_env ''signed'' = Some (example_exit_tx, [False])"
  "x_txid example_env example_exit_tx = ''e''" "x_parse_transfer example_env = Some" "x_parse_uuid example_env = Some" "x_send example_env h raw = Inr ()"
  "x_tx example_env h txid = (if SendTx (Some ''signed'') \<in> set h then Inr (JObj [(''confirmations'', JInt 1)]) else Inl (Failure ''unknown''))"
  "x_sign example_env h raw2 = Inr (JObj [(''complete'', JBool True), (''hex'', JStr ''signed'')])"
  "x_process example_env h t = Inr ()" "x_identity example_env = ''ssp''"
  "x_wallet_transfer example_env h i = Inr (Some \<lparr>wt_id = ''t'', wt_sender = ''u'', wt_receiver = ''ssp'', wt_total = 20000,
        wt_status = (if list_ex (\<lambda>c. case c of ProcessTransfer _ \<Rightarrow> True | _ \<Rightarrow> False) h then Completed else SenderKeyTweakPending),
        wt_type = CooperativeExit, wt_leaves = [(''l'', [])], wt_expiry = None\<rparr>)"
  by (simp_all add: example_env_def example_exit_tx_def exit_tx_def bitcoin_transaction_def)

lemma example_verify: "verify_coop_exit example_env example_record w = (Inr (), w\<lparr>w_calls := w_calls w @ [AskTransfer ''t'']\<rparr>)"
  by (simp add: verify_coop_exit_def query_transfer_def run_simps exit_transfer_valid_def validate_coop_exit_transfer_def)
    (simp add: example_env_def bitcoin_transaction_def validate_exit_leaf_def guard_def checked_add_def and_then_def refunds_of_def)

lemma response_pure: "snd (exit_response env r w) = w"
  by (auto simp: exit_response_def request_updated_at_def action_defs query_row_def on_db_def split: prod.splits sum.splits option.splits)

lemma example_request: "\<exists>w. snd (request_exit example_env ''u'' (Inr example_input) empty_world) = w \<and>
  coop_exits (w_db w) = [exit_row example_record] \<and> coop_exit_bumps (w_db w) = [] \<and> transfers (w_db w) = [] \<and> 
  SendTx (Some ''signed'') \<notin> set (w_calls w) \<and> (\<forall>t. ProcessTransfer t \<notin> set (w_calls w))"
proof -
  obtain w where new: "new_exit example_env ''u'' example_input 0 ''t'' ''t'' empty_world = (Inr example_record, w)"
     and w: "coop_exits (w_db w) = [exit_row example_record]" "coop_exit_bumps (w_db w) = []" "transfers (w_db w) = []"
       "w_calls w = [AskNodes [''l''], AskEstimate 2, AskEstimate 6, AskEstimate 12, AskNodes [''l''], AskUnspent] @ [AskAddress, AskAddress, AskAddress, AskAddress]"
     using example_new by blast
  have none: "on_db (coop_exit_by_key a b c) empty_world = (Inr None, empty_world)" "on_db (coop_exit_pending_for_owner a) empty_world = (Inr False, empty_world)" for a b c
    by (simp_all add: coop_exit_by_key_def coop_exit_pending_for_owner_def run_simps empty_world_def empty_db_def)
  have "request_exit example_env ''u'' (Inr example_input) empty_world = exit_response example_env example_record w"
    by (simp add: request_exit_def validate_ids_def max_leaves_def speed_index_def request_key_def)
      (simp add: bind_action_def none new)
  then show ?thesis using response_pure w by simp
qed

abbreviation example_checked :: exit_record where
  "example_checked \<equiv> example_record\<lparr>er_signed_exit := Some ''signed'', er_status := ''INBOUND_TRANSFER_CHECKED''\<rparr>"

abbreviation example_sent :: exit_record where
  "example_sent \<equiv> example_record\<lparr>er_signed_exit := Some ''signed'', er_status := ''TX_BROADCASTED''\<rparr>"

lemma example_signed:
  assumes "coop_exits (w_db w) = [exit_row example_record]" "coop_exit_bumps (w_db w) = []" "transfers (w_db w) = []"
  shows "\<exists>d. sign_exit example_env example_exit_tx example_record w =
      (Inr example_checked, w\<lparr>w_db := d, w_calls := w_calls w @ [AskTransfer ''t'', SignTx ''exit'']\<rparr>) \<and>
     coop_exits d = [exit_row example_checked] \<and> coop_exit_bumps d = []"
  using assms
  by (cases w, simp add: sign_exit_def then_action_def bind_action_def example_verify)
   (simp add: action_defs on_db_def ask_def insert_transfer_def upsert_def sign_raw_def validate_signed_exit_def update_coop_exit_run exit_final_def exit_row_def Let_def)

lemma example_broadcast:
  assumes "coop_exits (w_db w) = [exit_row example_checked]" "coop_exit_bumps (w_db w) = []"
  shows "\<exists>d. broadcast_exit example_env example_checked w = (Inr example_sent, w\<lparr>w_db := d, w_calls := w_calls w @ [SendTx (Some ''signed'')]\<rparr>) \<and>
     coop_exits d = [exit_row example_sent]"
  using assms
  by (cases w) (simp add: broadcast_exit_def action_defs on_db_def ask_def bump_raw_def query_optional_def update_coop_exit_run exit_final_def exit_row_def Let_def)

lemma example_complete:
  assumes "coop_exits (w_db w) = [exit_row example_record]" "coop_exit_bumps (w_db w) = []" "transfers (w_db w) = []"
     "SendTx (Some ''signed'') \<notin> set (w_calls w)"
  shows "\<exists>d. snd (complete_exit example_env ''u'' (Some ''t'') None w) =
     w\<lparr>w_db := d, w_calls := w_calls w @ [AskTransfer ''t'', SignTx ''exit'', AskTx ''e'', SendTx (Some ''signed'')]\<rparr> \<and>
     coop_exits d = [exit_row example_sent]"
proof -
  obtain d where d: "sign_exit example_env example_exit_tx example_record w =
      (Inr example_checked, w\<lparr>w_db := d, w_calls := w_calls w @ [AskTransfer ''t'', SignTx ''exit'']\<rparr>)"
     "coop_exits d = [exit_row example_checked]" "coop_exit_bumps d = []"
    using example_signed assms(1-3) by blast
  have found: "on_db (coop_exit_by_key ''u'' '''' ''t'') w = (Inr (Some example_record), w)"
    using assms(1) by (simp add: coop_exit_by_key_def run_simps)
  obtain d2 where d2: "broadcast_exit example_env example_checked (w\<lparr>w_db := d, w_calls := w_calls w @ [AskTransfer ''t'', SignTx ''exit'', AskTx ''e'']\<rparr>) =
     (Inr example_sent, w\<lparr>w_db := d2, w_calls := w_calls w @ [AskTransfer ''t'', SignTx ''exit'', AskTx ''e'', SendTx (Some ''signed'')]\<rparr>)"
     "coop_exits d2 = [exit_row example_sent]"
    using example_broadcast [of "w\<lparr>w_db := d, w_calls := w_calls w @ [AskTransfer ''t'', SignTx ''exit'', AskTx ''e'']\<rparr>"] d(2,3) by auto
  have "advance_exit example_env example_record w = (Inr example_sent, w\<lparr>w_db := d2, w_calls := w_calls w @ [AskTransfer ''t'', SignTx ''exit'', AskTx ''e'', SendTx (Some ''signed'')]\<rparr>)"
    using d2 assms(4) by (simp add: advance_exit_def exit_final_def bind_action_def d observe_exit_def handle_def ask_def follow_exit_def confirmations_def ret_def)
  then show ?thesis
    using d2(2) by (intro exI [of _ d2], simp add: complete_exit_def)
      (simp add: bind_action_def found response_pure ret_def)
qed

lemma example_settle:
  assumes "coop_exits (w_db w) = [exit_row example_sent]" "SendTx (Some ''signed'') \<in> set (w_calls w)" "\<forall>t. ProcessTransfer t \<notin> set (w_calls w)"
  shows "\<exists>t cs. w_calls (snd (run_exits example_env w)) = w_calls w @ [AskTx ''e'', AskWalletTransfer ''t'', ProcessTransfer t] @ cs \<and>
    map cxr_status (coop_exits (w_db (snd (run_exits example_env w)))) = [''SUCCEEDED'']"
proof -
  have no: "\<not> list_ex (\<lambda>c. case c of ProcessTransfer _ \<Rightarrow> True | _ \<Rightarrow> False) (w_calls w)"
    using assms(3) by (auto simp: list_ex_iff split: exit_call.splits)
  show ?thesis
    using assms(1,2) no by (simp add: run_exits_def handle_def pending_coop_exits_def run_simps exit_final_def drive_exit_def ignore_def advance_exit_def
      observe_exit_def follow_exit_def confirmations_def i64_min_def i64_max_def settle_exit_def update_coop_exit_run claim_coop_exit_def get_transfer_def Let_def)
qed

lemma exit_run_simps: "exit_run env [] w = w" "exit_run env (op # ops) w = exit_run env ops (snd (exit_step env op w))"
proof -
  have total: "fst (exit_step env op w) = Inr ()"
    by (cases op) (auto simp: ignore_def handle_def ret_def split: prod.split sum.split)
  show "exit_run env [] w = w" "exit_run env (op # ops) w = exit_run env ops (snd (exit_step env op w))"
    using total by (auto simp: exit_run_def state_after_def ret_def then_action_def bind_action_def split: prod.split)
qed

lemma snd_ignore: "snd (ignore m w) = snd (m w)"
  by (auto simp: ignore_def handle_def ret_def split: prod.split sum.split)

abbreviation example_ops :: "exit_op list" where
  "example_ops \<equiv> [OpRequest ''u'' (Inr example_input), OpComplete ''u'' (Some ''t'') None]"

lemma example_request_run:
  "coop_exits (w_db (exit_run example_env [OpRequest ''u'' (Inr example_input)] empty_world)) = [exit_row example_record]"
  using example_request by (auto simp: exit_run_simps snd_ignore)

lemma example_payout_run:
  "\<exists>pre. w_calls (exit_run example_env example_ops empty_world) = pre @ [SendTx (Some ''signed'')] \<and>
     (\<forall>t. ProcessTransfer t \<notin> set pre) \<and> coop_exits (w_db (exit_run example_env example_ops empty_world)) = [exit_row example_sent]"
proof -
  let ?w = "snd (request_exit example_env ''u'' (Inr example_input) empty_world)"
  note w = example_request
  obtain d where "snd (complete_exit example_env ''u'' (Some ''t'') None ?w) =
     ?w\<lparr>w_db := d, w_calls := w_calls ?w @ [AskTransfer ''t'', SignTx ''exit'', AskTx ''e'', SendTx (Some ''signed'')]\<rparr>"
     "coop_exits d = [exit_row example_sent]"
    using example_complete [of ?w] w by blast
  then show ?thesis using w by (simp add: exit_run_simps snd_ignore)
qed

lemma example_claim_run:
  "\<exists>t pre post. w_calls (exit_run example_env (example_ops @ [OpRun]) empty_world) = pre @ ProcessTransfer t # post \<and>
     map cxr_status (coop_exits (w_db (exit_run example_env (example_ops @ [OpRun]) empty_world))) = [''SUCCEEDED'']"
proof -
  let ?w = "exit_run example_env example_ops empty_world"
  obtain pre where w: "w_calls ?w = pre @ [SendTx (Some ''signed'')]" "\<forall>t. ProcessTransfer t \<notin> set pre"
      "coop_exits (w_db ?w) = [exit_row example_sent]"
    using example_payout_run by blast
  have "exit_run example_env (example_ops @ [OpRun]) empty_world = snd (run_exits example_env ?w)"
    by (simp add: exit_run_simps snd_ignore)
  moreover obtain t cs where "w_calls (snd (run_exits example_env ?w)) = w_calls ?w @ [AskTx ''e'', AskWalletTransfer ''t'', ProcessTransfer t] @ cs"
      "map cxr_status (coop_exits (w_db (snd (run_exits example_env ?w)))) = [''SUCCEEDED'']"
    using example_settle [OF w(3)] w(1,2) by auto
  ultimately show ?thesis
    by (intro exI [of _ t] exI [of _ "w_calls ?w @ [AskTx ''e'', AskWalletTransfer ''t'']"] exI [of _ cs]) simp
qed

lemma payout_needs_verified_transfer_witness:
  "\<exists>pre. asked_before (w_calls (exit_run example_env example_ops empty_world)) (SendTx (Some ''signed'')) pre \<and>
     transfer_verified example_env pre example_sent"
proof -
  obtain pre where "asked_before (w_calls (exit_run example_env example_ops empty_world)) (SendTx (Some ''signed'')) pre"
    using example_payout_run unfolding asked_before_def by auto
  then show ?thesis
    using payout_needs_verified_transfer [of example_env example_ops "Some ''signed''"] example_payout_run
    unfolding Let_def by fastforce
qed

lemma claim_needs_confirmed_payout_witness:
  "\<exists>t pre row. asked_before (w_calls (exit_run example_env (example_ops @ [OpRun]) empty_world)) (ProcessTransfer t) pre \<and>
     row \<in> set (coop_exits (w_db (exit_run example_env (example_ops @ [OpRun]) empty_world))) \<and>
     payout_confirmed example_env pre (cxr_data row)"
proof -
  obtain t pre where "asked_before (w_calls (exit_run example_env (example_ops @ [OpRun]) empty_world)) (ProcessTransfer t) pre"
    using example_claim_run unfolding asked_before_def by blast
  then show ?thesis using claim_needs_confirmed_payout unfolding Let_def by blast
qed

lemma withdrawal_status_backed_witness:
  "\<exists>row. coop_exits (w_db (exit_run example_env (example_ops @ [OpRun]) empty_world)) = [row] \<and> cxr_status row = ''SUCCEEDED'' \<and>
     leaves_claimed example_env (w_calls (exit_run example_env (example_ops @ [OpRun]) empty_world)) (cxr_data row)"
proof -
  obtain row where row: "coop_exits (w_db (exit_run example_env (example_ops @ [OpRun]) empty_world)) = [row]" "cxr_status row = ''SUCCEEDED''"
    using example_claim_run by (auto simp only: map_eq_Cons_conv map_is_Nil_conv)
  then show ?thesis
    using withdrawal_status_backed [of row example_env "example_ops @ [OpRun]"] unfolding Let_def by simp
qed

lemma coin_reserved_exclusively_witness:
  "\<exists>coin. length (filter (\<lambda>i. cir_outpoint i = x_outpoint example_env coin)
     (coop_exit_inputs (w_db (exit_run example_env [OpRequest ''u'' (Inr example_input)] empty_world)))) = 1"
proof -
  have "exit_row example_record \<in> set (coop_exits (w_db (exit_run example_env [OpRequest ''u'' (Inr example_input)] empty_world)))"
    by (simp add: example_request_run)
  moreover have "\<not> exit_final (cxr_status (exit_row example_record))" by (simp add: exit_final_def)
  ultimately obtain coin where "filter (\<lambda>i. cir_outpoint i = x_outpoint example_env coin)
      (coop_exit_inputs (w_db (exit_run example_env [OpRequest ''u'' (Inr example_input)] empty_world))) =
      [\<lparr>cir_outpoint = x_outpoint example_env coin, cir_request_id = cxr_id (exit_row example_record)\<rparr>]"
    using coin_reserved_exclusively by blast
  then show ?thesis by (intro exI [of _ coin]) simp
qed

end
