(* ===== verification/Deposits.thy ===== *)
theory Deposits
  imports Held_Records Requests Transfers
begin

text \<open>
  Deposits of bitcoin into Spark: src/src/static_deposits.rs (a confirmed output is paid out at a
  quoted fee) and src/src/instant_deposits.rs (the credit is advanced before confirmation, within an
  exposure limit, and the output recovered later), with the operator calls of src/src/spark.rs
  459-815. Both services share one lock, so a run of their handlers is a sequence. The Bitcoin
  node and the operators answer as they like; parsers, protobuf, hashes, signatures and the clock
  are arguments. Keys, scripts, txids and encoded transactions are their hex texts.
\<close>

section \<open>Data and arguments\<close>

text \<open>\<open>StaticDepositSwapRequest\<close>, as far as the code reads or writes it.\<close>

record signing_job =
  sj_signing_key :: string
  sj_raw_tx :: string
  sj_nonce :: "string option"

record swap_request =
  sr_utxo :: "(string \<times> u32) option"
  sr_ssp_signature :: string
  sr_user_signature :: string
  sr_transfer :: "string option"
  sr_job :: "signing_job option"
  sr_threshold :: nat

record static_address =
  sa_address :: string
  sa_signing_key :: string
  sa_verifying_key :: string

record operator_transfer =
  ot_id :: string
  ot_sender :: string
  ot_receiver :: string
  ot_total :: u64

record swap_response =
  so_transfer :: "operator_transfer option"
  so_result :: "string option"

datatype deposit_call =
    AskOutput string u64
  | AskMempool string
  | AskFeeRate
  | AskHeight
  | AskBlockHash u64
  | AskBlock json
  | AskWalletTx string
  | AskStaticAddress string string
  | AskChangeAddress
  | SelectLeaves u64
  | PrepareTransfer string "string list" string
  | AskNonce
  | SwapDeposit swap_request
  | ReserveDeposit swap_request string u64 u64
  | RecoverDeposit "(string \<times> u32) option" signing_job string
  | SendSpend string

record deposit_env =
  d_output :: "deposit_call list \<Rightarrow> string \<Rightarrow> u64 \<Rightarrow> json result"
  d_mempool :: "deposit_call list \<Rightarrow> string \<Rightarrow> json result"
  d_estimate :: "deposit_call list \<Rightarrow> json result"
  d_height :: "deposit_call list \<Rightarrow> json result"
  d_block_hash :: "deposit_call list \<Rightarrow> u64 \<Rightarrow> json result"
  d_block :: "deposit_call list \<Rightarrow> json \<Rightarrow> json result"
  d_wallet_tx :: "deposit_call list \<Rightarrow> string \<Rightarrow> json result"
  d_addresses :: "deposit_call list \<Rightarrow> string \<Rightarrow> string \<Rightarrow> static_address list result"
  d_change :: "deposit_call list \<Rightarrow> json result"
  d_leaves :: "deposit_call list \<Rightarrow> u64 \<Rightarrow> string list result"
  d_transfer :: "deposit_call list \<Rightarrow> string \<Rightarrow> string list \<Rightarrow> string \<Rightarrow> string result"
  d_nonce :: "deposit_call list \<Rightarrow> (string \<times> 8 word list) result"
  d_swap :: "deposit_call list \<Rightarrow> swap_request \<Rightarrow> swap_response result"
  d_reserve :: "deposit_call list \<Rightarrow> swap_request \<Rightarrow> operator_transfer option result"
  d_recover :: "deposit_call list \<Rightarrow> signing_job \<Rightarrow> string \<Rightarrow> swap_response result"
  d_send :: "deposit_call list \<Rightarrow> string \<Rightarrow> unit result"
  d_now :: "deposit_call list \<Rightarrow> nat \<Rightarrow> int"
  d_uuid :: "deposit_call list \<Rightarrow> nat \<Rightarrow> string"
  d_network :: string
  d_chain :: network
  d_spark_network :: string
  d_fixed_type :: "8 word"
  d_identity :: string
  d_private_pool :: bool
  d_limit :: u64
  d_max_deposit :: u64
  d_parse_txid :: "string \<Rightarrow> string option"
  d_parse_key :: "string \<Rightarrow> string option"
  d_parse_id :: "string \<Rightarrow> bool"
  d_parse_address :: "string \<Rightarrow> string result"
  d_btc_amount :: "json \<Rightarrow> u64 result"
  d_script_hex :: "string \<Rightarrow> string option"
  d_script_address :: "string \<Rightarrow> string option"
  d_output_hex :: "u64 \<Rightarrow> string \<Rightarrow> string"
  d_output_script :: "string \<Rightarrow> string option"
  d_encode_tx :: "tx \<Rightarrow> string"
  d_decode_tx :: "string \<Rightarrow> tx option"
  d_txid :: "tx \<Rightarrow> string"
  d_encode_request :: "swap_request \<Rightarrow> 8 word list"
  d_decode_request :: "8 word list \<Rightarrow> swap_request option"
  d_hex :: "string \<Rightarrow> 8 word list option"
  d_quote_signature :: "json \<Rightarrow> string"
  d_sha256 :: "8 word list \<Rightarrow> 8 word list"
  d_decrypt :: "8 word list \<Rightarrow> 8 word list option"
  d_encrypt :: "8 word list \<Rightarrow> string option"
  d_public_key :: "8 word list \<Rightarrow> string option"
  d_der :: "8 word list \<Rightarrow> string option"
  d_compact :: "8 word list \<Rightarrow> string option"
  d_verify :: "8 word list \<Rightarrow> string \<Rightarrow> string \<Rightarrow> bool"
  d_aggregate :: "swap_request \<Rightarrow> static_plan \<Rightarrow> deposit_quote \<Rightarrow> string \<Rightarrow> string result"
  d_spend_valid :: "swap_request \<Rightarrow> static_plan \<Rightarrow> string \<Rightarrow> unit result"
  d_with_witness :: "string \<Rightarrow> string \<Rightarrow> string option"
  d_time :: "int \<Rightarrow> string"

type_synonym deposit_world = "deposit_call log_world"

section \<open>Inputs and quotes\<close>

definition validate_network :: "deposit_env \<Rightarrow> json \<Rightarrow> unit result" where
  "validate_network env input = (case as_str (jfield input ''network'') of
     Some n \<Rightarrow> if n \<noteq> d_network env then Inl (Failure ''static deposit network mismatch'') else Inr ()
   | None \<Rightarrow> Inr ())"

definition outpoint_of :: "deposit_env \<Rightarrow> json \<Rightarrow> (string \<times> u32) result" where
  "outpoint_of env input =
     and_then (ok_or (as_str (jfield input ''transaction_id'')) (Failure ''transaction_id required'')) (\<lambda>text.
     and_then (ok_or (d_parse_txid env text) (Failure ''invalid transaction ID'')) (\<lambda>txid.
     and_then (ok_or (as_u64 (jfield input ''output_index'')) (Failure ''output_index required'')) (\<lambda>n.
     if n < 2 ^ 32 then Inr (txid, ucast n) else Inl (Failure ''invalid output index''))))"

definition recovery_transaction :: "outpoint \<Rightarrow> u64 \<Rightarrow> string \<Rightarrow> tx" where
  "recovery_transaction p credit destination =
     \<lparr>tx_inputs = [\<lparr>ti_previous_output = p, ti_sequence = 0xFFFFFFFF\<rparr>],
      tx_outputs = [\<lparr>to_value = credit, to_script = destination\<rparr>]\<rparr>"

definition static_quote_response :: "deposit_quote \<Rightarrow> json" where
  "static_quote_response q = JObj [(''__typename'', JStr ''StaticDepositQuoteOutput''), (''transaction_id'', JStr (dq_txid q)),
     (''output_index'', JInt (uint (dq_vout q))), (''network'', JStr (dq_network q)),
     (''credit_amount_sats'', juint (dq_credit q)), (''signature'', JStr (dq_signature q))]"

definition confirmations_of :: "json \<Rightarrow> u64" where
  "confirmations_of coin = (case as_u64 (jfield coin ''confirmations'') of None \<Rightarrow> 0 | Some n \<Rightarrow> n)"

definition ask_output :: "deposit_env \<Rightarrow> string \<Rightarrow> u32 \<Rightarrow> (deposit_world, json) action" where
  "ask_output env txid vout = ask (AskOutput txid (ucast vout)) (\<lambda>h. d_output env h txid (ucast vout))"

text \<open>The recovery fee of 99 vbytes at the estimated rate, and the credit that remains.\<close>

definition recovery_rate :: "deposit_env \<Rightarrow> (deposit_world, u64) action" where
  "recovery_rate env =
     bind_action (ask AskFeeRate (d_estimate env)) (\<lambda>estimate.
     case jget estimate ''feerate'' of
       Some v \<Rightarrow> bind_action (lift_result (d_btc_amount env v)) (\<lambda>sats. ret (max (div_ceil sats 1000) 1))
     | None \<Rightarrow> if d_chain env = Regtest then ret 1 else throw (Failure ''Bitcoin fee estimate unavailable''))"

definition recovery_terms :: "string \<Rightarrow> string \<Rightarrow> u64 \<Rightarrow> u64 \<Rightarrow> (u64 \<times> u64) result" where
  "recovery_terms overflow small value rate =
     and_then (ok_or (checked_mul 99 rate) (Failure overflow)) (\<lambda>fee.
     and_then (ok_or (checked_sub value fee) (Failure small)) (\<lambda>credit.
     if credit \<ge> 330 then Inr (fee, credit) else Inl (Failure small)))"

text \<open>\<open>static_deposit_address\<close>: the one address the operators list for the session wallet.\<close>

definition static_deposit_address :: "deposit_env \<Rightarrow> string \<Rightarrow> string \<Rightarrow> (deposit_world, static_address) action" where
  "static_deposit_address env owner text =
     bind_action (lift_result (ok_or (d_parse_key env owner) (Failure ''invalid owner key''))) (\<lambda>key.
     if \<not> d_private_pool env then throw (Failure ''private SSP operator endpoints are required'')
     else bind_action (ask (AskStaticAddress key text) (\<lambda>h. d_addresses env h key text)) (\<lambda>found.
       case found of
         [a] \<Rightarrow> if sa_address a = text then ret a
                else throw (Failure ''static deposit address does not belong to the session wallet'')
       | _ \<Rightarrow> throw (Failure ''static deposit address does not belong to the session wallet'')))"

text \<open>The script of an output and the address of that script.\<close>

definition output_address :: "deposit_env \<Rightarrow> string \<Rightarrow> json \<Rightarrow> (string \<times> string) result" where
  "output_address env missing coin =
     and_then (ok_or (as_str (jfield (jfield coin ''scriptPubKey'') ''hex'')) (Failure missing)) (\<lambda>hex.
     and_then (ok_or (d_script_hex env hex) (Failure ''invalid output script'')) (\<lambda>script.
     and_then (ok_or (d_script_address env script) (Failure ''unsupported static deposit script'')) (\<lambda>a.
     Inr (script, a))))"

definition deposit_quote_of ::
  "deposit_env \<Rightarrow> string \<Rightarrow> u32 \<Rightarrow> string \<Rightarrow> u64 \<Rightarrow> u64 \<Rightarrow> string \<Rightarrow> int \<Rightarrow> string \<Rightarrow> static_address \<Rightarrow> u64 \<Rightarrow> string \<Rightarrow> deposit_quote" where
  "deposit_quote_of env txid vout owner credit fee signature expires text keys value script =
     \<lparr>dq_txid = txid, dq_vout = vout, dq_owner = owner, dq_network = d_network env, dq_credit = credit, dq_fee = fee,
      dq_signature = signature, dq_expires = expires, dq_address = text, dq_signing_key = sa_signing_key keys,
      dq_verifying_key = sa_verifying_key keys, dq_prev_output = d_output_hex env value script\<rparr>"

section \<open>The store of confirmed deposits\<close>

definition deposit_claim_at :: "string \<Rightarrow> u32 \<Rightarrow> (db, deposit_claim option) action" where
  "deposit_claim_at txid vout =
     bind_action (query_optional deposit_claims_t (\<lambda>r. dcr_txid r = txid \<and> dcr_vout r = vout)) (\<lambda>row. ret (map_option dcr_data row))"

definition deposit_claim_of :: "string \<Rightarrow> u32 \<Rightarrow> string \<Rightarrow> (db, deposit_claim option) action" where
  "deposit_claim_of txid vout owner =
     bind_action (query_optional deposit_claims_t (\<lambda>r. dcr_txid r = txid \<and> dcr_vout r = vout \<and> dcr_owner r = owner))
       (\<lambda>row. ret (map_option dcr_data row))"

definition live_deposit_quote :: "string \<Rightarrow> u32 \<Rightarrow> string \<Rightarrow> int \<Rightarrow> deposit_quote_row \<Rightarrow> bool" where
  "live_deposit_quote txid vout owner now r \<longleftrightarrow> dqr_txid r = txid \<and> dqr_vout r = vout \<and> dqr_owner r = owner \<and> dqr_expires r > now"

text \<open>At most 100 live quotes of a wallet; a new quote replaces the one of the same output.\<close>

definition save_deposit_quote :: "int \<Rightarrow> deposit_quote \<Rightarrow> (db, unit) action" where
  "save_deposit_quote now q = transaction
     (then_action (delete_where deposit_quotes_t (\<lambda>r. dqr_expires r \<le> now))
     (bind_action (query_count deposit_quotes_t (\<lambda>r. dqr_owner r = dq_owner q)) (\<lambda>count.
      if count \<ge> 100 then throw (Failure ''static deposit quote limit reached'')
      else void (upsert deposit_quotes_t (\<lambda>r. dqr_txid r = dq_txid q \<and> dqr_vout r = dq_vout q) (\<lambda>_. True)
        (\<lambda>r. r\<lparr>dqr_owner := dq_owner q, dqr_expires := dq_expires q, dqr_data := q\<rparr>)
        \<lparr>dqr_txid = dq_txid q, dqr_vout = dq_vout q, dqr_owner = dq_owner q, dqr_expires = dq_expires q, dqr_data = q\<rparr>))))"

text \<open>The trigger \<open>fixed_deposit_reservation\<close>; SQL adds as integers.\<close>

definition quoted_value :: "deposit_quote \<Rightarrow> int" where
  "quoted_value q = uint (dq_credit q) + uint (dq_fee q)"

definition reserved_for_instant :: "string \<Rightarrow> u32 \<Rightarrow> deposit_quote \<Rightarrow> db \<Rightarrow> bool" where
  "reserved_for_instant txid vout q d \<longleftrightarrow> list_ex (\<lambda>i. icr_txid i = txid \<and> icr_vout i = vout \<or>
     icr_address i = dq_address q \<and> uint (icr_value i) = quoted_value q \<and> instant_pending i) (instant_claims d)"

definition deposit_claim_row_of :: "string \<Rightarrow> u32 \<Rightarrow> string \<Rightarrow> deposit_claim \<Rightarrow> deposit_claim_row" where
  "deposit_claim_row_of txid vout owner c = \<lparr>dcr_id = dc_id c, dcr_txid = txid, dcr_vout = vout, dcr_owner = owner,
     dcr_status = dc_status c, dcr_data = c, dcr_last_error = None\<rparr>"

definition static_payload :: "deposit_env \<Rightarrow> string \<Rightarrow> u32 \<Rightarrow> deposit_claim \<Rightarrow> json" where
  "static_payload env txid vout c = (let q = dc_quote c in JObj [(''network'', JStr (d_network env)),
     (''transaction_id'', JStr txid), (''output_index'', JInt (uint vout)), (''credit_amount_sats'', juint (dq_credit q)),
     (''deposit_amount_sats'', juint (dq_credit q + dq_fee q)), (''max_fee_sats'', juint (dq_fee q)),
     (''status'', JStr ''IN_PROGRESS''), (''phase'', JStr (dc_phase c)), (''transfer_spark_id'', JStr (dc_transfer_id c))])"

definition insert_deposit_claim :: "deposit_env \<Rightarrow> string \<Rightarrow> u32 \<Rightarrow> string \<Rightarrow> string \<Rightarrow> deposit_claim \<Rightarrow> (db, unit) action" where
  "insert_deposit_claim env txid vout owner created c = transaction
     (then_action (insert_into ''deposit_claims'' deposit_claims_t deposit_claim_clash
         (\<lambda>d. \<not> reserved_for_instant txid vout (dc_quote c) d) (deposit_claim_row_of txid vout owner c))
       (insert_request_row \<lparr>rq_id = dc_id c, rq_kind = ''CLAIM_STATIC_DEPOSIT'', rq_owner = owner, rq_created_at = created,
          rq_payload = static_payload env txid vout c, rq_idempotency_key = None\<rparr>))"

text \<open>\<open>INSERT INTO transfers .. ON CONFLICT(spark_id) DO NOTHING\<close>.\<close>

definition record_payout :: "string \<Rightarrow> string \<Rightarrow> string \<Rightarrow> string \<Rightarrow> (db, unit) action" where
  "record_payout spark_id request_id kind owner = insert_or_ignore transfers_t transfer_clash
     \<lparr>tr_spark_id = spark_id, tr_request_id = request_id, tr_kind = kind, tr_status = ''COMPLETED'', tr_owner = owner\<rparr>"

definition save_deposit :: "deposit_claim \<Rightarrow> (db, unit) action" where
  "save_deposit c = transaction
     (then_action (update_where deposit_claims_t (\<lambda>r. dcr_id r = dc_id c)
         (\<lambda>r. r\<lparr>dcr_status := dc_status c, dcr_data := c, dcr_last_error := None\<rparr>))
     (then_action (update_where requests_t (\<lambda>r. rq_id r = dc_id c)
         (\<lambda>r. r\<lparr>rq_payload := json_set ''phase'' (JStr (dc_phase c)) (json_set ''status'' (JStr (dc_status c)) (rq_payload r))\<rparr>))
       (if dc_signed_spend c \<noteq> None
        then record_payout (dc_transfer_id c) (dc_id c) ''CLAIM_STATIC_DEPOSIT'' (dq_owner (dc_quote c)) else ret ())))"

definition pending_deposits :: "(db, deposit_claim list) action" where
  "pending_deposits = bind_action (select_where deposit_claims_t (\<lambda>r. dc_phase (dcr_data r) \<noteq> ''SPEND_TX_CONFIRMED''))
     (\<lambda>rs. ret (map dcr_data (take 100 rs)))"

definition note_deposit_error :: "string \<Rightarrow> string \<Rightarrow> (db, unit) action" where
  "note_deposit_error i message =
     void (update_where deposit_claims_t (\<lambda>r. dcr_id r = i) (\<lambda>r. r\<lparr>dcr_last_error := Some message\<rparr>))"

section \<open>Authorization by the wallet\<close>

definition text_bytes :: "string \<Rightarrow> 8 word list" where
  "text_bytes = map (\<lambda>c. word_of_nat (of_char c))"

definition le_bytes :: "nat \<Rightarrow> 'a :: len word \<Rightarrow> 8 word list" where
  "le_bytes n w = map (\<lambda>i. ucast (drop_bit (8 * i) w)) [0..<n]"

definition be_bytes :: "nat \<Rightarrow> 'a :: len word \<Rightarrow> 8 word list" where
  "be_bytes n w = rev (le_bytes n w)"

text \<open>The statement a wallet signs to claim a confirmed deposit; the network's text and the
  code of the request type Fixed are the SDK's.\<close>

definition claim_statement :: "deposit_env \<Rightarrow> deposit_quote \<Rightarrow> 8 word list \<Rightarrow> 8 word list" where
  "claim_statement env q signature = text_bytes ''claim_static_deposit'' @ text_bytes (d_spark_network env) @
     text_bytes (dq_txid q) @ le_bytes 4 (dq_vout q) @ [d_fixed_type env] @ le_bytes 8 (dq_credit q) @ signature"

definition validate_static_authorization :: "deposit_env \<Rightarrow> deposit_quote \<Rightarrow> string \<Rightarrow> string \<Rightarrow> unit result" where
  "validate_static_authorization env q encrypted signature =
     and_then (ok_or (d_hex env encrypted) (Failure ''invalid encrypted deposit key'')) (\<lambda>ciphertext.
     if length ciphertext \<noteq> 129 then Inl (Failure ''invalid encrypted deposit key length'')
     else and_then (ok_or (d_decrypt env ciphertext) (Failure ''cannot decrypt static deposit key'')) (\<lambda>key.
     and_then (ok_or (d_public_key env key) (Failure ''invalid static deposit key'')) (\<lambda>public.
     if public \<noteq> dq_signing_key q then Inl (Failure ''static deposit key does not match the address'')
     else and_then (ok_or (d_hex env (dq_signature q)) (Failure ''invalid quote signature'')) (\<lambda>quoted.
     and_then (ok_or (d_hex env signature) (Failure ''invalid user signature'')) (\<lambda>bytes.
     and_then (ok_or (d_der env bytes) (Failure ''invalid DER user signature'')) (\<lambda>sig.
     and_then (ok_or (d_parse_key env (dq_owner q)) (Failure ''invalid static deposit owner'')) (\<lambda>owner.
     guard (d_verify env (d_sha256 env (claim_statement env q quoted)) sig owner)
       ''invalid static deposit authorization'')))))))"

text \<open>Spark's tagged hash: every value is prefixed with its length.\<close>

definition tagged :: "8 word list \<Rightarrow> 8 word list" where
  "tagged bytes = be_bytes 8 (word_of_nat (length bytes) :: u64) @ bytes"

definition lowercase :: "string \<Rightarrow> string" where
  "lowercase = map (\<lambda>c. if CHR ''A'' \<le> c \<and> c \<le> CHR ''Z'' then char_of (of_char c + (32 :: nat)) else c)"

definition instant_statement :: "deposit_quote \<Rightarrow> 8 word list \<Rightarrow> 8 word list" where
  "instant_statement q signature = concat (map tagged
     [text_bytes (lowercase (dq_network q)), be_bytes 8 (3 :: u64), be_bytes 8 (dq_credit q), be_bytes 8 (0 :: u64),
      text_bytes (dq_address q), be_bytes 8 (dq_credit q + dq_fee q), signature])"

definition authorization_digest :: "deposit_env \<Rightarrow> deposit_quote \<Rightarrow> 8 word list result" where
  "authorization_digest env q =
     (let tag = d_sha256 env (tagged (text_bytes ''spark'') @ tagged (text_bytes ''claim_instant_static_deposit'')) in
      and_then (ok_or (d_hex env (dq_signature q)) (Failure ''invalid quote signature'')) (\<lambda>signature.
        Inr (d_sha256 env (tag @ tag @ instant_statement q signature))))"

definition decode_instant_deposit_key :: "deposit_env \<Rightarrow> string option \<Rightarrow> string option \<Rightarrow> 8 word list result" where
  "decode_instant_deposit_key env raw encrypted = (case (raw, encrypted) of
     (Some text, None) \<Rightarrow> if length text = 64 then ok_or (d_hex env text) (Failure ''invalid deposit key'')
       else Inl (Failure ''exactly one valid deposit key share required'')
   | (None, Some text) \<Rightarrow> if length text = 258
       then and_then (ok_or (d_hex env text) (Failure ''invalid encrypted deposit key'')) (\<lambda>ciphertext.
         ok_or (d_decrypt env ciphertext) (Failure ''cannot decrypt instant deposit key''))
       else Inl (Failure ''exactly one valid deposit key share required'')
   | _ \<Rightarrow> Inl (Failure ''exactly one valid deposit key share required''))"

definition instant_authorization :: "deposit_env \<Rightarrow> deposit_quote \<Rightarrow> string option \<Rightarrow> string option \<Rightarrow> string \<Rightarrow> string result" where
  "instant_authorization env q secret encrypted signature =
     and_then (decode_instant_deposit_key env secret encrypted) (\<lambda>key.
     and_then (ok_or (d_public_key env key) (Failure ''invalid deposit key'')) (\<lambda>public.
     if public \<noteq> dq_signing_key q then Inl (Failure ''deposit key does not match the quoted address'')
     else and_then (authorization_digest env q) (\<lambda>digest.
     and_then (ok_or (d_hex env signature) (Failure ''invalid user signature'')) (\<lambda>bytes.
     and_then (case d_der env bytes of Some sig \<Rightarrow> Inr sig
         | None \<Rightarrow> ok_or (d_compact env bytes) (Failure ''invalid user signature'')) (\<lambda>sig.
     and_then (ok_or (d_parse_key env (dq_owner q)) (Failure ''invalid deposit owner'')) (\<lambda>owner.
     if \<not> d_verify env digest sig owner then Inl (Failure ''invalid instant deposit authorization'')
     else ok_or (d_encrypt env key) (Failure ''cannot encrypt deposit key'')))))))"

section \<open>The operator's side\<close>

text \<open>
  The plan of a claim: the prepared transfer of leaves worth exactly the credit, the recovery
  transaction to sign and a signing nonce. The SDK makes leaves of exactly the credit and selects
  them (\<open>SelectLeaves\<close>) and prepares their transfer (\<open>PrepareTransfer\<close>).
\<close>

definition assemble_plan ::
  "deposit_env \<Rightarrow> deposit_quote \<Rightarrow> string \<Rightarrow> string \<Rightarrow> tx \<Rightarrow> string \<Rightarrow> string \<times> 8 word list \<Rightarrow> static_plan result" where
  "assemble_plan env q encrypted signature spend transfer nonce =
     and_then (ok_or (d_hex env (dq_txid q)) (Failure ''invalid hex'')) (\<lambda>_.
     and_then (ok_or (d_hex env (dq_signature q)) (Failure ''invalid hex'')) (\<lambda>_.
     and_then (ok_or (d_hex env signature) (Failure ''invalid hex'')) (\<lambda>_.
     and_then (ok_or (d_hex env (dq_signing_key q)) (Failure ''invalid hex'')) (\<lambda>_.
     and_then (ok_or (d_hex env encrypted) (Failure ''invalid hex'')) (\<lambda>key.
     Inr \<lparr>pl_request = d_encode_request env
            \<lparr>sr_utxo = Some (dq_txid q, dq_vout q), sr_ssp_signature = dq_signature q, sr_user_signature = signature,
             sr_transfer = Some transfer,
             sr_job = Some \<lparr>sj_signing_key = dq_signing_key q, sj_raw_tx = d_encode_tx env spend, sj_nonce = Some (fst nonce)\<rparr>,
             sr_threshold = 3\<rparr>,
          pl_nonce_ciphertext = snd nonce, pl_encrypted_key = key, pl_prev_output = dq_prev_output q\<rparr>)))))"

definition prepare_static_claim ::
  "deposit_env \<Rightarrow> deposit_quote \<Rightarrow> string \<Rightarrow> string \<Rightarrow> string \<Rightarrow> tx \<Rightarrow> (deposit_world, static_plan) action" where
  "prepare_static_claim env q encrypted signature transfer_id spend =
     bind_action (ask (SelectLeaves (dq_credit q)) (\<lambda>h. d_leaves env h (dq_credit q))) (\<lambda>leaves.
     bind_action (lift_result (ok_or (d_parse_key env (dq_owner q)) (Failure ''invalid owner key''))) (\<lambda>owner.
     if \<not> d_parse_id env transfer_id then throw (Failure ''invalid transfer id'')
     else bind_action (ask (PrepareTransfer transfer_id leaves owner) (\<lambda>h. d_transfer env h transfer_id leaves owner)) (\<lambda>transfer.
     bind_action (ask AskNonce (d_nonce env)) (\<lambda>nonce.
       lift_result (assemble_plan env q encrypted signature spend transfer nonce)))))"

text \<open>The operators' answer must be about this claim, and their signature complete the recovery.\<close>

definition finish_spend ::
  "deposit_env \<Rightarrow> deposit_quote \<Rightarrow> string \<Rightarrow> static_plan \<Rightarrow> swap_request \<Rightarrow> signing_job \<Rightarrow> swap_response \<Rightarrow> string result" where
  "finish_spend env q transfer_id plan request job response =
     and_then (ok_or (so_transfer response) (Failure ''operator returned no static deposit transfer'')) (\<lambda>t.
     if ot_id t \<noteq> transfer_id \<or> ot_receiver t \<noteq> dq_owner q \<or> ot_sender t \<noteq> d_identity env
     then Inl (Failure ''operator returned a different deposit transfer'')
     else and_then (ok_or (so_result response) (Failure ''operator returned no deposit signing result'')) (\<lambda>signing.
     and_then (d_aggregate env request plan q signing) (\<lambda>witness.
     and_then (d_spend_valid env request plan witness) (\<lambda>_.
       ok_or (d_with_witness env (sj_raw_tx job) witness) (Failure ''deposit recovery has no input'')))))"

definition submit_static_claim ::
  "deposit_env \<Rightarrow> deposit_quote \<Rightarrow> string \<Rightarrow> static_plan \<Rightarrow> bool \<Rightarrow> (deposit_world, string) action" where
  "submit_static_claim env q transfer_id plan instant =
     bind_action (lift_result (ok_or (d_decode_request env (pl_request plan)) (Failure ''invalid request''))) (\<lambda>request.
     bind_action (lift_result (ok_or (sr_job request) (Failure ''deposit plan lacks signing job''))) (\<lambda>job.
     if \<not> d_private_pool env then throw (Failure ''private SSP operator endpoints required'')
     else bind_action (if instant then ask (RecoverDeposit (sr_utxo request) job transfer_id) (\<lambda>h. d_recover env h job transfer_id)
         else ask (SwapDeposit request) (\<lambda>h. d_swap env h request)) (\<lambda>response.
       lift_result (finish_spend env q transfer_id plan request job response))))"

definition submit_instant_reserve :: "deposit_env \<Rightarrow> deposit_quote \<Rightarrow> string \<Rightarrow> static_plan \<Rightarrow> (deposit_world, unit) action" where
  "submit_instant_reserve env q transfer_id plan =
     bind_action (lift_result (ok_or (d_decode_request env (pl_request plan)) (Failure ''invalid request''))) (\<lambda>request.
     if \<not> d_private_pool env then throw (Failure ''private SSP operator endpoints required'')
     else bind_action (ask (ReserveDeposit request (dq_address q) (dq_credit q + dq_fee q) (dq_credit q)) (\<lambda>h. d_reserve env h request)) (\<lambda>found.
       bind_action (lift_result (ok_or found (Failure ''operator returned no instant deposit transfer''))) (\<lambda>t.
       if ot_id t \<noteq> transfer_id \<or> ot_total t \<noteq> dq_credit q \<or> ot_sender t \<noteq> d_identity env \<or> ot_receiver t \<noteq> dq_owner q
       then throw (Failure ''operator returned a different instant deposit transfer'') else ret ())))"

definition observed_confirmations :: "deposit_env \<Rightarrow> string \<Rightarrow> (deposit_world, int) action" where
  "observed_confirmations env txid =
     handle (ask (AskWalletTx txid) (\<lambda>h. d_wallet_tx env h txid))
       (\<lambda>t. ret (case as_i64 (jfield t ''confirmations'') of None \<Rightarrow> 0 | Some n \<Rightarrow> n)) (\<lambda>_. ret 0)"

definition send_spend :: "deposit_env \<Rightarrow> string \<Rightarrow> (deposit_world, unit) action" where
  "send_spend env raw = ask (SendSpend raw) (\<lambda>h. d_send env h raw)"

section \<open>Confirmed deposits\<close>

definition confirmed_output :: "deposit_env \<Rightarrow> string \<Rightarrow> u32 \<Rightarrow> string \<Rightarrow> (deposit_world, json) action" where
  "confirmed_output env txid vout message =
     bind_action (ask_output env txid vout) (\<lambda>coin.
     if coin = JNull \<or> confirmations_of coin < 3 then throw (Failure message) else ret coin)"

definition new_static_quote ::
  "deposit_env \<Rightarrow> string \<Rightarrow> string \<Rightarrow> u32 \<Rightarrow> u64 \<Rightarrow> string \<Rightarrow> string \<Rightarrow> static_address \<Rightarrow> (deposit_world, deposit_quote) action" where
  "new_static_quote env owner txid vout value script text keys =
     bind_action (recovery_rate env) (\<lambda>rate.
     bind_action (lift_result (recovery_terms ''deposit fee overflow'' ''static deposit is too small after the recovery fee'' value rate)) (\<lambda>(fee, credit).
     bind_action (reading (\<lambda>h. d_now env h 0 + 300)) (\<lambda>expires.
     let signature = d_quote_signature env (JArr [JStr ''open-ssp-static-deposit-v1'', JStr (d_network env), JStr txid,
           JInt (uint vout), JStr owner, juint credit, JInt expires]);
         q = deposit_quote_of env txid vout owner credit fee signature expires text keys value script in
     then_action (bind_action (reading (\<lambda>h. d_now env h 1)) (\<lambda>now. on_db (save_deposit_quote now q))) (ret q))))"

definition quote_output :: "deposit_env \<Rightarrow> string \<Rightarrow> string \<Rightarrow> u32 \<Rightarrow> (deposit_world, deposit_quote) action" where
  "quote_output env owner txid vout =
     bind_action (confirmed_output env txid vout ''static deposit needs an unspent output with 3 confirmations'') (\<lambda>coin.
     bind_action (lift_result (d_btc_amount env (jfield coin ''value''))) (\<lambda>value.
     bind_action (lift_result (output_address env ''Bitcoin returned no output script'' coin)) (\<lambda>(script, text).
     bind_action (static_deposit_address env owner text) (\<lambda>keys.
     bind_action (reading (\<lambda>h. d_now env h 0)) (\<lambda>now.
     bind_action (on_db (query_optional deposit_quotes_t (live_deposit_quote txid vout owner now))) (\<lambda>old.
     case old of Some r \<Rightarrow> ret (dqr_data r) | None \<Rightarrow> new_static_quote env owner txid vout value script text keys))))))"

definition static_quote :: "deposit_env \<Rightarrow> string \<Rightarrow> json \<Rightarrow> (deposit_world, json) action" where
  "static_quote env owner input =
     then_action (lift_result (validate_network env input))
     (bind_action (lift_result (outpoint_of env input)) (\<lambda>(txid, vout).
      bind_action (on_db (deposit_claim_at txid vout)) (\<lambda>claimed.
      case claimed of
        Some c \<Rightarrow> if dq_owner (dc_quote c) \<noteq> owner then throw (Failure ''deposit belongs to another wallet'')
          else ret (static_quote_response (dc_quote c))
      | None \<Rightarrow> bind_action (quote_output env owner txid vout) (\<lambda>q. ret (static_quote_response q)))))"

definition sign_deposit :: "deposit_env \<Rightarrow> deposit_claim \<Rightarrow> (deposit_world, deposit_claim) action" where
  "sign_deposit env c =
     (if dc_signed_spend c \<noteq> None then ret c
      else bind_action (submit_static_claim env (dc_quote c) (dc_transfer_id c) (dc_plan c) False) (\<lambda>raw.
        let c' = c\<lparr>dc_signed_spend := Some raw, dc_phase := ''SPEND_TX_CREATED''\<rparr> in
        then_action (on_db (save_deposit c')) (ret c')))"

definition advance_deposit :: "deposit_env \<Rightarrow> deposit_claim \<Rightarrow> (deposit_world, unit) action" where
  "advance_deposit env c =
     (if dc_phase c = ''SPEND_TX_CONFIRMED'' then ret ()
      else bind_action (sign_deposit env c) (\<lambda>c.
        bind_action (lift_result (ok_or (dc_signed_spend c) (Failure ''deposit has no recovery transaction''))) (\<lambda>raw.
        bind_action (lift_result (ok_or (d_decode_tx env raw) (Failure ''invalid transaction''))) (\<lambda>spend.
        bind_action (observed_confirmations env (d_txid env spend)) (\<lambda>n.
        then_action (if n \<le> 0 then send_spend env raw else ret ())
          (on_db (save_deposit (c\<lparr>dc_status := ''SUCCEEDED'',
             dc_phase := if n > 0 then ''SPEND_TX_CONFIRMED'' else ''SPEND_TX_BROADCAST''\<rparr>))))))))"

definition change_address :: "deposit_env \<Rightarrow> (deposit_world, string) action" where
  "change_address env =
     bind_action (ask AskChangeAddress (d_change env)) (\<lambda>v.
     bind_action (lift_result (ok_or (as_str v) (Failure ''Bitcoin returned no recovery address''))) (\<lambda>text.
       lift_result (d_parse_address env text)))"

text \<open>A new claim: authorized, checked again on chain, planned, and stored before anything is
  submitted.\<close>

definition plan_deposit_claim :: "deposit_env \<Rightarrow> string \<Rightarrow> u32 \<Rightarrow> deposit_quote \<Rightarrow> json \<Rightarrow> (deposit_world, deposit_claim) action" where
  "plan_deposit_claim env txid vout q input =
     bind_action (lift_result (ok_or (as_str (jfield input ''encrypted_deposit_secret_key'')) (Failure ''encrypted_deposit_secret_key required''))) (\<lambda>encrypted.
     bind_action (lift_result (ok_or (as_str (jfield input ''signature'')) (Failure ''user signature required''))) (\<lambda>signature.
     then_action (lift_result (validate_static_authorization env q encrypted signature))
     (then_action (confirmed_output env txid vout ''deposit is spent or no longer confirmed'')
     (bind_action (change_address env) (\<lambda>destination.
      bind_action (reading (\<lambda>h. d_uuid env h 0)) (\<lambda>transfer_id.
      bind_action (prepare_static_claim env q encrypted signature transfer_id
          (recovery_transaction \<lparr>op_txid = txid, op_vout = vout\<rparr> (dq_credit q) destination)) (\<lambda>plan.
      reading (\<lambda>h. \<lparr>dc_id = d_uuid env h 1, dc_quote = q, dc_transfer_id = transfer_id, dc_plan = plan,
          dc_signed_spend = None, dc_status = ''IN_PROGRESS'', dc_phase = ''CREATED''\<rparr>))))))))"

definition new_deposit_claim :: "deposit_env \<Rightarrow> string \<Rightarrow> string \<Rightarrow> u32 \<Rightarrow> deposit_quote \<Rightarrow> json \<Rightarrow> (deposit_world, deposit_claim) action" where
  "new_deposit_claim env owner txid vout q input =
     bind_action (plan_deposit_claim env txid vout q input) (\<lambda>c.
     bind_action (reading (\<lambda>h. d_time env (d_now env h 0))) (\<lambda>created.
     then_action (on_db (insert_deposit_claim env txid vout owner created c)) (ret c)))"

definition static_claim :: "deposit_env \<Rightarrow> string \<Rightarrow> json \<Rightarrow> (deposit_world, string) action" where
  "static_claim env owner input =
     then_action (lift_result (validate_network env input))
     (bind_action (lift_result (outpoint_of env input)) (\<lambda>(txid, vout).
      bind_action (on_db (deposit_claim_of txid vout owner)) (\<lambda>existing.
      case existing of
        Some c \<Rightarrow> if as_str (jfield input ''quote_signature'') \<noteq> Some (dq_signature (dc_quote c))
          then throw (Failure ''claim quote signature mismatch'')
          else then_action (advance_deposit env c) (ret (dc_transfer_id c))
      | None \<Rightarrow>
        bind_action (reading (\<lambda>h. d_now env h 0)) (\<lambda>now.
        bind_action (on_db (query_row deposit_quotes_t (live_deposit_quote txid vout owner now))) (\<lambda>row.
        let q = dqr_data row in
        if as_str (jfield input ''quote_signature'') \<noteq> Some (dq_signature q) \<or>
           as_u64 (jfield input ''credit_amount_sats'') \<noteq> Some (dq_credit q) \<or>
           as_str (jfield input ''request_type'') \<noteq> Some ''FIXED_AMOUNT''
        then throw (Failure ''static claim does not match its fixed-amount quote'')
        else bind_action (new_deposit_claim env owner txid vout q input) (\<lambda>c.
          then_action (advance_deposit env c) (ret (dc_transfer_id c))))))))"

definition drive_deposit :: "deposit_env \<Rightarrow> deposit_claim \<Rightarrow> (deposit_world, unit) action" where
  "drive_deposit env c = handle (advance_deposit env c) ret (\<lambda>e. ignore (on_db (note_deposit_error (dc_id c) (error_text e))))"

definition run_deposits :: "deposit_env \<Rightarrow> (deposit_world, unit) action" where
  "run_deposits env = handle (on_db pending_deposits) (\<lambda>cs. for_each cs (drive_deposit env)) (\<lambda>_. ret ())"

end
