(* ===== verification/Instant_Deposits.thy ===== *)
theory Instant_Deposits
  imports Deposits
begin

text \<open>
  Instant deposits, src/src/instant_deposits.rs: Spark credit is advanced on an unconfirmed output
  and the output is recovered after it confirms. The credit outstanding is bounded; a replacement
  of the output is found by scanning a bounded window of blocks at a time.
\<close>

section \<open>Responses and exposure\<close>

definition amount_json :: "u64 \<Rightarrow> json" where
  "amount_json n = JObj [(''__typename'', JStr ''CurrencyAmount''), (''original_value'', juint n),
     (''original_unit'', JStr ''SATOSHI''), (''preferred_currency_unit'', JStr ''SATOSHI''),
     (''preferred_currency_value_rounded'', juint n)]"

definition instant_quote_response :: "deposit_env \<Rightarrow> instant_quote \<Rightarrow> instant_claim option \<Rightarrow> json" where
  "instant_quote_response env q claim = (let p = iq_deposit q in
     JObj [(''__typename'', JStr ''CreateInstantStaticDepositQuoteOutput''),
       (''quote'', JObj [(''__typename'', JStr ''StaticDepositQuote''), (''id'', JStr (iq_id q)), (''network'', JStr (dq_network p)),
          (''transaction_id'', JStr (dq_txid p)), (''output_index'', JInt (uint (dq_vout p))),
          (''deposit_amount'', amount_json (dq_credit p + dq_fee p)), (''credit_amount'', amount_json (dq_credit p)),
          (''quote_signature'', JStr (dq_signature p)), (''expires_at'', JStr (d_time env (dq_expires p)))]),
       (''fulfillment_plans'', JArr [JObj [(''__typename'', JStr ''StaticDepositPlan''), (''id'', JStr (iq_id q)),
          (''amount'', amount_json (dq_credit p)), (''confirmations'', JInt 0),
          (''status'', JStr (case claim of None \<Rightarrow> ''CREATED''
             | Some r \<Rightarrow> if ic_phase r = ''CREATED'' then ''CREATED'' else ''COMPLETED'')),
          (''transfer_spark_id'', case claim of Some r \<Rightarrow> if ic_phase r \<noteq> ''CREATED'' then JStr (ic_transfer_id r) else JNull
             | None \<Rightarrow> JNull)]])])"

definition check_exposure :: "u64 \<Rightarrow> u64 \<Rightarrow> u64 \<Rightarrow> u64 \<Rightarrow> u64 \<Rightarrow> unit result" where
  "check_exposure value credit outstanding max_deposit limit =
     (if limit = 0 \<or> max_deposit = 0 then Inl (Failure ''instant deposits are disabled'')
      else if value > max_deposit then Inl (Failure ''instant deposit exceeds the per-deposit limit'')
      else case checked_add outstanding credit of
        Some total_credit \<Rightarrow> if total_credit > limit then Inl (Failure ''instant deposit exposure limit reached'') else Inr ()
      | None \<Rightarrow> Inl (Failure ''instant deposit exposure limit reached''))"

definition within_exposure :: "deposit_env \<Rightarrow> u64 \<Rightarrow> u64 \<Rightarrow> u64 \<Rightarrow> unit result" where
  "within_exposure env value credit outstanding = check_exposure value credit outstanding (d_max_deposit env) (d_limit env)"

definition instant_payload :: "instant_claim \<Rightarrow> json" where
  "instant_payload r = (let q = iq_deposit (ic_quote r) in
     JObj [(''network'', JStr (dq_network q)), (''instant'', JBool True), (''transaction_id'', JStr (dq_txid q)),
       (''output_index'', JInt (uint (dq_vout q))), (''credit_amount_sats'', juint (dq_credit q)),
       (''deposit_amount_sats'', juint (dq_credit q + dq_fee q)), (''max_fee_sats'', juint (dq_fee q)),
       (''status'', JStr (if ic_phase r = ''CREATED'' then ''IN_PROGRESS'' else ''SUCCEEDED'')),
       (''phase'', JStr (if ic_phase r = ''RECOVERY_PREPARED'' then ''TRANSFER_COMPLETED'' else ic_phase r)),
       (''transfer_spark_id'', if ic_phase r = ''CREATED'' then JNull else JStr (ic_transfer_id r))])"

section \<open>The store\<close>

text \<open>\<open>SELECT COALESCE(sum(credit),0)\<close>: SQLite's sum fails above \<open>i64::MAX\<close>.\<close>

definition outstanding_credit :: "db \<Rightarrow> int" where
  "outstanding_credit d = (\<Sum>r\<leftarrow>filter instant_pending (instant_claims d). uint (icr_credit r))"

definition instant_outstanding :: "(db, u64) action" where
  "instant_outstanding = (\<lambda>d. (if outstanding_credit d > i64_max then Inl (Failure ''integer overflow'')
     else Inr (word_of_int (outstanding_credit d)), d))"

definition instant_claim_of :: "(instant_claim_row \<Rightarrow> bool) \<Rightarrow> (db, instant_claim option) action" where
  "instant_claim_of p = bind_action (query_optional instant_claims_t p) (\<lambda>row. ret (map_option icr_data row))"

definition quote_claimed :: "db \<Rightarrow> string \<Rightarrow> bool" where
  "quote_claimed d i \<longleftrightarrow> list_ex (\<lambda>c. icr_quote_id c = i) (instant_claims d)"

definition save_instant_quote :: "int \<Rightarrow> instant_quote \<Rightarrow> (db, unit) action" where
  "save_instant_quote now q = (let p = iq_deposit q in transaction
     (then_action (\<lambda>d. delete_where instant_quotes_t (\<lambda>r. iqr_expires r \<le> now \<and> \<not> quote_claimed d (iqr_id r)) d)
     (bind_action (\<lambda>d. query_count instant_quotes_t (\<lambda>r. iqr_owner r = dq_owner p \<and> \<not> quote_claimed d (iqr_id r)) d) (\<lambda>count.
      if count \<ge> 100 then throw (Failure ''instant quote limit reached'')
      else insert_into ''instant_quotes'' instant_quotes_t instant_quote_clash (\<lambda>_. True)
        \<lparr>iqr_id = iq_id q, iqr_txid = dq_txid p, iqr_vout = dq_vout p, iqr_owner = dq_owner p, iqr_expires = dq_expires p,
         iqr_data = q\<rparr>))))"

text \<open>The row of a claim, and the trigger \<open>instant_deposit_reservation\<close>.\<close>

definition instant_row :: "string \<Rightarrow> instant_claim \<Rightarrow> instant_claim_row" where
  "instant_row owner r = (let q = iq_deposit (ic_quote r) in
     \<lparr>icr_id = ic_id r, icr_quote_id = iq_id (ic_quote r), icr_txid = dq_txid q, icr_vout = dq_vout q, icr_owner = owner,
      icr_address = dq_address q, icr_value = dq_credit q + dq_fee q, icr_credit = dq_credit q, icr_phase = ic_phase r,
      icr_data = r, icr_last_error = None\<rparr>)"

definition reserved_for_claim :: "instant_claim_row \<Rightarrow> db \<Rightarrow> bool" where
  "reserved_for_claim r d \<longleftrightarrow> list_ex (\<lambda>c. dcr_txid c = icr_txid r \<and> dcr_vout c = icr_vout r \<or>
     dq_address (dc_quote (dcr_data c)) = icr_address r \<and> quoted_value (dc_quote (dcr_data c)) = uint (icr_value r) \<and>
     dcr_status c \<noteq> ''SUCCEEDED'') (deposit_claims d)"

definition insert_instant_claim :: "deposit_env \<Rightarrow> string \<Rightarrow> string \<Rightarrow> instant_claim \<Rightarrow> (db, unit) action" where
  "insert_instant_claim env owner created r = (let q = iq_deposit (ic_quote r); row = instant_row owner r in transaction
     (bind_action instant_outstanding (\<lambda>exposure.
      then_action (lift_result (within_exposure env (dq_credit q + dq_fee q) (dq_credit q) exposure))
      (then_action (require (sql_u64 (icr_value row) \<and> sql_u64 (icr_credit row)) (Failure ''integer out of range''))
      (then_action (insert_into ''instant_claims'' instant_claims_t instant_claim_clash (\<lambda>d. \<not> reserved_for_claim row d) row)
        (insert_request_row \<lparr>rq_id = ic_id r, rq_kind = ''CLAIM_INSTANT_STATIC_DEPOSIT_V2'', rq_owner = owner,
           rq_created_at = created, rq_payload = instant_payload r, rq_idempotency_key = None\<rparr>))))))"

definition save_instant :: "instant_claim \<Rightarrow> (db, unit) action" where
  "save_instant r = transaction
     (then_action (update_where instant_claims_t (\<lambda>x. icr_id x = ic_id r)
         (\<lambda>x. x\<lparr>icr_phase := ic_phase r, icr_data := r, icr_last_error := None\<rparr>))
     (then_action (update_where requests_t (\<lambda>x. rq_id x = ic_id r) (\<lambda>x. x\<lparr>rq_payload := instant_payload r\<rparr>))
       (if ic_phase r \<noteq> ''CREATED''
        then record_payout (ic_transfer_id r) (ic_id r) ''CLAIM_INSTANT_STATIC_DEPOSIT'' (dq_owner (iq_deposit (ic_quote r)))
        else ret ())))"

definition note_instant_error :: "string \<Rightarrow> string \<Rightarrow> (db, unit) action" where
  "note_instant_error i message =
     void (update_where instant_claims_t (\<lambda>x. icr_id x = i) (\<lambda>x. x\<lparr>icr_last_error := Some message\<rparr>))"

section \<open>Quotes\<close>

text \<open>An unconfirmed output must spend confirmed inputs only.\<close>

definition no_unconfirmed_ancestors :: "deposit_env \<Rightarrow> string \<Rightarrow> json \<Rightarrow> (deposit_world, unit) action" where
  "no_unconfirmed_ancestors env txid coin =
     (if as_u64 (jfield coin ''confirmations'') = Some 0
      then bind_action (ask (AskMempool txid) (\<lambda>h. d_mempool env h txid)) (\<lambda>entry.
        if as_u64 (jfield entry ''ancestorcount'') \<noteq> Some 1 then throw (Failure ''instant deposit must spend confirmed inputs'')
        else ret ())
      else ret ())"

definition ask_height :: "deposit_env \<Rightarrow> (deposit_world, u64) action" where
  "ask_height env = bind_action (ask AskHeight (d_height env)) (\<lambda>v.
     lift_result (ok_or (as_u64 v) (Failure ''Bitcoin height unavailable'')))"

definition new_instant_quote ::
  "deposit_env \<Rightarrow> string \<Rightarrow> string \<Rightarrow> u32 \<Rightarrow> u64 \<Rightarrow> string \<Rightarrow> string \<Rightarrow> static_address \<Rightarrow> (deposit_world, instant_quote) action" where
  "new_instant_quote env owner txid vout value script text keys =
     bind_action (recovery_rate env) (\<lambda>rate.
     bind_action (lift_result (recovery_terms ''instant deposit fee overflow'' ''instant deposit is too small after the recovery fee'' value rate)) (\<lambda>(fee, credit).
     bind_action (on_db instant_outstanding) (\<lambda>outstanding.
     then_action (lift_result (within_exposure env value credit outstanding))
     (bind_action (ask_height env) (\<lambda>height.
      bind_action (reading (\<lambda>h. (d_uuid env h 0, d_now env h 0 + 300))) (\<lambda>(i, expires).
      let signature = d_quote_signature env (JArr [JStr ''open-ssp-instant-deposit-v1'', JStr i, JStr (d_network env), JStr owner,
            JStr txid, JInt (uint vout), juint value, juint credit, JInt expires]);
          q = \<lparr>iq_id = i, iq_deposit = deposit_quote_of env txid vout owner credit fee signature expires text keys value script,
               iq_height = height\<rparr> in
      then_action (bind_action (reading (\<lambda>h. d_now env h 1)) (\<lambda>now. on_db (save_instant_quote now q))) (ret q)))))))"

text \<open>The newest unexpired quote of the output.\<close>

definition live_instant_quote :: "string \<Rightarrow> u32 \<Rightarrow> string \<Rightarrow> int \<Rightarrow> (db, instant_quote option) action" where
  "live_instant_quote txid vout owner now =
     bind_action (select_where instant_quotes_t (\<lambda>r. iqr_txid r = txid \<and> iqr_vout r = vout \<and> iqr_owner r = owner \<and> iqr_expires r > now))
       (\<lambda>rs. ret (if rs = [] then None else Some (iqr_data (last rs))))"

definition quote_instant_output :: "deposit_env \<Rightarrow> string \<Rightarrow> string \<Rightarrow> u32 \<Rightarrow> (deposit_world, instant_quote) action" where
  "quote_instant_output env owner txid vout =
     then_action (lift_result (within_exposure env 0 0 0))
     (bind_action (ask_output env txid vout) (\<lambda>coin.
      if coin = JNull then throw (Failure ''instant deposit output is spent or unknown'')
      else bind_action (lift_result (d_btc_amount env (jfield coin ''value''))) (\<lambda>value.
       then_action (lift_result (within_exposure env value 0 0))
       (then_action (no_unconfirmed_ancestors env txid coin)
       (bind_action (lift_result (output_address env ''deposit has no script'' coin)) (\<lambda>(script, text).
        bind_action (static_deposit_address env owner text) (\<lambda>keys.
        bind_action (on_db (query_exists deposit_claims_t (\<lambda>r. dcr_txid r = txid \<and> dcr_vout r = vout))) (\<lambda>claimed.
        if claimed then throw (Failure ''deposit already has a confirmed claim'')
        else bind_action (reading (\<lambda>h. d_now env h 0)) (\<lambda>now.
         bind_action (on_db (live_instant_quote txid vout owner now)) (\<lambda>old.
         case old of Some q \<Rightarrow> ret q | None \<Rightarrow> new_instant_quote env owner txid vout value script text keys)))))))))) "

definition quote_instant :: "deposit_env \<Rightarrow> string \<Rightarrow> json \<Rightarrow> (deposit_world, json) action" where
  "quote_instant env owner input =
     then_action (lift_result (validate_network env input))
     (bind_action (lift_result (outpoint_of env input)) (\<lambda>(txid, vout).
      bind_action (on_db (instant_claim_of (\<lambda>r. icr_txid r = txid \<and> icr_vout r = vout \<and> icr_owner r = owner))) (\<lambda>existing.
      case existing of
        Some r \<Rightarrow> ret (instant_quote_response env (ic_quote r) (Some r))
      | None \<Rightarrow> bind_action (quote_instant_output env owner txid vout) (\<lambda>q. ret (instant_quote_response env q None)))))"

section \<open>Recovery\<close>

fun as_array :: "json \<Rightarrow> json list option" where
  "as_array (JArr xs) = Some xs"
| "as_array _ = None"

text \<open>\<open>confirmed_instant_outpoint\<close>: the quoted output once it confirms, or an unspent output of the
  same script and amount in the next blocks of the scan. A match is checked against the UTXO set.\<close>

definition matches_quote :: "deposit_env \<Rightarrow> deposit_quote \<Rightarrow> string \<Rightarrow> json \<Rightarrow> bool result" where
  "matches_quote env q script output =
     (if as_str (jfield (jfield output ''scriptPubKey'') ''hex'') \<noteq> Some script then Inr False
      else and_then (d_btc_amount env (jfield output ''value'')) (\<lambda>v. Inr (v = dq_credit q + dq_fee q)))"

fun scan_outputs :: "deposit_env \<Rightarrow> deposit_quote \<Rightarrow> string \<Rightarrow> json \<Rightarrow> json list \<Rightarrow> (deposit_world, outpoint option) action" where
  "scan_outputs env q script transaction_json [] = ret None"
| "scan_outputs env q script transaction_json (output # outputs) =
     bind_action (lift_result (matches_quote env q script output)) (\<lambda>m.
     if \<not> m then scan_outputs env q script transaction_json outputs
     else bind_action (lift_result (ok_or (as_str (jfield transaction_json ''txid'')) (Failure ''Bitcoin transaction has no ID''))) (\<lambda>txid.
       bind_action (lift_result (ok_or (as_u64 (jfield output ''n'')) (Failure ''Bitcoin output has no index''))) (\<lambda>vout.
       bind_action (ask (AskOutput txid vout) (\<lambda>h. d_output env h txid vout)) (\<lambda>unspent.
       if unspent \<noteq> JNull
       then lift_result (and_then (ok_or (d_parse_txid env txid) (Failure ''invalid replacement txid''))
         (\<lambda>i. Inr (Some \<lparr>op_txid = i, op_vout = ucast vout\<rparr>)))
       else scan_outputs env q script transaction_json outputs))))"

fun scan_transactions :: "deposit_env \<Rightarrow> deposit_quote \<Rightarrow> string \<Rightarrow> json list \<Rightarrow> (deposit_world, outpoint option) action" where
  "scan_transactions env q script [] = ret None"
| "scan_transactions env q script (t # ts) =
     bind_action (lift_result (ok_or (as_array (jfield t ''vout'')) (Failure ''Bitcoin transaction has no outputs''))) (\<lambda>outputs.
     bind_action (scan_outputs env q script t outputs) (\<lambda>found.
     case found of Some p \<Rightarrow> ret (Some p) | None \<Rightarrow> scan_transactions env q script ts))"

fun scan_blocks :: "deposit_env \<Rightarrow> deposit_quote \<Rightarrow> string \<Rightarrow> u64 list \<Rightarrow> (deposit_world, outpoint option) action" where
  "scan_blocks env q script [] = ret None"
| "scan_blocks env q script (height # heights) =
     bind_action (ask (AskBlockHash height) (\<lambda>h. d_block_hash env h height)) (\<lambda>hash.
     bind_action (ask (AskBlock hash) (\<lambda>h. d_block env h hash)) (\<lambda>block.
     bind_action (lift_result (ok_or (as_array (jfield block ''tx'')) (Failure ''Bitcoin block has no transactions''))) (\<lambda>ts.
     bind_action (scan_transactions env q script ts) (\<lambda>found.
     case found of Some p \<Rightarrow> ret (Some p) | None \<Rightarrow> scan_blocks env q script heights))))"

definition saturating_add :: "u64 \<Rightarrow> u64 \<Rightarrow> u64" where
  "saturating_add a b = (case checked_add a b of Some c \<Rightarrow> c | None \<Rightarrow> - 1)"

text \<open>The window \<open>start..=end\<close> of a scan, and where the next scan starts.\<close>

definition scan_window :: "u64 \<Rightarrow> u64 \<Rightarrow> u64 list" where
  "scan_window scan_height tip = (let start = min scan_height tip; last_height = min (saturating_add start 20) tip in
     map word_of_nat [unat start..<Suc (unat last_height)])"

definition next_scan :: "u64 \<Rightarrow> u64 \<Rightarrow> u64" where
  "next_scan scan_height tip = (let start = min scan_height tip; last_height = min (saturating_add start 20) tip in
     if last_height = tip then saturating_sub tip 6 else last_height + 1)"

definition scan_for_replacement :: "deposit_env \<Rightarrow> instant_claim \<Rightarrow> (deposit_world, outpoint option) action" where
  "scan_for_replacement env r = (let q = iq_deposit (ic_quote r) in
     bind_action (ask_height env) (\<lambda>tip.
     bind_action (lift_result (ok_or (d_output_script env (dq_prev_output q)) (Failure ''invalid output''))) (\<lambda>script.
     bind_action (scan_blocks env q script (scan_window (ic_scan_height r) tip)) (\<lambda>found.
     case found of
       Some p \<Rightarrow> ret (Some p)
     | None \<Rightarrow> then_action (on_db (save_instant (r\<lparr>ic_scan_height := next_scan (ic_scan_height r) tip\<rparr>))) (ret None)))))"

definition confirmed_instant_outpoint :: "deposit_env \<Rightarrow> instant_claim \<Rightarrow> (deposit_world, outpoint option) action" where
  "confirmed_instant_outpoint env r = (let q = iq_deposit (ic_quote r) in
     bind_action (ask_output env (dq_txid q) (dq_vout q)) (\<lambda>coin.
     if coin = JNull then scan_for_replacement env r
     else if confirmations_of coin > 0
     then lift_result (and_then (ok_or (d_parse_txid env (dq_txid q)) (Failure ''invalid txid''))
       (\<lambda>i. Inr (Some \<lparr>op_txid = i, op_vout = dq_vout q\<rparr>)))
     else ret None))"

text \<open>The plan is redirected to the output found, before anything is signed for it.\<close>

definition redirect_plan :: "deposit_env \<Rightarrow> static_plan \<Rightarrow> outpoint \<Rightarrow> static_plan result" where
  "redirect_plan env plan p =
     and_then (ok_or (d_decode_request env (pl_request plan)) (Failure ''invalid request'')) (\<lambda>request.
     and_then (ok_or (sr_job request) (Failure ''instant recovery has no signing job'')) (\<lambda>job.
     and_then (ok_or (d_decode_tx env (sj_raw_tx job)) (Failure ''invalid transaction'')) (\<lambda>spend.
     case tx_inputs spend of
       [] \<Rightarrow> Inl (Failure ''index out of bounds'')
     | i # rest \<Rightarrow>
       and_then (ok_or (sr_utxo request) (Failure ''instant recovery has no UTXO'')) (\<lambda>_.
       Inr (plan\<lparr>pl_request := d_encode_request env (request\<lparr>sr_utxo := Some (op_txid p, op_vout p),
         sr_job := Some (job\<lparr>sj_raw_tx := d_encode_tx env
           (spend\<lparr>tx_inputs := i\<lparr>ti_previous_output := p\<rparr> # rest\<rparr>)\<rparr>)\<rparr>)\<rparr>)))))"

definition reserve_step :: "deposit_env \<Rightarrow> instant_claim \<Rightarrow> (deposit_world, instant_claim) action" where
  "reserve_step env r =
     (if ic_phase r \<noteq> ''CREATED'' then ret r
      else then_action (submit_instant_reserve env (iq_deposit (ic_quote r)) (ic_transfer_id r) (ic_plan r))
       (let r' = r\<lparr>ic_phase := ''TRANSFER_COMPLETED''\<rparr> in then_action (on_db (save_instant r')) (ret r')))"

text \<open>\<open>None\<close>: nothing to recover yet.\<close>

definition freeze_step :: "deposit_env \<Rightarrow> instant_claim \<Rightarrow> (deposit_world, instant_claim option) action" where
  "freeze_step env r =
     (if ic_phase r \<noteq> ''TRANSFER_COMPLETED'' then ret (Some r)
      else bind_action (confirmed_instant_outpoint env r) (\<lambda>found.
        case found of
          None \<Rightarrow> ret None
        | Some p \<Rightarrow> bind_action (lift_result (redirect_plan env (ic_plan r) p)) (\<lambda>plan.
            let r' = r\<lparr>ic_plan := plan, ic_phase := ''RECOVERY_PREPARED''\<rparr> in
            then_action (on_db (save_instant r')) (ret (Some r')))))"

definition sign_step :: "deposit_env \<Rightarrow> instant_claim \<Rightarrow> (deposit_world, instant_claim) action" where
  "sign_step env r =
     (if ic_signed_spend r \<noteq> None then ret r
      else bind_action (submit_static_claim env (iq_deposit (ic_quote r)) (ic_transfer_id r) (ic_plan r) True) (\<lambda>raw.
        let r' = r\<lparr>ic_signed_spend := Some raw, ic_phase := ''SPEND_TX_CREATED''\<rparr> in
        then_action (on_db (save_instant r')) (ret r')))"

definition broadcast_step :: "deposit_env \<Rightarrow> instant_claim \<Rightarrow> (deposit_world, unit) action" where
  "broadcast_step env r =
     bind_action (lift_result (ok_or (ic_signed_spend r) (Failure ''instant recovery has no signed transaction''))) (\<lambda>raw.
     bind_action (lift_result (ok_or (d_decode_tx env raw) (Failure ''invalid transaction''))) (\<lambda>spend.
     bind_action (observed_confirmations env (d_txid env spend)) (\<lambda>n.
     then_action (if n \<le> 0 then send_spend env raw else ret ())
       (on_db (save_instant (r\<lparr>ic_phase := if n \<ge> 3 then ''SPEND_TX_CONFIRMED'' else ''SPEND_TX_BROADCAST''\<rparr>))))))"

definition advance_instant :: "deposit_env \<Rightarrow> instant_claim \<Rightarrow> (deposit_world, unit) action" where
  "advance_instant env r =
     (if ic_phase r = ''SPEND_TX_CONFIRMED'' then ret ()
      else bind_action (reserve_step env r) (\<lambda>r1.
        bind_action (freeze_step env r1) (\<lambda>found.
        case found of None \<Rightarrow> ret () | Some r2 \<Rightarrow> bind_action (sign_step env r2) (broadcast_step env))))"

section \<open>Claims\<close>

text \<open>The quoted output itself must still be there, unchanged, before the first advance.\<close>

definition recheck_output :: "deposit_env \<Rightarrow> deposit_quote \<Rightarrow> (deposit_world, unit) action" where
  "recheck_output env q =
     bind_action (ask_output env (dq_txid q) (dq_vout q)) (\<lambda>coin.
     bind_action (lift_result (ok_or (d_output_script env (dq_prev_output q)) (Failure ''invalid output''))) (\<lambda>script.
     bind_action (if coin = JNull then ret False
        else bind_action (lift_result (d_btc_amount env (jfield coin ''value''))) (\<lambda>v.
          ret (v = dq_credit q + dq_fee q \<and> as_str (jfield (jfield coin ''scriptPubKey'') ''hex'') = Some script))) (\<lambda>unchanged.
     if \<not> unchanged then throw (Failure ''quoted deposit output is spent or changed; request a new quote'')
     else no_unconfirmed_ancestors env (dq_txid q) coin)))"

definition claim_busy :: "string \<Rightarrow> deposit_quote \<Rightarrow> (db, bool) action" where
  "claim_busy owner q = (\<lambda>d. (Inr (
     list_ex (\<lambda>r. (icr_owner r = owner \<or> icr_address r = dq_address q \<and> icr_value r = dq_credit q + dq_fee q) \<and> instant_pending r) (instant_claims d) \<or>
     list_ex (\<lambda>r. dcr_txid r = dq_txid q \<and> dcr_vout r = dq_vout q) (deposit_claims d)), d))"

text \<open>The claim before it is stored: within the limits, authorized, rechecked, and planned.\<close>

definition plan_instant_claim :: "deposit_env \<Rightarrow> instant_quote \<Rightarrow> string \<Rightarrow> string \<Rightarrow> (deposit_world, instant_claim) action" where
  "plan_instant_claim env quote encrypted signature = (let q = iq_deposit quote in
     bind_action (change_address env) (\<lambda>destination.
     bind_action (lift_result (ok_or (d_parse_txid env (dq_txid q)) (Failure ''invalid txid''))) (\<lambda>txid.
     bind_action (reading (\<lambda>h. d_uuid env h 0)) (\<lambda>transfer_id.
     bind_action (prepare_static_claim env q encrypted signature transfer_id
         (recovery_transaction \<lparr>op_txid = txid, op_vout = dq_vout q\<rparr> (dq_credit q) destination)) (\<lambda>plan.
     reading (\<lambda>h. \<lparr>ic_id = d_uuid env h 1, ic_quote = quote, ic_transfer_id = transfer_id, ic_plan = plan,
       ic_phase = ''CREATED'', ic_signed_spend = None, ic_scan_height = saturating_sub (iq_height quote) 6\<rparr>))))))"

definition checked_instant_claim :: "deposit_env \<Rightarrow> string \<Rightarrow> instant_quote \<Rightarrow> json \<Rightarrow> (deposit_world, instant_claim) action" where
  "checked_instant_claim env owner quote input = (let q = iq_deposit quote in
     bind_action (on_db instant_outstanding) (\<lambda>outstanding.
     then_action (lift_result (within_exposure env (dq_credit q + dq_fee q) (dq_credit q) outstanding))
     (bind_action (lift_result (ok_or (as_str (jfield input ''signature'')) (Failure ''instant deposit signature required''))) (\<lambda>signature.
      bind_action (lift_result (instant_authorization env q (as_str (jfield input ''static_deposit_address_private_key_share''))
          (as_str (jfield input ''encrypted_static_deposit_address_private_key_share'')) signature)) (\<lambda>encrypted.
      then_action (recheck_output env q)
      (bind_action (on_db (claim_busy owner q)) (\<lambda>busy.
       if busy then throw (Failure ''wallet or deposit already has a pending claim'')
       else plan_instant_claim env quote encrypted signature)))))))"

definition new_instant_claim :: "deposit_env \<Rightarrow> string \<Rightarrow> instant_quote \<Rightarrow> json \<Rightarrow> (deposit_world, instant_claim) action" where
  "new_instant_claim env owner quote input =
     bind_action (checked_instant_claim env owner quote input) (\<lambda>r.
     bind_action (reading (\<lambda>h. d_time env (d_now env h 0))) (\<lambda>created.
     then_action (on_db (insert_instant_claim env owner created r)) (ret r)))"

definition claim_response :: "string \<Rightarrow> json" where
  "claim_response i = JObj [(''__typename'', JStr ''CreateClaimInstantStaticDepositOutput''), (''claim_id'', JStr i)]"

definition instant_claim_request :: "deposit_env \<Rightarrow> string \<Rightarrow> json \<Rightarrow> (deposit_world, json) action" where
  "instant_claim_request env owner input =
     bind_action (lift_result (ok_or (as_str (jfield input ''static_deposit_quote_id'')) (Failure ''static_deposit_quote_id required''))) (\<lambda>quote_id.
     bind_action (on_db (instant_claim_of (\<lambda>r. icr_quote_id r = quote_id \<and> icr_owner r = owner))) (\<lambda>existing.
     case existing of
       Some r \<Rightarrow> then_action (advance_instant env r) (ret (claim_response (ic_id r)))
     | None \<Rightarrow>
       bind_action (reading (\<lambda>h. d_now env h 0)) (\<lambda>now.
       bind_action (on_db (query_row instant_quotes_t (\<lambda>r. iqr_id r = quote_id \<and> iqr_owner r = owner \<and> iqr_expires r > now))) (\<lambda>row.
       bind_action (new_instant_claim env owner (iqr_data row) input) (\<lambda>r.
       then_action (advance_instant env r) (ret (claim_response (ic_id r))))))))"

section \<open>The worker\<close>

text \<open>Each claim of the batch is read again under the lock; \<open>picked\<close> is the batch, 20 random
  pending claims.\<close>

definition drive_instant :: "deposit_env \<Rightarrow> string \<Rightarrow> (deposit_world, unit) action" where
  "drive_instant env i =
     handle (on_db (query_row instant_claims_t (\<lambda>r. icr_id r = i)))
       (\<lambda>row. let r = icr_data row in
         handle (advance_instant env r) ret (\<lambda>e. ignore (on_db (note_instant_error (ic_id r) (error_text e)))))
       (\<lambda>_. ret ())"

definition pick_instant :: "(instant_claim_row list \<Rightarrow> instant_claim_row list) \<Rightarrow> (db, instant_claim list) action" where
  "pick_instant shuffle = bind_action (select_where instant_claims_t instant_pending) (\<lambda>rs. ret (map icr_data (take 20 (shuffle rs))))"

definition run_instant :: "deposit_env \<Rightarrow> (instant_claim_row list \<Rightarrow> instant_claim_row list) \<Rightarrow> (deposit_world, unit) action" where
  "run_instant env shuffle = handle (on_db (pick_instant shuffle)) (\<lambda>rs. for_each rs (\<lambda>r. drive_instant env (ic_id r))) (\<lambda>_. ret ())"

end
