(* ===== verification/Deposit_Safety.thy ===== *)
theory Deposit_Safety
  imports Instant_Deposits
begin

text \<open>
  What no run of the two deposit services can do. The invariant is one of the lists of stored
  claims and the log of calls: every claim is for an output the service quoted, checked on chain and
  the wallet authorized; a payout is recorded only with the operators' transfer to the owner behind
  it; the instant credit outstanding is within the limit; an output is claimed once, by one of the
  services; and every call that moves money or signs is the one a stored claim prescribes, made when
  the log held all the evidence for that claim.
\<close>

section \<open>What was quoted, checked and authorized\<close>

definition quoted_terms :: "deposit_env \<Rightarrow> deposit_quote \<Rightarrow> bool" where
  "quoted_terms env q \<longleftrightarrow> dq_network q = d_network env \<and> 330 \<le> dq_credit q \<and>
     (\<exists>value script. unat value = unat (dq_credit q) + unat (dq_fee q) \<and>
        dq_prev_output q = d_output_hex env value script \<and> d_script_address env script = Some (dq_address q)) \<and>
     (\<exists>h key a. d_parse_key env (dq_owner q) = Some key \<and> d_addresses env h key (dq_address q) = Inr [a] \<and>
        sa_address a = dq_address q \<and> sa_signing_key a = dq_signing_key q \<and> sa_verifying_key a = dq_verifying_key q)"

definition fixed_terms :: "deposit_env \<Rightarrow> deposit_quote \<Rightarrow> bool" where
  "fixed_terms env q \<longleftrightarrow> quoted_terms env q \<and> dq_signature q = d_quote_signature env
     (JArr [JStr ''open-ssp-static-deposit-v1'', JStr (dq_network q), JStr (dq_txid q), JInt (uint (dq_vout q)),
        JStr (dq_owner q), juint (dq_credit q), JInt (dq_expires q)])"

definition instant_terms :: "deposit_env \<Rightarrow> instant_quote \<Rightarrow> bool" where
  "instant_terms env i \<longleftrightarrow> (let q = iq_deposit i in quoted_terms env q \<and> dq_signature q = d_quote_signature env
     (JArr [JStr ''open-ssp-instant-deposit-v1'', JStr (iq_id i), JStr (dq_network q), JStr (dq_owner q), JStr (dq_txid q),
        JInt (uint (dq_vout q)), juint (dq_credit q + dq_fee q), juint (dq_credit q), JInt (dq_expires q)]))"

definition quotes_ok :: "deposit_env \<Rightarrow> db \<Rightarrow> bool" where
  "quotes_ok env d \<longleftrightarrow>
     (\<forall>r\<in>set (deposit_quotes d). dqr_txid r = dq_txid (dqr_data r) \<and> dqr_vout r = dq_vout (dqr_data r) \<and>
        dqr_owner r = dq_owner (dqr_data r) \<and> fixed_terms env (dqr_data r)) \<and>
     (\<forall>r\<in>set (instant_quotes d). iqr_id r = iq_id (iqr_data r) \<and> iqr_owner r = dq_owner (iq_deposit (iqr_data r)) \<and>
        instant_terms env (iqr_data r))"

text \<open>The node had answered for the output: three confirmations for a fixed claim; the quoted value
  and script for an instant one, and confirmed inputs when it is unconfirmed.\<close>

definition output_confirmed :: "deposit_env \<Rightarrow> deposit_call list \<Rightarrow> deposit_quote \<Rightarrow> bool" where
  "output_confirmed env log q \<longleftrightarrow> (\<exists>pre coin. asked_before log (AskOutput (dq_txid q) (ucast (dq_vout q))) pre \<and>
     d_output env pre (dq_txid q) (ucast (dq_vout q)) = Inr coin \<and> coin \<noteq> JNull \<and> 3 \<le> confirmations_of coin)"

definition output_checked :: "deposit_env \<Rightarrow> deposit_call list \<Rightarrow> deposit_quote \<Rightarrow> bool" where
  "output_checked env log q \<longleftrightarrow> (\<exists>pre coin. asked_before log (AskOutput (dq_txid q) (ucast (dq_vout q))) pre \<and>
     d_output env pre (dq_txid q) (ucast (dq_vout q)) = Inr coin \<and> coin \<noteq> JNull \<and>
     d_btc_amount env (jfield coin ''value'') = Inr (dq_credit q + dq_fee q) \<and>
     d_output_script env (dq_prev_output q) = as_str (jfield (jfield coin ''scriptPubKey'') ''hex'') \<and>
     (as_u64 (jfield coin ''confirmations'') = Some 0 \<longrightarrow>
       (\<exists>earlier entry. asked_before log (AskMempool (dq_txid q)) earlier \<and>
          d_mempool env earlier (dq_txid q) = Inr entry \<and> as_u64 (jfield entry ''ancestorcount'') = Some 1)))"

text \<open>The operators moved the credit to the owner and signed the recovery transaction.\<close>

definition claim_settled :: "deposit_env \<Rightarrow> deposit_call list \<Rightarrow> deposit_quote \<Rightarrow> string \<Rightarrow> static_plan \<Rightarrow> bool \<Rightarrow> string \<Rightarrow> bool" where
  "claim_settled env log q transfer_id plan instant raw \<longleftrightarrow> (\<exists>request job pre response.
     d_decode_request env (pl_request plan) = Some request \<and> sr_job request = Some job \<and>
     (if instant then asked_before log (RecoverDeposit (sr_utxo request) job transfer_id) pre \<and> d_recover env pre job transfer_id = Inr response
      else asked_before log (SwapDeposit request) pre \<and> d_swap env pre request = Inr response) \<and>
     finish_spend env q transfer_id plan request job response = Inr raw)"

text \<open>The operators reserved the deposit and advanced exactly the credit to the owner.\<close>

definition credit_advanced :: "deposit_env \<Rightarrow> deposit_call list \<Rightarrow> instant_claim \<Rightarrow> bool" where
  "credit_advanced env log r \<longleftrightarrow> (let q = iq_deposit (ic_quote r) in \<exists>request pre t.
     asked_before log (ReserveDeposit request (dq_address q) (dq_credit q + dq_fee q) (dq_credit q)) pre \<and>
     d_reserve env pre request = Inr (Some t) \<and> ot_id t = ic_transfer_id r \<and> ot_total t = dq_credit q \<and>
     ot_sender t = d_identity env \<and> ot_receiver t = dq_owner q)"

text \<open>The plan of a claim was assembled from its quote: leaves worth the credit, their transfer to the
  quoted owner under the claim's id, and a recovery transaction that spends the output.\<close>

definition plan_made ::
  "deposit_env \<Rightarrow> deposit_call list \<Rightarrow> deposit_quote \<Rightarrow> string \<Rightarrow> outpoint \<Rightarrow> string \<Rightarrow> string \<Rightarrow> static_plan \<Rightarrow> bool" where
  "plan_made env log q transfer_id p encrypted signature plan \<longleftrightarrow> (\<exists>destination leaves key transfer nonce earlier pre.
     asked_before pre (SelectLeaves (dq_credit q)) earlier \<and> d_leaves env earlier (dq_credit q) = Inr leaves \<and>
     d_parse_key env (dq_owner q) = Some key \<and>
     asked_before log (PrepareTransfer transfer_id leaves key) pre \<and> d_transfer env pre transfer_id leaves key = Inr transfer \<and>
     assemble_plan env q encrypted signature (recovery_transaction p (dq_credit q) destination) transfer nonce = Inr plan)"

lemma deposit_log_grows:
  "output_confirmed env log q \<Longrightarrow> output_confirmed env (log @ cs) q"
  "output_checked env log q \<Longrightarrow> output_checked env (log @ cs) q"
  "claim_settled env log q i plan b raw \<Longrightarrow> claim_settled env (log @ cs) q i plan b raw"
  "credit_advanced env log r \<Longrightarrow> credit_advanced env (log @ cs) r"
  "plan_made env log q i p e s plan \<Longrightarrow> plan_made env (log @ cs) q i p e s plan"
  unfolding output_confirmed_def output_checked_def claim_settled_def credit_advanced_def plan_made_def Let_def
  by (meson asked_append)+

lemma grows_deposit_log:
  "grows (\<lambda>log. output_confirmed env log q)" "grows (\<lambda>log. output_checked env log q)"
  "grows (\<lambda>log. claim_settled env log q i plan b raw)" "grows (\<lambda>log. credit_advanced env log r)" "grows (\<lambda>_. A)"
  by (simp_all add: grows_def deposit_log_grows)

section \<open>Claims\<close>

definition fixed_agreed :: "deposit_env \<Rightarrow> deposit_call list \<Rightarrow> deposit_claim \<Rightarrow> bool" where
  "fixed_agreed env log c \<longleftrightarrow> (let q = dc_quote c in fixed_terms env q \<and> output_confirmed env log q \<and>
     (\<exists>encrypted signature. validate_static_authorization env q encrypted signature = Inr () \<and>
        plan_made env log q (dc_transfer_id c) \<lparr>op_txid = dq_txid q, op_vout = dq_vout q\<rparr> encrypted signature (dc_plan c)))"

definition fixed_ok :: "deposit_env \<Rightarrow> deposit_call list \<Rightarrow> deposit_claim \<Rightarrow> bool" where
  "fixed_ok env log c \<longleftrightarrow> fixed_agreed env log c \<and>
     (case dc_signed_spend c of
        None \<Rightarrow> dc_status c = ''IN_PROGRESS'' \<and> dc_phase c = ''CREATED''
      | Some raw \<Rightarrow> claim_settled env log (dc_quote c) (dc_transfer_id c) (dc_plan c) False raw \<and>
          dc_phase c \<in> {''SPEND_TX_CREATED'', ''SPEND_TX_BROADCAST'', ''SPEND_TX_CONFIRMED''})"

definition credit_due :: "instant_claim \<Rightarrow> bool" where
  "credit_due r \<longleftrightarrow> ic_phase r \<noteq> ''SPEND_TX_CONFIRMED''"

text \<open>The recovery transaction of a frozen claim is fixed.\<close>

definition frozen :: "instant_claim \<Rightarrow> bool" where
  "frozen r \<longleftrightarrow> ic_phase r \<noteq> ''CREATED'' \<and> ic_phase r \<noteq> ''TRANSFER_COMPLETED''"

text \<open>What a claim rests on, with the plan it was stored with.\<close>

definition instant_agreed :: "deposit_env \<Rightarrow> deposit_call list \<Rightarrow> instant_claim \<Rightarrow> static_plan \<Rightarrow> bool" where
  "instant_agreed env log r plan \<longleftrightarrow> (let q = iq_deposit (ic_quote r) in
     instant_terms env (ic_quote r) \<and> output_checked env log q \<and> dq_credit q + dq_fee q \<le> d_max_deposit env \<and>
     (\<exists>secret encrypted signature key txid. instant_authorization env q secret encrypted signature = Inr key \<and>
        d_parse_txid env (dq_txid q) = Some txid \<and>
        plan_made env log q (ic_transfer_id r) \<lparr>op_txid = txid, op_vout = dq_vout q\<rparr> key signature plan))"

definition recovery_state :: "deposit_env \<Rightarrow> deposit_call list \<Rightarrow> instant_claim \<Rightarrow> bool" where
  "recovery_state env log r \<longleftrightarrow> (case ic_signed_spend r of
     None \<Rightarrow> ic_phase r \<in> {''CREATED'', ''TRANSFER_COMPLETED'', ''RECOVERY_PREPARED''}
   | Some raw \<Rightarrow> claim_settled env log (iq_deposit (ic_quote r)) (ic_transfer_id r) (ic_plan r) True raw \<and>
       ic_phase r \<in> {''SPEND_TX_CREATED'', ''SPEND_TX_BROADCAST'', ''SPEND_TX_CONFIRMED''})"

definition instant_ok :: "deposit_env \<Rightarrow> deposit_call list \<Rightarrow> instant_claim \<Rightarrow> bool" where
  "instant_ok env log r \<longleftrightarrow> (\<exists>plan. instant_agreed env log r plan \<and> (ic_phase r = ''CREATED'' \<longrightarrow> ic_plan r = plan)) \<and>
     (ic_phase r \<noteq> ''CREATED'' \<longrightarrow> credit_advanced env log r) \<and> recovery_state env log r"

lemma agreed_grows:
  "fixed_agreed env log c \<Longrightarrow> fixed_agreed env (log @ cs) c"
  "instant_agreed env log r plan \<Longrightarrow> instant_agreed env (log @ cs) r plan"
  unfolding fixed_agreed_def instant_agreed_def Let_def by (meson deposit_log_grows)+

lemma claim_ok_grows:
  "fixed_ok env log c \<Longrightarrow> fixed_ok env (log @ cs) c"
  "instant_ok env log r \<Longrightarrow> instant_ok env (log @ cs) r"
proof -
  show "fixed_ok env log c \<Longrightarrow> fixed_ok env (log @ cs) c"
    by (auto simp: fixed_ok_def agreed_grows deposit_log_grows split: option.splits)
  have "recovery_state env log r \<Longrightarrow> recovery_state env (log @ cs) r"
    by (auto simp: recovery_state_def deposit_log_grows split: option.splits)
  then show "instant_ok env log r \<Longrightarrow> instant_ok env (log @ cs) r"
    unfolding instant_ok_def by (blast intro: agreed_grows deposit_log_grows)
qed

lemma instant_ok_terms: "instant_ok env log r \<Longrightarrow> quoted_terms env (iq_deposit (ic_quote r))"
  by (auto simp: instant_ok_def instant_agreed_def instant_terms_def Let_def)

lemma frozen_advanced: "instant_ok env log r \<Longrightarrow> frozen r \<Longrightarrow> credit_advanced env log r"
  by (simp add: instant_ok_def frozen_def)

lemma signed_frozen: "instant_ok env log r \<Longrightarrow> ic_signed_spend r \<noteq> None \<Longrightarrow> frozen r"
  by (auto simp: instant_ok_def recovery_state_def frozen_def split: option.splits)

lemma instant_signed:
  "instant_ok env log r \<Longrightarrow> ic_signed_spend r = Some raw \<Longrightarrow> claim_settled env log (iq_deposit (ic_quote r)) (ic_transfer_id r) (ic_plan r) True raw"
  by (simp add: instant_ok_def recovery_state_def)

definition fixed_point :: "deposit_claim \<Rightarrow> string \<times> u32" where
  "fixed_point c = (dq_txid (dc_quote c), dq_vout (dc_quote c))"

definition instant_point :: "instant_claim \<Rightarrow> string \<times> u32" where
  "instant_point r = (dq_txid (iq_deposit (ic_quote r)), dq_vout (iq_deposit (ic_quote r)))"

definition instant_owner :: "instant_claim \<Rightarrow> string" where
  "instant_owner r = dq_owner (iq_deposit (ic_quote r))"

definition credit_of :: "instant_claim \<Rightarrow> nat" where
  "credit_of r = unat (dq_credit (iq_deposit (ic_quote r)))"

text \<open>Neither the same output, nor one of the same address and value while both are open.\<close>

definition apart :: "deposit_claim \<Rightarrow> instant_claim \<Rightarrow> bool" where
  "apart c r \<longleftrightarrow> fixed_point c \<noteq> instant_point r \<and>
     \<not> (dq_address (dc_quote c) = dq_address (iq_deposit (ic_quote r)) \<and>
        quoted_value (dc_quote c) = quoted_value (iq_deposit (ic_quote r)) \<and> dc_status c \<noteq> ''SUCCEEDED'' \<and> credit_due r)"

text \<open>A call that moves money or signs is the one a stored claim prescribes.\<close>

fun prescribed :: "deposit_env \<Rightarrow> deposit_claim list \<Rightarrow> instant_claim list \<Rightarrow> deposit_call \<Rightarrow> bool" where
  "prescribed env cs rs (SwapDeposit request) \<longleftrightarrow> (\<exists>c\<in>set cs. d_decode_request env (pl_request (dc_plan c)) = Some request)"
| "prescribed env cs rs (ReserveDeposit request address value credit) \<longleftrightarrow>
     (\<exists>r\<in>set rs. ic_phase r = ''CREATED'' \<and> d_decode_request env (pl_request (ic_plan r)) = Some request \<and>
        address = dq_address (iq_deposit (ic_quote r)) \<and> credit = dq_credit (iq_deposit (ic_quote r)) \<and>
        value = dq_credit (iq_deposit (ic_quote r)) + dq_fee (iq_deposit (ic_quote r)))"
| "prescribed env cs rs (RecoverDeposit utxo job i) \<longleftrightarrow>
     (\<exists>r\<in>set rs. \<exists>request. frozen r \<and> i = ic_transfer_id r \<and> d_decode_request env (pl_request (ic_plan r)) = Some request \<and>
        utxo = sr_utxo request \<and> sr_job request = Some job)"
| "prescribed env cs rs (SendSpend raw) \<longleftrightarrow>
     (\<exists>c\<in>set cs. dc_signed_spend c = Some raw) \<or> (\<exists>r\<in>set rs. ic_signed_spend r = Some raw)"
| "prescribed env cs rs _ \<longleftrightarrow> True"

text \<open>Every such call of a run has one of the claims stored now behind it, with the evidence that the log
  held for this claim when the call was made.\<close>

fun timely :: "deposit_env \<Rightarrow> deposit_claim list \<Rightarrow> instant_claim list \<Rightarrow> deposit_call list \<Rightarrow> deposit_call \<Rightarrow> bool" where
  "timely env cs rs log (SwapDeposit request) \<longleftrightarrow>
     (\<exists>c\<in>set cs. fixed_agreed env log c \<and> d_decode_request env (pl_request (dc_plan c)) = Some request)"
| "timely env cs rs log (ReserveDeposit request address value credit) \<longleftrightarrow>
     (\<exists>r\<in>set rs. (\<exists>plan. instant_agreed env log r plan \<and> d_decode_request env (pl_request plan) = Some request) \<and>
        address = dq_address (iq_deposit (ic_quote r)) \<and> credit = dq_credit (iq_deposit (ic_quote r)) \<and>
        value = dq_credit (iq_deposit (ic_quote r)) + dq_fee (iq_deposit (ic_quote r)))"
| "timely env cs rs log (RecoverDeposit utxo job i) \<longleftrightarrow>
     (\<exists>r\<in>set rs. \<exists>request. frozen r \<and> i = ic_transfer_id r \<and> credit_advanced env log r \<and>
        d_decode_request env (pl_request (ic_plan r)) = Some request \<and> utxo = sr_utxo request \<and> sr_job request = Some job)"
| "timely env cs rs log (SendSpend raw) \<longleftrightarrow>
     (\<exists>c\<in>set cs. dc_signed_spend c = Some raw \<and> claim_settled env log (dc_quote c) (dc_transfer_id c) (dc_plan c) False raw) \<or>
     (\<exists>r\<in>set rs. frozen r \<and> ic_signed_spend r = Some raw \<and>
        claim_settled env log (iq_deposit (ic_quote r)) (ic_transfer_id r) (ic_plan r) True raw)"
| "timely env cs rs log _ \<longleftrightarrow> True"

lemma prescribed_timely:
  assumes "prescribed env cs rs call" "\<forall>c\<in>set cs. fixed_ok env log c" "\<forall>r\<in>set rs. instant_ok env log r"
  shows "timely env cs rs log call"
proof (cases call)
  case (SwapDeposit request)
  then show ?thesis using assms(1,2) by (auto simp: fixed_ok_def)
next
  case (ReserveDeposit request address v credit)
  then obtain r where r: "r \<in> set rs" "ic_phase r = ''CREATED''" "d_decode_request env (pl_request (ic_plan r)) = Some request"
      "address = dq_address (iq_deposit (ic_quote r))" "credit = dq_credit (iq_deposit (ic_quote r))"
      "v = dq_credit (iq_deposit (ic_quote r)) + dq_fee (iq_deposit (ic_quote r))" using assms(1) by auto
  then have "instant_agreed env log r (ic_plan r)" using assms(3) by (auto simp: instant_ok_def)
  then show ?thesis using r ReserveDeposit by auto
next
  case (RecoverDeposit utxo job i)
  then show ?thesis using assms(1,3) frozen_advanced by auto
next
  case (SendSpend raw)
  then consider c where "c \<in> set cs" "dc_signed_spend c = Some raw" | r where "r \<in> set rs" "ic_signed_spend r = Some raw"
    using assms(1) by auto
  then show ?thesis
  proof cases
    case (1 c)
    then have "fixed_ok env log c" using assms(2) by blast
    then have "claim_settled env log (dc_quote c) (dc_transfer_id c) (dc_plan c) False raw"
      using 1(2) by (simp add: fixed_ok_def)
    then show ?thesis using 1 SendSpend by auto
  next
    case (2 r)
    then have "instant_ok env log r" using assms(3) by blast
    then have "frozen r" "claim_settled env log (iq_deposit (ic_quote r)) (ic_transfer_id r) (ic_plan r) True raw"
      using signed_frozen instant_signed 2(2) by blast+
    then show ?thesis using 2 SendSpend by auto
  qed
qed simp_all

definition due_credit :: "instant_claim list \<Rightarrow> nat" where
  "due_credit rs = (\<Sum>r\<leftarrow>filter credit_due rs. credit_of r)"

definition claims_ok :: "deposit_env \<Rightarrow> deposit_call list \<Rightarrow> deposit_claim list \<Rightarrow> instant_claim list \<Rightarrow> bool" where
  "claims_ok env log cs rs \<longleftrightarrow>
     distinct (map dc_id cs) \<and> distinct (map fixed_point cs) \<and> distinct (map ic_id rs) \<and> distinct (map instant_point rs) \<and>
     distinct (map instant_owner (filter credit_due rs)) \<and> due_credit rs \<le> unat (d_limit env) \<and>
     (\<forall>c\<in>set cs. fixed_ok env log c) \<and> (\<forall>r\<in>set rs. instant_ok env log r) \<and>
     (\<forall>c\<in>set cs. \<forall>r\<in>set rs. apart c r) \<and> (\<forall>call pre. asked_before log call pre \<longrightarrow> timely env cs rs pre call)"

text \<open>How a handler changes a claim: it never changes what was agreed, what was signed, or what
  a call already relied on.\<close>

definition fixed_adv :: "deposit_claim \<Rightarrow> deposit_claim \<Rightarrow> bool" where
  "fixed_adv c c' \<longleftrightarrow> dc_id c' = dc_id c \<and> dc_quote c' = dc_quote c \<and> dc_transfer_id c' = dc_transfer_id c \<and> dc_plan c' = dc_plan c \<and>
     (dc_signed_spend c \<noteq> None \<longrightarrow> dc_signed_spend c' = dc_signed_spend c) \<and> (dc_status c = ''SUCCEEDED'' \<longrightarrow> dc_status c' = ''SUCCEEDED'')"

definition instant_adv :: "instant_claim \<Rightarrow> instant_claim \<Rightarrow> bool" where
  "instant_adv r r' \<longleftrightarrow> ic_id r' = ic_id r \<and> ic_quote r' = ic_quote r \<and> ic_transfer_id r' = ic_transfer_id r \<and>
     (frozen r \<longrightarrow> frozen r' \<and> ic_plan r' = ic_plan r) \<and>
     (ic_signed_spend r \<noteq> None \<longrightarrow> ic_signed_spend r' = ic_signed_spend r) \<and> (credit_due r' \<longrightarrow> credit_due r)"

lemma fixed_adv_refl: "fixed_adv c c"
  by (simp add: fixed_adv_def)

lemma instant_adv_refl: "instant_adv r r"
  by (simp add: instant_adv_def)

lemma adv_points:
  "fixed_adv c c' \<Longrightarrow> fixed_point c' = fixed_point c" "instant_adv r r' \<Longrightarrow> instant_point r' = instant_point r"
  "instant_adv r r' \<Longrightarrow> instant_owner r' = instant_owner r" "instant_adv r r' \<Longrightarrow> credit_of r' = credit_of r"
  by (simp_all add: fixed_adv_def instant_adv_def fixed_point_def instant_point_def instant_owner_def credit_of_def)

lemma apart_adv: "apart c r \<Longrightarrow> fixed_adv c c' \<Longrightarrow> instant_adv r r' \<Longrightarrow> apart c' r'"
  by (auto simp: apart_def adv_points) (auto simp: fixed_adv_def instant_adv_def)

lemma agreed_adv:
  "fixed_adv c c' \<Longrightarrow> fixed_agreed env log c \<Longrightarrow> fixed_agreed env log c'"
  "instant_adv r r' \<Longrightarrow> instant_agreed env log r plan \<Longrightarrow> instant_agreed env log r' plan"
  "instant_adv r r' \<Longrightarrow> credit_advanced env log r \<Longrightarrow> credit_advanced env log r'"
  by (simp_all add: fixed_adv_def instant_adv_def fixed_agreed_def instant_agreed_def credit_advanced_def)

lemma timely_mono:
  assumes "timely env cs rs log call"
    and "\<And>c. c \<in> set cs \<Longrightarrow> \<exists>c'\<in>set cs'. fixed_adv c c'" "\<And>r. r \<in> set rs \<Longrightarrow> \<exists>r'\<in>set rs'. instant_adv r r'"
  shows "timely env cs' rs' log call"
  using assms(1)
proof (cases call)
  case (SwapDeposit request)
  then obtain c where c: "c \<in> set cs" "fixed_agreed env log c" "d_decode_request env (pl_request (dc_plan c)) = Some request"
    using assms(1) by auto
  then obtain c' where "c' \<in> set cs'" "fixed_adv c c'" using assms(2) by blast
  moreover have "dc_plan c' = dc_plan c" using calculation(2) by (simp add: fixed_adv_def)
  ultimately show ?thesis using c SwapDeposit agreed_adv(1) by (auto intro!: bexI [of _ c'])
next
  case (ReserveDeposit request address v credit)
  then obtain r plan where r: "r \<in> set rs" "instant_agreed env log r plan" "d_decode_request env (pl_request plan) = Some request"
      "address = dq_address (iq_deposit (ic_quote r))" "credit = dq_credit (iq_deposit (ic_quote r))"
      "v = dq_credit (iq_deposit (ic_quote r)) + dq_fee (iq_deposit (ic_quote r))" using assms(1) by auto
  then obtain r' where r': "r' \<in> set rs'" "instant_adv r r'" using assms(3) by blast
  moreover have "ic_quote r' = ic_quote r" using r'(2) by (simp add: instant_adv_def)
  moreover have "instant_agreed env log r' plan" using agreed_adv(2) [OF r'(2) r(2)] .
  ultimately show ?thesis using r(3-6) ReserveDeposit by (auto intro!: bexI [of _ r'])
next
  case (RecoverDeposit utxo job i)
  then obtain r request where r: "r \<in> set rs" "frozen r" "i = ic_transfer_id r" "credit_advanced env log r"
      "d_decode_request env (pl_request (ic_plan r)) = Some request" "utxo = sr_utxo request" "sr_job request = Some job" using assms(1) by auto
  then obtain r' where r': "r' \<in> set rs'" "instant_adv r r'" using assms(3) by blast
  then have "frozen r'" "ic_plan r' = ic_plan r" "ic_transfer_id r' = ic_transfer_id r"
    using r(2) by (simp_all add: instant_adv_def)
  moreover have "credit_advanced env log r'" using agreed_adv(3) [OF r'(2) r(4)] .
  ultimately show ?thesis using r r'(1) RecoverDeposit by (auto intro!: bexI [of _ r'])
next
  case (SendSpend raw)
  then consider c where "c \<in> set cs" "dc_signed_spend c = Some raw" "claim_settled env log (dc_quote c) (dc_transfer_id c) (dc_plan c) False raw"
    | r where "r \<in> set rs" "frozen r" "ic_signed_spend r = Some raw" "claim_settled env log (iq_deposit (ic_quote r)) (ic_transfer_id r) (ic_plan r) True raw"
    using assms(1) by auto
  then show ?thesis
  proof cases
    case (1 c)
    then obtain c' where c': "c' \<in> set cs'" "fixed_adv c c'" using assms(2) by blast
    then have "dc_signed_spend c' = Some raw" "claim_settled env log (dc_quote c') (dc_transfer_id c') (dc_plan c') False raw"
      using 1 by (simp_all add: fixed_adv_def)
    then show ?thesis using c'(1) SendSpend by auto
  next
    case (2 r)
    then obtain r' where r': "r' \<in> set rs'" "instant_adv r r'" using assms(3) by blast
    then have "frozen r'" "ic_signed_spend r' = Some raw"
        "claim_settled env log (iq_deposit (ic_quote r')) (ic_transfer_id r') (ic_plan r') True raw"
      using 2 by (simp_all add: instant_adv_def)
    then show ?thesis using r'(1) SendSpend by auto
  qed
qed simp_all

lemma claims_ok_call:
  assumes "claims_ok env log cs rs" "prescribed env cs rs call"
  shows "claims_ok env (log @ [call]) cs rs"
proof -
  have "timely env cs rs log call"
    by (rule prescribed_timely [OF assms(2)]) (use assms(1) in \<open>simp_all add: claims_ok_def\<close>)
  then have "timely env cs rs pre call'" if "asked_before (log @ [call]) call' pre" for call' pre
    using assms(1) that unfolding claims_ok_def by (metis asked_snocE)
  then show ?thesis using assms claim_ok_grows [of env log _ "[call]"] unfolding claims_ok_def by auto
qed

lemma filter_adv:
  assumes "\<And>x. x \<in> set xs \<Longrightarrow> (p (f x) \<longrightarrow> p x) \<and> key (f x) = key x" "distinct (map key (filter p xs))"
  shows "distinct (map key (filter p (map f xs)))"
  using assms
proof (induction xs)
  case (Cons x xs)
  have IH: "distinct (map key (filter p (map f xs)))"
    by (rule Cons.IH) (use Cons.prems in \<open>auto split: if_splits\<close>)
  have "key (f x) \<notin> key ` {y \<in> f ` set xs. p y}" if "p (f x)"
  proof
    assume "key (f x) \<in> key ` {y \<in> f ` set xs. p y}"
    then obtain y where y: "y \<in> set xs" "p (f y)" "key (f y) = key (f x)" by auto
    have "p x" "p y" "key y = key x"
      using Cons.prems(1) [of x] Cons.prems(1) [of y] y that by auto
    then show False using Cons.prems(2) y(1) by (simp add: image_iff) metis
  qed
  then show ?case using IH by (auto simp: image_iff)
qed simp

lemma due_credit_adv:
  assumes "\<And>r. r \<in> set rs \<Longrightarrow> instant_adv r (f r)"
  shows "due_credit (map f rs) \<le> due_credit rs"
  using assms
proof (induction rs)
  case (Cons r rs)
  have "instant_adv r (f r)" "due_credit (map f rs) \<le> due_credit rs" using Cons by simp_all
  then show ?case using adv_points(4) [of r "f r"] by (auto simp: due_credit_def instant_adv_def)
qed simp

lemma claims_ok_fixed:
  assumes ok: "claims_ok env log cs rs" and f: "\<And>c. c \<in> set cs \<Longrightarrow> fixed_adv c (f c) \<and> fixed_ok env log (f c)"
  shows "claims_ok env log (map f cs) rs"
proof -
  have "map (dc_id \<circ> f) cs = map dc_id cs" "map (fixed_point \<circ> f) cs = map fixed_point cs"
    using f by (simp_all add: fixed_adv_def fixed_point_def)
  then have "distinct (map (dc_id \<circ> f) cs)" "distinct (map (fixed_point \<circ> f) cs)"
    using ok by (simp_all only: claims_ok_def)
  moreover have "timely env (map f cs) rs pre call" if "timely env cs rs pre call" for pre call
    using that by (rule timely_mono) (use f instant_adv_refl in \<open>auto\<close>)
  moreover have "apart (f c) r" if "c \<in> set cs" "r \<in> set rs" for c r
    using ok f that apart_adv [OF _ _ instant_adv_refl] unfolding claims_ok_def by blast
  ultimately show ?thesis using ok f unfolding claims_ok_def by auto
qed

lemma claims_ok_instant:
  assumes ok: "claims_ok env log cs rs" and f: "\<And>r. r \<in> set rs \<Longrightarrow> instant_adv r (f r) \<and> instant_ok env log (f r)"
  shows "claims_ok env log cs (map f rs)"
proof -
  have "map (ic_id \<circ> f) rs = map ic_id rs" "map (instant_point \<circ> f) rs = map instant_point rs"
    using f by (simp_all add: instant_adv_def instant_point_def)
  then have "distinct (map (ic_id \<circ> f) rs)" "distinct (map (instant_point \<circ> f) rs)"
    using ok by (simp_all only: claims_ok_def)
  moreover have "distinct (map instant_owner (filter credit_due (map f rs)))"
    by (rule filter_adv) (use f ok in \<open>auto simp: adv_points instant_adv_def claims_ok_def\<close>)
  moreover have "due_credit (map f rs) \<le> unat (d_limit env)"
    using due_credit_adv [of rs f] f ok unfolding claims_ok_def by (meson le_trans)
  moreover have "timely env cs (map f rs) pre call" if "timely env cs rs pre call" for pre call
    using that by (rule timely_mono) (use f fixed_adv_refl in \<open>auto\<close>)
  moreover have "apart c (f r)" if "c \<in> set cs" "r \<in> set rs" for c r
    using ok f that apart_adv [OF _ fixed_adv_refl] unfolding claims_ok_def by blast
  ultimately show ?thesis using ok f unfolding claims_ok_def by auto
qed

lemma claims_ok_new_fixed:
  assumes "claims_ok env log cs rs" "fixed_ok env log c" "dc_id c \<notin> dc_id ` set cs" "fixed_point c \<notin> fixed_point ` set cs"
    "\<And>r. r \<in> set rs \<Longrightarrow> apart c r"
  shows "claims_ok env log (cs @ [c]) rs"
proof -
  have "timely env (cs @ [c]) rs pre call" if "timely env cs rs pre call" for pre call
    using that by (rule timely_mono) (use fixed_adv_refl instant_adv_refl in \<open>auto\<close>)
  then show ?thesis using assms unfolding claims_ok_def by auto
qed

lemma claims_ok_new_instant:
  assumes "claims_ok env log cs rs" "instant_ok env log r" "ic_id r \<notin> ic_id ` set rs" "instant_point r \<notin> instant_point ` set rs"
    "instant_owner r \<notin> instant_owner ` set (filter credit_due rs)" "due_credit rs + credit_of r \<le> unat (d_limit env)"
    "\<And>c. c \<in> set cs \<Longrightarrow> apart c r"
  shows "claims_ok env log cs (rs @ [r])"
proof -
  have "timely env cs (rs @ [r]) pre call" if "timely env cs rs pre call" for pre call
    using that by (rule timely_mono) (use fixed_adv_refl instant_adv_refl in \<open>auto\<close>)
  moreover have "due_credit (rs @ [r]) \<le> unat (d_limit env)"
    using assms(6) by (simp add: due_credit_def)
  ultimately show ?thesis using assms unfolding claims_ok_def by auto
qed

section \<open>The invariant of the service\<close>

definition fixed_claims :: "db \<Rightarrow> deposit_claim list" where
  "fixed_claims d = map dcr_data (deposit_claims d)"

definition instant_records :: "db \<Rightarrow> instant_claim list" where
  "instant_records d = map icr_data (instant_claims d)"

definition fixed_row :: "deposit_claim \<Rightarrow> deposit_claim_row" where
  "fixed_row c = deposit_claim_row_of (dq_txid (dc_quote c)) (dq_vout (dc_quote c)) (dq_owner (dc_quote c)) c"

definition claim_row :: "instant_claim \<Rightarrow> instant_claim_row" where
  "claim_row r = instant_row (instant_owner r) r"

text \<open>The columns of a row are those of the record it holds.\<close>

definition rows_match :: "db \<Rightarrow> bool" where
  "rows_match d \<longleftrightarrow> (\<forall>x\<in>set (deposit_claims d). x\<lparr>dcr_last_error := None\<rparr> = fixed_row (dcr_data x)) \<and>
     (\<forall>x\<in>set (instant_claims d). x\<lparr>icr_last_error := None\<rparr> = claim_row (icr_data x))"

definition deposits_ok :: "deposit_env \<Rightarrow> deposit_world \<Rightarrow> bool" where
  "deposits_ok env w \<longleftrightarrow> rows_match (w_db w) \<and> quotes_ok env (w_db w) \<and>
     claims_ok env (w_calls w) (fixed_claims (w_db w)) (instant_records (w_db w))"

datatype held_claim = Fixed deposit_claim | Instant instant_claim

fun claim_stored :: "deposit_world \<Rightarrow> held_claim \<Rightarrow> bool" where
  "claim_stored w (Fixed c) \<longleftrightarrow> c \<in> set (fixed_claims (w_db w))"
| "claim_stored w (Instant r) \<longleftrightarrow> r \<in> set (instant_records (w_db w))"

definition same_claims :: "deposit_env \<Rightarrow> db \<Rightarrow> db \<Rightarrow> bool" where
  "same_claims env d e \<longleftrightarrow> fixed_claims e = fixed_claims d \<and> instant_records e = instant_records d \<and>
     (rows_match d \<longrightarrow> rows_match e) \<and> (quotes_ok env d \<longrightarrow> quotes_ok env e)"

fun moves_nothing :: "deposit_call \<Rightarrow> bool" where
  "moves_nothing (SwapDeposit _) \<longleftrightarrow> False"
| "moves_nothing (ReserveDeposit _ _ _ _) \<longleftrightarrow> False"
| "moves_nothing (RecoverDeposit _ _ _) \<longleftrightarrow> False"
| "moves_nothing (SendSpend _) \<longleftrightarrow> False"
| "moves_nothing _ \<longleftrightarrow> True"

lemma moves_nothing_prescribed: "moves_nothing call \<Longrightarrow> prescribed env cs rs call"
  by (cases call) simp_all

interpretation same_claims: step_relation "same_claims env" for env
  by unfold_locales (auto simp: same_claims_def)

abbreviation prescribed_in :: "deposit_env \<Rightarrow> deposit_world \<Rightarrow> deposit_call \<Rightarrow> bool" where
  "prescribed_in env w \<equiv> prescribed env (fixed_claims (w_db w)) (instant_records (w_db w))"

lemma stored_same_claims: "same_claims env (w_db w) (w_db w') \<Longrightarrow> claim_stored w r \<Longrightarrow> claim_stored w' r"
  by (cases r) (simp_all add: same_claims_def)

interpretation deposits: held_records "deposits_ok env" claim_stored "same_claims env" moves_nothing "prescribed_in env" for env
proof (unfold_locales, goal_cases)
  case (4 w d)
  then show ?case by (simp add: deposits_ok_def same_claims_def)
next
  case (5 w c)
  then show ?case by (simp add: deposits_ok_def claims_ok_call)
next
  case (6 w w' r)
  then show ?case by (rule stored_same_claims)
qed (auto simp: same_claims_def moves_nothing_prescribed)

abbreviation dquiet :: "deposit_env \<Rightarrow> deposit_world \<Rightarrow> deposit_world \<Rightarrow> bool" where
  "dquiet env \<equiv> held_records.quiet (same_claims env) moves_nothing"

abbreviation dheld :: "deposit_env \<Rightarrow> held_claim list \<Rightarrow> deposit_world \<Rightarrow> bool" where
  "dheld env \<equiv> held_records.held (deposits_ok env) claim_stored"

abbreviation dat :: "deposit_env \<Rightarrow> held_claim list \<Rightarrow> (deposit_call list \<Rightarrow> bool) \<Rightarrow> deposit_world \<Rightarrow> bool" where
  "dat env \<equiv> held_records.at (deposits_ok env) claim_stored"

lemmas dheld_def = deposits.held_def and dat_def = deposits.at_def

section \<open>Rows\<close>

lemma fixed_row_simps [simp]:
  "dcr_id (fixed_row c) = dc_id c" "dcr_data (fixed_row c) = c" "dcr_status (fixed_row c) = dc_status c"
  "dcr_txid (fixed_row c) = dq_txid (dc_quote c)" "dcr_vout (fixed_row c) = dq_vout (dc_quote c)"
  "dcr_owner (fixed_row c) = dq_owner (dc_quote c)"
  by (simp_all add: fixed_row_def deposit_claim_row_of_def)

lemma claim_row_simps [simp]:
  "icr_id (claim_row r) = ic_id r" "icr_data (claim_row r) = r" "icr_phase (claim_row r) = ic_phase r"
  "icr_txid (claim_row r) = dq_txid (iq_deposit (ic_quote r))" "icr_vout (claim_row r) = dq_vout (iq_deposit (ic_quote r))"
  "icr_owner (claim_row r) = instant_owner r" "icr_address (claim_row r) = dq_address (iq_deposit (ic_quote r))"
  "icr_value (claim_row r) = dq_credit (iq_deposit (ic_quote r)) + dq_fee (iq_deposit (ic_quote r))"
  "icr_credit (claim_row r) = dq_credit (iq_deposit (ic_quote r))" "icr_quote_id (claim_row r) = iq_id (ic_quote r)"
  by (simp_all add: claim_row_def instant_row_def Let_def)

lemma fixed_match:
  assumes "rows_match d" "x \<in> set (deposit_claims d)"
  shows "dcr_id x = dc_id (dcr_data x)" "dcr_status x = dc_status (dcr_data x)"
    "dcr_txid x = dq_txid (dc_quote (dcr_data x))" "dcr_vout x = dq_vout (dc_quote (dcr_data x))"
    "dcr_owner x = dq_owner (dc_quote (dcr_data x))"
proof -
  have e: "x\<lparr>dcr_last_error := None\<rparr> = fixed_row (dcr_data x)" using assms by (simp add: rows_match_def)
  show "dcr_id x = dc_id (dcr_data x)" "dcr_status x = dc_status (dcr_data x)"
    "dcr_txid x = dq_txid (dc_quote (dcr_data x))" "dcr_vout x = dq_vout (dc_quote (dcr_data x))"
    "dcr_owner x = dq_owner (dc_quote (dcr_data x))"
    using arg_cong [OF e, of dcr_id] arg_cong [OF e, of dcr_status] arg_cong [OF e, of dcr_txid]
      arg_cong [OF e, of dcr_vout] arg_cong [OF e, of dcr_owner] by simp_all
qed

lemma instant_match:
  assumes "rows_match d" "x \<in> set (instant_claims d)"
  shows "icr_id x = ic_id (icr_data x)" "icr_phase x = ic_phase (icr_data x)" "icr_owner x = instant_owner (icr_data x)"
    "icr_txid x = dq_txid (iq_deposit (ic_quote (icr_data x)))" "icr_vout x = dq_vout (iq_deposit (ic_quote (icr_data x)))"
    "icr_address x = dq_address (iq_deposit (ic_quote (icr_data x)))" "icr_credit x = dq_credit (iq_deposit (ic_quote (icr_data x)))"
    "icr_value x = dq_credit (iq_deposit (ic_quote (icr_data x))) + dq_fee (iq_deposit (ic_quote (icr_data x)))"
    "instant_pending x = credit_due (icr_data x)"
proof -
  have e: "x\<lparr>icr_last_error := None\<rparr> = claim_row (icr_data x)" using assms by (simp add: rows_match_def)
  show "icr_id x = ic_id (icr_data x)" "icr_phase x = ic_phase (icr_data x)" "icr_owner x = instant_owner (icr_data x)"
    "icr_txid x = dq_txid (iq_deposit (ic_quote (icr_data x)))" "icr_vout x = dq_vout (iq_deposit (ic_quote (icr_data x)))"
    "icr_address x = dq_address (iq_deposit (ic_quote (icr_data x)))" "icr_credit x = dq_credit (iq_deposit (ic_quote (icr_data x)))"
    "icr_value x = dq_credit (iq_deposit (ic_quote (icr_data x))) + dq_fee (iq_deposit (ic_quote (icr_data x)))"
    "instant_pending x = credit_due (icr_data x)"
    using arg_cong [OF e, of icr_id] arg_cong [OF e, of icr_phase] arg_cong [OF e, of icr_owner] arg_cong [OF e, of icr_txid]
      arg_cong [OF e, of icr_vout] arg_cong [OF e, of icr_address] arg_cong [OF e, of icr_credit] arg_cong [OF e, of icr_value]
    by (simp_all add: instant_pending_def credit_due_def)
qed

lemma outstanding_due: "rows_match d \<Longrightarrow> outstanding_credit d = int (due_credit (instant_records d))"
proof -
  assume m: "rows_match d"
  have "(\<Sum>r\<leftarrow>filter instant_pending xs. uint (icr_credit r)) = int (\<Sum>r\<leftarrow>filter credit_due (map icr_data xs). credit_of r)"
    if "set xs \<subseteq> set (instant_claims d)" for xs
    using that
  proof (induction xs)
    case (Cons x xs)
    then have "instant_pending x = credit_due (icr_data x)" "uint (icr_credit x) = int (credit_of (icr_data x))"
      using instant_match(7,9) [OF m, of x] by (simp_all add: credit_of_def)
    then show ?case using Cons by simp
  qed simp
  then show ?thesis by (simp add: outstanding_credit_def due_credit_def instant_records_def)
qed

lemma quoted_value_exact: "quoted_terms env q \<Longrightarrow> uint (dq_credit q + dq_fee q) = quoted_value q"
proof -
  assume "quoted_terms env q"
  then obtain v :: u64 where "unat v = unat (dq_credit q) + unat (dq_fee q)" unfolding quoted_terms_def by blast
  then have "unat (dq_credit q) + unat (dq_fee q) < 2 ^ 64" using unsigned_less [where 'a = nat, of v] by simp
  then have "unat (dq_credit q + dq_fee q) = unat (dq_credit q) + unat (dq_fee q)" by (simp add: unat_word_ariths)
  then have "int (unat (dq_credit q + dq_fee q)) = int (unat (dq_credit q)) + int (unat (dq_fee q))" by simp
  then show ?thesis by (simp add: quoted_value_def)
qed

section \<open>Statements that change the claims\<close>

lemma save_deposit_run:
  obtains d' where "save_deposit c d = (Inr (), d')"
    "deposit_claims d' = update_rows (\<lambda>r. dcr_id r = dc_id c) (\<lambda>r. r\<lparr>dcr_status := dc_status c, dcr_data := c, dcr_last_error := None\<rparr>) (deposit_claims d)"
    "instant_claims d' = instant_claims d" "deposit_quotes d' = deposit_quotes d" "instant_quotes d' = instant_quotes d"
proof (rule that)
  show "save_deposit c d = (Inr (), snd (save_deposit c d))"
    by (simp add: save_deposit_def transaction_def action_defs statement_defs record_payout_def)
  show "deposit_claims (snd (save_deposit c d)) = update_rows (\<lambda>r. dcr_id r = dc_id c)
      (\<lambda>r. r\<lparr>dcr_status := dc_status c, dcr_data := c, dcr_last_error := None\<rparr>) (deposit_claims d)"
    by (simp add: save_deposit_def transaction_def action_defs statement_defs record_payout_def)
  show "instant_claims (snd (save_deposit c d)) = instant_claims d"
    by (simp add: save_deposit_def transaction_def action_defs statement_defs record_payout_def)
  show "deposit_quotes (snd (save_deposit c d)) = deposit_quotes d"
    by (simp add: save_deposit_def transaction_def action_defs statement_defs record_payout_def)
  show "instant_quotes (snd (save_deposit c d)) = instant_quotes d"
    by (simp add: save_deposit_def transaction_def action_defs statement_defs record_payout_def)
qed

lemma save_instant_run:
  obtains d' where "save_instant r d = (Inr (), d')"
    "instant_claims d' = update_rows (\<lambda>x. icr_id x = ic_id r) (\<lambda>x. x\<lparr>icr_phase := ic_phase r, icr_data := r, icr_last_error := None\<rparr>) (instant_claims d)"
    "deposit_claims d' = deposit_claims d" "deposit_quotes d' = deposit_quotes d" "instant_quotes d' = instant_quotes d"
proof (rule that)
  show "save_instant r d = (Inr (), snd (save_instant r d))"
    by (simp add: save_instant_def transaction_def action_defs statement_defs record_payout_def)
  show "instant_claims (snd (save_instant r d)) = update_rows (\<lambda>x. icr_id x = ic_id r)
      (\<lambda>x. x\<lparr>icr_phase := ic_phase r, icr_data := r, icr_last_error := None\<rparr>) (instant_claims d)"
    by (simp add: save_instant_def transaction_def action_defs statement_defs record_payout_def)
  show "deposit_claims (snd (save_instant r d)) = deposit_claims d"
    by (simp add: save_instant_def transaction_def action_defs statement_defs record_payout_def)
  show "deposit_quotes (snd (save_instant r d)) = deposit_quotes d"
    by (simp add: save_instant_def transaction_def action_defs statement_defs record_payout_def)
  show "instant_quotes (snd (save_instant r d)) = instant_quotes d"
    by (simp add: save_instant_def transaction_def action_defs statement_defs record_payout_def)
qed

lemma quotes_ok_cong: "deposit_quotes e = deposit_quotes d \<Longrightarrow> instant_quotes e = instant_quotes d \<Longrightarrow> quotes_ok env e = quotes_ok env d"
  by (simp add: quotes_ok_def)

lemma save_deposit_held:
  assumes held: "dheld env (Fixed c # map Fixed zs) w" and adv: "fixed_adv c c'" and ok: "fixed_ok env (w_calls w) c'"
    and others: "dc_id c \<notin> dc_id ` set zs"
  shows "dheld env (Fixed c' # map Fixed zs) (w\<lparr>w_db := snd (save_deposit c' (w_db w))\<rparr>)"
proof -
  let ?d = "w_db w" and ?f = "\<lambda>x. if dc_id x = dc_id c then c' else x"
  have id: "dc_id c' = dc_id c" and q: "dc_quote c' = dc_quote c" using adv by (simp_all add: fixed_adv_def)
  have inv: "rows_match ?d" "quotes_ok env ?d" "claims_ok env (w_calls w) (fixed_claims ?d) (instant_records ?d)"
      and c: "c \<in> set (fixed_claims ?d)"
    using held by (simp_all add: dheld_def deposits_ok_def)
  have "distinct (map dc_id (fixed_claims ?d))" using inv(3) unfolding claims_ok_def by blast
  then have only: "x = c" if "x \<in> set (fixed_claims ?d)" "dc_id x = dc_id c" for x
    using that c by (auto simp: distinct_map inj_on_def)
  obtain d' where d': "save_deposit c' ?d = (Inr (), d')"
    "deposit_claims d' = update_rows (\<lambda>r. dcr_id r = dc_id c') (\<lambda>r. r\<lparr>dcr_status := dc_status c', dcr_data := c', dcr_last_error := None\<rparr>) (deposit_claims ?d)"
    "instant_claims d' = instant_claims ?d" "deposit_quotes d' = deposit_quotes ?d" "instant_quotes d' = instant_quotes ?d"
    by (rule save_deposit_run)
  have same: "instant_records d' = instant_records ?d" by (simp add: instant_records_def d'(3))
  have f: "fixed_claims d' = map ?f (fixed_claims ?d)"
    using fixed_match(1) [OF inv(1)] by (simp add: fixed_claims_def d'(2) update_rows_def id)
  have match: "x\<lparr>dcr_status := dc_status c', dcr_data := c', dcr_last_error := None\<rparr> = fixed_row c'"
    if x: "x \<in> set (deposit_claims ?d)" "dcr_id x = dc_id c" for x
  proof -
    have "dcr_data x = c" using only [of "dcr_data x"] fixed_match(1) [OF inv(1) x(1)] x by (simp add: fixed_claims_def)
    then have "x\<lparr>dcr_last_error := None\<rparr> = fixed_row c" using inv(1) x(1) by (simp add: rows_match_def)
    moreover have "x\<lparr>dcr_status := dc_status c', dcr_data := c', dcr_last_error := None\<rparr> =
        x\<lparr>dcr_last_error := None\<rparr>\<lparr>dcr_status := dc_status c', dcr_data := c'\<rparr>" by simp
    ultimately have "x\<lparr>dcr_status := dc_status c', dcr_data := c', dcr_last_error := None\<rparr> = fixed_row c\<lparr>dcr_status := dc_status c', dcr_data := c'\<rparr>"
      by metis
    then show ?thesis by (simp add: fixed_row_def deposit_claim_row_of_def id q)
  qed
  have "rows_match d'"
    unfolding rows_match_def
  proof (intro conjI ballI)
    fix x
    assume "x \<in> set (deposit_claims d')"
    then obtain y where y: "y \<in> set (deposit_claims ?d)"
        "x = (if dcr_id y = dc_id c then y\<lparr>dcr_status := dc_status c', dcr_data := c', dcr_last_error := None\<rparr> else y)"
      by (auto simp: d'(2) update_rows_def id)
    have e: "fixed_row c'\<lparr>dcr_last_error := None\<rparr> = fixed_row c'" by (simp add: fixed_row_def deposit_claim_row_of_def)
    show "x\<lparr>dcr_last_error := None\<rparr> = fixed_row (dcr_data x)"
    proof (cases "dcr_id y = dc_id c")
      case True
      then have "x = fixed_row c'" using y match by simp
      then show ?thesis using e by simp
    next
      case False
      then show ?thesis using y inv(1) by (simp add: rows_match_def)
    qed
  next
    fix x
    assume "x \<in> set (instant_claims d')"
    then show "x\<lparr>icr_last_error := None\<rparr> = claim_row (icr_data x)" using inv(1) d'(3) by (simp add: rows_match_def)
  qed
  moreover have "quotes_ok env d'" using inv(2) quotes_ok_cong [OF d'(4,5)] by simp
  moreover have "claims_ok env (w_calls w) (fixed_claims d') (instant_records d')"
    unfolding f same
    by (rule claims_ok_fixed [OF inv(3)]) (use only adv ok inv(3) in \<open>auto simp: fixed_adv_refl claims_ok_def\<close>)
  moreover have "c' \<in> set (fixed_claims d')" using c unfolding f by (auto simp: image_iff)
  moreover have "z \<in> set (fixed_claims d')" if z: "z \<in> set zs" for z
  proof -
    have "z \<in> set (fixed_claims ?d)" using held z by (auto simp: dheld_def)
    moreover have "dc_id z \<noteq> dc_id c" using others z by (metis imageI)
    ultimately show ?thesis unfolding f by (auto simp: image_iff intro!: bexI [of _ z])
  qed
  ultimately show ?thesis using d'(1) by (auto simp: dheld_def deposits_ok_def)
qed

lemma save_instant_held:
  assumes held: "dheld env [Instant r] w" and adv: "instant_adv r r'" and ok: "instant_ok env (w_calls w) r'"
  shows "dheld env [Instant r'] (w\<lparr>w_db := snd (save_instant r' (w_db w))\<rparr>)"
proof -
  let ?d = "w_db w" and ?f = "\<lambda>x. if ic_id x = ic_id r then r' else x"
  have id: "ic_id r' = ic_id r" and q: "ic_quote r' = ic_quote r" using adv by (simp_all add: instant_adv_def)
  have inv: "rows_match ?d" "quotes_ok env ?d" "claims_ok env (w_calls w) (fixed_claims ?d) (instant_records ?d)"
      and r: "r \<in> set (instant_records ?d)"
    using held by (simp_all add: dheld_def deposits_ok_def)
  have "distinct (map ic_id (instant_records ?d))" using inv(3) unfolding claims_ok_def by blast
  then have only: "x = r" if "x \<in> set (instant_records ?d)" "ic_id x = ic_id r" for x
    using that r by (auto simp: distinct_map inj_on_def)
  obtain d' where d': "save_instant r' ?d = (Inr (), d')"
    "instant_claims d' = update_rows (\<lambda>x. icr_id x = ic_id r') (\<lambda>x. x\<lparr>icr_phase := ic_phase r', icr_data := r', icr_last_error := None\<rparr>) (instant_claims ?d)"
    "deposit_claims d' = deposit_claims ?d" "deposit_quotes d' = deposit_quotes ?d" "instant_quotes d' = instant_quotes ?d"
    by (rule save_instant_run)
  have same: "fixed_claims d' = fixed_claims ?d" by (simp add: fixed_claims_def d'(3))
  have f: "instant_records d' = map ?f (instant_records ?d)"
    using instant_match(1) [OF inv(1)] by (simp add: instant_records_def d'(2) update_rows_def id)
  have match: "x\<lparr>icr_phase := ic_phase r', icr_data := r', icr_last_error := None\<rparr> = claim_row r'"
    if x: "x \<in> set (instant_claims ?d)" "icr_id x = ic_id r" for x
  proof -
    have "icr_data x = r" using only [of "icr_data x"] instant_match(1) [OF inv(1) x(1)] x by (simp add: instant_records_def)
    then have "x\<lparr>icr_last_error := None\<rparr> = claim_row r" using inv(1) x(1) by (simp add: rows_match_def)
    moreover have "x\<lparr>icr_phase := ic_phase r', icr_data := r', icr_last_error := None\<rparr> =
        x\<lparr>icr_last_error := None\<rparr>\<lparr>icr_phase := ic_phase r', icr_data := r'\<rparr>" by simp
    ultimately have "x\<lparr>icr_phase := ic_phase r', icr_data := r', icr_last_error := None\<rparr> = claim_row r\<lparr>icr_phase := ic_phase r', icr_data := r'\<rparr>"
      by metis
    then show ?thesis by (simp add: claim_row_def instant_row_def instant_owner_def Let_def id q)
  qed
  have "rows_match d'"
    unfolding rows_match_def
  proof (intro conjI ballI)
    fix x
    assume "x \<in> set (instant_claims d')"
    then obtain y where y: "y \<in> set (instant_claims ?d)"
        "x = (if icr_id y = ic_id r then y\<lparr>icr_phase := ic_phase r', icr_data := r', icr_last_error := None\<rparr> else y)"
      by (auto simp: d'(2) update_rows_def id)
    have e: "claim_row r'\<lparr>icr_last_error := None\<rparr> = claim_row r'" by (simp add: claim_row_def instant_row_def Let_def)
    show "x\<lparr>icr_last_error := None\<rparr> = claim_row (icr_data x)"
    proof (cases "icr_id y = ic_id r")
      case True
      then have "x = claim_row r'" using y match by simp
      then show ?thesis using e by simp
    next
      case False
      then show ?thesis using y inv(1) by (simp add: rows_match_def)
    qed
  next
    fix x
    assume "x \<in> set (deposit_claims d')"
    then show "x\<lparr>dcr_last_error := None\<rparr> = fixed_row (dcr_data x)" using inv(1) d'(3) by (simp add: rows_match_def)
  qed
  moreover have "quotes_ok env d'" using inv(2) quotes_ok_cong [OF d'(4,5)] by simp
  moreover have "claims_ok env (w_calls w) (fixed_claims d') (instant_records d')"
    unfolding f same
    by (rule claims_ok_instant [OF inv(3)]) (use only adv ok inv(3) in \<open>auto simp: instant_adv_refl claims_ok_def\<close>)
  moreover have "r' \<in> set (instant_records d')" using r unfolding f by (auto simp: image_iff)
  ultimately show ?thesis using d'(1) by (auto simp: dheld_def deposits_ok_def)
qed

text \<open>The triples of the two saves.\<close>

lemma triple_save_deposit:
  assumes "fixed_adv c c'" "dc_id c \<notin> dc_id ` set zs" "\<And>log. L log \<Longrightarrow> fixed_ok env log c \<Longrightarrow> fixed_ok env log c'"
  shows "triple (dat env (Fixed c # map Fixed zs) L) (on_db (save_deposit c')) (\<lambda>_. dat env (Fixed c' # map Fixed zs) L) E"
proof (rule tripleI)
  fix w x w'
  assume w: "dat env (Fixed c # map Fixed zs) L w" "on_db (save_deposit c') w = (Inr x, w')"
  then have "w' = w\<lparr>w_db := snd (save_deposit c' (w_db w))\<rparr>" by (auto simp: on_db_def split: prod.splits)
  moreover have "fixed_ok env (w_calls w) c" using w(1) by (auto simp: dat_def dheld_def deposits_ok_def claims_ok_def)
  ultimately show "dat env (Fixed c' # map Fixed zs) L w'"
    using w(1) save_deposit_held [OF _ assms(1) _ assms(2)] assms(3) by (simp add: dat_def)
next
  fix w e and w' :: deposit_world
  assume e: "on_db (save_deposit c') w = (Inl e, w')"
  obtain d where "save_deposit c' (w_db w) = (Inr (), d)" by (rule save_deposit_run)
  then show "E w'" using e by (simp add: on_db_def)
qed

lemma triple_save_instant:
  assumes "instant_adv r r'" "\<And>log. L log \<Longrightarrow> instant_ok env log r \<Longrightarrow> instant_ok env log r'"
  shows "triple (dat env [Instant r] L) (on_db (save_instant r')) (\<lambda>_. dat env [Instant r'] L) E"
proof (rule tripleI)
  fix w x w'
  assume w: "dat env [Instant r] L w" "on_db (save_instant r') w = (Inr x, w')"
  then have "w' = w\<lparr>w_db := snd (save_instant r' (w_db w))\<rparr>" by (auto simp: on_db_def split: prod.splits)
  moreover have "instant_ok env (w_calls w) r" using w(1) by (auto simp: dat_def dheld_def deposits_ok_def claims_ok_def)
  ultimately show "dat env [Instant r'] L w'"
    using w(1) save_instant_held [OF _ assms(1)] assms(2) by (simp add: dat_def)
next
  fix w e and w' :: deposit_world
  assume e: "on_db (save_instant r') w = (Inl e, w')"
  obtain d where "save_instant r' (w_db w) = (Inr (), d)" by (rule save_instant_run)
  then show "E w'" using e by (simp add: on_db_def)
qed

section \<open>New claims\<close>

lemma apart_by_rows:
  assumes m: "rows_match d" and i: "i \<in> set (instant_claims d)" and q: "quoted_terms env (iq_deposit (ic_quote (icr_data i)))"
    and "\<not> (icr_txid i = dq_txid (dc_quote c) \<and> icr_vout i = dq_vout (dc_quote c) \<or>
      icr_address i = dq_address (dc_quote c) \<and> uint (icr_value i) = quoted_value (dc_quote c) \<and> instant_pending i)"
  shows "apart c (icr_data i)"
  using assms(4) quoted_value_exact [OF q] unfolding instant_match [OF m i] apart_def fixed_point_def instant_point_def by auto

lemma insert_deposit_held:
  assumes held: "dheld env [] w" and new: "fixed_ok env (w_calls w) c"
    and run: "insert_deposit_claim env (dq_txid (dc_quote c)) (dq_vout (dc_quote c)) (dq_owner (dc_quote c)) created c (w_db w) = (Inr u, d')"
  shows "dheld env [Fixed c] (w\<lparr>w_db := d'\<rparr>)"
proof -
  let ?d = "w_db w" and ?q = "dc_quote c"
  have inv: "rows_match ?d" "quotes_ok env ?d" "claims_ok env (w_calls w) (fixed_claims ?d) (instant_records ?d)"
    using held by (simp_all add: dheld_def deposits_ok_def)
  have d': "deposit_claims d' = deposit_claims ?d @ [fixed_row c]" "instant_claims d' = instant_claims ?d"
      "deposit_quotes d' = deposit_quotes ?d" "instant_quotes d' = instant_quotes ?d"
    and fresh: "\<forall>x\<in>set (deposit_claims ?d). \<not> deposit_claim_clash (fixed_row c) x" "\<not> reserved_for_instant (dq_txid ?q) (dq_vout ?q) ?q ?d"
    using run
    by (auto simp: fixed_row_def insert_deposit_claim_def transaction_def action_defs insert_into_def insert_request_row_def list_ex_iff
        split: if_splits sum.splits prod.splits)
  have "apart c r" if "r \<in> set (instant_records ?d)" for r
  proof -
    obtain i where i: "i \<in> set (instant_claims ?d)" "r = icr_data i" using \<open>r \<in> _\<close> by (auto simp: instant_records_def)
    have "quoted_terms env (iq_deposit (ic_quote (icr_data i)))"
      using inv(3) that i(2) instant_ok_terms unfolding claims_ok_def by blast
    then show ?thesis
      using apart_by_rows [OF inv(1) i(1)] fresh(2) i by (auto simp: reserved_for_instant_def list_ex_iff)
  qed
  moreover have "dc_id c \<notin> dc_id ` set (fixed_claims ?d)" "fixed_point c \<notin> fixed_point ` set (fixed_claims ?d)"
    using fresh(1) fixed_match [OF inv(1)] by (auto simp: fixed_claims_def fixed_point_def deposit_claim_clash_def)
  moreover have recs: "fixed_claims d' = fixed_claims ?d @ [c]" "instant_records d' = instant_records ?d"
    by (simp_all add: fixed_claims_def instant_records_def d')
  ultimately have "claims_ok env (w_calls w) (fixed_claims d') (instant_records d')"
    unfolding recs by (intro claims_ok_new_fixed [OF inv(3) new]) auto
  moreover have "rows_match d'"
    using inv(1) by (auto simp: rows_match_def d'(1,2) fixed_row_def deposit_claim_row_of_def)
  moreover have "quotes_ok env d'" using inv(2) quotes_ok_cong [OF d'(3,4)] by simp
  ultimately show ?thesis by (simp add: dheld_def deposits_ok_def recs)
qed

lemma within_exposure_Inr:
  "within_exposure env v credit outstanding = Inr u \<Longrightarrow> v \<le> d_max_deposit env \<and> unat outstanding + unat credit \<le> unat (d_limit env)"
  unfolding within_exposure_def check_exposure_def
  by (auto split: if_splits option.splits dest!: unat_checked_add simp: word_le_nat_alt not_less)

lemma insert_instant_held:
  assumes held: "dheld env [] w" and due: "credit_due r"
    and new: "dq_credit (iq_deposit (ic_quote r)) + dq_fee (iq_deposit (ic_quote r)) \<le> d_max_deposit env \<Longrightarrow> instant_ok env (w_calls w) r"
    and run: "insert_instant_claim env (instant_owner r) created r (w_db w) = (Inr u, d')"
  shows "dheld env [Instant r] (w\<lparr>w_db := d'\<rparr>)"
proof -
  let ?d = "w_db w" and ?q = "iq_deposit (ic_quote r)"
  have inv: "rows_match ?d" "quotes_ok env ?d" "claims_ok env (w_calls w) (fixed_claims ?d) (instant_records ?d)"
    using held by (simp_all add: dheld_def deposits_ok_def)
  have d': "instant_claims d' = instant_claims ?d @ [claim_row r]" "deposit_claims d' = deposit_claims ?d"
      "deposit_quotes d' = deposit_quotes ?d" "instant_quotes d' = instant_quotes ?d"
    and fresh: "\<forall>x\<in>set (instant_claims ?d). \<not> instant_claim_clash (claim_row r) x" "\<not> reserved_for_claim (claim_row r) ?d"
    and fits: "outstanding_credit ?d \<le> i64_max"
      "is_ok (within_exposure env (dq_credit ?q + dq_fee ?q) (dq_credit ?q) (word_of_int (outstanding_credit ?d)))"
    using run
    by (auto simp: claim_row_def insert_instant_claim_def instant_outstanding_def transaction_def action_defs insert_into_def insert_request_row_def list_ex_iff Let_def
        split: if_splits sum.splits prod.splits)
  obtain v where "within_exposure env (dq_credit ?q + dq_fee ?q) (dq_credit ?q) (word_of_int (outstanding_credit ?d)) = Inr v"
    using fits(2) by (rule is_okE)
  note limits = within_exposure_Inr [OF this]
  then have ok: "instant_ok env (w_calls w) r" using new by simp
  have small: "int (due_credit (instant_records ?d)) \<le> i64_max" using fits(1) outstanding_due [OF inv(1)] by simp
  then have "unat (word_of_int (outstanding_credit ?d) :: u64) = due_credit (instant_records ?d)"
    unfolding outstanding_due [OF inv(1)] by (simp add: i64_max_def unat_of_nat)
  then have room: "due_credit (instant_records ?d) + credit_of r \<le> unat (d_limit env)"
    using limits by (simp add: credit_of_def)
  have owner: "instant_owner r \<notin> instant_owner ` set (filter credit_due (instant_records ?d))"
  proof
    assume "instant_owner r \<in> instant_owner ` set (filter credit_due (instant_records ?d))"
    then obtain i where i: "i \<in> set (instant_claims ?d)" "credit_due (icr_data i)" "instant_owner (icr_data i) = instant_owner r"
      by (auto simp: instant_records_def)
    then have "instant_claim_clash (claim_row r) i"
      using instant_match [OF inv(1) i(1)] due by (simp add: instant_claim_clash_def instant_pending_def credit_due_def)
    then show False using fresh(1) i(1) by blast
  qed
  have keys: "ic_id r \<notin> ic_id ` set (instant_records ?d)" "instant_point r \<notin> instant_point ` set (instant_records ?d)"
    using fresh(1) instant_match [OF inv(1)] by (auto simp: instant_records_def instant_point_def instant_claim_clash_def)
  have "apart c r" if "c \<in> set (fixed_claims ?d)" for c
  proof -
    obtain x where x: "x \<in> set (deposit_claims ?d)" "c = dcr_data x" using \<open>c \<in> _\<close> by (auto simp: fixed_claims_def)
    have "quoted_terms env ?q" by (rule instant_ok_terms [OF ok])
    from quoted_value_exact [OF this] show ?thesis
      using fresh(2) x fixed_match [OF inv(1) x(1)]
      by (auto simp: reserved_for_claim_def list_ex_iff apart_def fixed_point_def instant_point_def)
  qed
  note apart = this
  have recs: "fixed_claims d' = fixed_claims ?d" "instant_records d' = instant_records ?d @ [r]"
    by (simp_all add: fixed_claims_def instant_records_def d')
  have "claims_ok env (w_calls w) (fixed_claims d') (instant_records d')"
    unfolding recs by (rule claims_ok_new_instant [OF inv(3) ok keys owner room apart])
  moreover have "rows_match d'"
    using inv(1) by (auto simp: rows_match_def d'(1,2) claim_row_def instant_row_def Let_def)
  moreover have "quotes_ok env d'" using inv(2) quotes_ok_cong [OF d'(3,4)] by simp
  ultimately show ?thesis by (simp add: dheld_def deposits_ok_def recs)
qed

end
