(* ===== verification/Deposit_Runs.thy ===== *)
theory Deposit_Runs
  imports Deposit_Safety
begin

text \<open>
  The handlers and workers of the deposit services keep the invariant of theory Deposit_Safety,
  in any order and with any answers of the Bitcoin node and the operators; what follows for every
  run is stated at the end, with a concrete run in which a deposit is credited and recovered.
\<close>

section \<open>Quiet statements\<close>

lemma same_claims_read: "(\<And>d. snd (m d) = d) \<Longrightarrow> obeys (same_claims env) m"
  by (simp add: obeys_def same_claims.R_refl)

lemma same_claims_reads:
  "obeys (same_claims env) (deposit_claim_at txid vout)" "obeys (same_claims env) (deposit_claim_of txid vout owner)"
  "obeys (same_claims env) (instant_claim_of p)" "obeys (same_claims env) instant_outstanding"
  "obeys (same_claims env) (live_instant_quote txid vout owner now)" "obeys (same_claims env) (claim_busy owner q)"
  "obeys (same_claims env) pending_deposits" "obeys (same_claims env) (pick_instant shuffle)"
  by (auto intro!: same_claims_read simp: deposit_claim_at_def deposit_claim_of_def instant_claim_of_def instant_outstanding_def
      live_instant_quote_def claim_busy_def pending_deposits_def pick_instant_def query_optional_def select_where_def bind_action_def ret_def
      split: sum.splits)

lemma update_error_rows:
  "map dcr_data (update_rows p (\<lambda>r. r\<lparr>dcr_last_error := x\<rparr>) rs) = map dcr_data rs"
  "map icr_data (update_rows p' (\<lambda>r. r\<lparr>icr_last_error := x\<rparr>) ss) = map icr_data ss"
  by (simp_all add: update_rows_def)

lemma same_claims_notes:
  "obeys (same_claims env) (note_deposit_error i message)" "obeys (same_claims env) (note_instant_error i message)"
proof -
  show "obeys (same_claims env) (note_deposit_error i message)"
    by (auto simp: obeys_def same_claims_def note_deposit_error_def void_def update_where_def bind_action_def ret_def fixed_claims_def
        instant_records_def update_error_rows quotes_ok_def rows_match_def update_rows_def)
  show "obeys (same_claims env) (note_instant_error i message)"
    by (auto simp: obeys_def same_claims_def note_instant_error_def void_def update_where_def bind_action_def ret_def fixed_claims_def
        instant_records_def update_error_rows quotes_ok_def rows_match_def update_rows_def)
qed

lemma same_claims_quotes:
  "fixed_terms env q \<Longrightarrow> obeys (same_claims env) (save_deposit_quote now q)"
  "instant_terms env i \<Longrightarrow> obeys (same_claims env) (save_instant_quote now i)"
proof -
  show "fixed_terms env q \<Longrightarrow> obeys (same_claims env) (save_deposit_quote now q)"
    by (auto simp: obeys_def same_claims_def save_deposit_quote_def transaction_def action_defs statement_defs fixed_claims_def
        instant_records_def quotes_ok_def rows_match_def update_rows_def split: if_splits sum.splits prod.splits)
  show "instant_terms env i \<Longrightarrow> obeys (same_claims env) (save_instant_quote now i)"
    by (auto simp: obeys_def same_claims_def save_instant_quote_def transaction_def action_defs statement_defs fixed_claims_def
        instant_records_def quotes_ok_def rows_match_def Let_def split: if_splits sum.splits prod.splits)
qed

lemma dquiet_reading: "obeys (dquiet env) (reading f)" "(\<And>x. obeys (dquiet env) (m x)) \<Longrightarrow> obeys (dquiet env) (bind_action (reading f) m)"
  by (auto simp: obeys_def reading_def bind_action_def ret_def deposits.quiet_refl)

lemmas dquiet_intros = deposits.quiet.obeys_bind deposits.quiet.obeys_then deposits.quiet.obeys_lift deposits.quiet.obeys_ret
  deposits.quiet.obeys_throw deposits.quiet.obeys_if deposits.quiet.obeys_case_option deposits.quiet.obeys_case_prod
  deposits.quiet.obeys_handle deposits.quiet_on_db same_claims_reads same_claims.obeys_queries deposits.quiet_ask dquiet_reading

lemma dquiet_calls:
  "obeys (dquiet env) (ask_output env txid vout)" "obeys (dquiet env) (recovery_rate env)"
  "obeys (dquiet env) (static_deposit_address env owner address)" "obeys (dquiet env) (observed_confirmations env txid)"
  "obeys (dquiet env) (confirmed_output env txid vout message)" "obeys (dquiet env) (change_address env)"
  "obeys (dquiet env) (ask_height env)" "obeys (dquiet env) (no_unconfirmed_ancestors env txid coin)"
  "obeys (dquiet env) (prepare_static_claim env q encrypted signature i spend)"
  "obeys (dquiet env) (recheck_output env q)"
proof -
  show o: "obeys (dquiet env) (ask_output env txid vout)" for txid vout
    unfolding ask_output_def by (intro dquiet_intros) simp
  show "obeys (dquiet env) (recovery_rate env)"
    unfolding recovery_rate_def by (intro dquiet_intros) simp
  show "obeys (dquiet env) (static_deposit_address env owner address)"
    unfolding static_deposit_address_def by (intro dquiet_intros) (auto intro!: dquiet_intros split: list.split)
  show "obeys (dquiet env) (observed_confirmations env txid)"
    unfolding observed_confirmations_def by (intro dquiet_intros) simp
  show "obeys (dquiet env) (confirmed_output env txid vout message)"
    unfolding confirmed_output_def by (intro dquiet_intros o)
  show "obeys (dquiet env) (change_address env)"
    unfolding change_address_def by (intro dquiet_intros) simp
  show "obeys (dquiet env) (ask_height env)"
    unfolding ask_height_def by (intro dquiet_intros) simp
  show n: "obeys (dquiet env) (no_unconfirmed_ancestors env txid coin)" for txid coin
    unfolding no_unconfirmed_ancestors_def by (intro dquiet_intros) simp
  show "obeys (dquiet env) (prepare_static_claim env q encrypted signature i spend)"
    unfolding prepare_static_claim_def by (intro dquiet_intros) simp_all
  show "obeys (dquiet env) (recheck_output env q)"
    unfolding recheck_output_def by (intro dquiet_intros o n)
qed

lemma dquiet_plans:
  "obeys (dquiet env) (plan_deposit_claim env txid vout q input)"
  "obeys (dquiet env) (plan_instant_claim env i encrypted signature)"
  "obeys (dquiet env) (checked_instant_claim env owner i input)"
proof -
  show "obeys (dquiet env) (plan_deposit_claim env txid vout q input)"
    unfolding plan_deposit_claim_def by (intro dquiet_intros dquiet_calls)
  show p: "obeys (dquiet env) (plan_instant_claim env i encrypted signature)" for encrypted signature
    unfolding plan_instant_claim_def Let_def by (intro dquiet_intros dquiet_calls)
  show "obeys (dquiet env) (checked_instant_claim env owner i input)"
    unfolding checked_instant_claim_def Let_def by (intro dquiet_intros dquiet_calls p)
qed

lemma dquiet_scans:
  "obeys (dquiet env) (scan_outputs env q script t outputs)" "obeys (dquiet env) (scan_transactions env q script ts)"
  "obeys (dquiet env) (scan_blocks env q script heights)"
proof -
  show o: "obeys (dquiet env) (scan_outputs env q script t outputs)" for t outputs
    by (induction outputs) (auto intro!: dquiet_intros)
  show t: "obeys (dquiet env) (scan_transactions env q script ts)" for ts
    by (induction ts) (auto intro!: dquiet_intros o split: option.split)
  show "obeys (dquiet env) (scan_blocks env q script heights)"
    by (induction heights) (auto intro!: dquiet_intros t split: option.split)
qed

section \<open>Quotes\<close>

lemma static_deposit_address_ok:
  "static_deposit_address env owner address w = (Inr a, w') \<Longrightarrow>
   (\<exists>h key. d_parse_key env owner = Some key \<and> d_addresses env h key address = Inr [a]) \<and> sa_address a = address"
  unfolding static_deposit_address_def
  by (auto simp: lift_result_Inr ask_Inr ret_Inr throw_Inr elim!: bind_InrE split: if_splits list.splits) blast

lemma output_address_ok: "output_address env m coin = Inr (script, address) \<Longrightarrow> d_script_address env script = Some address"
  by (auto simp: output_address_def and_then_Inr)

lemma recovery_terms_ok:
  "recovery_terms m s v rate = Inr (fee, credit) \<Longrightarrow> unat v = unat credit + unat fee \<and> 330 \<le> credit \<and> v = credit + fee"
  by (auto simp: recovery_terms_def and_then_Inr checked_sub_Some dest: unat_checked_sub split: if_splits) 
     (simp add: unat_sub word_le_nat_alt)

lemma quoted_terms_new:
  assumes "recovery_terms m s v rate = Inr (fee, credit)" "d_script_address env script = Some address"
    "static_deposit_address env owner address w = (Inr keys, w')"
  shows "quoted_terms env (deposit_quote_of env txid vout owner credit fee signature expires address keys v script)"
  using recovery_terms_ok [OF assms(1)] static_deposit_address_ok [OF assms(3)] assms(2)
  unfolding quoted_terms_def deposit_quote_of_def by auto

text \<open>The statements after a check may rely on it.\<close>

lemma dquiet_lift_pair:
  "(\<And>a b. r = Inr (a, b) \<Longrightarrow> obeys (dquiet env) (k a b)) \<Longrightarrow> obeys (dquiet env) (bind_action (lift_result r) (\<lambda>(a, b). k a b))"
  by (rule deposits.quiet.obeys_bind_result [OF deposits.quiet.obeys_lift]) (auto simp: lift_result_Inr split: prod.split)

lemma dquiet_address:
  assumes "\<And>keys w w'. static_deposit_address env owner address w = (Inr keys, w') \<Longrightarrow> obeys (dquiet env) (k keys)"
  shows "obeys (dquiet env) (bind_action (static_deposit_address env owner address) k)"
  by (rule deposits.quiet.obeys_bind_result [OF dquiet_calls(3)]) (rule assms)

lemma fixed_terms_new:
  assumes "recovery_terms m s v rate = Inr (fee, credit)" "d_script_address env script = Some address"
    "static_deposit_address env owner address w = (Inr keys, w')"
  shows "fixed_terms env (deposit_quote_of env txid vout owner credit fee (d_quote_signature env
     (JArr [JStr ''open-ssp-static-deposit-v1'', JStr (d_network env), JStr txid, JInt (uint vout), JStr owner, juint credit, JInt expires]))
     expires address keys v script)"
  using quoted_terms_new [OF assms] by (simp add: fixed_terms_def) (simp add: deposit_quote_of_def)

lemma instant_terms_new:
  assumes "recovery_terms m s v rate = Inr (fee, credit)" "d_script_address env script = Some address"
    "static_deposit_address env owner address w = (Inr keys, w')"
  shows "instant_terms env \<lparr>iq_id = i, iq_deposit = deposit_quote_of env txid vout owner credit fee (d_quote_signature env
     (JArr [JStr ''open-ssp-instant-deposit-v1'', JStr i, JStr (d_network env), JStr owner, JStr txid, JInt (uint vout), juint v,
        juint credit, JInt expires])) expires address keys v script, iq_height = height\<rparr>"
  using quoted_terms_new [OF assms] recovery_terms_ok [OF assms(1)]
  by (simp add: instant_terms_def Let_def) (simp add: deposit_quote_of_def)

lemma dquiet_new_quotes:
  assumes "d_script_address env script = Some address" "static_deposit_address env owner address w0 = (Inr keys, w1)"
  shows "obeys (dquiet env) (new_static_quote env owner txid vout v script address keys)"
    "obeys (dquiet env) (new_instant_quote env owner txid vout v script address keys)"
proof -
  show "obeys (dquiet env) (new_static_quote env owner txid vout v script address keys)"
    unfolding new_static_quote_def Let_def
    by (rule deposits.quiet.obeys_bind [OF dquiet_calls(2)], rule dquiet_lift_pair)
      (intro dquiet_intros dquiet_calls same_claims_quotes fixed_terms_new [OF _ assms], assumption)
  show "obeys (dquiet env) (new_instant_quote env owner txid vout v script address keys)"
    unfolding new_instant_quote_def Let_def
    by (rule deposits.quiet.obeys_bind [OF dquiet_calls(2)], rule dquiet_lift_pair)
      (intro dquiet_intros dquiet_calls same_claims_quotes instant_terms_new [OF _ assms], assumption)
qed

lemma dquiet_quotes:
  "obeys (dquiet env) (quote_output env owner txid vout)" "obeys (dquiet env) (quote_instant_output env owner txid vout)"
proof -
  show "obeys (dquiet env) (quote_output env owner txid vout)"
    unfolding quote_output_def
    by (rule deposits.quiet.obeys_bind [OF dquiet_calls(5)], rule deposits.quiet.obeys_bind [OF deposits.quiet.obeys_lift],
        rule dquiet_lift_pair, rule dquiet_address)
      (intro dquiet_intros dquiet_new_quotes(1), auto dest: output_address_ok)
  show "obeys (dquiet env) (quote_instant_output env owner txid vout)"
    unfolding quote_instant_output_def
    by (rule deposits.quiet.obeys_then [OF deposits.quiet.obeys_lift], rule deposits.quiet.obeys_bind [OF dquiet_calls(1)],
        rule deposits.quiet.obeys_if [OF deposits.quiet.obeys_throw], rule deposits.quiet.obeys_bind [OF deposits.quiet.obeys_lift],
        rule deposits.quiet.obeys_then [OF deposits.quiet.obeys_lift], rule deposits.quiet.obeys_then [OF dquiet_calls(8)],
        rule dquiet_lift_pair, rule dquiet_address)
      (intro dquiet_intros dquiet_new_quotes(2), auto dest: output_address_ok)
qed

lemma dquiet_quote_handlers:
  "obeys (dquiet env) (static_quote env owner input)" "obeys (dquiet env) (quote_instant env owner input)"
proof -
  show "obeys (dquiet env) (static_quote env owner input)"
    unfolding static_quote_def by (intro dquiet_intros dquiet_quotes)
  show "obeys (dquiet env) (quote_instant env owner input)"
    unfolding quote_instant_def by (intro dquiet_intros dquiet_quotes)
qed

section \<open>Submissions\<close>

definition signing_call :: "swap_request \<Rightarrow> signing_job \<Rightarrow> string \<Rightarrow> bool \<Rightarrow> deposit_call" where
  "signing_call request job i instant = (if instant then RecoverDeposit (sr_utxo request) job i else SwapDeposit request)"

lemma submit_cases:
  assumes "submit_static_claim env q i plan instant w = (res, w')"
  obtains e where "res = Inl e" "w' = w"
  | request job where "d_decode_request env (pl_request plan) = Some request" "sr_job request = Some job"
      "w' = w\<lparr>w_calls := w_calls w @ [signing_call request job i instant]\<rparr>"
      "\<And>raw. res = Inr raw \<Longrightarrow> claim_settled env (w_calls w') q i plan instant raw"
proof (cases "d_decode_request env (pl_request plan)")
  case None
  then show ?thesis using assms by (auto simp: submit_static_claim_def action_defs intro: that(1))
next
  case (Some request)
  note r = this
  show ?thesis
  proof (cases "sr_job request")
    case None
    then show ?thesis using assms r by (auto simp: submit_static_claim_def action_defs intro: that(1))
  next
    case (Some job)
    show ?thesis
    proof (cases "d_private_pool env")
      case False
      then show ?thesis using assms r Some by (auto simp: submit_static_claim_def action_defs intro: that(1))
    next
      case True
      have w': "w' = w\<lparr>w_calls := w_calls w @ [signing_call request job i instant]\<rparr>"
        using assms r Some True
        by (auto simp: submit_static_claim_def action_defs ask_def signing_call_def split: if_splits sum.splits)
      have "claim_settled env (w_calls w') q i plan instant raw" if "res = Inr raw" for raw
        using assms r Some True that unfolding claim_settled_def w'
        by (auto simp: submit_static_claim_def action_defs ask_def signing_call_def asked_snoc split: if_splits sum.splits
            intro!: exI [of _ "w_calls w"])
      then show ?thesis using that(2) [OF r Some w'] by blast
    qed
  qed
qed

lemma triple_submit:
  assumes "grows L" "\<And>w request job. dat env (z # zs) L w \<Longrightarrow> d_decode_request env (pl_request plan) = Some request \<Longrightarrow>
      sr_job request = Some job \<Longrightarrow> prescribed_in env w (signing_call request job i instant)"
  shows "triple (dat env (z # zs) L) (submit_static_claim env q i plan instant)
     (\<lambda>raw. dat env (z # zs) (\<lambda>log. L log \<and> claim_settled env log q i plan instant raw)) (dheld env zs)"
proof -
  have step: "dat env (z # zs) L (w\<lparr>w_calls := w_calls w @ [signing_call request job i instant]\<rparr>)"
    if "dat env (z # zs) L w" "d_decode_request env (pl_request plan) = Some request" "sr_job request = Some job" for w request job
    using that assms(2) [OF that] deposits.held_call [of env "z # zs" w] assms(1) by (simp add: dat_def grows_def)
  show ?thesis
  proof (rule tripleI)
    fix w raw w'
    assume w: "dat env (z # zs) L w" "submit_static_claim env q i plan instant w = (Inr raw, w')"
    from w(2) show "dat env (z # zs) (\<lambda>log. L log \<and> claim_settled env log q i plan instant raw) w'"
      by (rule submit_cases) (use step [OF w(1)] in \<open>auto simp: dat_def\<close>)
  next
    fix w e w'
    assume w: "dat env (z # zs) L w" "submit_static_claim env q i plan instant w = (Inl e, w')"
    from w(2) show "dheld env zs w'"
      by (rule submit_cases) (use step [OF w(1)] deposits.at_fewer [of env z zs L] w(1) in auto)
  qed
qed

section \<open>Confirmed deposits\<close>

lemma dat_fixed_ok: "dat env (Fixed c # zs) L w \<Longrightarrow> fixed_ok env (w_calls w) c"
  by (auto simp: dat_def dheld_def deposits_ok_def claims_ok_def)

lemma dat_instant_ok: "dat env (Instant r # zs) L w \<Longrightarrow> instant_ok env (w_calls w) r"
  by (auto simp: dat_def dheld_def deposits_ok_def claims_ok_def)

lemma send_spend_ok:
  assumes "z = Fixed c \<and> dc_signed_spend c = Some raw \<or> z = Instant r \<and> ic_signed_spend r = Some raw" "grows L"
  shows "triple (dat env (z # zs) L) (if b then send_spend env raw else ret ()) (\<lambda>_. dat env (z # zs) L) (dheld env zs)"
  unfolding send_spend_def
  by (intro triple_if deposits.triple_call [OF assms(2)] triple_ret) (use assms(1) in \<open>auto simp: dat_def dheld_def\<close>)

abbreviation (input) always :: "deposit_call list \<Rightarrow> bool" where
  "always \<equiv> \<lambda>_. True"

lemma sign_deposit_ok:
  assumes "dc_phase c \<noteq> ''SPEND_TX_CONFIRMED''" "dc_id c \<notin> dc_id ` set zs"
  shows "triple (dat env (Fixed c # map Fixed zs) always) (sign_deposit env c)
     (\<lambda>c' w. (dc_signed_spend c' \<noteq> None \<and> dc_id c' = dc_id c) \<and> dat env (Fixed c' # map Fixed zs) always w) (dheld env (map Fixed zs))"
proof (cases "dc_signed_spend c")
  case (Some raw)
  then show ?thesis unfolding sign_deposit_def by (simp add: triple_ret)
next
  case None
  let ?c = "\<lambda>raw. c\<lparr>dc_signed_spend := Some raw, dc_phase := ''SPEND_TX_CREATED''\<rparr>"
  let ?S = "\<lambda>raw log. True \<and> claim_settled env log (dc_quote c) (dc_transfer_id c) (dc_plan c) False raw"
  have submit: "triple (dat env (Fixed c # map Fixed zs) always) (submit_static_claim env (dc_quote c) (dc_transfer_id c) (dc_plan c) False)
      (\<lambda>raw. dat env (Fixed c # map Fixed zs) (?S raw)) (dheld env (map Fixed zs))"
    by (rule triple_submit [OF grows_deposit_log(5)]) (auto simp: dat_def dheld_def signing_call_def)
  have save: "triple (dat env (Fixed c # map Fixed zs) (?S raw)) (on_db (save_deposit (?c raw)))
      (\<lambda>_. dat env (Fixed (?c raw) # map Fixed zs) (?S raw)) (dheld env (map Fixed zs))" for raw
    by (rule triple_save_deposit) (use assms None in \<open>auto simp: fixed_adv_def fixed_ok_def fixed_agreed_def\<close>)
  show ?thesis
    unfolding sign_deposit_def Let_def using None
    by (simp, intro triple_bind [OF submit] triple_then [OF save] triple_ret) (auto simp: dat_def)
qed

lemma advance_deposit_ok:
  assumes "dc_id c \<notin> dc_id ` set zs"
  shows "triple (dheld env (Fixed c # map Fixed zs)) (advance_deposit env c) (\<lambda>_. dheld env (map Fixed zs)) (dheld env (map Fixed zs))"
proof -
  let ?Z = "map Fixed zs"
  have hold: "dheld env (Fixed c # ?Z) = dat env (Fixed c # ?Z) always" by (simp add: dat_def fun_eq_iff)
  have send: "triple (dat env (Fixed c' # ?Z) always)
      (bind_action (lift_result (ok_or (dc_signed_spend c') e1)) (\<lambda>raw.
        bind_action (lift_result (ok_or (d_decode_tx env raw) e2)) (\<lambda>spend.
        bind_action (observed_confirmations env (d_txid env spend)) (\<lambda>n.
        then_action (if n \<le> 0 then send_spend env raw else ret ())
          (on_db (save_deposit (c'\<lparr>dc_status := ''SUCCEEDED'', dc_phase := if n > 0 then ''SPEND_TX_CONFIRMED'' else ''SPEND_TX_BROADCAST''\<rparr>)))))))
      (\<lambda>_. dheld env ?Z) (dheld env ?Z)" if c': "dc_signed_spend c' \<noteq> None" "dc_id c' = dc_id c" for c' e1 e2
  proof -
    obtain raw where raw: "dc_signed_spend c' = Some raw" using c'(1) by blast
    have status: "triple (dat env (Fixed c' # ?Z) always)
        (on_db (save_deposit (c'\<lparr>dc_status := ''SUCCEEDED'', dc_phase := if n > 0 then ''SPEND_TX_CONFIRMED'' else ''SPEND_TX_BROADCAST''\<rparr>)))
        (\<lambda>_. dheld env ?Z) (dheld env ?Z)" for n :: int
      by (rule triple_weaken [OF triple_save_deposit [where L = always and E = "dheld env ?Z"]])
        (use assms c' raw in \<open>auto simp: fixed_adv_def fixed_ok_def fixed_agreed_def deposits.at_fewer\<close>)
    have lift: "triple (dat env (Fixed c' # ?Z) always) (lift_result x) (\<lambda>_. dat env (Fixed c' # ?Z) always) (dheld env ?Z)" for x :: "'x result"
      by (rule triple_lift) (auto intro: deposits.at_fewer)
    show ?thesis
      unfolding raw ok_or_simps
      by (intro triple_bind [OF triple_lift [where Q = "\<lambda>x w. x = raw \<and> dat env (Fixed c' # ?Z) always w"]] triple_fact)
        (auto intro!: triple_bind [OF lift] triple_bind [OF deposits.keeps_at_quiet [OF dquiet_calls(4) grows_deposit_log(5)]]
          triple_then [OF send_spend_ok [of _ c'] status] intro: deposits.at_fewer simp: raw grows_deposit_log(5))
  qed
  show ?thesis
    unfolding advance_deposit_def hold
    by (intro triple_if triple_ret triple_bind [OF sign_deposit_ok] triple_fact send assms) (auto intro: deposits.at_fewer)
qed

text \<open>A planned claim satisfies the invariant before it is stored.\<close>

lemma confirmed_output_ok:
  "confirmed_output env (dq_txid q) (dq_vout q) message w = (Inr coin, w') \<Longrightarrow> output_confirmed env (w_calls w') q"
  unfolding confirmed_output_def ask_output_def output_confirmed_def
  by (auto simp: ask_Inr ret_Inr throw_Inr not_less asked_snoc split: if_splits elim!: bind_InrE intro!: exI [of _ "w_calls w"])

lemma change_address_calls: "change_address env w = (Inr a, w') \<Longrightarrow> \<exists>cs. w_calls w' = w_calls w @ cs"
  using obeysD [OF dquiet_calls(6), of env w] by (auto simp: deposits.quiet_def calls_only_def)

lemma prepared_plan_made:
  assumes "prepare_static_claim env q encrypted signature i (recovery_transaction p (dq_credit q) destination) w = (Inr plan, w')"
  shows "plan_made env (w_calls w') q i p encrypted signature plan"
proof -
  let ?w1 = "w_calls w @ [SelectLeaves (dq_credit q)]"
  obtain leaves key transfer nonce where run: "d_leaves env (w_calls w) (dq_credit q) = Inr leaves" "d_parse_key env (dq_owner q) = Some key"
      "d_transfer env ?w1 i leaves key = Inr transfer" "w_calls w' = ?w1 @ [PrepareTransfer i leaves key, AskNonce]"
      "assemble_plan env q encrypted signature (recovery_transaction p (dq_credit q) destination) transfer nonce = Inr plan"
    using assms unfolding prepare_static_claim_def
    by (auto simp: ask_Inr lift_result_Inr throw_Inr split: if_splits elim!: bind_InrE)
  have "asked_before ?w1 (SelectLeaves (dq_credit q)) (w_calls w)" by (rule asked_snoc)
  moreover have "asked_before (w_calls w') (PrepareTransfer i leaves key) ?w1" unfolding run(4) by (simp add: asked_before_def)
  ultimately show ?thesis unfolding plan_made_def using run(1-3,5) by blast
qed

definition claim_planned :: "deposit_env \<Rightarrow> deposit_call list \<Rightarrow> deposit_quote \<Rightarrow> string \<Rightarrow> string \<Rightarrow> deposit_claim \<Rightarrow> bool" where
  "claim_planned env log q encrypted signature c \<longleftrightarrow> dc_quote c = q \<and> dc_signed_spend c = None \<and> dc_status c = ''IN_PROGRESS'' \<and>
     dc_phase c = ''CREATED'' \<and>
     plan_made env log q (dc_transfer_id c) \<lparr>op_txid = dq_txid q, op_vout = dq_vout q\<rparr> encrypted signature (dc_plan c)"

lemma plan_deposit_ok:
  assumes q: "fixed_terms env q"
  shows "triple (dat env zs always) (plan_deposit_claim env (dq_txid q) (dq_vout q) q input)
     (\<lambda>c. dat env zs (\<lambda>log. dc_quote c = q \<and> fixed_ok env log c)) (dheld env zs)"
proof -
  let ?auth = "\<lambda>e s. validate_static_authorization env q e s = Inr ()"
  have lift: "triple (dat env zs always) (lift_result x) (\<lambda>_. dat env zs always) (dheld env zs)" for x :: "'x result"
    by (rule triple_lift) (auto intro: deposits.at_held)
  have auth: "triple (dat env zs always) (lift_result (validate_static_authorization env q e s)) (\<lambda>_ w. ?auth e s \<and> dat env zs always w) (dheld env zs)" for e s
    by (rule triple_lift) (auto intro: deposits.at_held)
  have seen: "triple (dat env zs always) (confirmed_output env (dq_txid q) (dq_vout q) m)
      (\<lambda>_. dat env zs (\<lambda>log. True \<and> output_confirmed env log q)) (dheld env zs)" for m
    by (rule deposits.triple_log_quiet [OF dquiet_calls(5) grows_deposit_log(5)]) (rule confirmed_output_ok)
  let ?rest = "\<lambda>e s. bind_action (change_address env) (\<lambda>destination.
      bind_action (reading (\<lambda>h. d_uuid env h 0)) (\<lambda>transfer_id.
      bind_action (prepare_static_claim env q e s transfer_id
          (recovery_transaction \<lparr>op_txid = dq_txid q, op_vout = dq_vout q\<rparr> (dq_credit q) destination)) (\<lambda>plan.
      reading (\<lambda>h. \<lparr>dc_id = d_uuid env h 1, dc_quote = q, dc_transfer_id = transfer_id, dc_plan = plan,
          dc_signed_spend = None, dc_status = ''IN_PROGRESS'', dc_phase = ''CREATED''\<rparr>))))"
  have rest: "triple (dat env zs (\<lambda>log. True \<and> output_confirmed env log q)) (?rest e s)
      (\<lambda>c. dat env zs (\<lambda>log. dc_quote c = q \<and> fixed_ok env log c)) (dheld env zs)" if auth: "?auth e s" for e s
  proof (rule triple_weaken [OF deposits.triple_log_quiet [where F = "\<lambda>c log. claim_planned env log q e s c"]])
    show "obeys (dquiet env) (?rest e s)" by (intro dquiet_intros dquiet_calls)
    show "grows (\<lambda>log. True \<and> output_confirmed env log q)" by (simp add: grows_deposit_log)
    show "claim_planned env (w_calls w') q e s c" if "?rest e s w = (Inr c, w')" for w c w'
      using that by (auto simp: claim_planned_def reading_def ret_def elim!: bind_InrE intro: prepared_plan_made)
  qed (use q auth in \<open>auto simp: dat_def claim_planned_def fixed_ok_def fixed_agreed_def Let_def\<close>)
  show ?thesis
    unfolding plan_deposit_claim_def
    by (intro triple_bind [OF lift] triple_then [OF auth] triple_fact triple_then [OF seen] rest)
qed

lemma triple_reading: "triple P (reading f) (\<lambda>_. P) E"
  by (simp add: triple_def reading_def ret_def)

lemma insert_deposit_error: "insert_deposit_claim env txid vout owner created c d = (Inl e, d') \<Longrightarrow> d' = d"
  unfolding insert_deposit_claim_def by (rule transaction_error_rolls_back)

lemma new_deposit_ok:
  assumes q: "fixed_terms env q"
  shows "triple (dheld env []) (new_deposit_claim env (dq_owner q) (dq_txid q) (dq_vout q) q input)
     (\<lambda>c. dheld env [Fixed c]) (dheld env [])"
proof -
  have insert: "triple (dat env [] (\<lambda>log. dc_quote c = q \<and> fixed_ok env log c))
      (on_db (insert_deposit_claim env (dq_txid q) (dq_vout q) (dq_owner q) created c)) (\<lambda>_. dheld env [Fixed c]) (dheld env [])" for c created
  proof (rule tripleI)
    fix w x w'
    assume w: "dat env [] (\<lambda>log. dc_quote c = q \<and> fixed_ok env log c) w"
      "on_db (insert_deposit_claim env (dq_txid q) (dq_vout q) (dq_owner q) created c) w = (Inr x, w')"
    then obtain d' where "insert_deposit_claim env (dq_txid q) (dq_vout q) (dq_owner q) created c (w_db w) = (Inr x, d')" "w' = w\<lparr>w_db := d'\<rparr>"
      by (auto simp: on_db_Inr)
    then show "dheld env [Fixed c] w'"
      using insert_deposit_held [of env w c created x d'] w(1) by (auto simp: dat_def)
  next
    fix w e w'
    assume w: "dat env [] (\<lambda>log. dc_quote c = q \<and> fixed_ok env log c) w"
      "on_db (insert_deposit_claim env (dq_txid q) (dq_vout q) (dq_owner q) created c) w = (Inl e, w')"
    then have "w' = w" by (auto simp: on_db_def dest!: insert_deposit_error split: prod.splits)
    then show "dheld env [] w'" using w(1) by (simp add: dat_def)
  qed
  show ?thesis
    unfolding new_deposit_claim_def
    by (intro triple_bind [OF plan_deposit_ok [OF q, unfolded deposits.at_True]] triple_bind [OF triple_reading] triple_then [OF insert] triple_ret)
qed

lemma found_claim: "dheld env [] w \<Longrightarrow> x \<in> set (deposit_claims (w_db w)) \<Longrightarrow> dheld env [Fixed (dcr_data x)] w"
  by (simp add: dheld_def fixed_claims_def)

lemma static_claim_ok: "keeps (dheld env []) (static_claim env owner input)"
proof -
  note quiet = deposits.keeps_quiet [OF _]
  have find: "triple (dheld env []) (on_db (deposit_claim_of txid vout owner))
      (\<lambda>c. dheld env (case c of None \<Rightarrow> [] | Some c \<Rightarrow> [Fixed c])) (dheld env [])" for txid vout
    by (rule tripleI) (auto simp: on_db_def deposit_claim_of_def query_optional_def bind_action_def ret_def
        dest!: first_row_SomeD intro!: found_claim split: option.splits)
  have advance: "triple (dheld env [Fixed c]) (then_action (advance_deposit env c) (ret x)) (\<lambda>_. dheld env []) (dheld env [])" for c and x :: string
    using advance_deposit_ok [of c "[]" env] by (intro triple_then [where R = "dheld env []"] triple_ret) simp_all
  have quote: "triple (dheld env []) (on_db (query_row deposit_quotes_t (live_deposit_quote txid vout owner now)))
      (\<lambda>r w. (fixed_terms env (dqr_data r) \<and> dq_txid (dqr_data r) = txid \<and> dq_vout (dqr_data r) = vout \<and> dq_owner (dqr_data r) = owner) \<and> dheld env [] w)
      (dheld env [])" for txid vout now
    by (rule tripleI) (auto simp: on_db_def query_row_def live_deposit_quote_def dheld_def deposits_ok_def quotes_ok_def dest!: first_row_SomeD)
  have new: "triple (dheld env []) (bind_action (new_deposit_claim env owner txid vout q input) (\<lambda>c. then_action (advance_deposit env c) (ret (dc_transfer_id c))))
      (\<lambda>_. dheld env []) (dheld env [])"
    if "fixed_terms env q \<and> dq_txid q = txid \<and> dq_vout q = vout \<and> dq_owner q = owner" for q txid vout
    using triple_bind [OF new_deposit_ok [of env q input, OF conjunct1 [OF that]] advance] that by simp
  have known: "triple (dheld env [Fixed c]) (if b then throw e else then_action (advance_deposit env c) (ret (dc_transfer_id c))) (\<lambda>_. dheld env []) (dheld env [])"
    for b e c
    by (intro triple_if triple_throw advance) (rule deposits.held_fewer)
  have fresh: "triple (dheld env []) (bind_action (reading f) (\<lambda>now. bind_action (on_db (query_row deposit_quotes_t (live_deposit_quote txid vout owner now))) (\<lambda>row.
        if b row then throw e else bind_action (new_deposit_claim env owner txid vout (dqr_data row) input) (\<lambda>c. then_action (advance_deposit env c) (ret (dc_transfer_id c))))))
      (\<lambda>_. dheld env []) (dheld env [])" for f :: "deposit_call list \<Rightarrow> int" and b e txid vout
    by (intro triple_bind [OF triple_reading] triple_bind [OF quote] triple_fact triple_if triple_throw new) auto
  show ?thesis
    unfolding static_claim_def Let_def
    by (intro triple_then [OF quiet [OF deposits.quiet.obeys_lift]] triple_bind [OF quiet [OF deposits.quiet.obeys_lift]])
      (auto intro!: triple_bind [OF find] known fresh advance triple_throw intro: deposits.held_fewer split: prod.split option.split)
qed

lemma drive_deposit_ok:
  assumes "dc_id c \<notin> dc_id ` set zs"
  shows "triple (dheld env (Fixed c # map Fixed zs)) (drive_deposit env c) (\<lambda>_. dheld env (map Fixed zs)) E"
  unfolding drive_deposit_def
  by (rule triple_handle [OF advance_deposit_ok [OF assms]])
    (auto intro: triple_ret simp: ignore_def intro!: triple_handle [OF deposits.keeps_quiet [OF deposits.quiet_on_db [OF same_claims_notes(1)]]])

lemma run_deposits_ok: "keeps (dheld env []) (run_deposits env)"
proof -
  have loop: "triple (dheld env (map Fixed cs)) (for_each cs (drive_deposit env)) (\<lambda>_. dheld env []) (dheld env [])" if "distinct (map dc_id cs)" for cs
    using that
  proof (induction cs)
    case (Cons c cs)
    have "triple (dheld env (Fixed c # map Fixed cs)) (drive_deposit env c) (\<lambda>_. dheld env (map Fixed cs)) (dheld env [])"
      by (rule drive_deposit_ok) (use Cons.prems in simp)
    then show ?case using Cons by (auto intro: triple_then)
  qed (simp add: triple_ret)
  have pending: "triple (dheld env []) (on_db pending_deposits) (\<lambda>cs w. distinct (map dc_id cs) \<and> dheld env (map Fixed cs) w) (dheld env [])"
  proof (rule tripleI)
    fix w cs w'
    assume w: "dheld env [] w" "on_db pending_deposits w = (Inr cs, w')"
    let ?p = "\<lambda>r. dc_phase (dcr_data r) \<noteq> ''SPEND_TX_CONFIRMED''"
    have cs: "cs = take 100 (filter (\<lambda>c. dc_phase c \<noteq> ''SPEND_TX_CONFIRMED'') (fixed_claims (w_db w)))" "w' = w"
      using w(2) by (auto simp: on_db_def pending_deposits_def select_where_def bind_action_def ret_def fixed_claims_def filter_map take_map comp_def)
    have "distinct (map dc_id (fixed_claims (w_db w)))" using w(1) by (simp add: dheld_def deposits_ok_def claims_ok_def)
    then have "distinct (map dc_id cs)" unfolding cs(1) take_map [symmetric] by (simp add: distinct_map_filter)
    moreover have "set cs \<subseteq> set (fixed_claims (w_db w))" unfolding cs(1) using set_take_subset by fastforce
    ultimately show "distinct (map dc_id cs) \<and> dheld env (map Fixed cs) w'"
      using w(1) cs(2) by (auto simp: dheld_def)
  qed (auto simp: on_db_def pending_deposits_def select_where_def bind_action_def ret_def)
  show ?thesis
    unfolding run_deposits_def
    by (rule triple_handle [OF pending]) (auto intro!: triple_fact loop triple_ret)
qed

section \<open>Instant deposits\<close>

lemma reservation_cases:
  assumes "submit_instant_reserve env q i plan w = (res, w')"
  obtains e where "res = Inl e" "w' = w"
  | request where "d_decode_request env (pl_request plan) = Some request"
      "w' = w\<lparr>w_calls := w_calls w @ [ReserveDeposit request (dq_address q) (dq_credit q + dq_fee q) (dq_credit q)]\<rparr>"
      "\<And>u. res = Inr u \<Longrightarrow> \<exists>t. d_reserve env (w_calls w) request = Inr (Some t) \<and> ot_id t = i \<and> ot_total t = dq_credit q \<and>
        ot_sender t = d_identity env \<and> ot_receiver t = dq_owner q"
proof (cases "d_decode_request env (pl_request plan)")
  case None
  then show ?thesis using assms by (auto simp: submit_instant_reserve_def action_defs intro: that(1))
next
  case (Some request)
  show ?thesis
  proof (cases "d_private_pool env")
    case False
    then show ?thesis using assms Some by (auto simp: submit_instant_reserve_def action_defs intro: that(1))
  next
    case True
    have "w' = w\<lparr>w_calls := w_calls w @ [ReserveDeposit request (dq_address q) (dq_credit q + dq_fee q) (dq_credit q)]\<rparr>"
      using assms Some True by (auto simp: submit_instant_reserve_def action_defs ask_def ok_or_def split: sum.splits option.splits if_splits)
    moreover have "\<exists>t. d_reserve env (w_calls w) request = Inr (Some t) \<and> ot_id t = i \<and> ot_total t = dq_credit q \<and>
        ot_sender t = d_identity env \<and> ot_receiver t = dq_owner q" if "res = Inr u" for u
      using assms Some True that by (auto simp: submit_instant_reserve_def action_defs ask_def ok_or_def split: sum.splits option.splits if_splits)
    ultimately show ?thesis by (rule that(2) [OF Some])
  qed
qed

lemma reserve_ok:
  assumes "ic_phase r = ''CREATED''"
  shows "triple (dat env [Instant r] always) (submit_instant_reserve env (iq_deposit (ic_quote r)) (ic_transfer_id r) (ic_plan r))
     (\<lambda>_. dat env [Instant r] (\<lambda>log. credit_advanced env log r)) (dheld env [])"
proof -
  let ?q = "iq_deposit (ic_quote r)"
  let ?c = "\<lambda>request. ReserveDeposit request (dq_address ?q) (dq_credit ?q + dq_fee ?q) (dq_credit ?q)"
  have step: "dat env [Instant r] always (w\<lparr>w_calls := w_calls w @ [?c request]\<rparr>)"
    if w: "dat env [Instant r] always w" "d_decode_request env (pl_request (ic_plan r)) = Some request" for w request
  proof -
    have "prescribed_in env w (?c request)" using w assms by (auto simp: dat_def dheld_def)
    then show ?thesis using w deposits.held_call [of env "[Instant r]" w] by (simp add: dat_def)
  qed
  show ?thesis
  proof (rule tripleI)
    fix w u w'
    assume w: "dat env [Instant r] always w" "submit_instant_reserve env ?q (ic_transfer_id r) (ic_plan r) w = (Inr u, w')"
    from w(2) show "dat env [Instant r] (\<lambda>log. credit_advanced env log r) w'"
    proof (cases rule: reservation_cases)
      case (2 request)
      then have "credit_advanced env (w_calls w') r" unfolding credit_advanced_def Let_def by (auto intro: asked_snoc)
      then show ?thesis using step [OF w(1) 2(1)] 2(2) by (simp add: dat_def)
    qed simp
  next
    fix w e w'
    assume w: "dat env [Instant r] always w" "submit_instant_reserve env ?q (ic_transfer_id r) (ic_plan r) w = (Inl e, w')"
    from w(2) show "dheld env [] w'"
      by (rule reservation_cases) (use step [OF w(1)] deposits.at_fewer [of env "Instant r" "[]" always] w(1) in auto)
  qed
qed

lemma instant_phases:
  assumes "instant_ok env log r"
  shows "ic_phase r = ''CREATED'' \<Longrightarrow> ic_signed_spend r = None" "ic_phase r = ''TRANSFER_COMPLETED'' \<Longrightarrow> ic_signed_spend r = None"
    "ic_signed_spend r \<noteq> None \<Longrightarrow> frozen r"
  using assms by (auto simp: instant_ok_def recovery_state_def frozen_def split: option.splits)

text \<open>A step of a claim: what was agreed stays, and the new phase has its evidence.\<close>

lemma instant_ok_step:
  assumes "instant_ok env log r" "ic_quote r' = ic_quote r" "ic_transfer_id r' = ic_transfer_id r"
    "ic_phase r' = ''CREATED'' \<Longrightarrow> ic_phase r = ''CREATED'' \<and> ic_plan r' = ic_plan r"
    "ic_phase r = ''CREATED'' \<Longrightarrow> ic_phase r' \<noteq> ''CREATED'' \<Longrightarrow> credit_advanced env log r" "recovery_state env log r'"
  shows "instant_ok env log r'"
proof -
  have "credit_advanced env log r' = credit_advanced env log r" "instant_agreed env log r' = instant_agreed env log r"
    unfolding credit_advanced_def instant_agreed_def assms(2,3) by (rule refl)+
  then show ?thesis using assms(1,4-6) unfolding instant_ok_def by metis
qed

lemma reserve_step_ok:
  assumes "credit_due r"
  shows "triple (dat env [Instant r] always) (reserve_step env r)
     (\<lambda>r' w. (ic_phase r' \<noteq> ''CREATED'' \<and> credit_due r') \<and> dat env [Instant r'] always w) (dheld env [])"
proof (cases "ic_phase r = ''CREATED''")
  case True
  let ?r = "r\<lparr>ic_phase := ''TRANSFER_COMPLETED''\<rparr>"
  have adv: "instant_adv r ?r" using True by (simp add: instant_adv_def frozen_def credit_due_def)
  have ok: "instant_ok env log ?r" if "credit_advanced env log r" "instant_ok env log r" for log
    by (rule instant_ok_step [OF that(2)]) (use that(1) instant_phases(1) [OF that(2) True] in \<open>simp_all add: recovery_state_def\<close>)
  show ?thesis
    unfolding reserve_step_def Let_def using True
    by (simp, intro triple_then [OF reserve_ok [OF True]] triple_then [OF triple_save_instant [OF adv ok]] triple_ret)
      (auto simp: dat_def credit_due_def)
next
  case False
  then show ?thesis using assms by (simp add: reserve_step_def triple_ret)
qed

lemma scan_replacement_ok:
  "triple (dat env [Instant r] always) (scan_for_replacement env r)
     (\<lambda>p. dat env (case p of None \<Rightarrow> [] | Some _ \<Rightarrow> [Instant r]) always) (dheld env [])"
proof -
  let ?r = "\<lambda>h. r\<lparr>ic_scan_height := h\<rparr>"
  have adv: "instant_adv r (?r h)" for h by (simp add: instant_adv_def frozen_def credit_due_def)
  have same: "recovery_state env log (?r h) = recovery_state env log r" for log h
    by (simp add: recovery_state_def cong: option.case_cong)
  have ok: "instant_ok env log (?r h)" if "instant_ok env log r" for log h
    by (rule instant_ok_step [OF that]) (use that in \<open>simp_all add: instant_ok_def same\<close>)
  have save: "triple (dat env [Instant r] always) (on_db (save_instant (?r h))) (\<lambda>_. dat env [] always) (dheld env [])" for h
    by (rule triple_weaken [OF triple_save_instant [OF adv ok, where L = always and E = "dheld env []"]])
      (auto intro: deposits.held_fewer simp: deposits.at_True)
  note quiet = deposits.keeps_at_quiet [OF _ grows_deposit_log(5)]
  show ?thesis
    unfolding scan_for_replacement_def Let_def
    by (intro triple_bind [OF quiet [OF dquiet_calls(7)]] triple_bind [OF quiet [OF deposits.quiet.obeys_lift]]
        triple_bind [OF quiet [OF dquiet_scans(3)]] triple_case_option triple_then [OF save] triple_ret) simp_all
qed

lemma outpoint_ok:
  "triple (dat env [Instant r] always) (confirmed_instant_outpoint env r)
     (\<lambda>p. dat env (case p of None \<Rightarrow> [] | Some _ \<Rightarrow> [Instant r]) always) (dheld env [])"
proof -
  note quiet = deposits.keeps_at_quiet [OF _ grows_deposit_log(5)]
  show ?thesis
    unfolding confirmed_instant_outpoint_def Let_def
    by (intro triple_bind [OF quiet [OF dquiet_calls(1)]] triple_if scan_replacement_ok triple_ret triple_lift)
      (auto simp: and_then_Inr deposits.at_True intro: deposits.held_fewer)
qed

lemma freeze_step_ok:
  assumes "ic_phase r \<noteq> ''CREATED''" "credit_due r"
  shows "triple (dat env [Instant r] always) (freeze_step env r)
     (\<lambda>x w. case x of None \<Rightarrow> dheld env [] w | Some r' \<Rightarrow> (frozen r' \<and> credit_due r') \<and> dat env [Instant r'] always w) (dheld env [])"
proof (cases "ic_phase r = ''TRANSFER_COMPLETED''")
  case True
  let ?r = "\<lambda>plan. r\<lparr>ic_plan := plan, ic_phase := ''RECOVERY_PREPARED''\<rparr>"
  let ?Q = "\<lambda>x w. case x of None \<Rightarrow> dheld env [] w | Some r' \<Rightarrow> (frozen r' \<and> credit_due r') \<and> dat env [Instant r'] always w"
  have ok: "instant_ok env log (?r plan)" if "instant_ok env log r" for log plan
    by (rule instant_ok_step [OF that]) (use instant_phases(2) [OF that True] True in \<open>simp_all add: recovery_state_def\<close>)
  have save: "triple (dat env [Instant r] always) (on_db (save_instant (?r plan))) (\<lambda>_. dat env [Instant (?r plan)] always) (dheld env [])"
    if "ic_signed_spend r = None" for plan
    by (rule triple_save_instant) (use True that ok in \<open>auto simp: instant_adv_def frozen_def credit_due_def\<close>)
  have unsigned: "dat env [Instant r] always w \<Longrightarrow> ic_signed_spend r = None" for w
    using instant_phases(2) [OF dat_instant_ok] True by blast
  have lift: "triple (dat env [Instant r] always) (lift_result x) (\<lambda>_ w. ic_signed_spend r = None \<and> dat env [Instant r] always w) (dheld env [])" for x :: "'x result"
    by (rule triple_lift) (use unsigned in \<open>auto intro: deposits.at_fewer\<close>)
  have freeze: "triple (dat env [Instant r] always) (bind_action (lift_result x) (\<lambda>plan. then_action (on_db (save_instant (?r plan))) (ret (Some (?r plan))))) ?Q (dheld env [])" for x
    by (intro triple_bind [OF lift] triple_fact triple_then [OF save] triple_ret) (simp_all add: frozen_def credit_due_def)
  have "triple (dat env (case found of None \<Rightarrow> [] | Some _ \<Rightarrow> [Instant r]) always)
      (case found of None \<Rightarrow> ret None | Some p \<Rightarrow> bind_action (lift_result (redirect_plan env (ic_plan r) p))
        (\<lambda>plan. then_action (on_db (save_instant (?r plan))) (ret (Some (?r plan))))) ?Q (dheld env [])" for found
    using freeze by (cases found) (simp_all add: triple_ret deposits.at_True)
  then show ?thesis
    unfolding freeze_step_def Let_def using True by (simp, intro triple_bind [OF outpoint_ok])
next
  case False
  then show ?thesis using assms by (simp add: freeze_step_def triple_ret frozen_def)
qed

lemma sign_step_ok:
  assumes "frozen r" "credit_due r"
  shows "triple (dat env [Instant r] always) (sign_step env r)
     (\<lambda>r' w. (ic_signed_spend r' \<noteq> None \<and> credit_due r') \<and> dat env [Instant r'] always w) (dheld env [])"
proof (cases "ic_signed_spend r")
  case None
  let ?r = "\<lambda>raw. r\<lparr>ic_signed_spend := Some raw, ic_phase := ''SPEND_TX_CREATED''\<rparr>"
  let ?S = "\<lambda>raw log. True \<and> claim_settled env log (iq_deposit (ic_quote r)) (ic_transfer_id r) (ic_plan r) True raw"
  have submit: "triple (dat env [Instant r] always) (submit_static_claim env (iq_deposit (ic_quote r)) (ic_transfer_id r) (ic_plan r) True)
      (\<lambda>raw. dat env [Instant r] (?S raw)) (dheld env [])"
    by (rule triple_submit [OF grows_deposit_log(5)]) (use assms(1) in \<open>auto simp: dat_def dheld_def signing_call_def\<close>)
  have ok: "?S raw log \<Longrightarrow> instant_ok env log r \<Longrightarrow> instant_ok env log (?r raw)" for log raw
    by (erule instant_ok_step) (use assms(1) in \<open>simp_all add: frozen_def recovery_state_def\<close>)
  have save: "triple (dat env [Instant r] (?S raw)) (on_db (save_instant (?r raw))) (\<lambda>_. dat env [Instant (?r raw)] (?S raw)) (dheld env [])" for raw
    by (rule triple_save_instant [OF _ ok]) (use None assms(2) in \<open>auto simp: instant_adv_def frozen_def credit_due_def\<close>)
  show ?thesis
    unfolding sign_step_def Let_def using None
    by (simp, intro triple_bind [OF submit] triple_then [OF save] triple_ret) (auto simp: dat_def credit_due_def)
next
  case (Some raw)
  then show ?thesis using assms by (simp add: sign_step_def triple_ret)
qed

lemma broadcast_step_ok:
  assumes "ic_signed_spend r \<noteq> None" "credit_due r"
  shows "triple (dat env [Instant r] always) (broadcast_step env r) (\<lambda>_. dheld env []) (dheld env [])"
proof -
  obtain raw where raw: "ic_signed_spend r = Some raw" using assms(1) by blast
  let ?r = "\<lambda>n :: int. r\<lparr>ic_phase := if n \<ge> 3 then ''SPEND_TX_CONFIRMED'' else ''SPEND_TX_BROADCAST''\<rparr>"
  have ok: "instant_ok env log (?r n)" if "instant_ok env log r" for log n
    by (rule instant_ok_step [OF that]) (use raw instant_phases(1) [OF that] instant_signed [OF that raw] in \<open>auto simp: recovery_state_def split: if_splits\<close>)
  have adv: "dat env [Instant r] always w \<Longrightarrow> instant_adv r (?r n)" for w n
    using instant_phases(3) [OF dat_instant_ok] assms by (auto simp: instant_adv_def frozen_def credit_due_def)
  have save: "triple (dat env [Instant r] always) (on_db (save_instant (?r n))) (\<lambda>_. dheld env []) (dheld env [])" for n
  proof (cases "\<exists>w. dat env [Instant r] always w")
    case True
    then obtain w where w: "dat env [Instant r] always w" by blast
    show ?thesis
      by (rule triple_weaken [OF triple_save_instant [OF adv [OF w] ok, where L = always and E = "dheld env []"]])
        (auto intro: deposits.at_fewer)
  qed (auto simp: triple_def)
  have lift: "triple (dat env [Instant r] always) (lift_result x) (\<lambda>_. dat env [Instant r] always) (dheld env [])" for x :: "'x result"
    by (rule triple_lift) (erule deposits.at_fewer | assumption)+
  have same: "triple (dat env [Instant r] always) (lift_result (Inr raw)) (\<lambda>x w. x = raw \<and> dat env [Instant r] always w) (dheld env [])"
    by (rule triple_lift) (simp, erule deposits.at_fewer)
  show ?thesis
    unfolding broadcast_step_def raw ok_or_simps
    by (intro triple_bind [OF same] triple_fact triple_bind [OF lift] triple_bind [OF deposits.keeps_at_quiet [OF dquiet_calls(4) grows_deposit_log(5)]]
        triple_then [OF send_spend_ok [of _ undefined _ r] save] grows_deposit_log(5)) (simp add: raw)
qed

lemma advance_instant_ok: "triple (dheld env [Instant r]) (advance_instant env r) (\<lambda>_. dheld env []) (dheld env [])"
proof -
  have hold: "dheld env [Instant r] = dat env [Instant r] always" by (simp add: dat_def fun_eq_iff)
  have last: "triple (case x of None \<Rightarrow> dheld env [] | Some r' \<Rightarrow> \<lambda>w. (frozen r' \<and> credit_due r') \<and> dat env [Instant r'] always w)
      (case x of None \<Rightarrow> ret () | Some r2 \<Rightarrow> bind_action (sign_step env r2) (broadcast_step env)) (\<lambda>_. dheld env []) (dheld env [])" for x
    by (cases x) (auto intro!: triple_ret triple_fact triple_bind [OF sign_step_ok] broadcast_step_ok)
  have last: "triple (\<lambda>w. case x of None \<Rightarrow> dheld env [] w | Some r' \<Rightarrow> (frozen r' \<and> credit_due r') \<and> dat env [Instant r'] always w)
      (case x of None \<Rightarrow> ret () | Some r2 \<Rightarrow> bind_action (sign_step env r2) (broadcast_step env)) (\<lambda>_. dheld env []) (dheld env [])" for x
    using last [of x] by (cases x) simp_all
  have main: "credit_due r \<Longrightarrow> triple (dat env [Instant r] always) (bind_action (reserve_step env r) (\<lambda>r1.
        bind_action (freeze_step env r1) (\<lambda>found.
        case found of None \<Rightarrow> ret () | Some r2 \<Rightarrow> bind_action (sign_step env r2) (broadcast_step env)))) (\<lambda>_. dheld env []) (dheld env [])"
    by (intro triple_bind [OF reserve_step_ok] triple_fact triple_bind [OF freeze_step_ok last]) auto
  show ?thesis
    unfolding advance_instant_def hold
    by (intro triple_if triple_ret main) (auto intro: deposits.at_fewer simp: credit_due_def)
qed

lemma no_ancestors_ok:
  "no_unconfirmed_ancestors env txid coin w = (Inr u, w') \<Longrightarrow> as_u64 (jfield coin ''confirmations'') = Some 0 \<Longrightarrow>
   w' = w\<lparr>w_calls := w_calls w @ [AskMempool txid]\<rparr> \<and>
   (\<exists>entry. d_mempool env (w_calls w) txid = Inr entry \<and> as_u64 (jfield entry ''ancestorcount'') = Some 1)"
  unfolding no_unconfirmed_ancestors_def by (auto simp: ask_Inr ret_Inr throw_Inr split: if_splits elim!: bind_InrE)

lemma no_ancestors_calls: "\<exists>cs. w_calls (snd (no_unconfirmed_ancestors env txid coin w)) = w_calls w @ cs"
  using obeysD [OF dquiet_calls(8), of env w txid coin] by (auto simp: deposits.quiet_def calls_only_def)

lemma recheck_ok:
  assumes "recheck_output env q w = (Inr u, w')"
  shows "output_checked env (w_calls w') q"
proof -
  let ?w = "w\<lparr>w_calls := w_calls w @ [AskOutput (dq_txid q) (ucast (dq_vout q))]\<rparr>"
  obtain coin where coin: "d_output env (w_calls w) (dq_txid q) (ucast (dq_vout q)) = Inr coin" "coin \<noteq> JNull"
      "d_btc_amount env (jfield coin ''value'') = Inr (dq_credit q + dq_fee q)"
      "d_output_script env (dq_prev_output q) = as_str (jfield (jfield coin ''scriptPubKey'') ''hex'')"
      "no_unconfirmed_ancestors env (dq_txid q) coin ?w = (Inr u, w')"
    using assms unfolding recheck_output_def ask_output_def
    by (auto simp: ask_Inr ret_Inr throw_Inr lift_result_Inr split: if_splits elim!: bind_InrE)
  obtain cs where cs: "w_calls w' = w_calls ?w @ cs"
    using no_ancestors_calls [of env "dq_txid q" coin ?w] coin(5) by auto
  have asked: "asked_before (w_calls w') (AskOutput (dq_txid q) (ucast (dq_vout q))) (w_calls w)"
    unfolding cs by (simp add: asked_before_def)
  have "\<exists>earlier entry. asked_before (w_calls w') (AskMempool (dq_txid q)) earlier \<and>
      d_mempool env earlier (dq_txid q) = Inr entry \<and> as_u64 (jfield entry ''ancestorcount'') = Some 1"
    if "as_u64 (jfield coin ''confirmations'') = Some 0"
    using no_ancestors_ok [OF coin(5) that] asked_snoc [of "w_calls ?w" "AskMempool (dq_txid q)"] by auto
  then show ?thesis unfolding output_checked_def using asked coin(1-4) by blast
qed

definition instant_planned :: "deposit_env \<Rightarrow> instant_quote \<Rightarrow> instant_claim \<Rightarrow> bool" where
  "instant_planned env quote r \<longleftrightarrow> ic_quote r = quote \<and> ic_signed_spend r = None \<and> ic_phase r = ''CREATED''"

definition instant_plan_made :: "deposit_env \<Rightarrow> deposit_call list \<Rightarrow> string \<Rightarrow> string \<Rightarrow> instant_claim \<Rightarrow> bool" where
  "instant_plan_made env log key signature r \<longleftrightarrow> (let q = iq_deposit (ic_quote r) in \<exists>txid. d_parse_txid env (dq_txid q) = Some txid \<and>
     plan_made env log q (ic_transfer_id r) \<lparr>op_txid = txid, op_vout = dq_vout q\<rparr> key signature (ic_plan r))"

lemma plan_instant_planned:
  "plan_instant_claim env quote e s w = (Inr r, w') \<Longrightarrow> instant_planned env quote r \<and> instant_plan_made env (w_calls w') e s r"
  unfolding plan_instant_claim_def Let_def
  by (auto simp: instant_planned_def instant_plan_made_def reading_def ret_def lift_result_Inr elim!: bind_InrE dest: prepared_plan_made)

lemma checked_instant_ok:
  assumes "instant_terms env quote"
  shows "triple (dat env [] always) (checked_instant_claim env owner quote input)
     (\<lambda>r. dat env [] (\<lambda>log. instant_planned env quote r \<and>
        (dq_credit (iq_deposit quote) + dq_fee (iq_deposit quote) \<le> d_max_deposit env \<longrightarrow> instant_ok env log r))) (dheld env [])"
proof -
  let ?q = "iq_deposit quote"
  note quiet = deposits.triple_log_quiet [where F = "\<lambda>_ _. True", simplified]
  let ?auth = "\<lambda>g k. \<exists>s e. instant_authorization env ?q s e g = Inr k"
  have lift: "triple (dat env [] always) (lift_result x) (\<lambda>_. dat env [] always) (dheld env [])" for x :: "'x result"
    by (rule triple_lift) (auto simp: deposits.at_True)
  have read: "obeys (dquiet env) m \<Longrightarrow> triple (dat env [] always) m (\<lambda>_. dat env [] always) (dheld env [])" for m :: "(deposit_world, 'x) action"
    using deposits.keeps_quiet [of env m "[]"] by (simp add: deposits.at_True)
  have auth: "triple (dat env [] always) (lift_result (instant_authorization env ?q s e g)) (\<lambda>k w. ?auth g k \<and> dat env [] always w) (dheld env [])" for s e g
    by (rule triple_lift) (auto simp: deposits.at_True)
  have recheck: "triple (dat env [] always) (recheck_output env ?q) (\<lambda>_. dat env [] (\<lambda>log. True \<and> output_checked env log ?q)) (dheld env [])"
    by (rule deposits.triple_log_quiet [OF dquiet_calls(10) grows_deposit_log(5)]) (rule recheck_ok)
  have busy: "triple (dat env [] (\<lambda>log. True \<and> output_checked env log ?q)) (on_db (claim_busy owner ?q))
      (\<lambda>_. dat env [] (\<lambda>log. True \<and> output_checked env log ?q)) (dheld env [])"
    by (rule triple_weaken [OF deposits.triple_log_quiet [OF deposits.quiet_on_db [OF same_claims_reads(6)],
          where L = "\<lambda>log. True \<and> output_checked env log ?q" and F = "\<lambda>_ _. True"]])
      (simp_all add: grows_deposit_log)
  have plan: "triple (dat env [] (\<lambda>log. True \<and> output_checked env log ?q)) (plan_instant_claim env quote e s)
     (\<lambda>r. dat env [] (\<lambda>log. instant_planned env quote r \<and>
        (dq_credit ?q + dq_fee ?q \<le> d_max_deposit env \<longrightarrow> instant_ok env log r))) (dheld env [])" if "?auth s e" for e s
  proof (rule triple_weaken [OF deposits.triple_log_quiet [where L = "\<lambda>log. True \<and> output_checked env log ?q" and F = "\<lambda>r log. instant_planned env quote r \<and> instant_plan_made env log e s r"]])
    show "obeys (dquiet env) (plan_instant_claim env quote e s)" by (rule dquiet_plans)
    show "grows (\<lambda>log. True \<and> output_checked env log ?q)" by (simp add: grows_deposit_log)
    show "instant_planned env quote r \<and> instant_plan_made env (w_calls w') e s r" if "plan_instant_claim env quote e s w = (Inr r, w')" for r w w'
      using that by (rule plan_instant_planned)
  next
    fix r w
    assume "dat env [] (\<lambda>log. (True \<and> output_checked env log ?q) \<and> instant_planned env quote r \<and> instant_plan_made env log e s r) w"
    moreover have "instant_ok env log r"
      if "output_checked env log ?q" "instant_planned env quote r" "instant_plan_made env log e s r" "dq_credit ?q + dq_fee ?q \<le> d_max_deposit env" for log
    proof -
      have "instant_agreed env log r (ic_plan r)"
        using assms \<open>?auth s e\<close> that unfolding instant_agreed_def instant_planned_def instant_plan_made_def Let_def by blast
      then show ?thesis using that(2) by (simp add: instant_ok_def instant_planned_def recovery_state_def)
    qed
    ultimately show "dat env [] (\<lambda>log. instant_planned env quote r \<and> (dq_credit ?q + dq_fee ?q \<le> d_max_deposit env \<longrightarrow> instant_ok env log r)) w"
      by (simp add: dat_def)
  qed simp_all
  have throw: "triple (dat env [] L) (throw e) Q (dheld env [])" for L e and Q :: "instant_claim \<Rightarrow> deposit_world \<Rightarrow> bool"
    by (rule triple_throw) (auto intro: deposits.at_held)
  show ?thesis
    unfolding checked_instant_claim_def Let_def
    by (intro triple_bind [OF read [OF deposits.quiet_on_db [OF same_claims_reads(4)]]] triple_then [OF lift] triple_bind [OF lift]
        triple_bind [OF auth] triple_fact triple_then [OF recheck] triple_bind [OF busy] triple_if throw plan)
qed

lemma insert_instant_error: "insert_instant_claim env owner created r d = (Inl e, d') \<Longrightarrow> d' = d"
  unfolding insert_instant_claim_def Let_def by (rule transaction_error_rolls_back)

lemma new_instant_ok:
  assumes "instant_terms env quote"
  shows "triple (dheld env []) (new_instant_claim env (dq_owner (iq_deposit quote)) quote input) (\<lambda>r. dheld env [Instant r]) (dheld env [])"
proof -
  let ?q = "iq_deposit quote"
  let ?P = "\<lambda>r log. instant_planned env quote r \<and> (dq_credit ?q + dq_fee ?q \<le> d_max_deposit env \<longrightarrow> instant_ok env log r)"
  have insert: "triple (dat env [] (?P r)) (on_db (insert_instant_claim env (dq_owner ?q) created r)) (\<lambda>_. dheld env [Instant r]) (dheld env [])" for r created
  proof (rule tripleI)
    fix w x w'
    assume w: "dat env [] (?P r) w" "on_db (insert_instant_claim env (dq_owner ?q) created r) w = (Inr x, w')"
    then have r: "ic_quote r = quote" "ic_phase r = ''CREATED''" by (simp_all add: dat_def instant_planned_def)
    obtain d' where "insert_instant_claim env (instant_owner r) created r (w_db w) = (Inr x, d')" "w' = w\<lparr>w_db := d'\<rparr>"
      using w(2) r by (auto simp: on_db_Inr instant_owner_def)
    then show "dheld env [Instant r] w'"
      using insert_instant_held [of env w r created x d'] w(1) r by (simp add: dat_def credit_due_def)
  next
    fix w e w'
    assume w: "dat env [] (?P r) w" "on_db (insert_instant_claim env (dq_owner ?q) created r) w = (Inl e, w')"
    then have "w' = w" by (auto simp: on_db_def dest!: insert_instant_error split: prod.splits)
    then show "dheld env [] w'" using w(1) by (simp add: dat_def)
  qed
  show ?thesis
    unfolding new_instant_claim_def
    by (intro triple_bind [OF checked_instant_ok [OF assms, unfolded deposits.at_True]] triple_bind [OF triple_reading] triple_then [OF insert] triple_ret)
qed

lemma found_instant: "dheld env [] w \<Longrightarrow> x \<in> set (instant_claims (w_db w)) \<Longrightarrow> dheld env [Instant (icr_data x)] w"
  by (simp add: dheld_def instant_records_def)

lemma instant_claim_ok: "keeps (dheld env []) (instant_claim_request env owner input)"
proof -
  note quiet = deposits.keeps_quiet [OF _]
  have find: "triple (dheld env []) (on_db (instant_claim_of p)) (\<lambda>c. dheld env (case c of None \<Rightarrow> [] | Some r \<Rightarrow> [Instant r])) (dheld env [])" for p
    by (rule tripleI) (auto simp: on_db_def instant_claim_of_def query_optional_def bind_action_def ret_def
        dest!: first_row_SomeD intro!: found_instant split: option.splits)
  have advance: "triple (dheld env [Instant r]) (then_action (advance_instant env r) (ret x)) (\<lambda>_. dheld env []) (dheld env [])" for r and x :: json
    using advance_instant_ok [of env r] by (intro triple_then [where R = "dheld env []"] triple_ret) simp_all
  have quote: "triple (dheld env []) (on_db (query_row instant_quotes_t (\<lambda>r. iqr_id r = i \<and> iqr_owner r = owner \<and> iqr_expires r > now)))
      (\<lambda>r w. (instant_terms env (iqr_data r) \<and> owner = dq_owner (iq_deposit (iqr_data r))) \<and> dheld env [] w) (dheld env [])" for i now
    by (rule tripleI) (auto simp: on_db_def query_row_def dheld_def deposits_ok_def quotes_ok_def dest!: first_row_SomeD)
  have new: "triple (dheld env []) (bind_action (new_instant_claim env owner quote input) (\<lambda>r. then_action (advance_instant env r) (ret (claim_response (ic_id r)))))
      (\<lambda>_. dheld env []) (dheld env [])" if "instant_terms env quote \<and> owner = dq_owner (iq_deposit quote)" for quote
    using triple_bind [OF new_instant_ok [of env quote input, OF conjunct1 [OF that]] advance] that by simp
  show ?thesis
    unfolding instant_claim_request_def
    by (intro triple_bind [OF quiet [OF deposits.quiet.obeys_lift]] triple_bind [OF find])
      (auto intro!: advance triple_bind [OF triple_reading] triple_bind [OF quote] triple_fact new split: option.split)
qed

lemma run_instant_ok: "keeps (dheld env []) (run_instant env shuffle)"
proof -
  have note_error: "keeps (dheld env []) (ignore (on_db (note_instant_error i m)))" for i m
    unfolding ignore_def
    by (intro triple_handle [OF deposits.keeps_quiet [OF deposits.quiet_on_db [OF same_claims_notes(2)]]] triple_ret)
  have row: "triple (dheld env []) (on_db (query_row instant_claims_t p)) (\<lambda>x. dheld env [Instant (icr_data x)]) (dheld env [])" for p
    by (rule tripleI) (auto simp: on_db_def query_row_def dest!: first_row_SomeD intro: found_instant)
  have drive: "keeps (dheld env []) (drive_instant env i)" for i
    unfolding drive_instant_def Let_def
    by (intro triple_handle [OF row] triple_handle [OF advance_instant_ok] triple_ret note_error)
  show ?thesis
    unfolding run_instant_def
    by (rule triple_handle [OF deposits.keeps_quiet [OF deposits.quiet_on_db [OF same_claims_reads(8)]]])
      (auto intro!: keeps_for_each drive triple_ret)
qed

section \<open>Runs\<close>

text \<open>Every entry point of the two services, in any order and with any answers.\<close>

datatype deposit_op =
    OpStaticQuote string json
  | OpStaticClaim string json
  | OpInstantQuote string json
  | OpInstantClaim string json
  | OpRunStatic
  | OpRunInstant "instant_claim_row list \<Rightarrow> instant_claim_row list"

fun deposit_step :: "deposit_env \<Rightarrow> deposit_op \<Rightarrow> (deposit_world, unit) action" where
  "deposit_step env (OpStaticQuote owner input) = ignore (static_quote env owner input)"
| "deposit_step env (OpStaticClaim owner input) = ignore (static_claim env owner input)"
| "deposit_step env (OpInstantQuote owner input) = ignore (quote_instant env owner input)"
| "deposit_step env (OpInstantClaim owner input) = ignore (instant_claim_request env owner input)"
| "deposit_step env OpRunStatic = ignore (run_deposits env)"
| "deposit_step env (OpRunInstant shuffle) = ignore (run_instant env shuffle)"

definition deposit_run :: "deposit_env \<Rightarrow> deposit_op list \<Rightarrow> deposit_world \<Rightarrow> deposit_world" where
  "deposit_run env ops = state_after (for_each ops (deposit_step env))"

lemma deposit_step_ok: "keeps (dheld env []) (deposit_step env op)"
  by (cases op) (simp_all add: deposits.keeps_ignore static_claim_ok instant_claim_ok run_deposits_ok run_instant_ok
      deposits.keeps_quiet [OF dquiet_quote_handlers(1)] deposits.keeps_quiet [OF dquiet_quote_handlers(2)])

theorem deposit_run_ok: "deposits_ok env w \<Longrightarrow> deposits_ok env (deposit_run env ops w)"
proof -
  assume "deposits_ok env w"
  then have w: "dheld env [] w" by (simp add: dheld_def)
  have "keeps (dheld env []) (for_each ops (deposit_step env))"
    by (rule keeps_for_each) (rule deposit_step_ok)
  then have "dheld env [] (deposit_run env ops w)"
    using w tripleD [of "dheld env []" _ _ _ w] tripleE [of "dheld env []" _ _ _ w] unfolding deposit_run_def state_after_def
    by (cases "for_each ops (deposit_step env) w"; cases "fst (for_each ops (deposit_step env) w)") fastforce+
  then show ?thesis by (simp add: dheld_def)
qed

lemma empty_deposits_ok: "deposits_ok env empty_world"
  by (simp add: deposits_ok_def empty_world_def empty_db_def rows_match_def quotes_ok_def claims_ok_def fixed_claims_def
      instant_records_def due_credit_def asked_before_def)

lemma deposits_from_empty: "deposits_ok env (deposit_run env ops empty_world)"
  by (rule deposit_run_ok [OF empty_deposits_ok])

end
