(* ===== verification/Deposit_Guarantees.thy ===== *)
theory Deposit_Guarantees
  imports Deposit_Runs
begin

text \<open>
  What every run of the deposit services guarantees, from the invariant of theory Deposit_Safety;
  what a wallet's authorization binds; and that the scan for a replaced deposit finds every block.
  A concrete run, in which a confirmed deposit is paid out and an instant one is advanced and
  recovered after a lost answer, shows that the hypotheses hold of runs that do something.
\<close>

section \<open>What a wallet's signature binds\<close>

lemma le_bytes_inj:
  fixes w w' :: "'a :: len word"
  assumes "le_bytes n w = le_bytes n w'" "LENGTH('a) \<le> 8 * n"
  shows "w = w'"
proof (rule bit_word_eqI)
  fix k
  assume k: "k < LENGTH('a)"
  let ?i = "k div 8"
  have i: "?i < n" using k assms(2) by simp
  have "(ucast (drop_bit (8 * ?i) w) :: 8 word) = ucast (drop_bit (8 * ?i) w')"
    using arg_cong [OF assms(1), of "\<lambda>bs. bs ! ?i"] i by (simp add: le_bytes_def)
  then have "bit (ucast (drop_bit (8 * ?i) w) :: 8 word) (k mod 8) = bit (ucast (drop_bit (8 * ?i) w') :: 8 word) (k mod 8)"
    by simp
  moreover have "8 * ?i + k mod 8 = k" by simp
  ultimately show "bit w k = bit w' k" by (simp add: bit_ucast_iff bit_drop_bit_eq)
qed

lemma be_bytes_inj: "be_bytes n w = be_bytes n w' \<Longrightarrow> LENGTH('a) \<le> 8 * n \<Longrightarrow> w = w'" for w w' :: "'a :: len word"
  unfolding be_bytes_def by (auto dest: le_bytes_inj)

lemma bytes_length [simp]: "length (le_bytes n w) = n" "length (be_bytes n w) = n"
  by (simp_all add: le_bytes_def be_bytes_def)

lemma text_bytes_inj: "text_bytes s = text_bytes t \<Longrightarrow> s = t"
proof -
  have "inj (\<lambda>c :: char. word_of_nat (of_char c) :: 8 word)"
  proof (rule injI)
    fix c d :: char
    assume "(word_of_nat (of_char c) :: 8 word) = word_of_nat (of_char d)"
    then have "unat (word_of_nat (of_char c) :: 8 word) = unat (word_of_nat (of_char d) :: 8 word)" by simp
    then have "(of_char c :: nat) mod 256 = of_char d mod 256" by (simp add: unat_of_nat)
    then show "c = d" by simp
  qed
  then show "text_bytes s = text_bytes t \<Longrightarrow> s = t" unfolding text_bytes_def by (meson inj_map_eq_map)
qed

lemma tagged_split:
  assumes "tagged a @ r = tagged b @ s" "length a < 2 ^ 64" "length b < 2 ^ 64"
  shows "a = b \<and> r = s"
proof -
  have "be_bytes 8 (word_of_nat (length a) :: u64) = be_bytes 8 (word_of_nat (length b) :: u64)" and rest: "a @ r = b @ s"
    using assms(1) by (simp_all add: tagged_def append_eq_append_conv)
  then have "(word_of_nat (length a) :: u64) = word_of_nat (length b)" using be_bytes_inj by fastforce
  then have "unat (word_of_nat (length a) :: u64) = unat (word_of_nat (length b) :: u64)" by simp
  then have "length a = length b" using assms(2,3) by (simp add: unat_of_nat)
  then show ?thesis using rest by simp
qed

lemma instant_statement_tagged:
  "instant_statement q s = tagged (text_bytes (lowercase (dq_network q))) @ tagged (be_bytes 8 (3 :: u64)) @ tagged (be_bytes 8 (dq_credit q)) @
     tagged (be_bytes 8 (0 :: u64)) @ tagged (text_bytes (dq_address q)) @ tagged (be_bytes 8 (dq_credit q + dq_fee q)) @ tagged s @ []"
  by (simp add: instant_statement_def)

text \<open>An authorization is for one deposit: two instant deposit statements are equal only if they
  name the same network, credit, address, value and quote signature, so a wallet's signature cannot
  be moved to another quote.\<close>

theorem instant_authorization_binds:
  assumes "instant_statement q s = instant_statement q' s'"
    "length (dq_network q) < 2 ^ 64" "length (dq_network q') < 2 ^ 64" "length (dq_address q) < 2 ^ 64" "length (dq_address q') < 2 ^ 64"
    "length s < 2 ^ 64" "length s' < 2 ^ 64"
  shows "lowercase (dq_network q) = lowercase (dq_network q') \<and> dq_credit q = dq_credit q' \<and> dq_fee q = dq_fee q' \<and>
    dq_address q = dq_address q' \<and> s = s'"
proof -
  have len: "length (text_bytes t) = length t" "length (lowercase t) = length t" for t
    by (simp_all add: text_bytes_def lowercase_def)
  have n: "text_bytes (lowercase (dq_network q)) = text_bytes (lowercase (dq_network q'))"
    and 1: "tagged (be_bytes 8 (3 :: u64)) @ tagged (be_bytes 8 (dq_credit q)) @ tagged (be_bytes 8 (0 :: u64)) @ tagged (text_bytes (dq_address q)) @
        tagged (be_bytes 8 (dq_credit q + dq_fee q)) @ tagged s @ [] = tagged (be_bytes 8 (3 :: u64)) @ tagged (be_bytes 8 (dq_credit q')) @
        tagged (be_bytes 8 (0 :: u64)) @ tagged (text_bytes (dq_address q')) @ tagged (be_bytes 8 (dq_credit q' + dq_fee q')) @ tagged s' @ []"
    using tagged_split [OF assms(1) [unfolded instant_statement_tagged]] assms(2,3) by (simp_all add: len)
  have c: "be_bytes 8 (dq_credit q) = be_bytes 8 (dq_credit q')"
    and 2: "tagged (text_bytes (dq_address q)) @ tagged (be_bytes 8 (dq_credit q + dq_fee q)) @ tagged s @ [] =
        tagged (text_bytes (dq_address q')) @ tagged (be_bytes 8 (dq_credit q' + dq_fee q')) @ tagged s' @ []"
    using tagged_split [OF 1 [simplified same_append_eq]] by (simp_all only: bytes_length same_append_eq) simp_all
  have a: "text_bytes (dq_address q) = text_bytes (dq_address q')"
    and 3: "tagged (be_bytes 8 (dq_credit q + dq_fee q)) @ tagged s @ [] = tagged (be_bytes 8 (dq_credit q' + dq_fee q')) @ tagged s' @ []"
    using tagged_split [OF 2] assms(4,5) by (simp_all add: len)
  have v: "be_bytes 8 (dq_credit q + dq_fee q) = be_bytes 8 (dq_credit q' + dq_fee q')" and 4: "tagged s @ [] = tagged s' @ []"
    using tagged_split [OF 3] by simp_all
  have "s = s'" using tagged_split [OF 4] assms(6,7) by simp
  moreover have "dq_credit q = dq_credit q'" "dq_credit q + dq_fee q = dq_credit q' + dq_fee q'"
    using be_bytes_inj [OF c] be_bytes_inj [OF v] by simp_all
  ultimately show ?thesis using text_bytes_inj [OF n] text_bytes_inj [OF a] by simp
qed

section \<open>The scan for a replacement\<close>

lemma unat_min: "unat (min a b) = min (unat a) (unat b)" for a b :: "'a :: len word"
  by (simp add: min_def word_le_nat_alt)

lemma unat_saturating_add: "unat (saturating_add a b) = min (unat a + unat b) (2 ^ 64 - 1)"
proof (cases "checked_add a b")
  case None
  then have "2 ^ 64 \<le> unat a + unat b" by (simp add: checked_add_def split: if_splits)
  moreover have "unat (- 1 :: u64) = 2 ^ 64 - 1" by (simp add: unsigned_minus_1_eq_mask mask_eq_exp_minus_1)
  ultimately show ?thesis using None by (simp add: saturating_add_def)
next
  case (Some c)
  then have "unat c = unat a + unat b" "unat a + unat b < 2 ^ 64"
    using unat_checked_add [OF Some] by (auto simp: checked_add_def split: if_splits)
  then show ?thesis using Some by (simp add: saturating_add_def)
qed

lemma scan_last: "unat (min (saturating_add (min s tip) 20) tip) = min (unat s + 20) (unat tip)"
proof -
  have "unat tip < 2 ^ 64" using unsigned_less [where 'a = nat, of tip] by simp
  then show ?thesis by (simp add: unat_min unat_saturating_add)
qed

lemma scan_window_eq: "scan_window s tip = map word_of_nat [min (unat s) (unat tip)..<Suc (min (unat s + 20) (unat tip))]"
  unfolding scan_window_def Let_def scan_last unfolding unat_min ..

lemma scan_window_iff: "h \<in> set (scan_window s tip) \<longleftrightarrow> min (unat s) (unat tip) \<le> unat h \<and> unat h \<le> min (unat s + 20) (unat tip)"
proof -
  have "h \<in> set (scan_window s tip) \<longleftrightarrow> (\<exists>n. min (unat s) (unat tip) \<le> n \<and> n \<le> min (unat s + 20) (unat tip) \<and> h = word_of_nat n)"
    unfolding scan_window_eq set_map set_upt image_iff Bex_def atLeastLessThan_iff less_Suc_eq_le by blast
  also have "\<dots> \<longleftrightarrow> min (unat s) (unat tip) \<le> unat h \<and> unat h \<le> min (unat s + 20) (unat tip)"
  proof
    assume "\<exists>n. min (unat s) (unat tip) \<le> n \<and> n \<le> min (unat s + 20) (unat tip) \<and> h = word_of_nat n"
    then obtain n where n: "min (unat s) (unat tip) \<le> n" "n \<le> min (unat s + 20) (unat tip)" "h = word_of_nat n" by blast
    have "n < 2 ^ 64" using n(2) unsigned_less [where 'a = nat, of tip] by simp
    then have "unat h = n" unfolding n(3) by (simp add: unat_of_nat)
    then show "min (unat s) (unat tip) \<le> unat h \<and> unat h \<le> min (unat s + 20) (unat tip)" using n by simp
  qed (auto intro!: exI [of _ "unat h"])
  finally show ?thesis .
qed

text \<open>C21. The scan for a replaced deposit is complete and bounded: a turn visits exactly the blocks
  from its scan height to the tip, 21 of them at most, and none outside; and every block
  from the claim's scan height to the tip is visited within one turn per 21 blocks, however far
  behind the scan is, while no turn up to that one visits a block below the scan height or beyond the tip.\<close>

theorem replacement_scan_complete:
  assumes "s \<le> h" "h \<le> tip"
  shows "(\<forall>b. b \<in> set (scan_window s tip) \<longleftrightarrow> s \<le> b \<and> b \<le> tip \<and> unat b < unat s + 21) \<and>
    length (scan_window s tip) \<le> 21 \<and>
    (\<exists>n\<le>(unat h - unat s) div 21. h \<in> set (scan_window (((\<lambda>x. next_scan x tip) ^^ n) s) tip) \<and>
      (\<forall>k\<le>n. \<forall>b\<in>set (scan_window (((\<lambda>x. next_scan x tip) ^^ k) s) tip). s \<le> b \<and> b \<le> tip))"
proof (intro conjI)
  have inside: "s \<le> b \<and> b \<le> tip" if "b \<in> set (scan_window s tip)" "s \<le> tip" for s b
    using that unfolding scan_window_iff word_le_nat_alt by simp
  show "\<forall>b. b \<in> set (scan_window s tip) \<longleftrightarrow> s \<le> b \<and> b \<le> tip \<and> unat b < unat s + 21"
    using assms unfolding scan_window_iff word_le_nat_alt by auto
  show "length (scan_window s tip) \<le> 21"
    unfolding scan_window_eq by (simp del: upt_Suc)
  show "\<exists>n\<le>(unat h - unat s) div 21. h \<in> set (scan_window (((\<lambda>x. next_scan x tip) ^^ n) s) tip) \<and>
      (\<forall>k\<le>n. \<forall>b\<in>set (scan_window (((\<lambda>x. next_scan x tip) ^^ k) s) tip). s \<le> b \<and> b \<le> tip)"
    using assms
  proof (induction "unat h - unat s" arbitrary: s rule: less_induct)
    case less
    let ?next = "\<lambda>x. next_scan x tip"
    have le: "unat s \<le> unat h" "unat h \<le> unat tip" using less.prems by (simp_all add: word_le_nat_alt)
    have tip: "s \<le> tip" using less.prems by simp
    show ?case
    proof (cases "unat h \<le> unat s + 20")
      case True
      then show ?thesis using le inside [OF _ tip] by (intro exI [of _ 0]) (simp add: scan_window_iff)
    next
      case False
      have small: "unat s + 21 < 2 ^ 64" using False le unsigned_less [where 'a = nat, of tip] by simp
      let ?e = "min (saturating_add (min s tip) 20) tip"
      have e: "unat ?e = unat s + 20" using scan_last [of s tip] False le by simp
      then have "?e \<noteq> tip" using False le by auto
      then have n: "?next s = ?e + 1" by (simp add: next_scan_def Let_def)
      have u: "unat (?next s) = unat s + 21" unfolding n using e small by (simp add: unat_word_ariths)
      then have "?next s \<le> h" "unat h - unat (?next s) < unat h - unat s" using False le by (simp_all add: word_le_nat_alt)
      from less.hyps [OF this(2,1) less.prems(2)] obtain k where k: "k \<le> (unat h - unat (?next s)) div 21"
          "h \<in> set (scan_window ((?next ^^ k) (?next s)) tip)"
          "\<forall>j\<le>k. \<forall>b\<in>set (scan_window ((?next ^^ j) (?next s)) tip). ?next s \<le> b \<and> b \<le> tip" by blast
      have shift: "(?next ^^ Suc j) s = (?next ^^ j) (?next s)" for j by (simp only: funpow_Suc_right o_apply)
      have "s \<le> ?next s" using u by (simp add: word_le_nat_alt)
      have "s \<le> b \<and> b \<le> tip" if "j \<le> Suc k" "b \<in> set (scan_window ((?next ^^ j) s) tip)" for j b
      proof (cases j)
        case 0
        then show ?thesis using that(2) inside [OF _ tip] by simp
      next
        case (Suc i)
        then have "b \<in> set (scan_window ((?next ^^ i) (?next s)) tip)" using that(2) shift by simp
        then show ?thesis using k(3) that(1) Suc \<open>s \<le> ?next s\<close> by fastforce
      qed
      moreover have "Suc k \<le> (unat h - unat s) div 21" using k(1) u False le by linarith
      ultimately show ?thesis using k(2) shift by metis
    qed
  qed
qed

lemma replacement_scan_complete_witness:
  "length (scan_window (100 :: u64) 200) \<le> 21 \<and>
    (\<exists>n\<le>4. (190 :: u64) \<in> set (scan_window (((\<lambda>x. next_scan x 200) ^^ n) 100) 200))"
  using replacement_scan_complete [of 100 190 200] by auto


section \<open>A concrete environment\<close>

definition swap_example :: "u32 \<Rightarrow> swap_request" where
  "swap_example vout = \<lparr>sr_utxo = Some (''x'', vout), sr_ssp_signature = ''g'', sr_user_signature = ''g'', sr_transfer = Some (if vout = 0 then ''s0'' else ''i0''),
     sr_job = Some \<lparr>sj_signing_key = ''k'', sj_raw_tx = ''tx'', sj_nonce = Some ''n''\<rparr>, sr_threshold = 3\<rparr>"

definition operator_answer :: "string \<Rightarrow> swap_response" where
  "operator_answer i = \<lparr>so_transfer = Some \<lparr>ot_id = i, ot_sender = ''ssp'', ot_receiver = ''u'', ot_total = 9901\<rparr>, so_result = Some ''r''\<rparr>"

fun is_swap :: "deposit_call \<Rightarrow> bool" where
  "is_swap (SwapDeposit _) = True" | "is_swap _ = False"

fun is_recover :: "deposit_call \<Rightarrow> bool" where
  "is_recover (RecoverDeposit _ _ _) = True" | "is_recover _ = False"

definition example_deposits :: deposit_env where
  "example_deposits = \<lparr>
     d_output = \<lambda>_ _ vout. Inr (JObj [(''value'', JInt 10000), (''confirmations'', JInt 3),
        (''scriptPubKey'', JObj [(''hex'', JStr (if vout = 0 then ''p'' else ''q''))])]),
     d_mempool = \<lambda>_ _. Inl (Failure ''none''), d_estimate = \<lambda>_. Inr (JObj []), d_height = \<lambda>_. Inr (JInt 100),
     d_block_hash = \<lambda>_ _. Inl (Failure ''none''), d_block = \<lambda>_ _. Inl (Failure ''none''), d_wallet_tx = \<lambda>_ _. Inl (Failure ''none''),
     d_addresses = \<lambda>_ _ a. Inr [\<lparr>sa_address = a, sa_signing_key = ''k'', sa_verifying_key = ''v''\<rparr>],
     d_change = \<lambda>_. Inr (JStr ''c''), d_leaves = \<lambda>_ _. Inr [''l''], d_transfer = \<lambda>_ i _ _. Inr i, d_nonce = \<lambda>_. Inr (''n'', []),
     d_swap = \<lambda>_ r. Inr (operator_answer ''s0''),
     d_reserve = \<lambda>_ r. Inr (Some \<lparr>ot_id = ''i0'', ot_sender = ''ssp'', ot_receiver = ''u'', ot_total = 9901\<rparr>),
     d_recover = \<lambda>h _ i. if list_ex is_recover h then Inr (operator_answer i) else Inl (Failure ''lost''),
     d_send = \<lambda>_ _. Inr (), d_now = \<lambda>_ _. 1000,
     d_uuid = \<lambda>h n. (if list_ex is_swap h then CHR ''i'' else CHR ''s'') # (if n = 0 then ''0'' else ''1''),
     d_network = ''REGTEST'', d_chain = Regtest, d_spark_network = ''regtest'', d_fixed_type = 0, d_identity = ''ssp'', d_private_pool = True,
     d_limit = 20000, d_max_deposit = 10000, d_parse_txid = Some, d_parse_key = Some, d_parse_id = \<lambda>_. True, d_parse_address = Inr,
     d_btc_amount = \<lambda>j. ok_or (as_u64 j) (Failure ''amount''), d_script_hex = Some, d_script_address = Some,
     d_output_hex = \<lambda>_ s. s, d_output_script = Some, d_encode_tx = \<lambda>_. ''tx'',
     d_decode_tx = \<lambda>_. Some (recovery_transaction \<lparr>op_txid = ''x'', op_vout = 0\<rparr> 9901 ''c''), d_txid = \<lambda>_. ''d'',
     d_encode_request = \<lambda>r. (case sr_utxo r of Some (_, vout) \<Rightarrow> [ucast vout] | None \<Rightarrow> []),
     d_decode_request = \<lambda>bs. (case bs of [b] \<Rightarrow> Some (swap_example (ucast b)) | _ \<Rightarrow> None),
     d_hex = \<lambda>_. Some (replicate 129 0), d_quote_signature = \<lambda>_. ''g'', d_sha256 = \<lambda>_. [], d_decrypt = \<lambda>_. Some [], d_encrypt = \<lambda>_. Some ''e'',
     d_public_key = \<lambda>_. Some ''k'', d_der = \<lambda>_. Some ''d'', d_compact = \<lambda>_. None, d_verify = \<lambda>_ _ _. True,
     d_aggregate = \<lambda>_ _ _ _. Inr ''w'', d_spend_valid = \<lambda>_ _ _. Inr (), d_with_witness = \<lambda>_ _. Some ''signed'', d_time = \<lambda>_. ''now''\<rparr>"

definition deposit_input :: "int \<Rightarrow> json" where
  "deposit_input vout = JObj [(''network'', JStr ''REGTEST''), (''transaction_id'', JStr ''x''), (''output_index'', JInt vout)]"


definition example_static_claim :: json where
  "example_static_claim = JObj [(''transaction_id'', JStr ''x''), (''output_index'', JInt 0), (''quote_signature'', JStr ''g''),
     (''credit_amount_sats'', JInt 9901), (''request_type'', JStr ''FIXED_AMOUNT''), (''encrypted_deposit_secret_key'', JStr ''e''), (''signature'', JStr ''g'')]"

definition example_instant_claim :: json where
  "example_instant_claim = JObj [(''static_deposit_quote_id'', JStr ''i0''), (''signature'', JStr ''g''),
     (''static_deposit_address_private_key_share'', JStr (replicate 64 CHR ''0''))]"

lemmas deposit_run_simps = static_quote_def validate_network_def outpoint_of_def deposit_input_def and_then_def example_deposits_def
   deposit_claim_at_def quote_output_def confirmed_output_def ask_output_def action_defs statement_defs ask_def on_db_def empty_world_def empty_db_def
   confirmations_of_def output_address_def static_deposit_address_def reading_def live_deposit_quote_def new_static_quote_def recovery_rate_def recovery_terms_def
   checked_mul_def checked_sub_def Let_def save_deposit_quote_def transaction_def deposit_quote_of_def static_quote_response_def
   static_claim_def deposit_claim_of_def example_static_claim_def new_deposit_claim_def plan_deposit_claim_def validate_static_authorization_def guard_def
   change_address_def prepare_static_claim_def assemble_plan_def recovery_transaction_def insert_deposit_claim_def reserved_for_instant_def
   deposit_claim_row_of_def deposit_claim_clash_def insert_request_row_def request_clash_def static_payload_def advance_deposit_def sign_deposit_def submit_static_claim_def
   swap_example_def operator_answer_def finish_spend_def save_deposit_def record_payout_def transfer_clash_def observed_confirmations_def send_spend_def update_rows_def
   quote_instant_def instant_claim_of_def quote_instant_output_def within_exposure_def check_exposure_def no_unconfirmed_ancestors_def live_instant_quote_def
   new_instant_quote_def instant_outstanding_def outstanding_credit_def i64_max_def checked_add_def ask_height_def save_instant_quote_def quote_claimed_def instant_quote_clash_def
   instant_quote_response_def amount_json_def example_instant_claim_def instant_claim_request_def new_instant_claim_def checked_instant_claim_def instant_authorization_def
   decode_instant_deposit_key_def authorization_digest_def recheck_output_def claim_busy_def plan_instant_claim_def insert_instant_claim_def instant_row_def instant_claim_clash_def
   instant_pending_def reserved_for_claim_def quoted_value_def instant_payload_def saturating_sub_def sql_u64_def i64_of_u64_def
   advance_instant_def reserve_step_def submit_instant_reserve_def save_instant_def freeze_step_def confirmed_instant_outpoint_def redirect_plan_def sign_step_def broadcast_step_def
   ignore_def deposit_run_def state_after_def run_instant_def pick_instant_def drive_instant_def note_instant_error_def error_text_def


definition example_deposit_ops :: "deposit_op list" where
  "example_deposit_ops = [OpStaticQuote ''u'' (deposit_input 0), OpStaticClaim ''u'' example_static_claim,
     OpInstantQuote ''u'' (deposit_input 1), OpInstantClaim ''u'' example_instant_claim, OpRunInstant (\<lambda>rs. rs)]"

abbreviation example_job :: signing_job where
  "example_job \<equiv> \<lparr>sj_signing_key = ''k'', sj_raw_tx = ''tx'', sj_nonce = Some ''n''\<rparr>"

text \<open>The run: a payout, an advance, a recovery whose first answer is lost, and its retry.\<close>

lemma example_deposit_run:
  "\<exists>w fixed instant. deposit_run example_deposits example_deposit_ops empty_world = w \<and>
     deposit_claims (w_db w) = [fixed] \<and> dcr_status fixed = ''SUCCEEDED'' \<and>
     instant_claims (w_db w) = [instant] \<and> icr_phase instant = ''SPEND_TX_BROADCAST'' \<and> icr_credit instant = 9901 \<and>
     w_calls w = [AskOutput ''x'' 0, AskStaticAddress ''u'' ''p'', AskFeeRate, AskOutput ''x'' 0, AskChangeAddress, SelectLeaves 9901,
       PrepareTransfer ''s0'' [''l''] ''u'', AskNonce, SwapDeposit (swap_example 0), AskWalletTx ''d'', SendSpend ''signed'', AskOutput ''x'' 1,
       AskStaticAddress ''u'' ''q'', AskFeeRate, AskHeight, AskOutput ''x'' 1, AskChangeAddress, SelectLeaves 9901,
       PrepareTransfer ''i0'' [''l''] ''u'', AskNonce, ReserveDeposit (swap_example 1) ''q'' 10000 9901, AskOutput ''x'' 1,
       RecoverDeposit (Some (''x'', 1)) example_job ''i0'', RecoverDeposit (Some (''x'', 1)) example_job ''i0'', AskWalletTx ''d'', SendSpend ''signed'']"
  unfolding example_deposit_ops_def by (simp add: deposit_run_simps)

abbreviation example_world :: deposit_world where
  "example_world \<equiv> deposit_run example_deposits example_deposit_ops empty_world"

section \<open>Guarantees\<close>

lemma run_claims: "claims_ok env (w_calls (deposit_run env ops empty_world)) (fixed_claims (w_db (deposit_run env ops empty_world)))
    (instant_records (w_db (deposit_run env ops empty_world)))"
  and run_rows: "rows_match (w_db (deposit_run env ops empty_world))"
  using deposits_from_empty [of env ops] by (simp_all add: deposits_ok_def)

lemma run_timely: "asked_before (w_calls (deposit_run env ops empty_world)) call pre \<Longrightarrow>
    timely env (fixed_claims (w_db (deposit_run env ops empty_world))) (instant_records (w_db (deposit_run env ops empty_world))) pre call"
  using run_claims [of env ops] unfolding claims_ok_def by blast

lemma asked_member: "c \<in> set log \<Longrightarrow> \<exists>pre. asked_before log c pre"
  by (auto simp: asked_before_def dest: split_list)

text \<open>The request that carries a plan, in full: the quoted output, both signatures, the prepared
  transfer, and a signing job for the transaction that pays the credit out of that output.\<close>

definition request_for :: "deposit_env \<Rightarrow> deposit_quote \<Rightarrow> string \<Rightarrow> string \<Rightarrow> string \<Rightarrow> string \<Rightarrow> string \<Rightarrow> swap_request" where
  "request_for env q txid signature transfer destination nonce =
     \<lparr>sr_utxo = Some (dq_txid q, dq_vout q), sr_ssp_signature = dq_signature q, sr_user_signature = signature,
      sr_transfer = Some transfer,
      sr_job = Some \<lparr>sj_signing_key = dq_signing_key q,
        sj_raw_tx = d_encode_tx env \<lparr>tx_inputs = [\<lparr>ti_previous_output = \<lparr>op_txid = txid, op_vout = dq_vout q\<rparr>, ti_sequence = 0xFFFFFFFF\<rparr>],
          tx_outputs = [\<lparr>to_value = dq_credit q, to_script = destination\<rparr>]\<rparr>,
        sj_nonce = Some nonce\<rparr>,
      sr_threshold = 3\<rparr>"

text \<open>The operators prepared the transfer of leaves worth the credit to the quoted owner.\<close>

definition transfer_prepared :: "deposit_env \<Rightarrow> deposit_call list \<Rightarrow> deposit_quote \<Rightarrow> string \<Rightarrow> string \<Rightarrow> bool" where
  "transfer_prepared env log q transfer_id transfer \<longleftrightarrow> (\<exists>leaves key earlier pre.
     asked_before pre (SelectLeaves (dq_credit q)) earlier \<and> d_leaves env earlier (dq_credit q) = Inr leaves \<and>
     d_parse_key env (dq_owner q) = Some key \<and>
     asked_before log (PrepareTransfer transfer_id leaves key) pre \<and> d_transfer env pre transfer_id leaves key = Inr transfer)"

lemma plan_made_request:
  assumes "plan_made env log q transfer_id \<lparr>op_txid = txid, op_vout = dq_vout q\<rparr> encrypted signature plan"
  obtains transfer destination nonce where "transfer_prepared env log q transfer_id transfer"
    "pl_request plan = d_encode_request env (request_for env q txid signature transfer destination nonce)"
proof -
  obtain destination transfer nonce where p: "transfer_prepared env log q transfer_id transfer"
      "assemble_plan env q encrypted signature (recovery_transaction \<lparr>op_txid = txid, op_vout = dq_vout q\<rparr> (dq_credit q) destination) transfer nonce = Inr plan"
    using assms unfolding plan_made_def transfer_prepared_def by blast
  have "pl_request plan = d_encode_request env (request_for env q txid signature transfer destination (fst nonce))"
    using p(2) by (auto simp: assemble_plan_def request_for_def recovery_transaction_def and_then_Inr)
  then show ?thesis using that p(1) by blast
qed

text \<open>C4. The risk of instant deposits is bounded: over any run of the two services, from an empty
  database and whatever the Bitcoin node and the operators answer, the credit of the instant claims
  whose recovery is not confirmed never exceeds the configured limit.\<close>

theorem instant_exposure_bounded:
  "(\<Sum>r\<leftarrow>filter instant_pending (instant_claims (w_db (deposit_run env ops empty_world))). unat (icr_credit r)) \<le> unat (d_limit env)"
proof -
  let ?d = "w_db (deposit_run env ops empty_world)"
  have "(\<Sum>r\<leftarrow>filter instant_pending (instant_claims ?d). int (unat (icr_credit r))) = int (due_credit (instant_records ?d))"
    using outstanding_due [OF run_rows] by (simp add: outstanding_credit_def)
  moreover have "int (\<Sum>r\<leftarrow>xs. unat (icr_credit r)) = (\<Sum>r\<leftarrow>xs. int (unat (icr_credit r)))" for xs
    by (induction xs) simp_all
  ultimately have "(\<Sum>r\<leftarrow>filter instant_pending (instant_claims ?d). unat (icr_credit r)) = due_credit (instant_records ?d)"
    by (metis of_nat_eq_iff)
  then show ?thesis using run_claims [of env ops] by (simp add: claims_ok_def)
qed

text \<open>C5. No deposit is credited twice: over any run, the outputs of all confirmed and instant claims
  together are distinct.\<close>

theorem deposit_claimed_once:
  "distinct (map (\<lambda>r. (dcr_txid r, dcr_vout r)) (deposit_claims (w_db (deposit_run env ops empty_world))) @
     map (\<lambda>r. (icr_txid r, icr_vout r)) (instant_claims (w_db (deposit_run env ops empty_world))))"
proof -
  let ?d = "w_db (deposit_run env ops empty_world)"
  have "map (\<lambda>r. (dcr_txid r, dcr_vout r)) (deposit_claims ?d) = map fixed_point (fixed_claims ?d)"
    "map (\<lambda>r. (icr_txid r, icr_vout r)) (instant_claims ?d) = map instant_point (instant_records ?d)"
    using fixed_match(3,4) [OF run_rows, of _ env ops] instant_match(4,5) [OF run_rows, of _ env ops]
    by (simp_all add: fixed_claims_def instant_records_def fixed_point_def instant_point_def)
  moreover have "distinct (map fixed_point (fixed_claims ?d))" "distinct (map instant_point (instant_records ?d))"
    "\<forall>c\<in>set (fixed_claims ?d). \<forall>r\<in>set (instant_records ?d). fixed_point c \<noteq> instant_point r"
    using run_claims [of env ops] by (simp_all add: claims_ok_def apart_def)
  moreover have "set (map fixed_point (fixed_claims ?d)) \<inter> set (map instant_point (instant_records ?d)) = {}"
    using calculation(5) by fastforce
  ultimately show ?thesis by (simp only: distinct_append)
qed

text \<open>C6. No signing nonce is used for two transactions: over any run, two requests to sign the
  recovery of the same instant deposit are for the same output and the same transaction, however
  often answers were lost and the deposit was replaced (transfer ids being distinct, as fresh UUIDs are).\<close>

theorem recovery_signs_one_transaction:
  assumes "RecoverDeposit utxo job i \<in> set (w_calls (deposit_run env ops empty_world))"
    "RecoverDeposit utxo' job' i \<in> set (w_calls (deposit_run env ops empty_world))"
    "distinct (map (\<lambda>r. ic_transfer_id (icr_data r)) (instant_claims (w_db (deposit_run env ops empty_world))))"
  shows "utxo = utxo' \<and> job = job'"
proof -
  let ?w = "deposit_run env ops empty_world"
  have "\<exists>pre. timely env (fixed_claims (w_db ?w)) (instant_records (w_db ?w)) pre call" if "call \<in> set (w_calls ?w)" for call
    using run_timely [of env ops] asked_member [OF that] by blast
  from this [OF assms(1)] this [OF assms(2)] obtain r r' where
    "r \<in> set (instant_records (w_db ?w))" "r' \<in> set (instant_records (w_db ?w))" "ic_transfer_id r = i" "ic_transfer_id r' = i"
    "\<exists>request. d_decode_request env (pl_request (ic_plan r)) = Some request \<and> utxo = sr_utxo request \<and> sr_job request = Some job"
    "\<exists>request. d_decode_request env (pl_request (ic_plan r')) = Some request \<and> utxo' = sr_utxo request \<and> sr_job request = Some job'"
    by auto
  moreover have "distinct (map ic_transfer_id (instant_records (w_db ?w)))" using assms(3) by (simp add: instant_records_def comp_def)
  ultimately have "r = r'" by (metis distinct_map inj_onD)
  then show ?thesis using \<open>\<exists>request. _ \<and> utxo = _ \<and> _\<close> \<open>\<exists>request. _ \<and> utxo' = _ \<and> _\<close> by auto
qed

text \<open>C19. Credit is advanced only after every check: over any run, a reservation asked of the operators
  belongs to one stored claim, whose quote the service signed for that output and address, within the
  deposit limit, after the node had shown the output unspent with exactly the quoted value and script
  (and its inputs confirmed, when it is unconfirmed) and the wallet had authorized it; what is sent is the
  stored encoding of a request that names this output, the wallet's authorization, the transfer of
  the credit to the quoted owner, and the recovery of this output.\<close>

theorem advance_after_checks:
  assumes "asked_before (w_calls (deposit_run env ops empty_world)) (ReserveDeposit request address v credit) pre"
  shows "\<exists>row\<in>set (instant_claims (w_db (deposit_run env ops empty_world))). let r = icr_data row; q = iq_deposit (ic_quote r) in
    icr_txid row = dq_txid q \<and> icr_vout row = dq_vout q \<and> icr_owner row = dq_owner q \<and>
    instant_terms env (ic_quote r) \<and> output_checked env pre q \<and>
    address = dq_address q \<and> credit = dq_credit q \<and> v = dq_credit q + dq_fee q \<and> unat v = unat credit + unat (dq_fee q) \<and>
    v \<le> d_max_deposit env \<and>
    (\<exists>secret encrypted signature key txid transfer destination nonce.
       instant_authorization env q secret encrypted signature = Inr key \<and> d_parse_txid env (dq_txid q) = Some txid \<and>
       transfer_prepared env pre q (ic_transfer_id r) transfer \<and>
       d_decode_request env (d_encode_request env (request_for env q txid signature transfer destination nonce)) = Some request)"
proof -
  have "timely env (fixed_claims (w_db (deposit_run env ops empty_world))) (instant_records (w_db (deposit_run env ops empty_world)))
      pre (ReserveDeposit request address v credit)"
    by (rule run_timely [OF assms])
  then obtain row plan where row: "row \<in> set (instant_claims (w_db (deposit_run env ops empty_world)))"
      and r: "instant_agreed env pre (icr_data row) plan" "d_decode_request env (pl_request plan) = Some request"
      "address = dq_address (iq_deposit (ic_quote (icr_data row)))" "credit = dq_credit (iq_deposit (ic_quote (icr_data row)))"
      "v = dq_credit (iq_deposit (ic_quote (icr_data row))) + dq_fee (iq_deposit (ic_quote (icr_data row)))"
    by (auto simp: instant_records_def)
  let ?r = "icr_data row" and ?q = "iq_deposit (ic_quote (icr_data row))"
  have terms: "instant_terms env (ic_quote ?r)" "output_checked env pre ?q" "v \<le> d_max_deposit env"
    using r(1,5) by (simp_all add: instant_agreed_def Let_def)
  then have "quoted_terms env ?q" by (simp add: instant_terms_def Let_def)
  from quoted_value_exact [OF this] have "int (unat v) = int (unat credit) + int (unat (dq_fee ?q))"
    unfolding r(4,5) by (simp add: quoted_value_def)
  then have "unat v = unat credit + unat (dq_fee ?q)" by linarith
  moreover obtain secret encrypted signature key txid where auth: "instant_authorization env ?q secret encrypted signature = Inr key"
      "d_parse_txid env (dq_txid ?q) = Some txid"
      "plan_made env pre ?q (ic_transfer_id ?r) \<lparr>op_txid = txid, op_vout = dq_vout ?q\<rparr> key signature plan"
    using r(1) unfolding instant_agreed_def Let_def by blast
  moreover obtain transfer destination nonce where "transfer_prepared env pre ?q (ic_transfer_id ?r) transfer"
      "pl_request plan = d_encode_request env (request_for env ?q txid signature transfer destination nonce)"
    by (rule plan_made_request [OF auth(3)])
  ultimately show ?thesis
    using row terms r(2-5) instant_match(3-5) [OF run_rows row] unfolding Let_def instant_owner_def by metis
qed

text \<open>C20. A confirmed deposit is swapped only after every check: over any run, a swap asked of the
  operators belongs to one stored claim, whose quote the service signed, whose output the node had
  shown with three confirmations, and which the wallet had authorized; what is sent is the stored
  encoding of a request that names exactly this output, this authorization, the transfer of the
  credit to the quoted owner under the claim's id, and the recovery of this output.\<close>

theorem swap_after_checks:
  assumes "asked_before (w_calls (deposit_run env ops empty_world)) (SwapDeposit request) pre"
  shows "\<exists>row\<in>set (deposit_claims (w_db (deposit_run env ops empty_world))). let c = dcr_data row; q = dc_quote c in
    dcr_txid row = dq_txid q \<and> dcr_vout row = dq_vout q \<and> dcr_owner row = dq_owner q \<and>
    fixed_terms env q \<and> output_confirmed env pre q \<and>
    (\<exists>encrypted signature transfer destination nonce.
       validate_static_authorization env q encrypted signature = Inr () \<and>
       transfer_prepared env pre q (dc_transfer_id c) transfer \<and>
       d_decode_request env (d_encode_request env (request_for env q (dq_txid q) signature transfer destination nonce)) = Some request)"
proof -
  have "timely env (fixed_claims (w_db (deposit_run env ops empty_world))) (instant_records (w_db (deposit_run env ops empty_world)))
      pre (SwapDeposit request)"
    by (rule run_timely [OF assms])
  then obtain row where row: "row \<in> set (deposit_claims (w_db (deposit_run env ops empty_world)))"
      and c: "fixed_agreed env pre (dcr_data row)" "d_decode_request env (pl_request (dc_plan (dcr_data row))) = Some request"
    by (auto simp: fixed_claims_def)
  let ?c = "dcr_data row" and ?q = "dc_quote (dcr_data row)"
  obtain encrypted signature where auth: "validate_static_authorization env ?q encrypted signature = Inr ()"
      "plan_made env pre ?q (dc_transfer_id ?c) \<lparr>op_txid = dq_txid ?q, op_vout = dq_vout ?q\<rparr> encrypted signature (dc_plan ?c)"
    using c(1) unfolding fixed_agreed_def Let_def by blast
  moreover obtain transfer destination nonce where "transfer_prepared env pre ?q (dc_transfer_id ?c) transfer"
      "pl_request (dc_plan ?c) = d_encode_request env (request_for env ?q (dq_txid ?q) signature transfer destination nonce)"
    by (rule plan_made_request [OF auth(2)])
  moreover have "fixed_terms env ?q" "output_confirmed env pre ?q" using c(1) by (simp_all add: fixed_agreed_def Let_def)
  ultimately show ?thesis
    using row c(2) fixed_match(3-5) [OF run_rows row] unfolding Let_def by metis
qed

text \<open>The operators' answer that settles a claim: a transfer with the claim's id from this service to the
  owner, and a signing result that completes the recovery transaction of the plan.\<close>

definition settled_by :: "deposit_env \<Rightarrow> deposit_quote \<Rightarrow> string \<Rightarrow> static_plan \<Rightarrow> swap_request \<Rightarrow> signing_job \<Rightarrow> swap_response \<Rightarrow> string \<Rightarrow> bool" where
  "settled_by env q transfer_id plan request job response raw \<longleftrightarrow> (\<exists>t signing witness.
     so_transfer response = Some t \<and> ot_id t = transfer_id \<and> ot_sender t = d_identity env \<and> ot_receiver t = dq_owner q \<and>
     so_result response = Some signing \<and> d_aggregate env request plan q signing = Inr witness \<and>
     d_spend_valid env request plan witness = Inr () \<and> d_with_witness env (sj_raw_tx job) witness = Some raw)"

text \<open>C36. A recovery transaction is broadcast only when the wallet was paid: over any run, every
  transaction broadcast is the signed recovery recorded for one stored claim, completed from the
  operators' earlier answer to this claim's own planned request, which showed the transfer with
  the claim's id from this service to the quoted owner and a signature valid for the deposit's
  output; for an instant claim the answer is to the recovery, for a confirmed one to the swap.\<close>

theorem broadcast_after_settlement:
  assumes "asked_before (w_calls (deposit_run env ops empty_world)) (SendSpend raw) pre"
  shows "(\<exists>row\<in>set (deposit_claims (w_db (deposit_run env ops empty_world))). \<exists>request job earlier response. let c = dcr_data row in
      dc_signed_spend c = Some raw \<and> d_decode_request env (pl_request (dc_plan c)) = Some request \<and> sr_job request = Some job \<and>
      asked_before pre (SwapDeposit request) earlier \<and> d_swap env earlier request = Inr response \<and>
      settled_by env (dc_quote c) (dc_transfer_id c) (dc_plan c) request job response raw) \<or>
    (\<exists>row\<in>set (instant_claims (w_db (deposit_run env ops empty_world))). \<exists>request job earlier response. let r = icr_data row in
      ic_signed_spend r = Some raw \<and> d_decode_request env (pl_request (ic_plan r)) = Some request \<and> sr_job request = Some job \<and>
      asked_before pre (RecoverDeposit (sr_utxo request) job (ic_transfer_id r)) earlier \<and>
      d_recover env earlier job (ic_transfer_id r) = Inr response \<and>
      settled_by env (iq_deposit (ic_quote r)) (ic_transfer_id r) (ic_plan r) request job response raw)"
proof -
  have settled: "settled_by env q i plan request job response raw" if "finish_spend env q i plan request job response = Inr raw"
    for q i plan request job response
    using that unfolding finish_spend_def settled_by_def by (auto simp: and_then_Inr split: if_splits)
  have "timely env (fixed_claims (w_db (deposit_run env ops empty_world))) (instant_records (w_db (deposit_run env ops empty_world)))
      pre (SendSpend raw)"
    by (rule run_timely [OF assms])
  then consider row where "row \<in> set (deposit_claims (w_db (deposit_run env ops empty_world)))" "dc_signed_spend (dcr_data row) = Some raw"
      "claim_settled env pre (dc_quote (dcr_data row)) (dc_transfer_id (dcr_data row)) (dc_plan (dcr_data row)) False raw"
    | row where "row \<in> set (instant_claims (w_db (deposit_run env ops empty_world)))" "ic_signed_spend (icr_data row) = Some raw"
      "claim_settled env pre (iq_deposit (ic_quote (icr_data row))) (ic_transfer_id (icr_data row)) (ic_plan (icr_data row)) True raw"
    by (auto simp: fixed_claims_def instant_records_def)
  then show ?thesis
  proof cases
    case (1 row)
    then show ?thesis unfolding claim_settled_def Let_def if_True if_False by (intro disjI1) (blast dest: settled)
  next
    case (2 row)
    then show ?thesis unfolding claim_settled_def Let_def if_True if_False by (intro disjI2) (blast dest: settled)
  qed
qed

text \<open>A stored deposit status means what it says: over any run, a claim that is SUCCEEDED has a signed
  recovery transaction, and the operators had answered its swap with a transfer to the owner.\<close>

theorem deposit_status_backed:
  assumes "row \<in> set (deposit_claims (w_db (deposit_run env ops empty_world)))" "dcr_status row = ''SUCCEEDED''"
  shows "let c = dcr_data row in \<exists>raw. dc_signed_spend c = Some raw \<and> dcr_id row = dc_id c \<and>
    claim_settled env (w_calls (deposit_run env ops empty_world)) (dc_quote c) (dc_transfer_id c) (dc_plan c) False raw"
proof -
  have "dcr_data row \<in> set (fixed_claims (w_db (deposit_run env ops empty_world)))"
    using assms(1) by (simp add: fixed_claims_def)
  then have "fixed_ok env (w_calls (deposit_run env ops empty_world)) (dcr_data row)"
    using run_claims [of env ops] unfolding claims_ok_def by blast
  then show ?thesis
    using fixed_match(1,2) [OF run_rows assms(1)] assms(2) by (auto simp: fixed_ok_def Let_def split: option.splits)
qed

section \<open>The guarantees at the concrete run\<close>

lemma example_calls:
  "ReserveDeposit (swap_example 1) ''q'' 10000 9901 \<in> set (w_calls example_world)" "SwapDeposit (swap_example 0) \<in> set (w_calls example_world)"
  "SendSpend ''signed'' \<in> set (w_calls example_world)" "RecoverDeposit (Some (''x'', 1)) example_job ''i0'' \<in> set (w_calls example_world)"
  using example_deposit_run by auto

lemma recovery_signs_one_transaction_witness:
  "length (filter is_recover (w_calls example_world)) = 2 \<and> Some (''x'', 1 :: u32) = Some (''x'', 1) \<and> example_job = example_job"
proof -
  obtain fixed instant where "instant_claims (w_db example_world) = [instant]" "length (filter is_recover (w_calls example_world)) = 2"
    using example_deposit_run by auto
  then show ?thesis
    using recovery_signs_one_transaction [OF example_calls(4) example_calls(4)] by simp
qed

lemma advance_after_checks_witness:
  "\<exists>pre row. asked_before (w_calls example_world) (ReserveDeposit (swap_example 1) ''q'' 10000 9901) pre \<and>
    instant_claims (w_db example_world) = [row] \<and> output_checked example_deposits pre (iq_deposit (ic_quote (icr_data row)))"
proof -
  obtain pre where "asked_before (w_calls example_world) (ReserveDeposit (swap_example 1) ''q'' 10000 9901) pre"
    using asked_member [OF example_calls(1)] by blast
  moreover obtain row where "instant_claims (w_db example_world) = [row]" using example_deposit_run by auto
  ultimately show ?thesis
    using advance_after_checks [of example_deposits example_deposit_ops "swap_example 1" "''q''" 10000 9901 pre]
    unfolding Let_def by auto
qed

lemma swap_after_checks_witness:
  "\<exists>pre row. asked_before (w_calls example_world) (SwapDeposit (swap_example 0)) pre \<and>
    deposit_claims (w_db example_world) = [row] \<and> output_confirmed example_deposits pre (dc_quote (dcr_data row))"
proof -
  obtain pre where "asked_before (w_calls example_world) (SwapDeposit (swap_example 0)) pre"
    using asked_member [OF example_calls(2)] by blast
  moreover obtain row where "deposit_claims (w_db example_world) = [row]" using example_deposit_run by auto
  ultimately show ?thesis
    using swap_after_checks [of example_deposits example_deposit_ops "swap_example 0" pre]
    unfolding Let_def by auto
qed

lemma broadcast_after_settlement_witness:
  "\<exists>pre. asked_before (w_calls example_world) (SendSpend ''signed'') pre \<and>
    ((\<exists>row\<in>set (deposit_claims (w_db example_world)). dc_signed_spend (dcr_data row) = Some ''signed'') \<or>
     (\<exists>row\<in>set (instant_claims (w_db example_world)). ic_signed_spend (icr_data row) = Some ''signed''))"
proof -
  obtain pre where "asked_before (w_calls example_world) (SendSpend ''signed'') pre"
    using asked_member [OF example_calls(3)] by blast
  then show ?thesis
    using broadcast_after_settlement [of example_deposits example_deposit_ops "''signed''" pre]
    unfolding Let_def by blast
qed

lemma deposit_status_backed_witness:
  "\<exists>row raw. row \<in> set (deposit_claims (w_db example_world)) \<and> dcr_status row = ''SUCCEEDED'' \<and> dc_signed_spend (dcr_data row) = Some raw"
proof -
  obtain row where "row \<in> set (deposit_claims (w_db example_world))" "dcr_status row = ''SUCCEEDED''"
    using example_deposit_run by auto
  then show ?thesis using deposit_status_backed [of row example_deposits example_deposit_ops] unfolding Let_def by metis
qed

definition example_statement_quote :: "string \<Rightarrow> deposit_quote" where
  "example_statement_quote txid = deposit_quote_of example_deposits txid 0 ''u'' 9901 99 ''g'' 1300 ''p''
     \<lparr>sa_address = ''p'', sa_signing_key = ''k'', sa_verifying_key = ''v''\<rparr> 10000 ''p''"

lemma instant_authorization_binds_witness:
  "dq_txid (example_statement_quote ''x'') \<noteq> dq_txid (example_statement_quote ''y'') \<and>
   dq_credit (example_statement_quote ''x'') = dq_credit (example_statement_quote ''y'')"
proof -
  have "instant_statement (example_statement_quote ''x'') [1] = instant_statement (example_statement_quote ''y'') [1]"
    by (simp add: instant_statement_def example_statement_quote_def deposit_quote_of_def)
  from instant_authorization_binds [OF this] show ?thesis
    by (simp add: example_statement_quote_def deposit_quote_of_def example_deposits_def)
qed

end
