(* ===== verification/History.thy ===== *)
theory History
  imports Requests "HOL-Library.Product_Lexorder"
begin

text \<open>
  The request history of a wallet, src/src/history.rs: the view that joins every request with its
  settlement record, the filters and the cursor of a page, and the page itself. Base64 and the
  JSON text of a cursor are an argument. A reader that follows the cursors gets every matching
  request once, newest first.
\<close>

section \<open>The view\<close>

text \<open>\<open>hr_network\<close> is SQLite's \<open>json_extract\<close>, with \<open>NULL\<close> as the empty string.\<close>

record history_row =
  hr_request :: request_row
  hr_type :: string
  hr_network :: json
  hr_status :: string

definition request_type :: "string \<Rightarrow> string" where
  "request_type kind = (if kind = ''COOP_EXIT_V2'' then ''COOP_EXIT''
     else if kind = ''CLAIM_INSTANT_STATIC_DEPOSIT_V2'' then ''CLAIM_STATIC_DEPOSIT'' else kind)"

text \<open>The joined columns \<open>s.status\<close>, \<open>p.status\<close> and \<open>x.status\<close>; every join key is unique.\<close>

definition joined_send :: "db \<Rightarrow> string \<Rightarrow> send_status option" where
  "joined_send d i = map_option ls_status (first_row (\<lambda>s. ls_request_id s = i) (lightning_sends d))"

definition joined_receive :: "db \<Rightarrow> string \<Rightarrow> receive_row option" where
  "joined_receive d i = first_row (\<lambda>l. lr_request_id l = i) (lightning_receives d)"

definition joined_progress :: "db \<Rightarrow> string \<Rightarrow> receive_payment_row option" where
  "joined_progress d i =
     Option.bind (joined_receive d i) (\<lambda>l. first_row (\<lambda>p. rp_hash p = lr_hash l) (receive_payments d))"

definition joined_exit :: "db \<Rightarrow> string \<Rightarrow> string option" where
  "joined_exit d i = map_option cxr_status (first_row (\<lambda>x. cxr_id x = i) (coop_exits d))"

definition request_status :: "send_status option \<Rightarrow> receive_status option \<Rightarrow> string option \<Rightarrow> json \<Rightarrow> string" where
  "request_status s p x status =
     (if s = Some Succeeded \<or> p = Some TransferCompleted \<or> x = Some ''SUCCEEDED'' \<or>
         status \<in> {JStr ''SUCCEEDED'', JStr ''COMPLETED''} then ''SUCCEEDED''
      else if s = Some Failed \<or> p = Some HtlcFailed \<or> status = JStr ''FAILED'' then ''FAILED''
      else if x = Some ''EXPIRED'' \<or> status \<in> {JStr ''EXPIRED'', JStr ''CANCELED''} then ''CANCELED''
      else if s = Some Prepared \<or> p = Some InvoiceCreated \<or> x = Some ''CREATED'' \<or> status = JStr ''CREATED'' then ''CREATED''
      else if s \<noteq> None \<or> p \<noteq> None \<or> x \<noteq> None \<or> status \<in> {JStr ''IN_PROGRESS'', JStr ''OUTBOUND_TRANSFER_SENT''} then ''IN_PROGRESS''
      else ''UNKNOWN'')"

definition history_row_of :: "db \<Rightarrow> request_row \<Rightarrow> history_row" where
  "history_row_of d r =
     \<lparr>hr_request = r, hr_type = request_type (rq_kind r),
      hr_network = (case jfield (rq_payload r) ''network'' of JNull \<Rightarrow> JStr '''' | j \<Rightarrow> j),
      hr_status = request_status (joined_send d (rq_id r)) (map_option rp_status (joined_progress d (rq_id r)))
        (joined_exit d (rq_id r)) (jfield (rq_payload r) ''status'')\<rparr>"

definition history_view :: "db \<Rightarrow> history_row list" where
  "history_view d = map (history_row_of d) (requests d)"

section \<open>The input of a page\<close>

text \<open>A field that is absent or \<open>null\<close> counts as not given.\<close>

definition given :: "json \<Rightarrow> string \<Rightarrow> json option" where
  "given input field = (case jget input field of Some JNull \<Rightarrow> None | v \<Rightarrow> v)"

definition history_filter :: "json \<Rightarrow> string \<Rightarrow> string list \<Rightarrow> string list result" where
  "history_filter input field allowed =
     (case given input field of
        None \<Rightarrow> Inr []
      | Some (JArr vs) \<Rightarrow>
          if length vs > length allowed \<or>
             list_ex (\<lambda>v. case as_str v of None \<Rightarrow> True | Some s \<Rightarrow> s \<notin> set allowed) vs
          then Inl (Failure (''invalid '' @ field @ '' filter''))
          else Inr (List.map_filter as_str vs)
      | Some _ \<Rightarrow> Inl (Failure (field @ '' must be a list'')))"

definition page_size :: "json \<Rightarrow> nat result" where
  "page_size input =
     (case given input ''first'' of
        None \<Rightarrow> Inr 50
      | Some v \<Rightarrow> (case as_u64 v of
          Some n \<Rightarrow> if 1 \<le> n \<and> n \<le> 100 then Inr (unat n) else Inl (Failure ''first must be between 1 and 100'')
        | None \<Rightarrow> Inl (Failure ''first must be between 1 and 100'')))"

record history_codec =
  hc_encode :: "string \<times> string \<times> string \<Rightarrow> string"
  hc_decode :: "string \<Rightarrow> (string \<times> string \<times> string) option"

text \<open>The position a page starts after; empty strings stand for the beginning.\<close>

definition read_cursor :: "history_codec \<Rightarrow> string \<Rightarrow> json \<Rightarrow> (string \<times> string) result" where
  "read_cursor codec owner input =
     (case given input ''after'' of
        None \<Rightarrow> Inr ('''', '''')
      | Some v \<Rightarrow> (case as_str v of
          None \<Rightarrow> Inl (Failure ''invalid cursor'')
        | Some encoded \<Rightarrow>
            if length encoded > 1024 then Inl (Failure ''invalid cursor'')
            else (case hc_decode codec encoded of
              None \<Rightarrow> Inl (Failure ''invalid cursor'')
            | Some (cursor_owner, created, i) \<Rightarrow>
                if cursor_owner \<noteq> owner then Inl (Failure ''invalid cursor owner'') else Inr (created, i))))"

record history_scope =
  hs_owner :: string
  hs_types :: "string list"
  hs_statuses :: "string list"
  hs_networks :: "string list"
  hs_default_network :: string

definition in_scope :: "history_scope \<Rightarrow> history_row \<Rightarrow> bool" where
  "in_scope s h \<longleftrightarrow> rq_owner (hr_request h) = hs_owner s \<and>
     (hs_types s = [] \<or> hr_type h \<in> set (hs_types s)) \<and>
     (hs_statuses s = [] \<or> hr_status h \<in> set (hs_statuses s)) \<and>
     (hs_networks s = [] \<or>
       (if hr_network h = JStr '''' then JStr (hs_default_network s) else hr_network h) \<in> JStr ` set (hs_networks s))"

definition read_scope :: "string \<Rightarrow> json \<Rightarrow> string \<Rightarrow> history_scope result" where
  "read_scope owner input network =
     and_then (history_filter input ''types''
       [''LIGHTNING_SEND'', ''LIGHTNING_RECEIVE'', ''COOP_EXIT'', ''LEAVES_SWAP'', ''CLAIM_STATIC_DEPOSIT'']) (\<lambda>types.
     and_then (history_filter input ''statuses''
       [''CREATED'', ''IN_PROGRESS'', ''SUCCEEDED'', ''FAILED'', ''CANCELED'', ''UNKNOWN'']) (\<lambda>statuses.
     and_then (history_filter input ''networks'' [''MAINNET'', ''TESTNET'', ''SIGNET'', ''REGTEST'', ''LOCAL'']) (\<lambda>networks.
     Inr \<lparr>hs_owner = owner, hs_types = types, hs_statuses = statuses, hs_networks = networks,
          hs_default_network = network\<rparr>)))"

section \<open>The page\<close>

record page =
  pg_records :: "json list"
  pg_count :: nat
  pg_has_next :: bool
  pg_has_previous :: bool
  pg_start :: "string option"
  pg_end :: "string option"

definition history_key :: "history_row \<Rightarrow> string \<times> string" where
  "history_key h = (rq_created_at (hr_request h), rq_id (hr_request h))"

text \<open>\<open>ORDER BY created_at DESC, id DESC\<close>.\<close>

definition newest_first :: "history_row list \<Rightarrow> history_row list" where
  "newest_first hs = rev (sort_key history_key hs)"

definition row_cursor :: "history_codec \<Rightarrow> string \<Rightarrow> history_row \<Rightarrow> string" where
  "row_cursor codec owner h = hc_encode codec (owner, history_key h)"

definition make_page :: "history_codec \<Rightarrow> nat \<Rightarrow> history_scope \<Rightarrow> string \<times> string \<Rightarrow> history_row list \<Rightarrow> page" where
  "make_page codec first_n s after hs =
     (let scoped = filter (in_scope s) hs;
          found = take (first_n + 1) (newest_first (filter (\<lambda>h. fst after = '''' \<or> history_key h < after) scoped));
          shown = take first_n found;
          cursor = row_cursor codec (hs_owner s) in
      \<lparr>pg_records = map (request_json \<circ> hr_request) shown, pg_count = length scoped, pg_has_next = length found > first_n,
       pg_has_previous = (fst after \<noteq> '''' \<and> list_ex (\<lambda>h. history_key h \<ge> after) scoped),
       pg_start = (if shown = [] then None else Some (cursor (hd shown))),
       pg_end = (if shown = [] then None else Some (cursor (last shown)))\<rparr>)"

definition request_history :: "history_codec \<Rightarrow> string \<Rightarrow> json \<Rightarrow> string \<Rightarrow> (db, page) action" where
  "request_history codec owner input network =
     bind_action (lift_result (page_size input)) (\<lambda>first_n.
     bind_action (lift_result (read_scope owner input network)) (\<lambda>s.
     bind_action (lift_result (read_cursor codec owner input)) (\<lambda>after.
     (\<lambda>d. (Inr (make_page codec first_n s after (history_view d)), d)))))"

section \<open>Following the cursors\<close>

text \<open>A client that reads pages until there is no next one; \<open>None\<close> when a request fails or the fuel runs out.\<close>

fun fetch_all :: "history_codec \<Rightarrow> string \<Rightarrow> json \<Rightarrow> string \<Rightarrow> db \<Rightarrow> nat \<Rightarrow> json list option" where
  "fetch_all codec owner input network d 0 = None"
| "fetch_all codec owner input network d (Suc k) =
     (case request_history codec owner input network d of
        (Inl e, _) \<Rightarrow> None
      | (Inr p, d') \<Rightarrow>
          if \<not> pg_has_next p then Some (pg_records p)
          else (case pg_end p of
                  None \<Rightarrow> None
                | Some c \<Rightarrow> map_option ((@) (pg_records p)) (fetch_all codec owner (json_set ''after'' (JStr c) input) network d' k)))"

text \<open>The reference: every request in scope, newest first.\<close>

definition whole_history :: "history_scope \<Rightarrow> db \<Rightarrow> history_row list" where
  "whole_history s d = newest_first (filter (in_scope s) (history_view d))"

lemma newest_first_filter: "newest_first (filter P hs) = filter P (newest_first hs)"
  by (simp add: newest_first_def filter_sort [symmetric] rev_filter)

lemma set_newest_first [simp]: "set (newest_first hs) = set hs" and length_newest_first [simp]: "length (newest_first hs) = length hs"
  by (simp_all add: newest_first_def)

lemma newest_first_descends:
  assumes "distinct (map history_key hs)"
  shows "sorted_wrt (\<lambda>a b. history_key b < history_key a) (newest_first hs)"
proof -
  have "sorted_wrt (\<lambda>a b. history_key a < history_key b) (sort_key history_key hs)"
    using assms sorted_sort_key [of history_key hs] strict_sorted_iff [of "map history_key (sort_key history_key hs)"]
    by (simp add: sorted_wrt_map distinct_map card_distinct)
  then show ?thesis by (simp add: newest_first_def sorted_wrt_rev)
qed

text \<open>What lies after a row of a descending list is the rest of the list.\<close>

lemma filter_after:
  assumes "sorted_wrt (\<lambda>a b. k b < k a) xs" "i < length xs"
  shows "filter (\<lambda>x. k x < (k (xs ! i) :: 'a :: linorder)) xs = drop (Suc i) xs"
  using assms
proof (induction xs arbitrary: i)
  case (Cons x xs)
  then show ?case
  proof (cases i)
    case 0
    then show ?thesis using Cons.prems by (auto simp: filter_id_conv)
  next
    case (Suc j)
    then have "k (xs ! j) < k x" using Cons.prems by simp
    then show ?thesis using Suc Cons by (simp add: not_less_iff_gr_or_eq)
  qed
qed simp

lemma view_keys:
  assumes "no_clash request_clash (requests d)"
  shows "distinct (map history_key (history_view d))"
proof -
  have "distinct (map rq_id rs)" if "no_clash request_clash rs" for rs
    using that by (induction rs) (auto simp: no_clash_Cons request_clash_def)
  then show ?thesis
    using assms by (auto simp: history_view_def history_row_of_def history_key_def comp_def distinct_map inj_on_def)
qed

lemma page_size_pos: "page_size input = Inr n \<Longrightarrow> n > 0"
  by (auto simp: page_size_def word_le_nat_alt split: option.splits if_splits)

text \<open>The records a reader still has to see from a position.\<close>

lemma read_after_set:
  assumes "hc_decode codec c = Some (owner, key)" "length c \<le> 1024"
  shows "read_cursor codec owner (json_set ''after'' (JStr c) (JObj kvs)) = Inr key"
  using assms by (cases key) (simp add: read_cursor_def given_def map_of_jset_list)

lemma same_scope:
  "page_size (json_set ''after'' v (JObj kvs)) = page_size (JObj kvs)"
  "read_scope owner (json_set ''after'' v (JObj kvs)) network = read_scope owner (JObj kvs) network"
  by (simp_all add: page_size_def read_scope_def history_filter_def given_def map_of_jset_list)

lemma fetch_from:
  assumes unique: "no_clash request_clash (requests d)"
    and dated: "\<forall>r\<in>set (requests d). rq_created_at r \<noteq> ''''"
    and codec: "\<forall>r\<in>set (requests d). let c = hc_encode codec (owner, rq_created_at r, rq_id r) in
      hc_decode codec c = Some (owner, rq_created_at r, rq_id r) \<and> length c \<le> 1024"
    and read: "page_size (JObj kvs) = Inr n" "read_scope owner (JObj kvs) network = Inr s"
      "read_cursor codec owner (JObj kvs) = Inr after"
    and at: "filter (\<lambda>h. fst after = '''' \<or> history_key h < after) (whole_history s d) = drop i (whole_history s d)"
    and fuel: "length (whole_history s d) - i \<le> k * n" "k > 0"
  shows "fetch_all codec owner (JObj kvs) network d k = Some (map (request_json \<circ> hr_request) (drop i (whole_history s d)))"
  using read at fuel
proof (induction k arbitrary: kvs after i)
  case (Suc k)
  let ?L = "whole_history s d"
  let ?rest = "drop i ?L"
  let ?P = "make_page codec n s after (history_view d)"
  have owner: "hs_owner s = owner" using Suc.prems(2) by (auto simp: read_scope_def and_then_Inr)
  have n: "n > 0" using Suc.prems(1) by (rule page_size_pos)
  have rest: "newest_first (filter (\<lambda>h. fst after = '''' \<or> history_key h < after) (filter (in_scope s) (history_view d))) = ?rest"
    using Suc.prems(4) by (simp add: whole_history_def newest_first_filter)
  have page: "pg_records ?P = map (request_json \<circ> hr_request) (take n ?rest)" "pg_has_next ?P \<longleftrightarrow> length ?rest > n"
    "pg_end ?P = (if take n ?rest = [] then None else Some (row_cursor codec owner (last (take n ?rest))))"
    unfolding make_page_def Let_def rest owner by (auto simp: min_def)
  have run: "request_history codec owner (JObj kvs) network d = (Inr ?P, d)"
    using Suc.prems(1-3) by (simp add: request_history_def action_defs)
  show ?case
  proof (cases "length ?rest > n")
    case False
    then show ?thesis using run page(1,2) by simp
  next
    case True
    let ?h = "?L ! (i + n - 1)"
    have last: "last (take n ?rest) = ?h" "i + n - 1 < length ?L"
      using True n by (auto simp: last_conv_nth min_def)
    then have "?h \<in> set (history_view d)" using nth_mem [OF last(2)] by (simp add: whole_history_def)
    then obtain r where r: "r \<in> set (requests d)" "hr_request ?h = r" by (auto simp: history_view_def history_row_of_def)
    let ?c = "row_cursor codec owner ?h"
    have c: "hc_decode codec ?c = Some (owner, history_key ?h)" "length ?c \<le> 1024"
      using codec r by (auto simp: row_cursor_def history_key_def Let_def)
    have "sorted_wrt (\<lambda>a b. history_key b < history_key a) ?L"
      unfolding whole_history_def newest_first_filter
      by (intro sorted_wrt_filter newest_first_descends view_keys [OF unique])
    then have "filter (\<lambda>h. history_key h < history_key ?h) ?L = drop (i + n) ?L"
      using filter_after [OF _ last(2)] n by simp
    moreover have "fst (history_key ?h) \<noteq> ''''" using dated r by (simp add: history_key_def)
    ultimately have at: "filter (\<lambda>h. fst (history_key ?h) = '''' \<or> history_key h < history_key ?h) ?L = drop (i + n) ?L"
      by simp
    have "k > 0" using Suc.prems(5) True by (cases k) auto
    moreover have "length ?L - (i + n) \<le> k * n" using Suc.prems(5) by simp
    ultimately have "fetch_all codec owner (json_set ''after'' (JStr ?c) (JObj kvs)) network d k =
        Some (map (request_json \<circ> hr_request) (drop (i + n) ?L))"
      unfolding json_set.simps
      using Suc.IH [of "jset_list ''after'' (JStr ?c) kvs" "history_key ?h" "i + n"] at
        same_scope(1) [of "JStr ?c" kvs] same_scope(2) [of owner "JStr ?c" kvs network] read_after_set [OF c, of kvs] Suc.prems(1,2)
      by simp
    moreover have "map f (take n ?rest) @ map f (drop (i + n) ?L) = map f ?rest" for f :: "history_row \<Rightarrow> json"
      by (metis append_take_drop_id add.commute drop_drop map_append)
    ultimately show ?thesis using run page last(1) True n by simp
  qed
qed simp

text \<open>C13. Following the cursors of the history gives every request of the wallet in the given filters, once,
  newest first: the pages together equal the whole sorted history, and a page's count is its length
  (ids are unique, requests are dated, and a cursor can be read back).\<close>

theorem history_pages_complete:
  assumes "no_clash request_clash (requests d)" "\<forall>r\<in>set (requests d). rq_created_at r \<noteq> ''''"
    "\<forall>r\<in>set (requests d). let c = hc_encode codec (owner, rq_created_at r, rq_id r) in
      hc_decode codec c = Some (owner, rq_created_at r, rq_id r) \<and> length c \<le> 1024"
    "given (JObj kvs) ''after'' = None" "page_size (JObj kvs) = Inr n" "read_scope owner (JObj kvs) network = Inr s"
  shows "fetch_all codec owner (JObj kvs) network d (Suc (length (whole_history s d) div n)) =
      Some (map (request_json \<circ> hr_request) (whole_history s d)) \<and>
    (\<exists>p. request_history codec owner (JObj kvs) network d = (Inr p, d) \<and> pg_count p = length (whole_history s d))"
proof -
  have "read_cursor codec owner (JObj kvs) = Inr ('''', '''')" using assms(4) by (simp add: read_cursor_def)
  moreover have "n > 0" using assms(5) by (rule page_size_pos)
  then have "length (whole_history s d) \<le> Suc (length (whole_history s d) div n) * n"
    by (simp add: dividend_less_times_div less_imp_le add.commute mult.commute)
  ultimately have "fetch_all codec owner (JObj kvs) network d (Suc (length (whole_history s d) div n)) =
      Some (map (request_json \<circ> hr_request) (drop 0 (whole_history s d)))"
    using fetch_from [OF assms(1-3,5,6), of "('''', '''')" 0 "Suc (length (whole_history s d) div n)"] by simp
  moreover have "request_history codec owner (JObj kvs) network d = (Inr (make_page codec n s ('''', '''') (history_view d)), d)"
    using assms(5,6) \<open>read_cursor codec owner (JObj kvs) = _\<close> by (simp add: request_history_def action_defs)
  ultimately show ?thesis by (simp add: make_page_def Let_def whole_history_def)
qed
definition example_history :: db where
  "example_history = empty_db\<lparr>requests := [
     \<lparr>rq_id = ''a'', rq_kind = ''LEAVES_SWAP'', rq_owner = ''alice'', rq_created_at = ''2026'', rq_payload = JObj [], rq_idempotency_key = None\<rparr>,
     \<lparr>rq_id = ''b'', rq_kind = ''COOP_EXIT_V2'', rq_owner = ''alice'', rq_created_at = ''2026'', rq_payload = JObj [], rq_idempotency_key = None\<rparr>,
     \<lparr>rq_id = ''c'', rq_kind = ''LEAVES_SWAP'', rq_owner = ''bob'', rq_created_at = ''2026'', rq_payload = JObj [], rq_idempotency_key = None\<rparr>,
     \<lparr>rq_id = ''d'', rq_kind = ''LIGHTNING_SEND'', rq_owner = ''alice'', rq_created_at = ''2025'', rq_payload = JObj [], rq_idempotency_key = None\<rparr>]\<rparr>"

definition example_codec :: history_codec where
  "example_codec = \<lparr>hc_encode = (\<lambda>(owner, created, i). owner @ '','' @ created @ '','' @ i),
     hc_decode = (\<lambda>c. let rest = drop 1 (dropWhile (\<lambda>x. x \<noteq> CHR '','') c) in
       Some (takeWhile (\<lambda>x. x \<noteq> CHR '','') c, takeWhile (\<lambda>x. x \<noteq> CHR '','') rest, drop 1 (dropWhile (\<lambda>x. x \<noteq> CHR '','') rest)))\<rparr>"

lemma history_pages_complete_witness:
  "fetch_all example_codec ''alice'' (JObj [(''first'', JInt 2)]) ''REGTEST'' example_history (Suc (Suc 0)) =
    Some (map request_json [requests example_history ! 1, requests example_history ! 0, requests example_history ! 3])"
proof -
  let ?s = "\<lparr>hs_owner = ''alice'', hs_types = [], hs_statuses = [], hs_networks = [], hs_default_network = ''REGTEST''\<rparr>"
  have "no_clash request_clash (requests example_history)"
    by (simp add: example_history_def empty_db_def no_clash_Cons request_clash_def)
  moreover have "\<forall>r\<in>set (requests example_history). rq_created_at r \<noteq> ''''"
    by (simp add: example_history_def empty_db_def)
  moreover have "\<forall>r\<in>set (requests example_history). let c = hc_encode example_codec (''alice'', rq_created_at r, rq_id r) in
      hc_decode example_codec c = Some (''alice'', rq_created_at r, rq_id r) \<and> length c \<le> 1024"
    by (simp add: example_history_def empty_db_def example_codec_def)
  moreover have "page_size (JObj [(''first'', JInt 2)]) = Inr 2"
    by (simp add: page_size_def given_def word_le_nat_alt)
  moreover have "read_scope ''alice'' (JObj [(''first'', JInt 2)]) ''REGTEST'' = Inr ?s" "given (JObj [(''first'', JInt 2)]) ''after'' = None"
    by (simp_all add: read_scope_def history_filter_def given_def and_then_def)
  ultimately have "fetch_all example_codec ''alice'' (JObj [(''first'', JInt 2)]) ''REGTEST'' example_history
      (Suc (length (whole_history ?s example_history) div 2)) =
    Some (map (request_json \<circ> hr_request) (whole_history ?s example_history))"
    using history_pages_complete [of example_history example_codec "''alice''" "[(''first'', JInt 2)]" 2 "''REGTEST''" ?s] by blast
  moreover have rows: "map hr_request (whole_history ?s example_history) =
      [requests example_history ! 1, requests example_history ! 0, requests example_history ! 3]"
    by (simp add: whole_history_def newest_first_def history_view_def example_history_def empty_db_def in_scope_def history_row_of_def
        history_key_def less_eq_prod_def less_list_code less_eq_list_code less_char_def)
  moreover have "length (whole_history ?s example_history) = 3" using arg_cong [OF rows, of length] by simp
  ultimately show ?thesis by (simp del: fetch_all.simps flip: map_map)
qed

end
