(* ===== verification/Addresses.thy ===== *)
theory Addresses
  imports Prelude
begin

unbundle bit_operations_syntax

text \<open>
  The addresses the service may send a notification to, \<open>public_ip\<close> and \<open>local_test_ip\<close> of
  src/src/webhooks.rs on the octets and segments of \<open>std::net\<close> addresses, and their equivalence
  with a reference policy: the special-purpose address blocks, written as prefixes.
\<close>

section \<open>The code\<close>

datatype ip = V4 u32 | V6 "128 word"

definition octet :: "u32 \<Rightarrow> nat \<Rightarrow> 8 word" where
  "octet a k = ucast (drop_bit (24 - 8 * k) a)"

definition segment :: "128 word \<Rightarrow> nat \<Rightarrow> 16 word" where
  "segment a k = ucast (drop_bit (112 - 16 * k) a)"

text \<open>The predicates of \<open>std::net\<close>.\<close>

definition is_private :: "u32 \<Rightarrow> bool" where
  "is_private a \<longleftrightarrow> octet a 0 = 10 \<or> octet a 0 = 172 \<and> 16 \<le> octet a 1 \<and> octet a 1 \<le> 31 \<or> octet a 0 = 192 \<and> octet a 1 = 168"

definition is_loopback :: "u32 \<Rightarrow> bool" where
  "is_loopback a \<longleftrightarrow> octet a 0 = 127"

definition is_link_local :: "u32 \<Rightarrow> bool" where
  "is_link_local a \<longleftrightarrow> octet a 0 = 169 \<and> octet a 1 = 254"

definition is_documentation :: "u32 \<Rightarrow> bool" where
  "is_documentation a \<longleftrightarrow> octet a 0 = 192 \<and> octet a 1 = 0 \<and> octet a 2 = 2 \<or>
     octet a 0 = 198 \<and> octet a 1 = 51 \<and> octet a 2 = 100 \<or> octet a 0 = 203 \<and> octet a 1 = 0 \<and> octet a 2 = 113"

definition mapped_v4 :: "128 word \<Rightarrow> u32 option" where
  "mapped_v4 a = (if drop_bit 32 a = 0xFFFF then Some (ucast a) else None)"

definition public_v4 :: "u32 \<Rightarrow> bool" where
  "public_v4 a \<longleftrightarrow> (let x = octet a 0; y = octet a 1 in
     \<not> is_private a \<and> \<not> is_loopback a \<and> \<not> is_link_local a \<and> a \<noteq> - 1 \<and> \<not> is_documentation a \<and>
     x \<noteq> 0 \<and> x < 224 \<and> \<not> (x = 100 \<and> 64 \<le> y \<and> y \<le> 127) \<and> \<not> (x = 198 \<and> (y = 18 \<or> y = 19)) \<and> \<not> (x = 192 \<and> y = 0))"

fun public_ip :: "ip \<Rightarrow> bool" where
  "public_ip (V4 a) = public_v4 a"
| "public_ip (V6 a) = (case mapped_v4 a of
     Some v4 \<Rightarrow> public_v4 v4
   | None \<Rightarrow> let s0 = segment a 0; s1 = segment a 1 in
       s0 AND 0xE000 = 0x2000 \<and> s0 \<noteq> 0x2002 \<and> \<not> (s0 = 0x2001 \<and> (s1 < 0x200 \<or> s1 = 0xDB8)))"

fun local_test_ip :: "ip \<Rightarrow> bool" where
  "local_test_ip (V4 a) = (is_loopback a \<or> is_private a)"
| "local_test_ip (V6 a) = (case mapped_v4 a of
     Some v4 \<Rightarrow> is_loopback v4 \<or> is_private v4
   | None \<Rightarrow> a = 1 \<or> segment a 0 AND 0xFE00 = 0xFC00)"

section \<open>The reference policy\<close>

text \<open>\<open>base/n\<close>: the addresses that share the first n bits of the base.\<close>

definition in_block :: "'a::len word \<Rightarrow> 'a word \<times> nat \<Rightarrow> bool" where
  "in_block a = (\<lambda>(base, n). drop_bit (LENGTH('a) - n) a = drop_bit (LENGTH('a) - n) base)"

definition special_v4 :: "(u32 \<times> nat) list" where
  "special_v4 = [(0x00000000, 8), (0x0A000000, 8), (0x64400000, 10), (0x7F000000, 8), (0xA9FE0000, 16), (0xAC100000, 12),
     (0xC0000000, 16), (0xC0A80000, 16), (0xC6120000, 15), (0xC6336400, 24), (0xCB007100, 24), (0xE0000000, 3)]"

lemma unat_drop: "unat (drop_bit k (a :: 'a::len word)) = unat a div 2 ^ k"
  unfolding unat_drop_bit_eq by (simp add: drop_bit_eq_div)

lemma unat_octet: "unat (octet a k) = unat a div 2 ^ (24 - 8 * k) mod 256"
  unfolding octet_def by (simp only: unsigned_ucast_eq unat_drop take_bit_eq_mod) simp

lemma in_block_unat: "in_block (a :: 'a::len word) (base, n) \<longleftrightarrow> unat a div 2 ^ (LENGTH('a) - n) = unat base div 2 ^ (LENGTH('a) - n)"
  unfolding in_block_def by (simp only: prod.case word_unat_eq_iff unat_drop)

lemma div_between: "(k :: nat) > 0 \<Longrightarrow> m div k = c \<longleftrightarrow> c * k \<le> m \<and> m \<le> c * k + (k - 1)"
proof -
  assume k: "k > 0"
  have "m div k = c \<longleftrightarrow> c * k \<le> m \<and> m < Suc c * k"
    using k by (metis div_less_iff_less_mult less_Suc_eq_le less_eq_div_iff_mult_less_eq order_antisym order_refl)
  then show ?thesis using k by auto
qed

lemma byte_range:
  assumes "b < (256 :: nat)" "l < 256" "h < 256"
  shows "256 * c + l \<le> 256 * a + b \<and> 256 * a + b \<le> 256 * c + h \<longleftrightarrow> a = c \<and> l \<le> b \<and> b \<le> h"
  using assms by (cases a c rule: linorder_cases) auto

lemma byte_exact: "b < (256 :: nat) \<Longrightarrow> l < 256 \<Longrightarrow> 256 * a + b = 256 * c + l \<longleftrightarrow> a = c \<and> b = l"
  by (cases a c rule: linorder_cases) auto

lemma octet_pairs:
  assumes "b < 256"
  shows "(256 * a + b) div 64 = (401::nat) \<longleftrightarrow> a = 100 \<and> 64 \<le> b \<and> b \<le> 127"
    "(256 * a + b) div 16 = 2753 \<longleftrightarrow> a = 172 \<and> 16 \<le> b \<and> b \<le> 31"
    "(256 * a + b) div 2 = 25353 \<longleftrightarrow> a = 198 \<and> 18 \<le> b \<and> b \<le> 19"
    "256 * a + b = 43518 \<longleftrightarrow> a = 169 \<and> b = 254"
    "256 * a + b = 49152 \<longleftrightarrow> a = 192 \<and> b = 0"
    "256 * a + b = 49320 \<longleftrightarrow> a = 192 \<and> b = 168"
    "256 * a + b = 50739 \<longleftrightarrow> a = 198 \<and> b = 51"
    "256 * a + b = 51968 \<longleftrightarrow> a = 203 \<and> b = 0"
  using byte_range [OF assms, of 64 127 100 a] byte_range [OF assms, of 16 31 172 a] byte_range [OF assms, of 18 19 198 a]
    byte_exact [OF assms, of 254 a 169] byte_exact [OF assms, of 0 a 192] byte_exact [OF assms, of 168 a 192]
    byte_exact [OF assms, of 51 a 198] byte_exact [OF assms, of 0 a 203]
  by (simp_all only: div_between) simp_all

lemma public_v4_blocks: "public_v4 v \<longleftrightarrow> \<not> list_ex (in_block v) special_v4"
proof -
  define n where "n = unat v"
  define a b c m q where "a = n div 16777216" and "b = n div 65536 mod 256" and "c = n div 256 mod 256"
    and "m = n div 65536" and "q = n div 256"
  note digits = a_def b_def c_def m_def q_def
  have n: "n < 2 ^ 32" unfolding n_def using unsigned_less [of v] by simp
  have lt: "a < 256" "b < 256" "c < 256" unfolding digits using n by (simp_all add: less_mult_imp_div_less)
  have m: "m = 256 * a + b" "q = 256 * m + c"
    unfolding digits using mult_div_mod_eq [of 256 "n div 65536"] mult_div_mod_eq [of 256 "n div 256"]
    by (simp_all flip: div_mult2_eq)
  have o: "octet v 0 = k \<longleftrightarrow> a = unat k" "octet v 1 = k \<longleftrightarrow> b = unat k" "octet v 2 = k \<longleftrightarrow> c = unat k" for k
    using n by (simp_all add: word_unat_eq_iff unat_octet digits flip: n_def)
  have l: "octet v 0 < k \<longleftrightarrow> a < unat k" "octet v 1 \<le> k \<longleftrightarrow> b \<le> unat k" "k \<le> octet v 1 \<longleftrightarrow> unat k \<le> b" for k
    using n by (simp_all add: word_less_nat_alt word_le_nat_alt unat_octet digits flip: n_def)
  have top: "v = - 1 \<longleftrightarrow> n = 4294967295" by (simp add: word_unat_eq_iff n_def unsigned_minus_1_eq_mask mask_eq_exp_minus_1)
  have high: "n div 536870912 = 7 \<longleftrightarrow> \<not> a < 224"
    using lt(1) div_between [of 32 a 7] unfolding a_def by (simp flip: div_mult2_eq) linarith
  have "n = 4294967295 \<Longrightarrow> \<not> a < 224" by (simp add: a_def)
  have blocks: "in_block v (0x00000000, 8) \<longleftrightarrow> a = 0" "in_block v (0x0A000000, 8) \<longleftrightarrow> a = 10" "in_block v (0x7F000000, 8) \<longleftrightarrow> a = 127"
    "in_block v (0x64400000, 10) \<longleftrightarrow> (256 * a + b) div 64 = 401" "in_block v (0xA9FE0000, 16) \<longleftrightarrow> 256 * a + b = 43518"
    "in_block v (0xAC100000, 12) \<longleftrightarrow> (256 * a + b) div 16 = 2753" "in_block v (0xC0000000, 16) \<longleftrightarrow> 256 * a + b = 49152"
    "in_block v (0xC0A80000, 16) \<longleftrightarrow> 256 * a + b = 49320" "in_block v (0xC6120000, 15) \<longleftrightarrow> (256 * a + b) div 2 = 25353"
    "in_block v (0xC6336400, 24) \<longleftrightarrow> 256 * m + c = 256 * 50739 + 100" "in_block v (0xCB007100, 24) \<longleftrightarrow> 256 * m + c = 256 * 51968 + 113"
    "in_block v (0xE0000000, 3) \<longleftrightarrow> \<not> a < 224"
    unfolding high [symmetric] m(1) [symmetric] m(2) [symmetric]
    by (simp_all add: in_block_unat digits flip: n_def div_mult2_eq)
  have "m = 50739 \<longleftrightarrow> a = 198 \<and> b = 51" "m = 51968 \<longleftrightarrow> a = 203 \<and> b = 0"
    unfolding m(1) by (rule octet_pairs [OF lt(2)])+
  then have docs: "256 * m + c = 256 * 50739 + 100 \<longleftrightarrow> (a = 198 \<and> b = 51) \<and> c = 100"
    "256 * m + c = 256 * 51968 + 113 \<longleftrightarrow> (a = 203 \<and> b = 0) \<and> c = 113"
    using byte_exact [OF lt(3), of 100 m 50739] byte_exact [OF lt(3), of 113 m 51968] by simp_all
  have "public_v4 v \<longleftrightarrow> \<not> (a = 10 \<or> a = 172 \<and> 16 \<le> b \<and> b \<le> 31 \<or> a = 192 \<and> b = 168) \<and> a \<noteq> 127 \<and> \<not> (a = 169 \<and> b = 254) \<and>
      n \<noteq> 4294967295 \<and> \<not> (a = 192 \<and> b = 0 \<and> c = 2 \<or> a = 198 \<and> b = 51 \<and> c = 100 \<or> a = 203 \<and> b = 0 \<and> c = 113) \<and>
      a \<noteq> 0 \<and> a < 224 \<and> \<not> (a = 100 \<and> 64 \<le> b \<and> b \<le> 127) \<and> \<not> (a = 198 \<and> (b = 18 \<or> b = 19)) \<and> \<not> (a = 192 \<and> b = 0)"
    unfolding public_v4_def is_private_def is_loopback_def is_link_local_def is_documentation_def Let_def o l top
    by (simp only: unsigned_numeral unsigned_0) simp
  moreover have "list_ex (in_block v) special_v4 \<longleftrightarrow> a = 0 \<or> a = 10 \<or> a = 100 \<and> 64 \<le> b \<and> b \<le> 127 \<or> a = 127 \<or> a = 169 \<and> b = 254 \<or>
      a = 172 \<and> 16 \<le> b \<and> b \<le> 31 \<or> a = 192 \<and> b = 0 \<or> a = 192 \<and> b = 168 \<or> a = 198 \<and> 18 \<le> b \<and> b \<le> 19 \<or>
      (a = 198 \<and> b = 51) \<and> c = 100 \<or> (a = 203 \<and> b = 0) \<and> c = 113 \<or> \<not> a < 224"
    unfolding special_v4_def list_ex_Cons_iff list_ex_Nil_iff blocks octet_pairs [OF lt(2)] docs by (simp only: simp_thms)
  moreover have "b = 18 \<or> b = 19 \<longleftrightarrow> 18 \<le> b \<and> b \<le> 19" by linarith
  ultimately show ?thesis using \<open>n = 4294967295 \<Longrightarrow> \<not> a < 224\<close> by argo
qed


definition special_v6 :: "(128 word \<times> nat) list" where
  "special_v6 = [(0x20010000000000000000000000000000, 23), (0x20010DB8000000000000000000000000, 32),
     (0x20020000000000000000000000000000, 16)]"

lemma unat_segment: "unat (segment a k) = unat a div 2 ^ (112 - 16 * k) mod 65536"
  unfolding segment_def by (simp only: unsigned_ucast_eq unat_drop take_bit_eq_mod) simp

lemma top_bits: "(x :: 16 word) AND 0xE000 = 0x2000 \<longleftrightarrow> unat x div 8192 = 1"
proof -
  have "(0xE000 :: 16 word) = NOT (mask 13)" by (simp add: mask_eq_exp_minus_1 not_eq_complement)
  moreover have "x AND NOT (mask 13) = push_bit 13 (drop_bit 13 x)"
    by (rule bit_word_eqI) (auto simp: bit_simps)
  moreover have "unat (push_bit 13 (drop_bit 13 x)) = unat x div 8192 * 8192 mod 65536"
    unfolding unsigned_push_bit_eq unat_drop by (simp add: push_bit_eq_mult take_bit_eq_mod)
  moreover have "unat x div 8192 * 8192 < 65536"
    using unsigned_less [of x, where 'a = nat] div_times_less_eq_dividend [of "unat x" 8192] by simp
  ultimately have "unat (x AND 0xE000) = unat x div 8192 * 8192" by simp
  then show ?thesis by (simp add: word_unat_eq_iff)
qed

text \<open>C14. The address check is the reference policy: an address passes exactly when no special-purpose block
  holds it, IPv4-mapped addresses are judged by the embedded address, and only global unicast IPv6 passes.\<close>

theorem public_ip_special_blocks:
  "public_ip addr \<longleftrightarrow> (case addr of
      V4 a \<Rightarrow> \<not> list_ex (in_block a) special_v4
    | V6 a \<Rightarrow> if in_block a (0xFFFF00000000, 96) then \<not> list_ex (in_block (ucast a)) special_v4
        else in_block a (0x20000000000000000000000000000000, 3) \<and> \<not> list_ex (in_block a) special_v6)"
proof (cases addr)
  case (V6 v)
  define n where "n = unat v"
  define a b m where "a = n div 2 ^ 112" and "b = n div 2 ^ 96 mod 65536" and "m = n div 2 ^ 96"
  note digits = a_def b_def m_def
  have n: "n < 2 ^ 128" unfolding n_def using unsigned_less [of v] by simp
  have lt: "a < 65536" "b < 65536" unfolding digits using n by (simp_all add: less_mult_imp_div_less)
  have m: "m = 65536 * a + b"
    unfolding digits using mult_div_mod_eq [of 65536 "n div 2 ^ 96"] by (simp flip: div_mult2_eq)
  have o: "segment v 0 = k \<longleftrightarrow> a = unat k" "segment v 1 = k \<longleftrightarrow> b = unat k" "segment v 1 < k \<longleftrightarrow> b < unat k" for k
    using n by (simp_all add: word_unat_eq_iff word_less_nat_alt unat_segment digits flip: n_def)
  have top: "segment v 0 AND 0xE000 = 0x2000 \<longleftrightarrow> a div 8192 = 1"
    using n by (simp add: top_bits unat_segment digits flip: n_def)
  have mapped: "in_block v (0xFFFF00000000, 96) \<longleftrightarrow> drop_bit 32 v = 0xFFFF"
    by (simp add: in_block_unat word_unat_eq_iff unat_drop)
  have blocks: "in_block v (0x20000000000000000000000000000000, 3) \<longleftrightarrow> a div 8192 = 1" "in_block v (0x20020000000000000000000000000000, 16) \<longleftrightarrow> a = 8194"
    "in_block v (0x20010DB8000000000000000000000000, 32) \<longleftrightarrow> m = 65536 * 8193 + 3512"
    "in_block v (0x20010000000000000000000000000000, 23) \<longleftrightarrow> m div 512 = 1048704"
    by (simp_all add: in_block_unat digits flip: n_def div_mult2_eq)
  have "m = 65536 * 8193 + 3512 \<longleftrightarrow> a = 8193 \<and> b = 3512" unfolding m using lt(2) by (cases a "8193 :: nat" rule: linorder_cases) auto
  moreover have "m div 512 = 1048704 \<longleftrightarrow> a = 8193 \<and> b < 512"
    unfolding m using lt(2) by (subst div_between) (cases a "8193 :: nat" rule: linorder_cases, auto)+
  ultimately show ?thesis
    unfolding V6 public_ip.simps ip.case mapped_v4_def mapped special_v6_def list_ex_Cons_iff list_ex_Nil_iff blocks Let_def top o
    by (auto simp: public_v4_blocks)
qed (simp add: public_v4_blocks)

end
