(* ===== verification/Webhooks.thy ===== *)
theory Webhooks
  imports History Held_Records Addresses
begin

text \<open>
  The wallet notifications of src/src/webhooks.rs: URLs, the capture of
  finished requests, registration, and the delivery worker with its retries. DNS, HTTP, the URL
  parser and HMAC are arguments; what they answer is arbitrary.
\<close>

section \<open>Destinations\<close>

definition allow_local :: "string \<Rightarrow> string option \<Rightarrow> bool" where
  "allow_local network variable \<longleftrightarrow> network \<in> {''REGTEST'', ''LOCAL''} \<and> variable = Some ''1''"

text \<open>What the code reads of a parsed URL.\<close>

record url =
  u_scheme :: string
  u_host :: "string option"
  u_username :: string
  u_password :: "string option"
  u_fragment :: "string option"
  u_port :: "16 word option"
  u_text :: string

section \<open>Calls and arguments\<close>

datatype webhook_call =
    Turn
  | Resolve string "16 word"
  | PostEvent url "(ip \<times> 16 word) list" string string string

record webhook_env =
  v_parse_url :: "string \<Rightarrow> url option"
  v_parse_ip :: "string \<Rightarrow> ip option"
  v_resolve :: "webhook_call list \<Rightarrow> string \<Rightarrow> 16 word \<Rightarrow> (ip \<times> 16 word) list result"
  v_client :: "string \<Rightarrow> (ip \<times> 16 word) list \<Rightarrow> bool"
  v_post :: "webhook_call list \<Rightarrow> webhook_call \<Rightarrow> nat result"
  v_hmac :: "string \<Rightarrow> string \<Rightarrow> string"
  v_text :: "json \<Rightarrow> string"
  v_uuid :: "webhook_call list \<Rightarrow> nat \<Rightarrow> string"
  v_now :: "webhook_call list \<Rightarrow> nat \<Rightarrow> int"

type_synonym webhook_world = "webhook_call log_world"

definition parse_url :: "webhook_env \<Rightarrow> string \<Rightarrow> bool \<Rightarrow> url result" where
  "parse_url env raw local =
     (if length raw > 2048 then Inl (Failure ''webhook URL is too long'')
      else case v_parse_url env raw of
        None \<Rightarrow> Inl (Failure ''invalid webhook URL'')
      | Some u \<Rightarrow>
          if \<not> (u_scheme u = ''https'' \<or> local \<and> u_scheme u = ''http'') \<or> u_host u = None \<or> u_username u \<noteq> '''' \<or>
             u_password u \<noteq> None \<or> u_fragment u \<noteq> None
          then Inl (Failure ''webhook needs an HTTPS URL without credentials or a fragment'')
          else Inr u)"

definition trim_brackets :: "string \<Rightarrow> string" where
  "trim_brackets s = (let bracket = (\<lambda>c. c = CHR ''['' \<or> c = CHR '']'') in
     rev (dropWhile bracket (rev (dropWhile bracket s))))"

text \<open>The addresses the client is pinned to.\<close>

definition client_for :: "webhook_env \<Rightarrow> url \<Rightarrow> bool \<Rightarrow> (webhook_world, (ip \<times> 16 word) list) action" where
  "client_for env u local =
     bind_action (lift_result (ok_or (u_host u) (Failure ''missing webhook host''))) (\<lambda>raw_host.
     bind_action (lift_result (ok_or (u_port u) (Failure ''missing webhook port''))) (\<lambda>port.
     let host = trim_brackets raw_host in
     bind_action (case v_parse_ip env host of
         Some ip \<Rightarrow> ret [(ip, port)]
       | None \<Rightarrow> bind_action (ask (Resolve host port) (\<lambda>h. v_resolve env h host port)) (\<lambda>found. ret (take 32 found))) (\<lambda>addresses.
     if addresses = [] \<or> list_ex (\<lambda>a. \<not> public_ip (fst a) \<and> \<not> (local \<and> local_test_ip (fst a))) addresses
     then throw (Failure ''webhook address is not public'')
     else then_action (require (v_client env host addresses) (Failure ''webhook HTTP client failed'')) (ret addresses))))"

section \<open>Capture\<close>

definition event_types :: "string list" where
  "event_types = [''SPARK_LIGHTNING_RECEIVE_FINISHED'', ''SPARK_LIGHTNING_SEND_FINISHED'',
     ''SPARK_COOP_EXIT_FINISHED'', ''SPARK_STATIC_DEPOSIT_FINISHED'']"

definition event_type_of :: "string \<Rightarrow> string" where
  "event_type_of kind = (if kind = ''LIGHTNING_RECEIVE'' then ''SPARK_LIGHTNING_RECEIVE_FINISHED''
     else if kind = ''LIGHTNING_SEND'' then ''SPARK_LIGHTNING_SEND_FINISHED''
     else if kind = ''COOP_EXIT'' then ''SPARK_COOP_EXIT_FINISHED''
     else ''SPARK_STATIC_DEPOSIT_FINISHED'')"

definition finished :: "history_row \<Rightarrow> bool" where
  "finished h \<longleftrightarrow> hr_status h \<in> {''SUCCEEDED'', ''FAILED'', ''CANCELED''} \<and>
     hr_type h \<in> {''LIGHTNING_SEND'', ''LIGHTNING_RECEIVE'', ''COOP_EXIT'', ''CLAIM_STATIC_DEPOSIT''}"

definition announced :: "db \<Rightarrow> string \<Rightarrow> bool" where
  "announced d i \<longleftrightarrow> list_ex (\<lambda>e. we_request_id e = i) (webhook_events d)"

definition event_payload :: "db \<Rightarrow> string \<Rightarrow> history_row \<Rightarrow> json" where
  "event_payload d i h = (let request = rq_id (hr_request h) in
     JObj [(''event_id'', JStr i), (''type'', JStr (event_type_of (hr_type h))), (''request_id'', JStr request),
       (''status'', JStr (hr_status h)),
       (''receiver_identity_public_key'', jopt (\<lambda>l. JStr (lr_receiver l)) (joined_receive d request)),
       (''payment_preimage'', jopt JStr (Option.bind (joined_progress d request) rp_preimage)),
       (''htlc_amount'', jopt (\<lambda>l. JObj [(''value'', juint (lr_amount_sats l)), (''unit'', JStr ''SATOSHI'')]) (joined_receive d request)),
       (''network'', jfield (rq_payload (hr_request h)) ''network'')])"

definition event_of :: "db \<Rightarrow> string \<Rightarrow> history_row \<Rightarrow> webhook_event_row" where
  "event_of d i h = \<lparr>we_id = i, we_request_id = rq_id (hr_request h), we_owner = rq_owner (hr_request h),
     we_event_type = event_type_of (hr_type h), we_payload = event_payload d i h\<rparr>"

definition subscribed :: "webhook_event_row \<Rightarrow> webhook_row \<Rightarrow> bool" where
  "subscribed e h \<longleftrightarrow> wh_owner h = we_owner e \<and> we_event_type e \<in> set (wh_events h)"

definition new_delivery :: "webhook_event_row \<Rightarrow> webhook_row \<Rightarrow> delivery_row" where
  "new_delivery e h = \<lparr>wd_event_id = we_id e, wd_webhook_id = wh_id h, wd_attempts = 0, wd_next_attempt = 0,
     wd_delivered = False, wd_last_error = None\<rparr>"

definition insert_delivery :: "webhook_event_row \<Rightarrow> webhook_row \<Rightarrow> (db, unit) action" where
  "insert_delivery e h = insert_into ''webhook_deliveries'' webhook_deliveries_t delivery_clash
     (\<lambda>d. list_ex (\<lambda>x. we_id x = we_id e) (webhook_events d) \<and> list_ex (\<lambda>x. wh_id x = wh_id h) (wallet_webhooks d))
     (new_delivery e h)"

definition announce :: "webhook_event_row \<Rightarrow> (db, unit) action" where
  "announce e = then_action (insert_into ''webhook_events'' webhook_events_t webhook_event_clash (\<lambda>_. True) e)
     (\<lambda>d. for_each (filter (subscribed e) (wallet_webhooks d)) (insert_delivery e) d)"

definition capture :: "(nat \<Rightarrow> string) \<Rightarrow> (db, unit) action" where
  "capture ids = (\<lambda>d. for_each
     (enumerate 0 (filter (\<lambda>h. finished h \<and> \<not> announced d (rq_id (hr_request h))) (history_view d)))
     (\<lambda>(k, h). announce (event_of d (ids k) h)) d)"

section \<open>Registration\<close>

definition read_events :: "json \<Rightarrow> string list result" where
  "read_events input =
     (case jfield input ''event_types'' of
        JArr vs \<Rightarrow>
          if vs = [] \<or> length vs > length event_types then Inl (Failure ''webhook event_types required'')
          else if list_ex (\<lambda>v. case as_str v of None \<Rightarrow> True | Some s \<Rightarrow> s \<notin> set event_types) vs
          then Inl (Failure ''unsupported webhook event type'')
          else Inr (List.map_filter as_str vs)
      | _ \<Rightarrow> Inl (Failure ''webhook event_types required''))"

definition read_secret :: "json \<Rightarrow> string result" where
  "read_secret input = (case as_str (jfield input ''secret'') of
     Some s \<Rightarrow> if s \<noteq> '''' \<and> length s \<le> 4096 then Inr s else Inl (Failure ''webhook secret must contain 1 to 4096 bytes'')
   | None \<Rightarrow> Inl (Failure ''webhook secret must contain 1 to 4096 bytes''))"

definition insert_webhook :: "(nat \<Rightarrow> string) \<Rightarrow> webhook_row \<Rightarrow> (db, unit) action" where
  "insert_webhook ids h = transaction
     (bind_action (query_count wallet_webhooks_t (\<lambda>x. wh_owner x = wh_owner h)) (\<lambda>count.
      if count \<ge> 10 then throw (Failure ''wallet webhook limit reached'')
      else then_action (capture ids)
        (insert_into ''wallet_webhooks'' wallet_webhooks_t webhook_clash (\<lambda>_. True) h)))"

definition register_webhook :: "webhook_env \<Rightarrow> bool \<Rightarrow> string \<Rightarrow> json \<Rightarrow> (webhook_world, string) action" where
  "register_webhook env local owner input =
     bind_action (lift_result (ok_or (as_str (jfield input ''url'')) (Failure ''webhook URL required''))) (\<lambda>raw.
     bind_action (lift_result (parse_url env raw local)) (\<lambda>u.
     then_action (client_for env u local)
     (bind_action (lift_result (read_secret input)) (\<lambda>secret.
      bind_action (lift_result (read_events input)) (\<lambda>events.
      bind_action (reading (v_uuid env)) (\<lambda>ids.
      then_action (on_db (insert_webhook (ids \<circ> Suc)
          \<lparr>wh_id = ids 0, wh_owner = owner, wh_url = u_text u, wh_secret = secret, wh_events = events\<rparr>))
        (ret (ids 0))))))))"

definition list_webhooks :: "string \<Rightarrow> (db, json list) action" where
  "list_webhooks owner = bind_action (select_where wallet_webhooks_t (\<lambda>h. wh_owner h = owner)) (\<lambda>hs.
     ret (map (\<lambda>h. JObj [(''webhook_id'', JStr (wh_id h)), (''url'', JStr (wh_url h)),
       (''event_types'', JArr (map JStr (wh_events h)))]) (sort_key wh_id hs)))"

text \<open>The deliveries of a deleted webhook go with it.\<close>

definition delete_webhook :: "string \<Rightarrow> string \<Rightarrow> (db, bool) action" where
  "delete_webhook owner i =
     bind_action (delete_where wallet_webhooks_t (\<lambda>h. wh_id h = i \<and> wh_owner h = owner)) (\<lambda>n.
     then_action (if n = 0 then ret 0 else delete_where webhook_deliveries_t (\<lambda>x. wd_webhook_id x = i)) (ret (n = 1)))"

section \<open>Delivery\<close>

record due =
  du_event :: string
  du_webhook :: string
  du_url :: string
  du_secret :: string
  du_payload :: json
  du_attempts :: u32

text \<open>The two inner joins of a delivery.\<close>

definition due_of :: "db \<Rightarrow> delivery_row \<Rightarrow> due option" where
  "due_of d x =
     Option.bind (first_row (\<lambda>h. wh_id h = wd_webhook_id x) (wallet_webhooks d)) (\<lambda>h.
     Option.bind (first_row (\<lambda>e. we_id e = wd_event_id x) (webhook_events d)) (\<lambda>e.
     Some \<lparr>du_event = wd_event_id x, du_webhook = wd_webhook_id x, du_url = wh_url h, du_secret = wh_secret h,
       du_payload = we_payload e, du_attempts = wd_attempts x\<rparr>))"

text \<open>\<open>ORDER BY next_attempt LIMIT 20\<close>.\<close>

definition due_deliveries :: "int \<Rightarrow> (db, due list) action" where
  "due_deliveries now = (\<lambda>d. (Inr (take 20 (List.map_filter (due_of d)
     (sort_key wd_next_attempt (filter (\<lambda>x. \<not> wd_delivered x \<and> wd_next_attempt x \<le> now) (webhook_deliveries d))))), d))"

definition post_event :: "webhook_env \<Rightarrow> bool \<Rightarrow> due \<Rightarrow> (webhook_world, unit) action" where
  "post_event env local x =
     bind_action (lift_result (parse_url env (du_url x) local)) (\<lambda>u.
     bind_action (client_for env u local) (\<lambda>addresses.
     let body = v_text env (du_payload x);
         call = PostEvent u addresses (v_hmac env (du_secret x) body) (du_event x) body in
     bind_action (ask call (\<lambda>h. v_post env h call)) (\<lambda>status.
     if 200 \<le> status \<and> status < 300 then ret () else throw (Failure ''webhook HTTP error''))))"

definition delivery_delay :: "u32 \<Rightarrow> int" where
  "delivery_delay attempts = min (sat_i64 (5 * 2 ^ unat (min attempts 14))) 86400"

definition record_attempt :: "webhook_env \<Rightarrow> due \<Rightarrow> error option \<Rightarrow> (webhook_world, unit) action" where
  "record_attempt env x failure =
     bind_action (reading (\<lambda>h. v_now env h 0)) (\<lambda>now.
     on_db (void (update_where webhook_deliveries_t (\<lambda>y. wd_event_id y = du_event x \<and> wd_webhook_id y = du_webhook x)
       (\<lambda>y. y\<lparr>wd_attempts := wd_attempts y + 1, wd_next_attempt := now + delivery_delay (du_attempts x),
          wd_delivered := (failure = None), wd_last_error := map_option error_text failure\<rparr>))))"

definition deliver_one :: "webhook_env \<Rightarrow> bool \<Rightarrow> due \<Rightarrow> (webhook_world, unit) action" where
  "deliver_one env local x =
     handle (post_event env local x) (\<lambda>_. record_attempt env x None) (\<lambda>e. record_attempt env x (Some e))"

definition deliver_webhooks :: "webhook_env \<Rightarrow> bool \<Rightarrow> (webhook_world, unit) action" where
  "deliver_webhooks env local =
     bind_action (reading (\<lambda>h. (v_uuid env h, v_now env h 0))) (\<lambda>(ids, now).
     bind_action (on_db (transaction (then_action (capture ids) (due_deliveries now)))) (\<lambda>batch.
     for_each batch (deliver_one env local)))"

text \<open>One turn of the worker, which only logs an error.\<close>

definition run_webhooks :: "webhook_env \<Rightarrow> bool \<Rightarrow> (webhook_world, unit) action" where
  "run_webhooks env local = ignore (deliver_webhooks env local)"

end
