(* ===== verification/Webhook_Safety.thy ===== *)
theory Webhook_Safety
  imports Webhooks
begin

text \<open>
  What every run of the notification service guarantees: events and deliveries stay linked to a
  registered webhook of the same owner, a delivery is done only when its destination accepted it,
  a destination is public, each finished request is announced once, and a registration sends no
  old completions.
\<close>

section \<open>Runs\<close>

text \<open>\<open>Elsewhere\<close>: any change of the other tables, by the other services.\<close>

datatype webhook_op =
    Register string json
  | Remove string string
  | Deliver
  | Elsewhere "db \<Rightarrow> db"

definition elsewhere :: "(db \<Rightarrow> db) \<Rightarrow> (db, unit) action" where
  "elsewhere f = (\<lambda>d. (Inr (), (f d)\<lparr>wallet_webhooks := wallet_webhooks d, webhook_events := webhook_events d,
     webhook_deliveries := webhook_deliveries d\<rparr>))"

fun webhook_op_action :: "webhook_env \<Rightarrow> bool \<Rightarrow> webhook_op \<Rightarrow> (webhook_world, unit) action" where
  "webhook_op_action env local (Register owner input) = void (register_webhook env local owner input)"
| "webhook_op_action env local (Remove owner i) = void (on_db (delete_webhook owner i))"
| "webhook_op_action env local Deliver = run_webhooks env local"
| "webhook_op_action env local (Elsewhere f) = on_db (elsewhere f)"

text \<open>Each operation comes at its own time, which the log shows as a turn.\<close>

definition webhook_step :: "webhook_env \<Rightarrow> bool \<Rightarrow> webhook_op \<Rightarrow> webhook_world \<Rightarrow> webhook_world" where
  "webhook_step env local x = state_after (then_action (ask Turn (\<lambda>_. Inr ())) (webhook_op_action env local x))"

definition webhook_run :: "webhook_env \<Rightarrow> bool \<Rightarrow> webhook_op list \<Rightarrow> webhook_world \<Rightarrow> webhook_world" where
  "webhook_run env local xs w = fold (webhook_step env local) xs w"

section \<open>The invariant\<close>

text \<open>The destination accepted the event.\<close>

definition accepted :: "webhook_env \<Rightarrow> webhook_call list \<Rightarrow> string \<Rightarrow> bool" where
  "accepted env log event \<longleftrightarrow> (\<exists>u addresses signature body pre status.
     asked_before log (PostEvent u addresses signature event body) pre \<and>
     v_post env pre (PostEvent u addresses signature event body) = Inr status \<and> 200 \<le> status \<and> status < 300)"

text \<open>A delivery belongs to an event and to a webhook that subscribes to it.\<close>

definition linked :: "webhook_event_row list \<Rightarrow> webhook_row list \<Rightarrow> delivery_row \<Rightarrow> bool" where
  "linked es hs x \<longleftrightarrow> (\<exists>e\<in>set es. \<exists>h\<in>set hs. we_id e = wd_event_id x \<and> wh_id h = wd_webhook_id x \<and> subscribed e h)"

definition webhooks_ok :: "webhook_env \<Rightarrow> webhook_world \<Rightarrow> bool" where
  "webhooks_ok env w \<longleftrightarrow> (let d = w_db w in
     no_clash webhook_clash (wallet_webhooks d) \<and> no_clash webhook_event_clash (webhook_events d) \<and>
     no_clash delivery_clash (webhook_deliveries d) \<and>
     (\<forall>x\<in>set (webhook_deliveries d). linked (webhook_events d) (wallet_webhooks d) x \<and>
        (wd_delivered x \<longrightarrow> accepted env (w_calls w) (wd_event_id x))))"

lemma accepted_grows: "accepted env log i \<Longrightarrow> accepted env (log @ cs) i"
  unfolding accepted_def by (blast intro: asked_append)

lemma webhooks_ok_grows: "webhooks_ok env w \<Longrightarrow> webhooks_ok env (w\<lparr>w_calls := w_calls w @ cs\<rparr>)"
  by (auto simp: webhooks_ok_def Let_def intro: accepted_grows)

lemma for_each_map: "for_each (map g xs) f = for_each xs (\<lambda>x. f (g x))"
  by (induction xs) simp_all

section \<open>What a capture does\<close>

lemma insert_delivery_Inr:
  "insert_delivery e h d = (Inr u, d') \<Longrightarrow> d' = d\<lparr>webhook_deliveries := webhook_deliveries d @ [new_delivery e h]\<rparr> \<and>
     (\<forall>x\<in>set (webhook_deliveries d). \<not> delivery_clash (new_delivery e h) x)"
  by (auto simp: insert_delivery_def insert_into_def list_ex_iff split: if_splits)

lemma insert_deliveries_Inr:
  "for_each hs (insert_delivery e) d = (Inr u, d') \<Longrightarrow> no_clash delivery_clash (webhook_deliveries d) \<Longrightarrow>
     d' = d\<lparr>webhook_deliveries := webhook_deliveries d @ map (new_delivery e) hs\<rparr> \<and>
     no_clash delivery_clash (webhook_deliveries d @ map (new_delivery e) hs)"
proof (induction hs arbitrary: d)
  case (Cons h hs)
  then obtain d1 where "insert_delivery e h d = (Inr (), d1)" "for_each hs (insert_delivery e) d1 = (Inr u, d')"
    by (auto elim!: then_InrE)
  then show ?case
    using Cons.IH [of d1] Cons.prems(2) insert_delivery_Inr [of e h d "()" d1] by (simp add: no_clash_snoc [OF clash_sym(26)])
qed (simp add: ret_Inr)

lemma announce_Inr:
  assumes "announce e d = (Inr u, d')" "no_clash webhook_event_clash (webhook_events d)" "no_clash delivery_clash (webhook_deliveries d)"
  shows "d' = d\<lparr>webhook_events := webhook_events d @ [e],
      webhook_deliveries := webhook_deliveries d @ map (new_delivery e) (filter (subscribed e) (wallet_webhooks d))\<rparr> \<and>
    no_clash webhook_event_clash (webhook_events d @ [e]) \<and>
    no_clash delivery_clash (webhook_deliveries d @ map (new_delivery e) (filter (subscribed e) (wallet_webhooks d)))"
proof -
  let ?d = "d\<lparr>webhook_events := webhook_events d @ [e]\<rparr>"
  obtain u1 d1 where d1: "insert_into ''webhook_events'' webhook_events_t webhook_event_clash (\<lambda>_. True) e d = (Inr u1, d1)"
    "for_each (filter (subscribed e) (wallet_webhooks d1)) (insert_delivery e) d1 = (Inr u, d')"
    using assms(1) unfolding announce_def by (auto elim!: then_InrE)
  then have "d1 = ?d" "\<forall>x\<in>set (webhook_events d). \<not> webhook_event_clash e x"
    by (auto simp: insert_into_def list_ex_iff split: if_splits)
  then show ?thesis
    using insert_deliveries_Inr [OF d1(2)] assms(2,3) by (simp add: no_clash_snoc [OF clash_sym(25)])
qed

definition deliveries_of :: "webhook_row list \<Rightarrow> webhook_event_row list \<Rightarrow> delivery_row list" where
  "deliveries_of hs es = concat (map (\<lambda>e. map (new_delivery e) (filter (subscribed e) hs)) es)"

lemma announce_all_Inr:
  assumes "for_each es announce d = (Inr u, d')" "no_clash webhook_event_clash (webhook_events d)" "no_clash delivery_clash (webhook_deliveries d)"
  shows "d' = d\<lparr>webhook_events := webhook_events d @ es, webhook_deliveries := webhook_deliveries d @ deliveries_of (wallet_webhooks d) es\<rparr> \<and>
    no_clash webhook_event_clash (webhook_events d @ es) \<and> no_clash delivery_clash (webhook_deliveries d @ deliveries_of (wallet_webhooks d) es)"
  using assms
proof (induction es arbitrary: d)
  case (Cons e es)
  then obtain d1 where "announce e d = (Inr (), d1)" "for_each es announce d1 = (Inr u, d')"
    by (auto elim!: then_InrE)
  then show ?case
    using Cons.IH [of d1] announce_Inr [of e d "()" d1] Cons.prems(2,3) by (simp add: deliveries_of_def)
qed (simp add: ret_Inr deliveries_of_def)

definition captured :: "(nat \<Rightarrow> string) \<Rightarrow> db \<Rightarrow> webhook_event_row list" where
  "captured ids d = map (\<lambda>(k, h). event_of d (ids k) h)
     (enumerate 0 (filter (\<lambda>h. finished h \<and> \<not> announced d (rq_id (hr_request h))) (history_view d)))"

lemma capture_announces: "capture ids d = for_each (captured ids d) announce d"
  unfolding capture_def captured_def for_each_map by (simp add: split_def)

lemma capture_Inr:
  assumes "capture ids d = (Inr u, d')" "no_clash webhook_event_clash (webhook_events d)" "no_clash delivery_clash (webhook_deliveries d)"
  shows "d' = d\<lparr>webhook_events := webhook_events d @ captured ids d,
      webhook_deliveries := webhook_deliveries d @ deliveries_of (wallet_webhooks d) (captured ids d)\<rparr> \<and>
    no_clash webhook_event_clash (webhook_events d @ captured ids d) \<and>
    no_clash delivery_clash (webhook_deliveries d @ deliveries_of (wallet_webhooks d) (captured ids d))"
  using announce_all_Inr [OF _ assms(2,3)] assms(1) by (simp add: capture_announces)

lemma capture_ok:
  assumes "webhooks_ok env w" "capture ids (w_db w) = (Inr u, d')"
  shows "webhooks_ok env (w\<lparr>w_db := d'\<rparr>)"
proof -
  have inv: "no_clash webhook_event_clash (webhook_events (w_db w))" "no_clash delivery_clash (webhook_deliveries (w_db w))"
    using assms(1) by (simp_all add: webhooks_ok_def Let_def)
  have new: "linked (es @ captured ids (w_db w)) (wallet_webhooks (w_db w)) x" "\<not> wd_delivered x"
    if "x \<in> set (deliveries_of (wallet_webhooks (w_db w)) (captured ids (w_db w)))" for x es
    using that by (auto simp: deliveries_of_def new_delivery_def linked_def) blast
  have old: "linked es hs x \<Longrightarrow> linked (es @ es') hs x" for es es' hs x by (auto simp: linked_def)
  show ?thesis
    using capture_Inr [OF assms(2) inv] assms(1) unfolding webhooks_ok_def Let_def by (auto dest: new intro: old)
qed

section \<open>Deliveries\<close>

definition destination_ok :: "bool \<Rightarrow> (ip \<times> 16 word) list \<Rightarrow> bool" where
  "destination_ok local addresses \<longleftrightarrow> addresses \<noteq> [] \<and>
     (\<forall>a\<in>set addresses. public_ip (fst a) \<or> local \<and> local_test_ip (fst a))"

lemma client_for_ok: "client_for env u local w = (Inr addresses, w') \<Longrightarrow> destination_ok local addresses"
  by (auto simp: client_for_def Let_def action_Inr elim!: bind_InrE then_InrE split: if_splits)
    (force simp: destination_ok_def list_ex_iff)+

definition post_allowed :: "webhook_env \<Rightarrow> bool \<Rightarrow> db \<Rightarrow> webhook_call \<Rightarrow> bool" where
  "post_allowed env local d c = (case c of
     PostEvent u addresses signature event body \<Rightarrow> destination_ok local addresses \<and>
       (\<exists>h\<in>set (wallet_webhooks d). \<exists>e\<in>set (webhook_events d). we_id e = event \<and> subscribed e h \<and>
          parse_url env (wh_url h) local = Inr u \<and> body = v_text env (we_payload e) \<and> signature = v_hmac env (wh_secret h) body)
   | _ \<Rightarrow> True)"

definition due_backed :: "db \<Rightarrow> due \<Rightarrow> bool" where
  "due_backed d x \<longleftrightarrow> (\<exists>h\<in>set (wallet_webhooks d). \<exists>e\<in>set (webhook_events d). we_id e = du_event x \<and> wh_id h = du_webhook x \<and>
     subscribed e h \<and> du_url x = wh_url h \<and> du_secret x = wh_secret h \<and> du_payload x = we_payload e)"

lemma calls_reading: "obeys (calls_only P) (reading f)"
  by (simp add: obeys_def reading_def ret_def calls_only.R_refl)

lemma client_calls:
  assumes "\<And>host port. P (Resolve host port)"
  shows "obeys (calls_only P) (client_for env u local)"
  unfolding client_for_def Let_def
  by (intro calls_only.obeys_intros calls_ask assms)

lemma deliver_one_calls:
  assumes "due_backed d x"
  shows "obeys (calls_only (post_allowed env local d)) (deliver_one env local x)"
proof -
  obtain h e where he: "h \<in> set (wallet_webhooks d)" "e \<in> set (webhook_events d)" "we_id e = du_event x" "subscribed e h"
      "du_url x = wh_url h" "du_secret x = wh_secret h" "du_payload x = we_payload e"
    using assms unfolding due_backed_def by blast
  have "obeys (calls_only (post_allowed env local d)) (record_attempt env x failure)" for failure
    unfolding record_attempt_def by (intro calls_only.obeys_intros calls_reading calls_on_db)
  moreover have "obeys (calls_only (post_allowed env local d)) (post_event env local x)"
    unfolding post_event_def Let_def
  proof (rule calls_only.obeys_bind_result [OF calls_only.obeys_lift], unfold lift_result_Inr, elim conjE)
    fix u
    assume u: "parse_url env (du_url x) local = Inr u"
    show "obeys (calls_only (post_allowed env local d)) (bind_action (client_for env u local) (\<lambda>addresses.
        bind_action (ask (PostEvent u addresses (v_hmac env (du_secret x) (v_text env (du_payload x))) (du_event x) (v_text env (du_payload x)))
          (\<lambda>h. v_post env h (PostEvent u addresses (v_hmac env (du_secret x) (v_text env (du_payload x))) (du_event x) (v_text env (du_payload x)))))
        (\<lambda>status. if 200 \<le> status \<and> status < 300 then ret () else throw (Failure ''webhook HTTP error''))))"
    proof (rule calls_only.obeys_bind_result)
      fix w addresses w'
      assume "client_for env u local w = (Inr addresses, w')"
      then have "post_allowed env local d
          (PostEvent u addresses (v_hmac env (du_secret x) (v_text env (du_payload x))) (du_event x) (v_text env (du_payload x)))"
        using client_for_ok he u by (auto simp: post_allowed_def intro!: bexI [of _ h] bexI [of _ e])
      then show "obeys (calls_only (post_allowed env local d)) (bind_action
          (ask (PostEvent u addresses (v_hmac env (du_secret x) (v_text env (du_payload x))) (du_event x) (v_text env (du_payload x)))
          (\<lambda>h. v_post env h (PostEvent u addresses (v_hmac env (du_secret x) (v_text env (du_payload x))) (du_event x) (v_text env (du_payload x)))))
          (\<lambda>status. if 200 \<le> status \<and> status < 300 then ret () else throw (Failure ''webhook HTTP error'')))"
        by (intro calls_only.obeys_intros calls_ask)
    qed (simp add: client_calls post_allowed_def)
  qed
  ultimately show ?thesis unfolding deliver_one_def by (intro calls_only.obeys_handle)
qed

lemma due_of_backed:
  assumes "webhooks_ok env w" "y \<in> set (webhook_deliveries (w_db w))" "due_of (w_db w) y = Some x"
  shows "due_backed (w_db w) x"
proof -
  let ?d = "w_db w"
  obtain e h where eh: "e \<in> set (webhook_events ?d)" "h \<in> set (wallet_webhooks ?d)" "we_id e = wd_event_id y" "wh_id h = wd_webhook_id y" "subscribed e h"
    using assms(1,2) unfolding webhooks_ok_def Let_def linked_def by blast
  obtain e' h' where x: "e' \<in> set (webhook_events ?d)" "h' \<in> set (wallet_webhooks ?d)" "we_id e' = wd_event_id y" "wh_id h' = wd_webhook_id y"
      "x = \<lparr>du_event = wd_event_id y, du_webhook = wd_webhook_id y, du_url = wh_url h', du_secret = wh_secret h',
         du_payload = we_payload e', du_attempts = wd_attempts y\<rparr>"
    using assms(3) by (auto simp: due_of_def bind_eq_Some_conv dest!: first_row_SomeD)
  have "no_clash webhook_clash (wallet_webhooks ?d)" "no_clash webhook_event_clash (webhook_events ?d)"
    using assms(1) by (simp_all add: webhooks_ok_def Let_def)
  then have "h' = h" "e' = e"
    using eh x(1-4) no_clash_unique [of webhook_clash _ h' h] no_clash_unique [of webhook_event_clash _ e' e]
    by (simp_all add: webhook_clash_def webhook_event_clash_def)
  then show ?thesis using eh x(5) by (auto simp: due_backed_def)
qed

text \<open>The batch of a turn.\<close>

lemma batch_ok:
  assumes "webhooks_ok env w" "transaction (then_action (capture ids) (due_deliveries now)) (w_db w) = (Inr batch, d)"
  shows "webhooks_ok env (w\<lparr>w_db := d\<rparr>) \<and> wallet_webhooks d = wallet_webhooks (w_db w) \<and> (\<forall>x\<in>set batch. due_backed d x)"
proof -
  obtain u where c: "capture ids (w_db w) = (Inr u, d)" and
    b: "batch = take 20 (List.map_filter (due_of d) (sort_key wd_next_attempt
       (filter (\<lambda>x. \<not> wd_delivered x \<and> wd_next_attempt x \<le> now) (webhook_deliveries d))))"
    using assms(2) by (auto simp: action_Inr due_deliveries_def elim!: then_InrE)
  have ok: "webhooks_ok env (w\<lparr>w_db := d\<rparr>)" by (rule capture_ok [OF assms(1) c])
  have "no_clash webhook_event_clash (webhook_events (w_db w))" "no_clash delivery_clash (webhook_deliveries (w_db w))"
    using assms(1) by (simp_all add: webhooks_ok_def Let_def)
  from capture_Inr [OF c this] have "wallet_webhooks d = wallet_webhooks (w_db w)" by simp
  moreover have "due_backed d x" if mem: "x \<in> set batch" for x
  proof -
    obtain y where "y \<in> set (webhook_deliveries d)" "due_of d y = Some x"
      using in_set_takeD [OF mem [unfolded b]] by (auto simp: List.map_filter_def)
    then show ?thesis using due_of_backed [OF ok] by simp
  qed
  ultimately show ?thesis using ok by blast
qed

section \<open>Every operation keeps the invariant\<close>

definition only_asks :: "webhook_world \<Rightarrow> webhook_world \<Rightarrow> bool" where
  "only_asks w w' \<longleftrightarrow> (\<exists>cs. w' = w\<lparr>w_calls := w_calls w @ cs\<rparr>)"

interpretation only_asks: step_relation only_asks
  by unfold_locales (auto simp: only_asks_def intro: exI [of _ "[]"])

lemma only_asks_ask: "obeys only_asks (ask c f)"
  by (auto simp: obeys_def only_asks_def ask_def)

lemma keeps_asks: "obeys only_asks m \<Longrightarrow> keeps (webhooks_ok env) m"
  by (rule triple_obeys [where R = only_asks]) (auto simp: only_asks_def intro: webhooks_ok_grows)

lemma keeps_lift: "keeps P (lift_result r)"
  by (rule triple_lift)

lemma keeps_reading: "keeps P (reading f)"
  by (simp add: triple_def reading_def ret_def)

lemma keeps_state_after: "keeps P m \<Longrightarrow> P w \<Longrightarrow> P (state_after m w)"
  by (auto simp: triple_def state_after_def split: prod.splits sum.splits) (metis eq_snd_iff sum.exhaust)

lemma accepted_post:
  "v_post env log (PostEvent u addresses s i body) = Inr status \<Longrightarrow> 200 \<le> status \<Longrightarrow> status < 300 \<Longrightarrow>
     accepted env (log @ [PostEvent u addresses s i body]) i"
  unfolding accepted_def by (intro exI conjI) (rule asked_snoc, auto)

lemma client_asks: "obeys only_asks (client_for env u local)"
  unfolding client_for_def Let_def by (intro only_asks.obeys_intros only_asks_ask)

lemma post_event_ok:
  "triple (webhooks_ok env) (post_event env local x) (\<lambda>_ w. webhooks_ok env w \<and> accepted env (w_calls w) (du_event x)) (webhooks_ok env)"
proof -
  have "triple (webhooks_ok env) (ask (PostEvent u addresses s (du_event x) body) (\<lambda>h. v_post env h (PostEvent u addresses s (du_event x) body)))
      (\<lambda>status w. webhooks_ok env w \<and> (200 \<le> status \<and> status < 300 \<longrightarrow> accepted env (w_calls w) (du_event x))) (webhooks_ok env)"
    for u addresses s body
    by (rule triple_ask) (auto intro: webhooks_ok_grows accepted_post)
  then show ?thesis
    unfolding post_event_def Let_def
    by (intro triple_bind [OF keeps_lift] triple_bind [OF keeps_asks [OF client_asks]] triple_bind [where R = "\<lambda>status w. webhooks_ok env w \<and>
          (200 \<le> status \<and> status < 300 \<longrightarrow> accepted env (w_calls w) (du_event x))"] triple_if triple_ret triple_throw) auto
qed

lemma update_rows_all:
  "(\<And>z. Q z \<Longrightarrow> Q (if p z then f z else z)) \<Longrightarrow> \<forall>z\<in>set rs. Q z \<Longrightarrow> \<forall>z\<in>set (update_rows p f rs). Q z"
  unfolding set_update_rows by blast

lemma record_attempt_ok:
  "triple (\<lambda>w. webhooks_ok env w \<and> (failure = None \<longrightarrow> accepted env (w_calls w) (du_event x))) (record_attempt env x failure)
     (\<lambda>_. webhooks_ok env) (webhooks_ok env)"
proof (rule tripleI)
  fix w u w'
  assume w: "webhooks_ok env w \<and> (failure = None \<longrightarrow> accepted env (w_calls w) (du_event x))" "record_attempt env x failure w = (Inr u, w')"
  let ?p = "\<lambda>y. wd_event_id y = du_event x \<and> wd_webhook_id y = du_webhook x"
  let ?f = "\<lambda>y. y\<lparr>wd_attempts := wd_attempts y + 1, wd_next_attempt := v_now env (w_calls w) 0 + delivery_delay (du_attempts x),
      wd_delivered := (failure = None), wd_last_error := map_option error_text failure\<rparr>"
  have w': "w' = w\<lparr>w_db := (w_db w)\<lparr>webhook_deliveries := update_rows ?p ?f (webhook_deliveries (w_db w))\<rparr>\<rparr>"
    using w(2) by (auto simp: record_attempt_def reading_def bind_action_def ret_def on_db_def void_def update_where_def)
  have "no_clash delivery_clash (update_rows ?p ?f (webhook_deliveries (w_db w)))"
    using w(1) by (intro no_clash_update_rows) (auto simp: webhooks_ok_def Let_def delivery_clash_def split: if_splits)
  moreover have "\<forall>z\<in>set (update_rows ?p ?f (webhook_deliveries (w_db w))). linked (webhook_events (w_db w)) (wallet_webhooks (w_db w)) z \<and>
      (wd_delivered z \<longrightarrow> accepted env (w_calls w) (wd_event_id z))"
    (is "\<forall>z\<in>_. ?Q z")
  proof (rule update_rows_all)
    fix z
    assume Q: "?Q z"
    show "?Q (if ?p z then ?f z else z)"
    proof (cases "?p z")
      case True
      then show ?thesis using Q w(1) by (simp add: linked_def)
    next
      case False
      show ?thesis unfolding if_not_P [OF False] by (rule Q)
    qed
  qed (use w(1) in \<open>simp add: webhooks_ok_def Let_def\<close>)
  ultimately show "webhooks_ok env w'"
    using w(1) unfolding w' webhooks_ok_def Let_def by simp
next
  fix w e w'
  assume "record_attempt env x failure w = (Inl e, w')"
  then show "webhooks_ok env w'"
    by (simp add: record_attempt_def reading_def bind_action_def ret_def on_db_def void_def update_where_def)
qed

lemma deliver_one_ok: "keeps (webhooks_ok env) (deliver_one env local x)"
  unfolding deliver_one_def
  by (rule triple_handle [OF post_event_ok]) (rule triple_pre [OF record_attempt_ok], simp)+

lemma deliver_ok: "keeps (webhooks_ok env) (deliver_webhooks env local)"
proof -
  have "triple (webhooks_ok env) (on_db (transaction (then_action (capture ids) (due_deliveries now)))) (\<lambda>_. webhooks_ok env) (webhooks_ok env)" for ids now
  proof (rule tripleI)
    fix w batch w'
    assume "webhooks_ok env w" "on_db (transaction (then_action (capture ids) (due_deliveries now))) w = (Inr batch, w')"
    then show "webhooks_ok env w'" using batch_ok by (auto simp: on_db_Inr)
  next
    fix w e w'
    assume "webhooks_ok env w" "on_db (transaction (then_action (capture ids) (due_deliveries now))) w = (Inl e, w')"
    then show "webhooks_ok env w'" by (auto simp: on_db_def dest: transaction_error_rolls_back split: prod.splits)
  qed
  note batch = this
  show ?thesis
    unfolding deliver_webhooks_def split_def
    by (rule triple_bind [OF keeps_reading], rule triple_bind [OF batch], rule keeps_for_each, rule deliver_one_ok)
qed

lemma insert_webhook_cases:
  assumes "insert_webhook ids h d = (r, d')" "no_clash webhook_event_clash (webhook_events d)" "no_clash delivery_clash (webhook_deliveries d)"
  obtains e where "r = Inl e" "d' = d"
  | d1 where "r = Inr ()" "capture ids d = (Inr (), d1)" "\<forall>x\<in>set (wallet_webhooks d). wh_id x \<noteq> wh_id h"
      "d' = d1\<lparr>wallet_webhooks := wallet_webhooks d @ [h]\<rparr>"
proof (cases r)
  case (Inl e)
  have "d' = d" using assms(1) unfolding insert_webhook_def Inl by (rule transaction_error_rolls_back)
  then show ?thesis using that(1) Inl by simp
next
  case (Inr u)
  have "bind_action (query_count wallet_webhooks_t (\<lambda>x. wh_owner x = wh_owner h)) (\<lambda>count.
      if count \<ge> 10 then throw (Failure ''wallet webhook limit reached'')
      else then_action (capture ids) (insert_into ''wallet_webhooks'' wallet_webhooks_t webhook_clash (\<lambda>_. True) h)) d = (Inr u, d')"
    using assms(1) Inr by (simp add: insert_webhook_def transaction_Inr)
  then have "then_action (capture ids) (insert_into ''wallet_webhooks'' wallet_webhooks_t webhook_clash (\<lambda>_. True) h) d = (Inr u, d')"
    by (rule bind_InrE) (auto simp: query_count_def throw_Inr split: if_splits)
  then obtain u1 d1 where d1: "capture ids d = (Inr u1, d1)"
      "insert_into ''wallet_webhooks'' wallet_webhooks_t webhook_clash (\<lambda>_. True) h d1 = (Inr u, d')"
    by (rule then_InrE)
  have "wallet_webhooks d1 = wallet_webhooks d" using capture_Inr [OF d1(1) assms(2,3)] by simp
  then show ?thesis
    by (intro that(2) [of d1]) (use Inr d1 in \<open>auto simp: insert_into_def list_ex_iff webhook_clash_def split: if_splits\<close>)
qed

lemma insert_webhook_ok: "keeps (webhooks_ok env) (on_db (insert_webhook ids h))"
proof -
  have "webhooks_ok env w'" if ok: "webhooks_ok env w" and run: "on_db (insert_webhook ids h) w = (r, w')" for w w' r
  proof -
    have inv: "no_clash webhook_event_clash (webhook_events (w_db w))" "no_clash delivery_clash (webhook_deliveries (w_db w))"
      using ok by (simp_all add: webhooks_ok_def Let_def)
    obtain d' where d': "insert_webhook ids h (w_db w) = (r, d')" "w' = w\<lparr>w_db := d'\<rparr>" using run by (auto simp: on_db_def split: prod.splits)
    from d'(1) inv show ?thesis
    proof (cases rule: insert_webhook_cases)
      case (1 e)
      then show ?thesis using d'(2) ok by simp
    next
      case (2 d1)
      have "webhooks_ok env (w\<lparr>w_db := d1\<rparr>)" by (rule capture_ok [OF ok 2(2)])
      moreover have "wallet_webhooks d1 = wallet_webhooks (w_db w)" using capture_Inr [OF 2(2) inv] by simp
      moreover have "linked es hs x \<Longrightarrow> linked es (hs @ [h]) x" for es hs x by (auto simp: linked_def)
      moreover have "\<forall>x\<in>set (wallet_webhooks (w_db w)). \<not> webhook_clash h x" using 2(3) by (auto simp: webhook_clash_def)
      ultimately show ?thesis
        using 2(4) d'(2) unfolding webhooks_ok_def Let_def by (auto simp: no_clash_snoc [OF clash_sym(24)])
    qed
  qed
  then show ?thesis by (auto intro!: tripleI)
qed

lemma register_ok: "keeps (webhooks_ok env) (register_webhook env local owner input)"
  unfolding register_webhook_def
  by (rule triple_bind [OF keeps_lift], rule triple_bind [OF keeps_lift], rule triple_then [OF keeps_asks [OF client_asks]],
      rule triple_bind [OF keeps_lift], rule triple_bind [OF keeps_lift], rule triple_bind [OF keeps_reading],
      rule triple_then [OF insert_webhook_ok], rule triple_ret)

lemma delete_ok: "keeps (webhooks_ok env) (on_db (delete_webhook owner i))"
proof (rule tripleI)
  fix w b w'
  assume ok: "webhooks_ok env w" and run: "on_db (delete_webhook owner i) w = (Inr b, w')"
  let ?d = "w_db w"
  let ?p = "\<lambda>h. wh_id h = i \<and> wh_owner h = owner"
  have keep: "no_clash webhook_clash (filter p (wallet_webhooks ?d))" "no_clash delivery_clash (filter q (webhook_deliveries ?d))" for p q
    using ok by (simp_all add: webhooks_ok_def Let_def no_clash_filter)
  show "webhooks_ok env w'"
  proof (cases "filter ?p (wallet_webhooks ?d) = []")
    case True
    then have "filter (\<lambda>h. \<not> ?p h) (wallet_webhooks ?d) = wallet_webhooks ?d" by (auto simp: filter_empty_conv filter_id_conv)
    then have "w' = w" using run True by (auto simp: delete_webhook_def delete_where_def on_db_def action_defs)
    then show ?thesis using ok by simp
  next
    case False
    then have "w' = w\<lparr>w_db := ?d\<lparr>wallet_webhooks := filter (\<lambda>h. \<not> ?p h) (wallet_webhooks ?d),
        webhook_deliveries := filter (\<lambda>x. wd_webhook_id x \<noteq> i) (webhook_deliveries ?d)\<rparr>\<rparr>"
      using run by (auto simp: delete_webhook_def delete_where_def on_db_def action_defs)
    moreover have "linked es (filter (\<lambda>h. \<not> ?p h) hs) x" if link: "linked es hs x" "wd_webhook_id x \<noteq> i" for es hs x
    proof -
      obtain e h where "e \<in> set es" "h \<in> set hs" "we_id e = wd_event_id x" "wh_id h = wd_webhook_id x" "subscribed e h"
        using link(1) unfolding linked_def by blast
      then show ?thesis using link(2) unfolding linked_def by (intro bexI [of _ e] bexI [of _ h]) auto
    qed
    ultimately show ?thesis using ok keep unfolding webhooks_ok_def Let_def by auto
  qed
qed (auto simp: delete_webhook_def delete_where_def on_db_def action_defs split: if_splits)

lemma webhook_op_ok: "keeps (webhooks_ok env) (webhook_op_action env local x)"
proof (cases x)
  case (Elsewhere f)
  then show ?thesis by (auto simp: triple_def on_db_def elsewhere_def webhooks_ok_def Let_def)
qed (auto simp: run_webhooks_def ignore_def intro!: triple_void triple_handle triple_ret register_ok delete_ok deliver_ok
      intro: triple_handle [OF deliver_ok])

lemma webhook_run_ok: "webhooks_ok env w \<Longrightarrow> webhooks_ok env (webhook_run env local xs w)"
proof (induction xs arbitrary: w)
  case (Cons x xs)
  have "keeps (webhooks_ok env) (then_action (ask Turn (\<lambda>_. Inr ())) (webhook_op_action env local x))"
    by (rule triple_then [OF keeps_asks [OF only_asks_ask] webhook_op_ok])
  then have "webhooks_ok env (webhook_step env local x w)"
    unfolding webhook_step_def using Cons.prems by (rule keeps_state_after)
  then show ?case using Cons.IH by (simp add: webhook_run_def)
qed (simp add: webhook_run_def)

lemma webhooks_from_empty: "webhooks_ok env (webhook_run env local xs empty_world)"
  by (rule webhook_run_ok) (simp add: webhooks_ok_def empty_world_def empty_db_def)

end
