(* ===== verification/Webhook_Guarantees.thy ===== *)
theory Webhook_Guarantees
  imports Webhook_Safety
begin

text \<open>
  The guarantees of the notification service, from the invariant of theory Webhook_Safety, and a
  concrete run: a webhook is registered, a request finishes, its notification is refused once and
  delivered by the retry.
\<close>

section \<open>Guarantees\<close>

definition same_notices :: "webhook_world \<Rightarrow> webhook_world \<Rightarrow> bool" where
  "same_notices w w' \<longleftrightarrow> webhook_events (w_db w') = webhook_events (w_db w) \<and> wallet_webhooks (w_db w') = wallet_webhooks (w_db w)"

interpretation same_notices: step_relation same_notices
  by unfold_locales (auto simp: same_notices_def)

lemma deliver_one_notices: "obeys same_notices (deliver_one env local x)"
proof -
  have ask: "obeys same_notices (ask c f)" for c f by (simp add: obeys_def same_notices_def ask_def)
  have "obeys same_notices (client_for env u local)" for u
    unfolding client_for_def Let_def by (intro same_notices.obeys_intros ask)
  then have "obeys same_notices (post_event env local x)"
    unfolding post_event_def Let_def by (intro same_notices.obeys_intros ask)
  moreover have "obeys same_notices (record_attempt env x failure)" for failure
    by (simp add: obeys_def same_notices_def record_attempt_def reading_def action_defs on_db_def void_def update_where_def)
  ultimately show ?thesis unfolding deliver_one_def by (intro same_notices.obeys_handle)
qed

text \<open>C12. A notification reaches only who asked for it: in every reachable state, each request of the next
  delivery turn goes to the URL of a registered webhook of the event's owner that subscribes to its
  type, carries that event signed with the webhook's secret, and is sent to public addresses only
  (or local ones where the operator allows them).\<close>

theorem webhook_posts_authorized:
  assumes "PostEvent u addresses signature event body \<in> set (new_calls (deliver_webhooks env local) (webhook_run env local ops empty_world))"
  shows "\<exists>h\<in>set (wallet_webhooks (w_db (webhook_run env local ops empty_world))).
    \<exists>e\<in>set (webhook_events (w_db (state_after (deliver_webhooks env local) (webhook_run env local ops empty_world)))).
      we_id e = event \<and> we_owner e = wh_owner h \<and> we_event_type e \<in> set (wh_events h) \<and> parse_url env (wh_url h) local = Inr u \<and>
      body = v_text env (we_payload e) \<and> signature = v_hmac env (wh_secret h) body \<and>
      addresses \<noteq> [] \<and> (\<forall>a\<in>set addresses. public_ip (fst a) \<or> local \<and> local_test_ip (fst a))"
proof -
  define w where "w = webhook_run env local ops empty_world"
  have ok: "webhooks_ok env w" unfolding w_def by (rule webhooks_from_empty)
  let ?m = "transaction (then_action (capture (v_uuid env (w_calls w))) (due_deliveries (v_now env (w_calls w) 0)))"
  obtain r d where m: "?m (w_db w) = (r, d)" by (cases "?m (w_db w)")
  have run: "deliver_webhooks env local w = (case r of Inl e \<Rightarrow> (Inl e, w\<lparr>w_db := d\<rparr>) | Inr batch \<Rightarrow> for_each batch (deliver_one env local) (w\<lparr>w_db := d\<rparr>))"
    using m by (simp add: deliver_webhooks_def reading_def action_defs on_db_def split: sum.split)
  have "r \<noteq> Inl e" for e using assms run by (auto simp: new_calls_def state_after_def simp flip: w_def)
  then obtain batch where r: "r = Inr batch" by (cases r) auto
  have b: "webhooks_ok env (w\<lparr>w_db := d\<rparr>)" "wallet_webhooks d = wallet_webhooks (w_db w)" "\<forall>x\<in>set batch. due_backed d x"
    using batch_ok [OF ok] m r by auto
  have "obeys (calls_only (post_allowed env local d)) (for_each batch (deliver_one env local))"
    by (rule calls_only.obeys_for_each) (use b(3) in \<open>blast intro: deliver_one_calls\<close>)
  then have "post_allowed env local d (PostEvent u addresses signature event body)"
    using new_calls_satisfy [of _ "for_each batch (deliver_one env local)" _ "w\<lparr>w_db := d\<rparr>"] assms run r
    by (simp add: new_calls_def state_after_def flip: w_def)
  moreover have "obeys same_notices (for_each batch (deliver_one env local))"
    by (intro same_notices.obeys_for_each deliver_one_notices)
  then have "webhook_events (w_db (state_after (deliver_webhooks env local) w)) = webhook_events d"
    using run r by (auto simp: obeys_def same_notices_def state_after_def dest!: spec [of _ "w\<lparr>w_db := d\<rparr>"])
  moreover obtain h e where "h \<in> set (wallet_webhooks d)" "e \<in> set (webhook_events d)" "we_id e = event" "subscribed e h"
      "parse_url env (wh_url h) local = Inr u" "body = v_text env (we_payload e)" "signature = v_hmac env (wh_secret h) body"
      "destination_ok local addresses"
    using calculation(1) by (auto simp: post_allowed_def)
  ultimately show ?thesis
    using b(2) unfolding w_def [symmetric] destination_ok_def subscribed_def by (intro bexI [of _ h] bexI [of _ e]) simp_all
qed

text \<open>A delivery is marked done only when its destination accepted the event: over any run, whatever the
  destinations answer, a delivered notification was posted and answered with a success status.\<close>

theorem webhook_delivered_accepted:
  assumes "x \<in> set (webhook_deliveries (w_db (webhook_run env local ops empty_world)))" "wd_delivered x"
  shows "\<exists>u addresses signature body pre status.
    asked_before (w_calls (webhook_run env local ops empty_world)) (PostEvent u addresses signature (wd_event_id x) body) pre \<and>
    v_post env pre (PostEvent u addresses signature (wd_event_id x) body) = Inr status \<and> 200 \<le> status \<and> status < 300"
  using webhooks_from_empty [of env local ops] assms unfolding webhooks_ok_def Let_def accepted_def by blast

lemma view_unique:
  assumes "no_clash request_clash (requests d)"
  shows "distinct (map (\<lambda>h. rq_id (hr_request h)) (history_view d))"
proof -
  have "distinct (map rq_id rs)" if "no_clash request_clash rs" for rs
    using that by (induction rs) (auto simp: no_clash_Cons request_clash_def)
  then show ?thesis using assms by (simp add: history_view_def history_row_of_def comp_def)
qed

lemma filter_one: "distinct (map f xs) \<Longrightarrow> x \<in> set xs \<Longrightarrow> filter (\<lambda>y. f y = f x) xs = [x]"
  by (induction xs) (auto simp: filter_empty_conv, metis imageI)

lemma captured_requests:
  "map we_request_id (captured ids d) = map (\<lambda>h. rq_id (hr_request h)) (filter (\<lambda>h. finished h \<and> \<not> announced d (rq_id (hr_request h))) (history_view d))"
proof -
  have "map (\<lambda>x. g (snd x)) (enumerate 0 xs) = map g xs" for g :: "history_row \<Rightarrow> string" and xs
    by (induction xs rule: rev_induct) (simp_all add: enumerate_append_eq)
  then show ?thesis by (simp add: captured_def comp_def split_def event_of_def)
qed

lemma deliveries_of_event:
  assumes "distinct (map we_id es)" "e \<in> set es"
  shows "filter (\<lambda>x. wd_event_id x = we_id e) (deliveries_of hs es) = map (new_delivery e) (filter (subscribed e) hs)"
  using assms
proof (induction es)
  case (Cons e' es)
  have all: "filter (\<lambda>x. wd_event_id x = we_id e) (map (new_delivery e1) ks) = (if we_id e1 = we_id e then map (new_delivery e1) ks else [])" for e1 ks
    by (induction ks) (simp_all add: new_delivery_def)
  have none: "filter (\<lambda>x. wd_event_id x = we_id e) (deliveries_of hs es') = []" if "we_id e \<notin> we_id ` set es'" for es'
    using that by (induction es') (auto simp: deliveries_of_def all)
  show ?case
  proof (cases "e = e'")
    case True
    then have "e' = e" ..
    then show ?thesis using Cons.prems none [of es] by (simp add: deliveries_of_def all)
  next
    case False
    then have "we_id e' \<noteq> we_id e" using Cons.prems by (auto dest: imageI [of e _ we_id])
    then show ?thesis using Cons False by (simp add: deliveries_of_def all)
  qed
qed simp

text \<open>A finished request is announced exactly once and to all who asked: in every reachable state, the
  capture of a finished request that was not announced records one event for it, with one pending
  delivery for each webhook of its owner that subscribes to its type, and nothing else.\<close>

theorem finished_request_announced_once:
  assumes "capture ids (w_db (webhook_run env local ops empty_world)) = (Inr (), d')"
    "no_clash request_clash (requests (w_db (webhook_run env local ops empty_world)))"
    "h \<in> set (history_view (w_db (webhook_run env local ops empty_world)))" "finished h"
    "\<not> announced (w_db (webhook_run env local ops empty_world)) (rq_id (hr_request h))"
  shows "\<exists>e. filter (\<lambda>e. we_request_id e = rq_id (hr_request h)) (webhook_events d') = [e] \<and>
    we_owner e = rq_owner (hr_request h) \<and> we_event_type e = event_type_of (hr_type h) \<and>
    filter (\<lambda>x. wd_event_id x = we_id e) (webhook_deliveries d') = map (new_delivery e) (filter (subscribed e) (wallet_webhooks d'))"
proof -
  define d where "d = w_db (webhook_run env local ops empty_world)"
  note a = assms [folded d_def]
  have ok: "no_clash webhook_event_clash (webhook_events d)" "no_clash delivery_clash (webhook_deliveries d)"
      "\<forall>x\<in>set (webhook_deliveries d). linked (webhook_events d) (wallet_webhooks d) x"
    using webhooks_from_empty [of env local ops] by (simp_all add: webhooks_ok_def Let_def d_def)
  have d': "webhook_events d' = webhook_events d @ captured ids d" "wallet_webhooks d' = wallet_webhooks d"
      "webhook_deliveries d' = webhook_deliveries d @ deliveries_of (wallet_webhooks d) (captured ids d)"
      "no_clash webhook_event_clash (webhook_events d @ captured ids d)"
    using capture_Inr [OF a(1) ok(1,2)] by simp_all
  have "rq_id (hr_request h) \<in> set (map we_request_id (captured ids d))"
    unfolding captured_requests using a(3-5) by auto
  then obtain e where e: "e \<in> set (captured ids d)" "we_request_id e = rq_id (hr_request h)" by auto
  then obtain h' where h': "h' \<in> set (history_view d)" "we_request_id e = rq_id (hr_request h')" "we_owner e = rq_owner (hr_request h')"
      "we_event_type e = event_type_of (hr_type h')"
    by (auto simp: captured_def event_of_def in_set_enumerate_eq) (metis nth_mem filter_is_subset subsetD)
  have "h' = h" using view_unique [OF a(2)] h'(1,2) a(3) e(2) by (simp add: distinct_map inj_on_def)
  have "distinct (map we_request_id (captured ids d))"
    unfolding captured_requests using view_unique [OF a(2)] by (simp add: distinct_map_filter)
  then have "filter (\<lambda>e'. we_request_id e' = we_request_id e) (captured ids d) = [e]" using e(1) by (rule filter_one)
  moreover have "filter (\<lambda>e'. we_request_id e' = we_request_id e) (webhook_events d) = []"
    using a(5) e(2) by (auto simp: announced_def list_ex_iff filter_empty_conv)
  ultimately have one: "filter (\<lambda>e. we_request_id e = rq_id (hr_request h)) (webhook_events d') = [e]" using e(2) d'(1) by simp
  have ids: "distinct (map we_id es)" if "no_clash webhook_event_clash es" for es
    using that by (induction es) (auto simp: no_clash_Cons webhook_event_clash_def)
  have old: "we_id e \<notin> we_id ` set (webhook_events d)" and new: "distinct (map we_id (captured ids d))"
    using ids [OF d'(4)] e(1) by auto
  have "filter (\<lambda>x. wd_event_id x = we_id e) (webhook_deliveries d) = []"
    using ok(3) old unfolding filter_empty_conv linked_def by (metis imageI)
  then have "filter (\<lambda>x. wd_event_id x = we_id e) (webhook_deliveries d') = map (new_delivery e) (filter (subscribed e) (wallet_webhooks d'))"
    using deliveries_of_event [OF new e(1)] d' by simp
  then show ?thesis using one h' \<open>h' = h\<close> by blast
qed

lemma register_Inr:
  assumes "register_webhook env local owner input w = (Inr i, w')"
  shows "\<exists>w1 ids h. only_asks w w1 \<and> insert_webhook ids h (w_db w1) = (Inr (), w_db w') \<and> wh_id h = i"
proof -
  obtain u addresses w1 ids w2 secret events where c: "client_for env u local w = (Inr addresses, w1)" "reading (v_uuid env) w1 = (Inr ids, w2)"
    "on_db (insert_webhook (ids \<circ> Suc) \<lparr>wh_id = ids 0, wh_owner = owner, wh_url = u_text u, wh_secret = secret, wh_events = events\<rparr>) w2 =
       (Inr (), w')" "i = ids 0"
    using assms unfolding register_webhook_def by (auto simp: action_Inr elim!: bind_InrE then_InrE)
  have "only_asks w w2" using obeysD [OF client_asks, of w env u local] c(1,2) by (simp add: reading_def ret_def)
  moreover have "\<exists>h. insert_webhook (ids \<circ> Suc) h (w_db w2) = (Inr (), w_db w') \<and> wh_id h = i"
    using c(3,4) by (auto simp: on_db_Inr intro!: exI)
  ultimately show ?thesis by blast
qed

text \<open>A registration sends no old completions: when it returns, every request that has finished is already
  announced and no delivery belongs to the new webhook.\<close>

theorem registration_sends_nothing_old:
  assumes "register_webhook env local owner input (webhook_run env local ops empty_world) = (Inr i, w')"
  shows "filter (\<lambda>x. wd_webhook_id x = i) (webhook_deliveries (w_db w')) = [] \<and>
    filter (\<lambda>h. finished h \<and> \<not> announced (w_db w') (rq_id (hr_request h))) (history_view (w_db w')) = []"
proof -
  define w where "w = webhook_run env local ops empty_world"
  obtain w1 ids h where h: "only_asks w w1" "insert_webhook ids h (w_db w1) = (Inr (), w_db w')" "wh_id h = i"
    using register_Inr [OF assms [folded w_def]] by blast
  have "webhooks_ok env w1"
    using h(1) webhooks_from_empty [of env local ops] by (auto simp: only_asks_def w_def intro: webhooks_ok_grows)
  then have ok: "no_clash webhook_event_clash (webhook_events (w_db w1))" "no_clash delivery_clash (webhook_deliveries (w_db w1))"
    by (simp_all add: webhooks_ok_def Let_def)
  obtain d1 where d1: "capture ids (w_db w1) = (Inr (), d1)" "\<forall>x\<in>set (wallet_webhooks (w_db w1)). wh_id x \<noteq> wh_id h"
      "w_db w' = d1\<lparr>wallet_webhooks := wallet_webhooks (w_db w1) @ [h]\<rparr>"
    using h(2) ok by (cases rule: insert_webhook_cases) simp_all
  have "webhooks_ok env (w1\<lparr>w_db := d1\<rparr>)" by (rule capture_ok [OF \<open>webhooks_ok env w1\<close> d1(1)])
  moreover have d: "d1 = (w_db w1)\<lparr>webhook_events := webhook_events (w_db w1) @ captured ids (w_db w1),
      webhook_deliveries := webhook_deliveries (w_db w1) @ deliveries_of (wallet_webhooks (w_db w1)) (captured ids (w_db w1))\<rparr>"
    using capture_Inr [OF d1(1) ok] by simp
  ultimately have "wd_webhook_id x \<noteq> i" if "x \<in> set (webhook_deliveries d1)" for x
    using that d1(2) h(3) unfolding webhooks_ok_def Let_def linked_def by force
  moreover have "announced d1 (rq_id (hr_request r))" if r: "r \<in> set (history_view (w_db w1))" "finished r" for r
  proof (cases "announced (w_db w1) (rq_id (hr_request r))")
    case True
    then show ?thesis unfolding d by (simp add: announced_def)
  next
    case False
    then have "rq_id (hr_request r) \<in> set (map we_request_id (captured ids (w_db w1)))"
      unfolding captured_requests using r by auto
    then show ?thesis unfolding d by (auto simp: announced_def list_ex_iff)
  qed
  moreover have "history_view (w_db w') = history_view (w_db w1)" "announced (w_db w') = announced d1" "webhook_deliveries (w_db w') = webhook_deliveries d1"
    unfolding d1(3) d
    by (simp_all add: history_view_def history_row_of_def joined_send_def joined_progress_def joined_receive_def joined_exit_def announced_def fun_eq_iff)
  ultimately show ?thesis by (auto simp: filter_empty_conv)
qed

section \<open>A concrete run\<close>

text \<open>A registered webhook, a deposit that finishes, and a destination that answers its first post with an error.\<close>

definition example_url :: url where
  "example_url = \<lparr>u_scheme = ''https'', u_host = Some ''8.8.8.8'', u_username = '''', u_password = None, u_fragment = None,
     u_port = Some 443, u_text = ''https://8.8.8.8/''\<rparr>"

definition example_hooks :: webhook_env where
  "example_hooks = \<lparr>v_parse_url = \<lambda>_. Some example_url, v_parse_ip = \<lambda>_. Some (V4 0x08080808), v_resolve = \<lambda>_ _ _. Inr [],
     v_client = \<lambda>_ _. True, v_post = \<lambda>h _. if length h < 5 then Inr 503 else Inr 200, v_hmac = \<lambda>secret body. secret @ body,
     v_text = \<lambda>_. ''event'', v_uuid = \<lambda>h n. replicate (length h) CHR ''a'' @ replicate n CHR ''b'', v_now = \<lambda>h _. int (length h) * 100000\<rparr>"

definition example_registration :: json where
  "example_registration = JObj [(''url'', JStr ''https://8.8.8.8/''), (''secret'', JStr ''k''),
     (''event_types'', JArr [JStr ''SPARK_STATIC_DEPOSIT_FINISHED''])]"

definition example_finish :: "db \<Rightarrow> db" where
  "example_finish d = d\<lparr>requests := [\<lparr>rq_id = ''r'', rq_kind = ''CLAIM_STATIC_DEPOSIT'', rq_owner = ''alice'', rq_created_at = ''now'',
     rq_payload = JObj [(''status'', JStr ''SUCCEEDED'')], rq_idempotency_key = None\<rparr>]\<rparr>"

definition example_ops :: "webhook_op list" where
  "example_ops = [Register ''alice'' example_registration, Elsewhere example_finish]"

lemmas webhook_run_simps = webhook_run_def webhook_step_def example_ops_def action_defs ask_def on_db_def statement_defs void_def ignore_def
  register_webhook_def example_registration_def example_hooks_def example_url_def parse_url_def client_for_def Let_def trim_brackets_def
  read_secret_def read_events_def event_types_def reading_def insert_webhook_def transaction_def capture_def history_view_def
  empty_world_def empty_db_def elsewhere_def example_finish_def run_webhooks_def deliver_webhooks_def due_deliveries_def

lemma hooked_address: "public_ip (V4 0x08080808)"
  by (simp add: public_ip_special_blocks special_v4_def in_block_def)

abbreviation example_hooked :: webhook_world where
  "example_hooked \<equiv> webhook_run example_hooks False example_ops empty_world"

definition example_request :: request_row where
  "example_request = \<lparr>rq_id = ''r'', rq_kind = ''CLAIM_STATIC_DEPOSIT'', rq_owner = ''alice'', rq_created_at = ''now'',
     rq_payload = JObj [(''status'', JStr ''SUCCEEDED'')], rq_idempotency_key = None\<rparr>"

definition example_hook :: webhook_row where
  "example_hook = \<lparr>wh_id = ''a'', wh_owner = ''alice'', wh_url = ''https://8.8.8.8/'', wh_secret = ''k'',
     wh_events = [''SPARK_STATIC_DEPOSIT_FINISHED'']\<rparr>"

lemma example_hooked_eq:
  "example_hooked = \<lparr>w_db = empty_db\<lparr>requests := [example_request], wallet_webhooks := [example_hook]\<rparr>, w_calls = [Turn, Turn]\<rparr>"
  by (simp add: webhook_run_simps hooked_address example_request_def example_hook_def del: public_ip.simps)

definition example_entry :: history_row where
  "example_entry = \<lparr>hr_request = example_request, hr_type = ''CLAIM_STATIC_DEPOSIT'', hr_network = JStr '''', hr_status = ''SUCCEEDED''\<rparr>"

lemma hooked_view: "requests d = [example_request] \<Longrightarrow> lightning_sends d = [] \<Longrightarrow> lightning_receives d = [] \<Longrightarrow> coop_exits d = [] \<Longrightarrow>
    history_view d = [example_entry]"
  by (simp add: history_view_def history_row_of_def joined_send_def joined_progress_def joined_receive_def joined_exit_def request_type_def
      request_status_def example_request_def example_entry_def)

lemma example_finished: "finished example_entry" "rq_id (hr_request example_entry) = ''r''"
  by (simp_all add: finished_def example_entry_def example_request_def)

lemma example_event: "lightning_receives d = [] \<Longrightarrow> event_of d i example_entry = \<lparr>we_id = i, we_request_id = ''r'', we_owner = ''alice'',
     we_event_type = ''SPARK_STATIC_DEPOSIT_FINISHED'', we_payload = JObj [(''event_id'', JStr i), (''type'', JStr ''SPARK_STATIC_DEPOSIT_FINISHED''),
       (''request_id'', JStr ''r''), (''status'', JStr ''SUCCEEDED''), (''receiver_identity_public_key'', JNull),
       (''payment_preimage'', JNull), (''htlc_amount'', JNull), (''network'', JNull)]\<rparr>"
  by (simp add: event_of_def event_payload_def example_entry_def example_request_def event_type_of_def joined_receive_def joined_progress_def jopt_def Let_def)

lemmas webhook_turn_simps = action_defs ask_def on_db_def statement_defs void_def ignore_def reading_def transaction_def capture_def hooked_view
  example_finished example_event announced_def announce_def insert_delivery_def webhook_event_clash_def subscribed_def new_delivery_def delivery_clash_def
  deliver_webhooks_def due_deliveries_def due_of_def List.map_filter_def example_hook_def empty_db_def example_hooks_def deliver_one_def post_event_def
  parse_url_def client_for_def Let_def trim_brackets_def example_url_def hooked_address record_attempt_def delivery_delay_def update_rows_def
  webhook_clash_def webhook_step_def run_webhooks_def webhook_run_def

lemma example_posts: "PostEvent example_url [(V4 0x08080808, 443)] ''kevent'' ''aa'' ''event'' \<in>
    set (new_calls (deliver_webhooks example_hooks False) example_hooked)"
  unfolding example_hooked_eq new_calls_def by (simp add: webhook_turn_simps del: public_ip.simps)

lemma webhook_posts_authorized_witness:
  "\<exists>h (e :: webhook_event_row). h \<in> set (wallet_webhooks (w_db example_hooked)) \<and> we_id e = ''aa'' \<and> we_owner e = wh_owner h \<and>
    ''kevent'' = v_hmac example_hooks (wh_secret h) ''event'' \<and> public_ip (V4 0x08080808)"
proof -
  obtain h and e :: webhook_event_row where "h \<in> set (wallet_webhooks (w_db example_hooked))" "we_id e = ''aa''" "we_owner e = wh_owner h"
      "''event'' = v_text example_hooks (we_payload e)" "''kevent'' = v_hmac example_hooks (wh_secret h) ''event''"
    using webhook_posts_authorized [OF example_posts] by blast
  then show ?thesis using hooked_address by blast
qed

text \<open>The second turn delivers.\<close>

lemma webhook_run_append: "webhook_run env local (xs @ ys) w = webhook_run env local ys (webhook_run env local xs w)"
  by (simp add: webhook_run_def)

lemma example_delivered:
  "\<exists>x\<in>set (webhook_deliveries (w_db (webhook_run example_hooks False (example_ops @ [Deliver, Deliver]) empty_world))).
     wd_delivered x \<and> wd_event_id x = ''aaa'' \<and> wd_attempts x = 2"
  unfolding webhook_run_append example_hooked_eq
  by (simp add: webhook_turn_simps sat_i64_def i64_max_def i64_min_def del: public_ip.simps)

lemma webhook_delivered_accepted_witness:
  "\<exists>u addresses signature body pre. asked_before (w_calls (webhook_run example_hooks False (example_ops @ [Deliver, Deliver]) empty_world))
     (PostEvent u addresses signature ''aaa'' body) pre \<and> v_post example_hooks pre (PostEvent u addresses signature ''aaa'' body) = Inr 200"
proof -
  obtain x where x: "x \<in> set (webhook_deliveries (w_db (webhook_run example_hooks False (example_ops @ [Deliver, Deliver]) empty_world)))"
      "wd_delivered x" "wd_event_id x = ''aaa''"
    using example_delivered by blast
  have "v_post example_hooks pre c = Inr status \<Longrightarrow> 200 \<le> status \<Longrightarrow> status < 300 \<Longrightarrow> status = 200" for pre c status
    by (auto simp: example_hooks_def split: if_splits)
  then show ?thesis using webhook_delivered_accepted [OF x(1,2)] x(3) by metis
qed

lemma finished_request_announced_once_witness:
  "\<exists>d' e. capture (\<lambda>_. ''e'') (w_db example_hooked) = (Inr (), d') \<and> filter (\<lambda>e. we_request_id e = ''r'') (webhook_events d') = [e] \<and>
    filter (\<lambda>x. wd_event_id x = we_id e) (webhook_deliveries d') = [new_delivery e example_hook]"
proof -
  have "\<exists>d'. capture (\<lambda>_. ''e'') (w_db example_hooked) = (Inr (), d') \<and> wallet_webhooks d' = [example_hook]"
    unfolding example_hooked_eq by (simp add: webhook_turn_simps)
  then obtain d' where d': "capture (\<lambda>_. ''e'') (w_db example_hooked) = (Inr (), d')" "wallet_webhooks d' = [example_hook]" by blast
  have "no_clash request_clash (requests (w_db example_hooked))" "example_entry \<in> set (history_view (w_db example_hooked))"
    "\<not> announced (w_db example_hooked) (rq_id (hr_request example_entry))"
    unfolding example_hooked_eq by (simp_all add: no_clash_Cons hooked_view empty_db_def announced_def)
  then obtain e where "filter (\<lambda>e. we_request_id e = rq_id (hr_request example_entry)) (webhook_events d') = [e]"
      "we_owner e = rq_owner (hr_request example_entry)" "we_event_type e = event_type_of (hr_type example_entry)"
      "filter (\<lambda>x. wd_event_id x = we_id e) (webhook_deliveries d') = map (new_delivery e) (filter (subscribed e) (wallet_webhooks d'))"
    using finished_request_announced_once [OF d'(1) _ _ example_finished(1)] by blast
  then show ?thesis
    using d' by (auto simp: example_finished subscribed_def example_entry_def example_request_def example_hook_def event_type_of_def)
qed

lemma registration_sends_nothing_old_witness:
  "\<exists>i w'. register_webhook example_hooks False ''alice'' example_registration example_hooked = (Inr i, w') \<and>
    filter (\<lambda>x. wd_webhook_id x = i) (webhook_deliveries (w_db w')) = [] \<and> length (webhook_deliveries (w_db w')) = 1 \<and>
    filter (\<lambda>h. finished h \<and> \<not> announced (w_db w') (rq_id (hr_request h))) (history_view (w_db w')) = []"
proof -
  have "\<exists>i w'. register_webhook example_hooks False ''alice'' example_registration example_hooked = (Inr i, w') \<and>
      length (webhook_deliveries (w_db w')) = 1"
    unfolding example_hooked_eq
    by (simp add: webhook_turn_simps register_webhook_def example_registration_def read_secret_def read_events_def event_types_def
        insert_webhook_def del: public_ip.simps)
  then show ?thesis using registration_sends_nothing_old by blast
qed

end
