(* ===== verification/Wallet_Calls.thy ===== *)
theory Wallet_Calls
  imports Held_Records Spark_Splits Liquidity Transfers
begin

text \<open>
  What the service asks of the Spark wallet and of the operators: the calls of \<open>SparkService\<close>
  (src/src/spark.rs) to the SDK, their answers, and the wrappers the handlers use. Keys, ids and
  hashes are their canonical text; the SDK's drafts, plans and submitted splits are opaque texts
  with an encoding. While it works on a split, the SDK calls back into the key store of db.rs.
\<close>

section \<open>Data\<close>

text \<open>The fields of a leaf the code looks at; the rest, its transactions and keys, is one text.\<close>

record tree_node =
  tn_id :: string
  tn_value :: u64
  tn_data :: string

record wallet_leaf =
  wl_id :: string
  wl_value :: u64
  wl_data :: string
  wl_signing_keyshare :: "string option"

datatype preimage_status = WaitingForPreimage | PreimageShared | PreimageReturned | OtherPreimageStatus

record preimage_request =
  pr_payment_hash :: string
  pr_status :: preimage_status
  pr_preimage :: "string option"
  pr_transfer :: "spark_transfer option"

datatype htlc_role = HtlcSender | HtlcReceiver

record receive_swap_request =
  sr_payment_hash :: string
  sr_amount_sats :: u64
  sr_invoice :: string
  sr_receiver :: string
  sr_fee_sats :: u64
  sr_transfer_request :: string

text \<open>The preimage is \<open>None\<close> when the answer holds no 32 bytes.\<close>

record receive_swap_response =
  si_preimage :: "string option"
  si_transfer :: "spark_transfer result option"

text \<open>\<open>LeafKeyOverrideStore\<close>: what the SDK may write while it works.\<close>

datatype key_op =
    PutSplitKeys string string "8 word list list"
  | BindSplitKeys string "string list"
  | RetireLeafKeys "string list"

fun perform_key_op :: "key_op \<Rightarrow> (db, unit) action" where
  "perform_key_op (PutSplitKeys i parent secrets) = put_pending_spark_split_keys i parent secrets"
| "perform_key_op (BindSplitKeys i nodes) = bind_pending_spark_split_keys i nodes"
| "perform_key_op (RetireLeafKeys nodes) = retire_spark_leaf_keys nodes"

section \<open>Calls\<close>

text \<open>A submission is labelled with its operation id, which the plan contains. \<open>StoreTopup\<close> is the
  service's own flag, \<open>Sleep\<close> the pause of a polling loop in milliseconds.\<close>

datatype wallet_call =
    SyncWallet
  | ListLeaves
  | GetTransfer string
  | SendTransfer u64 string string
  | CounterTransfer "u64 list" string string string string
  | QueryHtlc htlc_role string string
  | ClaimHtlc string
  | PrepareTransfer string "tree_node list" string int
  | InitiateSwap receive_swap_request
  | ProcessTransfer wallet_transfer
  | DraftSplit string tree_node "u64 list"
  | PrepareSplit string tree_node
  | SubmitSplit string string
  | FinalizeSplit string
  | StoreTopup bool
  | Sleep nat

type_synonym wallet_world = "wallet_call log_world"

record wallet_env =
  a_sync :: "wallet_call list \<Rightarrow> unit result"
  a_leaves :: "wallet_call list \<Rightarrow> (wallet_leaf list \<times> wallet_leaf list) result"
  a_get :: "wallet_call list \<Rightarrow> string \<Rightarrow> wallet_transfer option result"
  a_send :: "wallet_call list \<Rightarrow> u64 \<Rightarrow> string \<Rightarrow> string \<Rightarrow> wallet_transfer result"
  a_counter :: "wallet_call list \<Rightarrow> u64 list \<Rightarrow> string \<Rightarrow> string \<Rightarrow> string \<Rightarrow> string \<Rightarrow> wallet_transfer result"
  a_htlc :: "wallet_call list \<Rightarrow> htlc_role \<Rightarrow> string \<Rightarrow> string \<Rightarrow> preimage_request list result"
  a_claim :: "wallet_call list \<Rightarrow> string \<Rightarrow> wallet_transfer result"
  a_prepare_transfer :: "wallet_call list \<Rightarrow> string \<Rightarrow> tree_node list \<Rightarrow> string \<Rightarrow> int \<Rightarrow> string result"
  a_initiate :: "wallet_call list \<Rightarrow> receive_swap_request \<Rightarrow> receive_swap_response result"
  a_process :: "wallet_call list \<Rightarrow> wallet_transfer \<Rightarrow> unit result"
  a_draft :: "wallet_call list \<Rightarrow> string \<Rightarrow> tree_node \<Rightarrow> u64 list \<Rightarrow> key_op list \<times> string result"
  a_prepare_split :: "wallet_call list \<Rightarrow> string \<Rightarrow> tree_node \<Rightarrow> key_op list \<times> string result"
  a_submit :: "wallet_call list \<Rightarrow> string \<Rightarrow> string \<Rightarrow> key_op list \<times> string result"
  a_finalize :: "wallet_call list \<Rightarrow> string \<Rightarrow> key_op list \<times> string list result"
  a_instant :: "wallet_call list \<Rightarrow> int"
  a_now :: "wallet_call list \<Rightarrow> int"
  a_now_text :: "wallet_call list \<Rightarrow> string"
  p_key :: "string \<Rightarrow> string result"
  p_transfer_id :: "string \<Rightarrow> string result"
  p_id_text :: "8 word list \<Rightarrow> string"
  p_hash :: "string \<Rightarrow> string result"
  p_hex_decode :: "string \<Rightarrow> 8 word list option"
  p_hex :: "8 word list \<Rightarrow> string"
  p_lower :: "string \<Rightarrow> string"
  p_preimage :: "string \<Rightarrow> string result"
  p_hash_of :: "string \<Rightarrow> string"
  p_sha256 :: "string \<Rightarrow> 8 word list"
  p_htlc_script :: "string \<Rightarrow> string \<Rightarrow> nat \<Rightarrow> string \<Rightarrow> string result"
  p_select :: "tree_node list \<Rightarrow> u64 list \<Rightarrow> tree_node list result"
  p_draft :: "8 word list \<Rightarrow> string result"
  p_plan :: "8 word list \<Rightarrow> string result"
  p_submitted :: "8 word list \<Rightarrow> string result"
  p_draft_bytes :: "string \<Rightarrow> 8 word list result"
  p_plan_bytes :: "string \<Rightarrow> 8 word list result"
  p_submitted_bytes :: "string \<Rightarrow> 8 word list result"
  p_raw_tx :: "string \<Rightarrow> (tx \<times> 8 word list list list) result"
  p_raw_text :: "tx \<times> 8 word list list list \<Rightarrow> string"
  p_rfc3339 :: "u64 \<Rightarrow> string"
  p_json_text :: "json \<Rightarrow> string"
  s_identity :: string
  s_splitting :: bool
  s_minimum_child :: u64

definition sync_wallet :: "wallet_env \<Rightarrow> (wallet_world, unit) action" where
  "sync_wallet env = ask SyncWallet (a_sync env)"

definition find_transfer :: "wallet_env \<Rightarrow> string \<Rightarrow> (wallet_world, wallet_transfer option) action" where
  "find_transfer env i = ask (GetTransfer i) (\<lambda>h. a_get env h i)"

definition query_htlc :: "wallet_env \<Rightarrow> htlc_role \<Rightarrow> string \<Rightarrow> string \<Rightarrow> (wallet_world, preimage_request list) action" where
  "query_htlc env role i hash = ask (QueryHtlc role i hash) (\<lambda>h. a_htlc env h role i hash)"

definition store_topup :: "bool \<Rightarrow> (wallet_world, unit) action" where
  "store_topup b = ask (StoreTopup b) (\<lambda>_. Inr ())"

text \<open>A call of the split service: its writes to the key store come before its answer.\<close>

definition ask_split :: "wallet_call \<Rightarrow> (wallet_call list \<Rightarrow> key_op list \<times> 'a result) \<Rightarrow> (wallet_world, 'a) action" where
  "ask_split c answer =
     bind_action (ask c (Inr \<circ> answer)) (\<lambda>(ops, r).
       then_action (for_each ops (\<lambda>op. ignore (on_db (perform_key_op op)))) (lift_result r))"

definition wallet_leaf_to_tree_node :: "wallet_leaf \<Rightarrow> tree_node result" where
  "wallet_leaf_to_tree_node leaf =
     (if wl_signing_keyshare leaf = None then Inl (Failure ''available Spark leaf has no signing keyshare'')
      else Inr \<lparr>tn_id = wl_id leaf, tn_value = wl_value leaf, tn_data = wl_data leaf\<rparr>)"

text \<open>\<open>collect::<Result<Vec<_>, _>>()\<close>.\<close>

fun collect_nodes :: "wallet_leaf list \<Rightarrow> tree_node list result" where
  "collect_nodes [] = Inr []"
| "collect_nodes (l # ls) = and_then (wallet_leaf_to_tree_node l) (\<lambda>n. and_then (collect_nodes ls) (\<lambda>ns. Inr (n # ns)))"

definition available_leaves :: "wallet_env \<Rightarrow> (wallet_world, tree_node list) action" where
  "available_leaves env =
     bind_action (ask ListLeaves (a_leaves env)) (\<lambda>(available, _).
     bind_action (lift_result (collect_nodes available)) (\<lambda>nodes.
       ret (sort_key (\<lambda>n. (tn_value n, tn_id n)) nodes)))"

definition select_receive_leaves :: "wallet_env \<Rightarrow> tree_node list \<Rightarrow> u64 \<Rightarrow> tree_node list result" where
  "select_receive_leaves env leaves amount = p_select env leaves [amount]"

text \<open>\<open>map_err(|e| self.liquidity_error(e))\<close>.\<close>

definition liquidity_error :: "error \<Rightarrow> (wallet_world, 'a) action" where
  "liquidity_error e =
     (if list_ex (contains (error_text e)) [''available balance'', ''Insufficient'', ''Target amounts'']
      then then_action (store_topup True) (throw (Failure (''NEEDS_TOPUP: '' @ error_text e)))
      else throw e)"

definition or_topup :: "(wallet_world, 'a) action \<Rightarrow> (wallet_world, 'a) action" where
  "or_topup m = handle m ret liquidity_error"

end
