(* ===== verification/Leaf_Splits.thy ===== *)
theory Leaf_Splits
  imports Wallet_Calls
begin

text \<open>
  Splitting a leaf so that an amount can be paid exactly: \<open>execute_leaf_split\<close>,
  \<open>resume_leaf_split\<close>, the recovery of interrupted splits and the two liquidity loops of
  src/src/spark.rs. The status loop is the code's \<open>loop\<close>, a partial function, next to its first
  five rounds; they agree on every stored operation, so the loop ends.
\<close>

section \<open>The status loop\<close>

text \<open>The checkpoint is read again after every step.\<close>

definition reread_split :: "split_operation \<Rightarrow> (wallet_world, split_operation option) action" where
  "reread_split operation =
     bind_action (on_db (spark_split_for_parent (sp_parent_node_id operation))) (\<lambda>found.
       case found of None \<Rightarrow> throw (Failure ''Spark split checkpoint disappeared'') | Some next_op \<Rightarrow> ret (Some next_op))"

definition prepare_leaf_split :: "wallet_env \<Rightarrow> tree_node option \<Rightarrow> split_operation \<Rightarrow> (wallet_world, split_operation option) action" where
  "prepare_leaf_split env parent operation =
     (case parent of
        None \<Rightarrow> throw (Failure ''cannot resume a draft split because its parent is unavailable'')
      | Some leaf \<Rightarrow>
          bind_action (lift_result (p_draft env (sp_plan operation))) (\<lambda>draft.
          bind_action (ask_split (PrepareSplit draft leaf) (\<lambda>h. a_prepare_split env h draft leaf)) (\<lambda>plan.
          bind_action (lift_result (p_plan_bytes env plan)) (\<lambda>encoded.
          then_action (on_db (save_prepared_spark_split (sp_operation_id operation) encoded)) (reread_split operation)))))"

definition submit_leaf_split :: "wallet_env \<Rightarrow> split_operation \<Rightarrow> (wallet_world, split_operation option) action" where
  "submit_leaf_split env operation =
     bind_action (lift_result (p_plan env (sp_plan operation))) (\<lambda>plan.
     then_action (on_db (mark_spark_split_submitting (sp_operation_id operation)))
     (bind_action (ask_split (SubmitSplit (sp_operation_id operation) plan) (\<lambda>h. a_submit env h (sp_operation_id operation) plan)) (\<lambda>submitted.
      bind_action (lift_result (p_submitted_bytes env submitted)) (\<lambda>encoded.
      then_action (on_db (save_submitted_spark_split (sp_operation_id operation) encoded)) (reread_split operation)))))"

definition finish_leaf_split :: "wallet_env \<Rightarrow> split_operation \<Rightarrow> (wallet_world, split_operation option) action" where
  "finish_leaf_split env operation =
     bind_action (lift_result (p_submitted env (sp_plan operation))) (\<lambda>submitted.
     bind_action (ask_split (FinalizeSplit submitted) (\<lambda>h. a_finalize env h submitted)) (\<lambda>children.
     if length children \<noteq> length (sp_child_values_sats operation)
     then throw (Failure ''finalized split returned an unexpected child count'')
     else then_action (on_db (mark_spark_split_completed (sp_operation_id operation))) (reread_split operation)))"

text \<open>One round: \<open>None\<close> when the split is complete, else the operation as it is stored now.\<close>

definition split_round :: "wallet_env \<Rightarrow> tree_node option \<Rightarrow> split_operation \<Rightarrow> (wallet_world, split_operation option) action" where
  "split_round env parent operation =
     (case sp_status operation of
        SDraft \<Rightarrow> prepare_leaf_split env parent operation
      | SPrepared \<Rightarrow> submit_leaf_split env operation
      | SSubmitting \<Rightarrow> submit_leaf_split env operation
      | SSubmitted \<Rightarrow> finish_leaf_split env operation
      | SCompleted \<Rightarrow> ret None)"

partial_function (option) split_loop ::
  "wallet_env \<Rightarrow> tree_node option \<Rightarrow> split_operation \<Rightarrow> wallet_world \<Rightarrow> (unit result \<times> wallet_world) option" where
  "split_loop env parent operation w =
     (case split_round env parent operation w of (r, w') \<Rightarrow>
       (case r of
          Inl e \<Rightarrow> Some (Inl e, w')
        | Inr found \<Rightarrow> (case found of
            None \<Rightarrow> Some (Inr (), w')
          | Some next_op \<Rightarrow> split_loop env parent next_op w')))"

fun split_rounds :: "nat \<Rightarrow> wallet_env \<Rightarrow> tree_node option \<Rightarrow> split_operation \<Rightarrow> (wallet_world, unit) action" where
  "split_rounds 0 env parent operation = throw (Failure ''split did not finish'')"
| "split_rounds (Suc n) env parent operation =
     bind_action (split_round env parent operation) (\<lambda>found.
       case found of None \<Rightarrow> ret () | Some next_op \<Rightarrow> split_rounds n env parent next_op)"

text \<open>The result of the loop is returned; an error is recorded with the operation first.\<close>

definition resume_leaf_split :: "wallet_env \<Rightarrow> split_operation \<Rightarrow> tree_node option \<Rightarrow> (wallet_world, unit) action" where
  "resume_leaf_split env operation parent =
     (if \<not> s_splitting env then throw (Failure ''just-in-time splitting is disabled'')
      else handle (split_rounds 5 env parent operation) ret (\<lambda>e.
        then_action (ignore (on_db (record_spark_split_error (sp_operation_id operation) (error_text e)))) (throw e)))"

section \<open>Splits in progress\<close>

definition new_split :: "string \<Rightarrow> tree_node \<Rightarrow> u64 list \<Rightarrow> 8 word list \<Rightarrow> split_operation" where
  "new_split operation_id parent child_values plan =
     \<lparr>sp_operation_id = operation_id, sp_parent_node_id = tn_id parent, sp_parent_value_sats = tn_value parent,
      sp_child_values_sats = child_values, sp_plan = plan, sp_status = SDraft, sp_child_node_ids = [], sp_last_error = None\<rparr>"

definition execute_leaf_split :: "wallet_env \<Rightarrow> tree_node \<Rightarrow> u64 list \<Rightarrow> (wallet_world, unit) action" where
  "execute_leaf_split env parent child_values =
     (if \<not> s_splitting env
      then liquidity_error (Failure ''just-in-time splitting is disabled; configure SSP_OPERATOR_HOSTS'')
      else bind_action (lift_result (split_operation_id (p_sha256 env) (tn_id parent))) (\<lambda>id_bytes.
        let operation_id = p_id_text env id_bytes in
        bind_action (on_db (spark_split_for_parent (tn_id parent))) (\<lambda>found.
        bind_action (case found of
            Some operation \<Rightarrow> ret operation
          | None \<Rightarrow>
              bind_action (ask_split (DraftSplit operation_id parent child_values)
                (\<lambda>h. a_draft env h operation_id parent child_values)) (\<lambda>draft.
              bind_action (lift_result (p_draft_bytes env draft)) (\<lambda>plan.
              bind_action (reading (a_now_text env)) (\<lambda>now.
              on_db (get_or_insert_spark_split now (new_split operation_id parent child_values plan)))))) (\<lambda>operation.
        if sp_parent_node_id operation \<noteq> tn_id parent \<or> sp_parent_value_sats operation \<noteq> tn_value parent \<or>
           sp_child_values_sats operation \<noteq> child_values
        then throw (Failure ''persisted split does not match the requested parent and values'')
        else resume_leaf_split env operation (Some parent)))))"

definition recover_incomplete_splits :: "wallet_env \<Rightarrow> (wallet_world, unit) action" where
  "recover_incomplete_splits env =
     (if \<not> s_splitting env then ret ()
      else bind_action (on_db incomplete_spark_splits) (\<lambda>operations.
        if operations = [] then ret ()
        else then_action (sync_wallet env)
         (bind_action (ask ListLeaves (a_leaves env)) (\<lambda>(available, missing).
          bind_action (lift_result (collect_nodes (available @ missing))) (\<lambda>nodes.
          then_action (for_each operations (\<lambda>operation.
            let parent = first_row (\<lambda>leaf. tn_id leaf = sp_parent_node_id operation) nodes in
            if sp_status operation = SDraft \<and> parent = None then ret ()
            else resume_leaf_split env operation parent))
          (sync_wallet env))))))"

section \<open>Exact liquidity\<close>

text \<open>\<open>for _ in 0..32\<close>: stop when the amount can be selected, else split one leaf.\<close>

fun exact_rounds :: "wallet_env \<Rightarrow> u64 \<Rightarrow> nat \<Rightarrow> (wallet_world, unit) action" where
  "exact_rounds env amount 0 = throw (Failure ''leaf split reconciliation exceeded its progress limit'')"
| "exact_rounds env amount (Suc n) =
     bind_action (available_leaves env) (\<lambda>available.
     if is_ok (select_receive_leaves env available amount) then ret ()
     else case plan_just_in_time_split tn_value available amount (s_minimum_child env) of
         None \<Rightarrow> liquidity_error (Failure ''amount cannot be represented by available leaves without creating a child below the configured split floor'')
       | Some plan \<Rightarrow>
           then_action (execute_leaf_split env (jit_parent plan) [jit_needed_sats plan, jit_change_sats plan])
           (then_action (sync_wallet env) (exact_rounds env amount n)))"

definition ensure_exact_liquidity :: "wallet_env \<Rightarrow> u64 \<Rightarrow> (wallet_world, unit) action" where
  "ensure_exact_liquidity env amount = then_action (recover_incomplete_splits env) (exact_rounds env amount 32)"

fun denomination_rounds :: "wallet_env \<Rightarrow> u64 list \<Rightarrow> nat \<Rightarrow> (wallet_world, unit) action" where
  "denomination_rounds env amounts 0 = throw (Failure ''denomination split reconciliation exceeded its progress limit'')"
| "denomination_rounds env amounts (Suc n) =
     bind_action (available_leaves env) (\<lambda>available.
     if is_ok (p_select env available amounts) then ret ()
     else case plan_denomination_split tn_value available amounts (s_minimum_child env) of
         None \<Rightarrow> liquidity_error (Failure ''swap denominations cannot be produced without creating a child below the configured split floor'')
       | Some (parent, needed, change) \<Rightarrow>
           then_action (execute_leaf_split env parent [needed, change])
           (then_action (sync_wallet env) (denomination_rounds env amounts n)))"

definition ensure_denominated_liquidity :: "wallet_env \<Rightarrow> u64 list \<Rightarrow> (wallet_world, unit) action" where
  "ensure_denominated_liquidity env amounts =
     then_action (recover_incomplete_splits env) (denomination_rounds env amounts 32)"

end
