(* ===== verification/Spark_Wallet.thy ===== *)
theory Spark_Wallet
  imports Leaf_Splits
begin

text \<open>
  The wallet side of payments in src/src/spark.rs: verifying and settling the funding of Lightning
  sends, refunding offers, paying Lightning receives and swaps, reading a swap back, and the
  workers that claim what swaps paid in. A handler holds the liquidity lock while it moves leaves.
\<close>

section \<open>Waiting for a transfer\<close>

text \<open>Polls every 250 ms until the deadline. One round: \<open>Some\<close> what was found, \<open>None\<close> to go on.\<close>

definition poll_round ::
  "wallet_env \<Rightarrow> (wallet_world, wallet_transfer option) action \<Rightarrow> string \<Rightarrow> int \<Rightarrow> (wallet_world, wallet_transfer option) action" where
  "poll_round env look msg deadline =
     bind_action (handle look ret (\<lambda>_. ret None)) (\<lambda>found.
     case found of
       Some transfer \<Rightarrow> ret (Some transfer)
     | None \<Rightarrow> bind_action (reading (a_instant env)) (\<lambda>now.
         if now \<ge> deadline then throw (Failure msg)
         else then_action (ask (Sleep 250) (\<lambda>_. Inr ())) (ret None)))"

partial_function (option) poll_loop ::
  "wallet_env \<Rightarrow> (wallet_world, wallet_transfer option) action \<Rightarrow> string \<Rightarrow> int \<Rightarrow> wallet_world
   \<Rightarrow> (wallet_transfer result \<times> wallet_world) option" where
  "poll_loop env look msg deadline w =
     (case poll_round env look msg deadline w of (r, w') \<Rightarrow>
       (case r of
          Inl e \<Rightarrow> Some (Inl e, w')
        | Inr found \<Rightarrow> (case found of
            Some transfer \<Rightarrow> Some (Inr transfer, w')
          | None \<Rightarrow> poll_loop env look msg deadline w')))"

fun poll_rounds ::
  "nat \<Rightarrow> wallet_env \<Rightarrow> (wallet_world, wallet_transfer option) action \<Rightarrow> string \<Rightarrow> int \<Rightarrow> (wallet_world, wallet_transfer) action" where
  "poll_rounds 0 env look msg deadline = throw (Failure ''clock stopped'')"
| "poll_rounds (Suc n) env look msg deadline =
     bind_action (poll_round env look msg deadline) (\<lambda>found.
       case found of Some transfer \<Rightarrow> ret transfer | None \<Rightarrow> poll_rounds n env look msg deadline)"

definition wait_for_transfer :: "wallet_env \<Rightarrow> string \<Rightarrow> (wallet_world, wallet_transfer) action" where
  "wait_for_transfer env i =
     bind_action (reading (a_instant env)) (\<lambda>start.
       poll_rounds 61 env (find_transfer env i) ''outbound swap transfer was not found for the SSP'' (start + 15000))"

text \<open>Only a completed transfer ends the wait.\<close>

definition find_completed :: "wallet_env \<Rightarrow> string \<Rightarrow> (wallet_world, wallet_transfer option) action" where
  "find_completed env i =
     then_action (ignore (sync_wallet env))
     (bind_action (find_transfer env i) (\<lambda>found. ret (case found of
        Some transfer \<Rightarrow> if wt_status transfer = Completed then Some transfer else None
      | None \<Rightarrow> None)))"

definition wait_for_completed_transfer :: "wallet_env \<Rightarrow> string \<Rightarrow> (wallet_world, wallet_transfer) action" where
  "wait_for_completed_transfer env i =
     bind_action (reading (a_instant env)) (\<lambda>start.
       poll_rounds 61 env (find_completed env i) ''BOLT12 funding transfer is not complete'' (start + 15000))"

section \<open>Lightning sends\<close>

definition find_htlc :: "wallet_env \<Rightarrow> string \<Rightarrow> string \<Rightarrow> (wallet_world, preimage_request option) action" where
  "find_htlc env i payment_hash =
     bind_action (query_htlc env HtlcReceiver i (p_lower env payment_hash)) (\<lambda>items.
       ret (first_row (\<lambda>r. pr_payment_hash r = p_lower env payment_hash \<and>
         (case pr_transfer r of None \<Rightarrow> False | Some t \<Rightarrow> st_id t = i)) items))"

definition verify_lightning_send :: "wallet_env \<Rightarrow> string \<Rightarrow> string \<Rightarrow> string \<Rightarrow> u64 \<Rightarrow> (wallet_world, u32) action" where
  "verify_lightning_send env owner i payment_hash amount =
     bind_action (find_htlc env i payment_hash) (\<lambda>found.
     bind_action (lift_result (ok_or found (Failure ''matching preimage swap was not found''))) (\<lambda>request.
     bind_action (lift_result (ok_or (pr_transfer request) (Failure ''preimage swap has no transfer''))) (\<lambda>transfer.
     if pr_status request \<noteq> WaitingForPreimage \<or> pr_preimage request \<noteq> None
     then throw (Failure ''preimage swap is not waiting for payment'')
     else bind_action (lift_result (p_key env (p_lower env owner))) (\<lambda>sender.
       bind_action (reading (a_now env)) (\<lambda>now.
       lift_result (validate_lightning_send_transfer (p_htlc_script env) transfer sender (s_identity env) amount
         (pr_payment_hash request) now))))))"

definition verify_bolt12_send :: "wallet_env \<Rightarrow> string \<Rightarrow> string \<Rightarrow> u64 \<Rightarrow> (wallet_world, unit) action" where
  "verify_bolt12_send env owner outbound amount =
     bind_action (lift_result (p_transfer_id env outbound)) (\<lambda>i.
     bind_action (wait_for_completed_transfer env i) (\<lambda>transfer.
     bind_action (lift_result (p_key env owner)) (\<lambda>owner_key.
     then_action (lift_result (validate_transfer transfer owner_key (s_identity env) amount))
       (if wt_type transfer \<noteq> PlainTransfer then throw (Failure ''BOLT12 funding must be a standard Spark transfer'')
        else ret ()))))"

text \<open>Deterministic ids make a repeated refund find the first one.\<close>

definition refund_id :: "wallet_env \<Rightarrow> string \<Rightarrow> string result" where
  "refund_id env outbound =
     and_then (counter_transfer_id (p_sha256 env) (''bolt12-refund:'' @ outbound)) (\<lambda>b. Inr (p_id_text env b))"

definition refund_bolt12_send :: "wallet_env \<Rightarrow> string \<Rightarrow> string \<Rightarrow> u64 \<Rightarrow> (wallet_world, string) action" where
  "refund_bolt12_send env owner outbound amount =
     then_action (sync_wallet env)
     (bind_action (lift_result (p_key env owner)) (\<lambda>owner_key.
      bind_action (lift_result (refund_id env outbound)) (\<lambda>i.
      bind_action (find_transfer env i) (\<lambda>found.
      bind_action (case found of
          Some transfer \<Rightarrow> ret transfer
        | None \<Rightarrow> or_topup (ask (SendTransfer amount owner_key i) (\<lambda>h. a_send env h amount owner_key i))) (\<lambda>transfer.
      then_action (lift_result (validate_transfer transfer (s_identity env) owner_key amount))
      (then_action (store_topup False) (ret (wt_id transfer))))))))"

definition settle_lightning_send :: "wallet_env \<Rightarrow> string \<Rightarrow> string \<Rightarrow> string \<Rightarrow> (wallet_world, unit) action" where
  "settle_lightning_send env outbound payment_hash preimage_hex =
     bind_action (lift_result (p_preimage env preimage_hex)) (\<lambda>preimage.
     if p_hash_of env preimage \<noteq> p_lower env payment_hash then throw (Failure ''preimage does not match the payment hash'')
     else bind_action (find_htlc env outbound payment_hash) (\<lambda>found.
       bind_action (lift_result (ok_or found (Failure ''matching preimage swap was not found''))) (\<lambda>request.
       if pr_status request = PreimageShared \<and> pr_preimage request \<noteq> None \<and>
          (case pr_transfer request of None \<Rightarrow> False | Some t \<Rightarrow> funding_transfer_committed (st_status t))
       then ret ()
       else if pr_status request = PreimageReturned then throw (Failure ''preimage swap can no longer be settled'')
       else bind_action (ask (ClaimHtlc preimage) (\<lambda>h. a_claim env h preimage)) (\<lambda>transfer.
         if wt_id transfer \<noteq> outbound then throw (Failure ''settled transfer id does not match the funded transfer'')
         else if \<not> funding_transfer_committed (wt_status transfer) then throw (Failure ''sender funding has not committed'')
         else ret ()))))"

section \<open>Lightning receives\<close>

text \<open>A receive that used a quote is paid under the quote's id, any other under its payment hash.\<close>

definition receive_transfer_id :: "wallet_env \<Rightarrow> string \<Rightarrow> (wallet_world, string) action" where
  "receive_transfer_id env hash =
     bind_action (on_db (query_optional receive_quote_uses_t (\<lambda>u. qu_payment_hash u = hash))) (\<lambda>quoted.
       lift_result (case quoted of
         Some u \<Rightarrow> p_transfer_id env (qu_quote_id u)
       | None \<Rightarrow> and_then (payment_transfer_id (p_hex_decode env) hash) (\<lambda>b. Inr (p_id_text env b))))"

definition settle_lightning_receive :: "wallet_env \<Rightarrow> string \<Rightarrow> string \<Rightarrow> u64 \<Rightarrow> (wallet_world, string) action" where
  "settle_lightning_receive env owner payment_hash amount =
     then_action (sync_wallet env)
     (bind_action (receive_transfer_id env payment_hash) (\<lambda>i.
      bind_action (lift_result (p_key env owner)) (\<lambda>owner_key.
      bind_action (find_transfer env i) (\<lambda>found.
      bind_action (case found of
          Some transfer \<Rightarrow> ret transfer
        | None \<Rightarrow> then_action (ensure_exact_liquidity env amount)
            (or_topup (ask (SendTransfer amount owner_key i) (\<lambda>h. a_send env h amount owner_key i)))) (\<lambda>transfer.
      then_action (lift_result (validate_transfer transfer (s_identity env) owner_key amount))
      (then_action (store_topup False) (ret (wt_id transfer))))))))"

text \<open>A swap that was initiated before and shared its preimage is taken as it is.\<close>

definition recovered_swap :: "preimage_request list \<Rightarrow> string \<Rightarrow> string \<Rightarrow> (spark_transfer \<times> string) option" where
  "recovered_swap items i hash =
     (case first_row (\<lambda>r. pr_payment_hash r = hash \<and>
         (case pr_transfer r of None \<Rightarrow> False | Some t \<Rightarrow> st_id t = i)) items of
        None \<Rightarrow> None
      | Some r \<Rightarrow> (case (pr_preimage r, pr_transfer r) of
          (Some preimage, Some transfer) \<Rightarrow> Some (transfer, preimage)
        | _ \<Rightarrow> None))"

definition recover_lightning_receive_swap ::
  "wallet_env \<Rightarrow> string \<Rightarrow> string \<Rightarrow> string \<Rightarrow> u64 \<Rightarrow> (wallet_world, receive_swap option) action" where
  "recover_lightning_receive_swap env i hash receiver amount =
     bind_action (query_htlc env HtlcSender i hash) (\<lambda>items.
       case recovered_swap items i hash of
         None \<Rightarrow> ret None
       | Some (transfer, preimage) \<Rightarrow>
           bind_action (lift_result (validate_lightning_receive_swap (p_hash_of env) transfer preimage hash i
             (s_identity env) receiver amount)) (\<lambda>swap. ret (Some swap)))"

definition build_lightning_receive_swap_request :: "string \<Rightarrow> string \<Rightarrow> u64 \<Rightarrow> string \<Rightarrow> u64 \<Rightarrow> string \<Rightarrow> receive_swap_request" where
  "build_lightning_receive_swap_request hash invoice amount receiver fee request =
     \<lparr>sr_payment_hash = hash, sr_amount_sats = amount, sr_invoice = invoice, sr_receiver = receiver, sr_fee_sats = fee,
      sr_transfer_request = request\<rparr>"

text \<open>Leaves for exactly the amount, handed to the operators with the swap's id.\<close>

definition initiate_receive_swap ::
  "wallet_env \<Rightarrow> string \<Rightarrow> string \<Rightarrow> string \<Rightarrow> string \<Rightarrow> u64 \<Rightarrow> u64 \<Rightarrow> (wallet_world, receive_swap) action" where
  "initiate_receive_swap env i hash owner_key invoice amount fee =
     bind_action (available_leaves env) (\<lambda>available.
     bind_action (or_topup (lift_result (select_receive_leaves env available amount))) (\<lambda>selected.
     then_action (require (checked_sum 0 (map tn_value selected) \<noteq> None) (Failure ''selected receive leaf total overflow''))
     (bind_action (reading (a_now env)) (\<lambda>now.
      bind_action (ask (PrepareTransfer i selected owner_key (now + 30 * 60 * nanos))
        (\<lambda>h. a_prepare_transfer env h i selected owner_key (now + 30 * 60 * nanos))) (\<lambda>prepared.
      let request = build_lightning_receive_swap_request hash invoice amount owner_key fee prepared in
      bind_action (ask (InitiateSwap request) (\<lambda>h. a_initiate env h request)) (\<lambda>response.
      bind_action (lift_result (ok_or (si_preimage response) (Failure ''operator response did not contain a 32-byte preimage''))) (\<lambda>preimage.
      bind_action (lift_result (ok_or (si_transfer response) (Failure ''operator receive swap did not return a transfer''))) (\<lambda>decoded.
      bind_action (lift_result decoded) (\<lambda>transfer.
      bind_action (lift_result (validate_lightning_receive_swap (p_hash_of env) transfer preimage hash i (s_identity env)
        owner_key amount)) (\<lambda>swap.
      then_action (ignore (sync_wallet env)) (then_action (store_topup False) (ret swap))))))))))))"

definition swap_for_lightning_receive ::
  "wallet_env \<Rightarrow> string \<Rightarrow> string \<Rightarrow> string \<Rightarrow> u64 \<Rightarrow> u64 \<Rightarrow> (wallet_world, receive_swap) action" where
  "swap_for_lightning_receive env owner payment_hash invoice amount fee =
     (if fee \<noteq> 0 then throw (Failure ''Spark receive swaps do not support a fee'')
      else bind_action (lift_result (p_hash env payment_hash)) (\<lambda>hash.
        bind_action (lift_result (p_key env owner)) (\<lambda>owner_key.
        bind_action (receive_transfer_id env hash) (\<lambda>i.
        then_action (sync_wallet env)
        (bind_action (recover_lightning_receive_swap env i hash owner_key amount) (\<lambda>recovered.
         case recovered of
           Some swap \<Rightarrow> ret swap
         | None \<Rightarrow> then_action (ensure_exact_liquidity env amount)
             (initiate_receive_swap env i hash owner_key invoice amount fee)))))))"

section \<open>Swaps\<close>

record swap_fill =
  sf_transfer_id :: string
  sf_leaves :: "json list"
  sf_expires_at :: "string option"

text \<open>The refund without its witnesses (one for each input), and the operator's 64-byte signature from the first one.\<close>

definition swap_leaf_response :: "wallet_env \<Rightarrow> string \<times> string \<Rightarrow> json result" where
  "swap_leaf_response env leaf = (case leaf of (i, raw) \<Rightarrow>
     and_then (p_raw_tx env raw) (\<lambda>(t, witnesses).
     case witnesses of
       [] \<Rightarrow> Inl (Failure ''swap refund has no input'')
     | [] # _ \<Rightarrow> Inl (Failure ''swap refund has no 64-byte adaptor signature'')
     | (signature # _) # _ \<Rightarrow>
         if length signature \<noteq> 64 then Inl (Failure ''swap refund has no 64-byte adaptor signature'')
         else Inr (JObj [(''leaf_id'', JStr i),
           (''raw_unsigned_refund_transaction'', JStr (p_raw_text env (t, map (\<lambda>_. []) witnesses))),
           (''adaptor_signed_signature'', JStr (p_hex env signature)),
           (''direct_raw_unsigned_refund_transaction'', JNull), (''direct_adaptor_signed_signature'', JNull),
           (''direct_from_cpfp_raw_unsigned_refund_transaction'', JNull),
           (''direct_from_cpfp_adaptor_signed_signature'', JNull)])))"

fun collect_leaves :: "wallet_env \<Rightarrow> (string \<times> string) list \<Rightarrow> json list result" where
  "collect_leaves env [] = Inr []"
| "collect_leaves env (l # ls) = and_then (swap_leaf_response env l) (\<lambda>j. and_then (collect_leaves env ls) (\<lambda>js. Inr (j # js)))"

definition fill_of :: "wallet_env \<Rightarrow> wallet_transfer \<Rightarrow> json list \<Rightarrow> swap_fill" where
  "fill_of env transfer leaves =
     \<lparr>sf_transfer_id = wt_id transfer, sf_leaves = leaves, sf_expires_at = map_option (p_rfc3339 env) (wt_expiry transfer)\<rparr>"

definition create_counter_transfer ::
  "wallet_env \<Rightarrow> string \<Rightarrow> string \<Rightarrow> string \<Rightarrow> u64 list \<Rightarrow> u64 \<Rightarrow> u64 \<Rightarrow> string \<Rightarrow> (wallet_world, wallet_transfer) action" where
  "create_counter_transfer env primary_id owner_key adaptor_pubkey targets received_total target_total counter_id =
     then_action (sync_wallet env)
     (bind_action (lift_result (p_key env adaptor_pubkey)) (\<lambda>adaptor.
      let change = received_total - target_total;
          amounts = (if change > 0 then targets @ [change] else targets) in
      then_action (ensure_denominated_liquidity env amounts)
        (or_topup (ask (CounterTransfer amounts owner_key primary_id adaptor counter_id)
          (\<lambda>h. a_counter env h amounts owner_key primary_id adaptor counter_id)))))"

text \<open>The checks of the request, before anything is looked up.\<close>

definition swap_targets :: "u64 list \<Rightarrow> u64 \<Rightarrow> u64 \<Rightarrow> u64 result" where
  "swap_targets targets received_total payout_total =
     (if targets = [] \<or> 0 \<in> set targets then Inl (Failure ''swap targets must be positive'')
      else if payout_total \<noteq> received_total then Inl (Failure ''Swap V3 fees are not supported by the operator protocol'')
      else case checked_sum 0 targets of
        None \<Rightarrow> Inl (Failure ''swap target total overflow'')
      | Some target_total \<Rightarrow>
          if target_total > payout_total then Inl (Failure ''swap targets exceed the payout'') else Inr target_total)"

definition fill_swap ::
  "wallet_env \<Rightarrow> string \<Rightarrow> string \<Rightarrow> string \<Rightarrow> u64 list \<Rightarrow> u64 \<Rightarrow> u64 \<Rightarrow> (wallet_world, swap_fill) action" where
  "fill_swap env owner outbound adaptor_pubkey targets received_total payout_total =
     bind_action (lift_result (swap_targets targets received_total payout_total)) (\<lambda>target_total.
     bind_action (lift_result (p_transfer_id env outbound)) (\<lambda>primary_id.
     bind_action (wait_for_transfer env primary_id) (\<lambda>seen.
     bind_action (lift_result (p_key env owner)) (\<lambda>owner_key.
     then_action (lift_result (validate_transfer seen owner_key (s_identity env) received_total))
     (then_action (lift_result (validate_swap_primary_claimable (wt_status seen)))
     (bind_action (find_transfer env primary_id) (\<lambda>again.
      bind_action (lift_result (ok_or again (Failure ''outbound swap transfer was not found for the SSP''))) (\<lambda>primary.
      then_action (lift_result (validate_transfer primary owner_key (s_identity env) received_total))
      (bind_action (lift_result (counter_transfer_id (p_sha256 env) outbound)) (\<lambda>id_bytes.
       let counter_id = p_id_text env id_bytes in
       bind_action (find_transfer env counter_id) (\<lambda>found.
       bind_action (case found of
           Some counter \<Rightarrow> ret counter
         | None \<Rightarrow> then_action (lift_result (validate_swap_primary_claimable (wt_status primary)))
             (create_counter_transfer env primary_id owner_key adaptor_pubkey targets received_total target_total counter_id)) (\<lambda>counter.
       then_action (lift_result (validate_transfer counter (s_identity env) owner_key received_total))
       (bind_action (lift_result (collect_leaves env (wt_leaves counter))) (\<lambda>leaves.
        if leaves = [] then throw (Failure ''counter transfer has no leaves'')
        else then_action (store_topup False) (ret (fill_of env counter leaves))))))))))))))))"

definition swap_details :: "wallet_env \<Rightarrow> string \<Rightarrow> (wallet_world, swap_fill) action" where
  "swap_details env text_id =
     bind_action (lift_result (p_transfer_id env text_id)) (\<lambda>i.
     bind_action (find_transfer env i) (\<lambda>found.
     bind_action (lift_result (ok_or found (Failure ''swap counter transfer is unavailable''))) (\<lambda>transfer.
     bind_action (lift_result (collect_leaves env (wt_leaves transfer))) (\<lambda>leaves.
     if leaves = [] then throw (Failure ''swap counter transfer has no refund data'')
     else ret (fill_of env transfer leaves)))))"

section \<open>Claiming what swaps paid in\<close>

definition claimable_status :: "transfer_status \<Rightarrow> bool" where
  "claimable_status st \<longleftrightarrow> st \<in> {SenderKeyTweaked, ReceiverKeyTweaked, ReceiverRefundSigned}"

text \<open>A turn of \<open>run_swap_history\<close> for one pending swap; the outcomes are logged only.\<close>

definition follow_swap :: "wallet_env \<Rightarrow> string \<times> string \<Rightarrow> (wallet_world, unit) action" where
  "follow_swap env swap = (case swap of (request, primary_text) \<Rightarrow>
     (case p_transfer_id env primary_text of
        Inl _ \<Rightarrow> ret ()
      | Inr primary \<Rightarrow> ignore (bind_action (find_transfer env primary) (\<lambda>found.
          case found of
            None \<Rightarrow> ret ()
          | Some transfer \<Rightarrow>
              if wt_status transfer = Completed
              then void (on_db (update_where requests_t (\<lambda>r. rq_id r = request)
                (\<lambda>r. r\<lparr>rq_payload := json_set ''status'' (JStr ''SUCCEEDED'') (rq_payload r)\<rparr>)))
              else if claimable_status (wt_status transfer)
              then ask (ProcessTransfer transfer) (\<lambda>h. a_process env h transfer)
              else ret ()))))"

definition pending_swap :: "request_row \<Rightarrow> bool" where
  "pending_swap r \<longleftrightarrow> rq_kind r = ''LEAVES_SWAP'' \<and> jfield (rq_payload r) ''outbound_transfer_spark_id'' \<noteq> JNull \<and>
     jfield (rq_payload r) ''status'' \<noteq> JStr ''SUCCEEDED''"

text \<open>\<open>json_extract\<close> read as a \<open>String\<close>: an array or object is its text, a number or a boolean an error.\<close>

definition extracted_text :: "wallet_env \<Rightarrow> json \<Rightarrow> string result" where
  "extracted_text env j = (case j of
     JStr s \<Rightarrow> Inr s
   | JArr _ \<Rightarrow> Inr (p_json_text env j)
   | JObj _ \<Rightarrow> Inr (p_json_text env j)
   | _ \<Rightarrow> Inl (Failure ''InvalidColumnType''))"

fun collect_swaps :: "wallet_env \<Rightarrow> request_row list \<Rightarrow> (string \<times> string) list result" where
  "collect_swaps env [] = Inr []"
| "collect_swaps env (r # rs) =
     and_then (extracted_text env (jfield (rq_payload r) ''outbound_transfer_spark_id'')) (\<lambda>primary.
     and_then (collect_swaps env rs) (\<lambda>swaps. Inr ((rq_id r, primary) # swaps)))"

definition pending_swaps :: "wallet_env \<Rightarrow> (db, (string \<times> string) list) action" where
  "pending_swaps env =
     bind_action (select_where requests_t pending_swap) (\<lambda>rs. lift_result (collect_swaps env (take 1000 rs)))"

definition run_swap_history :: "wallet_env \<Rightarrow> (wallet_world, unit) action" where
  "run_swap_history env = ignore (bind_action (on_db (pending_swaps env)) (\<lambda>pending. for_each pending (follow_swap env)))"

text \<open>The task a filled swap leaves behind: it claims the primary within five minutes.\<close>

fun claim_rounds :: "nat \<Rightarrow> wallet_env \<Rightarrow> string \<Rightarrow> int \<Rightarrow> nat \<Rightarrow> (wallet_world, unit) action" where
  "claim_rounds 0 env primary_id deadline pause = ret ()"
| "claim_rounds (Suc n) env primary_id deadline pause =
     bind_action (reading (a_instant env)) (\<lambda>now.
     if now \<ge> deadline then ret ()
     else bind_action (handle (find_transfer env primary_id) (\<lambda>found.
         case found of
           None \<Rightarrow> ret False
         | Some transfer \<Rightarrow>
             if wt_status transfer = Completed then ret True
             else if claimable_status (wt_status transfer)
             then handle (ask (ProcessTransfer transfer) (\<lambda>h. a_process env h transfer)) (\<lambda>_. ret True) (\<lambda>_. ret False)
             else ret False) (\<lambda>_. ret False)) (\<lambda>finished.
       if finished then ret ()
       else then_action (ask (Sleep pause) (\<lambda>_. Inr ())) (claim_rounds n env primary_id deadline (min (2 * pause) 5000))))"

definition reconcile_swap_claim :: "wallet_env \<Rightarrow> string \<Rightarrow> (wallet_world, unit) action" where
  "reconcile_swap_claim env primary_id =
     bind_action (reading (a_instant env)) (\<lambda>start. claim_rounds 64 env primary_id (start + 300000) 250)"

end
