(* ===== verification/Wallet_Safety.thy ===== *)
theory Wallet_Safety
  imports Spark_Wallet
begin

text \<open>
  The invariant of the wallet service: every submission of a split is of the plan its row recorded
  as SUBMITTING, and every call that pays out was justified when it was made. Every handler and
  worker of \<open>Spark_Wallet\<close> and \<open>Leaf_Splits\<close> keeps it, and the loops of the code end.
\<close>

section \<open>The invariant\<close>

text \<open>What the key store and the error notes leave alone.\<close>

definition fixed_part :: "split_row \<Rightarrow> split_row" where
  "fixed_part r = r\<lparr>sp_child_node_ids := [], sp_last_error := None\<rparr>"

definition same_splits :: "db \<Rightarrow> db \<Rightarrow> bool" where
  "same_splits d d' \<longleftrightarrow> map fixed_part (split_operations d') = map fixed_part (split_operations d)"

definition row_ok :: "wallet_env \<Rightarrow> wallet_call list \<Rightarrow> split_row \<Rightarrow> bool" where
  "row_ok env log r \<longleftrightarrow> (\<forall>plan. SubmitSplit (sp_operation_id r) plan \<in> set log \<longrightarrow>
     SSubmitting \<le> sp_status r \<and> (sp_status r = SSubmitting \<longrightarrow> p_plan env (sp_plan r) = Inr plan))"

text \<open>The calls that may create a transfer, and an answer no such call came after.\<close>

fun pays :: "wallet_call \<Rightarrow> bool" where
  "pays (SendTransfer _ _ _) = True"
| "pays (CounterTransfer _ _ _ _ _) = True"
| "pays (InitiateSwap _) = True"
| "pays _ = False"

definition fresh_answer :: "wallet_call list \<Rightarrow> wallet_call \<Rightarrow> (wallet_call list \<Rightarrow> bool) \<Rightarrow> bool" where
  "fresh_answer log c P \<longleftrightarrow> (\<exists>pre post. log = pre @ c # post \<and> P pre \<and> (\<forall>c'\<in>set post. \<not> pays c'))"

definition transfer_seen :: "wallet_env \<Rightarrow> wallet_call list \<Rightarrow> string \<Rightarrow> wallet_transfer option \<Rightarrow> bool" where
  "transfer_seen env log i found \<longleftrightarrow> fresh_answer log (GetTransfer i) (\<lambda>pre. a_get env pre i = Inr found)"

text \<open>A primary that pays the service, seen alive and for exactly the amounts of the counter transfer.\<close>

definition primary_funds :: "wallet_env \<Rightarrow> wallet_call list \<Rightarrow> string \<Rightarrow> string \<Rightarrow> u64 list \<Rightarrow> bool" where
  "primary_funds env log primary owner amounts \<longleftrightarrow>
     (\<exists>t. transfer_seen env log primary (Some t) \<and> wt_sender t = owner \<and> wt_receiver t = s_identity env \<and>
        wt_status t \<notin> {Expired, Returned} \<and> (\<Sum>n\<leftarrow>amounts. unat n) = unat (wt_total t))"

text \<open>A receive swap is initiated after the recovery of the same swap found nothing, for a prepared transfer.\<close>

definition swap_unrecovered :: "wallet_env \<Rightarrow> wallet_call list \<Rightarrow> string \<Rightarrow> string \<Rightarrow> bool" where
  "swap_unrecovered env log i hash \<longleftrightarrow> fresh_answer log (QueryHtlc HtlcSender i hash)
     (\<lambda>pre. \<exists>items. a_htlc env pre HtlcSender i hash = Inr items \<and> recovered_swap items i hash = None)"

definition swap_prepared :: "wallet_env \<Rightarrow> wallet_call list \<Rightarrow> string \<Rightarrow> receive_swap_request \<Rightarrow> bool" where
  "swap_prepared env log i request \<longleftrightarrow> (\<exists>leaves expiry. fresh_answer log (PrepareTransfer i leaves (sr_receiver request) expiry)
     (\<lambda>pre. a_prepare_transfer env pre i leaves (sr_receiver request) expiry = Inr (sr_transfer_request request)))"

fun pay_backed :: "wallet_env \<Rightarrow> wallet_call list \<Rightarrow> wallet_call \<Rightarrow> bool" where
  "pay_backed env log (SendTransfer amount receiver i) = transfer_seen env log i None"
| "pay_backed env log (CounterTransfer amounts receiver primary adaptor i) =
     (transfer_seen env log i None \<and> primary_funds env log primary receiver amounts)"
| "pay_backed env log (InitiateSwap request) =
     (sr_fee_sats request = 0 \<and>
       (\<exists>i. swap_unrecovered env log i (sr_payment_hash request) \<and> swap_prepared env log i request))"
| "pay_backed env log _ = True"

definition wallet_ok :: "wallet_env \<Rightarrow> wallet_world \<Rightarrow> bool" where
  "wallet_ok env w \<longleftrightarrow> no_clash split_clash (split_operations (w_db w)) \<and>
     (\<forall>r\<in>set (split_operations (w_db w)). row_ok env (w_calls w) r) \<and>
     (\<forall>i plan. SubmitSplit i plan \<in> set (w_calls w) \<longrightarrow>
        (\<exists>r\<in>set (split_operations (w_db w)). sp_operation_id r = i) \<and>
        (\<forall>plan'. SubmitSplit i plan' \<in> set (w_calls w) \<longrightarrow> plan' = plan)) \<and>
     (\<forall>c pre. asked_before (w_calls w) c pre \<longrightarrow> pay_backed env pre c)"

text \<open>The row an operation in memory was read from still has its fields.\<close>

definition current_row :: "split_operation \<Rightarrow> split_row \<Rightarrow> bool" where
  "current_row op r \<longleftrightarrow> sp_operation_id r = sp_operation_id op \<and> sp_parent_node_id r = sp_parent_node_id op \<and>
     sp_parent_value_sats r = sp_parent_value_sats op \<and> sp_child_values_sats r = sp_child_values_sats op \<and>
     sp_plan r = sp_plan op \<and> sp_status r = sp_status op"

definition split_stored :: "wallet_world \<Rightarrow> split_operation \<Rightarrow> bool" where
  "split_stored w op \<longleftrightarrow> (\<exists>r\<in>set (split_operations (w_db w)). current_row op r)"

fun moves :: "wallet_call \<Rightarrow> bool" where
  "moves (SubmitSplit _ _) = True"
| "moves (SendTransfer _ _ _) = True"
| "moves (CounterTransfer _ _ _ _ _) = True"
| "moves (InitiateSwap _) = True"
| "moves _ = False"

definition may_call :: "wallet_env \<Rightarrow> wallet_world \<Rightarrow> wallet_call \<Rightarrow> bool" where
  "may_call env w c \<longleftrightarrow> pay_backed env (w_calls w) c \<and>
     (\<forall>i plan. c = SubmitSplit i plan \<longrightarrow> (\<exists>r\<in>set (split_operations (w_db w)).
        sp_operation_id r = i \<and> sp_status r = SSubmitting \<and> p_plan env (sp_plan r) = Inr plan))"

section \<open>The invariant and the interface\<close>

lemma fixed_part_eq: "fixed_part a = fixed_part b \<Longrightarrow> sp_operation_id a = sp_operation_id b \<and>
    sp_parent_node_id a = sp_parent_node_id b \<and> sp_parent_value_sats a = sp_parent_value_sats b \<and>
    sp_child_values_sats a = sp_child_values_sats b \<and> sp_plan a = sp_plan b \<and> sp_status a = sp_status b"
  by (cases a; cases b) (simp add: fixed_part_def)

lemma same_splits_rows:
  assumes "same_splits d d'"
  shows "r' \<in> set (split_operations d') \<Longrightarrow> \<exists>r\<in>set (split_operations d). fixed_part r = fixed_part r'"
    and "r \<in> set (split_operations d) \<Longrightarrow> \<exists>r'\<in>set (split_operations d'). fixed_part r' = fixed_part r"
  using assms unfolding same_splits_def by (metis (no_types, lifting) image_iff list.set_map)+

lemma fixed_part_simps [simp]: "sp_operation_id (fixed_part r) = sp_operation_id r"
    "sp_parent_node_id (fixed_part r) = sp_parent_node_id r"
  by (simp_all add: fixed_part_def)

lemma clash_fixed_part: "split_clash (fixed_part a) (fixed_part b) = split_clash a b"
  by (simp add: split_clash_def)

lemma same_splits_unique:
  assumes "same_splits d d'" "no_clash split_clash (split_operations d)"
  shows "no_clash split_clash (split_operations d')"
proof -
  have "no_clash split_clash rs \<longleftrightarrow> no_clash split_clash (map fixed_part rs)" for rs
    by (simp add: no_clash_def sorted_wrt_map clash_fixed_part)
  then show ?thesis using assms unfolding same_splits_def by metis
qed

interpretation same_splits: step_relation same_splits
  by unfold_locales (auto simp: same_splits_def)

lemma row_ok_fixed: "fixed_part r = fixed_part r' \<Longrightarrow> row_ok env log r \<Longrightarrow> row_ok env log r'"
  by (drule fixed_part_eq) (simp add: row_ok_def)

lemma wallet_okD:
  assumes "wallet_ok env w"
  shows "no_clash split_clash (split_operations (w_db w))"
    "r \<in> set (split_operations (w_db w)) \<Longrightarrow> row_ok env (w_calls w) r"
    "SubmitSplit i plan \<in> set (w_calls w) \<Longrightarrow> \<exists>r\<in>set (split_operations (w_db w)). sp_operation_id r = i"
    "SubmitSplit i plan \<in> set (w_calls w) \<Longrightarrow> SubmitSplit i plan' \<in> set (w_calls w) \<Longrightarrow> plan' = plan"
    "asked_before (w_calls w) c pre \<Longrightarrow> pay_backed env pre c"
  using assms unfolding wallet_ok_def by (blast+)

lemma wallet_okI:
  assumes "no_clash split_clash (split_operations (w_db w))"
    "\<And>r. r \<in> set (split_operations (w_db w)) \<Longrightarrow> row_ok env (w_calls w) r"
    "\<And>i plan. SubmitSplit i plan \<in> set (w_calls w) \<Longrightarrow> \<exists>r\<in>set (split_operations (w_db w)). sp_operation_id r = i"
    "\<And>i plan plan'. SubmitSplit i plan \<in> set (w_calls w) \<Longrightarrow> SubmitSplit i plan' \<in> set (w_calls w) \<Longrightarrow> plan' = plan"
    "\<And>c pre. asked_before (w_calls w) c pre \<Longrightarrow> pay_backed env pre c"
  shows "wallet_ok env w"
  using assms unfolding wallet_ok_def by blast

lemma wallet_ok_same:
  assumes ok: "wallet_ok env w" and same: "same_splits (w_db w) d"
  shows "wallet_ok env (w\<lparr>w_db := d\<rparr>)"
proof -
  have "row_ok env (w_calls w) r'" if "r' \<in> set (split_operations d)" for r'
    using same_splits_rows(1) [OF same that] wallet_okD(2) [OF ok] row_ok_fixed by blast
  moreover have "\<exists>r'\<in>set (split_operations d). sp_operation_id r' = sp_operation_id r"
    if "r \<in> set (split_operations (w_db w))" for r
    using same_splits_rows(2) [OF same that] by (auto dest: fixed_part_eq)
  ultimately show ?thesis
    using wallet_okD [OF ok] same_splits_unique [OF same] by (intro wallet_okI) (simp_all, metis+)
qed

lemma same_operation:
  assumes "wallet_ok env w" "r \<in> set (split_operations (w_db w))" "r' \<in> set (split_operations (w_db w))" "split_clash r r'"
  shows "r' = r"
  using assms(2-) no_clash_unique [OF wallet_okD(1) [OF assms(1)], of r' r] by (auto simp: split_clash_def)

lemma wallet_ok_call:
  assumes ok: "wallet_ok env w" and may: "may_call env w c"
  shows "wallet_ok env (w\<lparr>w_calls := w_calls w @ [c]\<rparr>)"
proof -
  let ?rows = "split_operations (w_db w)" and ?log = "w_calls w"
  have submitted: "row_ok env (?log @ [c]) r \<and> (\<forall>plan. c = SubmitSplit (sp_operation_id r) plan \<longrightarrow>
      (\<forall>plan'. SubmitSplit (sp_operation_id r) plan' \<in> set ?log \<longrightarrow> plan' = plan))" if r: "r \<in> set ?rows" for r
  proof (cases "\<exists>plan. c = SubmitSplit (sp_operation_id r) plan")
    case True
    then obtain plan r' where c: "c = SubmitSplit (sp_operation_id r) plan" and r': "r' \<in> set ?rows"
        "sp_operation_id r' = sp_operation_id r" "sp_status r' = SSubmitting" "p_plan env (sp_plan r') = Inr plan"
      using may by (auto simp: may_call_def)
    have "r' = r" by (rule same_operation [OF ok r r'(1)]) (simp add: split_clash_def r'(2))
    then show ?thesis using r'(3,4) c wallet_okD(2) [OF ok r] by (auto simp: row_ok_def)
  next
    case False
    then show ?thesis using wallet_okD(2) [OF ok r] by (auto simp: row_ok_def)
  qed
  have row: "\<exists>r\<in>set ?rows. sp_operation_id r = i" if "SubmitSplit i plan \<in> set (?log @ [c])" for i plan
    using that wallet_okD(3) [OF ok] may by (auto simp: may_call_def)
  show ?thesis
  proof (rule wallet_okI, simp_all)
    show "plan' = plan" if "SubmitSplit i plan = c \<or> SubmitSplit i plan \<in> set ?log"
        "SubmitSplit i plan' = c \<or> SubmitSplit i plan' \<in> set ?log" for i plan plan'
    proof -
      obtain r where "r \<in> set ?rows" "i = sp_operation_id r" using row [of i plan] \<open>SubmitSplit i plan = c \<or> _\<close> by auto
      then show ?thesis using that submitted [of r] wallet_okD(4) [OF ok] by (elim disjE) auto
    qed
    show "pay_backed env pre c'" if "asked_before (?log @ [c]) c' pre" for c' pre
      using that may wallet_okD(5) [OF ok] by (auto simp: may_call_def elim: asked_snocE)
  qed (use wallet_okD(1) [OF ok] submitted row in auto)
qed

interpretation wallet: held_records "wallet_ok env" split_stored same_splits "\<lambda>c. \<not> moves c" "may_call env" for env
proof (unfold_locales, goal_cases)
  case (3 c w)
  then show ?case by (cases c) (auto simp: may_call_def)
next
  case (6 w w' r)
  then obtain x where x: "x \<in> set (split_operations (w_db w))" "current_row r x" by (auto simp: split_stored_def)
  then obtain x' where "x' \<in> set (split_operations (w_db w'))" "fixed_part x' = fixed_part x"
    using same_splits_rows(2) [OF 6(1)] by blast
  then show ?case using x(2) by (auto simp: split_stored_def current_row_def dest!: fixed_part_eq)
qed (auto simp: same_splits_def wallet_ok_same wallet_ok_call)

abbreviation wquiet :: "wallet_world \<Rightarrow> wallet_world \<Rightarrow> bool" where
  "wquiet \<equiv> held_records.quiet same_splits (\<lambda>c. \<not> moves c)"

abbreviation wheld :: "wallet_env \<Rightarrow> split_operation list \<Rightarrow> wallet_world \<Rightarrow> bool" where
  "wheld env \<equiv> held_records.held (wallet_ok env) split_stored"

section \<open>Statements that leave the splits alone\<close>

lemma same_split_update: "(\<And>r. p r \<Longrightarrow> fixed_part (f r) = fixed_part r) \<Longrightarrow> obeys same_splits (update_where split_operations_t p f)"
  by (auto simp: obeys_def same_splits_def update_where_def update_rows_def)

lemma same_other_tables:
  "obeys same_splits (insert_or_ignore pending_keys_t c k)" "obeys same_splits (upsert leaf_keys_t q q' g l)"
  "obeys same_splits (delete_where leaf_keys_t p)" "obeys same_splits (delete_where pending_keys_t p')"
  "obeys same_splits (update_where requests_t p'' h)"
  by (auto simp: obeys_def same_splits_def statement_defs action_defs)

lemma same_key_op: "obeys same_splits (perform_key_op op)"
proof (cases op)
  case (PutSplitKeys i parent secrets)
  show ?thesis unfolding PutSplitKeys perform_key_op.simps put_pending_spark_split_keys_def
    by (intro same_splits.obeys_intros same_other_tables)
next
  case (BindSplitKeys i nodes)
  show ?thesis unfolding BindSplitKeys perform_key_op.simps bind_pending_spark_split_keys_def put_leaf_key_def
    by (intro same_splits.obeys_intros same_splits.obeys_for_each same_splits.obeys_case_prod same_other_tables same_split_update)
      (simp add: fixed_part_def)
next
  case (RetireLeafKeys nodes)
  show ?thesis unfolding RetireLeafKeys perform_key_op.simps retire_spark_leaf_keys_def
    by (intro same_splits.obeys_intros same_splits.obeys_for_each same_other_tables)
qed

lemma quiet_reading: "obeys wquiet (reading f)"
  by (simp add: obeys_def reading_def ret_def wallet.quiet_refl)

lemma quiet_key_ops: "obeys wquiet (for_each ops (\<lambda>op. ignore (on_db (perform_key_op op))))"
  by (intro wallet.quiet.obeys_for_each wallet.quiet.obeys_ignore wallet.quiet_on_db same_key_op)

lemma quiet_ask_split: "\<not> moves c \<Longrightarrow> obeys wquiet (ask_split c answer)"
  unfolding ask_split_def
  by (intro wallet.quiet.obeys_bind wallet.quiet.obeys_case_prod wallet.quiet.obeys_then quiet_key_ops wallet.quiet.obeys_lift wallet.quiet_ask)

lemma quiet_calls:
  "obeys wquiet (sync_wallet env)" "obeys wquiet (find_transfer env i)" "obeys wquiet (query_htlc env role i hash)"
  "obeys wquiet (store_topup b)" "obeys wquiet (ask ListLeaves (a_leaves env))" "obeys wquiet (ask (Sleep n) g)"
  "obeys wquiet (ask (ProcessTransfer t) g')" "obeys wquiet (ask (ClaimHtlc preimage) h)"
  "obeys wquiet (ask (PrepareTransfer i leaves owner expiry) h')"
  unfolding sync_wallet_def find_transfer_def query_htlc_def store_topup_def by (rule wallet.quiet_ask; simp)+

lemma quiet_liquidity_error: "obeys wquiet (liquidity_error e :: (wallet_world, 'a) action)"
  unfolding liquidity_error_def by (intro wallet.quiet.obeys_if wallet.quiet.obeys_then quiet_calls wallet.quiet.obeys_throw)

lemma quiet_available: "obeys wquiet (available_leaves env)"
  unfolding available_leaves_def
  by (intro wallet.quiet.obeys_bind wallet.quiet.obeys_case_prod wallet.quiet.obeys_lift wallet.quiet.obeys_ret quiet_calls)

end
