(* ===== verification/Wallet_Splits.thy ===== *)
theory Wallet_Splits
  imports Wallet_Safety
begin

text \<open>
  The split driver keeps the invariant, one status at a time, and its loop ends: each round that
  goes on leaves a later status stored.
\<close>

section \<open>Updates of one operation\<close>

definition apart_from :: "split_operation \<Rightarrow> split_operation list \<Rightarrow> bool" where
  "apart_from op rest \<longleftrightarrow> sp_parent_node_id op \<notin> sp_parent_node_id ` set rest"

text \<open>A parent's row with a given status.\<close>

definition at_status :: "string \<Rightarrow> split_status \<Rightarrow> wallet_world \<Rightarrow> bool" where
  "at_status parent st w \<longleftrightarrow> (\<exists>r\<in>set (split_operations (w_db w)). sp_parent_node_id r = parent \<and> sp_status r = st)"

lemma held_row:
  assumes "wheld env (op # rest) w"
  shows "\<exists>r. wallet_ok env w \<and> r \<in> set (split_operations (w_db w)) \<and> current_row op r \<and>
    (\<forall>r'\<in>set (split_operations (w_db w)). sp_operation_id r' = sp_operation_id op \<longrightarrow> r' = r)"
proof -
  obtain r where r: "wallet_ok env w" "r \<in> set (split_operations (w_db w))" "current_row op r"
    using assms by (auto simp: wallet.held_def split_stored_def)
  moreover have "r' = r" if "r' \<in> set (split_operations (w_db w))" "sp_operation_id r' = sp_operation_id op" for r'
    by (rule same_operation [OF r(1,2) that(1)]) (use r(3) that(2) in \<open>simp add: split_clash_def current_row_def\<close>)
  ultimately show ?thesis by blast
qed

text \<open>What an update of the operation in hand needs to be safe for the log and for the other operations.\<close>

definition safe_update :: "wallet_env \<Rightarrow> split_operation \<Rightarrow> (split_row \<Rightarrow> bool) \<Rightarrow> (split_row \<Rightarrow> split_row) \<Rightarrow> bool" where
  "safe_update env op p f \<longleftrightarrow> (\<forall>r. p r \<longrightarrow> sp_operation_id r = sp_operation_id op) \<and>
     (\<forall>r. sp_operation_id (f r) = sp_operation_id r \<and> sp_parent_node_id (f r) = sp_parent_node_id r) \<and>
     (\<forall>r log. p r \<longrightarrow> row_ok env log r \<longrightarrow> row_ok env log (f r))"

lemma update_held:
  assumes safe: "safe_update env op p f" and held: "wheld env (op # rest) w" and apart: "apart_from op rest"
  shows "wheld env rest (w\<lparr>w_db := modify split_operations_t (update_rows p f) (w_db w)\<rparr>)" (is "wheld env rest ?w")
proof -
  obtain r where r: "wallet_ok env w" "r \<in> set (split_operations (w_db w))" "current_row op r"
      "\<And>r'. r' \<in> set (split_operations (w_db w)) \<Longrightarrow> sp_operation_id r' = sp_operation_id op \<Longrightarrow> r' = r"
    using held_row [OF held] by blast
  let ?g = "\<lambda>x. if p x then f x else x"
  have keys: "sp_operation_id (?g x) = sp_operation_id x" "sp_parent_node_id (?g x) = sp_parent_node_id x" for x
    using safe by (simp_all add: safe_update_def)
  have rows: "split_operations (w_db ?w) = update_rows p f (split_operations (w_db w))" by simp
  have "wallet_ok env ?w"
  proof (rule wallet_okI, unfold rows)
    show "no_clash split_clash (update_rows p f (split_operations (w_db w)))"
      using wallet_okD(1) [OF r(1)] keys by (intro no_clash_update_rows) (auto simp: split_clash_def)
    show "row_ok env (w_calls ?w) x" if "x \<in> set (update_rows p f (split_operations (w_db w)))" for x
      using that wallet_okD(2) [OF r(1)] safe by (auto simp: set_update_rows safe_update_def)
    show "\<exists>x\<in>set (update_rows p f (split_operations (w_db w))). sp_operation_id x = i"
      if "SubmitSplit i plan \<in> set (w_calls ?w)" for i plan
      using wallet_okD(3) [OF r(1), of i plan] that keys(1) by (fastforce simp: set_update_rows)
  qed (use wallet_okD(4,5) [OF r(1)] in auto)
  moreover have "split_stored ?w q" if q: "q \<in> set rest" for q
  proof -
    obtain x where x: "x \<in> set (split_operations (w_db w))" "current_row q x"
      using held q by (auto simp: wallet.held_def split_stored_def)
    have "\<not> p x"
    proof
      assume "p x"
      then have "x = r" using safe x(1) r(4) by (auto simp: safe_update_def)
      then have "sp_parent_node_id op = sp_parent_node_id q" using x(2) r(3) by (simp add: current_row_def)
      then show False using apart q by (auto simp: apart_from_def)
    qed
    then have "x \<in> set (split_operations (w_db ?w))" using x(1) unfolding rows by (auto simp: set_update_rows)
    then show ?thesis using x(2) unfolding split_stored_def by blast
  qed
  ultimately show ?thesis by (simp add: wallet.held_def)
qed

lemma update_split_run:
  "on_db (update_split p f) w = (res, w') \<Longrightarrow> w' = w\<lparr>w_db := modify split_operations_t (update_rows p f) (w_db w)\<rparr> \<and>
     (res = Inr u \<longrightarrow> (\<exists>r\<in>set (split_operations (w_db w)). p r))"
  by (auto simp: on_db_def update_split_def update_where_def action_defs split: if_splits dest!: filter_length_one)

lemma triple_update_split:
  assumes "safe_update env op p f" "apart_from op rest" "\<And>r. p r \<Longrightarrow> sp_status (f r) = st"
  shows "triple (wheld env (op # rest)) (on_db (update_split p f))
     (\<lambda>_ w. wheld env rest w \<and> at_status (sp_parent_node_id op) st w) (wheld env rest)"
proof (rule tripleI)
  fix w x w'
  assume held: "wheld env (op # rest) w" and m: "on_db (update_split p f) w = (Inr x, w')"
  obtain r where r: "r \<in> set (split_operations (w_db w))" "p r" and w': "w' = w\<lparr>w_db := modify split_operations_t (update_rows p f) (w_db w)\<rparr>"
    using update_split_run [OF m] by auto
  obtain r0 where r0: "wallet_ok env w" "r0 \<in> set (split_operations (w_db w))" "current_row op r0"
      "\<And>r'. r' \<in> set (split_operations (w_db w)) \<Longrightarrow> sp_operation_id r' = sp_operation_id op \<Longrightarrow> r' = r0"
    using held_row [OF held] by blast
  have "r = r0" using r r0(4) assms(1) by (simp add: safe_update_def)
  then have "f r0 \<in> set (split_operations (w_db w'))" "sp_parent_node_id (f r0) = sp_parent_node_id op" "sp_status (f r0) = st"
    using r w' assms(1,3) r0(3) by (simp_all add: updated_row safe_update_def current_row_def)
  then show "wheld env rest w' \<and> at_status (sp_parent_node_id op) st w'"
    using update_held [OF assms(1) held assms(2)] w' unfolding at_status_def by blast
next
  fix w e w'
  assume "wheld env (op # rest) w" "on_db (update_split p f) w = (Inl e, w')"
  then show "wheld env rest w'" using update_split_run update_held [OF assms(1) _ assms(2)] by blast
qed

lemma submitting_run:
  "on_db (mark_spark_split_submitting i) w = (res, w') \<Longrightarrow> w' = w\<lparr>w_db := modify split_operations_t (update_rows
     (\<lambda>s. sp_operation_id s = i \<and> sp_status s = SPrepared) (\<lambda>s. s\<lparr>sp_status := SSubmitting, sp_last_error := None\<rparr>)) (w_db w)\<rparr>"
  unfolding on_db_def mark_spark_split_submitting_def update_where_def bind_action_def query_row_def ret_def throw_def
  by (simp split: if_splits sum.splits)

lemma triple_submitting:
  assumes "p_plan env (sp_plan op) = Inr plan" "sp_status op = SPrepared \<or> sp_status op = SSubmitting" "apart_from op rest"
  shows "triple (wheld env (op # rest)) (on_db (mark_spark_split_submitting (sp_operation_id op)))
     (\<lambda>_ w. wheld env (op\<lparr>sp_status := SSubmitting\<rparr> # rest) w \<and> may_call env w (SubmitSplit (sp_operation_id op) plan)) (wheld env rest)"
proof -
  let ?p = "\<lambda>s :: split_row. sp_operation_id s = sp_operation_id op \<and> sp_status s = SPrepared"
  let ?f = "\<lambda>s :: split_row. s\<lparr>sp_status := SSubmitting, sp_last_error := None\<rparr>"
  have safe: "safe_update env op ?p ?f" by (auto simp: safe_update_def row_ok_def split_order)
  have step: "wheld env (op\<lparr>sp_status := SSubmitting\<rparr> # rest) w' \<and> may_call env w' (SubmitSplit (sp_operation_id op) plan)"
    if held: "wheld env (op # rest) w" and m: "on_db (mark_spark_split_submitting (sp_operation_id op)) w = (res, w')" for w res w'
  proof -
    have w': "w' = w\<lparr>w_db := modify split_operations_t (update_rows ?p ?f) (w_db w)\<rparr>"
      using m by (rule submitting_run)
    obtain r where r: "r \<in> set (split_operations (w_db w))" "current_row op r" using held_row [OF held] by blast
    have "(if ?p r then ?f r else r) \<in> set (split_operations (w_db w'))" using r(1) unfolding w' by (simp add: set_update_rows)
    moreover have "current_row (op\<lparr>sp_status := SSubmitting\<rparr>) (if ?p r then ?f r else r)"
      using r(2) assms(2) by (auto simp: current_row_def)
    ultimately have stored: "split_stored w' (op\<lparr>sp_status := SSubmitting\<rparr>)" unfolding split_stored_def by blast
    have "wheld env rest w'" unfolding w' by (rule update_held [OF safe held assms(3)])
    then have "wheld env (op\<lparr>sp_status := SSubmitting\<rparr> # rest) w'" using stored by (simp add: wallet.held_def)
    moreover obtain x where x: "x \<in> set (split_operations (w_db w'))" "current_row (op\<lparr>sp_status := SSubmitting\<rparr>) x"
      using stored by (auto simp: split_stored_def)
    have "sp_operation_id x = sp_operation_id op" "sp_status x = SSubmitting" "p_plan env (sp_plan x) = Inr plan"
      using x(2) assms(1) by (simp_all add: current_row_def)
    then have "may_call env w' (SubmitSplit (sp_operation_id op) plan)" using x(1) unfolding may_call_def by auto
    ultimately show ?thesis by simp
  qed
  show ?thesis
    by (rule tripleI) (use step wallet.held_fewer in \<open>blast+\<close>)
qed

lemma triple_reread:
  "triple (\<lambda>w. wheld env rest w \<and> at_status (sp_parent_node_id op) st w) (reread_split op)
     (\<lambda>found w. \<exists>nx. found = Some nx \<and> sp_parent_node_id nx = sp_parent_node_id op \<and> sp_status nx = st \<and> wheld env (nx # rest) w) (wheld env rest)"
proof (rule tripleI)
  fix w x w'
  let ?parent = "sp_parent_node_id op"
  assume held: "wheld env rest w \<and> at_status ?parent st w" and m: "reread_split op w = (Inr x, w')"
  obtain r where r: "first_row (\<lambda>s. sp_parent_node_id s = ?parent) (split_operations (w_db w)) = Some r"
      "x = Some (split_operation.truncate r)" "w' = w"
    using m by (auto simp: reread_split_def spark_split_for_parent_def optional_spark_split_def query_optional_def on_db_def action_defs
        split: option.splits sum.splits prod.splits)
  obtain r0 where r0: "r0 \<in> set (split_operations (w_db w))" "sp_parent_node_id r0 = ?parent" "sp_status r0 = st"
    using held by (auto simp: at_status_def)
  have rin: "r \<in> set (split_operations (w_db w))" "sp_parent_node_id r = ?parent" using first_row_SomeD [OF r(1)] by simp_all
  have "wallet_ok env w" using held by (simp add: wallet.held_def)
  then have "r = r0" by (rule same_operation [OF _ r0(1) rin(1)]) (simp add: split_clash_def rin(2) r0(2))
  moreover have "current_row (split_operation.truncate r) r" by (simp add: current_row_def split_operation.defs)
  ultimately show "\<exists>nx. x = Some nx \<and> sp_parent_node_id nx = ?parent \<and> sp_status nx = st \<and> wheld env (nx # rest) w'"
    using r rin r0 held by (auto simp: wallet.held_def split_stored_def split_operation.defs)
next
  fix w e w'
  assume "wheld env rest w \<and> at_status (sp_parent_node_id op) st w" "reread_split op w = (Inl e, w')"
  then show "wheld env rest w'"
    by (auto simp: reread_split_def spark_split_for_parent_def optional_spark_split_def query_optional_def on_db_def action_defs
        split: option.splits sum.splits prod.splits)
qed

section \<open>The status loop\<close>

lemma triple_lifted:
  "(\<And>x. r = Inr x \<Longrightarrow> triple P (k x) Q E) \<Longrightarrow> (\<And>s. P s \<Longrightarrow> E s) \<Longrightarrow> triple P (bind_action (lift_result r) k) Q E"
  by (cases r) (simp_all add: triple_throw)

lemma triple_checked:
  "(\<And>x. r = Inr x \<Longrightarrow> triple P k Q E) \<Longrightarrow> (\<And>s. P s \<Longrightarrow> E s) \<Longrightarrow> triple P (then_action (lift_result r) k) Q E"
  unfolding then_action_def by (rule triple_lifted)

lemma triple_quiet_op: "obeys wquiet m \<Longrightarrow> triple (wheld env (op # rest)) m (\<lambda>_. wheld env (op # rest)) (wheld env rest)"
  by (rule triple_weaken [OF wallet.keeps_quiet [where rs = "op # rest"]]) (auto intro: wallet.held_fewer)

lemma triple_key_ops:
  "triple (wheld env rs) (then_action (for_each ops (\<lambda>op. ignore (on_db (perform_key_op op)))) (lift_result r)) (\<lambda>_. wheld env rs) (wheld env rs)"
  by (intro triple_then [OF wallet.keeps_quiet [OF quiet_key_ops]] triple_lift)

lemma triple_submission:
  "triple (\<lambda>w. wheld env (op # rest) w \<and> may_call env w c) (ask_split c answer) (\<lambda>_. wheld env (op # rest)) (wheld env rest)"
  unfolding ask_split_def
proof (rule triple_bind [where R = "\<lambda>_. wheld env (op # rest)"])
  show "triple (\<lambda>w. wheld env (op # rest) w \<and> may_call env w c) (ask c (Inr \<circ> answer)) (\<lambda>_. wheld env (op # rest)) (wheld env rest)"
    by (rule triple_ask) (auto intro: wallet.held_call wallet.held_fewer)
  show "triple (wheld env (op # rest)) (case x of (ops, r) \<Rightarrow>
      then_action (for_each ops (\<lambda>op. ignore (on_db (perform_key_op op)))) (lift_result r)) (\<lambda>_. wheld env (op # rest)) (wheld env rest)" for x
    by (cases x) (auto intro: triple_weaken [OF triple_key_ops] wallet.held_fewer)
qed

definition advanced :: "wallet_env \<Rightarrow> split_operation \<Rightarrow> split_operation list \<Rightarrow> split_operation option \<Rightarrow> wallet_world \<Rightarrow> bool" where
  "advanced env op rest found w \<longleftrightarrow> (case found of
     None \<Rightarrow> wheld env rest w
   | Some nx \<Rightarrow> sp_parent_node_id nx = sp_parent_node_id op \<and> sp_status op < sp_status nx \<and> wheld env (nx # rest) w)"

lemma triple_saved:
  assumes "safe_update env (op\<lparr>sp_status := any\<rparr>) p f" "apart_from op rest" "\<And>r. p r \<Longrightarrow> sp_status (f r) = st" "sp_status op < st"
  shows "triple (wheld env (op\<lparr>sp_status := any\<rparr> # rest)) (then_action (on_db (update_split p f)) (reread_split op))
    (advanced env op rest) (wheld env rest)"
proof -
  have "apart_from (op\<lparr>sp_status := any\<rparr>) rest" using assms(2) by (simp add: apart_from_def)
  from triple_update_split [OF assms(1) this assms(3)]
  show ?thesis
    by (intro triple_then triple_weaken [OF triple_reread]) (use assms(4) in \<open>auto simp: advanced_def\<close>)
qed

lemmas saved_now = triple_saved [where any = "sp_status op" and op = op for op, simplified]

lemma prepare_ok:
  assumes "apart_from op rest" "sp_status op = SDraft"
  shows "triple (wheld env (op # rest)) (prepare_leaf_split env parent op) (advanced env op rest) (wheld env rest)"
proof (cases parent)
  case None
  then show ?thesis by (auto simp: prepare_leaf_split_def intro!: triple_throw intro: wallet.held_fewer)
next
  case (Some leaf)
  have "safe_update env op (\<lambda>s. sp_operation_id s = sp_operation_id op \<and> sp_status s \<in> {SDraft, SPrepared})
      (\<lambda>s. s\<lparr>sp_plan := encoded, sp_status := SPrepared, sp_last_error := None\<rparr>)" for encoded
    by (auto simp: safe_update_def row_ok_def split_order)
  from saved_now [OF this assms(1), where st = SPrepared]
  have save: "triple (wheld env (op # rest)) (then_action (on_db (save_prepared_spark_split (sp_operation_id op) encoded)) (reread_split op))
      (advanced env op rest) (wheld env rest)" for encoded
    using assms(2) unfolding save_prepared_spark_split_def by (auto simp: split_order)
  show ?thesis
    unfolding prepare_leaf_split_def Some option.case
    by (rule triple_lifted, rule triple_bind [OF triple_quiet_op [OF quiet_ask_split]], simp, rule triple_lifted, rule save)
      (auto intro: wallet.held_fewer)
qed

lemma submit_ok:
  assumes "apart_from op rest" "sp_status op = SPrepared \<or> sp_status op = SSubmitting"
  shows "triple (wheld env (op # rest)) (submit_leaf_split env op) (advanced env op rest) (wheld env rest)"
proof -
  have "safe_update env (op\<lparr>sp_status := SSubmitting\<rparr>)
      (\<lambda>s. sp_operation_id s = sp_operation_id op \<and> sp_status s \<in> {SSubmitting, SSubmitted})
      (\<lambda>s. s\<lparr>sp_plan := encoded, sp_status := SSubmitted, sp_last_error := None\<rparr>)" for encoded
    by (auto simp: safe_update_def row_ok_def split_order)
  from triple_saved [OF this assms(1), where st = SSubmitted]
  have save: "triple (wheld env (op\<lparr>sp_status := SSubmitting\<rparr> # rest))
      (then_action (on_db (save_submitted_spark_split (sp_operation_id op) encoded)) (reread_split op))
      (advanced env op rest) (wheld env rest)" for encoded
    using assms(2) unfolding save_submitted_spark_split_def by (auto simp: split_order)
  show ?thesis
    unfolding submit_leaf_split_def
    by (rule triple_lifted [OF triple_then [OF triple_submitting [OF _ assms(2,1)]]], assumption,
        rule triple_bind [OF triple_submission], rule triple_lifted, rule save) (auto intro: wallet.held_fewer)
qed

lemma finish_ok:
  assumes "apart_from op rest" "sp_status op = SSubmitted"
  shows "triple (wheld env (op # rest)) (finish_leaf_split env op) (advanced env op rest) (wheld env rest)"
proof -
  have "safe_update env op (\<lambda>s. sp_operation_id s = sp_operation_id op \<and> sp_status s \<in> {SSubmitted, SCompleted} \<and> sp_child_node_ids s \<noteq> [])
      (\<lambda>s. s\<lparr>sp_status := SCompleted, sp_last_error := None\<rparr>)"
    by (auto simp: safe_update_def row_ok_def split_order)
  from saved_now [OF this assms(1), where st = SCompleted]
  have save: "triple (wheld env (op # rest)) (then_action (on_db (mark_spark_split_completed (sp_operation_id op))) (reread_split op))
      (advanced env op rest) (wheld env rest)"
    using assms(2) unfolding mark_spark_split_completed_def by (auto simp: split_order)
  show ?thesis
    unfolding finish_leaf_split_def
    by (rule triple_lifted, rule triple_bind [OF triple_quiet_op [OF quiet_ask_split]], simp, rule triple_if, rule triple_throw,
        erule wallet.held_fewer, rule save) (auto intro: wallet.held_fewer)
qed

lemma split_round_ok:
  assumes "apart_from op rest"
  shows "triple (wheld env (op # rest)) (split_round env parent op) (advanced env op rest) (wheld env rest)"
  unfolding split_round_def using prepare_ok [OF assms] submit_ok [OF assms] finish_ok [OF assms]
  by (cases "sp_status op") (auto intro!: triple_ret intro: wallet.held_fewer simp: advanced_def [of _ _ _ None])

lemma apart_same_parent: "apart_from op rest \<Longrightarrow> sp_parent_node_id nx = sp_parent_node_id op \<Longrightarrow> apart_from nx rest"
  by (simp add: apart_from_def)

lemma split_rounds_ok:
  "apart_from op rest \<Longrightarrow> triple (wheld env (op # rest)) (split_rounds n env parent op) (\<lambda>_. wheld env rest) (wheld env rest)"
proof (induction n arbitrary: op)
  case 0
  then show ?case by (auto intro!: triple_throw intro: wallet.held_fewer)
next
  case (Suc n)
  have "triple (advanced env op rest found) (case found of None \<Rightarrow> ret () | Some nx \<Rightarrow> split_rounds n env parent nx)
      (\<lambda>_. wheld env rest) (wheld env rest)" for found
  proof (cases found)
    case None
    then show ?thesis by (auto simp: advanced_def intro: triple_ret)
  next
    case (Some nx)
    show ?thesis
    proof (cases "sp_parent_node_id nx = sp_parent_node_id op")
      case True
      then show ?thesis
        using Suc.IH [OF apart_same_parent [OF Suc.prems True]] unfolding Some
        by (auto simp: advanced_def intro: triple_pre)
    qed (simp add: Some advanced_def triple_def)
  qed
  then show ?case by (simp add: triple_bind [OF split_round_ok [OF Suc.prems]])
qed

lemma same_record_error: "obeys same_splits (record_spark_split_error i msg)"
  unfolding record_spark_split_error_def
  by (intro same_splits.obeys_void same_split_update) (simp add: fixed_part_def)

lemma resume_ok:
  assumes "apart_from op rest"
  shows "triple (wheld env (op # rest)) (resume_leaf_split env op parent) (\<lambda>_. wheld env rest) (wheld env rest)"
  unfolding resume_leaf_split_def
  by (intro triple_if triple_handle [OF split_rounds_ok [OF assms]] triple_ret triple_throw
      triple_then [OF wallet.keeps_quiet [OF wallet.quiet.obeys_ignore [OF wallet.quiet_on_db [OF same_record_error]]]])
    (auto intro: wallet.held_fewer)

text \<open>The unbounded loop does what its first rounds do, if they reach past the last status.\<close>

lemma split_loop_rounds:
  assumes "wheld env [op] w" "4 - split_rank (sp_status op) < n"
  shows "split_loop env parent op w = Some (split_rounds n env parent op w)"
  using assms
proof (induction n arbitrary: op w)
  case (Suc n)
  obtain res w' where step: "split_round env parent op w = (res, w')" by (cases "split_round env parent op w")
  show ?case
  proof (cases res)
    case (Inl e)
    then show ?thesis using step by (subst split_loop.simps) (simp add: action_defs)
  next
    case (Inr found)
    have adv: "advanced env op [] found w'"
      using tripleD [OF split_round_ok Suc.prems(1)] step Inr by (simp add: apart_from_def)
    show ?thesis
    proof (cases found)
      case None
      then show ?thesis using step Inr by (subst split_loop.simps) (simp add: action_defs)
    next
      case (Some nx)
      then have "wheld env [nx] w'" "split_rank (sp_status op) < split_rank (sp_status nx)"
        using adv by (simp_all add: advanced_def split_order)
      then have "split_loop env parent nx w' = Some (split_rounds n env parent nx w')"
        using Suc.prems(2) split_rank_le [of "sp_status nx"] by (intro Suc.IH) linarith+
      then show ?thesis using step Inr Some by (subst split_loop.simps) (simp add: action_defs)
    qed
  qed
qed simp

section \<open>Starting, recovering and the liquidity loops\<close>

lemma quiet_topup: "keeps (wheld env rs) (liquidity_error e :: (wallet_world, 'a) action)"
  by (rule wallet.keeps_quiet [OF quiet_liquidity_error])

lemma same_split_reads: "obeys same_splits (spark_split_for_parent parent)" "obeys same_splits incomplete_spark_splits"
  unfolding spark_split_for_parent_def optional_spark_split_def incomplete_spark_splits_def
  by (intro same_splits.obeys_intros)+

text \<open>A new draft: no submission carries its id, since every submitted operation has its row.\<close>

lemma insert_split_ok:
  assumes ok: "wallet_ok env w" and fresh: "\<not> list_ex (split_clash r) (split_operations (w_db w))"
  shows "wallet_ok env (w\<lparr>w_db := modify split_operations_t (\<lambda>rs. rs @ [r]) (w_db w)\<rparr>)"
proof (rule wallet_okI, simp_all)
  show "no_clash split_clash (split_operations (w_db w) @ [r])"
    using wallet_okD(1) [OF ok] fresh by (subst no_clash_snoc) (auto simp: split_clash_def list_ex_iff)
  have "row_ok env (w_calls w) r"
    using wallet_okD(3) [OF ok, of "sp_operation_id r"] fresh by (force simp: row_ok_def list_ex_iff split_clash_def)
  then show "row_ok env (w_calls w) x" if "x = r \<or> x \<in> set (split_operations (w_db w))" for x
    using that wallet_okD(2) [OF ok] by auto
qed (use wallet_okD(3-5) [OF ok] in auto)

lemma current_truncate: "current_row (split_operation.truncate r) r"
  by (simp add: current_row_def split_operation.defs)

lemma stored_first_row:
  "first_row p (split_operations (w_db w)) = Some r \<Longrightarrow> split_stored w (split_operation.truncate r)"
  using current_truncate unfolding split_stored_def by (blast dest: first_row_SomeD)

lemma insert_split_held:
  "triple (wheld env []) (on_db (get_or_insert_spark_split now candidate)) (\<lambda>op. wheld env [op]) (wheld env [])"
proof -
  let ?r = "split_operation.extend candidate (split_row.fields now)"
  have run: "wallet_ok env w'" "res = Inr x \<Longrightarrow> wheld env [x] w'"
    if ok: "wheld env [] w" and m: "on_db (get_or_insert_spark_split now candidate) w = (res, w')" for w res w' x
  proof -
    have "wallet_ok env w" using ok by (simp add: wallet.held_def)
    then have inserted: "wallet_ok env (if list_ex (split_clash ?r) (split_operations (w_db w)) then w
        else w\<lparr>w_db := modify split_operations_t (\<lambda>rs. rs @ [?r]) (w_db w)\<rparr>)"
      using insert_split_ok by (simp del: modify_simps)
    have "w' = w \<or> w' = (if list_ex (split_clash ?r) (split_operations (w_db w)) then w
        else w\<lparr>w_db := modify split_operations_t (\<lambda>rs. rs @ [?r]) (w_db w)\<rparr>)"
      and found: "res = Inr x \<Longrightarrow> \<exists>r. first_row (\<lambda>s. sp_parent_node_id s = sp_parent_node_id candidate) (split_operations (w_db w')) = Some r
        \<and> x = split_operation.truncate r"
      using m by (auto simp: get_or_insert_spark_split_def read_spark_split_def optional_spark_split_def query_optional_def
          insert_or_ignore_def on_db_def action_defs split: if_splits)
    then have kept: "wallet_ok env w'" using inserted \<open>wallet_ok env w\<close> by auto
    show "wallet_ok env w'" by (rule kept)
    show "wheld env [x] w'" if "res = Inr x"
      using kept found [OF that] stored_first_row by (auto simp: wallet.held_def)
  qed
  show ?thesis by (rule tripleI) (use run in \<open>auto simp: wallet.held_def\<close>)
qed

lemma triple_find_split:
  "triple (wheld env []) (on_db (spark_split_for_parent parent)) (\<lambda>found w. case found of None \<Rightarrow> wheld env [] w | Some op \<Rightarrow> wheld env [op] w) (wheld env [])"
  by (rule tripleI) (auto simp: on_db_def spark_split_for_parent_def optional_spark_split_def query_optional_def action_defs
      wallet.held_def stored_first_row split: option.splits)

lemma execute_ok: "keeps (wheld env []) (execute_leaf_split env parent child_values)"
proof -
  have resume: "triple (wheld env [op]) (if b then throw e else resume_leaf_split env op (Some parent)) (\<lambda>_. wheld env []) (wheld env [])"
    for op b e
    using resume_ok [of op "[]"] by (auto simp: apart_from_def wallet.held_def intro!: triple_throw)
  have start: "triple (\<lambda>w. case found of None \<Rightarrow> wheld env [] w | Some op \<Rightarrow> wheld env [op] w)
      (case found of Some op \<Rightarrow> ret op | None \<Rightarrow>
        bind_action (ask_split (DraftSplit i parent child_values) (\<lambda>h. a_draft env h i parent child_values)) (\<lambda>draft.
        bind_action (lift_result (p_draft_bytes env draft)) (\<lambda>plan.
        bind_action (reading (a_now_text env)) (\<lambda>now.
        on_db (get_or_insert_spark_split now (new_split i parent child_values plan))))))
      (\<lambda>op. wheld env [op]) (wheld env [])" for found i
  proof (cases found)
    case None
    show ?thesis unfolding None option.case
      by (rule triple_bind [OF wallet.keeps_quiet [OF quiet_ask_split]], simp, rule triple_lifted,
          rule triple_bind [OF wallet.keeps_quiet [OF quiet_reading] insert_split_held])
  qed (auto intro!: triple_ret)
  show ?thesis
    unfolding execute_leaf_split_def Let_def
    by (intro triple_if quiet_topup triple_lifted triple_bind [OF triple_find_split] triple_bind [OF start] resume)
qed

lemma distinct_sorted_rows:
  assumes "no_clash split_clash rs"
  shows "distinct (map sp_parent_node_id (map split_operation.truncate (take n (sort_key f (sort_key g (filter p rs))))))"
proof -
  have rows: "a = b" if "a \<in> set rs" "b \<in> set rs" "sp_parent_node_id a = sp_parent_node_id b" for a b
    using no_clash_unique [OF assms that(1,2)] that(3) by (simp add: split_clash_def)
  have "distinct rs" using assms by (induction rs) (auto simp: no_clash_Cons split_clash_def)
  then have "distinct (map sp_parent_node_id (take n (sort_key f (sort_key g (filter p rs)))))"
    using rows by (auto simp: distinct_map inj_on_def dest!: in_set_takeD)
  moreover have "map sp_parent_node_id (map split_operation.truncate xs) = map sp_parent_node_id xs" for xs :: "split_row list"
    by (simp add: split_operation.defs)
  ultimately show ?thesis by (simp only:)
qed

lemma triple_incomplete:
  "triple (wheld env []) (on_db incomplete_spark_splits) (\<lambda>ops w. wheld env ops w \<and> distinct (map sp_parent_node_id ops)) (wheld env [])"
proof (rule tripleI)
  fix w ops w'
  assume held: "wheld env [] w" and m: "on_db incomplete_spark_splits w = (Inr ops, w')"
  let ?found = "take 1000 (sort_key sp_created_at (sort_key sp_operation_id (filter (\<lambda>s. sp_status s \<noteq> SCompleted) (split_operations (w_db w)))))"
  have ops: "ops = map split_operation.truncate ?found" "w' = w"
    using m by (auto simp: on_db_def incomplete_spark_splits_def select_where_def action_defs)
  have "distinct (map sp_parent_node_id ops)"
    unfolding ops(1) using held by (intro distinct_sorted_rows wallet_okD(1)) (simp add: wallet.held_def)
  moreover have "split_stored w op" if op: "op \<in> set ops" for op
  proof -
    obtain x :: split_row where "op = split_operation.truncate x" "x \<in> set (split_operations (w_db w))"
      using op unfolding ops(1) by (auto dest!: in_set_takeD)
    then show ?thesis using current_truncate unfolding split_stored_def by blast
  qed
  ultimately show "wheld env ops w' \<and> distinct (map sp_parent_node_id ops)"
    using held ops(2) by (simp add: wallet.held_def)
qed (auto simp: on_db_def incomplete_spark_splits_def select_where_def action_defs)

lemma triple_each_split:
  assumes "\<And>op rest. apart_from op rest \<Longrightarrow> triple (wheld env (op # rest)) (f op) (\<lambda>_. wheld env rest) (wheld env rest)"
  shows "distinct (map sp_parent_node_id ops) \<Longrightarrow> triple (wheld env ops) (for_each ops f) (\<lambda>_. wheld env []) (wheld env [])"
proof (induction ops)
  case (Cons op ops)
  have "apart_from op ops" using Cons.prems by (simp add: apart_from_def)
  then show ?case
    unfolding for_each.simps
    by (intro triple_then [OF triple_weaken [OF assms] Cons.IH]) (use Cons.prems in \<open>auto simp: wallet.held_def\<close>)
qed (simp add: triple_ret)

lemma recover_ok: "keeps (wheld env []) (recover_incomplete_splits env)"
proof -
  let ?turn = "\<lambda>nodes op. let parent = first_row (\<lambda>leaf. tn_id leaf = sp_parent_node_id op) nodes in
    if sp_status op = SDraft \<and> parent = None then ret () else resume_leaf_split env op parent"
  have turn: "triple (wheld env (op # rest)) (?turn nodes op) (\<lambda>_. wheld env rest) (wheld env rest)"
    if "apart_from op rest" for op rest nodes
    unfolding Let_def using resume_ok [OF that] by (auto intro!: triple_ret intro: wallet.held_fewer)
  have "triple (wheld env ops) (then_action (sync_wallet env) (bind_action (ask ListLeaves (a_leaves env)) (\<lambda>(available, missing).
      bind_action (lift_result (collect_nodes (available @ missing))) (\<lambda>nodes. then_action (for_each ops (?turn nodes)) (sync_wallet env)))))
      (\<lambda>_. wheld env []) (wheld env [])" if "distinct (map sp_parent_node_id ops)" for ops
  proof -
    have quiet: "triple (wheld env ops) m (\<lambda>_. wheld env ops) (wheld env [])" if "obeys wquiet m" for m :: "(wallet_world, 'a) action"
      by (rule triple_weaken [OF wallet.keeps_quiet [OF that, where rs = ops]]) (auto simp: wallet.held_def)
    have "triple (wheld env ops) (case x of (available, missing) \<Rightarrow> bind_action (lift_result (collect_nodes (available @ missing)))
        (\<lambda>nodes. then_action (for_each ops (?turn nodes)) (sync_wallet env))) (\<lambda>_. wheld env []) (wheld env [])" for x
      unfolding case_prod_beta
      by (rule triple_lifted, rule triple_then [OF triple_each_split [OF turn that] wallet.keeps_quiet [OF quiet_calls(1)]])
        (auto simp: wallet.held_def)
    then show ?thesis by (intro triple_then [OF quiet [OF quiet_calls(1)]] triple_bind [OF quiet [OF quiet_calls(5)]])
  qed
  then have body: "triple (\<lambda>w. wheld env ops w \<and> distinct (map sp_parent_node_id ops)) (if ops = [] then ret () else
      then_action (sync_wallet env) (bind_action (ask ListLeaves (a_leaves env)) (\<lambda>(available, missing).
      bind_action (lift_result (collect_nodes (available @ missing))) (\<lambda>nodes. then_action (for_each ops (?turn nodes)) (sync_wallet env)))))
      (\<lambda>_. wheld env []) (wheld env [])" for ops
    by (cases "ops = []") (auto simp: triple_def ret_def)
  show ?thesis
    unfolding recover_incomplete_splits_def
    by (rule triple_if) (rule triple_ret, assumption, rule triple_bind [OF triple_incomplete body])
qed

lemma exact_rounds_ok: "keeps (wheld env []) (exact_rounds env amount n)"
proof (induction n)
  case (Suc n)
  show ?case unfolding exact_rounds.simps
    by (intro triple_bind [OF wallet.keeps_quiet [OF quiet_available]] triple_if triple_ret triple_case_option quiet_topup
        triple_then [OF execute_ok] triple_then [OF wallet.keeps_quiet [OF quiet_calls(1)]] Suc.IH)
qed (simp add: triple_throw)

lemma denomination_rounds_ok: "keeps (wheld env []) (denomination_rounds env amounts n)"
proof (induction n)
  case (Suc n)
  have "keeps (wheld env []) (case plan of (parent, needed, change) \<Rightarrow>
      then_action (execute_leaf_split env parent [needed, change]) (then_action (sync_wallet env) (denomination_rounds env amounts n)))" for plan
    unfolding case_prod_beta by (intro triple_then [OF execute_ok] triple_then [OF wallet.keeps_quiet [OF quiet_calls(1)]] Suc.IH)
  then show ?case unfolding denomination_rounds.simps
    by (intro triple_bind [OF wallet.keeps_quiet [OF quiet_available]] triple_if triple_ret triple_case_option quiet_topup)
qed (simp add: triple_throw)

lemma liquidity_ok: "keeps (wheld env []) (ensure_exact_liquidity env amount)"
    "keeps (wheld env []) (ensure_denominated_liquidity env amounts)"
  unfolding ensure_exact_liquidity_def ensure_denominated_liquidity_def
  by (intro triple_then [OF recover_ok] exact_rounds_ok denomination_rounds_ok)+

section \<open>None of this pays\<close>

abbreviation asks :: "(wallet_world, 'a) action \<Rightarrow> bool" where
  "asks m \<equiv> obeys (calls_only (\<lambda>c. \<not> pays c)) m"

lemma asks_ask: "\<not> pays c \<Longrightarrow> asks (ask c f)"
  by (simp add: calls_ask)

lemma asks_reading: "asks (reading f)"
  by (simp add: obeys_def reading_def ret_def calls_only.R_refl)

lemmas asks_rules = calls_only.obeys_intros calls_only.obeys_if calls_only.obeys_bind calls_only.obeys_then calls_only.obeys_handle
  calls_only.obeys_lift calls_only.obeys_for_each calls_only.obeys_ignore calls_only.obeys_case_prod calls_only.obeys_case_option
  calls_on_db asks_ask asks_reading

lemma asks_split: "\<not> pays c \<Longrightarrow> asks (ask_split c answer)"
  unfolding ask_split_def by (intro asks_rules)

lemma asks_wallet:
  "asks (sync_wallet env)" "asks (find_transfer env i)" "asks (query_htlc env role i hash)" "asks (store_topup b)"
  "asks (liquidity_error e :: (wallet_world, 'a) action)" "asks (available_leaves env)"
  unfolding sync_wallet_def find_transfer_def query_htlc_def store_topup_def liquidity_error_def available_leaves_def
  by (intro asks_rules; simp)+

lemma asks_round: "asks (split_round env parent op)"
  unfolding split_round_def prepare_leaf_split_def submit_leaf_split_def finish_leaf_split_def reread_split_def
  by (cases "sp_status op"; simp; intro asks_rules asks_split; simp)

lemma asks_rounds: "asks (split_rounds n env parent op)"
  by (induction n arbitrary: op) (auto intro!: asks_rules asks_round split: option.split)

lemma asks_execute: "asks (resume_leaf_split env op parent)" "asks (execute_leaf_split env leaf values)"
  unfolding execute_leaf_split_def resume_leaf_split_def Let_def by (intro asks_rules asks_rounds asks_split asks_wallet; simp)+

lemma asks_recover: "asks (recover_incomplete_splits env)"
  unfolding recover_incomplete_splits_def Let_def by (intro asks_rules asks_execute asks_wallet; simp)

lemma asks_liquidity: "asks (ensure_exact_liquidity env amount)" "asks (ensure_denominated_liquidity env amounts)"
proof -
  have "asks (exact_rounds env amount n)" for n
    by (induction n) (auto intro!: asks_rules asks_execute asks_wallet split: option.split)
  moreover have "asks (denomination_rounds env amounts n)" for n
    by (induction n) (auto intro!: asks_rules asks_execute asks_wallet split: option.split)
  ultimately show "asks (ensure_exact_liquidity env amount)" "asks (ensure_denominated_liquidity env amounts)"
    unfolding ensure_exact_liquidity_def ensure_denominated_liquidity_def by (intro asks_rules asks_recover; simp)+
qed

end
