(* ===== verification/Wallet_Runs.thy ===== *)
theory Wallet_Runs
  imports Wallet_Splits
begin

text \<open>
  The payments of the wallet service, and its runs: any sequence of handlers and worker turns, each
  under the liquidity lock. Every handler keeps the invariant, and what a handler has looked up
  stays fresh until it pays.
\<close>

section \<open>Fresh answers\<close>

text \<open>The invariant, with a fact about the log that holds until the next payment.\<close>

definition wat :: "wallet_env \<Rightarrow> (wallet_call list \<Rightarrow> bool) \<Rightarrow> wallet_world \<Rightarrow> bool" where
  "wat env L w \<longleftrightarrow> wheld env [] w \<and> L (w_calls w)"

definition steady :: "(wallet_call list \<Rightarrow> bool) \<Rightarrow> bool" where
  "steady L \<longleftrightarrow> (\<forall>log cs. L log \<longrightarrow> (\<forall>c\<in>set cs. \<not> pays c) \<longrightarrow> L (log @ cs))"

lemma fresh_append: "fresh_answer log c P \<Longrightarrow> \<forall>c'\<in>set cs. \<not> pays c' \<Longrightarrow> fresh_answer (log @ cs) c P"
  unfolding fresh_answer_def by fastforce

lemma fresh_now: "P log \<Longrightarrow> fresh_answer (log @ [c]) c P"
  unfolding fresh_answer_def by (intro exI [of _ log] exI [of _ "[]"]) simp

lemma steady_rules: "steady (\<lambda>_. A)" "steady L \<Longrightarrow> steady M \<Longrightarrow> steady (\<lambda>log. L log \<and> M log)"
  "steady (\<lambda>log. transfer_seen env log i found)" "steady (\<lambda>log. swap_unrecovered env log i hash)"
  "steady (\<lambda>log. swap_prepared env log i request)"
  unfolding steady_def transfer_seen_def swap_unrecovered_def swap_prepared_def by (blast intro: fresh_append)+

lemma wat_held: "wat env L w \<Longrightarrow> wheld env [] w"
  by (simp add: wat_def)

lemma keeps_wat:
  assumes "keeps (wheld env []) m" "asks m" "steady L"
  shows "triple (wat env L) m (\<lambda>_. wat env L) (wheld env [])"
proof (rule tripleI)
  fix w x w'
  assume w: "wat env L w" "m w = (Inr x, w')"
  then have "wheld env [] w'" using tripleD [OF assms(1)] by (auto simp: wat_def)
  moreover have "L (w_calls w')"
    using obeysD [OF assms(2), of w] w assms(3) by (auto simp: wat_def steady_def calls_only_def)
  ultimately show "wat env L w'" by (simp add: wat_def)
qed (use tripleE [OF assms(1)] in \<open>auto simp: wat_def\<close>)

lemma learn:
  assumes "\<not> moves c" "\<not> pays c" "steady L" "\<And>log x. f log = Inr x \<Longrightarrow> F x (log @ [c])"
  shows "triple (wat env L) (ask c f) (\<lambda>x. wat env (\<lambda>log. L log \<and> F x log)) (wheld env [])"
proof (rule triple_ask)
  fix w x
  assume "wat env L w" "f (w_calls w) = Inr x"
  moreover have "L (log @ [c])" if "L log" for log
    using assms(2,3) that unfolding steady_def by (metis empty_iff empty_set set_ConsD)
  ultimately show "wat env (\<lambda>log. L log \<and> F x log) (w\<lparr>w_calls := w_calls w @ [c]\<rparr>)"
    using assms(1,4) by (auto simp: wat_def intro!: wallet.held_call wallet.harmless_justified)
qed (use assms(1) in \<open>auto simp: wat_def intro!: wallet.held_call wallet.harmless_justified\<close>)

lemma learn_transfer:
  "steady L \<Longrightarrow> triple (wat env L) (find_transfer env i) (\<lambda>found. wat env (\<lambda>log. L log \<and> transfer_seen env log i found)) (wheld env [])"
  unfolding find_transfer_def by (rule learn) (auto simp: transfer_seen_def intro: fresh_now)

lemma triple_pay:
  assumes "\<And>log. L log \<Longrightarrow> pay_backed env log c" "pays c"
  shows "triple (wat env L) (ask c f) (\<lambda>_. wheld env []) (wheld env [])"
proof -
  have "may_call env w c" if "L (w_calls w)" for w
    using assms that by (cases c) (auto simp: may_call_def)
  then show ?thesis by (intro triple_ask) (auto simp: wat_def intro!: wallet.held_call)
qed

lemma or_topup_ok: "triple P m (\<lambda>_. wheld env []) (wheld env []) \<Longrightarrow> triple P (or_topup m) (\<lambda>_. wheld env []) (wheld env [])"
  unfolding or_topup_def by (rule triple_handle) (auto intro: triple_ret quiet_topup)

lemma wheld_wat: "wheld env [] = wat env (\<lambda>_. True)"
  by (simp add: wat_def fun_eq_iff)

section \<open>The handlers\<close>

lemmas held_quiet = wallet.keeps_quiet [where rs = "[]"]

text \<open>The common end: the transfer is checked, the flag cleared, the answer given.\<close>

lemma finish_payment:
  "keeps (wheld env []) (then_action (lift_result r) (then_action (store_topup b) (ret x)))"
  unfolding then_action_def by (intro triple_lifted triple_bind [OF held_quiet [OF quiet_calls(4)]] triple_ret)

lemma found_or_pay:
  assumes "triple (wat env (\<lambda>log. L log \<and> transfer_seen env log i None)) pay (\<lambda>_. wheld env []) (wheld env [])"
  shows "triple (wat env (\<lambda>log. L log \<and> transfer_seen env log i found)) (case found of Some t \<Rightarrow> ret t | None \<Rightarrow> pay)
    (\<lambda>_. wheld env []) (wheld env [])"
  using assms by (cases found) (auto intro: triple_ret wat_held)

lemma send_ok: "triple (wat env (\<lambda>log. L log \<and> transfer_seen env log i None)) (or_topup (ask (SendTransfer amount receiver i) f))
    (\<lambda>_. wheld env []) (wheld env [])"
  by (intro or_topup_ok triple_pay) auto

lemma refund_ok: "keeps (wheld env []) (refund_bolt12_send env owner outbound amount)"
  unfolding refund_bolt12_send_def
  by (intro triple_then [OF held_quiet [OF quiet_calls(1)]] triple_lifted,
      subst (1) wheld_wat, rule triple_bind [OF learn_transfer [OF steady_rules(1)]],
      rule triple_bind [OF found_or_pay [OF send_ok]], rule finish_payment)

lemma keeps_receive_id: "keeps (wheld env []) (receive_transfer_id env hash)"
proof -
  have "obeys same_splits (query_optional receive_quote_uses_t p)" for p by (intro same_splits.obeys_intros)
  then show ?thesis unfolding receive_transfer_id_def by (intro triple_bind [OF held_quiet [OF wallet.quiet_on_db]] triple_lift)
qed

lemma settle_receive_ok: "keeps (wheld env []) (settle_lightning_receive env owner hash amount)"
proof -
  have pay: "triple (wat env (\<lambda>log. True \<and> transfer_seen env log i None)) (then_action (ensure_exact_liquidity env amount)
      (or_topup (ask (SendTransfer amount receiver i) f))) (\<lambda>_. wheld env []) (wheld env [])" for i receiver f
    by (rule triple_then [OF keeps_wat [OF liquidity_ok(1) asks_liquidity(1)] send_ok]) (intro steady_rules)
  show ?thesis
    unfolding settle_lightning_receive_def
    by (intro triple_then [OF held_quiet [OF quiet_calls(1)]] triple_bind [OF keeps_receive_id] triple_lifted,
        subst (1) wheld_wat, rule triple_bind [OF learn_transfer [OF steady_rules(1)]],
        rule triple_bind [OF found_or_pay [OF pay]], rule finish_payment)
qed

text \<open>Steps that move nothing.\<close>

lemma quiet_poll: "obeys wquiet look \<Longrightarrow> obeys wquiet (poll_rounds n env look msg deadline)"
proof (induction n)
  case (Suc n)
  have "obeys wquiet (poll_round env look msg deadline)"
    unfolding poll_round_def
    by (intro wallet.quiet.obeys_bind wallet.quiet.obeys_handle Suc.prems wallet.quiet.obeys_ret wallet.quiet.obeys_case_option
        quiet_reading wallet.quiet.obeys_if wallet.quiet.obeys_throw wallet.quiet.obeys_then quiet_calls)
  then show ?case using Suc by (auto intro!: wallet.quiet.obeys_bind wallet.quiet.obeys_case_option wallet.quiet.obeys_ret)
qed (simp add: wallet.quiet.obeys_throw)

lemmas quiet_rules = wallet.quiet.obeys_bind wallet.quiet.obeys_then wallet.quiet.obeys_handle wallet.quiet.obeys_ret
  wallet.quiet.obeys_throw wallet.quiet.obeys_lift wallet.quiet.obeys_if wallet.quiet.obeys_case_option
  wallet.quiet.obeys_ignore quiet_reading quiet_calls quiet_poll

lemma quiet_waits: "obeys wquiet (wait_for_transfer env i)" "obeys wquiet (wait_for_completed_transfer env i)"
  unfolding wait_for_transfer_def wait_for_completed_transfer_def find_completed_def by (intro quiet_rules)+

lemma quiet_sends:
  "obeys wquiet (verify_lightning_send env owner i hash amount)" "obeys wquiet (verify_bolt12_send env owner i amount)"
  "obeys wquiet (settle_lightning_send env i hash preimage)" "obeys wquiet (swap_details env i)"
  unfolding verify_lightning_send_def verify_bolt12_send_def settle_lightning_send_def swap_details_def find_htlc_def
  by (intro quiet_rules quiet_waits)+

lemma quiet_claims: "obeys wquiet (claim_rounds n env i deadline pause)"
  by (induction n arbitrary: pause) (auto intro!: quiet_rules split: option.split)

lemma quiet_history: "obeys wquiet (run_swap_history env)"
proof -
  have "obeys wquiet (follow_swap env swap)" for swap
    unfolding follow_swap_def case_prod_beta
    by (cases "p_transfer_id env (snd swap)")
      (auto intro!: quiet_rules wallet.quiet_on_db wallet.quiet.obeys_void same_splits.obeys_void same_other_tables split: option.split)
  moreover have "obeys same_splits (pending_swaps env)" unfolding pending_swaps_def by (intro same_splits.obeys_intros)
  ultimately show ?thesis
    unfolding run_swap_history_def by (intro quiet_rules wallet.quiet_on_db wallet.quiet.obeys_for_each)
qed

text \<open>A receive swap: recovered, or prepared and initiated.\<close>

lemma recover_swap_ok:
  "triple (wheld env []) (recover_lightning_receive_swap env i hash receiver amount)
     (\<lambda>found. wat env (\<lambda>log. found = None \<longrightarrow> swap_unrecovered env log i hash)) (wheld env [])"
proof -
  have ask: "triple (wheld env []) (query_htlc env HtlcSender i hash) (\<lambda>items. wat env (\<lambda>log. True \<and>
      (recovered_swap items i hash = None \<longrightarrow> swap_unrecovered env log i hash))) (wheld env [])"
    unfolding query_htlc_def wheld_wat
    by (rule learn [unfolded wheld_wat]) (auto simp: swap_unrecovered_def steady_rules intro: fresh_now)
  have "triple (wat env (\<lambda>log. True \<and> (recovered_swap items i hash = None \<longrightarrow> swap_unrecovered env log i hash)))
      (case recovered_swap items i hash of None \<Rightarrow> ret None | Some (transfer, preimage) \<Rightarrow>
         bind_action (lift_result (validate_lightning_receive_swap (p_hash_of env) transfer preimage hash i
           (s_identity env) receiver amount)) (\<lambda>swap. ret (Some swap)))
      (\<lambda>found. wat env (\<lambda>log. found = None \<longrightarrow> swap_unrecovered env log i hash)) (wheld env [])" for items
    by (cases "recovered_swap items i hash") (auto intro!: triple_ret triple_lifted simp: wat_def)
  then show ?thesis unfolding recover_lightning_receive_swap_def by (rule triple_bind [OF ask])
qed

lemma initiate_ok:
  "triple (wat env (\<lambda>log. swap_unrecovered env log i hash)) (initiate_receive_swap env i hash owner_key invoice amount 0)
     (\<lambda>_. wheld env []) (wheld env [])"
proof -
  let ?unrecovered = "\<lambda>log. swap_unrecovered env log i hash"
  note keep = keeps_wat [OF _ _ steady_rules(4)]
  have prepare: "triple (wat env ?unrecovered) (ask (PrepareTransfer i leaves owner_key expiry) (\<lambda>h. a_prepare_transfer env h i leaves owner_key expiry))
      (\<lambda>prepared. wat env (\<lambda>log. ?unrecovered log \<and> swap_prepared env log i
         (build_lightning_receive_swap_request hash invoice amount owner_key 0 prepared))) (wheld env [])" for leaves expiry
    by (rule learn) (auto simp: swap_prepared_def build_lightning_receive_swap_request_def steady_rules intro: fresh_now)
  have initiate: "triple (wat env (\<lambda>log. ?unrecovered log \<and> swap_prepared env log i
        (build_lightning_receive_swap_request hash invoice amount owner_key 0 prepared)))
      (ask (InitiateSwap (build_lightning_receive_swap_request hash invoice amount owner_key 0 prepared)) f)
      (\<lambda>_. wheld env []) (wheld env [])" for prepared f
    by (rule triple_pay) (auto simp: build_lightning_receive_swap_request_def)
  have selected: "triple (wat env ?unrecovered) (or_topup (lift_result r)) (\<lambda>_. wat env ?unrecovered) (wheld env [])" for r :: "'z result"
  proof (rule keep)
    show "keeps (wheld env []) (or_topup (lift_result r))" by (intro or_topup_ok triple_lift)
    show "asks (or_topup (lift_result r))" unfolding or_topup_def by (intro asks_rules asks_wallet)
  qed
  show ?thesis
    unfolding initiate_receive_swap_def Let_def
    by (rule triple_bind [OF keep [OF held_quiet [OF quiet_available] asks_wallet(6)]], rule triple_bind [OF selected],
        rule triple_then [OF keep [OF held_quiet [OF wallet.quiet.obeys_require] calls_only.obeys_require]],
        rule triple_bind [OF keep [OF held_quiet [OF quiet_reading] asks_reading]],
        rule triple_bind [OF prepare], rule triple_bind [OF initiate],
        intro triple_lifted triple_then held_quiet quiet_rules triple_ret)
qed

lemma swap_receive_ok: "keeps (wheld env []) (swap_for_lightning_receive env owner hash invoice amount fee)"
proof -
  have "triple (wat env (\<lambda>log. found = None \<longrightarrow> swap_unrecovered env log i hash')) (case found of Some swap \<Rightarrow> ret swap
      | None \<Rightarrow> then_action (ensure_exact_liquidity env amount) (initiate_receive_swap env i hash' owner_key invoice amount 0))
      (\<lambda>_. wheld env []) (wheld env [])" for found i hash' owner_key
  proof (cases found)
    case None
    then show ?thesis
      using triple_then [OF keeps_wat [OF liquidity_ok(1) asks_liquidity(1) steady_rules(4)] initiate_ok] by simp
  qed (auto intro: triple_ret wat_held)
  note continue = triple_bind [OF recover_swap_ok this]
  show ?thesis
    unfolding swap_for_lightning_receive_def
    by (cases "fee = 0", simp_all only: simp_thms if_True if_False)
      (intro triple_throw triple_lifted triple_bind [OF keeps_receive_id] triple_then [OF held_quiet [OF quiet_calls(1)]] continue; assumption)+
qed

text \<open>A swap: the counter transfer pays out exactly what the primary brings in.\<close>

lemma swap_amounts:
  assumes "swap_targets targets received payout = Inr target_total"
  shows "(\<Sum>n\<leftarrow>(if received - target_total > 0 then targets @ [received - target_total] else targets). unat n) = unat received"
proof -
  have t: "checked_sum 0 targets = Some target_total" "target_total \<le> received"
    using assms by (auto simp: swap_targets_def split: if_splits option.splits)
  have "unat target_total = (\<Sum>n\<leftarrow>targets. unat n)" using checked_sum_exact [OF t(1)] by simp
  moreover have "unat (received - target_total) = unat received - unat target_total" "unat target_total \<le> unat received"
    using t(2) by (simp_all add: unat_sub word_le_nat_alt)
  moreover have "received - target_total = 0 \<Longrightarrow> unat received = unat target_total" using t(2) by simp
  ultimately show ?thesis by (auto simp: word_gt_0)
qed

lemma counter_ok:
  assumes "swap_targets targets received payout = Inr target_total"
    "validate_transfer t owner_key (s_identity env) received = Inr u" "validate_swap_primary_claimable (wt_status t) = Inr u'"
  shows "triple (wat env (\<lambda>log. transfer_seen env log primary (Some t) \<and> transfer_seen env log i None))
    (create_counter_transfer env primary owner_key adaptor targets received target_total i) (\<lambda>_. wheld env []) (wheld env [])"
proof -
  let ?amounts = "if received - target_total > 0 then targets @ [received - target_total] else targets"
  have facts: "wt_sender t = owner_key" "wt_receiver t = s_identity env" "wt_total t = received" "wt_status t \<notin> {Expired, Returned}"
    using assms(2,3) by (auto simp: validate_transfer_def validate_swap_primary_claimable_def split: if_splits transfer_status.splits)
  have pay: "triple (wat env (\<lambda>log. transfer_seen env log primary (Some t) \<and> transfer_seen env log i None))
      (or_topup (ask (CounterTransfer ?amounts owner_key primary adaptor' i) f)) (\<lambda>_. wheld env []) (wheld env [])" for adaptor' f
    by (intro or_topup_ok triple_pay) (use facts swap_amounts [OF assms(1)] in \<open>auto simp: primary_funds_def\<close>)
  note keep = keeps_wat [OF _ _ steady_rules(2) [OF steady_rules(3) steady_rules(3)]]
  show ?thesis
    unfolding create_counter_transfer_def Let_def
    by (rule triple_then [OF keep [OF held_quiet [OF quiet_calls(1)] asks_wallet(1)]], rule triple_lifted,
        rule triple_then [OF keep [OF liquidity_ok(2) asks_liquidity(2)] pay]) (rule wat_held)
qed

lemma fill_swap_ok: "keeps (wheld env []) (fill_swap env owner outbound adaptor targets received payout)"
proof -
  let ?finish = "\<lambda>counter owner_key. then_action (lift_result (validate_transfer counter (s_identity env) owner_key received))
       (bind_action (lift_result (collect_leaves env (wt_leaves counter))) (\<lambda>leaves.
        if leaves = [] then throw (Failure ''counter transfer has no leaves'')
        else then_action (store_topup False) (ret (fill_of env counter leaves))))"
  have finish: "keeps (wheld env []) (?finish counter owner_key)" for counter owner_key
    unfolding then_action_def by (intro held_quiet quiet_rules)
  have choose: "triple (wat env (\<lambda>log. transfer_seen env log primary_id (Some primary) \<and> transfer_seen env log i found))
      (case found of Some counter \<Rightarrow> ret counter
        | None \<Rightarrow> then_action (lift_result (validate_swap_primary_claimable (wt_status primary)))
            (create_counter_transfer env primary_id owner_key adaptor targets received target_total i)) (\<lambda>_. wheld env []) (wheld env [])"
    if "swap_targets targets received payout = Inr target_total" "validate_transfer primary owner_key (s_identity env) received = Inr u"
    for found primary_id primary i owner_key target_total u
  proof (cases found)
    case None
    then show ?thesis
      unfolding then_action_def option.case
      by (auto intro!: triple_lifted counter_ok [OF that] intro: wat_held simp: None)
  qed (auto intro: triple_ret wat_held)
  note choose = triple_bind [OF choose finish]
  have locked: "triple (wat env (\<lambda>log. True \<and> transfer_seen env log primary_id again))
      (bind_action (lift_result (ok_or again e)) (\<lambda>primary.
       then_action (lift_result (validate_transfer primary owner_key (s_identity env) received))
       (bind_action (lift_result ids) (\<lambda>id_bytes. bind_action (find_transfer env (p_id_text env id_bytes)) (\<lambda>found.
        bind_action (case found of Some counter \<Rightarrow> ret counter
          | None \<Rightarrow> then_action (lift_result (validate_swap_primary_claimable (wt_status primary)))
              (create_counter_transfer env primary_id owner_key adaptor targets received target_total (p_id_text env id_bytes)))
          (\<lambda>counter. ?finish counter owner_key)))))) (\<lambda>_. wheld env []) (wheld env [])"
    if target: "swap_targets targets received payout = Inr target_total" for primary_id again e owner_key target_total and ids :: "8 word list result"
    by (rule triple_lifted, rule triple_checked, rule triple_lifted,
        rule triple_bind [OF triple_weaken [OF learn_transfer [OF steady_rules(3)]] choose [OF target]])
      (auto intro: wat_held)
  show ?thesis
    unfolding fill_swap_def Let_def
    by (rule triple_lifted, rule triple_lifted, rule triple_bind [OF held_quiet [OF quiet_waits(1)]], rule triple_lifted,
        rule triple_checked, rule triple_checked, subst (1) wheld_wat, rule triple_bind [OF learn_transfer [OF steady_rules(1)] locked])
qed

section \<open>Runs\<close>

text \<open>A handler with its arguments, or a turn of a worker; results and errors go to the caller.\<close>

datatype wallet_op =
    VerifySend string string string u64
  | VerifyOffer string string u64
  | RefundOffer string string u64
  | SettleSend string string string
  | SettleReceive string string u64
  | SwapReceive string string string u64 u64
  | FillSwap string string string "u64 list" u64 u64
  | SwapDetails string
  | SwapHistory
  | ClaimSwap string
  | RecoverSplits

fun wallet_step :: "wallet_env \<Rightarrow> wallet_op \<Rightarrow> (wallet_world, unit) action" where
  "wallet_step env (VerifySend owner i hash amount) = void (verify_lightning_send env owner i hash amount)"
| "wallet_step env (VerifyOffer owner i amount) = verify_bolt12_send env owner i amount"
| "wallet_step env (RefundOffer owner i amount) = void (refund_bolt12_send env owner i amount)"
| "wallet_step env (SettleSend i hash preimage) = settle_lightning_send env i hash preimage"
| "wallet_step env (SettleReceive owner hash amount) = void (settle_lightning_receive env owner hash amount)"
| "wallet_step env (SwapReceive owner hash invoice amount fee) = void (swap_for_lightning_receive env owner hash invoice amount fee)"
| "wallet_step env (FillSwap owner i adaptor targets received payout) = void (fill_swap env owner i adaptor targets received payout)"
| "wallet_step env (SwapDetails i) = void (swap_details env i)"
| "wallet_step env SwapHistory = run_swap_history env"
| "wallet_step env (ClaimSwap i) = reconcile_swap_claim env i"
| "wallet_step env RecoverSplits = recover_incomplete_splits env"

fun wallet_run :: "wallet_env \<Rightarrow> wallet_op list \<Rightarrow> wallet_world \<Rightarrow> wallet_world" where
  "wallet_run env [] w = w"
| "wallet_run env (op # ops) w = wallet_run env ops (snd (wallet_step env op w))"

lemma wallet_step_ok: "keeps (wheld env []) (wallet_step env op)"
proof (cases op)
  case (ClaimSwap i)
  have "obeys wquiet (reconcile_swap_claim env i)"
    unfolding reconcile_swap_claim_def by (intro quiet_rules quiet_claims)
  then show ?thesis by (simp add: ClaimSwap held_quiet)
qed (simp_all add: triple_void refund_ok settle_receive_ok swap_receive_ok fill_swap_ok recover_ok
    held_quiet [OF quiet_sends(1)] held_quiet [OF quiet_sends(2)] held_quiet [OF quiet_sends(3)] held_quiet [OF quiet_sends(4)]
    held_quiet [OF quiet_history])

lemma wallet_run_ok: "wheld env [] w \<Longrightarrow> wheld env [] (wallet_run env ops w)"
proof (induction ops arbitrary: w)
  case (Cons op ops)
  have "wheld env [] (snd (wallet_step env op w))"
    using tripleD [OF wallet_step_ok Cons.prems] tripleE [OF wallet_step_ok Cons.prems]
    by (cases "wallet_step env op w"; cases "fst (wallet_step env op w)") auto
  then show ?case using Cons.IH by simp
qed simp

lemma wallet_from_empty: "wheld env [] (wallet_run env ops empty_world)"
  by (rule wallet_run_ok)
    (simp add: wallet.held_def wallet_ok_def empty_world_def empty_db_def asked_before_def)

lemma wallet_reachable: "wallet_ok env (wallet_run env ops empty_world)"
  using wallet_from_empty [of env ops] by (simp add: wallet.held_def)

end
