(* ===== verification/Wallet_Guarantees.thy ===== *)
theory Wallet_Guarantees
  imports Wallet_Runs
begin

text \<open>
  What every run of the wallet service guarantees: one plan for each split leaf, no payment for an
  id that has one, swaps that pay out what they take in, and loops that end.
\<close>

section \<open>Splits\<close>

text \<open>C16. A leaf is split by one plan only: however often a split is retried, interrupted or recovered,
  and whatever the operators answer, all its submissions carry the same plan, and each was recorded as
  SUBMITTING, with that plan, before it was made.\<close>

theorem split_submitted_one_plan:
  assumes "SubmitSplit i plan \<in> set (w_calls (wallet_run env ops empty_world))"
    "SubmitSplit i plan' \<in> set (w_calls (wallet_run env ops empty_world))"
  shows "plan' = plan \<and> (\<exists>r\<in>set (split_operations (w_db (wallet_run env ops empty_world))). sp_operation_id r = i \<and>
    SSubmitting \<le> sp_status r \<and> (sp_status r = SSubmitting \<longrightarrow> p_plan env (sp_plan r) = Inr plan))"
proof -
  note ok = wallet_reachable [of env ops]
  obtain r where r: "r \<in> set (split_operations (w_db (wallet_run env ops empty_world)))" "sp_operation_id r = i"
    using wallet_okD(3) [OF ok assms(1)] by blast
  then have "SSubmitting \<le> sp_status r \<and> (sp_status r = SSubmitting \<longrightarrow> p_plan env (sp_plan r) = Inr plan)"
    using wallet_okD(2) [OF ok r(1)] assms(1) by (auto simp: row_ok_def)
  then show ?thesis using r wallet_okD(4) [OF ok assms] by blast
qed

text \<open>C18. Driving a split ends: from any reachable state, the status loop on a stored operation returns
  after at most five rounds, with the result of those rounds, whatever the operators answer.\<close>

theorem split_loop_ends:
  assumes "spark_split_for_parent parent (w_db (wallet_run env ops empty_world)) = (Inr (Some operation), d)"
  shows "split_loop env leaf operation (wallet_run env ops empty_world) =
    Some (split_rounds 5 env leaf operation (wallet_run env ops empty_world))"
proof (rule split_loop_rounds)
  let ?w = "wallet_run env ops empty_world"
  have "first_row (\<lambda>s. sp_parent_node_id s = parent) (split_operations (w_db ?w)) \<noteq> None \<and>
      operation = split_operation.truncate (the (first_row (\<lambda>s. sp_parent_node_id s = parent) (split_operations (w_db ?w))))"
    using assms by (auto simp: spark_split_for_parent_def optional_spark_split_def query_optional_def action_defs)
  then have "split_stored ?w operation" using stored_first_row by fastforce
  then show "wheld env [operation] ?w" using wallet_reachable by (simp add: wallet.held_def)
qed simp

section \<open>Payments\<close>

text \<open>Which calls may create a transfer under an id (an initiated swap's request hides its id).\<close>

fun pays_under :: "wallet_call \<Rightarrow> string \<Rightarrow> bool" where
  "pays_under (SendTransfer _ _ i') i = (i' = i)"
| "pays_under (CounterTransfer _ _ _ _ i') i = (i' = i)"
| "pays_under (InitiateSwap _) i = True"
| "pays_under _ i = False"

text \<open>The operators as documented, with \<open>made\<close> for the transfers that exist: a transfer that exists is
  found, and only a payment under an id creates one. A payment whose answer was lost may have.\<close>

definition operators_truthful :: "wallet_env \<Rightarrow> (wallet_call list \<Rightarrow> string \<Rightarrow> bool) \<Rightarrow> bool" where
  "operators_truthful env made \<longleftrightarrow> (\<forall>log i. a_get env log i = Inr None \<longrightarrow> \<not> made log i) \<and>
     (\<forall>log c i. made (log @ [c]) i \<longrightarrow> made log i \<or> pays_under c i)"

lemma not_made_later:
  assumes "operators_truthful env made" "\<not> made log i" "\<forall>c\<in>set cs. \<not> pays c"
  shows "\<not> made (log @ cs) i"
  using assms(3)
proof (induction cs rule: rev_induct)
  case (snoc c cs)
  then have "\<not> made (log @ cs) i" by simp
  moreover have "\<not> pays_under c i" using snoc.prems by (cases c) auto
  ultimately show ?case using assms(1) unfolding operators_truthful_def append_assoc [symmetric] by blast
qed (use assms(2) in simp)

lemma not_made_now:
  assumes "operators_truthful env made" "transfer_seen env log i None"
  shows "\<not> made log i"
proof -
  obtain pre post where log: "log = pre @ GetTransfer i # post" "a_get env pre i = Inr None" "\<forall>c\<in>set post. \<not> pays c"
    using assms(2) by (auto simp: transfer_seen_def fresh_answer_def)
  have "\<not> made pre i" using assms(1) log(2) by (simp add: operators_truthful_def)
  then show ?thesis using not_made_later [OF assms(1), of pre i "GetTransfer i # post"] log(1,3) by simp
qed

text \<open>C15. No payment is made twice: when the wallet asks for a transfer under an id, for a receive, a
  refund or a swap, no transfer under that id exists, even if an earlier attempt succeeded and its
  answer was lost, or another handler made it meanwhile.\<close>

theorem payment_not_repeated:
  assumes "operators_truthful env made" "asked_before (w_calls (wallet_run env ops empty_world)) c pre"
    "c = SendTransfer amount receiver i \<or> c = CounterTransfer amounts receiver primary adaptor i"
  shows "\<not> made pre i"
  using wallet_okD(5) [OF wallet_reachable assms(2)] assms(3) not_made_now [OF assms(1)] by auto

text \<open>C17. A swap pays out what it takes in: a counter transfer is asked for only after the primary was
  found, from the same wallet to the service, neither expired nor returned, and its leaves add up
  exactly to the primary's value.\<close>

theorem swap_conserves_value:
  assumes "asked_before (w_calls (wallet_run env ops empty_world)) (CounterTransfer amounts receiver primary adaptor i) pre"
  shows "\<exists>before t. asked_before pre (GetTransfer primary) before \<and> a_get env before primary = Inr (Some t) \<and>
    wt_sender t = receiver \<and> wt_receiver t = s_identity env \<and> wt_status t \<notin> {Expired, Returned} \<and>
    (\<Sum>n\<leftarrow>amounts. unat n) = unat (wt_total t)"
  using wallet_okD(5) [OF wallet_reachable assms]
  by (auto simp: primary_funds_def transfer_seen_def fresh_answer_def asked_before_def)

section \<open>Waiting\<close>

text \<open>A monotone clock that a sleep advances by at least its length.\<close>

definition clock_runs :: "wallet_env \<Rightarrow> bool" where
  "clock_runs env \<longleftrightarrow> (\<forall>log c. a_instant env log \<le> a_instant env (log @ [c])) \<and>
     (\<forall>log n. a_instant env log + int n \<le> a_instant env (log @ [Sleep n]))"

lemma clock_later: "clock_runs env \<Longrightarrow> a_instant env log \<le> a_instant env (log @ cs)"
  by (induction cs rule: rev_induct) (auto simp: clock_runs_def simp flip: append_assoc intro: order_trans)

lemma poll_loop_rounds:
  assumes "clock_runs env" "obeys (calls_only (\<lambda>_. True)) look"
  shows "deadline \<le> a_instant env (w_calls w) + 250 * int k \<Longrightarrow> k < n \<Longrightarrow>
    poll_loop env look msg deadline w = Some (poll_rounds n env look msg deadline w)"
proof (induction n arbitrary: k w)
  case (Suc n)
  obtain res w' where step: "poll_round env look msg deadline w = (res, w')" by (cases "poll_round env look msg deadline w")
  show ?case
  proof (cases "\<exists>e. res = Inl e \<or> (\<exists>t. res = Inr (Some t))")
    case True
    then show ?thesis using step by (subst poll_loop.simps) (auto simp: action_defs)
  next
    case False
    then have res: "res = Inr None" by (cases res) auto
    let ?w1 = "snd (look w)"
    have w1: "a_instant env (w_calls w) \<le> a_instant env (w_calls ?w1)"
      using obeysD [OF assms(2), of w] clock_later [OF assms(1)] by (auto simp: calls_only_def)
    have "a_instant env (w_calls ?w1) < deadline \<and> w_calls w' = w_calls ?w1 @ [Sleep 250]"
      using step res by (cases "look w") (auto simp: poll_round_def reading_def ask_def action_defs split: if_splits option.splits sum.splits)
    moreover have "a_instant env (w_calls ?w1) + 250 \<le> a_instant env (w_calls ?w1 @ [Sleep 250])"
      using assms(1) unfolding clock_runs_def by (metis of_nat_numeral)
    ultimately have "deadline \<le> a_instant env (w_calls w') + 250 * int (k - 1)" "k - 1 < n"
      using Suc.prems w1 by auto
    from Suc.IH [OF this] show ?thesis using step res by (subst poll_loop.simps) (simp add: action_defs)
  qed
qed simp

text \<open>Waiting ends: with a clock that runs, polling for a transfer, for any or for a completed one,
  returns within 61 lookups, which is the fifteen seconds the code allows, whatever the lookups answer.\<close>

theorem waiting_ends:
  assumes "clock_runs env"
  shows "poll_loop env (find_transfer env i) ''outbound swap transfer was not found for the SSP'' (a_instant env (w_calls w) + 15000) w =
      Some (wait_for_transfer env i w) \<and>
    poll_loop env (find_completed env i) ''BOLT12 funding transfer is not complete'' (a_instant env (w_calls w) + 15000) w =
      Some (wait_for_completed_transfer env i w)"
proof -
  have looks: "obeys (calls_only (\<lambda>_. True)) (find_transfer env i)" "obeys (calls_only (\<lambda>_. True)) (find_completed env i)"
    unfolding find_transfer_def find_completed_def sync_wallet_def
    by (intro calls_only.obeys_bind calls_only.obeys_then calls_only.obeys_ignore calls_only.obeys_ret calls_ask; simp)+
  show ?thesis
    using poll_loop_rounds [OF assms looks(1), of "a_instant env (w_calls w) + 15000" w 60 61]
      poll_loop_rounds [OF assms looks(2), of "a_instant env (w_calls w) + 15000" w 60 61]
    by (simp add: wait_for_transfer_def wait_for_completed_transfer_def reading_def bind_action_def ret_def)
qed

section \<open>A receive that splits a leaf, and a swap\<close>

definition example_leaf :: "string \<Rightarrow> u64 \<Rightarrow> wallet_leaf" where
  "example_leaf i n = \<lparr>wl_id = i, wl_value = n, wl_data = ''tx'', wl_signing_keyshare = Some ''share''\<rparr>"

definition example_transfer :: "string \<Rightarrow> string \<Rightarrow> string \<Rightarrow> u64 \<Rightarrow> wallet_transfer" where
  "example_transfer i sender receiver n = \<lparr>wt_id = i, wt_sender = sender, wt_receiver = receiver, wt_total = n,
     wt_status = SenderKeyTweaked, wt_type = PlainTransfer, wt_leaves = [(''leaf'', ''raw'')], wt_expiry = None\<rparr>"

definition made_under :: "wallet_call list \<Rightarrow> string \<Rightarrow> bool" where
  "made_under log i = list_ex (\<lambda>c. pays_under c i) log"

fun slept :: "wallet_call list \<Rightarrow> int" where
  "slept [] = 0"
| "slept (Sleep n # log) = int n + slept log"
| "slept (_ # log) = slept log"

text \<open>One leaf of 8, which the operators split as asked; the last lookup sees what was made.\<close>

definition example_wallet :: wallet_env where
  "example_wallet = \<lparr>a_sync = \<lambda>_. Inr (),
     a_leaves = \<lambda>log. Inr (if FinalizeSplit ''submitted'' \<in> set log then [example_leaf ''b'' 5, example_leaf ''c'' 3] else [example_leaf ''a'' 8], []),
     a_get = \<lambda>log i. Inr (if i = ''primary'' then Some (example_transfer i ''owner'' ''ssp'' 8)
       else if made_under log i then Some (example_transfer i ''ssp'' ''owner'' 8) else None),
     a_send = \<lambda>log n receiver i. Inr (example_transfer i ''ssp'' receiver n),
     a_counter = \<lambda>log ns receiver primary adaptor i. Inr (example_transfer i ''ssp'' receiver (sum_list ns)),
     a_htlc = \<lambda>_ _ _ _. Inr [], a_claim = \<lambda>_ _. Inl NoRows, a_prepare_transfer = \<lambda>_ _ _ _ _. Inr ''request'',
     a_initiate = \<lambda>_ _. Inl NoRows, a_process = \<lambda>_ _. Inr (),
     a_draft = \<lambda>_ _ _ _. ([], Inr ''draft''), a_prepare_split = \<lambda>_ _ _. ([], Inr ''plan''),
     a_submit = \<lambda>_ i _. ([PutSplitKeys i ''a'' [[1], [2]]], Inr ''submitted''),
     a_finalize = \<lambda>_ _. ([BindSplitKeys ''id'' [''b'', ''c'']], Inr [''b'', ''c'']),
     a_instant = slept, a_now = slept, a_now_text = \<lambda>_. ''t0'',
     p_key = Inr, p_transfer_id = Inr, p_id_text = \<lambda>b. if hd b = 1 then ''id'' else ''pay'', p_hash = Inr,
     p_hex_decode = \<lambda>_. Some (replicate 32 2), p_hex = \<lambda>_. ''hex'', p_lower = id, p_preimage = Inr, p_hash_of = id,
     p_sha256 = \<lambda>_. replicate 32 1, p_htlc_script = \<lambda>_ _ _ _. Inr ''script'',
     p_select = \<lambda>leaves ns. if list_all (\<lambda>n. n \<in> tn_value ` set leaves) ns then Inr (filter (\<lambda>l. tn_value l \<in> set ns) leaves)
       else Inl (Failure ''no exact set''),
     p_draft = \<lambda>b. if b = [0] then Inr ''draft'' else Inl NoRows, p_plan = \<lambda>b. if b = [1] then Inr ''plan'' else Inl NoRows,
     p_submitted = \<lambda>b. if b = [2] then Inr ''submitted'' else Inl NoRows,
     p_draft_bytes = \<lambda>_. Inr [0], p_plan_bytes = \<lambda>_. Inr [1], p_submitted_bytes = \<lambda>_. Inr [2],
     p_raw_tx = \<lambda>_. Inr (\<lparr>tx_inputs = [], tx_outputs = []\<rparr>, [[replicate 64 0]]), p_raw_text = \<lambda>_. ''raw'',
     p_rfc3339 = \<lambda>_. ''t1'', p_json_text = \<lambda>_. ''json'', s_identity = ''ssp'', s_splitting = True, s_minimum_child = 1\<rparr>"

definition example_wallet_ops :: "wallet_op list" where
  "example_wallet_ops = [SettleReceive ''owner'' ''hash'' 5, FillSwap ''owner'' ''primary'' ''adaptor'' [5] 8 8]"

lemma example_wallet_env [simp]:
  "a_sync example_wallet = (\<lambda>_. Inr ())"
  "a_leaves example_wallet = (\<lambda>log. Inr (if FinalizeSplit ''submitted'' \<in> set log then [example_leaf ''b'' 5, example_leaf ''c'' 3] else [example_leaf ''a'' 8], []))"
  "a_get example_wallet = (\<lambda>log i. Inr (if i = ''primary'' then Some (example_transfer i ''owner'' ''ssp'' 8) else if made_under log i then Some (example_transfer i ''ssp'' ''owner'' 8) else None))"
  "a_send example_wallet = (\<lambda>log n receiver i. Inr (example_transfer i ''ssp'' receiver n))"
  "a_counter example_wallet = (\<lambda>log ns receiver primary adaptor i. Inr (example_transfer i ''ssp'' receiver (sum_list ns)))"
  "a_htlc example_wallet = (\<lambda>_ _ _ _. Inr [])"
  "a_claim example_wallet = (\<lambda>_ _. Inl NoRows)"
  "a_prepare_transfer example_wallet = (\<lambda>_ _ _ _ _. Inr ''request'')"
  "a_initiate example_wallet = (\<lambda>_ _. Inl NoRows)"
  "a_process example_wallet = (\<lambda>_ _. Inr ())"
  "a_draft example_wallet = (\<lambda>_ _ _ _. ([], Inr ''draft''))"
  "a_prepare_split example_wallet = (\<lambda>_ _ _. ([], Inr ''plan''))"
  "a_submit example_wallet = (\<lambda>_ i _. ([PutSplitKeys i ''a'' [[1], [2]]], Inr ''submitted''))"
  "a_finalize example_wallet = (\<lambda>_ _. ([BindSplitKeys ''id'' [''b'', ''c'']], Inr [''b'', ''c'']))"
  "a_instant example_wallet = slept"
  "a_now example_wallet = slept"
  "a_now_text example_wallet = (\<lambda>_. ''t0'')"
  "p_key example_wallet = Inr"
  "p_transfer_id example_wallet = Inr"
  "p_id_text example_wallet = (\<lambda>b. if hd b = 1 then ''id'' else ''pay'')"
  "p_hash example_wallet = Inr"
  "p_hex_decode example_wallet = (\<lambda>_. Some (replicate 32 2))"
  "p_hex example_wallet = (\<lambda>_. ''hex'')"
  "p_lower example_wallet = id"
  "p_preimage example_wallet = Inr"
  "p_hash_of example_wallet = id"
  "p_sha256 example_wallet = (\<lambda>_. replicate 32 1)"
  "p_htlc_script example_wallet = (\<lambda>_ _ _ _. Inr ''script'')"
  "p_select example_wallet = (\<lambda>leaves ns. if list_all (\<lambda>n. n \<in> tn_value ` set leaves) ns then Inr (filter (\<lambda>l. tn_value l \<in> set ns) leaves) else Inl (Failure ''no exact set''))"
  "p_draft example_wallet = (\<lambda>b. if b = [0] then Inr ''draft'' else Inl NoRows)"
  "p_plan example_wallet = (\<lambda>b. if b = [1] then Inr ''plan'' else Inl NoRows)"
  "p_submitted example_wallet = (\<lambda>b. if b = [2] then Inr ''submitted'' else Inl NoRows)"
  "p_draft_bytes example_wallet = (\<lambda>_. Inr [0])"
  "p_plan_bytes example_wallet = (\<lambda>_. Inr [1])"
  "p_submitted_bytes example_wallet = (\<lambda>_. Inr [2])"
  "p_raw_tx example_wallet = (\<lambda>_. Inr (\<lparr>tx_inputs = [], tx_outputs = []\<rparr>, [[replicate 64 0]]))"
  "p_raw_text example_wallet = (\<lambda>_. ''raw'')"
  "p_rfc3339 example_wallet = (\<lambda>_. ''t1'')"
  "p_json_text example_wallet = (\<lambda>_. ''json'')"
  "s_identity example_wallet = ''ssp''"
  "s_splitting example_wallet = True"
  "s_minimum_child example_wallet = 1"
  by (simp_all add: example_wallet_def)

text \<open>Evaluation: a statement is unfolded when it is run on a state.\<close>

lemmas run_statements =
  sync_wallet_def [THEN fun_cong] find_transfer_def [THEN fun_cong] query_htlc_def [THEN fun_cong] store_topup_def [THEN fun_cong]
  ask_split_def [THEN fun_cong] available_leaves_def [THEN fun_cong] or_topup_def [THEN fun_cong] on_db_def [THEN fun_cong]
  ask_def [THEN fun_cong] reading_def [THEN fun_cong] ignore_def [THEN fun_cong] ret_def [THEN fun_cong] throw_def [THEN fun_cong]
  bind_action_def [THEN fun_cong] then_action_def [THEN fun_cong] require_def [THEN fun_cong] lift_result_def [THEN fun_cong]
  handle_def [THEN fun_cong] transaction_def [THEN fun_cong] void_def [THEN fun_cong] select_where_def [THEN fun_cong]
  query_optional_def [THEN fun_cong] query_row_def [THEN fun_cong] insert_or_ignore_def [THEN fun_cong] update_where_def [THEN fun_cong] upsert_def [THEN fun_cong] delete_where_def [THEN fun_cong]

lemmas run_handlers =
  reread_split_def [THEN fun_cong] prepare_leaf_split_def [THEN fun_cong] submit_leaf_split_def [THEN fun_cong]
  finish_leaf_split_def [THEN fun_cong] split_round_def [THEN fun_cong] resume_leaf_split_def [THEN fun_cong]
  execute_leaf_split_def [THEN fun_cong] recover_incomplete_splits_def [THEN fun_cong] ensure_exact_liquidity_def [THEN fun_cong]
  ensure_denominated_liquidity_def [THEN fun_cong] spark_split_for_parent_def [THEN fun_cong] optional_spark_split_def [THEN fun_cong] read_spark_split_def [THEN fun_cong] get_or_insert_spark_split_def [THEN fun_cong] incomplete_spark_splits_def [THEN fun_cong] save_prepared_spark_split_def [THEN fun_cong] mark_spark_split_submitting_def [THEN fun_cong]
  save_submitted_spark_split_def [THEN fun_cong] mark_spark_split_completed_def [THEN fun_cong] update_split_def [THEN fun_cong]
  put_pending_spark_split_keys_def [THEN fun_cong] bind_pending_spark_split_keys_def [THEN fun_cong] put_leaf_key_def [THEN fun_cong] settle_lightning_receive_def [THEN fun_cong] receive_transfer_id_def [THEN fun_cong] poll_round_def [THEN fun_cong]
  wait_for_transfer_def [THEN fun_cong] fill_swap_def [THEN fun_cong] create_counter_transfer_def [THEN fun_cong]

lemma example_plan: "plan_just_in_time_split tn_value [\<lparr>tn_id = ''a'', tn_value = 8, tn_data = ''tx''\<rparr>] 5 1 =
  Some \<lparr>jit_selected = [], jit_parent = \<lparr>tn_id = ''a'', tn_value = 8, tn_data = ''tx''\<rparr>, jit_needed_sats = 5, jit_change_sats = 3\<rparr>"
  by (simp add: plan_just_in_time_split_def split_at_parent_def sort_descending_def better_split_def checked_sub_def saturating_sub_def)

lemma example_ids: "split_operation_id (\<lambda>_. replicate 32 1) i = Inr ([1,1,1,1,1,1,65,1,129,1,1,1,1,1,1,1])"
    "counter_transfer_id (\<lambda>_. replicate 32 1) i = Inr ([1,1,1,1,1,1,65,1,129,1,1,1,1,1,1,1])"
    "payment_transfer_id (\<lambda>_. Some (replicate 32 2)) i = Inr ([2,2,2,2,2,2,66,2,130,2,2,2,2,2,2,2])"
  by (simp_all add: split_operation_id_def counter_transfer_id_def payment_transfer_id_def deterministic_transfer_id_def numeral_eq_Suc)

lemma loops_run:
  "split_rounds (numeral k) env p op s = bind_action (split_round env p op) (\<lambda>found.
     case found of None \<Rightarrow> ret () | Some nx \<Rightarrow> split_rounds (pred_numeral k) env p nx) s"
  "poll_rounds (numeral k) env look msg t s = bind_action (poll_round env look msg t) (\<lambda>found.
     case found of Some transfer \<Rightarrow> ret transfer | None \<Rightarrow> poll_rounds (pred_numeral k) env look msg t) s"
  unfolding numeral_eq_Suc by simp_all

lemma liquidity_run:
  "exact_rounds env amount (numeral k) s = bind_action (available_leaves env) (\<lambda>available.
     if is_ok (select_receive_leaves env available amount) then ret ()
     else case plan_just_in_time_split tn_value available amount (s_minimum_child env) of
         None \<Rightarrow> liquidity_error (Failure ''amount cannot be represented by available leaves without creating a child below the configured split floor'')
       | Some plan \<Rightarrow>
           then_action (execute_leaf_split env (jit_parent plan) [jit_needed_sats plan, jit_change_sats plan])
           (then_action (sync_wallet env) (exact_rounds env amount (pred_numeral k)))) s"
  "is_ok (p_select env xs amounts) \<Longrightarrow> available_leaves env s = (Inr xs, s') \<Longrightarrow> denomination_rounds env amounts (numeral k) s = (Inr (), s')"
  unfolding numeral_eq_Suc by (simp_all add: bind_action_def ret_def)

lemma if_run: "(if b then m else k) s = (if b then m s else k s)" by simp

lemmas run_data = wallet_leaf_to_tree_node_def select_receive_leaves_def and_then_def new_split_def split_operation.defs split_row.defs
  split_clash_def pending_keys_clash_def example_ids example_plan sql_u64_def i64_of_u64_def i64_max_def made_under_def validate_transfer_def
  example_transfer_def example_leaf_def is_ok_def Let_def if_run



definition example_split_world :: "wallet_call list \<Rightarrow> wallet_world" where
  "example_split_world log = \<lparr>w_db = empty_db
     \<lparr>split_operations := [\<lparr>sp_operation_id = ''id'', sp_parent_node_id = ''a'', sp_parent_value_sats = 8, sp_child_values_sats = [5, 3],
        sp_plan = [2], sp_status = SCompleted, sp_child_node_ids = [''b'', ''c''], sp_last_error = None, sp_created_at = ''t0''\<rparr>],
      leaf_keys := [\<lparr>lk_node_id = ''b'', lk_operation_id = ''id'', lk_key_material = [1]\<rparr>,
        \<lparr>lk_node_id = ''c'', lk_operation_id = ''id'', lk_key_material = [2]\<rparr>]\<rparr>, w_calls = log\<rparr>"

abbreviation (input) leaf_a :: tree_node where
  "leaf_a \<equiv> \<lparr>tn_id = ''a'', tn_value = 8, tn_data = ''tx''\<rparr>"

lemma example_execute:
  "execute_leaf_split example_wallet leaf_a [5, 3] \<lparr>w_db = empty_db, w_calls = log\<rparr> = (Inr (), example_split_world
     (log @ [DraftSplit ''id'' leaf_a [5, 3], PrepareSplit ''draft'' leaf_a, SubmitSplit ''id'' ''plan'', FinalizeSplit ''submitted'']))"
  by (simp add: run_statements run_handlers run_data loops_run example_split_world_def empty_db_def)

lemma example_recover:
  "recover_incomplete_splits example_wallet \<lparr>w_db = empty_db, w_calls = log\<rparr> = (Inr (), \<lparr>w_db = empty_db, w_calls = log\<rparr>)"
  "recover_incomplete_splits example_wallet (example_split_world log) = (Inr (), example_split_world log)"
  by (simp_all add: run_statements run_handlers run_data example_split_world_def empty_db_def)

lemma example_available:
  "FinalizeSplit ''submitted'' \<notin> set log \<Longrightarrow>
     available_leaves example_wallet \<lparr>w_db = d, w_calls = log\<rparr> = (Inr [leaf_a], \<lparr>w_db = d, w_calls = log @ [ListLeaves]\<rparr>)"
  "FinalizeSplit ''submitted'' \<in> set log \<Longrightarrow> available_leaves example_wallet (example_split_world log) =
     (Inr [\<lparr>tn_id = ''c'', tn_value = 3, tn_data = ''tx''\<rparr>, \<lparr>tn_id = ''b'', tn_value = 5, tn_data = ''tx''\<rparr>], example_split_world (log @ [ListLeaves]))"
  by (simp_all add: run_statements run_handlers run_data example_split_world_def)

lemma example_sync: "sync_wallet example_wallet (example_split_world log) = (Inr (), example_split_world (log @ [SyncWallet]))"
  by (simp add: run_statements example_split_world_def)

lemmas example_steps = example_execute example_recover example_available example_sync
lemmas binds = bind_action_def [THEN fun_cong] then_action_def [THEN fun_cong] ret_def [THEN fun_cong]

lemma example_exact: "ensure_exact_liquidity example_wallet 5 \<lparr>w_db = empty_db, w_calls = [SyncWallet, GetTransfer ''pay'']\<rparr> =
  (Inr (), example_split_world [SyncWallet, GetTransfer ''pay'', ListLeaves, DraftSplit ''id'' leaf_a [5, 3], PrepareSplit ''draft'' leaf_a,
     SubmitSplit ''id'' ''plan'', FinalizeSplit ''submitted'', SyncWallet, ListLeaves])"
  by (simp add: ensure_exact_liquidity_def liquidity_run binds example_steps example_plan select_receive_leaves_def if_run is_ok_def)


definition example_paid_log :: "wallet_call list" where
  "example_paid_log = [SyncWallet, GetTransfer ''pay'', ListLeaves, DraftSplit ''id'' leaf_a [5, 3], PrepareSplit ''draft'' leaf_a,
     SubmitSplit ''id'' ''plan'', FinalizeSplit ''submitted'', SyncWallet, ListLeaves, SendTransfer 5 ''owner'' ''pay'', StoreTopup False]"

lemma example_settled:
  "wallet_step example_wallet (SettleReceive ''owner'' ''hash'' 5) empty_world = (Inr (), example_split_world example_paid_log)"
proof -
  have start: "sync_wallet example_wallet empty_world = (Inr (), \<lparr>w_db = empty_db, w_calls = [SyncWallet]\<rparr>)"
      "receive_transfer_id example_wallet ''hash'' \<lparr>w_db = empty_db, w_calls = log\<rparr> = (Inr ''pay'', \<lparr>w_db = empty_db, w_calls = log\<rparr>)" for log
    by (simp_all add: run_statements run_handlers run_data empty_world_def empty_db_def)
  have find: "find_transfer example_wallet ''pay'' \<lparr>w_db = empty_db, w_calls = [SyncWallet]\<rparr> =
      (Inr None, \<lparr>w_db = empty_db, w_calls = [SyncWallet, GetTransfer ''pay'']\<rparr>)"
    by (simp add: run_statements made_under_def)
  show ?thesis
    by (simp add: settle_lightning_receive_def void_def binds start find lift_result_def example_exact example_paid_log_def
        or_topup_def handle_def ask_def store_topup_def example_split_world_def validate_transfer_def example_transfer_def)
qed

lemma example_world_simps [simp]: "w_calls (example_split_world log) = log"
    "example_split_world log\<lparr>w_calls := log'\<rparr> = example_split_world log'"
  by (simp_all add: example_split_world_def)

definition example_swap_log :: "wallet_call list" where
  "example_swap_log = example_paid_log @ [GetTransfer ''primary'', GetTransfer ''primary'', GetTransfer ''id'', SyncWallet, ListLeaves]"

lemma example_submitted: "FinalizeSplit ''submitted'' \<in> set (example_paid_log @ log)" "FinalizeSplit ''submitted'' \<in> set example_swap_log"
  by (simp_all add: example_paid_log_def example_swap_log_def)

lemma example_selected: "is_ok (p_select example_wallet [\<lparr>tn_id = ''c'', tn_value = 3, tn_data = ''tx''\<rparr>,
    \<lparr>tn_id = ''b'', tn_value = 5, tn_data = ''tx''\<rparr>] [5, 3])"
  by simp

lemma example_find:
  "find_transfer example_wallet i (example_split_world log) = (a_get example_wallet log i, example_split_world (log @ [GetTransfer i]))"
  by (simp add: find_transfer_def ask_def)

lemma example_wait: "wait_for_transfer example_wallet ''primary'' (example_split_world log) =
    (Inr (example_transfer ''primary'' ''owner'' ''ssp'' 8), example_split_world (log @ [GetTransfer ''primary'']))"
  by (simp add: wait_for_transfer_def loops_run binds poll_round_def handle_def reading_def example_find)

lemma example_counter: "create_counter_transfer example_wallet ''primary'' ''owner'' ''adaptor'' [5] 8 5 ''id''
      (example_split_world (example_paid_log @ [GetTransfer ''primary'', GetTransfer ''primary'', GetTransfer ''id''])) =
    (Inr (example_transfer ''id'' ''ssp'' ''owner'' 8),
     example_split_world (example_swap_log @ [CounterTransfer [5, 3] ''owner'' ''primary'' ''adaptor'' ''id'']))"
  using liquidity_run(2) [OF example_selected example_available(2) [OF example_submitted(1)]]
  by (simp add: create_counter_transfer_def Let_def ensure_denominated_liquidity_def binds example_steps lift_result_def or_topup_def
      handle_def ask_def example_swap_log_def)

lemma example_fill: "\<exists>fill. fill_swap example_wallet ''owner'' ''primary'' ''adaptor'' [5] 8 8 (example_split_world example_paid_log) =
   (Inr fill, example_split_world (example_swap_log @ [CounterTransfer [5, 3] ''owner'' ''primary'' ''adaptor'' ''id'', StoreTopup False]))"
proof -
  have unmade: "a_get example_wallet (example_paid_log @ [GetTransfer ''primary'', GetTransfer ''primary'']) ''id'' = Inr None"
    by (simp add: made_under_def example_paid_log_def)
  have leaves: "\<exists>j. collect_leaves example_wallet [(''leaf'', ''raw'')] = Inr [j]"
    by (simp add: swap_leaf_response_def and_then_def)
  show ?thesis
    using leaves unmade
    by (auto simp: fill_swap_def swap_targets_def checked_add_def binds lift_result_def example_wait example_find example_counter
        validate_transfer_def validate_swap_primary_claimable_def example_transfer_def example_ids store_topup_def ask_def Let_def
        simp del: collect_leaves.simps)
qed

lemma example_wallet_run: "wallet_run example_wallet example_wallet_ops empty_world = example_split_world
   (example_swap_log @ [CounterTransfer [5, 3] ''owner'' ''primary'' ''adaptor'' ''id'', StoreTopup False])"
  using example_fill by (auto simp: example_wallet_ops_def example_settled void_def binds simp del: wallet_step.simps(5))

abbreviation (input) example_end :: wallet_world where
  "example_end \<equiv> wallet_run example_wallet example_wallet_ops empty_world"

lemma split_submitted_one_plan_witness:
  "\<exists>r\<in>set (split_operations (w_db example_end)). sp_operation_id r = ''id'' \<and> SSubmitting \<le> sp_status r"
proof -
  have "SubmitSplit ''id'' ''plan'' \<in> set (w_calls example_end)"
    by (simp add: example_wallet_run example_swap_log_def example_paid_log_def)
  from split_submitted_one_plan [OF this this] show ?thesis by blast
qed

lemma split_loop_ends_witness:
  "\<exists>operation. sp_operation_id operation = ''id'' \<and> split_loop example_wallet None operation example_end =
     Some (split_rounds 5 example_wallet None operation example_end)"
proof -
  have "\<exists>operation. sp_operation_id operation = ''id'' \<and> spark_split_for_parent ''a'' (w_db example_end) =
      (Inr (Some operation), w_db example_end)"
    unfolding example_wallet_run
    by (simp add: spark_split_for_parent_def optional_spark_split_def query_optional_def binds example_split_world_def split_operation.defs)
  then show ?thesis using split_loop_ends by blast
qed

lemma example_truthful: "operators_truthful example_wallet made_under"
  by (auto simp: operators_truthful_def made_under_def split: if_splits)

lemma example_asked_counter:
  "asked_before (w_calls example_end) (CounterTransfer [5, 3] ''owner'' ''primary'' ''adaptor'' ''id'') example_swap_log"
  by (simp add: example_wallet_run asked_before_def)

lemma payment_not_repeated_witness:
  "\<not> made_under example_swap_log ''id'' \<and> made_under (example_swap_log @ [CounterTransfer [5, 3] ''owner'' ''primary'' ''adaptor'' ''id'']) ''id''"
  using payment_not_repeated [OF example_truthful example_asked_counter, where i = "''id''"] by (auto simp: made_under_def)

lemma swap_conserves_value_witness:
  "\<exists>before t. asked_before example_swap_log (GetTransfer ''primary'') before \<and> a_get example_wallet before ''primary'' = Inr (Some t) \<and>
    wt_sender t = ''owner'' \<and> wt_status t \<notin> {Expired, Returned} \<and> unat (5 :: u64) + unat (3 :: u64) = unat (wt_total t)"
  using swap_conserves_value [OF example_asked_counter] by (simp del: example_wallet_env) blast

lemma slept_append: "slept (a @ b) = slept a + slept b"
  by (induction a rule: slept.induct) simp_all

lemma slept_nonneg: "0 \<le> slept log"
  by (induction log rule: slept.induct) simp_all

lemma example_clock: "clock_runs example_wallet"
  using slept_nonneg by (simp add: clock_runs_def slept_append)

lemma waiting_ends_witness:
  "poll_loop example_wallet (find_transfer example_wallet ''x'') ''outbound swap transfer was not found for the SSP'' 15000 empty_world =
    Some (wait_for_transfer example_wallet ''x'' empty_world)"
  using waiting_ends [OF example_clock, of "''x''" empty_world] by (simp add: empty_world_def)

end
