(* ===== verification/Quotes.thy ===== *)
theory Quotes
  imports Schema Sql
begin

text \<open>
  Zero-fee receive quotes (src/src/quotes.rs): a quote is issued as a signed transfer manifest
  whose exact bytes are kept, and validated when a receive commits to it: the stored bytes must
  come back, live and under the same owner, with the owner's own signature over the payment
  hash. The protobuf codec, the digests and the signatures belong to the Spark libraries and
  are the record \<open>quote_lib\<close>. The section on limits shows that no wallet holds more than a
  hundred quotes, the section on attestations what an accepted quote binds.
\<close>

section \<open>Manifests\<close>

datatype spark_network = Regtest | Mainnet | Testnet | Signet

text \<open>The protobuf amounts: satoshis, or a kind this service never issues (its encoded bytes).\<close>

datatype manifest_amount = Sats u64 | OtherAmount "8 word list"

record manifest_edge =
  me_sender :: "8 word list"
  me_receiver :: "8 word list"
  me_amount :: "manifest_amount option option"

record transfer_manifest =
  tm_version :: u32
  tm_transfer_id :: string
  tm_network :: int
  tm_transfer_expiry :: "(int \<times> int) option"
  tm_edges :: "manifest_edge list"
  tm_fees :: "8 word list list"
  tm_quote_expiry :: "(int \<times> int) option"

record quote_lib =
  ql_public_key :: "string \<Rightarrow> 8 word list option"
  ql_network :: "spark_network \<Rightarrow> int"
  ql_encode :: "transfer_manifest \<Rightarrow> 8 word list"
  ql_decode :: "8 word list \<Rightarrow> transfer_manifest option"
  ql_manifest_hash :: "8 word list \<Rightarrow> 8 word list result"
  ql_envelope :: "u32 \<Rightarrow> 8 word list \<Rightarrow> u32 \<Rightarrow> u32 \<Rightarrow> 8 word list \<Rightarrow> 8 word list result"
  ql_attestor_target :: "8 word list \<Rightarrow> 8 word list result"
  ql_sign :: "8 word list \<Rightarrow> string"
  ql_hex_encode :: "8 word list \<Rightarrow> string"
  ql_hex_decode :: "string \<Rightarrow> 8 word list option"
  ql_der :: "8 word list \<Rightarrow> 8 word list option"
  ql_normalize :: "8 word list \<Rightarrow> 8 word list"
  ql_verify :: "8 word list \<Rightarrow> 8 word list \<Rightarrow> 8 word list \<Rightarrow> bool"
  ql_identity :: string

definition quote_network :: "string \<Rightarrow> spark_network result" where
  "quote_network name =
     (if name = ''REGTEST'' \<or> name = ''LOCAL'' then Inr Regtest
      else if name = ''MAINNET'' then Inr Mainnet
      else if name = ''TESTNET'' then Inr Testnet
      else if name = ''SIGNET'' then Inr Signet
      else Inl (Failure ''invalid quote network''))"

text \<open>The envelope of version 1 in a role: 1 for the issuer, 2 for the attestor.\<close>

definition quote_digest :: "quote_lib \<Rightarrow> 8 word list \<Rightarrow> int \<Rightarrow> u32 \<Rightarrow> 8 word list \<Rightarrow> 8 word list result" where
  "quote_digest lib bs net role target =
     and_then (ql_manifest_hash lib bs) (\<lambda>hash.
     and_then (ql_envelope lib (word_of_int net) hash 1 role target) (\<lambda>d.
     if length d = 32 then Inr d else Inl (Failure ''invalid quote digest'')))"

definition attribution_status :: "bool \<Rightarrow> string" where
  "attribution_status has_partner_jwt =
     (if has_partner_jwt then ''PARTNER_ATTRIBUTION_UNSUPPORTED'' else ''NO_PARTNER_JWT'')"

section \<open>Issuing\<close>

definition max_live_quotes :: nat where "max_live_quotes = 100"

text \<open>The transaction: expired quotes of everyone go first, then the owner's live ones are counted.\<close>

definition save_receive_quote :: "int \<Rightarrow> receive_quote_row \<Rightarrow> (db, unit) action" where
  "save_receive_quote now row = transaction
     (then_action (delete_where receive_quotes_t (\<lambda>q. rqt_expires_at q \<le> now))
      (bind_action (query_count receive_quotes_t (\<lambda>q. rqt_owner q = rqt_owner row)) (\<lambda>count.
       if count \<ge> max_live_quotes then throw (Failure ''receive quote limit reached'')
       else insert_into ''receive_quotes'' receive_quotes_t receive_quote_clash (\<lambda>_. True) row)))"

definition quote_manifest :: "quote_lib \<Rightarrow> string \<Rightarrow> int \<Rightarrow> 8 word list \<Rightarrow> 8 word list \<Rightarrow> u64 \<Rightarrow> int \<Rightarrow> transfer_manifest" where
  "quote_manifest lib i net sender receiver amount now =
     \<lparr>tm_version = 1, tm_transfer_id = i, tm_network = net, tm_transfer_expiry = None,
      tm_edges = [\<lparr>me_sender = sender, me_receiver = receiver, me_amount = Some (Some (Sats amount))\<rparr>],
      tm_fees = [], tm_quote_expiry = Some (now + 300, 0)\<rparr>"

text \<open>\<open>now1\<close> and \<open>now2\<close> are the two readings of the clock, \<open>i\<close> the fresh transfer id.\<close>

definition issue_quote ::
  "quote_lib \<Rightarrow> string \<Rightarrow> string \<Rightarrow> int \<Rightarrow> int \<Rightarrow> string \<Rightarrow> u64 \<Rightarrow> json \<Rightarrow> bool \<Rightarrow> (db, json) action" where
  "issue_quote lib network i now1 now2 owner amount input has_partner_jwt =
     (let named = (case as_str (jfield input ''receiver_identity_pubkey'') of None \<Rightarrow> owner | Some r \<Rightarrow> r) in
      bind_action (lift_result (ok_or (ql_public_key lib named) (Failure ''invalid quote receiver''))) (\<lambda>receiver.
      bind_action (lift_result (ok_or (ql_public_key lib (ql_identity lib)) (Failure ''invalid SSP identity''))) (\<lambda>sender.
      bind_action (lift_result (quote_network network)) (\<lambda>net.
      let manifest = quote_manifest lib i (ql_network lib net) sender receiver amount now1;
          bs = ql_encode lib manifest in
      bind_action (lift_result (quote_digest lib bs (tm_network manifest) 1 [])) (\<lambda>d.
      then_action (save_receive_quote now2
          \<lparr>rqt_id = i, rqt_owner = owner, rqt_manifest = bs, rqt_expires_at = now1 + 300\<rparr>)
        (ret (JObj [(''issued_quote'', JObj [(''serialized_manifest'', JStr (ql_hex_encode lib bs)),
              (''issuer_signature'', JStr (ql_sign lib d))]),
           (''attribution_status'', JStr (attribution_status has_partner_jwt))])))))))"

section \<open>Validation\<close>

definition signature_of :: "quote_lib \<Rightarrow> json \<Rightarrow> 8 word list result" where
  "signature_of lib quote =
     and_then (ok_or (as_str (jfield quote ''attestor_signature'')) (Failure ''attestor_signature required'')) (\<lambda>text.
     and_then (ok_or (ql_hex_decode lib text) (Failure ''invalid signature hex'')) (\<lambda>der.
     ok_or (ql_der lib der) (Failure ''invalid DER signature'')))"

definition verify_attestation ::
  "quote_lib \<Rightarrow> transfer_manifest \<Rightarrow> 8 word list \<Rightarrow> string \<Rightarrow> string \<Rightarrow> string \<Rightarrow> u64 \<Rightarrow> string \<Rightarrow> json \<Rightarrow> unit result" where
  "verify_attestation lib manifest bs owner receiver hash amount network quote =
     and_then (quote_network network) (\<lambda>net.
     if tm_network manifest \<noteq> ql_network lib net \<or> tm_fees manifest \<noteq> [] \<or> length (tm_edges manifest) \<noteq> 1
     then Inl (Failure ''unsupported receive quote'')
     else let edge = hd (tm_edges manifest) in
       and_then (ok_or (ql_public_key lib receiver) (Failure ''invalid receiver'')) (\<lambda>receiver_key.
       if me_receiver edge \<noteq> receiver_key \<or> Option.bind (me_amount edge) id \<noteq> Some (Sats amount)
       then Inl (Failure ''receive amount or receiver differs from quote'')
       else and_then (ok_or (ql_public_key lib owner) (Failure ''invalid attestor'')) (\<lambda>attestor.
         and_then (ok_or (ql_hex_decode lib hash) (Failure ''invalid payment hash'')) (\<lambda>hash_bytes.
         and_then (ql_attestor_target lib hash_bytes) (\<lambda>target.
         and_then (quote_digest lib bs (tm_network manifest) 2 target) (\<lambda>d.
         and_then (signature_of lib quote) (\<lambda>sig.
         if ql_normalize lib sig \<noteq> sig then Inl (Failure ''noncanonical quote signature'')
         else if ql_verify lib d sig attestor then Inr ()
         else Inl (Failure ''invalid quote attestation''))))))))"

text \<open>A committed quote must be one of the owner's live ones, byte for byte.\<close>

definition validate_quote ::
  "quote_lib \<Rightarrow> string \<Rightarrow> int \<Rightarrow> string \<Rightarrow> string \<Rightarrow> string \<Rightarrow> u64 \<Rightarrow> json \<Rightarrow> (db, string option) action" where
  "validate_quote lib network now owner receiver hash amount input =
     (case jget input ''committed_quote'' of
        None \<Rightarrow> ret None
      | Some quote \<Rightarrow> if quote = JNull then ret None else
          bind_action (lift_result (ok_or
             (case as_str (jfield quote ''serialized_manifest'') of
                Some v \<Rightarrow> if length v \<le> 16384 then Some v else None | None \<Rightarrow> None)
             (Failure ''invalid receive manifest''))) (\<lambda>encoded.
          bind_action (lift_result (ok_or (ql_hex_decode lib encoded) (Failure ''invalid manifest hex''))) (\<lambda>bs.
          bind_action (lift_result (ok_or (ql_decode lib bs) (Failure ''invalid protobuf manifest''))) (\<lambda>manifest.
          bind_action (query_exists receive_quotes_t (\<lambda>q. rqt_id q = tm_transfer_id manifest \<and> rqt_owner q = owner \<and>
              rqt_manifest q = bs \<and> rqt_expires_at q > now)) (\<lambda>stored.
          if \<not> stored then throw (Failure ''receive quote is unknown, expired, or belongs to another wallet'')
          else then_action (lift_result (verify_attestation lib manifest bs owner receiver hash amount network quote))
            (ret (Some (tm_transfer_id manifest))))))))"

section \<open>Limits\<close>

definition live_quotes :: "db \<Rightarrow> string \<Rightarrow> nat" where
  "live_quotes d owner = length (filter (\<lambda>q. rqt_owner q = owner) (receive_quotes d))"

lemma filter_filter_length: "length (filter p (filter q xs)) \<le> length (filter p xs)"
  by (induction xs) auto

lemma save_receive_quote_bounded:
  assumes "live_quotes d owner \<le> max_live_quotes"
  shows "live_quotes (snd (save_receive_quote now row d)) owner \<le> max_live_quotes"
  using assms filter_filter_length [of "\<lambda>q. rqt_owner q = owner" "\<lambda>q. \<not> rqt_expires_at q \<le> now" "receive_quotes d"]
  by (auto simp: save_receive_quote_def live_quotes_def transaction_def then_action_def bind_action_def
      delete_where_def query_count_def insert_into_def throw_def max_live_quotes_def table_defs)


text \<open>Issuing keeps every wallet within a hundred stored receive quotes, whatever the
  outcome of the request: expired quotes are deleted before the wallet's remaining ones are
  counted, and a request over the limit stores nothing.\<close>

theorem issue_quote_bounded:
  assumes "live_quotes d o' \<le> max_live_quotes"
  shows "live_quotes (snd (issue_quote lib network i now1 now2 owner amount input jwt d)) o' \<le> max_live_quotes"
  using save_receive_quote_bounded [OF assms] assms
  by (auto simp: issue_quote_def Let_def bind_action_def then_action_def lift_result_def ret_def
      split: sum.split prod.split) (metis snd_conv)+

section \<open>Attestations\<close>

text \<open>What an owner's signature over a quote commits to.\<close>

definition attested ::
  "quote_lib \<Rightarrow> 8 word list \<Rightarrow> string \<Rightarrow> string \<Rightarrow> string \<Rightarrow> u64 \<Rightarrow> string \<Rightarrow> bool" where
  "attested lib bs owner receiver hash amount network \<longleftrightarrow>
     (\<exists>manifest net edge attestor hash_bytes target d sig.
        ql_decode lib bs = Some manifest \<and> quote_network network = Inr net \<and> tm_network manifest = ql_network lib net \<and>
        tm_fees manifest = [] \<and> tm_edges manifest = [edge] \<and> ql_public_key lib receiver = Some (me_receiver edge) \<and>
        me_amount edge = Some (Some (Sats amount)) \<and> ql_public_key lib owner = Some attestor \<and>
        ql_hex_decode lib hash = Some hash_bytes \<and> ql_attestor_target lib hash_bytes = Inr target \<and>
        quote_digest lib bs (tm_network manifest) 2 target = Inr d \<and>
        ql_normalize lib sig = sig \<and> ql_verify lib d sig attestor)"

lemma verify_attestation_Inr:
  assumes "verify_attestation lib manifest bs owner receiver hash amount network quote = Inr u"
    "ql_decode lib bs = Some manifest"
  shows "attested lib bs owner receiver hash amount network"
proof -
  obtain net where net: "quote_network network = Inr net"
    using assms(1) by (auto simp: verify_attestation_def and_then_Inr)
  then have "tm_network manifest = ql_network lib net" "tm_fees manifest = []" "length (tm_edges manifest) = 1"
    using assms(1) by (auto simp: verify_attestation_def and_then_Inr split: if_splits)
  moreover from this obtain edge where "tm_edges manifest = [edge]"
    by (auto simp: length_Suc_conv)
  ultimately show ?thesis
    using assms net
    by (auto simp: verify_attestation_def attested_def and_then_Inr Let_def bind_eq_Some_conv split: if_splits)
qed

text \<open>C27. A receive that commits to a quote is accepted only for one of the wallet's own live
  quotes, unchanged to the byte, whose single fee-free edge names the service's network, the
  requested receiver and the requested amount, under a canonical signature of the wallet over
  those bytes and the payment hash; validation changes nothing.\<close>

theorem committed_quote_bound:
  assumes "validate_quote lib network now owner receiver hash amount input d = (Inr (Some i), d')"
  shows "d' = d \<and> (\<exists>q. q \<in> set (receive_quotes d) \<and> rqt_id q = i \<and> rqt_owner q = owner \<and> rqt_expires_at q > now \<and>
    attested lib (rqt_manifest q) owner receiver hash amount network)"
proof -
  obtain quote where q: "jget input ''committed_quote'' = Some quote" "quote \<noteq> JNull"
    using assms by (auto simp: validate_quote_def action_Inr split: option.splits if_splits)
  obtain bs manifest q u where
    d: "d' = d" and m: "ql_decode lib bs = Some manifest" "tm_transfer_id manifest = i"
    and r: "q \<in> set (receive_quotes d)" "rqt_id q = tm_transfer_id manifest" "rqt_owner q = owner"
      "rqt_manifest q = bs" "rqt_expires_at q > now"
    and v: "verify_attestation lib manifest bs owner receiver hash amount network quote = Inr u"
    using assms q
    by (auto simp: validate_quote_def query_exists_def table_defs list_ex_iff action_Inr elim!: bind_InrE then_InrE split: if_splits)
  show ?thesis
    using d m r verify_attestation_Inr [OF v m(1)] by auto
qed


section \<open>Round trip\<close>

definition named_receiver :: "string \<Rightarrow> json \<Rightarrow> string" where
  "named_receiver owner input = (case as_str (jfield input ''receiver_identity_pubkey'') of None \<Rightarrow> owner | Some r \<Rightarrow> r)"

lemma issue_quote_Inr:
  assumes "issue_quote lib network i now1 now2 owner amount input jwt d = (Inr r, d')"
  obtains net sender rkey dg where "quote_network network = Inr net"
    "ql_public_key lib (named_receiver owner input) = Some rkey"
    "jfield (jfield r ''issued_quote'') ''serialized_manifest'' =
       JStr (ql_hex_encode lib (ql_encode lib (quote_manifest lib i (ql_network lib net) sender rkey amount now1)))"
    "\<lparr>rqt_id = i, rqt_owner = owner, rqt_manifest = ql_encode lib (quote_manifest lib i (ql_network lib net) sender rkey amount now1),
       rqt_expires_at = now1 + 300\<rparr> \<in> set (receive_quotes d')"
    "ql_public_key lib (ql_identity lib) = Some sender"
  using assms
  by (auto simp: issue_quote_def named_receiver_def Let_def save_receive_quote_def insert_into_def table_defs action_Inr
      elim!: bind_InrE then_InrE split: if_splits)

text \<open>C28. The manifest a wallet is sent comes back: committed before it expires, with the
  wallet's canonical signature over its bytes and a payment hash, it is accepted for exactly
  the amount and the receiver key it was issued for and refused for all others.\<close>

theorem issued_quote_accepted:
  assumes issue: "issue_quote lib network i now1 now2 owner amount input jwt d = (Inr r, d1)"
    and keys: "quote_network network = Inr net" "ql_public_key lib (ql_identity lib) = Some sender"
      "ql_public_key lib (named_receiver owner input) = Some rkey"
      "m = quote_manifest lib i (ql_network lib net) sender rkey amount now1"
    and codec: "ql_decode lib (ql_encode lib m) = Some m"
      "ql_hex_decode lib (ql_hex_encode lib (ql_encode lib m)) = Some (ql_encode lib m)"
      "length (ql_hex_encode lib (ql_encode lib m)) \<le> 16384"
    and commit: "jget commitment ''committed_quote'' = Some quote"
      "jfield quote ''serialized_manifest'' = jfield (jfield r ''issued_quote'') ''serialized_manifest''" "now < now1 + 300"
    and attest: "ql_public_key lib owner = Some attestor" "ql_hex_decode lib hash = Some hash_bytes"
      "ql_attestor_target lib hash_bytes = Inr target" "quote_digest lib (ql_encode lib m) (tm_network m) 2 target = Inr dg"
      "signature_of lib quote = Inr sig" "ql_normalize lib sig = sig" "ql_verify lib dg sig attestor"
  shows "fst (validate_quote lib network now owner receiver hash amount' commitment d1) = Inr (Some i) \<longleftrightarrow>
    amount' = amount \<and> ql_public_key lib receiver = ql_public_key lib (named_receiver owner input)"
proof -
  let ?row = "\<lparr>rqt_id = i, rqt_owner = owner, rqt_manifest = ql_encode lib m, rqt_expires_at = now1 + 300\<rparr>"
  have issued: "jfield (jfield r ''issued_quote'') ''serialized_manifest'' = JStr (ql_hex_encode lib (ql_encode lib m))"
      "?row \<in> set (receive_quotes d1)"
    using issue_quote_Inr [OF issue] keys by (metis Inr_inject option.inject)+
  have m: "tm_transfer_id m = i" "tm_network m = ql_network lib net" "tm_fees m = []"
      "tm_edges m = [\<lparr>me_sender = sender, me_receiver = rkey, me_amount = Some (Some (Sats amount))\<rparr>]"
    using keys(4) by (simp_all add: quote_manifest_def)
  have q: "quote \<noteq> JNull" using commit(2) issued(1) by auto
  have stored: "list_ex (\<lambda>q. rqt_id q = i \<and> rqt_owner q = owner \<and> rqt_manifest q = ql_encode lib m \<and> now < rqt_expires_at q)
      (receive_quotes d1)"
    unfolding list_ex_iff by (rule bexI [OF _ issued(2)]) (use commit(3) in simp)
  have v: "validate_quote lib network now owner receiver hash amount' commitment d1 =
      (case verify_attestation lib m (ql_encode lib m) owner receiver hash amount' network quote of
         Inl e \<Rightarrow> Inl e | Inr u \<Rightarrow> Inr (Some i), d1)"
    using commit q issued(1) codec m(1) stored
    by (simp add: validate_quote_def action_defs query_exists_def table_defs split: sum.split)
  have "verify_attestation lib m (ql_encode lib m) owner receiver hash amount' network quote =
      (case ql_public_key lib receiver of None \<Rightarrow> Inl (Failure ''invalid receiver'')
       | Some k \<Rightarrow> if rkey \<noteq> k \<or> amount \<noteq> amount' then Inl (Failure ''receive amount or receiver differs from quote'')
           else Inr ())"
    using keys(1) m attest by (simp add: verify_attestation_def and_then_def split: option.split)
  then show ?thesis using v keys(3) by (auto split: option.splits if_splits)
qed


section \<open>Examples\<close>

definition example_manifest :: transfer_manifest where
  "example_manifest = \<lparr>tm_version = 1, tm_transfer_id = ''t1'', tm_network = 2, tm_transfer_expiry = None,
     tm_edges = [\<lparr>me_sender = [1], me_receiver = [2], me_amount = Some (Some (Sats 1234))\<rparr>],
     tm_fees = [], tm_quote_expiry = Some (1300, 0)\<rparr>"

definition example_quote_lib :: quote_lib where
  "example_quote_lib = \<lparr>ql_public_key = (\<lambda>s. if s = ''ssp'' then Some [1] else if s = ''alice'' then Some [2] else None),
     ql_network = (\<lambda>n. case n of Mainnet \<Rightarrow> 1 | Regtest \<Rightarrow> 2 | Testnet \<Rightarrow> 3 | Signet \<Rightarrow> 4),
     ql_encode = (\<lambda>m. [10, 20]), ql_decode = (\<lambda>bs. if bs = [10, 20] then Some example_manifest else None),
     ql_manifest_hash = Inr, ql_envelope = (\<lambda>net hash version role target. Inr (replicate 31 0 @ [ucast role])),
     ql_attestor_target = Inr, ql_sign = (\<lambda>d. ''issuer''),
     ql_hex_encode = (\<lambda>bs. ''0a14''), ql_hex_decode = (\<lambda>s. if s = ''0a14'' then Some [10, 20] else Some [7]),
     ql_der = Some, ql_normalize = id, ql_verify = (\<lambda>d sig key. last d = 2 \<and> sig = [7] \<and> key = [2]),
     ql_identity = ''ssp''\<rparr>"

definition example_commitment :: json where
  "example_commitment = JObj [(''committed_quote'', JObj [(''serialized_manifest'', JStr ''0a14''),
     (''attestor_signature'', JStr ''07'')])]"

definition example_issued :: "(db, json) action" where
  "example_issued = issue_quote example_quote_lib ''REGTEST'' ''t1'' 1000 1000 ''alice'' 1234 JNull False"

lemmas quote_example_defs = example_quote_lib_def example_commitment_def example_manifest_def

lemma example_saved:
  "save_receive_quote 1000 r empty_db = (Inr (), empty_db\<lparr>receive_quotes := [r]\<rparr>)"
proof -
  have "receive_quotes empty_db = []" by (simp add: empty_db_def)
  then show ?thesis
    by (simp add: save_receive_quote_def transaction_def action_defs statement_defs max_live_quotes_def table_defs)
qed

lemma example_issued_run:
  "example_issued empty_db = (Inr (JObj [(''issued_quote'', JObj [(''serialized_manifest'', JStr ''0a14''),
      (''issuer_signature'', JStr ''issuer'')]), (''attribution_status'', JStr ''NO_PARTNER_JWT'')]),
     empty_db\<lparr>receive_quotes := [\<lparr>rqt_id = ''t1'', rqt_owner = ''alice'', rqt_manifest = [10, 20], rqt_expires_at = 1300\<rparr>]\<rparr>)"
  by (simp add: example_issued_def quote_example_defs issue_quote_def quote_network_def quote_digest_def and_then_def action_defs
      quote_manifest_def example_saved attribution_status_def)

lemma example_manifest_issued:
  "example_manifest = quote_manifest example_quote_lib ''t1'' (ql_network example_quote_lib Regtest) [1] [2] 1234 1000"
  by (simp add: example_manifest_def quote_manifest_def example_quote_lib_def)

theorem issue_quote_bounded_witness:
  "live_quotes (snd (issue_quote example_quote_lib ''REGTEST'' ''t1'' 1000 1000 ''alice'' 1234 JNull False empty_db)) ''alice''
     \<le> max_live_quotes"
  by (rule issue_quote_bounded) (simp add: live_quotes_def empty_db_def)

theorem issued_quote_accepted_witness:
  "fst (validate_quote example_quote_lib ''REGTEST'' 1100 ''alice'' ''alice'' ''hash'' 1234 example_commitment
     (snd (example_issued empty_db))) = Inr (Some ''t1'')"
  using issued_quote_accepted [OF example_issued_run [unfolded example_issued_def],
      of Regtest "[1]" "[2]" example_manifest example_commitment
        "JObj [(''serialized_manifest'', JStr ''0a14''), (''attestor_signature'', JStr ''07'')]" 1100 "[2]" "''hash''" "[7]" "[7]"
        "replicate 31 0 @ [2]" "[7]" "''alice''" 1234]
    example_manifest_issued
  by (simp add: example_issued_run quote_network_def named_receiver_def example_quote_lib_def example_commitment_def
      quote_digest_def and_then_def signature_of_def)

theorem committed_quote_bound_witness:
  "\<exists>q. q \<in> set (receive_quotes (snd (example_issued empty_db))) \<and> rqt_id q = ''t1'' \<and> rqt_owner q = ''alice'' \<and>
     rqt_expires_at q > 1100 \<and> attested example_quote_lib (rqt_manifest q) ''alice'' ''alice'' ''hash'' 1234 ''REGTEST''"
proof -
  have "validate_quote example_quote_lib ''REGTEST'' 1100 ''alice'' ''alice'' ''hash'' 1234 example_commitment
      (snd (example_issued empty_db)) = (Inr (Some ''t1''), snd (example_issued empty_db))"
    by (simp add: example_issued_run validate_quote_def verify_attestation_def quote_example_defs quote_network_def
        quote_digest_def and_then_def signature_of_def action_defs query_exists_def table_defs)
  from committed_quote_bound [OF this] show ?thesis by blast
qed

end
