(* ===== verification/Service_World.thy ===== *)
theory Service_World
  imports Settlement Coop_Exit Instant_Deposits Webhooks Spark_Wallet Quotes Auth
begin

text \<open>
  The world of the whole service: one database, and one log of the calls all its parts make.
  A part was modelled in a world of its own calls; \<open>within\<close> runs it here, showing it the calls
  of its own kind. The locale \<open>call_part\<close> says what such an embedding needs and proves what
  every part gains from it: its own view of the service's world is exactly the world it was
  modelled in, and the other parts' views keep their calls. It is interpreted for the five
  parts with calls; the API adds the calls it makes itself.
\<close>

section \<open>All calls\<close>

datatype api_call =
    LightningCall Settlement.call
  | ExitCall exit_call
  | DepositCall deposit_call
  | WebhookCall webhook_call
  | WalletCall wallet_call
  | CreateInvoice u64 string "string option" u32
  | CreateOffer u64 string u32
  | CheckSend string string "u64 option"
  | NewDepositAddress
  | ClaimDeposit string u32

type_synonym api_world = "api_call log_world"

definition lightning_part :: "api_call \<Rightarrow> Settlement.call option" where
  "lightning_part c = (case c of LightningCall x \<Rightarrow> Some x | _ \<Rightarrow> None)"
definition exit_part :: "api_call \<Rightarrow> exit_call option" where
  "exit_part c = (case c of ExitCall x \<Rightarrow> Some x | _ \<Rightarrow> None)"
definition deposit_part :: "api_call \<Rightarrow> deposit_call option" where
  "deposit_part c = (case c of DepositCall x \<Rightarrow> Some x | _ \<Rightarrow> None)"
definition webhook_part :: "api_call \<Rightarrow> webhook_call option" where
  "webhook_part c = (case c of WebhookCall x \<Rightarrow> Some x | _ \<Rightarrow> None)"
definition wallet_part :: "api_call \<Rightarrow> wallet_call option" where
  "wallet_part c = (case c of WalletCall x \<Rightarrow> Some x | _ \<Rightarrow> None)"

section \<open>Running a part\<close>

definition part_view :: "('d \<Rightarrow> 'c option) \<Rightarrow> 'd log_world \<Rightarrow> 'c log_world" where
  "part_view pick w = \<lparr>w_db = w_db w, w_calls = List.map_filter pick (w_calls w)\<rparr>"

definition within :: "('c \<Rightarrow> 'd) \<Rightarrow> ('d \<Rightarrow> 'c option) \<Rightarrow> ('c log_world, 'a) action \<Rightarrow> ('d log_world, 'a) action" where
  "within put pick m = (\<lambda>w. case m (part_view pick w) of (r, v) \<Rightarrow>
     (r, \<lparr>w_db = w_db v, w_calls = w_calls w @ map put (drop (length (w_calls (part_view pick w))) (w_calls v))\<rparr>))"

definition in_lightning :: "(Settlement.world, 'a) action \<Rightarrow> (api_world, 'a) action" where
  "in_lightning = within LightningCall lightning_part"
definition in_exit :: "(exit_world, 'a) action \<Rightarrow> (api_world, 'a) action" where
  "in_exit = within ExitCall exit_part"
definition in_deposit :: "(deposit_world, 'a) action \<Rightarrow> (api_world, 'a) action" where
  "in_deposit = within DepositCall deposit_part"
definition in_webhook :: "(webhook_world, 'a) action \<Rightarrow> (api_world, 'a) action" where
  "in_webhook = within WebhookCall webhook_part"
definition in_wallet :: "(wallet_world, 'a) action \<Rightarrow> (api_world, 'a) action" where
  "in_wallet = within WalletCall wallet_part"

lemmas part_defs = lightning_part_def exit_part_def deposit_part_def webhook_part_def wallet_part_def
lemmas in_part_defs = in_lightning_def in_exit_def in_deposit_def in_webhook_def in_wallet_def

section \<open>What an embedding gives\<close>

lemma map_filter_append: "List.map_filter f (xs @ ys) = List.map_filter f xs @ List.map_filter f ys"
  by (simp add: List.map_filter_def)

locale call_part =
  fixes put :: "'c \<Rightarrow> 'd"
    and pick :: "'d \<Rightarrow> 'c option"
  assumes pick_put: "pick (put c) = Some c"
    and put_pick: "pick d = Some c \<Longrightarrow> d = put c"
begin

lemma pick_map: "List.map_filter pick (map put cs) = cs"
  by (induction cs) (simp_all add: pick_put map_filter_simps)

text \<open>A part that only appends calls finds its own log continued as if it were alone.\<close>

lemma view_within:
  assumes "obeys (calls_only (\<lambda>_. True)) m"
  shows "part_view pick (snd (within put pick m w)) = snd (m (part_view pick w))"
    "fst (within put pick m w) = fst (m (part_view pick w))"
proof -
  obtain r v where v: "m (part_view pick w) = (r, v)" by (cases "m (part_view pick w)")
  then obtain cs where cs: "w_calls v = w_calls (part_view pick w) @ cs"
    using assms by (auto simp: obeys_def calls_only_def dest: spec [of _ "part_view pick w"])
  have "List.map_filter pick (w_calls w) @ cs = w_calls v" using cs by (simp add: part_view_def)
  then show "part_view pick (snd (within put pick m w)) = snd (m (part_view pick w))"
    using v cs by (simp add: within_def) (simp add: part_view_def map_filter_append pick_map)
  show "fst (within put pick m w) = fst (m (part_view pick w))" using v by (simp add: within_def)
qed

text \<open>Calls of a part are calls of its kind.\<close>

lemma calls_within:
  assumes "obeys (calls_only P) m"
  shows "obeys (calls_only (\<lambda>d. \<exists>c. d = put c \<and> P c)) (within put pick m)"
  unfolding obeys_def
proof
  fix w
  obtain r v where v: "m (part_view pick w) = (r, v)" by (cases "m (part_view pick w)")
  then obtain cs where cs: "w_calls v = w_calls (part_view pick w) @ cs" "\<forall>c\<in>set cs. P c"
    using assms by (auto simp: obeys_def calls_only_def dest: spec [of _ "part_view pick w"])
  then show "calls_only (\<lambda>d. \<exists>c. d = put c \<and> P c) w (snd (within put pick m w))"
    using v by (auto simp: within_def calls_only_def)
qed

lemma within_cases:
  assumes "within put pick m w = (r, w')"
  obtains v where "m (part_view pick w) = (r, v)" "w_db w' = w_db v"
  using assms by (auto simp: within_def split: prod.splits)

end

interpretation lightning_calls: call_part LightningCall lightning_part
  by unfold_locales (auto simp: part_defs split: api_call.splits)

interpretation exit_calls: call_part ExitCall exit_part
  by unfold_locales (auto simp: part_defs split: api_call.splits)

interpretation deposit_calls: call_part DepositCall deposit_part
  by unfold_locales (auto simp: part_defs split: api_call.splits)

interpretation webhook_calls: call_part WebhookCall webhook_part
  by unfold_locales (auto simp: part_defs split: api_call.splits)

interpretation wallet_calls: call_part WalletCall wallet_part
  by unfold_locales (auto simp: part_defs split: api_call.splits)

text \<open>An action that leaves a part's world alone does so inside the service.\<close>

lemma within_unchanged:
  assumes "m (part_view pick w) = (r, part_view pick w)"
  shows "within put pick m w = (r, w)"
  using assms by (simp add: within_def) (simp add: part_view_def)

end
