(* ===== verification/Api_Values.thy ===== *)
theory Api_Values
  imports Prelude
begin

text \<open>
  The values of the GraphQL API (src/src/graphql.rs): reading the fields of a request's
  variables, the amount and network checks, the currency amounts of the responses, and the pass
  that copies a response's fields to the aliases its query asks for. Numbers reach the service
  as JSON numbers or as text and are read alike; the alias pass adds fields and changes none.
  Query text is a byte list: every character the scanner looks for is ASCII.
\<close>

section \<open>Decimal text\<close>

definition is_digit :: "char \<Rightarrow> bool" where
  "is_digit c \<longleftrightarrow> CHR ''0'' \<le> c \<and> c \<le> CHR ''9''"

definition digit_char :: "nat \<Rightarrow> char" where
  "digit_char n = char_of (48 + n)"

definition digit_value :: "char \<Rightarrow> nat" where
  "digit_value c = of_char c - 48"

fun decimal :: "nat \<Rightarrow> string" where
  "decimal n = (if n < 10 then [digit_char n] else decimal (n div 10) @ [digit_char (n mod 10)])"

declare decimal.simps [simp del]

definition int_text :: "int \<Rightarrow> string" where
  "int_text n = (if n < 0 then CHR ''-'' # decimal (nat (- n)) else decimal (nat n))"

definition digits_value :: "string \<Rightarrow> nat" where
  "digits_value ds = foldl (\<lambda>n c. 10 * n + digit_value c) 0 ds"

text \<open>\<open>str::parse::<u64>\<close>: an optional plus sign and at least one digit, within range.\<close>

definition parse_u64 :: "string \<Rightarrow> u64 option" where
  "parse_u64 s = (let ds = (case s of c # r \<Rightarrow> if c = CHR ''+'' then r else s | [] \<Rightarrow> s) in
     if ds = [] \<or> \<not> list_all is_digit ds then None
     else if digits_value ds < 2 ^ 64 then Some (word_of_nat (digits_value ds)) else None)"

section \<open>Request fields\<close>

definition str_of :: "json \<Rightarrow> string \<Rightarrow> string" where
  "str_of v k = (case jget v k of
     Some (JStr s) \<Rightarrow> s
   | Some (JInt n) \<Rightarrow> int_text n
   | Some (JFloat s) \<Rightarrow> s
   | Some (JBool b) \<Rightarrow> (if b then ''true'' else ''false'')
   | _ \<Rightarrow> '''')"

definition opt_num :: "json \<Rightarrow> string \<Rightarrow> u64 option" where
  "opt_num v k = Option.bind (jget v k) (\<lambda>x. case as_u64 x of
     Some n \<Rightarrow> Some n | None \<Rightarrow> Option.bind (as_str x) parse_u64)"

definition num_of :: "json \<Rightarrow> string \<Rightarrow> u64" where
  "num_of v k = (case opt_num v k of Some n \<Rightarrow> n | None \<Rightarrow> 0)"

definition json_list :: "json \<Rightarrow> json list option" where
  "json_list v = (case v of JArr xs \<Rightarrow> Some xs | _ \<Rightarrow> None)"

definition listed_ids :: "json \<Rightarrow> string \<Rightarrow> string list option" where
  "listed_ids v k = map_option (List.map_filter as_str) (Option.bind (jget v k) json_list)"

definition ids_in :: "json \<Rightarrow> string list option" where
  "ids_in v = (case listed_ids v ''transfer_spark_ids'' of
     Some ids \<Rightarrow> Some ids
   | None \<Rightarrow> (case listed_ids v ''transferSparkIds'' of
       Some ids \<Rightarrow> Some ids
     | None \<Rightarrow> map_option (\<lambda>s. [s]) (Option.bind (jget v ''transfer_spark_id'') as_str)))"

definition ids_of :: "json \<Rightarrow> json \<Rightarrow> string list" where
  "ids_of input root = (case ids_in input of Some ids \<Rightarrow> ids | None \<Rightarrow>
     (case ids_in root of Some ids \<Rightarrow> ids | None \<Rightarrow> []))"

definition validate_sats :: "u64 \<Rightarrow> unit result" where
  "validate_sats amount =
     (if amount = 0 then Inl (Failure ''amount_sats must be positive'')
      else case checked_mul amount 1000 of
        None \<Rightarrow> Inl (Failure ''amount_sats is too large'') | Some _ \<Rightarrow> Inr ())"

definition validate_network_name :: "string \<Rightarrow> string \<Rightarrow> unit result" where
  "validate_network_name configured requested =
     (if requested = configured then Inr ()
      else Inl (Failure (''network mismatch: configured '' @ configured @ '', requested '' @ requested)))"

definition currency_amount :: "u64 \<Rightarrow> json" where
  "currency_amount value = JObj [(''original_value'', juint value), (''original_unit'', JStr ''SATOSHI''),
     (''preferred_currency_unit'', JStr ''SATOSHI''), (''preferred_currency_value_rounded'', juint value)]"

definition transfer_response :: "json \<Rightarrow> json \<Rightarrow> json" where
  "transfer_response row user_request = JObj [(''__typename'', JStr ''Transfer''),
     (''total_amount'', currency_amount (case Option.bind (jget row ''total_amount_sats'') as_u64 of Some n \<Rightarrow> n | None \<Rightarrow> 0)),
     (''spark_id'', case jget row ''spark_id'' of Some v \<Rightarrow> v | None \<Rightarrow> JNull),
     (''user_request'', user_request)]"

section \<open>Aliases of a query\<close>

text \<open>The argument lists, string literals and comments are taken out first.\<close>

fun strip_arguments :: "nat \<Rightarrow> bool \<Rightarrow> bool \<Rightarrow> bool \<Rightarrow> string \<Rightarrow> string" where
  "strip_arguments depth in_string in_comment prev_backslash [] = []"
| "strip_arguments depth in_string in_comment prev_backslash (ch # rest) =
     (if in_comment then
        (if ch = CHR 0x0A then ch # strip_arguments depth in_string False prev_backslash rest
         else strip_arguments depth in_string True prev_backslash rest)
      else if in_string then
        strip_arguments depth (\<not> (ch = CHR 0x22 \<and> \<not> prev_backslash)) False (ch = CHR 0x5C \<and> \<not> prev_backslash) rest
      else let prev' = (if ch \<noteq> CHR 0x5C then False else prev_backslash) in
        if ch = CHR ''#'' \<and> depth = 0 then strip_arguments depth False True prev' rest
        else if ch = CHR 0x22 \<and> depth = 0 then strip_arguments depth True False prev' rest
        else if ch = CHR ''('' then strip_arguments (depth + 1) False False prev' rest
        else if ch = CHR '')'' \<and> depth > 0 then strip_arguments (depth - 1) False False prev' rest
        else if depth = 0 then ch # strip_arguments depth False False prev' rest
        else strip_arguments depth False False prev' rest)"

definition in_range :: "char \<Rightarrow> char \<Rightarrow> char \<Rightarrow> bool" where
  "in_range low high c \<longleftrightarrow> low \<le> c \<and> c \<le> high"

definition is_alpha :: "char \<Rightarrow> bool" where
  "is_alpha c \<longleftrightarrow> in_range (CHR ''a'') (CHR ''z'') c \<or> in_range (CHR ''A'') (CHR ''Z'') c"

definition ident_start :: "char \<Rightarrow> bool" where
  "ident_start c \<longleftrightarrow> is_alpha c \<or> c = CHR ''_''"

definition ident_char :: "char \<Rightarrow> bool" where
  "ident_char c \<longleftrightarrow> is_alpha c \<or> is_digit c \<or> c = CHR ''_''"

definition ascii_space :: "char \<Rightarrow> bool" where
  "ascii_space c \<longleftrightarrow> c = CHR '' '' \<or> c = CHR 0x09 \<or> c = CHR 0x0A \<or> c = CHR 0x0C \<or> c = CHR 0x0D"

definition max_aliases :: nat where "max_aliases = 2000"

text \<open>The field named after an identifier, a colon and white space, with the text behind it.\<close>

definition aliased_field :: "string \<Rightarrow> (string \<times> string) option" where
  "aliased_field after_name = (case dropWhile ascii_space after_name of
     c # more \<Rightarrow> if c = CHR '':'' then (let rest = dropWhile ascii_space more in
         case rest of e # _ \<Rightarrow> if ident_start e then Some (takeWhile ident_char rest, dropWhile ident_char rest) else None
         | [] \<Rightarrow> None) else None
   | [] \<Rightarrow> None)"

lemma aliased_field_length:
  assumes "aliased_field s = Some (f, r)"
  shows "length r \<le> length s"
proof -
  obtain c more where d: "dropWhile ascii_space s = c # more" "r = dropWhile ident_char (dropWhile ascii_space more)"
    using assms by (auto simp: aliased_field_def Let_def split: list.splits if_splits)
  have "length r \<le> length more"
    unfolding d(2) by (meson length_dropWhile_le order_trans)
  then show ?thesis using length_dropWhile_le [of ascii_space s] d(1) by simp
qed

function scan_aliases :: "(string \<times> string) list \<Rightarrow> string \<Rightarrow> (string \<times> string) list" where
  "scan_aliases out [] = out"
| "scan_aliases out (c # cs) =
     (if ident_start c then
        let name = c # takeWhile ident_char cs; rest = dropWhile ident_char cs in
        case aliased_field rest of
          Some (field, rest2) \<Rightarrow>
            if name \<noteq> ''__typename'' \<and> name \<noteq> field \<and> \<not> is_prefix_str ''...'' name \<and> (name, field) \<notin> set out
            then (if length out + 1 \<ge> max_aliases then out @ [(name, field)] else scan_aliases (out @ [(name, field)]) rest2)
            else scan_aliases out rest2
        | None \<Rightarrow> scan_aliases out rest
      else scan_aliases out cs)"
  by pat_completeness auto
termination
  by (relation "measure (length \<circ> snd)")
    (auto simp: le_imp_less_Suc length_dropWhile_le dest!: aliased_field_length intro: le_less_trans order_trans)

definition collect_aliases :: "string \<Rightarrow> (string \<times> string) list" where
  "collect_aliases query = scan_aliases [] (strip_arguments 0 False False False query)"

section \<open>The alias pass\<close>

fun add_aliases :: "(string \<times> string) list \<Rightarrow> (string \<times> json) list \<Rightarrow> (string \<times> json) list" where
  "add_aliases [] kvs = kvs"
| "add_aliases ((alias, field) # rest) kvs = add_aliases rest
     (case map_of kvs field of
        Some v \<Rightarrow> if map_of kvs alias = None then kvs @ [(alias, v)] else kvs
      | None \<Rightarrow> kvs)"

lemma add_aliases_values: "snd ` set (add_aliases pairs kvs) = snd ` set kvs"
  by (induction pairs kvs rule: add_aliases.induct) (auto split: option.splits dest: map_of_SomeD intro: rev_image_eqI)

lemma add_aliases_size: "kv \<in> set (add_aliases pairs kvs) \<Longrightarrow> size (snd kv) < Suc (size_list (size_prod (\<lambda>_. 0) size) kvs)"
proof -
  assume "kv \<in> set (add_aliases pairs kvs)"
  then have "snd kv \<in> snd ` set kvs" by (metis add_aliases_values image_eqI)
  then obtain k where "(k, snd kv) \<in> set kvs" by force
  then have "size_prod (\<lambda>_. 0) size (k, snd kv) \<le> size_list (size_prod (\<lambda>_. 0) size) kvs"
    by (rule size_list_estimation') simp
  then show ?thesis by simp
qed

function apply_aliases :: "(string \<times> string) list \<Rightarrow> json \<Rightarrow> json" where
  "apply_aliases pairs (JObj kvs) = JObj (map (\<lambda>kv. (fst kv, apply_aliases pairs (snd kv))) (add_aliases pairs kvs))"
| "apply_aliases pairs (JArr xs) = JArr (map (apply_aliases pairs) xs)"
| "apply_aliases pairs JNull = JNull"
| "apply_aliases pairs (JBool b) = JBool b"
| "apply_aliases pairs (JInt n) = JInt n"
| "apply_aliases pairs (JFloat s) = JFloat s"
| "apply_aliases pairs (JStr s) = JStr s"
  by pat_completeness auto
termination
  by (relation "measure (size \<circ> snd)") (auto dest: add_aliases_size intro: le_imp_less_Suc size_list_estimation')

definition apply_query_aliases :: "json \<Rightarrow> string \<Rightarrow> json" where
  "apply_query_aliases data query = apply_aliases (collect_aliases query) data"


section \<open>Numbers and their text\<close>

lemma digit_chars: "list_all (\<lambda>n. is_digit (digit_char n) \<and> digit_value (digit_char n) = n) [0..<10]"
  by code_simp

lemma digit_char_digit: "n < 10 \<Longrightarrow> is_digit (digit_char n) \<and> digit_value (digit_char n) = n"
  using digit_chars by (simp add: list_all_iff)

lemma digits_value_snoc: "digits_value (ds @ [c]) = 10 * digits_value ds + digit_value c"
  by (simp add: digits_value_def)

lemma decimal_digits: "decimal n \<noteq> [] \<and> list_all is_digit (decimal n) \<and> digits_value (decimal n) = n"
proof (induction n rule: decimal.induct)
  case (1 n)
  show ?case
  proof (cases "n < 10")
    case True
    then show ?thesis using digit_char_digit [of n] by (simp add: decimal.simps [of n] digits_value_def)
  next
    case False
    then show ?thesis
      using 1 [OF False] digit_char_digit [of "n mod 10"] by (simp add: decimal.simps [of n] digits_value_snoc)
  qed
qed

lemma parse_u64_decimal: "parse_u64 (decimal (unat n)) = Some n"
proof -
  have d: "decimal (unat n) \<noteq> []" "list_all is_digit (decimal (unat n))" "digits_value (decimal (unat n)) = unat n"
    using decimal_digits by blast+
  have "hd (decimal (unat n)) \<noteq> CHR ''+''"
    using d(1,2) by (cases "decimal (unat n)") (auto simp: is_digit_def less_eq_char_def)
  then have "(case decimal (unat n) of c # r \<Rightarrow> if c = CHR ''+'' then r else decimal (unat n) | [] \<Rightarrow> decimal (unat n)) = decimal (unat n)"
    by (cases "decimal (unat n)") auto
  then show ?thesis
    using d unsigned_less [of n] by (simp only: parse_u64_def Let_def) simp
qed

lemma opt_num_int: "jget v k = Some (juint n) \<Longrightarrow> opt_num v k = Some n"
  by (simp add: opt_num_def)

lemma opt_num_text: "jget v k = Some (JStr (decimal (unat n))) \<Longrightarrow> opt_num v k = Some n"
  by (simp add: opt_num_def parse_u64_decimal)

section \<open>What the alias pass does\<close>

datatype step = Key string | Index nat

fun at_path :: "json \<Rightarrow> step list \<Rightarrow> json option" where
  "at_path v [] = Some v"
| "at_path (JObj kvs) (Key k # ss) = (case map_of kvs k of Some w \<Rightarrow> at_path w ss | None \<Rightarrow> None)"
| "at_path (JArr xs) (Index i # ss) = (if i < length xs then at_path (xs ! i) ss else None)"
| "at_path v (s # ss) = None"

lemma map_of_second: "map_of (map (\<lambda>kv. (fst kv, f (snd kv))) kvs) k = map_option f (map_of kvs k)"
  by (induction kvs) auto

lemma add_aliases_keeps: "map_of kvs k = Some w \<Longrightarrow> map_of (add_aliases pairs kvs) k = Some w"
  by (induction pairs kvs rule: add_aliases.induct) (auto split: option.splits simp: map_add_def)

lemma add_aliases_old: "map_of (add_aliases pairs kvs) k = Some w \<Longrightarrow> \<exists>k'. map_of kvs k' = Some w"
proof (induction pairs kvs arbitrary: k rule: add_aliases.induct)
  case (2 a field rest kvs)
  then obtain k' where "map_of (case map_of kvs field of
        Some v \<Rightarrow> if map_of kvs a = None then kvs @ [(a, v)] else kvs | None \<Rightarrow> kvs) k' = Some w"
    by fastforce
  then show ?case by (auto split: option.splits if_splits simp: map_add_Some_iff)
qed auto

lemma add_aliases_adds:
  assumes "(alias, field) \<in> set pairs" "map_of kvs field = Some w"
  shows "map_of (add_aliases pairs kvs) alias \<noteq> None"
  using assms
proof (induction pairs kvs rule: add_aliases.induct)
  case (2 a f rest kvs)
  show ?case
  proof (cases "(alias, field) = (a, f)")
    case True
    then obtain v where "map_of (case map_of kvs f of
        Some v \<Rightarrow> if map_of kvs a = None then kvs @ [(a, v)] else kvs | None \<Rightarrow> kvs) alias = Some v"
      using 2(3) by (cases "map_of kvs a") (auto simp: map_add_Some_iff)
    then show ?thesis using add_aliases_keeps by fastforce
  next
    case False
    then have "(alias, field) \<in> set rest" using 2(2) by auto
    moreover have "map_of (case map_of kvs f of
        Some v \<Rightarrow> if map_of kvs a = None then kvs @ [(a, v)] else kvs | None \<Rightarrow> kvs) field = Some w"
      using 2(3) by (auto split: option.splits simp: map_add_def)
    ultimately show ?thesis using 2(1) by simp
  qed
qed simp

lemma apply_aliases_at:
  "at_path v p = Some w \<Longrightarrow> at_path (apply_aliases pairs v) p = Some (apply_aliases pairs w)"
proof (induction v p rule: at_path.induct)
  case (2 kvs k ss)
  then obtain x where x: "map_of kvs k = Some x" "at_path x ss = Some w" by (auto split: option.splits)
  then show ?case using 2 by (simp add: map_of_second add_aliases_keeps [OF x(1)])
qed (auto split: if_splits)

lemma apply_aliases_from:
  "at_path (apply_aliases pairs v) p = Some w' \<Longrightarrow> \<exists>p' w. length p' = length p \<and> at_path v p' = Some w \<and> w' = apply_aliases pairs w"
proof (induction p arbitrary: v)
  case (Cons s p)
  show ?case
  proof (cases "\<exists>kvs k. v = JObj kvs \<and> s = Key k")
    case True
    then obtain kvs k x where v: "v = JObj kvs" "s = Key k" "map_of (add_aliases pairs kvs) k = Some x"
        "at_path (apply_aliases pairs x) p = Some w'"
      using Cons.prems by (auto simp: map_of_second split: option.splits)
    obtain k' p' w where "map_of kvs k' = Some x" "length p' = length p" "at_path x p' = Some w" "w' = apply_aliases pairs w"
      using add_aliases_old [OF v(3)] Cons.IH [OF v(4)] by blast
    then show ?thesis unfolding v(1) by (intro exI [of _ "Key k' # p'"] exI [of _ w]) simp
  next
    case False
    then obtain xs i where v: "v = JArr xs" "s = Index i" "i < length xs" "at_path (apply_aliases pairs (xs ! i)) p = Some w'"
      using Cons.prems by (cases v; cases s) (auto split: if_splits)
    obtain p' w where "length p' = length p" "at_path (xs ! i) p' = Some w" "w' = apply_aliases pairs w"
      using Cons.IH [OF v(4)] by blast
    then show ?thesis unfolding v(1) using v(3) by (intro exI [of _ "Index i # p'"] exI [of _ w]) simp
  qed
qed auto


text \<open>A new name takes the value of the first pair that gives it one, and only a pair of the query
  gives a name a value.\<close>

lemma add_aliases_first:
  assumes "map_of kvs nick = None" "\<forall>f. (nick, f) \<notin> set earlier" "map_of kvs field = Some x"
  shows "map_of (add_aliases (earlier @ (nick, field) # later) kvs) nick = Some x"
  using assms
proof (induction earlier arbitrary: kvs)
  case Nil
  then have "map_of (kvs @ [(nick, x)]) nick = Some x" by (simp add: map_add_def)
  then show ?case using Nil add_aliases_keeps by fastforce
next
  case (Cons af earlier)
  obtain a f where af: "af = (a, f)" by force
  let ?kvs = "case map_of kvs f of Some v \<Rightarrow> if map_of kvs a = None then kvs @ [(a, v)] else kvs | None \<Rightarrow> kvs"
  have "a \<noteq> nick" using Cons.prems(2) af by auto
  then have "map_of ?kvs nick = None" "map_of ?kvs field = Some x"
    using Cons.prems(1,3) by (auto simp: map_add_def split: option.split)
  then show ?case using Cons.IH [of ?kvs] Cons.prems(2) af by simp
qed

lemma add_aliases_source:
  "map_of (add_aliases pairs kvs) k = Some y \<Longrightarrow>
   map_of kvs k = Some y \<or> (\<exists>f. (k, f) \<in> set pairs \<and> map_of (add_aliases pairs kvs) f = Some y)"
proof (induction pairs kvs rule: add_aliases.induct)
  case (2 a f rest kvs)
  let ?kvs = "case map_of kvs f of Some v \<Rightarrow> if map_of kvs a = None then kvs @ [(a, v)] else kvs | None \<Rightarrow> kvs"
  from 2 consider "map_of ?kvs k = Some y" | g where "(k, g) \<in> set rest" "map_of (add_aliases rest ?kvs) g = Some y"
    by auto
  then show ?case
  proof cases
    case 1
    then consider "map_of kvs k = Some y" | "k = a" "map_of kvs f = Some y"
      by (auto simp: map_add_Some_iff split: option.splits if_splits)
    then show ?thesis
    proof cases
      case 2
      then have "map_of (add_aliases ((a, f) # rest) kvs) f = Some y" by (intro add_aliases_keeps)
      then show ?thesis using 2(1) by auto
    qed simp
  next
    case (2 g)
    then show ?thesis by auto
  qed
qed simp

lemma at_path_snoc: "at_path u (p @ [s]) = Option.bind (at_path u p) (\<lambda>x. at_path x [s])"
  by (induction u p rule: at_path.induct) (auto split: option.split)

lemma aliased_object:
  assumes "at_path v p = Some (JObj kvs)"
  shows "at_path (apply_query_aliases v q) (p @ [Key k]) =
    map_option (\<lambda>x. apply_query_aliases x q) (map_of (add_aliases (collect_aliases q) kvs) k)"
  using apply_aliases_at [OF assms, of "collect_aliases q"] unfolding at_path_snoc apply_query_aliases_def
  by (auto simp: map_of_second split: option.split)

text \<open>C31. The alias pass loses and invents nothing: whatever stands at a path of the response
  still stands there, passed over itself, so a text or a number is unchanged; every value of the
  result is such a value of the response at the same depth. An object that has a field has, after
  the pass, every name the query gives that field: a name that the object does not have
  and that the query gives to no earlier field holds this field's own value, passed over; and any other
  name than the object's own holds the value of a field that the query gives it.\<close>

theorem alias_pass_sound:
  "(at_path v p = Some w \<longrightarrow> at_path (apply_query_aliases v q) p = Some (apply_query_aliases w q)) \<and>
   (at_path (apply_query_aliases v q) p = Some w' \<longrightarrow>
      (\<exists>p' w. length p' = length p \<and> at_path v p' = Some w \<and> w' = apply_query_aliases w q)) \<and>
   (at_path v p = Some (JObj kvs) \<longrightarrow>
      ((nick, field) \<in> set (collect_aliases q) \<and> map_of kvs field \<noteq> None \<longrightarrow>
         at_path (apply_query_aliases v q) (p @ [Key nick]) \<noteq> None) \<and>
      (collect_aliases q = earlier @ (nick, field) # later \<and> (\<forall>f. (nick, f) \<notin> set earlier) \<and>
         map_of kvs nick = None \<and> map_of kvs field = Some x \<longrightarrow>
         at_path (apply_query_aliases v q) (p @ [Key nick]) = Some (apply_query_aliases x q)) \<and>
      (at_path (apply_query_aliases v q) (p @ [Key k]) = Some y \<and> map_of kvs k = None \<longrightarrow>
         (\<exists>f. (k, f) \<in> set (collect_aliases q) \<and> at_path (apply_query_aliases v q) (p @ [Key f]) = Some y)))"
proof (intro conjI impI)
  assume "at_path v p = Some w"
  then show "at_path (apply_query_aliases v q) p = Some (apply_query_aliases w q)"
    unfolding apply_query_aliases_def by (rule apply_aliases_at)
next
  assume "at_path (apply_query_aliases v q) p = Some w'"
  then show "\<exists>p' w. length p' = length p \<and> at_path v p' = Some w \<and> w' = apply_query_aliases w q"
    unfolding apply_query_aliases_def by (rule apply_aliases_from)
next
  assume o: "at_path v p = Some (JObj kvs)" and n: "(nick, field) \<in> set (collect_aliases q) \<and> map_of kvs field \<noteq> None"
  show "at_path (apply_query_aliases v q) (p @ [Key nick]) \<noteq> None"
    using n add_aliases_adds [of nick field "collect_aliases q" kvs] unfolding aliased_object [OF o] by auto
next
  assume o: "at_path v p = Some (JObj kvs)" and n: "collect_aliases q = earlier @ (nick, field) # later \<and>
    (\<forall>f. (nick, f) \<notin> set earlier) \<and> map_of kvs nick = None \<and> map_of kvs field = Some x"
  then show "at_path (apply_query_aliases v q) (p @ [Key nick]) = Some (apply_query_aliases x q)"
    unfolding aliased_object [OF o] by (simp add: add_aliases_first)
next
  assume o: "at_path v p = Some (JObj kvs)" and n: "at_path (apply_query_aliases v q) (p @ [Key k]) = Some y \<and> map_of kvs k = None"
  then obtain z where "map_of (add_aliases (collect_aliases q) kvs) k = Some z" "y = apply_query_aliases z q"
    unfolding aliased_object [OF o] by auto
  then show "\<exists>f. (k, f) \<in> set (collect_aliases q) \<and> at_path (apply_query_aliases v q) (p @ [Key f]) = Some y"
    using add_aliases_source [of "collect_aliases q" kvs k z] n unfolding aliased_object [OF o] by auto
qed

section \<open>What is collected\<close>

definition is_name :: "string \<Rightarrow> bool" where
  "is_name s \<longleftrightarrow> list_all ident_char s \<and> (case s of c # _ \<Rightarrow> ident_start c | [] \<Rightarrow> False)"

definition alias_list :: "(string \<times> string) list \<Rightarrow> bool" where
  "alias_list out \<longleftrightarrow> distinct out \<and> length out \<le> max_aliases \<and>
     list_all (\<lambda>(a, f). is_name a \<and> is_name f \<and> a \<noteq> f \<and> a \<noteq> ''__typename'') out"

lemma ident_start_char: "ident_start c \<Longrightarrow> ident_char c"
  by (auto simp: ident_start_def ident_char_def)

lemma taken_name: "ident_start c \<Longrightarrow> is_name (c # takeWhile ident_char cs)"
  by (auto simp: is_name_def ident_start_char list_all_iff dest: set_takeWhileD)

lemma aliased_field_name:
  assumes "aliased_field s = Some (f, r)"
  shows "is_name f"
proof -
  obtain e more where "ident_start e" "f = takeWhile ident_char (e # more)"
    using assms by (auto simp: aliased_field_def Let_def split: list.splits if_splits)
  then show ?thesis using taken_name ident_start_char by simp
qed

lemma scan_aliases_list:
  "alias_list out \<Longrightarrow> length out < max_aliases \<Longrightarrow> alias_list (scan_aliases out cs)"
proof (induction out cs rule: scan_aliases.induct)
  case (2 out c cs)
  let ?name = "c # takeWhile ident_char cs"
  show ?case
  proof (cases "ident_start c")
    case i: True
    show ?thesis
    proof (cases "aliased_field (dropWhile ident_char cs)")
      case None
      then show ?thesis using 2(1) [OF i refl refl None] 2(5,6) i by simp
    next
      case (Some fr)
      obtain field rest2 where fr: "fr = (field, rest2)" by (cases fr)
      show ?thesis
      proof (cases "?name \<noteq> ''__typename'' \<and> ?name \<noteq> field \<and> \<not> is_prefix_str ''...'' ?name \<and> (?name, field) \<notin> set out")
        case new: True
        have "alias_list (out @ [(?name, field)])"
          using new 2(5,6) taken_name [OF i] aliased_field_name Some fr by (auto simp: alias_list_def)
        then show ?thesis using 2(2) [OF i refl refl Some fr [symmetric]] new i Some fr by (auto simp: not_le Let_def)
      next
        case False
        then show ?thesis using 2(3) [OF i refl refl Some fr [symmetric] False] 2(5,6) i Some fr by auto
      qed
    qed
  qed (use 2 in simp)
qed simp

text \<open>A query yields at most 2000 aliases, without repetition, each a name for a field of
  another name, and both are identifiers.\<close>

theorem collected_aliases_bounded: "alias_list (collect_aliases query)"
  unfolding collect_aliases_def by (rule scan_aliases_list) (simp_all add: alias_list_def max_aliases_def)

section \<open>Examples\<close>

definition example_response :: json where
  "example_response = JObj [(''id'', JStr ''r1''), (''request'', JObj [(''status'', JStr ''CREATED'')])]"

definition example_query :: string where
  "example_query = ''query Q($x: Int) { request_id: id request { swap_status: status } }''"

lemma example_aliases: "collect_aliases example_query = [(''request_id'', ''id''), (''swap_status'', ''status'')]"
  by code_simp

theorem alias_pass_sound_witness:
  "at_path (apply_query_aliases example_response example_query) [Key ''request'', Key ''status''] = Some (JStr ''CREATED'') \<and>
   at_path (apply_query_aliases example_response example_query) [Key ''request'', Key ''swap_status''] = Some (JStr ''CREATED'')"
proof -
  have s: "at_path example_response [Key ''request'', Key ''status''] = Some (JStr ''CREATED'')"
    "at_path example_response [Key ''request''] = Some (JObj [(''status'', JStr ''CREATED'')])"
    by (simp_all add: example_response_def)
  have "apply_query_aliases (JStr ''CREATED'') example_query = JStr ''CREATED''"
    by (simp add: apply_query_aliases_def)
  with s show ?thesis
    using alias_pass_sound [of example_response "[Key ''request'', Key ''status'']" "JStr ''CREATED''" example_query]
      alias_pass_sound [where v = example_response and p = "[Key ''request'']" and q = example_query and
        kvs = "[(''status'', JStr ''CREATED'')]" and nick = "''swap_status''" and field = "''status''" and
        earlier = "[(''request_id'', ''id'')]" and later = "[]" and x = "JStr ''CREATED''"]
    by (simp add: example_aliases)
qed

text \<open>Inside an argument list the scanner does not track strings: a closing parenthesis in one
  ends the list early, and what follows in the string is read as an alias.\<close>

lemma string_argument_leaks:
  "collect_aliases ([CHR ''f'', CHR ''('', CHR ''m'', CHR '':'', CHR 0x22] @
     '') a: b '' @ [CHR 0x22, CHR '')'']) = [(''a'', ''b'')]"
  by code_simp

end
