(* ===== verification/Gateway.thy ===== *)
theory Gateway
  imports Service_World Api_Values
begin

text \<open>
  The GraphQL resolvers (src/src/graphql.rs) over the models of the parts they call: one
  definition per operation, from its input to the JSON of its answer, and \<open>dispatch\<close>, which
  picks the resolver. Clock readings, fresh ids and the backend's answers are arguments in
  \<open>api_env\<close>, functions of the calls made so far.
\<close>

section \<open>Environment\<close>

record api_env =
  g_lightning :: environment
  g_exit :: "exit_env option"
  g_deposit :: "deposit_env option"
  g_webhook :: webhook_env
  g_wallet :: wallet_env
  g_quotes :: quote_lib
  g_auth :: auth_lib
  g_codec :: history_codec
  g_now :: "api_call list \<Rightarrow> nat \<Rightarrow> int"
  g_time :: "int \<Rightarrow> string"
  g_parse_time :: "string \<Rightarrow> int option"
  g_uuid :: "api_call list \<Rightarrow> string"
  g_token :: "api_call list \<Rightarrow> string"
  g_nonce :: "api_call list \<Rightarrow> bytes"
  g_invoice :: "api_call list \<Rightarrow> u64 \<Rightarrow> string \<Rightarrow> string option \<Rightarrow> u32 \<Rightarrow> string result"
  g_offer :: "api_call list \<Rightarrow> u64 \<Rightarrow> string \<Rightarrow> u32 \<Rightarrow> (string \<times> string) result"
  g_offer_id :: "string \<Rightarrow> string result"
  g_is_uuid :: "string \<Rightarrow> bool"
  g_chain :: Requests.network
  g_public_key :: "string \<Rightarrow> string option"
  g_exit_input :: "json \<Rightarrow> exit_input result"
  g_text :: "json \<Rightarrow> string"
  g_updated :: "string \<Rightarrow> string"
  g_network :: string
  g_swap_fee :: u64
  g_max_swap :: u64
  g_allow_local :: bool

text \<open>What a request's headers say: the authorization text, and whether a partner token came along.\<close>

record api_headers =
  h_authorization :: "string option"
  h_partner :: bool

definition clock :: "api_env \<Rightarrow> nat \<Rightarrow> (api_world, int) action" where
  "clock env n = reading (\<lambda>h. g_now env h n)"

definition session :: "api_env \<Rightarrow> api_headers \<Rightarrow> (api_world, string) action" where
  "session env headers = bind_action (clock env 1) (\<lambda>now.
     on_db (require_session (h_authorization headers) (g_time env now)))"

section \<open>Lightning backend\<close>

definition description_of :: "string \<Rightarrow> string option" where
  "description_of memo = (if memo = '''' then None else Some memo)"

definition fee_estimate_msat :: "string \<Rightarrow> u64 option \<Rightarrow> u64" where
  "fee_estimate_msat invoice amount = 0"

definition create_invoice :: "api_env \<Rightarrow> u64 \<Rightarrow> string \<Rightarrow> string \<Rightarrow> u32 \<Rightarrow> (api_world, string) action" where
  "create_invoice env amount hash memo expiry =
     bind_action (lift_result (sats_to_msats amount)) (\<lambda>msats.
     bind_action (retry_bounded receive_retry_delays
         (ask (CreateInvoice msats hash (description_of memo) expiry) (\<lambda>h. g_invoice env h msats hash (description_of memo) expiry))) (\<lambda>invoice.
     then_action (lift_result (validate_created_invoice (e_decode (g_lightning env)) (e_lower (g_lightning env))
         invoice hash amount (g_chain env)))
       (ret invoice)))"

definition create_bolt12_offer :: "api_env \<Rightarrow> u64 \<Rightarrow> string \<Rightarrow> u32 \<Rightarrow> (api_world, string \<times> string) action" where
  "create_bolt12_offer env amount memo expiry =
     bind_action (lift_result (sats_to_msats amount)) (\<lambda>msats.
     bind_action (ask (CreateOffer msats memo expiry) (\<lambda>h. g_offer env h msats memo expiry)) (\<lambda>(offer, offer_id).
     ret (offer, e_lower (g_lightning env) offer_id)))"

text \<open>\<open>prepare_send\<close> with the wallet's own checks of the funding transfer, logged as one call.\<close>

definition prepare_funded_send :: "api_env \<Rightarrow> string \<Rightarrow> string \<Rightarrow> string \<Rightarrow> u64 option \<Rightarrow> (api_world, lightning_send) action" where
  "prepare_funded_send env owner transfer invoice amount = (\<lambda>w.
     (prepare_send (e_decode (g_lightning env)) (g_offer_id env) (g_is_uuid env)
        (\<lambda>n. result_of (in_wallet (verify_bolt12_send (g_wallet env) owner transfer n)) w)
        (\<lambda>hash n. result_of (in_wallet (verify_lightning_send (g_wallet env) owner transfer hash n)) w)
        (g_chain env) (g_now env (w_calls w) 2) (g_uuid env (w_calls w)) owner transfer invoice amount,
      w\<lparr>w_calls := w_calls w @ [CheckSend transfer invoice amount]\<rparr>))"

section \<open>Stored requests\<close>

definition max_request_payload :: nat where "max_request_payload = 16 * 1024"

definition store_request :: "api_env \<Rightarrow> string \<Rightarrow> string \<Rightarrow> string \<Rightarrow> json \<Rightarrow> string option \<Rightarrow> (api_world, json) action" where
  "store_request env kind owner now payload key =
     (if kind \<noteq> ''LEAVES_SWAP'' \<and> length (g_text env payload) > max_request_payload
      then throw (Failure ''request payload is too large'')
      else bind_action (reading (g_uuid env)) (\<lambda>i.
        then_action (on_db (insert_request (g_parse_time env) (e_decode (g_lightning env)) i kind owner now payload key))
          (ret (JObj [(''id'', JStr i), (''type'', JStr kind), (''owner_identity_pubkey'', JStr owner),
            (''created_at'', JStr now), (''payload'', payload)]))))"

definition updated_at :: "api_env \<Rightarrow> string \<Rightarrow> (api_world, string) action" where
  "updated_at env i = on_db (request_updated_at (g_updated env) i)"

definition or_null :: "json option \<Rightarrow> json" where
  "or_null x = (case x of Some v \<Rightarrow> v | None \<Rightarrow> JNull)"

definition text_of :: "json \<Rightarrow> string \<Rightarrow> string" where
  "text_of v k = (case Option.bind (jget v k) as_str of Some s \<Rightarrow> s | None \<Rightarrow> '''')"

definition amount_of :: "json \<Rightarrow> string \<Rightarrow> u64" where
  "amount_of v k = (case Option.bind (jget v k) as_u64 of Some n \<Rightarrow> n | None \<Rightarrow> 0)"

text \<open>\<open>.ok().flatten()\<close>.\<close>

definition ok_flatten :: "('s, 'a option) action \<Rightarrow> ('s, 'a option) action" where
  "ok_flatten m = handle m ret (\<lambda>_. ret None)"

definition public_send_status :: "string \<Rightarrow> string" where
  "public_send_status status =
     (if status = ''SUCCEEDED'' then ''LIGHTNING_PAYMENT_SUCCEEDED''
      else if status = ''FAILED'' then ''LIGHTNING_PAYMENT_FAILED''
      else ''LIGHTNING_PAYMENT_INITIATED'')"

definition send_union :: "api_env \<Rightarrow> json \<Rightarrow> json \<Rightarrow> string \<Rightarrow> string \<Rightarrow> string \<Rightarrow> (api_world, json) action" where
  "send_union env i p created updated net =
     bind_action (in_lightning (backend_payment_status (g_lightning env) (text_of p ''payment_id''))) (\<lambda>status.
     bind_action (on_db (lightning_failure_reason (case as_str i of Some s \<Rightarrow> s | None \<Rightarrow> ''''))) (\<lambda>reason.
     ret (JObj [(''__typename'', JStr ''LightningSendRequest''), (''id'', i), (''created_at'', JStr created),
       (''updated_at'', JStr updated), (''network'', JStr net),
       (''encoded_invoice'', or_null (jget p ''encoded_invoice'')), (''fee'', currency_amount 0),
       (''idempotency_key'', or_null (jget p ''idempotency_key'')),
       (''status'', JStr (public_send_status status)), (''failure_reason'', jopt JStr reason),
       (''payment_kind'', or_null (jget p ''payment_kind'')), (''payment_preimage'', or_null (jget p ''payment_preimage'')),
       (''payment_hash'', or_null (jget p ''settled_payment_hash'')), (''offer_id'', or_null (jget p ''offer_id''))])))"

definition is_offer_text :: "json option \<Rightarrow> bool" where
  "is_offer_text invoice = (case Option.bind invoice as_str of Some s \<Rightarrow> is_prefix_str ''lno1'' s | None \<Rightarrow> False)"

definition receive_union :: "json \<Rightarrow> json \<Rightarrow> json \<Rightarrow> string \<Rightarrow> string \<Rightarrow> string \<Rightarrow> (api_world, json) action" where
  "receive_union rec i p created updated net =
     (let amount = amount_of p ''amount_sats''; hash = text_of p ''payment_hash'';
          request_id = text_of rec ''id''; owner = text_of rec ''owner_identity_pubkey'';
          offered = is_offer_text (jget p ''invoice'') in
      bind_action (handle (on_db (receive_status hash)) ret (\<lambda>_. ret ''INVOICE_CREATED'')) (\<lambda>status.
      bind_action (ok_flatten (on_db (lightning_receive_for_hash hash))) (\<lambda>receive.
      bind_action (ok_flatten (on_db (transfer_for_request request_id owner))) (\<lambda>transfer.
      ret (JObj [(''__typename'', JStr ''LightningReceiveRequest''), (''id'', i), (''created_at'', JStr created),
        (''updated_at'', JStr updated), (''network'', JStr net),
        (''invoice'', JObj [(''__typename'', JStr ''Invoice''),
           (''encoded_invoice'', or_null (jget p ''invoice'')), (''bitcoin_network'', JStr net),
           (''payment_hash'', if offered then (case jget p ''settled_payment_hash'' of Some v \<Rightarrow> v | None \<Rightarrow> JStr '''')
              else or_null (jget p ''payment_hash'')),
           (''offer_id'', if offered then or_null (jget p ''payment_hash'') else JNull),
           (''amount'', currency_amount amount), (''created_at'', JStr created),
           (''expires_at'', case jget p ''invoice_expires_at'' of Some v \<Rightarrow> v | None \<Rightarrow> JStr created),
           (''memo'', JNull)]),
        (''status'', JStr status),
        (''transfer'', jopt (\<lambda>spark_id. JObj [(''__typename'', JStr ''Transfer''), (''total_amount'', currency_amount amount),
           (''spark_id'', JStr spark_id),
           (''user_request'', JObj [(''__typename'', JStr ''LightningReceiveRequest''), (''id'', JStr request_id)])]) transfer),
        (''payment_preimage'', jopt JStr (case Option.bind receive rc_preimage of Some x \<Rightarrow> Some x
           | None \<Rightarrow> Option.bind (jget p ''payment_preimage'') as_str)),
        (''receiver_identity_public_key'', case jget p ''receiver_identity_pubkey'' of Some v \<Rightarrow> v | None \<Rightarrow> JStr owner)])))))"


text \<open>A swap's stored refunds are complete when there are some and each has its unsigned transaction.\<close>

definition missing_refunds :: "json \<Rightarrow> bool" where
  "missing_refunds p = (case json_list (jfield p ''swap_leaves'') of
     None \<Rightarrow> True
   | Some leaves \<Rightarrow> leaves = [] \<or> list_ex (\<lambda>leaf.
       case as_str (jfield leaf ''raw_unsigned_refund_transaction'') of None \<Rightarrow> True | Some s \<Rightarrow> s = '''') leaves)"

definition save_swap_details :: "json \<Rightarrow> json \<Rightarrow> json \<Rightarrow> (db, nat) action" where
  "save_swap_details i leaves expires = update_where requests_t (\<lambda>r. as_str i = Some (rq_id r))
     (\<lambda>r. r\<lparr>rq_payload := json_set ''expires_at'' expires (json_set ''swap_leaves'' leaves (rq_payload r))\<rparr>)"

text \<open>\<open>p["field"] = value\<close> on an object.\<close>

definition complete_swap :: "api_env \<Rightarrow> json \<Rightarrow> json \<Rightarrow> (api_world, json) action" where
  "complete_swap env i p =
     (if \<not> missing_refunds p then ret p
      else bind_action (lift_result (ok_or (as_str (jfield p ''inbound_transfer_spark_id'')) (Failure ''legacy swap has no transfer ID''))) (\<lambda>transfer_id.
        bind_action (in_wallet (swap_details (g_wallet env) transfer_id)) (\<lambda>data.
        let leaves = JArr (sf_leaves data); expires = jopt JStr (sf_expires_at data) in
        then_action (on_db (save_swap_details i leaves expires))
          (ret (json_set ''expires_at'' expires (json_set ''swap_leaves'' leaves p))))))"

definition swap_union :: "api_env \<Rightarrow> json \<Rightarrow> json \<Rightarrow> string \<Rightarrow> string \<Rightarrow> (api_world, json) action" where
  "swap_union env i p0 created net =
     bind_action (complete_swap env i p0) (\<lambda>p.
     bind_action (lift_result (ok_or (as_str i) (Failure ''swap has no request ID''))) (\<lambda>request_id.
     bind_action (updated_at env request_id) (\<lambda>updated.
     ret (JObj [(''__typename'', JStr ''LeavesSwapRequest''), (''id'', i), (''created_at'', JStr created),
       (''updated_at'', JStr updated), (''network'', JStr net),
       (''status'', case jget p ''status'' of Some v \<Rightarrow> v | None \<Rightarrow> JStr ''CREATED''),
       (''total_amount'', currency_amount (amount_of p ''total_amount_sats'')),
       (''target_amount'', currency_amount (amount_of p ''target_amount_sats'')),
       (''fee'', currency_amount (amount_of p ''fee_sats'')),
       (''inbound_transfer'', JObj [(''__typename'', JStr ''Transfer''),
          (''total_amount'', currency_amount (amount_of p ''total_amount_sats'')),
          (''spark_id'', JStr (text_of p ''inbound_transfer_spark_id'')),
          (''user_request'', JObj [(''__typename'', JStr ''LeavesSwapRequest''), (''id'', i)])]),
       (''swap_leaves'', case jget p ''swap_leaves'' of Some v \<Rightarrow> v | None \<Rightarrow> JArr []),
       (''expires_at'', or_null (jget p ''expires_at''))]))))"

definition deposit_union :: "api_env \<Rightarrow> json \<Rightarrow> json \<Rightarrow> string \<Rightarrow> string \<Rightarrow> string \<Rightarrow> json result" where
  "deposit_union env i p created updated net =
     (if list_ex (\<lambda>k. as_u64 (jfield p k) = None) [''credit_amount_sats'', ''deposit_amount_sats'', ''max_fee_sats'']
      then Inl (Failure (''legacy deposit '' @ g_text env i @ '' has no settlement amounts''))
      else Inr (JObj [(''__typename'', JStr ''ClaimStaticDeposit''), (''id'', i), (''created_at'', JStr created),
        (''updated_at'', JStr updated), (''network'', JStr net),
        (''credit_amount'', currency_amount (amount_of p ''credit_amount_sats'')),
        (''deposit_amount'', currency_amount (amount_of p ''deposit_amount_sats'')),
        (''max_fee'', currency_amount (amount_of p ''max_fee_sats'')),
        (''status'', case jget p ''phase'' of Some v \<Rightarrow> v
           | None \<Rightarrow> JStr (if jfield p ''status'' = JStr ''SUCCEEDED'' then ''SPEND_TX_BROADCAST'' else ''CREATED'')),
        (''transaction_id'', or_null (jget p ''transaction_id'')), (''output_index'', or_null (jget p ''output_index'')),
        (''bitcoin_network'', JStr net), (''transfer_spark_id'', or_null (jget p ''transfer_spark_id''))]))"

definition exit_union :: "api_env \<Rightarrow> json \<Rightarrow> (api_world, json) action" where
  "exit_union env rec = (case g_exit env of
     None \<Rightarrow> ret JNull
   | Some service \<Rightarrow>
       bind_action (ok_flatten (in_exit (get_exit service (text_of rec ''id'') (text_of rec ''owner_identity_pubkey'')))) (\<lambda>found.
       ret (or_null found)))"

text \<open>The union member of a stored request, by its kind.\<close>

definition user_request_union :: "api_env \<Rightarrow> json \<Rightarrow> (api_world, json) action" where
  "user_request_union env rec =
     (let kind = text_of rec ''type''; i = or_null (jget rec ''id''); created = text_of rec ''created_at'' in
      bind_action (updated_at env (case as_str i of Some s \<Rightarrow> s | None \<Rightarrow> '''')) (\<lambda>updated.
      let p = (case jget rec ''payload'' of Some v \<Rightarrow> v | None \<Rightarrow> JObj []);
          net = (case Option.bind (jget p ''network'') as_str of Some n \<Rightarrow> n | None \<Rightarrow> g_network env) in
      if kind = ''COOP_EXIT_V2'' then exit_union env rec
      else if kind = ''LIGHTNING_SEND'' then send_union env i p created updated net
      else if kind = ''LIGHTNING_RECEIVE'' then receive_union rec i p created updated net
      else if kind = ''LEAVES_SWAP'' then swap_union env i p created net
      else if kind = ''COOP_EXIT'' \<or> kind = ''CLAIM_INSTANT_STATIC_DEPOSIT''
      then throw (Failure (''legacy request '' @ g_text env i @ '' has no settlement record; its transaction and fee data are unavailable''))
      else if kind = ''CLAIM_STATIC_DEPOSIT'' \<or> kind = ''CLAIM_INSTANT_STATIC_DEPOSIT_V2''
      then lift_result (deposit_union env i p created updated net)
      else ret JNull))"

definition send_response :: "api_env \<Rightarrow> json \<Rightarrow> (api_world, json) action" where
  "send_response env rec =
     bind_action (lift_result (ok_or (as_str (jfield rec ''id'')) (Failure ''missing request ID''))) (\<lambda>i.
     bind_action (updated_at env i) (\<lambda>updated.
     let p = or_null (jget rec ''payload'') in
     bind_action (in_lightning (backend_payment_status (g_lightning env) (text_of p ''payment_id''))) (\<lambda>status.
     ret (JObj [(''request_lightning_send'', JObj [(''request'', JObj [
       (''__typename'', JStr ''LightningSendRequest''), (''id'', jfield rec ''id''),
       (''created_at'', or_null (jget rec ''created_at'')), (''updated_at'', JStr updated),
       (''network'', JStr (g_network env)), (''encoded_invoice'', or_null (jget p ''encoded_invoice'')),
       (''fee'', currency_amount 0), (''idempotency_key'', or_null (jget p ''idempotency_key'')),
       (''status'', JStr (public_send_status status))])])]))))"

section \<open>Lightning operations\<close>

definition requested_network :: "api_env \<Rightarrow> json \<Rightarrow> unit result" where
  "requested_network env input = (let requested = str_of input ''network'' in
     if requested = '''' then Inr () else validate_network_name (g_network env) requested)"

definition named_receiver_key :: "api_env \<Rightarrow> string \<Rightarrow> json \<Rightarrow> string result" where
  "named_receiver_key env owner input = (let requested = str_of input ''receiver_identity_pubkey'' in
     if requested = '''' then Inr owner
     else ok_or (g_public_key env requested) (Failure ''receiver_identity_pubkey must be a compressed public key''))"

definition expiry_secs_of :: "json \<Rightarrow> u32 result" where
  "expiry_secs_of input = (let n = (case opt_num input ''expiry_secs'' of Some n \<Rightarrow> n | None \<Rightarrow> 86400) in
     if n < 2 ^ 32 then (if n = 0 then Inl (Failure ''expiry_secs must be positive'') else Inr (ucast n))
     else Inl (Failure ''expiry_secs is out of range''))"

definition receive_quote_op :: "api_env \<Rightarrow> api_headers \<Rightarrow> json \<Rightarrow> (api_world, json) action" where
  "receive_quote_op env headers input =
     bind_action (session env headers) (\<lambda>owner.
     let amount = num_of input ''amount_sats'' in
     then_action (lift_result (validate_sats amount))
     (then_action (lift_result (requested_network env input))
     (bind_action (reading (g_uuid env)) (\<lambda>i. bind_action (clock env 2) (\<lambda>now1. bind_action (clock env 3) (\<lambda>now2.
      bind_action (on_db (issue_quote (g_quotes env) (g_network env) i now1 now2 owner amount input (h_partner headers))) (\<lambda>quote.
      ret (JObj [(''lightning_receive_quote'', quote)]))))))))"

definition receive_answer ::
  "api_env \<Rightarrow> json \<Rightarrow> string \<Rightarrow> (string \<times> json) list \<Rightarrow> u64 \<Rightarrow> string \<Rightarrow> string \<Rightarrow> string \<Rightarrow> json" where
  "receive_answer env i now invoice amount expires memo receiver =
     JObj [(''request_lightning_receive'', JObj [(''request'', JObj [
       (''__typename'', JStr ''LightningReceiveRequest''), (''id'', i), (''created_at'', JStr now), (''updated_at'', JStr now),
       (''network'', JStr (g_network env)),
       (''invoice'', JObj ([(''__typename'', JStr ''Invoice'')] @ invoice @ [(''bitcoin_network'', JStr (g_network env)),
          (''amount'', currency_amount amount), (''created_at'', JStr now), (''expires_at'', JStr expires), (''memo'', JStr memo)])),
       (''status'', JStr ''INVOICE_CREATED''), (''transfer'', JNull), (''receiver_identity_public_key'', JStr receiver)])])]"


definition request_bolt12_receive :: "api_env \<Rightarrow> api_headers \<Rightarrow> string \<Rightarrow> json \<Rightarrow> (api_world, json) action" where
  "request_bolt12_receive env headers now input =
     bind_action (session env headers) (\<lambda>owner.
     let amount = num_of input ''amount_sats''; memo = str_of input ''memo'' in
     then_action (lift_result (validate_sats amount))
     (then_action (lift_result (requested_network env input))
     (bind_action (lift_result (named_receiver_key env owner input)) (\<lambda>receiver.
      bind_action (lift_result (expiry_secs_of input)) (\<lambda>expiry.
      bind_action (clock env 2) (\<lambda>later. let expires = g_time env (later + uint expiry) in
      bind_action (create_bolt12_offer env amount memo expiry) (\<lambda>(offer, offer_id).
      bind_action (store_request env ''LIGHTNING_RECEIVE'' owner now
          (JObj [(''amount_sats'', juint amount), (''payment_hash'', JStr offer_id), (''offer_id'', JStr offer_id),
            (''payment_kind'', JStr ''BOLT12''), (''invoice'', JStr offer), (''network'', JStr (g_network env)),
            (''expiry_secs'', JInt (uint expiry)), (''receiver_identity_pubkey'', JStr receiver),
            (''invoice_expires_at'', JStr expires)]) None) (\<lambda>rec.
      then_action (on_db (set_receive_status offer_id ''INVOICE_CREATED''))
        (ret (receive_answer env (jfield rec ''id'') now
           [(''encoded_invoice'', JStr offer), (''payment_hash'', JStr ''''), (''offer_id'', JStr offer_id)]
           amount expires memo receiver))))))))))"

definition is_hex_digit :: "char \<Rightarrow> bool" where
  "is_hex_digit c \<longleftrightarrow> is_digit c \<or> CHR ''a'' \<le> c \<and> c \<le> CHR ''f'' \<or> CHR ''A'' \<le> c \<and> c \<le> CHR ''F''"

definition payment_hash_of :: "json \<Rightarrow> string result" where
  "payment_hash_of input = (let hash = ascii_lower (str_of input ''payment_hash'') in
     if length hash \<noteq> 64 \<or> \<not> list_all is_hex_digit hash then Inl (Failure ''payment_hash must be 32 bytes hex'')
     else Inr hash)"

definition request_lightning_receive :: "api_env \<Rightarrow> api_headers \<Rightarrow> string \<Rightarrow> json \<Rightarrow> (api_world, json) action" where
  "request_lightning_receive env headers now input =
     bind_action (session env headers) (\<lambda>owner.
     let amount = num_of input ''amount_sats''; memo = str_of input ''memo'' in
     then_action (lift_result (validate_sats amount))
     (then_action (lift_result (requested_network env input))
     (bind_action (lift_result (payment_hash_of input)) (\<lambda>hash.
      bind_action (on_db (lightning_receive_for_hash hash)) (\<lambda>taken.
      if taken \<noteq> None then throw (Failure ''payment_hash already has a Lightning receive request'')
      else bind_action (lift_result (named_receiver_key env owner input)) (\<lambda>receiver.
      bind_action (clock env 2) (\<lambda>quote_now.
      bind_action (on_db (validate_quote (g_quotes env) (g_network env) quote_now owner receiver hash amount input)) (\<lambda>quote_id.
      bind_action (lift_result (expiry_secs_of input)) (\<lambda>expiry.
      bind_action (clock env 3) (\<lambda>later. let expires = g_time env (later + uint expiry) in
      bind_action (handle (create_invoice env amount hash memo expiry) ret
          (\<lambda>e. throw (Failure (''ldk create_invoice: '' @ error_text e)))) (\<lambda>invoice.
      bind_action (store_request env ''LIGHTNING_RECEIVE'' owner now
          (JObj [(''amount_sats'', juint amount), (''payment_hash'', JStr hash), (''invoice'', JStr invoice),
            (''network'', JStr (g_network env)), (''expiry_secs'', JInt (uint expiry)),
            (''receiver_identity_pubkey'', JStr receiver), (''invoice_expires_at'', JStr expires),
            (''quote_transfer_id'', jopt JStr quote_id)]) None) (\<lambda>rec.
      then_action (on_db (set_receive_status hash ''INVOICE_CREATED''))
        (ret (receive_answer env (JStr (text_of rec ''id'')) now
           [(''encoded_invoice'', JStr invoice), (''payment_hash'', JStr hash)] amount expires memo receiver))))))))))))))"

text \<open>The stored request of the same key must be for the same invoice, transfer and amount.\<close>

definition same_payment :: "json \<Rightarrow> string \<Rightarrow> string \<Rightarrow> u64 option \<Rightarrow> bool" where
  "same_payment payload invoice ext_id amount \<longleftrightarrow>
     as_str (jfield payload ''encoded_invoice'') = Some invoice \<and>
     as_str (jfield payload ''user_outbound_transfer_external_id'') = Some ext_id \<and>
     as_u64 (jfield payload ''amount_sats'') = amount"

definition resume_send :: "api_env \<Rightarrow> json \<Rightarrow> (api_world, unit) action" where
  "resume_send env rec =
     bind_action (on_db (lightning_send_for_payment (case as_str (jfield rec ''id'') of Some s \<Rightarrow> s | None \<Rightarrow> ''''))) (\<lambda>found.
     case found of Some send \<Rightarrow> in_lightning (submit_send (g_lightning env) send) | None \<Rightarrow> ret ())"

text \<open>Under \<open>send_lock\<close>.\<close>

definition request_lightning_send :: "api_env \<Rightarrow> api_headers \<Rightarrow> json \<Rightarrow> (api_world, json) action" where
  "request_lightning_send env headers input =
     bind_action (session env headers) (\<lambda>owner.
     let invoice = str_of input ''encoded_invoice''; amount = opt_num input ''amount_sats'';
         ext_id = str_of input ''user_outbound_transfer_external_id'';
         explicit = str_of input ''idempotency_key'';
         key = (if explicit = '''' then ext_id else explicit) in
     if invoice = '''' then throw (Failure ''encoded_invoice is required'')
     else if ext_id = '''' then throw (Failure ''user_outbound_transfer_external_id is required'')
     else bind_action (on_db (find_by_idempotency owner key)) (\<lambda>found.
       case found of
         Some rec \<Rightarrow>
           if \<not> same_payment (jfield rec ''payload'') invoice ext_id amount
           then throw (Failure ''idempotency key was already used for another payment'')
           else then_action (resume_send env rec) (send_response env rec)
       | None \<Rightarrow>
           bind_action (prepare_funded_send env owner ext_id invoice amount) (\<lambda>send.
           bind_action (clock env 3) (\<lambda>created.
           bind_action (on_db (prepare_lightning_send (g_time env created) send key (g_network env))) (\<lambda>rec.
           then_action (in_lightning (submit_send (g_lightning env) send)) (send_response env rec))))))"

section \<open>Swaps\<close>

definition max_swap_targets :: nat where "max_swap_targets = 32"

text \<open>A list of target amounts, or one number.\<close>

definition swap_targets_of :: "json \<Rightarrow> u64 list result" where
  "swap_targets_of input = (case jget input ''target_amount_sats'' of
     None \<Rightarrow> Inr []
   | Some v \<Rightarrow> (case json_list v of
       Some xs \<Rightarrow> if length xs > max_swap_targets then Inl (Failure ''target_amount_sats accepts at most 32 targets'')
         else collect_results (\<lambda>e. ok_or (as_u64 e) (Failure ''target amounts must be numbers'')) xs
     | None \<Rightarrow> Inr (case as_u64 v of Some n \<Rightarrow> [n] | None \<Rightarrow> [])))"

text \<open>The checks between the swap's total and its payout.\<close>

definition swap_amounts :: "api_env \<Rightarrow> u64 \<Rightarrow> json \<Rightarrow> (u64 list \<times> u64 \<times> u64) result" where
  "swap_amounts env swap_total input =
     and_then (swap_targets_of input) (\<lambda>targets.
     and_then (ok_or (checked_sum 0 targets) (Failure ''target amount overflow'')) (\<lambda>target.
     and_then (ok_or (checked_sub swap_total (g_swap_fee env)) (Failure ''swap fee exceeds total'')) (\<lambda>payout.
     if target > payout then Inl (Failure ''target amounts plus fee exceed swap total'')
     else Inr (targets, target, payout))))"

definition is_compressed_hex :: "string \<Rightarrow> bool" where
  "is_compressed_hex s \<longleftrightarrow> length s = 66 \<and> list_all is_hex_digit s"

definition swap_answer :: "api_env \<Rightarrow> json \<Rightarrow> string \<Rightarrow> string \<Rightarrow> u64 \<Rightarrow> u64 \<Rightarrow> swap_fill \<Rightarrow> json" where
  "swap_answer env i now updated swap_total target fill =
     JObj [(''request_swap'', JObj [(''request'', JObj [
       (''__typename'', JStr ''LeavesSwapRequest''), (''id'', i), (''created_at'', JStr now), (''updated_at'', JStr updated),
       (''network'', JStr (g_network env)), (''status'', JStr ''OUTBOUND_TRANSFER_SENT''),
       (''total_amount'', currency_amount swap_total), (''target_amount'', currency_amount target),
       (''fee'', currency_amount (g_swap_fee env)),
       (''inbound_transfer'', JObj [(''__typename'', JStr ''Transfer''), (''total_amount'', currency_amount swap_total),
          (''spark_id'', JStr (sf_transfer_id fill)),
          (''user_request'', JObj [(''__typename'', JStr ''LeavesSwapRequest''), (''id'', i)])]),
       (''swap_leaves'', JArr (sf_leaves fill)), (''expires_at'', jopt JStr (sf_expires_at fill))])])]"

definition store_swap ::
  "api_env \<Rightarrow> string \<Rightarrow> string \<Rightarrow> string \<Rightarrow> u64 \<Rightarrow> u64 \<Rightarrow> swap_fill \<Rightarrow> (api_world, json) action" where
  "store_swap env owner now ext_id swap_total target fill =
     bind_action (store_request env ''LEAVES_SWAP'' owner now
       (JObj [(''total_amount_sats'', juint swap_total), (''target_amount_sats'', juint target), (''fee_sats'', juint (g_swap_fee env)),
         (''inbound_transfer_spark_id'', JStr (sf_transfer_id fill)), (''outbound_transfer_spark_id'', JStr ext_id),
         (''network'', JStr (g_network env)), (''status'', JStr ''OUTBOUND_TRANSFER_SENT''),
         (''swap_leaves'', JArr (sf_leaves fill)), (''expires_at'', jopt JStr (sf_expires_at fill))]) None) (\<lambda>rec.
     let rid = text_of rec ''id'' in
     then_action (on_db (insert_transfer (sf_transfer_id fill) rid ''COUNTER_SWAP'' ''CREATED'' owner))
     (then_action (if ext_id \<noteq> '''' then on_db (insert_transfer ext_id rid ''TRANSFER'' ''CREATED'' owner) else ret ())
     (bind_action (updated_at env rid) (\<lambda>updated.
      ret (swap_answer env (jfield rec ''id'') now updated swap_total target fill)))))"

definition request_swap :: "api_env \<Rightarrow> api_headers \<Rightarrow> string \<Rightarrow> json \<Rightarrow> (api_world, json) action" where
  "request_swap env headers now input =
     bind_action (session env headers) (\<lambda>owner.
     let swap_total = num_of input ''total_amount_sats''; identity = s_identity (g_wallet env);
         ext_id = str_of input ''user_outbound_transfer_external_id''; adaptor = str_of input ''adaptor_pubkey'' in
     if swap_total = 0 then throw (Failure ''swap total must be positive'')
     else if identity \<noteq> '''' \<and> owner = identity then throw (Failure ''NEEDS_TOPUP: SSP ladder depleted, top up liquidity'')
     else if g_max_swap env > 0 \<and> swap_total > g_max_swap env
     then throw (Failure (''swap total '' @ decimal (unat swap_total) @ '' exceeds operator cap '' @ decimal (unat (g_max_swap env))))
     else if ext_id = '''' then throw (Failure ''user_outbound_transfer_external_id is required'')
     else if \<not> is_compressed_hex adaptor then throw (Failure ''adaptor_pubkey must be a compressed public key'')
     else bind_action (lift_result (swap_amounts env swap_total input)) (\<lambda>(targets, target, payout).
       bind_action (in_wallet (fill_swap (g_wallet env) owner ext_id adaptor targets swap_total payout)) (\<lambda>fill.
       store_swap env owner now ext_id swap_total target fill)))"


section \<open>Other operations\<close>

definition get_challenge_op :: "api_env \<Rightarrow> json \<Rightarrow> json \<Rightarrow> (api_world, json) action" where
  "get_challenge_op env input variables =
     (let pk = (case Option.bind (jget input ''public_key'') as_str of Some s \<Rightarrow> s
        | None \<Rightarrow> text_of variables ''public_key'') in
      bind_action (reading (g_nonce env)) (\<lambda>nonce. bind_action (clock env 1) (\<lambda>stamp. bind_action (clock env 2) (\<lambda>saved.
      bind_action (on_db (get_challenge (g_auth env) nonce stamp saved pk)) (\<lambda>protected.
      ret (JObj [(''get_challenge'', JObj [(''__typename'', JStr ''GetChallengeOutput''),
        (''protected_challenge'', JStr protected)])]))))))"

definition verify_challenge_op :: "api_env \<Rightarrow> json \<Rightarrow> (api_world, json) action" where
  "verify_challenge_op env input =
     bind_action (clock env 1) (\<lambda>now1. bind_action (clock env 2) (\<lambda>now2. bind_action (reading (g_token env)) (\<lambda>token.
     bind_action (on_db (verify_challenge (g_auth env) now1 now2 token (str_of input ''identity_public_key'')
         (str_of input ''protected_challenge'') (str_of input ''signature''))) (\<lambda>(token, valid_until).
     ret (JObj [(''verify_challenge'', JObj [(''__typename'', JStr ''VerifyChallengeOutput''),
       (''session_token'', JStr token), (''valid_until'', JStr (g_time env valid_until))])])))))"

definition swap_fee_estimate :: "api_env \<Rightarrow> (api_world, json) action" where
  "swap_fee_estimate env = ret (JObj [(''leaves_swap_fee_estimate'', JObj [(''fee_estimate'', currency_amount (g_swap_fee env))])])"

definition send_fee_estimate :: "json \<Rightarrow> (api_world, json) action" where
  "send_fee_estimate input =
     (let msat = fee_estimate_msat (str_of input ''encoded_invoice'') (opt_num input ''amount_sats'') in
      ret (JObj [(''lightning_send_fee_estimate'', JObj [(''fee_estimate'', currency_amount (msat div 1000))])]))"

definition service :: "'a option \<Rightarrow> string \<Rightarrow> (api_world, 'a) action" where
  "service x message = lift_result (ok_or x (Failure message))"

text \<open>The ids of a JSON array, or None.\<close>

definition string_list :: "json \<Rightarrow> string list option" where
  "string_list v = (case json_list v of
     Some xs \<Rightarrow> if list_all (\<lambda>x. as_str x \<noteq> None) xs then Some (List.map_filter as_str xs) else None
   | None \<Rightarrow> None)"

definition exit_quote_for :: "api_env \<Rightarrow> string \<Rightarrow> json \<Rightarrow> (api_world, exit_env \<times> exit_quote) action" where
  "exit_quote_for env owner input =
     bind_action (service (g_exit env) ''cooperative withdrawals are not configured'') (\<lambda>exits.
     bind_action (in_exit (quote_exit exits owner (string_list (jfield input ''leaf_external_ids''))
         (as_str (jfield input ''withdrawal_address'')))) (\<lambda>quote. ret (exits, quote)))"

definition exit_fee_estimates :: "api_env \<Rightarrow> api_headers \<Rightarrow> json \<Rightarrow> (api_world, json) action" where
  "exit_fee_estimates env headers input =
     bind_action (session env headers) (\<lambda>owner.
     bind_action (exit_quote_for env owner input) (\<lambda>(_, quote).
     let speed = (\<lambda>n. JObj [(''user_fee'', currency_amount (eq_user_fee quote)), (''l1_broadcast_fee'', currency_amount (eq_fees quote ! n))]) in
     ret (JObj [(''coop_exit_fee_estimates'', JObj [(''speed_fast'', speed 0), (''speed_medium'', speed 1), (''speed_slow'', speed 2)])])))"

definition exit_fee_quote :: "api_env \<Rightarrow> api_headers \<Rightarrow> json \<Rightarrow> (api_world, json) action" where
  "exit_fee_quote env headers input =
     bind_action (session env headers) (\<lambda>owner.
     bind_action (exit_quote_for env owner input) (\<lambda>(exits, quote).
     ret (JObj [(''coop_exit_fee_quote'', JObj [(''quote'', quote_response exits quote)])])))"

definition user_requests_page :: "api_env \<Rightarrow> api_headers \<Rightarrow> json \<Rightarrow> (api_world, json) action" where
  "user_requests_page env headers variables =
     bind_action (session env headers) (\<lambda>owner.
     bind_action (on_db (request_history (g_codec env) owner variables (g_network env))) (\<lambda>page.
     bind_action (map_action (user_request_union env) (pg_records page)) (\<lambda>entities.
     ret (JObj [(''current_user'', JObj [(''user_requests'', JObj [
       (''__typename'', JStr ''SparkWalletUserToUserRequestsConnection''), (''count'', JInt (int (pg_count page))),
       (''page_info'', JObj [(''__typename'', JStr ''PageInfo''), (''has_next_page'', JBool (pg_has_next page)),
          (''has_previous_page'', JBool (pg_has_previous page)), (''start_cursor'', jopt JStr (pg_start page)),
          (''end_cursor'', jopt JStr (pg_end page))]),
       (''entities'', JArr entities)])])]))))"

definition static_quote_op :: "api_env \<Rightarrow> api_headers \<Rightarrow> json \<Rightarrow> (api_world, json) action" where
  "static_quote_op env headers input =
     bind_action (session env headers) (\<lambda>owner.
     bind_action (service (g_deposit env) ''confirmed static deposits require the Bitcoin wallet and private operator endpoints'') (\<lambda>deposits.
     bind_action (in_deposit (static_quote deposits owner input)) (\<lambda>quote.
     ret (JObj [(''static_deposit_quote'', quote)]))))"

definition static_claim_op :: "api_env \<Rightarrow> api_headers \<Rightarrow> json \<Rightarrow> (api_world, json) action" where
  "static_claim_op env headers input =
     bind_action (session env headers) (\<lambda>owner.
     bind_action (service (g_deposit env) ''confirmed static deposits are not configured'') (\<lambda>deposits.
     bind_action (in_deposit (static_claim deposits owner input)) (\<lambda>transfer_id.
     ret (JObj [(''claim_static_deposit'', JObj [(''__typename'', JStr ''ClaimStaticDepositOutput''),
       (''transfer_id'', JStr transfer_id)])]))))"

definition instant_quote_op :: "api_env \<Rightarrow> api_headers \<Rightarrow> json \<Rightarrow> (api_world, json) action" where
  "instant_quote_op env headers input =
     bind_action (session env headers) (\<lambda>owner.
     bind_action (service (g_deposit env) ''instant deposits require the Bitcoin wallet and private operator endpoints'') (\<lambda>deposits.
     bind_action (in_deposit (quote_instant deposits owner input)) (\<lambda>quote.
     ret (JObj [(''create_instant_static_deposit_quote'', quote)]))))"

definition instant_claim_op :: "api_env \<Rightarrow> api_headers \<Rightarrow> json \<Rightarrow> (api_world, json) action" where
  "instant_claim_op env headers input =
     bind_action (session env headers) (\<lambda>owner.
     bind_action (service (g_deposit env) ''instant deposits are not configured'') (\<lambda>deposits.
     bind_action (in_deposit (instant_claim_request deposits owner input)) (\<lambda>claim.
     ret (JObj [(''create_claim_instant_static_deposit'', claim)]))))"

definition request_exit_op :: "api_env \<Rightarrow> api_headers \<Rightarrow> json \<Rightarrow> (api_world, json) action" where
  "request_exit_op env headers input =
     bind_action (session env headers) (\<lambda>owner.
     bind_action (service (g_exit env) ''cooperative withdrawals are not configured'') (\<lambda>exits.
     bind_action (in_exit (request_exit exits owner (g_exit_input env input))) (\<lambda>answer.
     ret (JObj [(''request_coop_exit'', JObj [(''request'', answer)])]))))"

definition complete_exit_op :: "api_env \<Rightarrow> api_headers \<Rightarrow> json \<Rightarrow> (api_world, json) action" where
  "complete_exit_op env headers input =
     bind_action (session env headers) (\<lambda>owner.
     bind_action (service (g_exit env) ''cooperative withdrawals are not configured'') (\<lambda>exits.
     bind_action (in_exit (complete_exit exits owner (as_str (jfield input ''user_outbound_transfer_external_id''))
         (Option.bind (jget input ''coop_exit_request_id'') as_str))) (\<lambda>answer.
     ret (JObj [(''complete_coop_exit'', JObj [(''request'', answer)])]))))"

definition transfer_entry :: "api_env \<Rightarrow> string \<Rightarrow> json \<Rightarrow> (api_world, json) action" where
  "transfer_entry env owner row =
     bind_action (lift_result (ok_or (Option.bind (jget row ''user_request_id'') as_str) (Failure ''transfer has no user request id''))) (\<lambda>request_id.
     bind_action (on_db (get_request request_id owner)) (\<lambda>found.
     bind_action (lift_result (ok_or found (Failure (''transfer request '' @ request_id @ '' was not found'')))) (\<lambda>request.
     bind_action (user_request_union env request) (\<lambda>entry. ret (transfer_response row entry)))))"

definition transfers_op :: "api_env \<Rightarrow> api_headers \<Rightarrow> json \<Rightarrow> json \<Rightarrow> (api_world, json) action" where
  "transfers_op env headers input variables =
     bind_action (session env headers) (\<lambda>owner.
     bind_action (on_db (transfers_for (ids_of input variables) owner)) (\<lambda>rows.
     bind_action (map_action (transfer_entry env owner) rows) (\<lambda>entries.
     ret (JObj [(''transfers'', JArr entries)]))))"

definition user_request_op :: "api_env \<Rightarrow> api_headers \<Rightarrow> json \<Rightarrow> (api_world, json) action" where
  "user_request_op env headers input =
     bind_action (session env headers) (\<lambda>owner.
     bind_action (on_db (get_request (str_of input ''request_id'') owner)) (\<lambda>found.
     case found of
       Some rec \<Rightarrow> bind_action (user_request_union env rec) (\<lambda>entry. ret (JObj [(''user_request'', entry)]))
     | None \<Rightarrow> ret (JObj [(''user_request'', JNull)])))"

definition wallet_webhooks_op :: "api_env \<Rightarrow> api_headers \<Rightarrow> (api_world, json) action" where
  "wallet_webhooks_op env headers =
     bind_action (session env headers) (\<lambda>owner.
     bind_action (on_db (list_webhooks owner)) (\<lambda>hooks.
     ret (JObj [(''wallet_webhooks'', JObj [(''webhooks'', JArr hooks)])])))"

definition register_webhook_op :: "api_env \<Rightarrow> api_headers \<Rightarrow> json \<Rightarrow> (api_world, json) action" where
  "register_webhook_op env headers input =
     bind_action (session env headers) (\<lambda>owner.
     bind_action (in_webhook (register_webhook (g_webhook env) (g_allow_local env) owner input)) (\<lambda>i.
     ret (JObj [(''register_wallet_webhook'', JObj [(''webhook_id'', JStr i)])])))"

definition delete_webhook_op :: "api_env \<Rightarrow> api_headers \<Rightarrow> json \<Rightarrow> (api_world, json) action" where
  "delete_webhook_op env headers input =
     bind_action (session env headers) (\<lambda>owner.
     bind_action (on_db (delete_webhook owner (str_of input ''webhook_id''))) (\<lambda>deleted.
     ret (JObj [(''delete_wallet_webhook'', JObj [(''success'', JBool deleted)])])))"

section \<open>Dispatch\<close>

datatype operation =
    GetChallenge | VerifyChallenge | SwapFeeEstimate | SendFeeEstimate
  | ExitFeeEstimates | ExitFeeQuote | UserRequests | ReceiveQuote | Bolt12Receive | LightningReceive
  | LightningSend | Swap | StaticQuote | StaticClaim | InstantQuote | InstantClaim | CoopExit
  | CompleteExit | TransferList | UserRequest | WebhookList | WebhookRegister | WebhookDelete

text \<open>The names an operation answers to: the SDK's and the schema's.\<close>

definition operation_names :: "(operation \<times> string list) list" where
  "operation_names = [
     (GetChallenge, [''GetChallenge'', ''get_challenge'']),
     (VerifyChallenge, [''VerifyChallenge'', ''verify_challenge'']),
     (SwapFeeEstimate, [''LeavesSwapFeeEstimate'', ''leaves_swap_fee_estimate'']),
     (SendFeeEstimate, [''LightningSendFeeEstimate'', ''lightning_send_fee_estimate'']),
     (ExitFeeEstimates, [''CoopExitFeeEstimate'', ''CoopExitFeeEstimates'', ''coop_exit_fee_estimates'']),
     (ExitFeeQuote, [''CoopExitFeeQuote'', ''coop_exit_fee_quote'']),
     (UserRequests, [''FetchCurrentUserToUserRequestsConnection'', ''fetch_current_user_to_user_requests_connection'']),
     (ReceiveQuote, [''LightningReceiveQuote'', ''lightning_receive_quote'']),
     (Bolt12Receive, [''RequestBolt12Receive'', ''request_bolt12_receive'']),
     (LightningReceive, [''RequestLightningReceive'', ''request_lightning_receive'']),
     (LightningSend, [''RequestLightningSend'', ''request_lightning_send'']),
     (Swap, [''RequestSwap'', ''request_swap'']),
     (StaticQuote, [''StaticDepositQuote'', ''static_deposit_quote'']),
     (StaticClaim, [''ClaimStaticDeposit'', ''claim_static_deposit'']),
     (InstantQuote, [''CreateInstantStaticDepositQuote'', ''create_instant_static_deposit_quote'']),
     (InstantClaim, [''ClaimInstantStaticDeposit'', ''CreateClaimInstantStaticDeposit'', ''create_claim_instant_static_deposit'']),
     (CoopExit, [''RequestCoopExit'', ''request_coop_exit'']),
     (CompleteExit, [''CompleteCoopExit'', ''complete_coop_exit'']),
     (TransferList, [''Transfers'', ''transfers'']),
     (UserRequest, [''UserRequest'', ''user_request'']),
     (WebhookList, [''WalletWebhooks'', ''wallet_webhooks'', ''ListSparkWalletWebhooks'']),
     (WebhookRegister, [''RegisterWalletWebhook'', ''register_wallet_webhook'']),
     (WebhookDelete, [''DeleteWalletWebhook'', ''delete_wallet_webhook''])]"

definition operation_of :: "string \<Rightarrow> operation option" where
  "operation_of op = map_option fst (first_row (\<lambda>(_, names). op \<in> set names) operation_names)"

fun run_operation :: "api_env \<Rightarrow> api_headers \<Rightarrow> string \<Rightarrow> json \<Rightarrow> json \<Rightarrow> operation \<Rightarrow> (api_world, json) action" where
  "run_operation env headers now input v GetChallenge = get_challenge_op env input v"
| "run_operation env headers now input v VerifyChallenge = verify_challenge_op env input"
| "run_operation env headers now input v SwapFeeEstimate = swap_fee_estimate env"
| "run_operation env headers now input v SendFeeEstimate = send_fee_estimate input"
| "run_operation env headers now input v ExitFeeEstimates = exit_fee_estimates env headers input"
| "run_operation env headers now input v ExitFeeQuote = exit_fee_quote env headers input"
| "run_operation env headers now input v UserRequests = user_requests_page env headers v"
| "run_operation env headers now input v ReceiveQuote = receive_quote_op env headers input"
| "run_operation env headers now input v Bolt12Receive = request_bolt12_receive env headers now input"
| "run_operation env headers now input v LightningReceive = request_lightning_receive env headers now input"
| "run_operation env headers now input v LightningSend = request_lightning_send env headers input"
| "run_operation env headers now input v Swap = request_swap env headers now input"
| "run_operation env headers now input v StaticQuote = static_quote_op env headers input"
| "run_operation env headers now input v StaticClaim = static_claim_op env headers input"
| "run_operation env headers now input v InstantQuote = instant_quote_op env headers input"
| "run_operation env headers now input v InstantClaim = instant_claim_op env headers input"
| "run_operation env headers now input v CoopExit = request_exit_op env headers input"
| "run_operation env headers now input v CompleteExit = complete_exit_op env headers input"
| "run_operation env headers now input v TransferList = transfers_op env headers input v"
| "run_operation env headers now input v UserRequest = user_request_op env headers input"
| "run_operation env headers now input v WebhookList = wallet_webhooks_op env headers"
| "run_operation env headers now input v WebhookRegister = register_webhook_op env headers input"
| "run_operation env headers now input v WebhookDelete = delete_webhook_op env headers input"

definition dispatch :: "api_env \<Rightarrow> api_headers \<Rightarrow> string \<Rightarrow> json \<Rightarrow> (api_world, json) action" where
  "dispatch env headers op variables =
     (let input = (case jget variables ''input'' of Some v \<Rightarrow> v | None \<Rightarrow> variables) in
      bind_action (clock env 0) (\<lambda>now.
      case operation_of op of
        None \<Rightarrow> throw (Failure (''unsupported SSP operation: '' @ op))
      | Some operation \<Rightarrow> run_operation env headers (g_time env now) input variables operation))"

end
