(* ===== verification/Http.thy ===== *)
theory Http
  imports Gateway
begin

text \<open>
  The HTTP service (src/src/main.rs): request bodies are inflated and parsed, the operation is
  named, dispatched, and its answer given the aliases of the query; administrators are known by
  a token; the maintenance turn prunes expired rows. Decompression, UTF-8 decoding, the JSON
  parser and SHA-256 are arguments.
\<close>

section \<open>Bodies\<close>

record graphql_request =
  gq_query :: string
  gq_variables :: json
  gq_operation :: "string option"

text \<open>What a decoder yields of an input: the bytes it can produce, and whether it ends without an error.\<close>

type_synonym decoder = "bytes \<Rightarrow> bytes \<times> bool"

record http_env =
  n_api :: api_env
  n_zlib :: decoder
  n_deflate :: decoder
  n_utf8 :: "bytes \<Rightarrow> string option"
  n_parse :: "string \<Rightarrow> graphql_request result"
  n_sha256 :: "string \<Rightarrow> bytes"
  n_admin_token :: string
  n_allow_no_auth :: bool
  n_address :: "api_call list \<Rightarrow> string result"
  n_transaction :: "string \<Rightarrow> string result"
  n_claim :: "api_call list \<Rightarrow> string \<Rightarrow> u32 \<Rightarrow> u64 list result"
  n_spark_address :: "string result"
  n_backend :: string
  n_node_id :: string
  n_instant_max :: u64
  n_instant_deposit_max :: u64

definition max_inflated_bytes :: nat where "max_inflated_bytes = 8 * 1024 * 1024"

text \<open>At most one byte over the limit is read; an error behind it is not seen.\<close>

definition read_capped :: "bytes \<times> bool \<Rightarrow> bytes result" where
  "read_capped d = (case d of (out, ok) \<Rightarrow>
     if length out > max_inflated_bytes then Inl (Failure ''deflate body exceeds limit'')
     else if ok then Inr out else Inl (Failure ''corrupt deflate stream''))"

definition inflate_raw_deflate :: "http_env \<Rightarrow> bytes \<Rightarrow> bytes result" where
  "inflate_raw_deflate env input = (case read_capped (n_zlib env input) of
     Inr out \<Rightarrow> Inr out
   | Inl _ \<Rightarrow> read_capped (n_deflate env input))"

section \<open>Operations\<close>

definition is_separator :: "char \<Rightarrow> bool" where
  "is_separator c \<longleftrightarrow> is_space c \<or> c = CHR ''{'' \<or> c = CHR ''('' \<or> c = CHR '')''"

text \<open>\<open>split_whitespace\<close> after the replacement.\<close>

fun words_of :: "string \<Rightarrow> string \<Rightarrow> string list" where
  "words_of current [] = (if current = [] then [] else [current])"
| "words_of current (c # cs) =
     (if is_separator c then (if current = [] then words_of [] cs else current # words_of [] cs)
      else words_of (current @ [c]) cs)"

fun named_operation :: "string \<Rightarrow> string list \<Rightarrow> string option" where
  "named_operation prev [] = None"
| "named_operation prev (t # ts) =
     (if prev = ''query'' \<or> prev = ''mutation'' then Some t else named_operation t ts)"

definition known_operations :: "string list" where
  "known_operations = [''GetChallenge'', ''VerifyChallenge'', ''LightningReceiveQuote'', ''RequestLightningReceive'',
     ''RequestLightningSend'', ''RequestSwap'', ''LeavesSwapFeeEstimate'', ''LightningSendFeeEstimate'',
     ''StaticDepositQuote'', ''ClaimStaticDeposit'', ''CreateInstantStaticDepositQuote'', ''CreateClaimInstantStaticDeposit'',
     ''RequestCoopExit'', ''CompleteCoopExit'', ''CoopExitFeeEstimates'', ''CoopExitFeeEstimate'', ''CoopExitFeeQuote'',
     ''Transfers'', ''UserRequest'', ''FetchCurrentUserToUserRequestsConnection'', ''RegisterWalletWebhook'',
     ''DeleteWalletWebhook'', ''ListSparkWalletWebhooks'']"

definition detect_operation :: "graphql_request \<Rightarrow> string" where
  "detect_operation req = (case gq_operation req of
     Some (c # name) \<Rightarrow> c # name
   | _ \<Rightarrow> (case named_operation '''' (words_of '''' (gq_query req)) of
       Some op \<Rightarrow> op
     | None \<Rightarrow> (case first_row (contains (gq_query req)) known_operations of
         Some op \<Rightarrow> op | None \<Rightarrow> ''Unknown'')))"

section \<open>The GraphQL endpoint\<close>

definition graphql_error :: "string \<Rightarrow> json" where
  "graphql_error message = JObj [(''errors'', JArr [JObj [(''message'', JStr message)]])]"

text \<open>An answer is a status and a body; no request can make the endpoint fail.\<close>

type_synonym http_answer = "nat \<times> json"

definition read_body :: "http_env \<Rightarrow> bool \<Rightarrow> bytes \<Rightarrow> graphql_request result" where
  "read_body env deflated body =
     and_then (if deflated then (case inflate_raw_deflate env body of
         Inl _ \<Rightarrow> Inl (Failure ''bad deflate body'') | Inr raw \<Rightarrow> Inr raw) else Inr body) (\<lambda>raw.
     and_then (ok_or (n_utf8 env raw) (Failure ''bad graphql body'')) (\<lambda>text.
     case n_parse env text of
       Inl e \<Rightarrow> Inl (Failure (''bad graphql body: '' @ error_text e)) | Inr req \<Rightarrow> Inr req))"

definition graphql_handler :: "http_env \<Rightarrow> api_headers \<Rightarrow> bool \<Rightarrow> bytes \<Rightarrow> api_world \<Rightarrow> http_answer \<times> api_world" where
  "graphql_handler env headers deflated body w = (case read_body env deflated body of
     Inl e \<Rightarrow> ((200, graphql_error (error_text e)), w)
   | Inr req \<Rightarrow> (case dispatch (n_api env) headers (detect_operation req) (gq_variables req) w of
       (Inr data, w') \<Rightarrow> ((200, JObj [(''data'', apply_query_aliases data (gq_query req))]), w')
     | (Inl e, w') \<Rightarrow> ((200, graphql_error (error_text e)), w')))"

section \<open>Administration\<close>

definition admin_authorized :: "http_env \<Rightarrow> api_headers \<Rightarrow> bool" where
  "admin_authorized env headers =
     (if n_admin_token env = '''' then n_allow_no_auth env
      else let header = (case h_authorization headers of Some h \<Rightarrow> h | None \<Rightarrow> '''');
               supplied = (if is_prefix_str ''Bearer '' header then drop 7 header else '''') in
        n_sha256 env supplied = n_sha256 env (n_admin_token env))"

definition unauthorized_answer :: http_answer where
  "unauthorized_answer = (401, JObj [(''error'', JStr ''unauthorized'')])"

definition admin_error :: "nat \<Rightarrow> error \<Rightarrow> http_answer" where
  "admin_error status e = (status, JObj [(''error'', JStr (error_text e))])"

definition answer_with :: "nat \<Rightarrow> ('a \<Rightarrow> json) \<Rightarrow> (api_world, 'a) action \<Rightarrow> api_world \<Rightarrow> http_answer \<times> api_world" where
  "answer_with status f m w = (case m w of
     (Inr x, w') \<Rightarrow> ((200, f x), w') | (Inl e, w') \<Rightarrow> (admin_error status e, w'))"

definition spark_deposit_address :: "http_env \<Rightarrow> api_headers \<Rightarrow> api_world \<Rightarrow> http_answer \<times> api_world" where
  "spark_deposit_address env headers w =
     (if \<not> admin_authorized env headers then (unauthorized_answer, w)
      else answer_with 500 (\<lambda>a. JObj [(''address'', JStr a)]) (ask NewDepositAddress (n_address env)) w)"

text \<open>The transaction is decoded before the wallet is asked; \<open>n_transaction\<close> says whether it decodes.\<close>

definition claim_deposit :: "http_env \<Rightarrow> string \<Rightarrow> u32 \<Rightarrow> (api_world, u64 list) action" where
  "claim_deposit env transaction_hex vout =
     bind_action (lift_result (n_transaction env transaction_hex)) (\<lambda>tx.
     ask (ClaimDeposit tx vout) (\<lambda>h. n_claim env h tx vout))"

definition spark_claim_deposit :: "http_env \<Rightarrow> api_headers \<Rightarrow> string \<Rightarrow> u32 \<Rightarrow> api_world \<Rightarrow> http_answer \<times> api_world" where
  "spark_claim_deposit env headers transaction_hex vout w =
     (if \<not> admin_authorized env headers then (unauthorized_answer, w)
      else answer_with 500 (\<lambda>values. JObj [(''ok'', JBool True), (''leaf_values'', JArr (map juint values))])
        (claim_deposit env transaction_hex vout) w)"

definition reconcile_settlement :: "http_env \<Rightarrow> api_headers \<Rightarrow> string \<Rightarrow> api_world \<Rightarrow> http_answer \<times> api_world" where
  "reconcile_settlement env headers request_id w =
     (if \<not> admin_authorized env headers then (unauthorized_answer, w)
      else answer_with 400 (\<lambda>s. JObj [(''state'', JStr s)])
        (in_lightning (reconcile_request (g_lightning (n_api env)) request_id)) w)"

definition bump_withdrawal :: "http_env \<Rightarrow> api_headers \<Rightarrow> string \<Rightarrow> u64 \<Rightarrow> u64 \<Rightarrow> api_world \<Rightarrow> http_answer \<times> api_world" where
  "bump_withdrawal env headers request_id rate max_fee w =
     (if \<not> admin_authorized env headers then (unauthorized_answer, w)
      else answer_with 400 (\<lambda>v. v) (case g_exit (n_api env) of
          Some exits \<Rightarrow> in_exit (bump_fee exits request_id rate max_fee)
        | None \<Rightarrow> throw (Failure ''cooperative withdrawals are not configured'')) w)"

text \<open>What is not settled: one row per open send, deposit, advance, receive and withdrawal.\<close>

definition settlement_row :: "string \<Rightarrow> string \<Rightarrow> string \<Rightarrow> string option \<Rightarrow> string option \<Rightarrow> json" where
  "settlement_row i kind state payment err = JObj [(''request_id'', JStr i), (''kind'', JStr kind), (''state'', JStr state),
     (''backend_payment_id'', jopt JStr payment), (''last_error'', jopt JStr err)]"

definition receive_progress :: "db \<Rightarrow> receive_row \<Rightarrow> receive_status" where
  "receive_progress d r = rp_status (Receives.joined_progress d (lr_hash r))"

definition unsettled :: "db \<Rightarrow> json list" where
  "unsettled d = take 1000 (
     map (\<lambda>s. settlement_row (ls_request_id s) (send_kind_str (ls_kind s)) (send_status_str (ls_status s)) (ls_payment_id s) (ls_last_error s))
       (filter (\<lambda>s. \<not> terminal (ls_status s)) (lightning_sends d)) @
     map (\<lambda>c. settlement_row (dcr_id c) ''STATIC_DEPOSIT'' (dc_phase (dcr_data c)) None (dcr_last_error c))
       (filter (\<lambda>c. dc_phase (dcr_data c) \<noteq> ''SPEND_TX_CONFIRMED'') (deposit_claims d)) @
     map (\<lambda>c. settlement_row (icr_id c) ''INSTANT_STATIC_DEPOSIT'' (icr_phase c) None (icr_last_error c))
       (filter (\<lambda>c. icr_phase c \<noteq> ''SPEND_TX_CONFIRMED'') (instant_claims d)) @
     map (\<lambda>r. settlement_row (lr_request_id r) ''LIGHTNING_RECEIVE'' (receive_status_str (receive_progress d r)) None None)
       (filter (\<lambda>r. receive_progress d r \<notin> {TransferCompleted, HtlcFailed}) (lightning_receives d)) @
     map (\<lambda>x. settlement_row (cxr_id x) ''COOP_EXIT'' (cxr_status x) None None)
       (filter (\<lambda>x. \<not> exit_final (cxr_status x)) (coop_exits d)))"

definition settlements :: "http_env \<Rightarrow> api_headers \<Rightarrow> api_world \<Rightarrow> http_answer \<times> api_world" where
  "settlements env headers w =
     (if \<not> admin_authorized env headers then (unauthorized_answer, w)
      else ((200, JObj [(''unresolved'', JArr (unsettled (w_db w)))]), w))"

text \<open>The flag a failed payment for lack of liquidity leaves.\<close>

fun topup_flag :: "bool \<Rightarrow> wallet_call list \<Rightarrow> bool" where
  "topup_flag b [] = b"
| "topup_flag b (StoreTopup b' # cs) = topup_flag b' cs"
| "topup_flag b (_ # cs) = topup_flag b cs"

text \<open>Sums of \<open>u64\<close> values wrap in a release build.\<close>

definition spark_health :: "wallet_env \<Rightarrow> string result \<Rightarrow> (wallet_world, json) action" where
  "spark_health env address =
     then_action (sync_wallet env)
     (bind_action (ask ListLeaves (a_leaves env)) (\<lambda>(available, missing).
      let available_sats = sum_list (map wl_value available); owned_sats = available_sats + sum_list (map wl_value missing) in
      bind_action (lift_result address) (\<lambda>a.
      bind_action (reading (topup_flag False)) (\<lambda>flag.
      ret (JObj [(''address'', JStr a), (''identity_pubkey'', JStr (s_identity env)), (''available_sats'', juint available_sats),
        (''owned_sats'', juint owned_sats), (''needs_topup'', JBool (available_sats = 0 \<or> flag))])))))"

definition result_ok :: "('a \<Rightarrow> json) \<Rightarrow> 'a result \<Rightarrow> json" where
  "result_ok f r = (case r of Inr x \<Rightarrow> f x | Inl _ \<Rightarrow> JNull)"

definition result_err :: "'a result \<Rightarrow> json" where
  "result_err r = (case r of Inr _ \<Rightarrow> JNull | Inl e \<Rightarrow> JStr (error_text e))"

definition status_page :: "http_env \<Rightarrow> api_headers \<Rightarrow> api_world \<Rightarrow> http_answer \<times> api_world" where
  "status_page env headers w =
     (if \<not> admin_authorized env headers then (unauthorized_answer, w)
      else case in_wallet (spark_health (g_wallet (n_api env)) (n_spark_address env)) w of (spark, w') \<Rightarrow>
        let outstanding = (case g_deposit (n_api env) of
              Some _ \<Rightarrow> result_of instant_outstanding (w_db w')
            | None \<Rightarrow> Inl (Failure ''static deposit service unavailable'')) in
        ((200, JObj [(''network'', JStr (g_network (n_api env))), (''ssp_identity_pubkey'', JStr (s_identity (g_wallet (n_api env)))),
          (''identity_source'', JStr ''spark-wallet''), (''spark'', result_ok id spark), (''spark_error'', result_err spark),
          (''instant_deposits'', JObj [(''max_outstanding_sats'', juint (n_instant_max env)),
             (''max_deposit_sats'', juint (n_instant_deposit_max env)), (''outstanding_sats'', result_ok juint outstanding),
             (''error'', result_err outstanding)]),
          (''ldk_mode'', JStr ''live''), (''ldk_backend'', JStr (n_backend env)), (''ldk_node_id'', JStr (n_node_id env))]), w'))"

definition health :: json where
  "health = JObj [(''status'', JStr ''ok'')]"

definition identity_page :: "http_env \<Rightarrow> json" where
  "identity_page env = JObj [(''identityPublicKey'', JStr (s_identity (g_wallet (n_api env))))]"

section \<open>Starting and maintaining the service\<close>

text \<open>The checks before anything is opened.\<close>

definition startup_check :: "http_env \<Rightarrow> unit result" where
  "startup_check env =
     (if g_swap_fee (n_api env) \<noteq> 0
      then Inl (Failure ''SSP_SWAP_FEE_SATS must be zero: fee-bearing Swap V3 fills are not supported'')
      else if n_admin_token env = '''' \<and> \<not> n_allow_no_auth env
      then Inl (Failure ''SPARK_ADMIN_TOKEN is required unless SPARK_ADMIN_ALLOW_NO_AUTH=1'')
      else Inr ())"

text \<open>A turn of the maintenance loop, ten minutes after the last: outcomes are dropped.\<close>

definition prune_turn :: "api_env \<Rightarrow> (api_world, unit) action" where
  "prune_turn env = bind_action (clock env 0) (\<lambda>now.
     then_action (ignore (on_db (prune_expired_sessions (g_time env now))))
     (then_action (ignore (on_db (prune_challenges (g_time env (now - 3600)))))
       (ignore (on_db (prune_compat_requests (g_time env (now - 86400)))))))"

end
