(* ===== verification/Gateway_Safety.thy ===== *)
theory Gateway_Safety
  imports Gateway
begin

text \<open>
  What holds of every request to the API: without a live session only the four public
  operations run; an answer is an object with the one field of its operation.
\<close>

section \<open>Sessions\<close>

definition public_operation :: "operation \<Rightarrow> bool" where
  "public_operation op \<longleftrightarrow> op \<in> {GetChallenge, VerifyChallenge, SwapFeeEstimate, SendFeeEstimate}"

text \<open>A session is live when its token is the request's and it ends after the clock's reading.\<close>

definition live_session :: "api_env \<Rightarrow> api_headers \<Rightarrow> api_world \<Rightarrow> bool" where
  "live_session env headers w \<longleftrightarrow>
     (let token = bearer_token (h_authorization headers) in
      token \<noteq> '''' \<and> list_ex (\<lambda>s. se_token s = token \<and> g_time env (g_now env (w_calls w) 1) < se_valid_until s)
        (sessions (w_db w)))"

lemma clock_run [simp]: "clock env n w = (Inr (g_now env (w_calls w) n), w)"
  by (simp add: clock_def reading_def ret_def)

lemma clock_bind: "bind_action (clock env n) k w = k (g_now env (w_calls w) n) w"
  by (simp add: bind_action_def)

text \<open>What a refused session says.\<close>

definition unauthorized :: "error \<Rightarrow> bool" where
  "unauthorized e \<longleftrightarrow> e = Failure ''UNAUTHORIZED: missing bearer session token'' \<or>
     e = Failure ''UNAUTHORIZED: bad or expired session''"

lemma session_run: "session env headers w =
    (let token = bearer_token (h_authorization headers) in
     if token = '''' then (Inl (Failure ''UNAUTHORIZED: missing bearer session token''), w)
     else case first_row (\<lambda>s. se_token s = token \<and> se_valid_until s > g_time env (g_now env (w_calls w) 1)) (sessions (w_db w)) of
       None \<Rightarrow> (Inl (Failure ''UNAUTHORIZED: bad or expired session''), w)
     | Some s \<Rightarrow> (Inr (se_identity s), w))"
  by (simp add: session_def clock_bind require_session_def session_owner_def on_db_def action_defs query_optional_def
      table_defs Let_def split: option.split)

lemma session_refused:
  assumes "\<not> live_session env headers w"
  shows "\<exists>e. session env headers w = (Inl e, w) \<and> unauthorized e"
proof -
  let ?live = "\<lambda>s. se_token s = bearer_token (h_authorization headers) \<and> se_valid_until s > g_time env (g_now env (w_calls w) 1)"
  have "bearer_token (h_authorization headers) = '''' \<or> first_row ?live (sessions (w_db w)) = None"
    using assms unfolding first_row_None by (auto simp: live_session_def Let_def list_ex_iff)
  then show ?thesis unfolding session_run unauthorized_def Let_def by auto
qed

lemma session_first: "session env headers w = (Inl e, w) \<Longrightarrow> bind_action (session env headers) k w = (Inl e, w)"
  by (simp add: bind_action_def)

lemmas session_operations = exit_fee_estimates_def exit_fee_quote_def user_requests_page_def receive_quote_op_def
  request_bolt12_receive_def request_lightning_receive_def request_lightning_send_def request_swap_def
  static_quote_op_def static_claim_op_def instant_quote_op_def instant_claim_op_def request_exit_op_def
  complete_exit_op_def transfers_op_def user_request_op_def wallet_webhooks_op_def register_webhook_op_def
  delete_webhook_op_def

text \<open>C23. Every operation but the two of the login and the two fee estimates refuses a request
  without a live session: the answer is an UNAUTHORIZED error, nothing is stored and no other
  system is called, whatever the input.\<close>

theorem session_required:
  assumes "operation_of op = Some operation" "\<not> public_operation operation" "\<not> live_session env headers w"
  shows "\<exists>e. dispatch env headers op variables w = (Inl e, w) \<and> unauthorized e"
proof -
  obtain e where e: "session env headers w = (Inl e, w)" "unauthorized e"
    using session_refused [OF assms(3)] by blast
  have "run_operation env headers now input v operation w = (Inl e, w)" for now input v
    using assms(2) by (cases operation) (simp_all add: public_operation_def session_operations session_first [OF e(1)])
  then show ?thesis using assms(1) e(2) by (simp add: dispatch_def clock_bind)
qed

section \<open>Answers\<close>

fun response_field :: "operation \<Rightarrow> string" where
  "response_field GetChallenge = ''get_challenge''"
| "response_field VerifyChallenge = ''verify_challenge''"
| "response_field SwapFeeEstimate = ''leaves_swap_fee_estimate''"
| "response_field SendFeeEstimate = ''lightning_send_fee_estimate''"
| "response_field ExitFeeEstimates = ''coop_exit_fee_estimates''"
| "response_field ExitFeeQuote = ''coop_exit_fee_quote''"
| "response_field UserRequests = ''current_user''"
| "response_field ReceiveQuote = ''lightning_receive_quote''"
| "response_field Bolt12Receive = ''request_lightning_receive''"
| "response_field LightningReceive = ''request_lightning_receive''"
| "response_field LightningSend = ''request_lightning_send''"
| "response_field Swap = ''request_swap''"
| "response_field StaticQuote = ''static_deposit_quote''"
| "response_field StaticClaim = ''claim_static_deposit''"
| "response_field InstantQuote = ''create_instant_static_deposit_quote''"
| "response_field InstantClaim = ''create_claim_instant_static_deposit''"
| "response_field CoopExit = ''request_coop_exit''"
| "response_field CompleteExit = ''complete_coop_exit''"
| "response_field TransferList = ''transfers''"
| "response_field UserRequest = ''user_request''"
| "response_field WebhookList = ''wallet_webhooks''"
| "response_field WebhookRegister = ''register_wallet_webhook''"
| "response_field WebhookDelete = ''delete_wallet_webhook''"

text \<open>An action whose value, when it has one, satisfies a predicate.\<close>

definition yields :: "('a \<Rightarrow> bool) \<Rightarrow> ('s, 'a) action \<Rightarrow> bool" where
  "yields P m \<longleftrightarrow> (\<forall>w x w'. m w = (Inr x, w') \<longrightarrow> P x)"

lemma yields_ret: "P x \<Longrightarrow> yields P (ret x)"
  by (simp add: yields_def ret_def)

lemma yields_throw: "yields P (throw e)"
  by (simp add: yields_def throw_def)

lemma yields_bind: "(\<And>x. yields P (k x)) \<Longrightarrow> yields P (bind_action m k)"
  by (auto simp: yields_def elim!: bind_InrE)

lemma yields_then: "yields P k \<Longrightarrow> yields P (then_action m k)"
  by (simp add: then_action_def yields_bind)

lemma yields_if: "yields P m \<Longrightarrow> yields P k \<Longrightarrow> yields P (if b then m else k)"
  by simp

lemma yields_option: "yields P m \<Longrightarrow> (\<And>x. yields P (k x)) \<Longrightarrow> yields P (case y of None \<Rightarrow> m | Some x \<Rightarrow> k x)"
  by (simp split: option.split)

lemma yields_prod: "(\<And>a b. yields P (k a b)) \<Longrightarrow> yields P (case y of (a, b) \<Rightarrow> k a b)"
  by (simp split: prod.split)

lemmas yields_rules = yields_bind yields_then yields_if yields_option yields_prod yields_throw yields_ret

definition only_field :: "string \<Rightarrow> json \<Rightarrow> bool" where
  "only_field name r \<longleftrightarrow> (\<exists>v. r = JObj [(name, v)])"

lemma only_field_obj: "only_field name (JObj [(name, v)])"
  by (simp add: only_field_def)

lemma send_response_field: "yields (only_field ''request_lightning_send'') (send_response env rec)"
  unfolding send_response_def Let_def by (intro yields_rules only_field_obj)

lemma store_swap_field: "yields (only_field ''request_swap'') (store_swap env owner now ext_id n target fill)"
  unfolding store_swap_def swap_answer_def Let_def by (intro yields_rules only_field_obj)

lemma operation_answers: "yields (only_field (response_field operation)) (run_operation env headers now input v operation)"
  by (cases operation)
    (simp only: run_operation.simps response_field.simps session_operations get_challenge_op_def verify_challenge_op_def
      swap_fee_estimate_def send_fee_estimate_def Let_def receive_answer_def,
     intro yields_rules only_field_obj send_response_field store_swap_field)+

text \<open>An answered request is an object whose only field is the schema's name of the operation it
  asked for, and only known operations are answered.\<close>

lemma answer_type:
  assumes "dispatch env headers op variables w = (Inr r, w')"
  shows "\<exists>operation v. operation_of op = Some operation \<and> r = JObj [(response_field operation, v)]"
proof (cases "operation_of op")
  case None
  then show ?thesis using assms by (simp add: dispatch_def clock_bind throw_def)
next
  case (Some operation)
  then obtain now input where "run_operation env headers now input variables operation w = (Inr r, w')"
    using assms by (simp add: dispatch_def clock_bind Let_def)
  then have "only_field (response_field operation) r"
    by (rule operation_answers [unfolded yields_def, rule_format])
  then show ?thesis using Some by (simp add: only_field_def)
qed

end
