(* ===== verification/Gateway_Requests.thy ===== *)
theory Gateway_Requests
  imports Gateway_Safety
begin

text \<open>
  What the resolvers that create requests guarantee: a served swap pays the user's own total out
  of positive targets within the operator's cap, a created receive is bound to its wallet,
  hash, amount and network, and a repeated send neither prepares nor funds a second payment.
\<close>

section \<open>Stored requests\<close>

text \<open>Indexing a request writes neither its table nor the transfers.\<close>

definition same_requests :: "db \<Rightarrow> db \<Rightarrow> bool" where
  "same_requests d d' \<longleftrightarrow> requests d' = requests d \<and> transfers d' = transfers d"

interpretation same_requests: step_relation same_requests
  by unfold_locales (auto simp: same_requests_def)

lemma index_request_same: "obeys same_requests (index_request parse decode i kind owner now payload)"
proof -
  have use: "obeys same_requests (insert_into n receive_quote_uses_t c fk r)" for n c fk r
    by (simp add: obeys_def same_requests_def insert_into_def table_defs)
  have receive: "obeys same_requests (insert_receive_row k row)" for k row
    by (auto simp: obeys_def same_requests_def insert_receive_row_def insert_into_def table_defs throw_def split: sum.split)
  have send: "obeys same_requests (insert_send_row k row)" for k row
    by (auto simp: obeys_def same_requests_def insert_send_row_def insert_into_def table_defs throw_def split: sum.split)
  have "obeys same_requests (index_receive parse i owner now k payload)" for k
    unfolding index_receive_def Let_def
    by (intro same_requests.obeys_then same_requests.obeys_case_option same_requests.obeys_ret use receive same_requests.obeys_throw)
  moreover have "obeys same_requests (index_send decode i owner k payload)" for k
    unfolding index_send_def Let_def
    by (rule obeys_read) (intro same_requests.obeys_case_option same_requests.obeys_throw send)
  ultimately show ?thesis
    unfolding index_request_def Let_def by (intro same_requests.obeys_if same_requests.obeys_ret)
qed

lemma insert_request_row:
  assumes "insert_request parse decode i kind owner now payload key d = (Inr u, d')"
  shows "\<lparr>rq_id = i, rq_kind = kind, rq_owner = owner, rq_created_at = now, rq_payload = payload, rq_idempotency_key = key\<rparr>
           \<in> set (requests d')"
    "transfers d' = transfers d"
proof -
  let ?d = "d\<lparr>requests := requests d @ [\<lparr>rq_id = i, rq_kind = kind, rq_owner = owner, rq_created_at = now,
        rq_payload = payload, rq_idempotency_key = key\<rparr>]\<rparr>"
  have "index_request parse decode i kind owner now payload ?d = (Inr u, d')"
    using assms
    by (auto simp: insert_request_def insert_request_row_def insert_into_def table_defs action_Inr elim!: then_InrE split: if_splits)
  then have "same_requests ?d d'" using obeysD [OF index_request_same, of ?d] by (metis snd_conv)
  then show "\<lparr>rq_id = i, rq_kind = kind, rq_owner = owner, rq_created_at = now, rq_payload = payload, rq_idempotency_key = key\<rparr>
           \<in> set (requests d')" "transfers d' = transfers d"
    by (simp_all add: same_requests_def)
qed

lemma on_db_InrE:
  assumes "on_db m w = (Inr x, w')"
  obtains d where "m (w_db w) = (Inr x, d)" "w' = w\<lparr>w_db := d\<rparr>"
  using assms by (auto simp: on_db_Inr)

lemma store_request_Inr:
  assumes "store_request env kind owner now payload key w = (Inr rec, w')"
  obtains i d where "rec = JObj [(''id'', JStr i), (''type'', JStr kind), (''owner_identity_pubkey'', JStr owner),
      (''created_at'', JStr now), (''payload'', payload)]"
    "insert_request (g_parse_time env) (e_decode (g_lightning env)) i kind owner now payload key (w_db w) = (Inr (), d)"
    "w' = w\<lparr>w_db := d\<rparr>" "kind = ''LEAVES_SWAP'' \<or> length (g_text env payload) \<le> max_request_payload"
  using assms
  by (auto simp: store_request_def reading_def action_Inr not_less elim!: bind_InrE then_InrE on_db_InrE split: if_splits)

section \<open>Swaps\<close>

lemma collect_results_length: "collect_results f xs = Inr ys \<Longrightarrow> length ys = length xs"
  by (induction xs arbitrary: ys) (auto simp: and_then_Inr)

lemma swap_targets_of_length: "swap_targets_of input = Inr targets \<Longrightarrow> length targets \<le> max_swap_targets"
  by (auto simp: swap_targets_of_def max_swap_targets_def dest: collect_results_length split: option.splits if_splits)

lemma swap_amounts_Inr:
  assumes "swap_amounts env n input = Inr (targets, target, payout)"
  shows "swap_targets_of input = Inr targets" "unat target = (\<Sum>t\<leftarrow>targets. unat t)"
    "unat payout + unat (g_swap_fee env) = unat n" "unat target \<le> unat payout"
  using assms
  by (auto simp: swap_amounts_def and_then_Inr word_le_nat_alt word_less_nat_alt not_less dest: checked_sum_exact unat_checked_sub split: if_splits)

lemma fill_swap_targets:
  assumes "fill_swap env owner outbound adaptor targets received payout v = (Inr fill, v')"
  shows "targets \<noteq> [] \<and> 0 \<notin> set targets \<and> payout = received"
  using assms
  by (auto simp: fill_swap_def swap_targets_def action_Inr elim!: bind_InrE split: if_splits option.splits)

lemma insert_transfer_row:
  assumes "insert_transfer spark_id rid kind status owner d = (Inr u, d')"
  shows "\<exists>t\<in>set (transfers d'). tr_spark_id t = spark_id \<and> tr_owner t = owner" "requests d' = requests d"
    "t \<in> set (transfers d) \<Longrightarrow> \<exists>t'\<in>set (transfers d'). tr_spark_id t' = tr_spark_id t \<and> tr_owner t' = tr_owner t"
proof -
  let ?mine = "\<lambda>t. tr_spark_id t = spark_id \<and> tr_owner t = owner"
  let ?new = "\<lparr>tr_spark_id = spark_id, tr_request_id = rid, tr_kind = kind, tr_status = status, tr_owner = owner\<rparr>"
  have cases: "transfers d' = transfers d @ [?new] \<or> (\<exists>t\<in>set (transfers d). ?mine t) \<and>
      transfers d' = update_rows ?mine (\<lambda>t. t\<lparr>tr_status := status\<rparr>) (transfers d)" "requests d' = requests d"
    using assms
    by (auto simp: insert_transfer_def upsert_def update_where_def table_defs action_Inr elim!: bind_InrE
        split: if_splits dest!: filter_length_one)
  have kept: "\<exists>t'\<in>set (transfers d'). tr_spark_id t' = tr_spark_id t \<and> tr_owner t' = tr_owner t"
    if "t \<in> set (transfers d)" for t
  proof -
    have "(if ?mine t then t\<lparr>tr_status := status\<rparr> else t) \<in> set (update_rows ?mine (\<lambda>t. t\<lparr>tr_status := status\<rparr>) (transfers d))"
      using that by (auto simp: update_rows_def)
    then have "t \<in> set (transfers d') \<or> (if ?mine t then t\<lparr>tr_status := status\<rparr> else t) \<in> set (transfers d')"
      using cases(1) that by (elim disjE conjE) simp_all
    then show ?thesis by (elim disjE) (blast, rule bexI, auto)
  qed
  from cases(1) show "\<exists>t\<in>set (transfers d'). tr_spark_id t = spark_id \<and> tr_owner t = owner"
    using kept by (elim disjE conjE bexE) (simp, fastforce)
  show "requests d' = requests d" by (rule cases(2))
  show "\<exists>t'\<in>set (transfers d'). tr_spark_id t' = tr_spark_id t \<and> tr_owner t' = tr_owner t" if "t \<in> set (transfers d)"
    using kept [OF that] .
qed

text \<open>The swap a stored request and its two transfers record.\<close>

definition swap_recorded :: "db \<Rightarrow> string \<Rightarrow> string \<Rightarrow> u64 \<Rightarrow> swap_fill \<Rightarrow> bool" where
  "swap_recorded d owner ext_id n fill \<longleftrightarrow>
     (\<exists>q. q \<in> set (requests d) \<and> rq_kind q = ''LEAVES_SWAP'' \<and> rq_owner q = owner \<and>
        as_u64 (jfield (rq_payload q) ''total_amount_sats'') = Some n \<and>
        jfield (rq_payload q) ''inbound_transfer_spark_id'' = JStr (sf_transfer_id fill) \<and>
        jfield (rq_payload q) ''outbound_transfer_spark_id'' = JStr ext_id) \<and>
     (\<exists>t. t \<in> set (transfers d) \<and> tr_spark_id t = sf_transfer_id fill \<and> tr_owner t = owner) \<and>
     (\<exists>t. t \<in> set (transfers d) \<and> tr_spark_id t = ext_id \<and> tr_owner t = owner)"

lemma store_swap_records:
  assumes "store_swap env owner now ext_id n target fill w = (Inr r, w')" "ext_id \<noteq> ''''"
  shows "swap_recorded (w_db w') owner ext_id n fill"
proof -
  let ?payload = "JObj [(''total_amount_sats'', juint n), (''target_amount_sats'', juint target), (''fee_sats'', juint (g_swap_fee env)),
         (''inbound_transfer_spark_id'', JStr (sf_transfer_id fill)), (''outbound_transfer_spark_id'', JStr ext_id),
         (''network'', JStr (g_network env)), (''status'', JStr ''OUTBOUND_TRANSFER_SENT''),
         (''swap_leaves'', JArr (sf_leaves fill)), (''expires_at'', jopt JStr (sf_expires_at fill))]"
  obtain rec w1 where 1: "store_request env ''LEAVES_SWAP'' owner now ?payload None w = (Inr rec, w1)"
    and rest: "then_action (on_db (insert_transfer (sf_transfer_id fill) (text_of rec ''id'') ''COUNTER_SWAP'' ''CREATED'' owner))
      (then_action (if ext_id \<noteq> '''' then on_db (insert_transfer ext_id (text_of rec ''id'') ''TRANSFER'' ''CREATED'' owner) else ret ())
      (bind_action (updated_at env (text_of rec ''id'')) (\<lambda>updated.
       ret (swap_answer env (jfield rec ''id'') now updated n target fill)))) w1 = (Inr r, w')"
    using assms(1) by (auto simp: store_swap_def Let_def elim!: bind_InrE)
  obtain i d1 where d1: "insert_request (g_parse_time env) (e_decode (g_lightning env)) i ''LEAVES_SWAP'' owner now ?payload None (w_db w) = (Inr (), d1)"
      "w1 = w\<lparr>w_db := d1\<rparr>"
    by (rule store_request_Inr [OF 1])
  obtain d2 d3 where d2: "insert_transfer (sf_transfer_id fill) (text_of rec ''id'') ''COUNTER_SWAP'' ''CREATED'' owner d1 = (Inr (), d2)"
    and d3: "insert_transfer ext_id (text_of rec ''id'') ''TRANSFER'' ''CREATED'' owner d2 = (Inr (), d3)" "w_db w' = d3"
    using rest assms(2) d1(2)
    by (auto simp: updated_at_def request_updated_at_def query_row_def ret_Inr elim!: bind_InrE then_InrE on_db_InrE
        split: list.splits)
  have "requests d3 = requests d1" using insert_transfer_row(2) [OF d2] insert_transfer_row(2) [OF d3(1)] by simp
  then show ?thesis
    using insert_request_row(1) [OF d1(1)] insert_transfer_row(1) [OF d2] insert_transfer_row(3) [OF d3(1)]
      insert_transfer_row(1) [OF d3(1)] d3(2)
    by (fastforce simp: swap_recorded_def)
qed

lemma request_swap_Inr:
  assumes "request_swap env headers now input w = (Inr r, w')"
  obtains owner targets target payout fill w1 where "session env headers w = (Inr owner, w)"
    "s_identity (g_wallet env) = '''' \<or> owner \<noteq> s_identity (g_wallet env)"
    "num_of input ''total_amount_sats'' \<noteq> 0"
    "g_max_swap env = 0 \<or> num_of input ''total_amount_sats'' \<le> g_max_swap env"
    "str_of input ''user_outbound_transfer_external_id'' \<noteq> ''''"
    "is_compressed_hex (str_of input ''adaptor_pubkey'')"
    "swap_amounts env (num_of input ''total_amount_sats'') input = Inr (targets, target, payout)"
    "in_wallet (fill_swap (g_wallet env) owner (str_of input ''user_outbound_transfer_external_id'')
       (str_of input ''adaptor_pubkey'') targets (num_of input ''total_amount_sats'') payout) w = (Inr fill, w1)"
    "store_swap env owner now (str_of input ''user_outbound_transfer_external_id'') (num_of input ''total_amount_sats'')
       target fill w1 = (Inr r, w')"
proof -
  obtain owner w0 where s: "session env headers w = (Inr owner, w0)"
    using assms by (auto simp: request_swap_def elim!: bind_InrE)
  have "w0 = w" using s by (auto simp: session_run Let_def split: option.splits if_splits)
  then show thesis
    using assms s that
    by (auto simp: request_swap_def Let_def action_Inr bind_action_def [of "session env headers"] word_gt_0 not_less
        elim!: bind_InrE split: if_splits)
qed

text \<open>C25. A served swap is worth what the user brought: the configured fee is zero, the requested
  outputs are positive, at most 32 and together at most the total, the total is within the
  operator's cap and the requester is not the service itself; the request and the transfers of
  both directions are then stored for the requester.\<close>

theorem swap_request_sound:
  assumes "request_swap env headers now input w = (Inr r, w')"
  shows "\<exists>owner targets fill. session env headers w = (Inr owner, w) \<and> g_swap_fee env = 0 \<and>
    swap_targets_of input = Inr targets \<and> targets \<noteq> [] \<and> 0 \<notin> set targets \<and> length targets \<le> 32 \<and>
    (\<Sum>t\<leftarrow>targets. unat t) \<le> unat (num_of input ''total_amount_sats'') \<and>
    (g_max_swap env = 0 \<or> num_of input ''total_amount_sats'' \<le> g_max_swap env) \<and>
    (s_identity (g_wallet env) = '''' \<or> owner \<noteq> s_identity (g_wallet env)) \<and>
    swap_recorded (w_db w') owner (str_of input ''user_outbound_transfer_external_id'') (num_of input ''total_amount_sats'') fill"
proof -
  let ?n = "num_of input ''total_amount_sats''" and ?ext = "str_of input ''user_outbound_transfer_external_id''"
  obtain owner targets target payout fill w1 where s: "session env headers w = (Inr owner, w)"
    "s_identity (g_wallet env) = '''' \<or> owner \<noteq> s_identity (g_wallet env)" "?ext \<noteq> ''''"
    "g_max_swap env = 0 \<or> ?n \<le> g_max_swap env"
    and a: "swap_amounts env ?n input = Inr (targets, target, payout)"
    and f: "in_wallet (fill_swap (g_wallet env) owner ?ext (str_of input ''adaptor_pubkey'') targets ?n payout) w = (Inr fill, w1)"
    and t: "store_swap env owner now ?ext ?n target fill w1 = (Inr r, w')"
    by (rule request_swap_Inr [OF assms])
  obtain v where "fill_swap (g_wallet env) owner ?ext (str_of input ''adaptor_pubkey'') targets ?n payout
      (part_view wallet_part w) = (Inr fill, v)"
    using f unfolding in_wallet_def by (rule wallet_calls.within_cases)
  then have p: "targets \<noteq> []" "0 \<notin> set targets" "payout = ?n" using fill_swap_targets by blast+
  note amounts = swap_amounts_Inr [OF a]
  have "g_swap_fee env = 0" using amounts(3) p(3) by (simp add: unat_eq_zero [symmetric])
  moreover have "length targets \<le> 32"
    using swap_targets_of_length [OF amounts(1)] by (simp add: max_swap_targets_def)
  moreover have "(\<Sum>t\<leftarrow>targets. unat t) \<le> unat ?n" using amounts(2,4) p(3) by simp
  ultimately show ?thesis
    using s p(1,2) amounts(1) store_swap_records [OF t s(3)] by blast
qed

section \<open>Receives\<close>

lemma retry_ask_db:
  "retry_bounded n (ask c f) w = (r, w') \<Longrightarrow> w_db w' = w_db w"
  by (induction n arbitrary: w) (auto simp: ask_def handle_def ret_def split: sum.splits prod.splits)

lemma create_invoice_Inr:
  assumes "create_invoice env amount hash memo expiry w = (Inr invoice, w')"
  shows "validate_created_invoice (e_decode (g_lightning env)) (e_lower (g_lightning env)) invoice hash amount (g_chain env) = Inr ()"
    "w_db w' = w_db w"
  using assms by (auto simp: create_invoice_def action_Inr dest: retry_ask_db elim!: bind_InrE then_InrE)

lemma insert_receive_row_Inr:
  assumes "insert_receive_row k row d = (Inr u, d')"
  shows "\<exists>kind. row\<lparr>lr_kind := kind\<rparr> \<in> set (lightning_receives d')"
  using assms
  by (auto simp: insert_receive_row_def insert_into_def table_defs throw_def split: if_splits sum.splits)

text \<open>A receive stored for a wallet, a hash, an amount and an invoice.\<close>

definition receive_for :: "string \<Rightarrow> string \<Rightarrow> json \<Rightarrow> receive_row \<Rightarrow> bool" where
  "receive_for i owner payload row \<longleftrightarrow> lr_request_id row = i \<and> lr_owner row = owner \<and>
     lr_hash row = json_text payload ''payment_hash'' \<and> lr_invoice row = json_text payload ''invoice'' \<and>
     as_u64 (jfield payload ''amount_sats'') = Some (lr_amount_sats row)"

lemma receive_for_kind: "receive_for i owner payload (row\<lparr>lr_kind := k\<rparr>) = receive_for i owner payload row"
  by (simp add: receive_for_def)

lemma index_receive_Inr:
  assumes "index_receive parse i owner now k payload d = (Inr u, d')"
  shows "\<exists>row. row \<in> set (lightning_receives d') \<and> receive_for i owner payload row"
proof -
  obtain amount expiry receiver settled d1 where a: "as_u64 (jfield payload ''amount_sats'') = Some amount"
    and r: "insert_receive_row k \<lparr>lr_hash = json_text payload ''payment_hash'', lr_request_id = i, lr_owner = owner,
      lr_receiver = receiver, lr_amount_sats = amount, lr_invoice = json_text payload ''invoice'', lr_expires_at = expiry,
      lr_kind = Bolt11, lr_settled_payment_hash = settled\<rparr> d1 = (Inr u, d')"
    using assms
    by (auto simp: index_receive_def positive_def Let_def throw_Inr elim!: then_InrE split: option.splits if_splits)
  obtain kind where "\<lparr>lr_hash = json_text payload ''payment_hash'', lr_request_id = i, lr_owner = owner,
      lr_receiver = receiver, lr_amount_sats = amount, lr_invoice = json_text payload ''invoice'', lr_expires_at = expiry,
      lr_kind = kind, lr_settled_payment_hash = settled\<rparr> \<in> set (lightning_receives d')"
    using insert_receive_row_Inr [OF r] by auto
  then show ?thesis using a by (intro exI conjI) (assumption, simp add: receive_for_def)
qed

lemma insert_receive_request:
  assumes "insert_request parse decode i ''LIGHTNING_RECEIVE'' owner now payload None d = (Inr u, d')"
  shows "\<exists>row. row \<in> set (lightning_receives d') \<and> receive_for i owner payload row"
  using assms index_receive_Inr
  by (fastforce simp: insert_request_def index_request_def Let_def action_Inr elim!: then_InrE)

lemma receive_status_keeps:
  assumes "set_receive_status hash status d = (Inr u, d')"
  shows "lightning_receives d' = lightning_receives d"
  using assms
  by (auto simp: set_receive_status_def progress_upsert_def upsert_def update_where_def table_defs action_Inr
      elim!: bind_InrE split: if_splits)

lemma validate_quote_keeps: "validate_quote lib network now owner receiver hash amount input d = (r, d') \<Longrightarrow> d' = d"
  by (auto simp: validate_quote_def action_defs query_exists_def split: option.splits if_splits sum.splits)

lemma session_Inr: "session env headers w = (r, w') \<Longrightarrow> w' = w"
  by (auto simp: session_run Let_def split: option.splits if_splits)

text \<open>C26. A Lightning receive is created for exactly what was asked: the payment hash is 32 bytes
  of hex no receive was created for before, the amount is positive and does not overflow in
  millisatoshis, the node's invoice commits to that hash, amount and network, and the stored
  receive binds hash, amount and invoice to the wallet of the session.\<close>

theorem receive_created_sound:
  assumes "request_lightning_receive env headers now input w = (Inr r, w')"
  shows "\<exists>owner hash i row b. session env headers w = (Inr owner, w) \<and> payment_hash_of input = Inr hash \<and>
    length hash = 64 \<and> (\<forall>x\<in>set (lightning_receives (w_db w)). lr_hash x \<noteq> hash) \<and>
    row \<in> set (lightning_receives (w_db w')) \<and> lr_request_id row = i \<and> lr_owner row = owner \<and> lr_hash row = hash \<and>
    lr_amount_sats row = num_of input ''amount_sats'' \<and> lr_amount_sats row \<noteq> 0 \<and>
    e_decode (g_lightning env) (lr_invoice row) = Some b \<and> bi_payment_hash b = e_lower (g_lightning env) hash \<and>
    bi_network b = g_chain env \<and>
    (\<exists>m. bi_amount_msat b = Some m \<and> unat m = unat (num_of input ''amount_sats'') * 1000)"
proof -
  let ?amount = "num_of input ''amount_sats''"
  obtain owner w0 where s0: "session env headers w = (Inr owner, w0)"
    using assms by (auto simp: request_lightning_receive_def elim!: bind_InrE)
  then have s: "session env headers w = (Inr owner, w)" using session_Inr by fastforce
  obtain hash receiver quote_id expiry expires invoice rec w1 w2 w3 where
    v: "validate_sats ?amount = Inr ()" "payment_hash_of input = Inr hash"
      "lightning_receive_for_hash hash (w_db w) = (Inr None, w_db w)"
    and inv: "create_invoice env ?amount hash (str_of input ''memo'') expiry w1 = (Inr invoice, w2)"
    and st: "store_request env ''LIGHTNING_RECEIVE'' owner now
          (JObj [(''amount_sats'', juint ?amount), (''payment_hash'', JStr hash), (''invoice'', JStr invoice),
            (''network'', JStr (g_network env)), (''expiry_secs'', JInt (uint (expiry :: u32))),
            (''receiver_identity_pubkey'', JStr receiver), (''invoice_expires_at'', JStr expires),
            (''quote_transfer_id'', jopt JStr quote_id)]) None w2 = (Inr rec, w3)"
    and fin: "\<exists>d. set_receive_status hash ''INVOICE_CREATED'' (w_db w3) = (Inr (), d) \<and> w_db w' = d"
    using assms
    unfolding request_lightning_receive_def bind_action_def [of "session env headers"] s Let_def
    by (auto simp: action_Inr lightning_receive_for_hash_def handle_def throw_def ret_def elim!: bind_InrE then_InrE on_db_InrE
        split: if_splits sum.splits prod.splits)
  obtain b where b: "e_decode (g_lightning env) invoice = Some b" "bi_payment_hash b = e_lower (g_lightning env) hash"
      "bi_network b = g_chain env" "\<exists>m. bi_amount_msat b = Some m \<and> unat m = unat ?amount * 1000"
    using create_invoice_Inr(1) [OF inv]
    by (auto simp: validate_created_invoice_def sats_to_msats_def dest: unat_checked_mul split: option.splits sum.splits if_splits)
  obtain i d where d: "insert_request (g_parse_time env) (e_decode (g_lightning env)) i ''LIGHTNING_RECEIVE'' owner now
        (JObj [(''amount_sats'', juint ?amount), (''payment_hash'', JStr hash), (''invoice'', JStr invoice),
            (''network'', JStr (g_network env)), (''expiry_secs'', JInt (uint expiry)),
            (''receiver_identity_pubkey'', JStr receiver), (''invoice_expires_at'', JStr expires),
            (''quote_transfer_id'', jopt JStr quote_id)]) None (w_db w2) = (Inr (), d)" "w3 = w2\<lparr>w_db := d\<rparr>"
    by (rule store_request_Inr [OF st])
  obtain row where row: "row \<in> set (lightning_receives d)" "lr_request_id row = i" "lr_owner row = owner"
      "lr_hash row = hash" "lr_invoice row = invoice" "lr_amount_sats row = ?amount"
    using insert_receive_request [OF d(1)] by (auto simp: receive_for_def json_text_def)
  have "lightning_receives (w_db w') = lightning_receives d"
    using fin d(2) receive_status_keeps by fastforce
  moreover have "length hash = 64"
    using v(2) by (auto simp: payment_hash_of_def Let_def split: if_splits)
  moreover have "\<forall>x\<in>set (lightning_receives (w_db w)). lr_hash x \<noteq> hash"
    using v(3) by (simp add: lightning_receive_for_hash_def first_row_None)
  moreover have "?amount \<noteq> 0" using v(1) by (auto simp: validate_sats_def split: if_splits)
  ultimately show ?thesis
    using s v(2) row b by (intro exI [of _ owner] exI [of _ hash] exI [of _ i] exI [of _ row] exI [of _ b]) simp
qed


section \<open>Sends\<close>

definition is_lightning_call :: "api_call \<Rightarrow> bool" where
  "is_lightning_call c \<longleftrightarrow> lightning_part c \<noteq> None"

lemma once_appends: "obeys (submits_once rid) m \<Longrightarrow> obeys (calls_only (\<lambda>_. True)) m"
  by (erule obeys_mono [rotated]) (auto simp: submits_once_def calls_only_def)

lemma lightning_calls_only:
  assumes "obeys (submits_once rid) m"
  shows "obeys (calls_only is_lightning_call) (in_lightning m)"
  using lightning_calls.calls_within [OF once_appends [OF assms]]
  unfolding in_lightning_def
  by (rule obeys_mono [rotated]) (fastforce simp: calls_only_def is_lightning_call_def lightning_calls.pick_put)

lemma resume_calls: "obeys (calls_only is_lightning_call) (resume_send env rec)"
  unfolding resume_send_def
  by (intro calls_only.obeys_bind calls_on_db calls_only.obeys_case_option calls_only.obeys_ret
      lightning_calls_only [OF once_submit_send])

lemma send_response_calls: "obeys (calls_only is_lightning_call) (send_response env rec)"
  unfolding send_response_def updated_at_def Let_def
  by (intro calls_only.obeys_bind calls_on_db calls_only.obeys_lift calls_only.obeys_ret
      lightning_calls_only [OF once_backend_status])

lemma repeated_send_run:
  assumes "session env headers w = (Inr owner, w)" "invoice \<noteq> ''''" "ext_id \<noteq> ''''"
    "invoice = str_of input ''encoded_invoice''" "ext_id = str_of input ''user_outbound_transfer_external_id''"
    "key = (if str_of input ''idempotency_key'' = '''' then ext_id else str_of input ''idempotency_key'')"
    "find_by_idempotency owner key (w_db w) = (Inr (Some rec), w_db w)"
  shows "request_lightning_send env headers input w =
      (if \<not> same_payment (jfield rec ''payload'') invoice ext_id (opt_num input ''amount_sats'')
       then throw (Failure ''idempotency key was already used for another payment'')
       else then_action (resume_send env rec) (send_response env rec)) w"
proof -
  have found: "on_db (find_by_idempotency owner key) w = (Inr (Some rec), w)"
    using assms(7) by (simp add: on_db_def)
  show ?thesis
    using assms(1-3) found
    by (simp add: request_lightning_send_def Let_def assms(4-6) [symmetric] bind_action_def [of "session env headers"]
        bind_action_def [of "on_db (find_by_idempotency owner key)"])
qed

lemma repeated_send:
  assumes "session env headers w = (Inr owner, w)" "invoice \<noteq> ''''" "ext_id \<noteq> ''''"
    "invoice = str_of input ''encoded_invoice''" "ext_id = str_of input ''user_outbound_transfer_external_id''"
    "key = (if str_of input ''idempotency_key'' = '''' then ext_id else str_of input ''idempotency_key'')"
    "find_by_idempotency owner key (w_db w) = (Inr (Some rec), w_db w)"
  shows "if same_payment (jfield rec ''payload'') invoice ext_id (opt_num input ''amount_sats'')
    then list_all is_lightning_call (new_calls (request_lightning_send env headers input) w) \<and>
      (case result_of (request_lightning_send env headers input) w of
         Inr r \<Rightarrow> jfield (jfield (jfield r ''request_lightning_send'') ''request'') ''id'' = jfield rec ''id''
       | Inl e \<Rightarrow> True)
    else request_lightning_send env headers input w =
      (Inl (Failure ''idempotency key was already used for another payment''), w)"
proof -
  let ?same = "same_payment (jfield rec ''payload'') invoice ext_id (opt_num input ''amount_sats'')"
  note run = repeated_send_run [OF assms]
  show ?thesis
  proof (cases ?same)
    case True
    have "obeys (calls_only is_lightning_call) (then_action (resume_send env rec) (send_response env rec))"
      by (intro calls_only.obeys_then resume_calls send_response_calls)
    then have "list_all is_lightning_call (new_calls (request_lightning_send env headers input) w)"
      using run True by (auto simp: obeys_def calls_only_def new_calls_def state_after_def list_all_iff dest: spec [of _ w])
    moreover have "yields (\<lambda>r. jfield (jfield (jfield r ''request_lightning_send'') ''request'') ''id'' = jfield rec ''id'')
        (then_action (resume_send env rec) (send_response env rec))"
      unfolding send_response_def Let_def by (intro yields_rules) simp
    then have "case result_of (request_lightning_send env headers input) w of
         Inr r \<Rightarrow> jfield (jfield (jfield r ''request_lightning_send'') ''request'') ''id'' = jfield rec ''id''
       | Inl e \<Rightarrow> True"
      using run True by (auto simp: yields_def result_of_def split: sum.split) (metis prod.collapse)
    ultimately show ?thesis using True by simp
  qed (use run in \<open>simp add: throw_def\<close>)
qed

lemma latest_by_member: "latest_by f xs = Some x \<Longrightarrow> x \<in> set xs"
  by (induction xs arbitrary: x) (auto split: option.splits if_splits)

lemma find_by_idempotency_row:
  assumes "find_by_idempotency owner key d = (Inr (Some rec), d')"
  obtains q where "q \<in> set (requests d)" "rq_owner q = owner" "rq_idempotency_key q = Some key" "rec = request_json q"
  using assms by (auto simp: find_by_idempotency_def select_where_def bind_action_def ret_def table_defs split: if_splits
      dest!: latest_by_member)

lemma appends: "obeys (calls_only P) m \<Longrightarrow> \<exists>cs. w_calls (snd (m w)) = w_calls w @ cs"
  by (auto simp: obeys_def calls_only_def)

text \<open>A prepared send to another node: the first thing asked is the funding of this send.\<close>

lemma submit_asks_funding:
  assumes "ls_status send = Prepared" "\<forall>r\<in>set (lightning_receives (w_db v)). lr_kind r = Bolt11 \<longrightarrow> lr_invoice r \<noteq> ls_invoice send"
  shows "\<exists>more. w_calls (snd (submit_send env send v)) = w_calls v @ CallFunding send # more"
proof -
  have own: "on_db (lightning_receive_hash_for_invoice (ls_invoice send)) v = (Inr None, v)"
    using assms(2) by (auto simp: lightning_receive_hash_for_invoice_def query_optional_def on_db_def bind_action_def ret_def
        table_defs first_row_None)
  let ?v = "v\<lparr>w_calls := w_calls v @ [CallFunding send]\<rparr>"
  obtain k where run: "submit_send env send v = bind_action (ask (CallFunding send) (\<lambda>h. e_funding env h send)) k v"
      and k: "\<And>cltv. obeys (calls_only (\<lambda>_. True)) (k cltv)"
  proof
    show "submit_send env send v = bind_action (ask (CallFunding send) (\<lambda>h. e_funding env h send)) (\<lambda>cltv.
        bind_action (then_action (if cltv \<noteq> ls_max_route_cltv send
          then on_db (set_lightning_send_route_cltv (ls_request_id send) cltv) else ret ())
          (ret (send\<lparr>ls_max_route_cltv := cltv\<rparr>))) (submit_durable_send env)) v"
      using own assms(1) by (simp add: submit_send_def refresh_route_cltv_def bind_action_def split: prod.split sum.split)
    show "obeys (calls_only (\<lambda>_. True)) (bind_action (then_action (if cltv \<noteq> ls_max_route_cltv send
          then on_db (set_lightning_send_route_cltv (ls_request_id send) cltv) else ret ())
          (ret (send\<lparr>ls_max_route_cltv := cltv\<rparr>))) (submit_durable_send env))" for cltv
      by (intro calls_only.obeys_bind calls_only.obeys_then calls_only.obeys_if calls_on_db calls_only.obeys_ret
          once_appends [OF once_submit_durable])
  qed
  show ?thesis
    unfolding run using appends [OF k, of _ ?v]
    by (auto simp: bind_action_def ask_def split: sum.split)
qed

text \<open>C24. A repeated send pays nothing new: when the wallet's idempotency key is taken by a stored
  request, a request for another invoice, transfer or amount is refused and changes nothing.
  Otherwise the recorded payment is driven on: the run is the submission of the send stored for that
  very request, followed by the answer; when this send is still prepared, to another node, the
  first thing asked is the funding of this send. No second send is checked, prepared or funded:
  only the Lightning part is called, and the answer names the stored request.\<close>

theorem repeated_send_resumes:
  assumes "session env headers w = (Inr owner, w)" "invoice \<noteq> ''''" "ext_id \<noteq> ''''"
    "invoice = str_of input ''encoded_invoice''" "ext_id = str_of input ''user_outbound_transfer_external_id''"
    "key = (if str_of input ''idempotency_key'' = '''' then ext_id else str_of input ''idempotency_key'')"
    "find_by_idempotency owner key (w_db w) = (Inr (Some rec), w_db w)"
  shows "\<exists>q\<in>set (requests (w_db w)). rq_owner q = owner \<and> rq_idempotency_key q = Some key \<and> rec = request_json q \<and>
    (if as_str (jfield (rq_payload q) ''encoded_invoice'') = Some invoice \<and>
       as_str (jfield (rq_payload q) ''user_outbound_transfer_external_id'') = Some ext_id \<and>
       as_u64 (jfield (rq_payload q) ''amount_sats'') = opt_num input ''amount_sats''
     then (case filter (\<lambda>s. ls_request_id s = rq_id q \<or> ls_payment_id s = Some (rq_id q)) (lightning_sends (w_db w)) of
         [] \<Rightarrow> request_lightning_send env headers input w = send_response env rec w
       | s # _ \<Rightarrow>
           request_lightning_send env headers input w =
             then_action (in_lightning (submit_send (g_lightning env) (lightning_send.truncate s))) (send_response env rec) w \<and>
           (ls_status s = Prepared \<and> (\<forall>r\<in>set (lightning_receives (w_db w)). lr_kind r = Bolt11 \<longrightarrow> lr_invoice r \<noteq> ls_invoice s) \<longrightarrow>
             (\<exists>more. new_calls (request_lightning_send env headers input) w =
                LightningCall (CallFunding (lightning_send.truncate s)) # more))) \<and>
       list_all is_lightning_call (new_calls (request_lightning_send env headers input) w) \<and>
       (case result_of (request_lightning_send env headers input) w of
          Inr r \<Rightarrow> jfield (jfield (jfield r ''request_lightning_send'') ''request'') ''id'' = jfield rec ''id''
        | Inl e \<Rightarrow> True)
     else request_lightning_send env headers input w =
       (Inl (Failure ''idempotency key was already used for another payment''), w))"
proof -
  obtain q where q: "q \<in> set (requests (w_db w))" "rq_owner q = owner" "rq_idempotency_key q = Some key" "rec = request_json q"
    using assms(7) by (rule find_by_idempotency_row)
  have fields: "jfield rec ''id'' = JStr (rq_id q)" "jfield rec ''payload'' = rq_payload q"
    by (simp_all add: q(4) request_json_def)
  let ?same = "same_payment (jfield rec ''payload'') invoice ext_id (opt_num input ''amount_sats'')"
  let ?sends = "filter (\<lambda>s. ls_request_id s = rq_id q \<or> ls_payment_id s = Some (rq_id q)) (lightning_sends (w_db w))"
  have resume: "resume_send env rec w = (case ?sends of [] \<Rightarrow> ret () w
      | s # _ \<Rightarrow> in_lightning (submit_send (g_lightning env) (lightning_send.truncate s)) w)"
    by (simp add: resume_send_def fields lightning_send_for_payment_def query_optional_def on_db_def bind_action_def ret_def table_defs
        first_row_def same_send_def [abs_def] split: list.split)
  have run: "request_lightning_send env headers input w = (case ?sends of [] \<Rightarrow> send_response env rec w
      | s # _ \<Rightarrow> then_action (in_lightning (submit_send (g_lightning env) (lightning_send.truncate s))) (send_response env rec) w)" if ?same
    using repeated_send_run [OF assms] that resume
    by (simp add: then_action_def bind_action_def ret_def split: list.split)
  have funding: "\<exists>more. new_calls (request_lightning_send env headers input) w =
        LightningCall (CallFunding (lightning_send.truncate s)) # more"
    if same: ?same and s: "?sends = s # rest" "ls_status s = Prepared"
      "\<forall>r\<in>set (lightning_receives (w_db w)). lr_kind r = Bolt11 \<longrightarrow> lr_invoice r \<noteq> ls_invoice s" for s rest
  proof -
    let ?m = "in_lightning (submit_send (g_lightning env) (lightning_send.truncate s))"
    let ?v = "part_view lightning_part w"
    have t: "ls_status (lightning_send.truncate s) = Prepared" "ls_invoice (lightning_send.truncate s) = ls_invoice s"
      using s(2) by (simp_all add: lightning_send.truncate_def)
    obtain more where "w_calls (snd (submit_send (g_lightning env) (lightning_send.truncate s) ?v)) =
        w_calls ?v @ CallFunding (lightning_send.truncate s) # more"
      using submit_asks_funding [of "lightning_send.truncate s" ?v] t s(3) by (auto simp: part_view_def)
    then have first: "\<exists>more. w_calls (snd (?m w)) = w_calls w @ LightningCall (CallFunding (lightning_send.truncate s)) # more"
      by (auto simp: in_lightning_def within_def split: prod.split)
    have "\<exists>cs. w_calls (snd (then_action ?m (send_response env rec) w)) = w_calls (snd (?m w)) @ cs"
      using appends [OF send_response_calls, of env rec "snd (?m w)"]
      by (auto simp: then_action_def bind_action_def split: prod.split sum.split)
    then show ?thesis
      using first run [OF same] s(1) by (auto simp: new_calls_def state_after_def)
  qed
  have "if ?same then (case ?sends of [] \<Rightarrow> request_lightning_send env headers input w = send_response env rec w
       | s # _ \<Rightarrow>
           request_lightning_send env headers input w =
             then_action (in_lightning (submit_send (g_lightning env) (lightning_send.truncate s))) (send_response env rec) w \<and>
           (ls_status s = Prepared \<and> (\<forall>r\<in>set (lightning_receives (w_db w)). lr_kind r = Bolt11 \<longrightarrow> lr_invoice r \<noteq> ls_invoice s) \<longrightarrow>
             (\<exists>more. new_calls (request_lightning_send env headers input) w =
                LightningCall (CallFunding (lightning_send.truncate s)) # more))) else True"
    using run funding by (cases ?sends) simp_all
  then show ?thesis
    using repeated_send [OF assms] q unfolding same_payment_def fields
    by (intro bexI [of _ q]) (simp_all split: if_splits)
qed

text \<open>A wallet reads its own requests only: asked for a request that is not one of the
  session's wallet, the service answers null and does nothing.\<close>

theorem foreign_request_hidden:
  assumes "session env headers w = (Inr owner, w)"
    "\<not> list_ex (\<lambda>q. rq_id q = str_of input ''request_id'' \<and> rq_owner q = owner) (requests (w_db w))"
  shows "user_request_op env headers input w = (Inr (JObj [(''user_request'', JNull)]), w)"
  using assms
  by (simp add: user_request_op_def bind_action_def get_request_def query_optional_def on_db_def table_defs ret_def
      list_ex_iff first_row_None [THEN iffD2])

end
