(* ===== verification/Gateway_Guarantees.thy ===== *)
theory Gateway_Guarantees
  imports Gateway_Requests Wallet_Guarantees Webhook_Guarantees
begin

text \<open>
  A concrete service for the API's theorems: a wallet \<open>alice\<close> with a live session, a node whose
  invoice commits to the hash \<open>aa..aa\<close>, and Spark transfers of 8 satoshis in both directions.
\<close>

section \<open>A concrete service\<close>

definition example_hash :: string where
  "example_hash = replicate 64 CHR ''a''"

definition example_bolt11 :: bolt11 where
  "example_bolt11 = \<lparr>bi_payment_hash = example_hash, bi_amount_msat = Some 21000, bi_network = Requests.Regtest,
     bi_would_expire = (\<lambda>_. False)\<rparr>"

definition example_swapper :: wallet_env where
  "example_swapper = example_wallet\<lparr>a_get := \<lambda>log i. Inr (Some (
     if i = ''primary'' then example_transfer i ''alice'' ''ssp'' 8 else example_transfer i ''ssp'' ''alice'' 8))\<rparr>"

definition example_api :: api_env where
  "example_api = \<lparr>g_lightning = Settlement.example_env\<lparr>e_decode := \<lambda>i. if i = ''lnbc1'' then Some example_bolt11 else None\<rparr>,
     g_exit = None, g_deposit = None, g_webhook = example_hooks, g_wallet = example_swapper, g_quotes = example_quote_lib,
     g_auth = open_lib, g_codec = example_codec, g_now = (\<lambda>_ _. 5), g_time = (\<lambda>_. ''5''), g_parse_time = (\<lambda>_. Some 5),
     g_uuid = (\<lambda>_. ''r1''), g_token = (\<lambda>_. ''tok2''), g_nonce = (\<lambda>_. []), g_invoice = (\<lambda>_ _ _ _ _. Inr ''lnbc1''),
     g_offer = (\<lambda>_ _ _ _. Inr (''lno1'', ''offer'')), g_offer_id = Inr, g_is_uuid = (\<lambda>_. True), g_chain = Requests.Regtest,
     g_public_key = Some, g_exit_input = (\<lambda>_. Inl NoRows), g_text = (\<lambda>_. ''{}''), g_updated = (\<lambda>_. ''5''),
     g_network = ''REGTEST'', g_swap_fee = 0, g_max_swap = 1000, g_allow_local = False\<rparr>"

lemma example_api_fields [simp]:
  "g_lightning example_api = Settlement.example_env\<lparr>e_decode := \<lambda>i. if i = ''lnbc1'' then Some example_bolt11 else None\<rparr>"
  "g_wallet example_api = example_swapper" "g_now example_api = (\<lambda>_ _. 5)" "g_time example_api = (\<lambda>_. ''5'')"
  "g_parse_time example_api = (\<lambda>_. Some 5)" "g_uuid example_api = (\<lambda>_. ''r1'')" "g_quotes example_api = example_quote_lib"
  "g_invoice example_api = (\<lambda>_ _ _ _ _. Inr ''lnbc1'')" "g_chain example_api = Requests.Regtest" "g_text example_api = (\<lambda>_. ''{}'')"
  "g_updated example_api = (\<lambda>_. ''5'')" "g_network example_api = ''REGTEST''" "g_swap_fee example_api = 0" "g_max_swap example_api = 1000"
  "g_public_key example_api = Some"
  by (simp_all add: example_api_def)

definition example_login :: api_headers where
  "example_login = \<lparr>h_authorization = Some ''Bearer tok'', h_partner = False\<rparr>"

definition example_db :: db where
  "example_db = empty_db\<lparr>sessions := [\<lparr>se_token = ''tok'', se_identity = ''alice'', se_valid_until = ''9''\<rparr>]\<rparr>"

definition example_service :: api_world where
  "example_service = \<lparr>w_db = example_db, w_calls = []\<rparr>"

lemma example_token: "bearer_token (Some ''Bearer tok'') = ''tok''"
  by code_simp

lemma example_session: "session example_api example_login w = (Inr ''alice'', w)"
  if "sessions (w_db w) = sessions example_db"
  using that by (simp add: session_run example_login_def example_token example_db_def)

section \<open>Witnesses\<close>

theorem session_required_witness:
  "\<exists>e. dispatch example_api \<lparr>h_authorization = None, h_partner = False\<rparr> ''RequestSwap'' JNull example_service =
     (Inl e, example_service) \<and> unauthorized e"
proof (rule session_required)
  show "operation_of ''RequestSwap'' = Some Swap" by code_simp
qed (simp_all add: public_operation_def live_session_def bearer_token_def is_prefix_str_def trim_def)

definition example_swap :: json where
  "example_swap = JObj [(''total_amount_sats'', JInt 8), (''target_amount_sats'', JArr [JInt 5]),
     (''user_outbound_transfer_external_id'', JStr ''primary''), (''adaptor_pubkey'', JStr (replicate 66 CHR ''0''))]"

lemma example_swapper_fields [simp]:
  "a_get example_swapper = (\<lambda>log i. Inr (Some (
     if i = ''primary'' then example_transfer i ''alice'' ''ssp'' 8 else example_transfer i ''ssp'' ''alice'' 8)))"
  "p_transfer_id example_swapper = Inr" "p_key example_swapper = Inr" "s_identity example_swapper = ''ssp''"
  "a_instant example_swapper = slept" "p_sha256 example_swapper = (\<lambda>_. replicate 32 1)"
  "p_id_text example_swapper = (\<lambda>b. if hd b = 1 then ''id'' else ''pay'')"
  "p_raw_tx example_swapper = (\<lambda>_. Inr (\<lparr>tx_inputs = [], tx_outputs = []\<rparr>, [[replicate 64 0]]))"
  "p_raw_text example_swapper = (\<lambda>_. ''raw'')" "p_hex example_swapper = (\<lambda>_. ''hex'')" "p_rfc3339 example_swapper = (\<lambda>_. ''t1'')"
  by (simp_all add: example_swapper_def)

lemma example_api_fill:
  "\<exists>fill v. fill_swap example_swapper ''alice'' ''primary'' adaptor [5] 8 8 \<lparr>w_db = d, w_calls = []\<rparr> = (Inr fill, \<lparr>w_db = d, w_calls = v\<rparr>) \<and>
     sf_transfer_id fill = ''id''"
  by (simp add: run_statements fill_swap_def [THEN fun_cong] wait_for_transfer_def [THEN fun_cong] poll_round_def [THEN fun_cong]
      loops_run if_run Let_def swap_targets_def checked_add_def example_ids validate_transfer_def validate_swap_primary_claimable_def
      example_transfer_def swap_leaf_response_def and_then_def fill_of_def)

lemma example_requests: "requests example_db = []" "transfers example_db = []" "lightning_receives example_db = []"
    "receive_payments example_db = []" "receive_quote_uses example_db = []"
  by (simp_all add: example_db_def empty_db_def)

lemma example_swap_stored:
  "\<exists>r w'. store_swap example_api ''alice'' ''5'' ''primary'' 8 5 fill \<lparr>w_db = example_db, w_calls = calls\<rparr> = (Inr r, w')"
  if "sf_transfer_id fill = ''id''"
  using that
  by (simp add: store_swap_def store_request_def max_request_payload_def reading_def insert_request_def insert_request_row_def
      index_request_def insert_transfer_def updated_at_def request_updated_at_def statement_defs transaction_def
      on_db_def action_defs table_defs clash_defs example_requests text_of_def if_run Let_def)

lemma example_swap_input:
  "num_of example_swap ''total_amount_sats'' = 8" "str_of example_swap ''user_outbound_transfer_external_id'' = ''primary''"
  "swap_amounts example_api 8 example_swap = Inr ([5], 5, 8)" "is_compressed_hex (str_of example_swap ''adaptor_pubkey'')"
proof -
  show "is_compressed_hex (str_of example_swap ''adaptor_pubkey'')"
    unfolding example_swap_def by code_simp
qed (simp_all add: example_swap_def num_of_def opt_num_def str_of_def swap_amounts_def swap_targets_of_def json_list_def
    max_swap_targets_def and_then_def checked_add_def checked_sub_def)

lemma example_swap_run:
  "\<exists>r w'. request_swap example_api example_login ''5'' example_swap example_service = (Inr r, w')"
proof -
  obtain fill v where fill: "fill_swap example_swapper ''alice'' ''primary'' (str_of example_swap ''adaptor_pubkey'') [5] 8 8
      \<lparr>w_db = example_db, w_calls = []\<rparr> = (Inr fill, \<lparr>w_db = example_db, w_calls = v\<rparr>)" "sf_transfer_id fill = ''id''"
    using example_api_fill by blast
  have view: "part_view wallet_part example_service = \<lparr>w_db = example_db, w_calls = []\<rparr>"
    by (simp add: part_view_def example_service_def map_filter_simps)
  have filled: "in_wallet (fill_swap example_swapper ''alice'' ''primary'' (str_of example_swap ''adaptor_pubkey'') [5] 8 8) example_service =
      (Inr fill, \<lparr>w_db = example_db, w_calls = map WalletCall v\<rparr>)"
    unfolding in_wallet_def within_def view fill(1) by (simp add: example_service_def)
  obtain r w' where "store_swap example_api ''alice'' ''5'' ''primary'' 8 5 fill \<lparr>w_db = example_db, w_calls = map WalletCall v\<rparr> = (Inr r, w')"
    using example_swap_stored [OF fill(2)] by blast
  then show ?thesis
    by (simp add: request_swap_def bind_action_def example_session example_service_def [THEN arg_cong, of w_db, simplified]
        example_swap_input if_run word_less_nat_alt filled Let_def ret_def [THEN fun_cong])
qed

theorem swap_request_sound_witness:
  "\<exists>r w' fill. request_swap example_api example_login ''5'' example_swap example_service = (Inr r, w') \<and>
     swap_targets_of example_swap = Inr [5] \<and> swap_recorded (w_db w') ''alice'' ''primary'' 8 fill"
proof -
  obtain r w' where run: "request_swap example_api example_login ''5'' example_swap example_service = (Inr r, w')"
    using example_swap_run by blast
  have "session example_api example_login example_service = (Inr ''alice'', example_service)"
    by (rule example_session) (simp add: example_service_def)
  moreover have "swap_targets_of example_swap = Inr [5]"
    using swap_amounts_Inr(1) [OF example_swap_input(3)] .
  ultimately show ?thesis
    using swap_request_sound [OF run] run example_swap_input by auto
qed

section \<open>A receive\<close>

definition example_receive :: json where
  "example_receive = JObj [(''amount_sats'', JInt 21), (''payment_hash'', JStr example_hash)]"

lemma example_receive_input:
  "num_of example_receive ''amount_sats'' = 21" "str_of example_receive ''memo'' = ''''"
  "requested_network example_api example_receive = Inr ()" "named_receiver_key example_api ''alice'' example_receive = Inr ''alice''"
  "expiry_secs_of example_receive = Inr 86400" "jget example_receive ''committed_quote'' = None"
  by (simp_all add: example_receive_def num_of_def opt_num_def str_of_def requested_network_def named_receiver_key_def
      expiry_secs_of_def word_less_nat_alt)

lemma example_receive_hash: "payment_hash_of example_receive = Inr example_hash"
  unfolding example_receive_def example_hash_def by code_simp

lemma example_invoice_made:
  "\<exists>calls. create_invoice example_api 21 example_hash '''' 86400 example_service =
     (Inr ''lnbc1'', \<lparr>w_db = example_db, w_calls = calls\<rparr>)"
proof -
  have "sats_to_msats 21 = Inr 21000" by (simp add: sats_to_msats_def checked_mul_def)
  moreover have "retry_bounded receive_retry_delays (ask c (\<lambda>_. Inr x)) = ask c (\<lambda>_. Inr x)" for c :: api_call and x :: string
    by (simp add: receive_retry_delays_def eval_nat_numeral handle_def ask_def ret_def fun_eq_iff)
  moreover have "validate_created_invoice (\<lambda>i. if i = ''lnbc1'' then Some example_bolt11 else None) (\<lambda>s. s) ''lnbc1'' example_hash 21 Requests.Regtest = Inr ()"
    by (simp add: validate_created_invoice_def example_bolt11_def sats_to_msats_def checked_mul_def)
  ultimately show ?thesis
    by (simp add: create_invoice_def bind_action_def then_action_def ask_def ret_def Settlement.example_env_def example_service_def)
qed

lemma example_receive_stored:
  "\<exists>rec w'. store_request example_api ''LIGHTNING_RECEIVE'' ''alice'' ''5''
     (JObj [(''amount_sats'', juint 21), (''payment_hash'', JStr example_hash), (''invoice'', JStr ''lnbc1''),
        (''network'', JStr ''REGTEST''), (''expiry_secs'', JInt 86400), (''receiver_identity_pubkey'', JStr ''alice''),
        (''invoice_expires_at'', JStr ''5''), (''quote_transfer_id'', JNull)]) None \<lparr>w_db = example_db, w_calls = calls\<rparr> = (Inr rec, w')"
proof -
  have kind: "send_kind_parse ''BOLT11'' = Inr Bolt11" by code_simp
  have amount: "positive (Some (21 :: u64)) = Some 21" "sql_u64 21"
    by (simp_all add: positive_def sql_u64_def i64_of_u64_def i64_max_def word_less_nat_alt)
  show ?thesis
    by (simp add: store_request_def max_request_payload_def reading_def insert_request_def insert_request_row_def index_request_def
        index_receive_def insert_receive_row_def kind amount statement_defs transaction_def on_db_def action_defs table_defs
        clash_defs example_requests json_text_def request_exists_def Let_def)
qed

lemma receive_status_set: "\<exists>d'. set_receive_status hash ''INVOICE_CREATED'' d = (Inr (), d')"
proof -
  have "receive_status_parse ''INVOICE_CREATED'' = Inr InvoiceCreated" by code_simp
  then show ?thesis
    by (simp add: set_receive_status_def progress_upsert_def upsert_def update_where_def void_def action_defs)
qed

lemma example_receive_run:
  "\<exists>r w'. request_lightning_receive example_api example_login ''5'' example_receive example_service = (Inr r, w')"
proof -
  obtain calls where inv: "create_invoice example_api 21 example_hash '''' 86400 example_service =
     (Inr ''lnbc1'', \<lparr>w_db = example_db, w_calls = calls\<rparr>)"
    using example_invoice_made by blast
  have sats: "validate_sats 21 = Inr ()" by (simp add: validate_sats_def checked_mul_def)
  have s: "session example_api example_login example_service = (Inr ''alice'', example_service)"
    by (rule example_session) (simp add: example_service_def)
  have q: "on_db (validate_quote lib net now owner receiver hash amount example_receive) w = (Inr None, w)" for lib net now owner receiver hash amount w
    by (simp add: validate_quote_def example_receive_input on_db_def ret_def)
  have hash: "on_db (lightning_receive_for_hash example_hash) example_service = (Inr None, example_service)"
    by (simp add: lightning_receive_for_hash_def example_requests on_db_def example_service_def)
  have handled: "handle (create_invoice example_api 21 example_hash '''' 86400) ret h example_service =
      (Inr ''lnbc1'', \<lparr>w_db = example_db, w_calls = calls\<rparr>)" for h
    using inv by (simp add: handle_def ret_def)
  obtain rec w1 where stored: "store_request example_api ''LIGHTNING_RECEIVE'' ''alice'' ''5''
     (JObj [(''amount_sats'', juint 21), (''payment_hash'', JStr example_hash), (''invoice'', JStr ''lnbc1''),
        (''network'', JStr ''REGTEST''), (''expiry_secs'', JInt 86400), (''receiver_identity_pubkey'', JStr ''alice''),
        (''invoice_expires_at'', JStr ''5''), (''quote_transfer_id'', JNull)]) None \<lparr>w_db = example_db, w_calls = calls\<rparr> = (Inr rec, w1)"
    using example_receive_stored by blast
  obtain d where "on_db (set_receive_status example_hash ''INVOICE_CREATED'') w1 = (Inr (), w1\<lparr>w_db := d\<rparr>)"
    using receive_status_set [of example_hash "w_db w1"] by (auto simp: on_db_def)
  with s hash handled stored show ?thesis
    by (simp add: request_lightning_receive_def example_receive_input example_receive_hash sats q if_run Let_def jopt_def
        bind_action_def [THEN fun_cong] then_action_def ret_def [THEN fun_cong])
qed

lemma example_logged_in: "session example_api example_login example_service = (Inr ''alice'', example_service)"
  by (rule example_session) (simp add: example_service_def)

theorem receive_created_sound_witness:
  "\<exists>r w' row. request_lightning_receive example_api example_login ''5'' example_receive example_service = (Inr r, w') \<and>
     row \<in> set (lightning_receives (w_db w')) \<and> lr_owner row = ''alice'' \<and> lr_hash row = example_hash \<and> lr_amount_sats row = 21"
proof -
  obtain r w' where run: "request_lightning_receive example_api example_login ''5'' example_receive example_service = (Inr r, w')"
    using example_receive_run by blast
  show ?thesis
    using receive_created_sound [OF run] run example_logged_in example_receive_hash example_receive_input by auto
qed

section \<open>A repeated send and a foreign request\<close>

definition example_stored_send :: request_row where
  "example_stored_send = \<lparr>rq_id = ''s1'', rq_kind = ''LIGHTNING_SEND'', rq_owner = ''alice'', rq_created_at = ''1'',
     rq_payload = JObj [(''encoded_invoice'', JStr ''lnbc1''), (''user_outbound_transfer_external_id'', JStr ''t1'')],
     rq_idempotency_key = Some ''k''\<rparr>"

definition example_again :: "string \<Rightarrow> json" where
  "example_again invoice = JObj [(''encoded_invoice'', JStr invoice), (''user_outbound_transfer_external_id'', JStr ''t1''),
     (''idempotency_key'', JStr ''k'')]"

definition example_recorded :: send_row where
  "example_recorded = \<lparr>ls_request_id = ''s1'', ls_owner = ''alice'', ls_outbound_transfer_id = ''t1'', ls_invoice = ''lnbc1'',
     ls_amount_sats = 21, ls_amount_override = None, ls_kind = Bolt11, ls_expected_id = ''h'', ls_max_route_cltv = None,
     ls_payment_id = None, ls_status = Prepared, ls_last_error = None\<rparr>"

definition example_sent :: api_world where
  "example_sent = \<lparr>w_db = example_db\<lparr>requests := [example_stored_send], lightning_sends := [example_recorded]\<rparr>, w_calls = []\<rparr>"

lemma example_found: "find_by_idempotency ''alice'' ''k'' (w_db example_sent) = (Inr (Some (request_json example_stored_send)), w_db example_sent)"
  by (simp add: find_by_idempotency_def example_sent_def statement_defs action_defs table_defs example_stored_send_def)

theorem repeated_send_resumes_witness:
  "(\<exists>more. new_calls (request_lightning_send example_api example_login (example_again ''lnbc1'')) example_sent =
     LightningCall (CallFunding (lightning_send.truncate example_recorded)) # more) \<and>
   request_lightning_send example_api example_login (example_again ''lnbc2'') example_sent =
     (Inl (Failure ''idempotency key was already used for another payment''), example_sent)"
proof -
  have s: "session example_api example_login example_sent = (Inr ''alice'', example_sent)"
    by (rule example_session) (simp add: example_sent_def)
  have kept: "as_str (jfield (rq_payload example_stored_send) ''encoded_invoice'') = Some ''lnbc1''"
      "as_str (jfield (rq_payload example_stored_send) ''user_outbound_transfer_external_id'') = Some ''t1''"
      "as_u64 (jfield (rq_payload example_stored_send) ''amount_sats'') = opt_num (example_again invoice) ''amount_sats''" for invoice
    by (auto simp: example_stored_send_def opt_num_def example_again_def)
  have input: "invoice = str_of (example_again invoice) ''encoded_invoice''"
      "''t1'' = str_of (example_again invoice) ''user_outbound_transfer_external_id''"
      "''k'' = (if str_of (example_again invoice) ''idempotency_key'' = '''' then ''t1'' else str_of (example_again invoice) ''idempotency_key'')"
    for invoice by (simp_all add: example_again_def str_of_def)
  have stored: "requests (w_db example_sent) = [example_stored_send]" "lightning_receives (w_db example_sent) = []"
      "filter (\<lambda>s. ls_request_id s = rq_id example_stored_send \<or> ls_payment_id s = Some (rq_id example_stored_send))
        (lightning_sends (w_db example_sent)) = [example_recorded]" "ls_status example_recorded = Prepared"
    by (simp_all add: example_sent_def example_db_def empty_db_def example_recorded_def example_stored_send_def)
  show ?thesis
    using repeated_send_resumes [OF s _ _ input [of "''lnbc1''"] example_found]
      repeated_send_resumes [OF s _ _ input [of "''lnbc2''"] example_found] by (simp add: stored kept(1,2) kept(3) [of "''lnbc1''"])
qed

theorem foreign_request_hidden_witness:
  "user_request_op example_api example_login (JObj [(''request_id'', JStr ''s2'')]) example_sent =
     (Inr (JObj [(''user_request'', JNull)]), example_sent)"
  by (rule foreign_request_hidden [OF example_session])
    (simp_all add: example_sent_def example_stored_send_def str_of_def)

end
