(* ===== verification/Http_Safety.thy ===== *)
theory Http_Safety
  imports Http Gateway_Guarantees
begin

text \<open>
  What the HTTP layer guarantees: administration needs the configured token, a body never
  inflates past its limit, and every GraphQL request is answered by an errors object or by data
  that has the field of the operation it named.
\<close>

section \<open>Administration\<close>

datatype admin_request =
    Status
  | Settlements
  | Reconcile string
  | DepositAddress
  | Claim string u32
  | Bump string u64 u64

fun run_admin :: "http_env \<Rightarrow> api_headers \<Rightarrow> admin_request \<Rightarrow> api_world \<Rightarrow> http_answer \<times> api_world" where
  "run_admin env headers Status w = status_page env headers w"
| "run_admin env headers Settlements w = settlements env headers w"
| "run_admin env headers (Reconcile i) w = reconcile_settlement env headers i w"
| "run_admin env headers DepositAddress w = spark_deposit_address env headers w"
| "run_admin env headers (Claim hex vout) w = spark_claim_deposit env headers hex vout w"
| "run_admin env headers (Bump i rate max_fee) w = bump_withdrawal env headers i rate max_fee w"

lemma unauthorized_run: "\<not> admin_authorized env headers \<Longrightarrow> run_admin env headers a w = (unauthorized_answer, w)"
  by (cases a) (simp_all add: status_page_def settlements_def reconcile_settlement_def spark_deposit_address_def
      spark_claim_deposit_def bump_withdrawal_def)

text \<open>C30. A service that passed its start-up checks serves its administration endpoints only to
  bearers of the configured token, or to everyone when that was asked for explicitly: unless
  the supplied token has the hash of the configured one, every endpoint answers 401, stores
  nothing and calls no other system.\<close>

theorem admin_token_required:
  assumes "startup_check env = Inr ()" "\<not> n_allow_no_auth env"
    "\<And>t. h_authorization headers = Some (''Bearer '' @ t) \<Longrightarrow> n_sha256 env t \<noteq> n_sha256 env (n_admin_token env)"
    "n_sha256 env '''' \<noteq> n_sha256 env (n_admin_token env)"
  shows "run_admin env headers a w = ((401, JObj [(''error'', JStr ''unauthorized'')]), w)"
proof -
  have token: "n_admin_token env \<noteq> ''''"
    using assms(1,2) by (auto simp: startup_check_def split: if_splits)
  have "\<not> admin_authorized env headers"
  proof (cases "\<exists>h. h_authorization headers = Some h \<and> is_prefix_str ''Bearer '' h")
    case True
    then obtain h where h: "h_authorization headers = Some h" "is_prefix_str ''Bearer '' h" by blast
    then have "take 7 h = ''Bearer ''" by (simp add: is_prefix_str_def numeral_eq_Suc)
    then have "h = ''Bearer '' @ drop 7 h" by (metis append_take_drop_id)
    then show ?thesis using assms(3) [of "drop 7 h"] h token by (auto simp: admin_authorized_def)
  next
    case False
    then show ?thesis using assms(4) token
      by (auto simp: admin_authorized_def is_prefix_str_def split: option.splits)
  qed
  then show ?thesis using unauthorized_run by (simp add: unauthorized_answer_def)
qed

section \<open>Bodies\<close>

lemma read_capped_bounded: "read_capped d = Inr out \<Longrightarrow> length out \<le> max_inflated_bytes"
  by (auto simp: read_capped_def split: prod.splits if_splits)

lemma inflate_bounded: "inflate_raw_deflate env input = Inr out \<Longrightarrow> length out \<le> max_inflated_bytes"
  by (auto simp: inflate_raw_deflate_def dest: read_capped_bounded split: sum.splits)

text \<open>No compressed body expands past 8 MiB: whatever the two decoders produce, a deflated
  request is parsed from at most that many bytes, and the same bytes uncompressed are parsed
  from themselves.\<close>

theorem inflated_body_bounded:
  "read_body env True body = Inr req \<Longrightarrow>
     \<exists>raw text. length raw \<le> 8388608 \<and> (raw = fst (n_zlib env body) \<or> raw = fst (n_deflate env body)) \<and>
       n_utf8 env raw = Some text \<and> n_parse env text = Inr req"
proof -
  assume "read_body env True body = Inr req"
  then obtain raw str where "inflate_raw_deflate env body = Inr raw" "n_utf8 env raw = Some str" "n_parse env str = Inr req"
    by (auto simp: read_body_def and_then_Inr split: sum.splits) (metis sum.exhaust)
  moreover from this(1) have "raw = fst (n_zlib env body) \<or> raw = fst (n_deflate env body)"
    by (auto simp: inflate_raw_deflate_def read_capped_def split: sum.splits prod.splits if_splits)
  ultimately show ?thesis using inflate_bounded by (fastforce simp: max_inflated_bytes_def)
qed

section \<open>Answers\<close>

text \<open>The two shapes of an answer to a GraphQL request.\<close>

definition errors_answer :: "json \<Rightarrow> bool" where
  "errors_answer j \<longleftrightarrow> (\<exists>message. j = JObj [(''errors'', JArr [JObj [(''message'', JStr message)]])])"

definition data_answer :: "string \<Rightarrow> json \<Rightarrow> bool" where
  "data_answer op j \<longleftrightarrow> (\<exists>data operation. j = JObj [(''data'', data)] \<and> operation_of op = Some operation \<and>
     jget data (response_field operation) \<noteq> None)"

lemma alias_pass_keeps_field: "jget (apply_query_aliases (JObj [(k, v)]) q) k \<noteq> None"
  using apply_aliases_at [of "JObj [(k, v)]" "[Key k]" v "collect_aliases q"]
  by (auto simp: apply_query_aliases_def split: option.splits)

text \<open>C29. Every request to the GraphQL endpoint is answered with status 200, whatever its bytes: by
  an object with one error message, or by data that has the field of a known operation, the one
  the document names, also after the alias pass; a body that cannot be read changes nothing.\<close>

theorem graphql_answer_type:
  "fst (fst (graphql_handler env headers deflated body w)) = 200 \<and>
   (case read_body env deflated body of
      Inl _ \<Rightarrow> errors_answer (snd (fst (graphql_handler env headers deflated body w))) \<and>
        snd (graphql_handler env headers deflated body w) = w
    | Inr req \<Rightarrow> errors_answer (snd (fst (graphql_handler env headers deflated body w))) \<or>
        data_answer (detect_operation req) (snd (fst (graphql_handler env headers deflated body w))))"
proof (cases "read_body env deflated body")
  case (Inl e)
  then show ?thesis by (simp add: graphql_handler_def errors_answer_def graphql_error_def)
next
  case (Inr req)
  obtain r w' where d: "dispatch (n_api env) headers (detect_operation req) (gq_variables req) w = (r, w')"
    by (cases "dispatch (n_api env) headers (detect_operation req) (gq_variables req) w")
  show ?thesis
  proof (cases r)
    case (Inl e)
    then show ?thesis using Inr d by (simp add: graphql_handler_def errors_answer_def graphql_error_def)
  next
    case data: (Inr j)
    obtain operation v where "operation_of (detect_operation req) = Some operation" "j = JObj [(response_field operation, v)]"
      using answer_type d data by blast
    then have "data_answer (detect_operation req) (JObj [(''data'', apply_query_aliases j (gq_query req))])"
      unfolding data_answer_def using alias_pass_keeps_field by blast
    then show ?thesis using Inr d data by (simp add: graphql_handler_def)
  qed
qed

section \<open>Naming the operation\<close>

text \<open>The names the endpoint searches a document for are operations, each found in itself...\<close>

lemma known_operations_run: "list_all (\<lambda>op. operation_of op \<noteq> None) known_operations"
  by code_simp

text \<open>...unless an earlier name is a part of it: the search takes the first hit of a fixed list.\<close>

lemma shadowed_operations:
  "first_row (contains ''CreateInstantStaticDepositQuote'') known_operations = Some ''StaticDepositQuote''"
  "first_row (contains ''FetchCurrentUserToUserRequestsConnection'') known_operations = Some ''UserRequest''"
  by code_simp+

lemma detected_names:
  "detect_operation \<lparr>gq_query = ''mutation RequestSwap($x: Int) { a }'', gq_variables = JNull, gq_operation = None\<rparr> = ''RequestSwap''"
  "detect_operation \<lparr>gq_query = ''{ CreateInstantStaticDepositQuote }'', gq_variables = JNull, gq_operation = None\<rparr> = ''StaticDepositQuote''"
  by code_simp+


section \<open>Examples\<close>

definition example_http :: http_env where
  "example_http = \<lparr>n_api = example_api, n_zlib = (\<lambda>b. (b, False)), n_deflate = (\<lambda>b. (b @ b, True)), n_utf8 = (\<lambda>b. Some ''text''),
     n_parse = (\<lambda>_. Inr \<lparr>gq_query = '''', gq_variables = JNull, gq_operation = Some ''LeavesSwapFeeEstimate''\<rparr>),
     n_sha256 = (\<lambda>s. if s = ''secret'' then [1] else [2]), n_admin_token = ''secret'', n_allow_no_auth = False,
     n_address = (\<lambda>_. Inr ''bcrt1''), n_transaction = Inr, n_claim = (\<lambda>_ _ _. Inr [1]), n_spark_address = Inr ''sp1'', n_backend = ''server'',
     n_node_id = ''02'', n_instant_max = 0, n_instant_deposit_max = 0\<rparr>"

theorem admin_token_required_witness:
  "run_admin example_http \<lparr>h_authorization = Some ''Bearer wrong'', h_partner = False\<rparr> (Claim ''00'' 0) example_service =
     ((401, JObj [(''error'', JStr ''unauthorized'')]), example_service)"
  by (rule admin_token_required) (auto simp: example_http_def startup_check_def)

theorem inflated_body_bounded_witness:
  "\<exists>raw text. length raw \<le> 8388608 \<and> (raw = [7] \<or> raw = [7, 7]) \<and> n_utf8 example_http raw = Some text \<and>
     n_parse example_http text = Inr \<lparr>gq_query = '''', gq_variables = JNull, gq_operation = Some ''LeavesSwapFeeEstimate''\<rparr>"
proof -
  have "read_body example_http True [7] = Inr \<lparr>gq_query = '''', gq_variables = JNull, gq_operation = Some ''LeavesSwapFeeEstimate''\<rparr>"
    by (simp add: read_body_def inflate_raw_deflate_def read_capped_def max_inflated_bytes_def example_http_def and_then_def)
  from inflated_body_bounded [OF this] show ?thesis by (simp add: example_http_def)
qed

end
