(* ===== verification/Embedded_Node.thy ===== *)
theory Embedded_Node
  imports Service_World
begin

text \<open>
  The Lightning node behind the settlement (src/src/ldk/client.rs): one interface to a remote
  server or to a node inside the process. What the node answers, its parsers and encoders are
  arguments. An event of the embedded node stays at the head of the node's queue until it is
  acknowledged; a turn of the event loop takes it, maps it to a settlement event, stores the
  reason of a failure, applies it and acknowledges it. Fields of payments that settlement never
  reads (secrets, fees paid, time stamps) are left out, as in theory Lightning_Backend.
\<close>

section \<open>The node's data\<close>

datatype node_kind =
    NodeBolt11 bytes "bytes option" "u64 option"
  | NodeBolt12 "bytes option" "bytes option" bytes "string option"
  | NodeOther

record node_payment =
  np_id :: bytes
  np_kind :: node_kind
  np_amount_msat :: "u64 option"
  np_outbound :: bool
  np_status :: ldk_status

datatype node_failure =
    RecipientRejected | UserAbandoned | RetriesExhausted | PaymentExpired | RouteNotFound | UnexpectedError
  | UnknownRequiredFeatures | InvoiceRequestExpired | InvoiceRequestRejected | BlindedPathCreationFailed

datatype node_event =
    NodeSuccessful bytes
  | NodeFailed bytes "node_failure option"
  | NodeClaimable bytes bytes u64
  | NodeReceived bytes
  | NodeOtherEvent

text \<open>What the node is asked to pay: an invoice under a CLTV cap, or an offer with a payer note.\<close>

datatype node_send =
    PayInvoice string "u64 option" "u32 option"
  | PayOffer string "u64 option" string

datatype node_call =
    ServerSend node_send
  | ServerOfferId string
  | ServerDetails string
  | ServerList "string option"
  | ServerInvoice "u64 option" "string option" u32 string
  | ServerOffer "u64 option" string "u32 option"
  | ServerClaim string u64 string
  | ServerFail string
  | NodeSend node_send
  | NodePayment bytes
  | NodeList "string option"
  | NodeInvoice "u64 option" string u32 bytes
  | NodeOffer "u64 option" string "u32 option"
  | NodeClaim bytes u64 bytes
  | NodeFail bytes
  | NextEvent
  | EventHandled
  | Handling Settlement.call

type_synonym node_world = "node_call log_world"

record node_lib =
  nl_hex :: "bytes \<Rightarrow> string"
  nl_unhex :: "string \<Rightarrow> bytes option"
  nl_invoice :: "string \<Rightarrow> unit result"
  nl_offer :: "string \<Rightarrow> bytes result"
  nl_description :: "string \<Rightarrow> unit result"
  nl_reason :: "node_failure \<Rightarrow> string"

record node_env =
  o_lib :: node_lib
  o_embedded :: bool
  o_server_send :: "node_call list \<Rightarrow> node_send \<Rightarrow> string result"
  o_server_offer_id :: "node_call list \<Rightarrow> string \<Rightarrow> string result"
  o_server_details :: "node_call list \<Rightarrow> string \<Rightarrow> payment option result"
  o_server_list :: "node_call list \<Rightarrow> string option \<Rightarrow> (payment list \<times> string option) result"
  o_server_invoice :: "node_call list \<Rightarrow> u64 option \<Rightarrow> string option \<Rightarrow> u32 \<Rightarrow> string \<Rightarrow> string result"
  o_server_offer :: "node_call list \<Rightarrow> u64 option \<Rightarrow> string \<Rightarrow> u32 option \<Rightarrow> (string \<times> string) result"
  o_server_claim :: "node_call list \<Rightarrow> string \<Rightarrow> u64 \<Rightarrow> string \<Rightarrow> unit result"
  o_server_fail :: "node_call list \<Rightarrow> string \<Rightarrow> unit result"
  o_send :: "node_call list \<Rightarrow> node_send \<Rightarrow> bytes result"
  o_payment :: "node_call list \<Rightarrow> bytes \<Rightarrow> node_payment option result"
  o_list :: "node_call list \<Rightarrow> string option \<Rightarrow> (node_payment list \<times> string option) result"
  o_invoice :: "node_call list \<Rightarrow> u64 option \<Rightarrow> string \<Rightarrow> u32 \<Rightarrow> bytes \<Rightarrow> string result"
  o_offer :: "node_call list \<Rightarrow> u64 option \<Rightarrow> string \<Rightarrow> u32 option \<Rightarrow> (string \<times> bytes) result"
  o_claim :: "node_call list \<Rightarrow> bytes \<Rightarrow> u64 \<Rightarrow> bytes \<Rightarrow> unit result"
  o_fail :: "node_call list \<Rightarrow> bytes \<Rightarrow> unit result"
  o_event :: "node_call list \<Rightarrow> node_event"
  o_handled :: "node_call list \<Rightarrow> unit result"
  o_disk :: "node_call list \<Rightarrow> unit result"

section \<open>Encodings\<close>

definition hex32 :: "node_lib \<Rightarrow> string \<Rightarrow> bytes result" where
  "hex32 lib s = (case nl_unhex lib s of
     Some bs \<Rightarrow> if length bs = 32 then Inr bs else Inl (Failure ''expected 32-byte hex value'')
   | None \<Rightarrow> Inl (Failure ''expected 32-byte hex value''))"

definition payment_snapshot :: "node_lib \<Rightarrow> node_payment \<Rightarrow> payment" where
  "payment_snapshot lib p =
     \<lparr>p_id = nl_hex lib (np_id p), p_outbound = np_outbound p, p_amount_msat = np_amount_msat p, p_status = np_status p,
      p_kind = (case np_kind p of
         NodeBolt11 hash preimage skimmed \<Rightarrow> Some (PBolt11 (nl_hex lib hash) (map_option (nl_hex lib) preimage) skimmed)
       | NodeBolt12 hash preimage offer note \<Rightarrow>
           Some (PBolt12 (nl_hex lib offer) (map_option (nl_hex lib) hash) (map_option (nl_hex lib) preimage) note)
       | NodeOther \<Rightarrow> None)\<rparr>"

definition transpose :: "'a result option \<Rightarrow> 'a option result" where
  "transpose x = (case x of None \<Rightarrow> Inr None | Some (Inl e) \<Rightarrow> Inl e | Some (Inr v) \<Rightarrow> Inr (Some v))"

section \<open>Payments\<close>

text \<open>The terms of a send; only an invoice is paid under a CLTV cap.\<close>

definition send_terms :: "lightning_send \<Rightarrow> node_send result" where
  "send_terms send =
     and_then (transpose (map_option sats_to_msats (ls_amount_override send))) (\<lambda>amount.
     Inr (case ls_kind send of
        Bolt11 \<Rightarrow> PayInvoice (ls_invoice send) amount (ls_max_route_cltv send)
      | Bolt12 \<Rightarrow> PayOffer (ls_invoice send) amount (payer_note send)))"

definition embedded_terms :: "node_lib \<Rightarrow> lightning_send \<Rightarrow> node_send result" where
  "embedded_terms lib send =
     and_then (send_terms send) (\<lambda>terms.
     and_then (case ls_kind send of
         Bolt11 \<Rightarrow> nl_invoice lib (ls_invoice send)
       | Bolt12 \<Rightarrow> and_then (nl_offer lib (ls_invoice send)) (\<lambda>_. Inr ())) (\<lambda>_.
     Inr terms))"

definition client_send :: "node_env \<Rightarrow> lightning_send \<Rightarrow> (node_world, string) action" where
  "client_send env send =
     (if o_embedded env
      then bind_action (lift_result (embedded_terms (o_lib env) send)) (\<lambda>terms.
        bind_action (ask (NodeSend terms) (\<lambda>h. o_send env h terms)) (\<lambda>i. ret (nl_hex (o_lib env) i)))
      else bind_action (lift_result (send_terms send)) (\<lambda>terms.
        ask (ServerSend terms) (\<lambda>h. o_server_send env h terms)))"

definition client_offer_id :: "node_env \<Rightarrow> string \<Rightarrow> (node_world, string) action" where
  "client_offer_id env offer =
     (if o_embedded env then lift_result (and_then (nl_offer (o_lib env) offer) (\<lambda>i. Inr (nl_hex (o_lib env) i)))
      else ask (ServerOfferId offer) (\<lambda>h. o_server_offer_id env h offer))"

definition get_payment_details :: "node_env \<Rightarrow> string \<Rightarrow> (node_world, payment option) action" where
  "get_payment_details env payment_id =
     (if o_embedded env
      then bind_action (lift_result (hex32 (o_lib env) payment_id)) (\<lambda>i.
        bind_action (ask (NodePayment i) (\<lambda>h. o_payment env h i)) (\<lambda>found.
        ret (map_option (payment_snapshot (o_lib env)) found)))
      else ask (ServerDetails payment_id) (\<lambda>h. o_server_details env h payment_id))"

definition list_payments :: "node_env \<Rightarrow> string option \<Rightarrow> (node_world, payment list \<times> string option) action" where
  "list_payments env token =
     (if o_embedded env
      then bind_action (ask (NodeList token) (\<lambda>h. o_list env h token)) (\<lambda>(payments, next_token).
        ret (map (payment_snapshot (o_lib env)) payments, next_token))
      else ask (ServerList token) (\<lambda>h. o_server_list env h token))"

definition bolt11_receive_for_hash :: "node_env \<Rightarrow> u64 option \<Rightarrow> string option \<Rightarrow> u32 \<Rightarrow> string \<Rightarrow> (node_world, string) action" where
  "bolt11_receive_for_hash env amount description expiry hash =
     (if o_embedded env
      then (let memo = (case description of Some m \<Rightarrow> m | None \<Rightarrow> '''') in
        then_action (lift_result (nl_description (o_lib env) memo))
        (bind_action (lift_result (hex32 (o_lib env) hash)) (\<lambda>hash_bytes.
         ask (NodeInvoice amount memo expiry hash_bytes) (\<lambda>h. o_invoice env h amount memo expiry hash_bytes))))
      else ask (ServerInvoice amount description expiry hash) (\<lambda>h. o_server_invoice env h amount description expiry hash))"

text \<open>The offer and its id.\<close>

definition bolt12_receive :: "node_env \<Rightarrow> u64 option \<Rightarrow> string \<Rightarrow> u32 option \<Rightarrow> (node_world, string \<times> string) action" where
  "bolt12_receive env amount description expiry =
     (if o_embedded env
      then bind_action (ask (NodeOffer amount description expiry) (\<lambda>h. o_offer env h amount description expiry)) (\<lambda>(offer, i).
        ret (offer, nl_hex (o_lib env) i))
      else ask (ServerOffer amount description expiry) (\<lambda>h. o_server_offer env h amount description expiry))"

definition client_claim :: "node_env \<Rightarrow> string \<Rightarrow> u64 \<Rightarrow> string \<Rightarrow> (node_world, unit) action" where
  "client_claim env payment_id amount_msat preimage =
     (if o_embedded env
      then bind_action (lift_result (hex32 (o_lib env) payment_id)) (\<lambda>i.
        bind_action (lift_result (hex32 (o_lib env) preimage)) (\<lambda>pre.
        ask (NodeClaim i amount_msat pre) (\<lambda>h. o_claim env h i amount_msat pre)))
      else handle (ask (ServerClaim payment_id amount_msat preimage) (\<lambda>h. o_server_claim env h payment_id amount_msat preimage)) ret
        (\<lambda>e. throw (Failure (''claim Lightning receive '' @ payment_id @ '': '' @ error_text e))))"

definition client_fail :: "node_env \<Rightarrow> string \<Rightarrow> (node_world, unit) action" where
  "client_fail env payment_id =
     (if o_embedded env
      then bind_action (lift_result (hex32 (o_lib env) payment_id)) (\<lambda>i. ask (NodeFail i) (\<lambda>h. o_fail env h i))
      else handle (ask (ServerFail payment_id) (\<lambda>h. o_server_fail env h payment_id)) ret
        (\<lambda>e. throw (Failure (''fail Lightning receive '' @ payment_id @ '': '' @ error_text e))))"

section \<open>Events\<close>

definition event_payment :: "node_env \<Rightarrow> bytes \<Rightarrow> (node_world, payment) action" where
  "event_payment env i =
     bind_action (ask (NodePayment i) (\<lambda>h. o_payment env h i)) (\<lambda>found.
     lift_result (ok_or (map_option (payment_snapshot (o_lib env)) found)
       (Failure (''LDK event payment '' @ nl_hex (o_lib env) i @ '' missing from store''))))"

definition received_event :: "string \<Rightarrow> payment \<Rightarrow> ln_event option" where
  "received_event payment_id p = (case bolt11_hash (Some p) of
     Some hash \<Rightarrow> Some (InboundReceived payment_id hash)
   | None \<Rightarrow> (case bolt12_offer_ids (Some p) of
       Some (offer, hash) \<Rightarrow> Some (InboundBolt12Received offer hash (bolt12_preimage (Some p)) (p_amount_msat p))
     | None \<Rightarrow> None))"

definition map_event :: "node_lib \<Rightarrow> (bytes \<Rightarrow> ('s, payment) action) \<Rightarrow> node_event \<Rightarrow> ('s, ln_event option) action" where
  "map_event lib payment event = (case event of
     NodeSuccessful i \<Rightarrow> bind_action (payment i) (\<lambda>p. ret (Some (OutboundSucceeded p)))
   | NodeFailed i reason \<Rightarrow> ret (Some (OutboundFailed (nl_hex lib i) (map_option (nl_reason lib) reason)))
   | NodeClaimable i hash amount \<Rightarrow> ret (Some (InboundClaimable
       \<lparr>cl_payment_id = nl_hex lib i, cl_payment_hash = nl_hex lib hash, cl_amount_msat = Some amount\<rparr>))
   | NodeReceived i \<Rightarrow> bind_action (payment i) (\<lambda>p. ret (received_event (nl_hex lib i) p))
   | NodeOtherEvent \<Rightarrow> ret None)"

definition handling_part :: "node_call \<Rightarrow> Settlement.call option" where
  "handling_part c = (case c of Handling x \<Rightarrow> Some x | _ \<Rightarrow> None)"

interpretation handling_calls: call_part Handling handling_part
  by unfold_locales (auto simp: handling_part_def split: node_call.splits)

definition in_settlement :: "(Settlement.world, 'a) action \<Rightarrow> (node_world, 'a) action" where
  "in_settlement = within Handling handling_part"

text \<open>Failure reasons are in events only; the write may fail (\<open>o_disk\<close>).\<close>

definition persist_failure :: "node_env \<Rightarrow> ln_event \<Rightarrow> (node_world, unit) action" where
  "persist_failure env event = (case event of
     OutboundFailed payment_id reason \<Rightarrow>
       bind_action (reading (o_disk env)) (\<lambda>outcome.
       then_action (lift_result outcome) (on_db (record_lightning_failure payment_id reason)))
   | _ \<Rightarrow> ret ())"

definition acknowledge :: "node_env \<Rightarrow> (node_world, unit) action" where
  "acknowledge env = ignore (ask EventHandled (o_handled env))"

text \<open>A turn of \<open>run_embedded_events\<close>; after an error the loop sleeps and takes the event again.\<close>

definition event_turn :: "node_env \<Rightarrow> environment \<Rightarrow> (node_world, unit) action" where
  "event_turn env settlement =
     bind_action (ask NextEvent (\<lambda>h. Inr (o_event env h))) (\<lambda>event.
     handle (map_event (o_lib env) (event_payment env) event)
       (\<lambda>mapped. case mapped of
          None \<Rightarrow> acknowledge env
        | Some mapped_event \<Rightarrow> handle (persist_failure env mapped_event)
            (\<lambda>_. then_action (ignore (in_settlement (apply_ln_event settlement mapped_event))) (acknowledge env))
            (\<lambda>_. ret ()))
       (\<lambda>_. ret ()))"

end
