(* ===== verification/Node_Guarantees.thy ===== *)
theory Node_Guarantees
  imports Embedded_Node
begin

text \<open>
  What the interface to the Lightning node guarantees: a failure's reason is stored before its
  event is given up, both transports feed settlement the same events, and the payment a prepared
  send's terms ask for is the payment that later passes for it.
\<close>

section \<open>Failure reasons\<close>

definition reason_stored :: "string \<Rightarrow> string option \<Rightarrow> db \<Rightarrow> bool" where
  "reason_stored i reason d \<longleftrightarrow> (\<forall>row\<in>set (lightning_sends d). same_send i row \<longrightarrow>
     (case reason of Some x \<Rightarrow> ls_last_error row = Some x | None \<Rightarrow> ls_last_error row \<noteq> None))"

lemma record_stores: "reason_stored i reason (snd (record_lightning_failure i reason d))"
  by (auto simp: reason_stored_def record_lightning_failure_def void_def update_where_def set_update_rows action_defs
      table_defs coalesce_def same_send_def split: option.splits)

lemma set_payment_keeps_reason:
  assumes "reason_stored i reason d"
  shows "reason_stored i reason (snd (set_payment j status d))"
  using assms
  by (auto simp: reason_stored_def set_payment_def void_def update_where_def upsert_def set_update_rows action_defs
      table_defs same_send_def split: option.splits sum.splits if_splits)

interpretation reason: step_relation "\<lambda>w w'. reason_stored i reason (w_db w) \<longrightarrow> reason_stored i reason (w_db w')" for i reason
  by unfold_locales auto

lemma reason_kept_on_db:
  assumes "\<And>d. reason_stored i reason d \<Longrightarrow> reason_stored i reason (snd (m d))"
  shows "obeys (\<lambda>w w'. reason_stored i reason (w_db w) \<longrightarrow> reason_stored i reason (w_db w')) (on_db m)"
  using assms by (auto simp: obeys_def on_db_def split: prod.split) (metis snd_conv)

lemma reason_kept_ask:
  "obeys (\<lambda>w w'. reason_stored i reason (w_db w) \<longrightarrow> reason_stored i reason (w_db w')) (ask c f)"
  by (simp add: obeys_def ask_def)

lemma find_send_keeps: "snd (lightning_send_for_payment j d) = d"
  by (simp add: lightning_send_for_payment_def query_optional_def bind_action_def ret_def)

lemma failure_keeps_reason:
  "obeys (\<lambda>w w'. reason_stored i reason (w_db w) \<longrightarrow> reason_stored i reason (w_db w')) (apply_ln_event env (OutboundFailed i reason))"
proof -
  have found: "obeys (\<lambda>w w'. reason_stored i reason (w_db w) \<longrightarrow> reason_stored i reason (w_db w'))
      (on_db (lightning_send_for_payment i))"
    by (rule reason_kept_on_db) (simp add: find_send_keeps)
  have "obeys (\<lambda>w w'. reason_stored i reason (w_db w) \<longrightarrow> reason_stored i reason (w_db w')) (fail_managed_payment env i reason)"
    unfolding fail_managed_payment_def set_payment_status_def void_def
    by (intro reason.obeys_bind reason.obeys_then reason.obeys_ret found reason_kept_on_db reason_kept_ask set_payment_keeps_reason
        record_stores | simp add: reason.obeys_ret split: option.split | intro conjI impI allI)+
  then show ?thesis
    unfolding apply_ln_event_def is_managed_outbound_def
    by (auto intro!: reason.obeys_handle reason.obeys_bind reason.obeys_ret reason.obeys_ignore found)
qed

section \<open>Acknowledged events\<close>

text \<open>A call the event loop makes to look at the node.\<close>

definition is_lookup :: "node_call \<Rightarrow> bool" where
  "is_lookup c \<longleftrightarrow> c = NextEvent \<or> (\<exists>i. c = NodePayment i)"

definition looked_up :: "node_world \<Rightarrow> node_world \<Rightarrow> bool" where
  "looked_up w w' \<longleftrightarrow> w_db w' = w_db w \<and> calls_only is_lookup w w'"

interpretation looks: step_relation looked_up
  by unfold_locales (auto simp: looked_up_def intro: calls_only.R_refl calls_only.R_trans)

lemma looks_ask: "is_lookup c \<Longrightarrow> obeys looked_up (ask c f)"
  by (auto simp: obeys_def ask_def looked_up_def calls_only_def)

lemma map_event_looks: "obeys looked_up (map_event lib (event_payment env) event)"
  unfolding map_event_def event_payment_def
  by (cases event) (auto intro!: looks.obeys_bind looks.obeys_ret looks.obeys_lift looks_ask simp: is_lookup_def)

lemma map_event_failed:
  assumes "map_event lib payment event w = (Inr (Some e), w1)" "event = NodeFailed i reason"
  shows "e = OutboundFailed (nl_hex lib i) (map_option (nl_reason lib) reason)"
  using assms by (simp add: map_event_def ret_def)

lemma acknowledged: "w_calls (snd (acknowledge env w)) = w_calls w @ [EventHandled] \<and> w_db (snd (acknowledge env w)) = w_db w"
  by (simp add: acknowledge_def ignore_def handle_def ask_def ret_def split: sum.split)

lemma handled_reason:
  assumes "persist_failure env (OutboundFailed i reason) w = (Inr u, w1)"
  shows "reason_stored i reason (w_db w1) \<and>
    reason_stored i reason (w_db (snd (ignore (in_settlement (apply_ln_event settlement (OutboundFailed i reason))) w1)))"
proof
  obtain r where "on_db (record_lightning_failure i reason) w = (Inr r, w1)"
    using assms by (auto simp: persist_failure_def reading_def ret_def bind_action_def then_action_def lift_result_def
        split: sum.splits)
  then show 1: "reason_stored i reason (w_db w1)"
    using record_stores [of i reason "w_db w"] by (auto simp: on_db_def split: prod.splits)
  have "reason_stored i reason (w_db (snd (in_settlement m w1)))" if "m = apply_ln_event settlement (OutboundFailed i reason)" for m
  proof -
    have "reason_stored i reason (w_db (snd (m (part_view handling_part w1))))"
      using failure_keeps_reason [of i reason settlement] 1 that by (simp add: obeys_def part_view_def)
    then show ?thesis by (auto simp: in_settlement_def within_def split: prod.split)
  qed
  then show "reason_stored i reason (w_db (snd (ignore (in_settlement (apply_ln_event settlement (OutboundFailed i reason))) w1)))"
    by (simp add: ignore_def handle_def ret_def split: prod.split sum.split)
      (metis snd_conv)
qed

lemma persist_failure_Inl: "persist_failure env e w = (Inl err, w1) \<Longrightarrow> w1 = w"
  by (cases e) (auto simp: persist_failure_def reading_def ret_def bind_action_def then_action_def lift_result_def on_db_def
      record_lightning_failure_def void_def update_where_def split: sum.splits)

lemma persist_failure_calls: "persist_failure env e w = (r, w1) \<Longrightarrow> w_calls w1 = w_calls w"
  by (cases e) (auto simp: persist_failure_def reading_def ret_def bind_action_def then_action_def lift_result_def on_db_def
      split: sum.splits prod.splits)

lemma then_ignore: "snd (then_action (ignore m) k w) = snd (k (snd (ignore m w)))"
  by (simp add: then_action_def bind_action_def ignore_def handle_def ret_def split: prod.split sum.split)

lemma settlement_appends: "\<exists>ds. w_calls (snd (ignore (in_settlement m) w)) = w_calls w @ ds"
  by (simp add: ignore_def handle_def ret_def in_settlement_def within_def split: prod.split sum.split)

text \<open>C33. An event of the embedded node is given up only after what it says is safe: a turn of the
  event loop either only looked at the node, with nothing stored and the event still queued, or
  ends with the acknowledgement, and then the reason of a failed payment is stored with every
  send of that payment.\<close>

theorem event_kept_until_stored:
  "looked_up w (snd (event_turn env settlement w)) \<or>
   (\<exists>cs. w_calls (snd (event_turn env settlement w)) = w_calls w @ NextEvent # cs @ [EventHandled]) \<and>
   (case o_event env (w_calls w) of
      NodeFailed i reason \<Rightarrow> reason_stored (nl_hex (o_lib env) i) (map_option (nl_reason (o_lib env)) reason)
        (w_db (snd (event_turn env settlement w)))
    | _ \<Rightarrow> True)"
proof -
  let ?event = "o_event env (w_calls w)" and ?w0 = "w\<lparr>w_calls := w_calls w @ [NextEvent]\<rparr>"
  let ?mapped = "map_event (o_lib env) (event_payment env) ?event"
  let ?turn = "event_turn env settlement w"
  have first: "looked_up w ?w0" by (auto simp: looked_up_def calls_only_def is_lookup_def)
  obtain r w1 where m: "?mapped ?w0 = (r, w1)" by (cases "?mapped ?w0")
  then have looks: "looked_up ?w0 w1" using map_event_looks [of "o_lib env" env ?event] by (metis obeysD snd_conv)
  then obtain cs where cs: "w_calls w1 = w_calls w @ NextEvent # cs" by (auto simp: looked_up_def calls_only_def)
  show ?thesis
  proof (cases r)
    case (Inl e)
    then have "snd ?turn = w1" using m by (simp add: event_turn_def bind_action_def ask_def handle_def ret_def)
    then show ?thesis using first looks looks.R_trans by metis
  next
    case (Inr mapped)
    show ?thesis
    proof (cases mapped)
      case None
      then have "snd ?turn = snd (acknowledge env w1)"
        using m Inr by (simp add: event_turn_def bind_action_def ask_def handle_def)
      moreover have "?event \<noteq> NodeFailed i reason" for i reason
        using m Inr None by (auto simp: map_event_def ret_def)
      ultimately show ?thesis using acknowledged [of env w1] cs by (auto split: node_event.split)
    next
      case (Some e)
      obtain r2 w2 where p: "persist_failure env e w1 = (r2, w2)" by (cases "persist_failure env e w1")
      have turn: "snd ?turn = (case r2 of Inl _ \<Rightarrow> w2
          | Inr _ \<Rightarrow> snd (then_action (ignore (in_settlement (apply_ln_event settlement e))) (acknowledge env) w2))"
        using m Inr Some p by (simp add: event_turn_def bind_action_def ask_def handle_def ret_def split: sum.split)
      show ?thesis
      proof (cases r2)
        case (Inl err)
        then have "w2 = w1" using p persist_failure_Inl by metis
        then show ?thesis using first looks looks.R_trans turn Inl by (metis sum.case(1))
      next
        case (Inr u)
        let ?w3 = "snd (ignore (in_settlement (apply_ln_event settlement e)) w2)"
        have "snd ?turn = snd (acknowledge env ?w3)" using turn Inr by (simp add: then_ignore)
        moreover have "\<exists>ds. w_calls ?w3 = w_calls w1 @ ds"
          using settlement_appends [of "apply_ln_event settlement e" w2] persist_failure_calls [OF p] by simp
        moreover have "reason_stored (nl_hex (o_lib env) i) (map_option (nl_reason (o_lib env)) reason) (w_db ?w3)"
          if event: "?event = NodeFailed i reason" for i reason
        proof -
          have "e = OutboundFailed (nl_hex (o_lib env) i) (map_option (nl_reason (o_lib env)) reason)"
            using map_event_failed [OF _ event] m \<open>r = Inr mapped\<close> Some by simp
          then show ?thesis using handled_reason p Inr by blast
        qed
        ultimately show ?thesis using acknowledged [of env ?w3] cs by (auto split: node_event.split)
      qed
    qed
  qed
qed

section \<open>One view of both transports\<close>

text \<open>
  An envelope of the server that reports what an event of the embedded node reports, with the
  payment \<open>p\<close> as it is stored; a claimable payment is one for an invoice of that hash.
\<close>

fun reports :: "node_lib \<Rightarrow> node_payment \<Rightarrow> node_event \<Rightarrow> raw_event \<Rightarrow> bool" where
  "reports lib p (NodeSuccessful i) (RawSuccessful q) \<longleftrightarrow> q = Some (payment_snapshot lib p)"
| "reports lib p (NodeFailed i reason) (RawFailed j text) \<longleftrightarrow> j = nl_hex lib i \<and> text = map_option (nl_reason lib) reason"
| "reports lib p (NodeClaimable i hash amount) (RawClaimable j n q) \<longleftrightarrow> j = nl_hex lib i \<and> n = amount \<and>
     q = Some (payment_snapshot lib p) \<and> (\<exists>pre fee. np_kind p = NodeBolt11 hash pre fee)"
| "reports lib p (NodeReceived i) (RawReceived j q) \<longleftrightarrow> j = nl_hex lib i \<and> q = Some (payment_snapshot lib p)"
| "reports lib p NodeOtherEvent RawOther \<longleftrightarrow> True"
| "reports lib p _ _ \<longleftrightarrow> False"

text \<open>Settlement cannot tell the transports apart: whatever envelope of the server reports what
  an event of the embedded node reports, both are mapped to the same settlement event or both
  to none.\<close>

theorem transports_agree:
  assumes "reports (o_lib env) p event raw" "\<And>h i. o_payment env h i = Inr (Some p)"
  shows "fst (map_event (o_lib env) (event_payment env) event w) =
    Inr (case map_envelope (Some raw) of [] \<Rightarrow> None | e # _ \<Rightarrow> Some e) \<and> length (map_envelope (Some raw)) \<le> 1"
  using assms
  by (cases event; cases raw; cases "np_kind p")
    (auto simp: map_event_def event_payment_def bind_action_def ask_def lift_result_def ret_def map_envelope_def received_event_def
      payment_snapshot_def bolt11_hash_def bolt12_offer_ids_def bolt12_preimage_def split: option.splits)

section \<open>What a prepared send asks for\<close>

text \<open>The payment a node makes for the terms of a send, with the invoice's own amount first.\<close>

fun paid_terms :: "(string \<Rightarrow> bolt11 option) \<Rightarrow> (string \<Rightarrow> string result) \<Rightarrow> node_send \<Rightarrow> payment \<Rightarrow> bool" where
  "paid_terms decode offer_id (PayInvoice invoice amount cltv) p \<longleftrightarrow> p_outbound p \<and>
     (\<exists>b pre fee. decode invoice = Some b \<and> p_kind p = Some (PBolt11 (bi_payment_hash b) pre fee) \<and>
        p_amount_msat p = (case bi_amount_msat b of Some m \<Rightarrow> Some m | None \<Rightarrow> amount))"
| "paid_terms decode offer_id (PayOffer offer amount note) p \<longleftrightarrow> p_outbound p \<and> p_amount_msat p = amount \<and>
     (\<exists>i hash pre. offer_id offer = Inr i \<and> p_kind p = Some (PBolt12 i hash pre (Some note)))"

lemma prepared_offer:
  assumes "prepare_send decode offer_id is_uuid verify_offer verify_htlc net now rid owner transfer invoice amount = Inr send"
    "is_offer invoice"
  obtains i n where "offer_id invoice = Inr i" "amount = Some n" "ls_kind send = Bolt12" "ls_expected_id send = i"
    "ls_amount_sats send = n" "ls_amount_override send = Some n" "ls_invoice send = invoice" "ls_request_id send = rid"
    "checked_mul n 1000 \<noteq> None"
  using assms by (auto simp: prepare_send_def sats_to_msats_def ok_or_def split: if_splits sum.splits option.splits)

lemma prepared_invoice:
  assumes "prepare_send decode offer_id is_uuid verify_offer verify_htlc net now rid owner transfer invoice amount = Inr send"
    "\<not> is_offer invoice"
  obtains b cap hash sats where "decode invoice = Some b" "ls_kind send = Bolt11" "ls_expected_id send = bi_payment_hash b"
    "ls_amount_override send = amount" "ls_invoice send = invoice" "ls_max_route_cltv send = Some cap"
    "verify_htlc hash sats = Inr cap" "bi_amount_msat b = None \<longrightarrow> amount = Some (ls_amount_sats send)"
    "bi_amount_msat b \<noteq> None \<longrightarrow> amount = None" "checked_mul (ls_amount_sats send) 1000 \<noteq> None"
proof -
  let ?funding = "verify_lightning_send_funding decode verify_offer verify_htlc invoice amount"
  obtain b sats where b: "decode invoice = Some b"
      "(case bi_amount_msat b of Some a \<Rightarrow> Some (div_ceil a 1000) | None \<Rightarrow> amount) = Some sats" "is_ok (sats_to_msats sats)"
    and send: "(case ?funding of Inl e \<Rightarrow> Inl e | Inr cltv \<Rightarrow> Inr \<lparr>ls_request_id = rid, ls_owner = owner,
        ls_outbound_transfer_id = transfer, ls_invoice = invoice, ls_amount_sats = sats, ls_amount_override = amount,
        ls_kind = Bolt11, ls_expected_id = bi_payment_hash b, ls_max_route_cltv = cltv, ls_payment_id = None,
        ls_status = Prepared\<rparr>) = Inr send"
    using assms unfolding prepare_send_def
    by (auto simp: is_ok_def split: if_splits option.splits sum.splits)
  from send obtain cltv where f: "?funding = Inr cltv" and s: "send = \<lparr>ls_request_id = rid, ls_owner = owner,
        ls_outbound_transfer_id = transfer, ls_invoice = invoice, ls_amount_sats = sats, ls_amount_override = amount,
        ls_kind = Bolt11, ls_expected_id = bi_payment_hash b, ls_max_route_cltv = cltv, ls_payment_id = None,
        ls_status = Prepared\<rparr>"
    by (auto split: sum.splits)
  from f obtain hash n cap where cap: "verify_htlc hash n = Inr cap" "cltv = Some cap"
    and fixed: "bi_amount_msat b \<noteq> None \<Longrightarrow> amount = None"
    using assms(2) b(1) unfolding verify_lightning_send_funding_def
    by (auto simp: Let_def split: if_splits option.splits sum.splits)
  have "checked_mul sats 1000 \<noteq> None" using b(3) by (auto simp: sats_to_msats_def ok_or_def split: option.splits)
  moreover have "bi_amount_msat b = None \<longrightarrow> amount = Some sats" using b(2) by auto
  ultimately show ?thesis using that [of b cap hash n] b(1) s cap fixed by simp
qed

text \<open>C34. What was checked, what is asked for and what is later accepted are one payment: the terms of
  every prepared send can be formed without overflow, an invoice is paid under the CLTV cap its
  funding allows, and any payment the node makes for the terms passes as that send's.\<close>

theorem prepared_terms_accepted:
  assumes "prepare_send decode offer_id is_uuid verify_offer verify_htlc net now rid owner transfer invoice amount = Inr send"
    "is_offer invoice \<Longrightarrow> decode invoice = None"
  shows "\<exists>terms. send_terms send = Inr terms \<and>
    (case terms of
       PayInvoice _ _ cltv \<Rightarrow> (\<exists>hash sats cap. verify_htlc hash sats = Inr cap \<and> cltv = Some cap)
     | PayOffer _ _ note \<Rightarrow> note = ''open-ssp:'' @ rid) \<and>
    (\<forall>p. paid_terms decode offer_id terms p \<longrightarrow> validate_send_payment decode send p = Inr ())"
proof (cases "is_offer invoice")
  case True
  obtain i n where "offer_id invoice = Inr i" "amount = Some n" "ls_kind send = Bolt12" "ls_expected_id send = i"
      "ls_amount_sats send = n" "ls_amount_override send = Some n" "ls_invoice send = invoice" "ls_request_id send = rid"
      "checked_mul n 1000 \<noteq> None"
    by (rule prepared_offer [OF assms(1) True])
  then show ?thesis
    using assms(2) [OF True]
    by (auto simp: send_terms_def transpose_def sats_to_msats_def and_then_def payer_note_def validate_send_payment_def
        expected_msat_def payment_identity_matches_def)
next
  case False
  obtain b cap hash sats where "decode invoice = Some b" "ls_kind send = Bolt11" "ls_expected_id send = bi_payment_hash b"
      "ls_amount_override send = amount" "ls_invoice send = invoice" "ls_max_route_cltv send = Some cap"
      "verify_htlc hash sats = Inr cap" "bi_amount_msat b = None \<longrightarrow> amount = Some (ls_amount_sats send)"
      "bi_amount_msat b \<noteq> None \<longrightarrow> amount = None" "checked_mul (ls_amount_sats send) 1000 \<noteq> None"
    by (rule prepared_invoice [OF assms(1) False])
  note facts = this
  have terms: "send_terms send = Inr (PayInvoice invoice (case bi_amount_msat b of Some _ \<Rightarrow> None
      | None \<Rightarrow> checked_mul (ls_amount_sats send) 1000) (Some cap))"
    using facts by (cases "bi_amount_msat b") (auto simp: send_terms_def transpose_def sats_to_msats_def and_then_def)
  have "\<exists>h n c. verify_htlc h n = Inr c \<and> Some cap = Some c" using facts(7) by metis
  then show ?thesis
    using facts unfolding terms
    by (cases "bi_amount_msat b") (auto simp: validate_send_payment_def expected_msat_def payment_identity_matches_def)
qed

section \<open>Examples\<close>

theorem prepared_terms_accepted_witness:
  "send_terms example_prepared = Inr (PayInvoice ''lnbc'' None (Some 144)) \<and>
   validate_send_payment (\<lambda>_. Some example_invoice) example_prepared
     \<lparr>p_id = ''i'', p_outbound = True, p_amount_msat = Some 20500, p_status = PaymentPending, p_kind = Some (PBolt11 ''hash'' None None)\<rparr> = Inr ()"
proof -
  have "send_terms example_prepared = Inr (PayInvoice ''lnbc'' None (Some 144))"
    by (simp add: send_terms_def example_prepared_def transpose_def and_then_def)
  then show ?thesis
    using prepared_terms_accepted [OF example_prepare]
    by (auto simp: is_offer_def is_prefix_str_def ascii_lower_def example_invoice_def)
qed

definition example_node_payment :: node_payment where
  "example_node_payment = \<lparr>np_id = [1], np_kind = NodeBolt11 [2] None None, np_amount_msat = Some 5, np_outbound = False,
     np_status = PaymentSucceeded\<rparr>"

definition example_node :: node_env where
  "example_node = \<lparr>o_lib = \<lparr>nl_hex = map (\<lambda>b. if b = 1 then CHR ''1'' else CHR ''2''), nl_unhex = (\<lambda>_. None), nl_invoice = (\<lambda>_. Inr ()),
       nl_offer = (\<lambda>_. Inr []), nl_description = (\<lambda>_. Inr ()), nl_reason = (\<lambda>_. ''reason'')\<rparr>,
     o_embedded = True, o_server_send = (\<lambda>_ _. Inr ''''), o_server_offer_id = (\<lambda>_. Inr), o_server_details = (\<lambda>_ _. Inr None),
     o_server_list = (\<lambda>_ _. Inr ([], None)), o_server_invoice = (\<lambda>_ _ _ _ _. Inr ''''), o_server_offer = (\<lambda>_ _ _ _. Inr ('''', '''')),
     o_server_claim = (\<lambda>_ _ _ _. Inr ()), o_server_fail = (\<lambda>_ _. Inr ()), o_send = (\<lambda>_ _. Inr []),
     o_payment = (\<lambda>_ _. Inr (Some example_node_payment)), o_list = (\<lambda>_ _. Inr ([], None)),
     o_invoice = (\<lambda>_ _ _ _ _. Inr ''''), o_offer = (\<lambda>_ _ _ _. Inr ('''', [])), o_claim = (\<lambda>_ _ _ _. Inr ()),
     o_fail = (\<lambda>_ _. Inr ()), o_event = (\<lambda>_. NodeReceived [1]), o_handled = (\<lambda>_. Inr ()), o_disk = (\<lambda>_. Inr ())\<rparr>"

lemma example_node_fields:
  "nl_hex (o_lib example_node) = map (\<lambda>b. if b = 1 then CHR ''1'' else CHR ''2'')"
  "o_payment example_node = (\<lambda>_ _. Inr (Some example_node_payment))"
  by (simp_all add: example_node_def)

theorem transports_agree_witness:
  "fst (map_event (o_lib example_node) (event_payment example_node) (NodeReceived [1]) empty_world) =
     Inr (Some (InboundReceived ''1'' ''2''))"
proof -
  have "reports (o_lib example_node) example_node_payment (NodeReceived [1])
      (RawReceived (nl_hex (o_lib example_node) [1]) (Some (payment_snapshot (o_lib example_node) example_node_payment)))"
    by simp
  from transports_agree [OF this, of empty_world] show ?thesis
    by (simp add: example_node_fields map_envelope_def payment_snapshot_def example_node_payment_def bolt11_hash_def)
qed

end
