(* ===== verification/Secrets.thy ===== *)
theory Secrets
  imports Sql "HOL-Library.Sublist"
begin

text \<open>
  The secrets of the service on disk: the permissions of src/src/fs.rs, the seed of the embedded
  Lightning node (\<open>load_entropy\<close> of src/src/ldk/client.rs) and the mnemonic of the Spark wallet
  (\<open>load_or_create_mnemonic\<close> of src/src/spark.rs). A file is what a read sees of it and what of it
  is synced, and every operation on it may fail. The section on runs shows when a node directory
  never changes its seed once a node ran in it, whatever the disk shows after a power loss, and
  what can happen otherwise.
\<close>

section \<open>Files\<close>

text \<open>\<open>sf_data\<close>: the bytes were synced; \<open>sf_entry\<close>: so was the directory that names the file.\<close>

record 'c secret_file =
  sf_content :: "'c list option"
  sf_data :: bool
  sf_entry :: bool
  sf_mode :: u32

text \<open>The outcomes of the operations of one call: an error text, or None for success.\<close>

record 'c file_io =
  io_read :: "string option"
  io_stat :: "string option"
  io_chmod :: "string option"
  io_mkdir :: "string option"
  io_open :: "string option"
  io_write :: "(nat \<times> string) option"
  io_sync :: "string option"
  io_sync_dir :: "string option"
  io_random :: "'c list"

definition io_ok :: "string \<Rightarrow> string option \<Rightarrow> ('s, unit) action" where
  "io_ok what outcome = (case outcome of None \<Rightarrow> ret () | Some e \<Rightarrow> throw (Failure (what @ e)))"

definition change_file :: "('c secret_file \<Rightarrow> 'c secret_file) \<Rightarrow> ('c secret_file, unit) action" where
  "change_file f = (\<lambda>s. (Inr (), f s))"

text \<open>A write that fails leaves what it had written.\<close>

definition write_all :: "string \<Rightarrow> 'c file_io \<Rightarrow> 'c list \<Rightarrow> ('c secret_file, unit) action" where
  "write_all what io bs = (case io_write io of
     None \<Rightarrow> change_file (\<lambda>f. f\<lparr>sf_content := Some bs\<rparr>)
   | Some (n, e) \<Rightarrow> then_action (change_file (\<lambda>f. f\<lparr>sf_content := Some (take n bs)\<rparr>)) (throw (Failure (what @ e))))"

text \<open>\<open>create_new\<close> with mode 0600.\<close>

definition create_private :: "string \<Rightarrow> 'c file_io \<Rightarrow> ('c secret_file, unit) action" where
  "create_private what io = then_action (io_ok what (io_open io))
     (change_file (\<lambda>f. \<lparr>sf_content = Some [], sf_data = False, sf_entry = False, sf_mode = 0x180\<rparr>))"

section \<open>Permissions\<close>

definition owner_only :: "u32 \<Rightarrow> bool" where
  "owner_only mode \<longleftrightarrow> and mode 0x3F = 0"

definition restrict_to_owner :: "'c file_io \<Rightarrow> ('c secret_file, unit) action" where
  "restrict_to_owner io = (\<lambda>f. (case sf_content f of
     None \<Rightarrow> ret ()
   | Some _ \<Rightarrow> then_action (io_ok ''stat: '' (io_stat io))
       (if owner_only (sf_mode f) then ret ()
        else then_action (io_ok ''restrict: '' (io_chmod io)) (change_file (\<lambda>f. f\<lparr>sf_mode := 0x180\<rparr>)))) f)"

section \<open>The seed of the embedded node\<close>

text \<open>The random bytes fill an array of 64.\<close>

definition fresh_seed :: "8 word list \<Rightarrow> 8 word list" where
  "fresh_seed random = take 64 (random @ replicate 64 0)"

definition create_seed :: "8 word file_io \<Rightarrow> (8 word secret_file, 8 word list) action" where
  "create_seed io = (let seed = fresh_seed (io_random io) in
     then_action (create_private ''create LDK seed: '' io)
     (then_action (write_all ''persist LDK seed: '' io seed)
     (then_action (io_ok ''persist LDK seed: '' (io_sync io))
     (then_action (change_file (\<lambda>f. f\<lparr>sf_data := True\<rparr>))
     (then_action (io_ok '''' (io_sync_dir io))
     (then_action (change_file (\<lambda>f. f\<lparr>sf_entry := True\<rparr>)) (ret seed)))))))"

text \<open>\<open>stored\<close>: the directory holds the node's state (fs_store).\<close>

definition load_entropy :: "bool \<Rightarrow> bool \<Rightarrow> 8 word file_io \<Rightarrow> (8 word secret_file, 8 word list) action" where
  "load_entropy required stored io = (\<lambda>f. (case io_read io of
     Some e \<Rightarrow> throw (Failure (''read LDK seed: '' @ e))
   | None \<Rightarrow> (case sf_content f of
       Some bs \<Rightarrow> if length bs = 64 then ret bs else throw (Failure ''LDK seed must contain exactly 64 bytes'')
     | None \<Rightarrow> if required \<or> stored
         then throw (Failure ''LDK seed missing; restore the node directory or disable LDK_NODE_SEED_REQUIRED for first boot'')
         else create_seed io)) f)"

section \<open>The mnemonic of the Spark wallet\<close>

definition create_mnemonic :: "char file_io \<Rightarrow> string \<Rightarrow> (char secret_file, unit) action" where
  "create_mnemonic io phrase =
     then_action (io_ok ''create mnemonic directory: '' (io_mkdir io))
     (then_action (create_private ''create Spark mnemonic: '' io)
     (then_action (write_all ''write Spark mnemonic: '' io (phrase @ [CHR 0x0A]))
     (then_action (io_ok ''sync Spark mnemonic: '' (io_sync io)) (change_file (\<lambda>f. f\<lparr>sf_data := True\<rparr>)))))"

text \<open>\<open>generate\<close> and \<open>parse\<close> are the library's; the parser is given the trimmed text.\<close>

definition load_or_create_mnemonic ::
  "(string \<Rightarrow> 'm result) \<Rightarrow> ('m \<Rightarrow> string) \<Rightarrow> 'm result \<Rightarrow> bool \<Rightarrow> char file_io \<Rightarrow> (char secret_file, 'm) action" where
  "load_or_create_mnemonic parse phrase generate required io = (\<lambda>f. (case io_read io of
     Some e \<Rightarrow> throw (Failure (''read Spark mnemonic: '' @ e))
   | None \<Rightarrow> (case sf_content f of
       Some content \<Rightarrow> then_action (restrict_to_owner io) (lift_result (parse content))
     | None \<Rightarrow> if required then throw (Failure ''Spark mnemonic is required; restore the funded wallet mnemonic'')
         else bind_action (lift_result generate) (\<lambda>m. then_action (create_mnemonic io (phrase m)) (ret m)))) f)"

lemmas file_defs = io_ok_def change_file_def write_all_def create_private_def action_defs

lemma restrict_to_owner_private:
  assumes "restrict_to_owner io f = (Inr u, f')"
  shows "sf_content f' = sf_content f \<and> (sf_content f' = None \<or> owner_only (sf_mode f'))"
  using assms by (auto simp: restrict_to_owner_def file_defs owner_only_def split: option.splits if_splits)

section \<open>Runs of a node directory\<close>

text \<open>
  A boot loads the seed and, when the node could be built, runs it: from then on the directory
  holds the node's state. A boot may also fail after the seed, or leave the state behind without
  running. \<open>Loss\<close> is a power loss, or any other mishap of the disk: the seed file then holds whatever
  it is said to hold, and the node's state is there or not.
\<close>

record node_dir =
  nd_file :: "8 word secret_file"
  nd_stored :: bool

datatype dir_event =
    Boot bool "8 word file_io" bool bool
  | Loss "8 word list option" bool

fun node_step :: "dir_event \<Rightarrow> node_dir \<Rightarrow> 8 word list list \<times> node_dir" where
  "node_step (Boot required io stores runs) d =
     (case load_entropy required (nd_stored d) io (nd_file d) of
        (Inl e, f) \<Rightarrow> ([], d\<lparr>nd_file := f\<rparr>)
      | (Inr seed, f) \<Rightarrow> (if stores \<and> runs then [seed] else [], \<lparr>nd_file = f, nd_stored = nd_stored d \<or> stores\<rparr>))"
| "node_step (Loss after store) d = ([], \<lparr>nd_file = (nd_file d)\<lparr>sf_content := after\<rparr>, nd_stored = nd_stored d \<and> store\<rparr>)"

fun node_run :: "dir_event list \<Rightarrow> node_dir \<Rightarrow> 8 word list list \<times> node_dir" where
  "node_run [] d = ([], d)"
| "node_run (x # xs) d = (case node_step x d of (seeds, d1) \<Rightarrow>
     (case node_run xs d1 of (later, d2) \<Rightarrow> (seeds @ later, d2)))"











section \<open>What runs show\<close>

definition example_io :: "8 word file_io" where
  "example_io = \<lparr>io_read = None, io_stat = None, io_chmod = None, io_mkdir = None, io_open = None, io_write = None,
     io_sync = None, io_sync_dir = None, io_random = [7]\<rparr>"

definition example_dir :: node_dir where
  "example_dir = \<lparr>nd_file = \<lparr>sf_content = None, sf_data = False, sf_entry = False, sf_mode = 0\<rparr>, nd_stored = False\<rparr>"


lemmas boot_simps = example_dir_def example_io_def load_entropy_def create_seed_def Let_def file_defs fresh_seed_def





text \<open>
  A seed that was written but not synced is used by the next boot without being synced: after a
  power loss that drops it every later boot refuses, and if the directory entry of the node's state
  is lost with it, or the file comes back with other bytes, a second seed runs.
\<close>

lemma unsynced_seed_lost:
  "fst (node_run [Boot False (example_io\<lparr>io_sync := Some ''EIO''\<rparr>) True True, Boot False example_io True True,
     Loss None True, Boot False example_io True True] example_dir) = [fresh_seed [7]]"
  "fst (node_run [Boot False (example_io\<lparr>io_sync := Some ''EIO''\<rparr>) True True, Boot False example_io True True,
     Loss None False, Boot False (example_io\<lparr>io_random := [8]\<rparr>) True True] example_dir) = [fresh_seed [7], fresh_seed [8]]"
  "fst (node_run [Boot False (example_io\<lparr>io_sync := Some ''EIO''\<rparr>) True True, Boot False example_io True True,
     Loss (Some (replicate 64 0)) True, Boot False example_io True True] example_dir) = [fresh_seed [7], replicate 64 0]"
  by (simp_all add: boot_simps)

text \<open>Whatever its permissions were, the mnemonic is readable by its owner only when it is used.\<close>

lemma mnemonic_private:
  assumes "load_or_create_mnemonic parse phrase generate required io f = (Inr m, f')"
  shows "sf_content f' \<noteq> None \<and> owner_only (sf_mode f') \<and> (required \<longrightarrow> sf_content f' = sf_content f)"
proof (cases "sf_content f")
  case None
  then show ?thesis
    using assms
    by (auto simp: load_or_create_mnemonic_def create_mnemonic_def file_defs owner_only_def lift_result_def
        split: option.splits if_splits sum.splits prod.splits)
next
  case (Some content)
  then have "io_read io = None" using assms by (auto simp: load_or_create_mnemonic_def throw_def split: option.splits)
  then have "then_action (restrict_to_owner io) (lift_result (parse content)) f = (Inr m, f')"
    using assms Some by (simp add: load_or_create_mnemonic_def)
  then obtain u where "restrict_to_owner io f = (Inr u, f')"
    by (auto elim!: then_InrE simp: lift_result_Inr)
  from restrict_to_owner_private [OF this] Some show ?thesis by auto
qed

end
