(* ===== verification/Spec2Isabelle.thy ===== *)
theory Spec2Isabelle
  imports Auth Requests Payment_Store Spark_Splits Liquidity Transfers Settlement Exit_Runs Deposit_Guarantees
    Webhook_Guarantees Wallet_Guarantees Http_Safety Node_Guarantees Secrets
begin

text \<open>
  A verification library for open-ssp, the Spark service provider under src/src: it pays and
  receives Lightning payments for Spark wallets, takes bitcoin deposits into Spark and pays
  withdrawals out of it. Its state is one SQLite database; everything else (the Lightning node,
  Spark's operators, the Bitcoin node) is reached by calls whose answers may be lost, late,
  duplicated or wrong. The theorems say what no run can do to the database and to the log of
  calls, for every answer of those systems, and what the accepted answers guarantee.

  Layers and theories.

  \<^item> \<open>Prelude\<close>: errors, Rust's checked integers on machine words, JSON values. \<open>Sql\<close>: actions that
    may fail, transactions, SQL statements on tables (locales \<open>table\<close>, \<open>step_relation\<close>,
    \<open>evolving_table\<close>). \<open>Schema\<close>: every table of src/src/db.rs, lightning_store.rs,
    internal_payments.rs, static_deposits.rs, instant_deposits.rs, coop_exit.rs and webhooks.rs
    with its unique keys, and the locale \<open>keyed_table\<close>. \<open>Triples\<close>: Hoare triples for actions.
    \<open>World\<close>: the database with the log of external calls (locale \<open>backed_calls\<close>).
    \<open>Held_Records\<close>: services that act on stored records through calls (locale \<open>held_records\<close>).
  \<^item> \<open>Auth\<close>: src/src/auth.rs and the challenges and sessions of db.rs. \<open>Requests\<close>: requests,
    transfers and static quotes of db.rs, and the indexing of legacy requests.
  \<^item> \<open>Lightning_Sends\<close>, \<open>Receives\<close>, \<open>Payment_Store\<close>: the payment tables (lightning_store.rs, db.rs,
    internal_payments.rs) and any sequence of their operations, which is what concurrent
    handlers, the reconciler and a restart after a crash amount to: every operation is one
    closure under the connection's mutex. \<open>Spark_Splits\<close>: the durable split plans and leaf keys.
  \<^item> \<open>Liquidity\<close>, \<open>Transfers\<close>: the split planners and the validators of transfers, leaves, time
    locks and amounts in src/src/spark.rs. \<open>Lightning_Backend\<close>: the pure part of src/src/ldk.rs.
  \<^item> \<open>Settlement\<close>: the handlers of src/src/ldk.rs that send, receive, recover and settle payments.
  \<^item> \<open>Coop_Exit\<close>, \<open>Exit_Safety\<close>, \<open>Exit_Runs\<close>: the withdrawals of src/src/coop_exit.rs with their
    Spark side, the invariant of every run, and the claims about runs.
  \<^item> \<open>Deposits\<close>, \<open>Instant_Deposits\<close>: src/src/static_deposits.rs and instant_deposits.rs with the
    operator calls of spark.rs. \<open>Deposit_Safety\<close>, \<open>Deposit_Runs\<close>, \<open>Deposit_Guarantees\<close>: the invariant
    of the two services, its preservation by every handler and worker turn, and what it guarantees.
  \<^item> \<open>Wallet_Calls\<close>, \<open>Leaf_Splits\<close>, \<open>Spark_Wallet\<close>: the wallet of src/src/spark.rs, which splits leaves
    to pay exact amounts, checks and settles funding, and pays receives, refunds and swaps.
    \<open>Wallet_Safety\<close>, \<open>Wallet_Splits\<close>, \<open>Wallet_Runs\<close>, \<open>Wallet_Guarantees\<close>: its invariant, kept by the
    split driver and by every handler, and what a run guarantees.
  \<^item> \<open>History\<close>: the pages of src/src/history.rs. \<open>Addresses\<close>, \<open>Webhooks\<close>, \<open>Webhook_Safety\<close>,
    \<open>Webhook_Guarantees\<close>: src/src/webhooks.rs, with the addresses a notification may go to, the
    runs of its operations and their invariant, and what is posted, to whom and how often.
  \<^item> \<open>Quotes\<close>: the receive quotes of src/src/quotes.rs, what an accepted one binds and how many there are.
  \<^item> \<open>Service_World\<close>: the services above side by side, one log of the calls of all of them (locale
    \<open>call_part\<close>: an action of a part is an action of the whole that touches no other part's calls).
    \<open>Api_Values\<close>, \<open>Gateway\<close>: the values and all operations of src/src/graphql.rs, with the invoices and
    offers of ldk.rs. \<open>Gateway_Safety\<close>, \<open>Gateway_Requests\<close>, \<open>Gateway_Guarantees\<close>: who may ask, what an
    answered request has stored, and what repeated and foreign requests get.
    \<open>Http\<close>, \<open>Http_Safety\<close>: the endpoints, start-up checks and maintenance turn of src/src/main.rs.
  \<^item> \<open>Embedded_Node\<close>, \<open>Node_Guarantees\<close>: src/src/ldk/client.rs, the calls to a remote or embedded
    Lightning node and the event loop of the latter, and what they guarantee to settlement.
    \<open>Secrets\<close>: the node's seed, the mnemonic and the permissions of src/src/fs.rs, with failing
    file operations and any loss of what is on disk; which losses a theorem needs to exclude is
    its hypothesis.

  State and operations. A row is a record, a table a list of rows in rowid order, a JSON column
  the value it encodes, and the database a record of tables. A method of \<open>Db\<close> is an action from
  databases to a result and a database. A handler is an action on a world; an external call
  appends to the log and is answered by a function of the log, which is an argument. What the
  code takes from libraries (hashes, signatures, parsers, encoders, clocks, fresh ids) is an
  argument too. Amounts are words of the code's width; timestamps are integers in SQLite's range.
  Every failure of the code is a value of \<open>error\<close>.

  What the lemmas show. Store theories: keys stay unique, identities of payments never change,
  terminal outcomes are final, a submission happens once, multi-table commits are atomic.
  Validators: what an accepted transfer, payment, quote or plan guarantees. Handlers: a call that
  moves money is made only when its durable record and the earlier evidence justify it (for
  withdrawals and deposits: one stored record, to which all the evidence belongs); the
  relation or invariant behind each such theorem is kept by every handler.

  Bounds and fuel. Recursion is structural, except for the \<open>loop\<close>s of the split driver and of the
  waits for a transfer, which are partial functions next to their bounded forms: five rounds are
  enough for a split, since every round that goes on leaves a later status stored, and 61 lookups
  for a wait, since every sleep takes 250 of the 15000 milliseconds (theory \<open>Wallet_Guarantees\<close>).
  The claim of a swap sleeps at most 64 times in its five minutes. A bounded retry makes at most
  n + 1 attempts (\<open>retry_bounded\<close>); pagination of the payment lookup follows the page count the
  code allows; the replacement scan of instant deposits visits at most 21 blocks a turn, as the
  code's window does. The endless loops of the workers are one turn each: a run is a list of turns.

  Not modelled. The transport of HTTP, the environment variables of config.rs and the parser of
  GraphQL bodies: input and output around the operations here; text is treated as
  ASCII characters. Building and starting the embedded node, the gRPC connection of
  src/src/ldk/client.rs and the JSON-RPC client. The Spark SDK,
  which signs and moves leaves: its functions are calls of the log. The start-up of the Spark
  service. Migrations, \<open>updated_at\<close> columns and the triggers of request_updates.rs: the stamp a
  request shows is an argument. Locks are not values: a
  handler that holds the service lock is a turn, a request of the gateway is one action, and the
  wallet's check of a funding transfer by a send appears in the log as one call, and so does the
  SDK's making and selection of exact leaves for a deposit. A body of an administration request
  that axum cannot read is refused before the handlers modelled here. A panic
  (indexing, overflow in a debug build) is an error value where the code can reach it.
\<close>

end
